(* ===== verification/Prelude.thy ===== *)
theory Prelude
  imports Complex_Main "HOL-Library.Char_ord" "HOL-Library.List_Lexorder"
    "HOL-Library.Multiset" "HOL-Library.Product_Lexorder"
begin

text \<open>
  Shared ground of the development: the error type and the result type of
  operations that can throw, the insertion-ordered maps that stand for the
  JavaScript \<open>Map\<close> (with their interface as a locale), stable sorting, and the
  list lemmas that several components use. Nothing in this theory is specific
  to one file of the repository.
\<close>

named_theorems res_simps "evaluation of results that may carry an error"
named_theorems sorting_simps "what the stable sort keeps"

section \<open>Results and errors\<close>

text \<open>
  A JavaScript \<open>throw new Error(message)\<close> is \<open>Inl (JsError message)\<close>; the
  built-in errors that the modelled code can provoke have their own
  constructors. Code that returns normally is \<open>Inr\<close>.
\<close>

datatype js_error = JsError string | RangeError | TypeError | SyntaxError

type_synonym 'a res = "js_error + 'a"

fun res_bind :: "'a res \<Rightarrow> ('a \<Rightarrow> 'b res) \<Rightarrow> 'b res" where
  "res_bind (Inl e) f = Inl e"
| "res_bind (Inr x) f = f x"

fun res_map :: "('a \<Rightarrow> 'b) \<Rightarrow> 'a res \<Rightarrow> 'b res" where
  "res_map f (Inl e) = Inl e"
| "res_map f (Inr x) = Inr (f x)"

text \<open>\<open>error instanceof Error ? error.message : String(error)\<close>; the texts of the
  engine's own errors are not modelled.\<close>

fun error_message :: "js_error \<Rightarrow> string" where
  "error_message (JsError m) = m"
| "error_message RangeError = ''RangeError''"
| "error_message TypeError = ''TypeError''"
| "error_message SyntaxError = ''SyntaxError''"

text \<open>A loop that stops at the first throw.\<close>

fun res_mapM :: "('a \<Rightarrow> 'b res) \<Rightarrow> 'a list \<Rightarrow> 'b list res" where
  "res_mapM f [] = Inr []"
| "res_mapM f (x # xs) = res_bind (f x) (\<lambda>y. res_map (Cons y) (res_mapM f xs))"

fun res_fold :: "('a \<Rightarrow> 's \<Rightarrow> 's res) \<Rightarrow> 'a list \<Rightarrow> 's \<Rightarrow> 's res" where
  "res_fold f [] s = Inr s"
| "res_fold f (x # xs) s = res_bind (f x s) (res_fold f xs)"

definition is_ok :: "'a res \<Rightarrow> bool" where
  "is_ok r \<longleftrightarrow> (case r of Inl _ \<Rightarrow> False | Inr _ \<Rightarrow> True)"

lemma is_ok_simps [simp, res_simps]: "is_ok (Inr x)" "\<not> is_ok (Inl e)"
  by (simp_all add: is_ok_def)

lemma is_ok_iff: "is_ok r \<longleftrightarrow> (\<exists>x. r = Inr x)"
  by (cases r) auto

lemma res_bind_Inr [res_simps]:
  "res_bind r f = Inr y \<longleftrightarrow> (\<exists>x. r = Inr x \<and> f x = Inr y)"
  by (cases r) auto

lemma res_map_Inr [res_simps]: "res_map f r = Inr y \<longleftrightarrow> (\<exists>x. r = Inr x \<and> y = f x)"
  by (cases r) auto

lemma res_bind_Inl [res_simps]:
  "res_bind r f = Inl e \<longleftrightarrow> r = Inl e \<or> (\<exists>x. r = Inr x \<and> f x = Inl e)"
  by (cases r) auto

lemma res_fold_append: "res_fold f (xs @ ys) s = res_bind (res_fold f xs s) (res_fold f ys)"
proof (induction xs arbitrary: s)
  case (Cons x xs)
  then show ?case by (cases "f x s") auto
qed simp

text \<open>An invariant that every step keeps holds after the loop.\<close>

lemma res_fold_inv:
  assumes "res_fold f xs s = Inr t" and "P s"
    and "\<And>x u v. x \<in> set xs \<Longrightarrow> P u \<Longrightarrow> f x u = Inr v \<Longrightarrow> P v"
  shows "P t"
  using assms
proof (induction xs arbitrary: s)
  case (Cons x xs)
  then obtain u where u: "f x s = Inr u" "res_fold f xs u = Inr t"
    by (auto simp: res_simps)
  have "P u" using Cons.prems(2,3) u(1) by auto
  with Cons.IH [OF u(2)] Cons.prems(3) show ?case by auto
qed simp

lemma res_mapM_length: "res_mapM f xs = Inr ys \<Longrightarrow> length ys = length xs"
  by (induction xs arbitrary: ys) (auto simp: res_simps)

section \<open>Insertion-ordered maps\<close>

text \<open>
  A JavaScript \<open>Map\<close> remembers the order in which keys were first inserted:
  \<open>set\<close> on a present key replaces the value in place, on an absent key it
  appends. Here it is the association list in that order.
\<close>

type_synonym ('k, 'v) jsmap = "('k \<times> 'v) list"

definition jm_empty :: "('k, 'v) jsmap" where
  "jm_empty = []"

definition jm_get :: "('k, 'v) jsmap \<Rightarrow> 'k \<Rightarrow> 'v option" where
  "jm_get m k = map_of m k"

fun jm_set :: "'k \<Rightarrow> 'v \<Rightarrow> ('k, 'v) jsmap \<Rightarrow> ('k, 'v) jsmap" where
  "jm_set k v [] = [(k, v)]"
| "jm_set k v ((k', v') # m) = (if k' = k then (k, v) # m else (k', v') # jm_set k v m)"

definition jm_has :: "('k, 'v) jsmap \<Rightarrow> 'k \<Rightarrow> bool" where
  "jm_has m k \<longleftrightarrow> jm_get m k \<noteq> None"

definition jm_keys :: "('k, 'v) jsmap \<Rightarrow> 'k list" where
  "jm_keys m = List.map fst m"

definition jm_values :: "('k, 'v) jsmap \<Rightarrow> 'v list" where
  "jm_values m = List.map snd m"

definition jm_wf :: "('k, 'v) jsmap \<Rightarrow> bool" where
  "jm_wf m \<longleftrightarrow> distinct (jm_keys m)"

lemma jm_get_empty [simp]: "jm_get jm_empty k = None"
  by (simp add: jm_get_def jm_empty_def)

lemma jm_get_Nil [simp]: "jm_get [] k = None"
  by (simp add: jm_get_def)

lemma jm_get_set: "jm_get (jm_set k v m) k' = (if k' = k then Some v else jm_get m k')"
  by (induction k v m rule: jm_set.induct) (auto simp: jm_get_def)

lemma jm_keys_set:
  "jm_keys (jm_set k v m) = (if k \<in> set (jm_keys m) then jm_keys m else jm_keys m @ [k])"
  by (induction k v m rule: jm_set.induct) (auto simp: jm_keys_def)

lemma set_jm_set: "set (jm_set k v m) \<subseteq> insert (k, v) (set m)"
  by (induction k v m rule: jm_set.induct) auto

lemma jm_wf_empty [simp]: "jm_wf jm_empty" "jm_wf []"
  by (simp_all add: jm_wf_def jm_keys_def jm_empty_def)

lemma jm_wf_set [simp]: "jm_wf m \<Longrightarrow> jm_wf (jm_set k v m)"
  by (simp add: jm_wf_def jm_keys_set)

lemma jm_get_None: "jm_get m k = None \<longleftrightarrow> k \<notin> set (jm_keys m)"
  by (simp add: jm_get_def jm_keys_def map_of_eq_None_iff)

lemma jm_values_mem:
  "jm_wf m \<Longrightarrow> v \<in> set (jm_values m) \<longleftrightarrow> (\<exists>k. jm_get m k = Some v)"
  by (force simp: jm_wf_def jm_keys_def jm_values_def jm_get_def dest: map_of_SomeD)

lemma jm_mem_get: "jm_wf m \<Longrightarrow> (k, v) \<in> set m \<longleftrightarrow> jm_get m k = Some v"
  by (simp add: jm_wf_def jm_keys_def jm_get_def map_of_eq_Some_iff)

text \<open>The interface its clients rely on, and what follows from it alone.\<close>

locale ordered_map =
  fixes emp :: "'m"
    and put :: "'k \<Rightarrow> 'v \<Rightarrow> 'm \<Rightarrow> 'm"
    and get :: "'m \<Rightarrow> 'k \<Rightarrow> 'v option"
    and keys :: "'m \<Rightarrow> 'k list"
    and wf :: "'m \<Rightarrow> bool"
  assumes get_emp: "get emp k = None"
    and get_put: "get (put k v m) k' = (if k' = k then Some v else get m k')"
    and keys_put: "keys (put k v m) = (if k \<in> set (keys m) then keys m else keys m @ [k])"
    and keys_emp: "keys emp = []"
    and wf_emp: "wf emp"
    and wf_put: "wf m \<Longrightarrow> wf (put k v m)"
begin

lemma get_put_same: "get (put k v m) k = Some v"
  by (simp add: get_put)

lemma get_put_other: "k' \<noteq> k \<Longrightarrow> get (put k v m) k' = get m k'"
  by (simp add: get_put)

lemma keys_put_set: "set (keys (put k v m)) = insert k (set (keys m))"
  by (auto simp: keys_put)

text \<open>Writing a list of entries: the last entry for a key is the one that stays.\<close>

lemma get_fold_put:
  "get (fold (\<lambda>x. put (kf x) (vf x)) xs m) k =
     (case filter (\<lambda>x. kf x = k) xs of [] \<Rightarrow> get m k
      | _ \<Rightarrow> Some (vf (last (filter (\<lambda>x. kf x = k) xs))))"
proof (induction xs arbitrary: m)
  case (Cons x xs)
  then show ?case
    by (cases "filter (\<lambda>x. kf x = k) xs") (auto simp: get_put)
qed simp

lemma wf_fold_put: "wf m \<Longrightarrow> wf (fold (\<lambda>x. put (kf x) (vf x)) xs m)"
  by (induction xs arbitrary: m) (auto simp: wf_put)

lemma keys_fold_put_set:
  "set (keys (fold (\<lambda>x. put (kf x) (vf x)) xs m)) = set (keys m) \<union> kf ` set xs"
  by (induction xs arbitrary: m) (auto simp: keys_put_set)

text \<open>Two rounds of writes: the second round has precedence.\<close>

lemma get_fold_put_precedence:
  "k \<in> kg ` set ys \<Longrightarrow>
     get (fold (\<lambda>x. put (kg x) (vg x)) ys m) k =
     get (fold (\<lambda>x. put (kg x) (vg x)) ys emp) k"
  by (auto simp: get_fold_put filter_empty_conv split: list.splits)

lemma get_fold_put_keep:
  assumes "k \<notin> kg ` set ys"
  shows "get (fold (\<lambda>x. put (kg x) (vg x)) ys m) k = get m k"
proof -
  have "filter (\<lambda>x. kg x = k) ys = []"
    using assms by (auto simp: filter_empty_conv)
  then show ?thesis by (simp add: get_fold_put)
qed

end

interpretation jm: ordered_map jm_empty jm_set jm_get jm_keys jm_wf
  by unfold_locales
    (simp_all add: jm_get_set jm_keys_set, simp_all add: jm_keys_def jm_empty_def)

section \<open>Stable sorting\<close>

text \<open>
  \<open>Array.prototype.sort\<close> is stable, so sorting with a comparator that compares
  keys is the library's \<open>sort_key\<close>.
\<close>

lemma set_sort_key' [sorting_simps]: "set (sort_key f xs) = set xs"
  by simp

lemma sorted_sort_key' [sorting_simps]: "sorted (List.map f (sort_key f xs))"
  by simp

lemma length_sort_key' [sorting_simps]: "length (sort_key f xs) = length xs"
  by simp

lemma distinct_map_sort_key [sorting_simps]:
  "distinct (List.map g (sort_key f xs)) \<longleftrightarrow> distinct (List.map g xs)"
  by (metis mset_eq_imp_distinct_iff mset_map mset_sort)

lemma strict_sorted_iff': "sorted_wrt (<) (xs :: 'a::linorder list) \<longleftrightarrow> sorted xs \<and> distinct xs"
  by (simp add: strict_sorted_iff)

lemma sorted_map_filter:
  "sorted (List.map f xs) \<Longrightarrow> sorted (List.map f (filter P xs))"
  by (induction xs) auto

section \<open>Small list facts\<close>

lemma last_filter_mem: "filter P xs \<noteq> [] \<Longrightarrow> last (filter P xs) \<in> set xs \<and> P (last (filter P xs))"
  using last_in_set [of "filter P xs"] by auto

lemma find_Some_mem: "List.find P xs = Some x \<Longrightarrow> x \<in> set xs \<and> P x"
  by (auto simp: find_Some_iff)

text \<open>The maximum of the values present, starting from nothing.\<close>

definition opt_max :: "int option \<Rightarrow> int option \<Rightarrow> int option" where
  "opt_max a b = (case a of None \<Rightarrow> b | Some x \<Rightarrow>
     (case b of None \<Rightarrow> a | Some y \<Rightarrow> Some (max x y)))"

lemma opt_max_None [simp]: "opt_max None b = b" "opt_max a None = a"
  by (simp_all add: opt_max_def split: option.splits)

lemma opt_max_Some [simp]: "opt_max (Some x) (Some y) = Some (max x y)"
  by (simp add: opt_max_def)

definition opt_le :: "int option \<Rightarrow> int option \<Rightarrow> bool" where
  "opt_le a b \<longleftrightarrow> (case a of None \<Rightarrow> True | Some x \<Rightarrow> (case b of None \<Rightarrow> False | Some y \<Rightarrow> x \<le> y))"

lemma opt_le_trans: "opt_le a b \<Longrightarrow> opt_le b c \<Longrightarrow> opt_le a c"
  by (auto simp: opt_le_def split: option.splits)

lemma opt_le_max: "opt_le a (opt_max a b)" "opt_le b (opt_max a b)"
  by (auto simp: opt_le_def opt_max_def split: option.splits)

lemma opt_le_Some: "opt_le (Some x) b \<longleftrightarrow> (\<exists>y. b = Some y \<and> x \<le> y)"
  by (auto simp: opt_le_def split: option.splits)

lemma fold_opt_max_start: "opt_le a (fold (\<lambda>x a. opt_max a (f x)) xs a)"
proof (induction xs arbitrary: a)
  case (Cons x xs)
  from opt_le_trans [OF opt_le_max(1) Cons.IH [of "opt_max a (f x)"]]
  show ?case by simp
qed (auto simp: opt_le_def split: option.splits)

lemma fold_opt_max_ge: "x \<in> set xs \<Longrightarrow> opt_le (f x) (fold (\<lambda>x a. opt_max a (f x)) xs a)"
proof (induction xs arbitrary: a)
  case (Cons y xs)
  show ?case
  proof (cases "x = y")
    case True
    from opt_le_trans [OF opt_le_max(2) fold_opt_max_start [of "opt_max a (f y)"]] True
    show ?thesis by simp
  next
    case False
    with Cons show ?thesis by simp
  qed
qed simp

lemma fold_opt_max_mem:
  "fold (\<lambda>x a. opt_max a (f x)) xs a = Some n \<Longrightarrow>
     a = Some n \<or> (\<exists>x \<in> set xs. f x = Some n)"
proof (induction xs arbitrary: a)
  case (Cons x xs)
  then have "opt_max a (f x) = Some n \<or> (\<exists>x \<in> set xs. f x = Some n)" by auto
  then show ?case by (auto simp: opt_max_def max_def split: option.splits if_splits)
qed auto

end
