(* ===== verification/JsNumber.thy ===== *)
theory JsNumber
  imports Prelude
begin

text \<open>
  JavaScript numbers and the strings they are read from and printed to. A
  number is a finite IEEE binary64 value (held as the rational it denotes), an
  infinity or NaN; every arithmetic operation rounds to the nearest binary64
  value, ties to even, and overflows to an infinity. The sign of zero is not
  kept. Text is a list of characters; case conversion and white space are those
  of ASCII and of the no-break space.
\<close>

section \<open>Binary64 rounding\<close>

datatype jsnum = NaN | PInf | NInf | Fin rat

function ilog2 :: "int \<Rightarrow> nat" where
  "ilog2 n = (if n < 2 then 0 else Suc (ilog2 (n div 2)))"
  by pat_completeness auto
termination by (relation "measure nat") auto

declare ilog2.simps [simp del]

definition pow2 :: "int \<Rightarrow> rat" where
  "pow2 e = (if 0 \<le> e then 2 ^ nat e else 1 / 2 ^ nat (- e))"

definition floor_log2 :: "rat \<Rightarrow> int" where
  "floor_log2 a =
     (let (p, q) = quotient_of a; e = int (ilog2 p) - int (ilog2 q)
      in if pow2 e \<le> a then e else e - 1)"

definition round_half_even :: "rat \<Rightarrow> int" where
  "round_half_even x =
     (let f = \<lfloor>x\<rfloor>; d = x - of_int f
      in if d < 1 / 2 then f else if 1 / 2 < d then f + 1 else if even f then f else f + 1)"

definition rnd :: "rat \<Rightarrow> rat" where
  "rnd x =
     (if x = 0 then 0
      else let u = pow2 (max (floor_log2 \<bar>x\<bar> - 52) (- 1074))
           in sgn x * (u * of_int (round_half_even (\<bar>x\<bar> / u))))"

definition to_double :: "rat \<Rightarrow> jsnum" where
  "to_double x =
     (let y = rnd x in if pow2 1024 \<le> y then PInf else if y \<le> - pow2 1024 then NInf else Fin y)"

lemma pow2_pos [simp]: "0 < pow2 e"
  by (simp add: pow2_def)

lemma pow2_add: "pow2 (a + b) = pow2 a * pow2 b"
proof -
  have "pow2 e = 2 powi e" for e
    by (simp add: pow2_def power_int_def inverse_eq_divide power_one_over)
  then show ?thesis by (simp add: power_int_add)
qed

lemma pow2_nat: "pow2 (int n) = 2 ^ n"
  by (simp add: pow2_def)

lemma ilog2_bounds: "0 < n \<Longrightarrow> 2 ^ ilog2 n \<le> n \<and> n < 2 * 2 ^ ilog2 n"
proof (induction n rule: ilog2.induct)
  case (1 n)
  show ?case
  proof (cases "n < 2")
    case False
    with 1 have "2 ^ ilog2 (n div 2) \<le> n div 2 \<and> n div 2 < 2 * 2 ^ ilog2 (n div 2)" by simp
    with False show ?thesis by (simp add: ilog2.simps [of n]) linarith
  qed (use 1 in \<open>simp add: ilog2.simps [of n]\<close>)
qed

lemma round_half_even_int [simp]: "round_half_even (of_int n) = n"
  by (simp add: round_half_even_def)

lemma round_half_even_nonneg: "0 \<le> x \<Longrightarrow> 0 \<le> round_half_even x"
  by (simp add: round_half_even_def Let_def)

lemma rnd_0 [simp]: "rnd 0 = 0"
  by (simp add: rnd_def)

lemma rnd_nonneg: "0 \<le> x \<Longrightarrow> 0 \<le> rnd x"
  unfolding rnd_def Let_def sgn_if
  by (auto intro!: mult_nonneg_nonneg round_half_even_nonneg divide_nonneg_pos less_imp_le [OF pow2_pos]
      simp del: zero_less_mult_iff)

lemma floor_log2_le: 
  assumes "0 < a"
  shows "pow2 (floor_log2 a) \<le> a"
proof -
  obtain p q where pq: "quotient_of a = (p, q)" by (cases "quotient_of a")
  have q: "0 < q" and a: "a = of_int p / of_int q"
    using quotient_of_denom_pos [OF pq] quotient_of_div [OF pq] by auto
  have p: "0 < p" using assms q by (simp add: a zero_less_divide_iff)
  define i j where "i = ilog2 p" and "j = ilog2 q"
  have b: "(2::int) ^ i \<le> p" "q < 2 * 2 ^ j"
    using ilog2_bounds [of p] ilog2_bounds [of q] p q by (auto simp: i_def j_def)
  have b': "(2::rat) ^ i \<le> of_int p" "of_int q < (2::rat) * 2 ^ j"
    using b(1) [THEN of_int_le_iff [THEN iffD2]] b(2) [THEN of_int_less_iff [THEN iffD2]]
    by simp_all
  have "pow2 (int i - int j - 1) * (2 * 2 ^ j) = 2 ^ i"
    using pow2_add [of "int i - int j - 1" "int (Suc j)"] by (simp add: pow2_nat del: of_nat_Suc)
      (simp add: pow2_def)
  then have "pow2 (int i - int j - 1) * of_int q \<le> (2::rat) ^ i"
    using b'(2) by (metis less_imp_le mult_left_mono pow2_pos)
  with b'(1) have "pow2 (int i - int j - 1) * of_int q \<le> of_int p" by linarith
  then have "pow2 (int i - int j - 1) \<le> a"
    using q by (simp add: a pos_le_divide_eq)
  then show ?thesis by (simp add: floor_log2_def pq Let_def i_def j_def)
qed

text \<open>Integers below \<open>2^53\<close> are exact.\<close>

lemma rnd_int:
  assumes "\<bar>n\<bar> < 2 ^ 53"
  shows "rnd (of_int n) = of_int n"
proof (cases "n = 0")
  case False
  define a :: rat where "a = \<bar>of_int n\<bar>"
  define e where "e = floor_log2 a"
  define u where "u = pow2 (max (e - 52) (- 1074))"
  have a: "0 < a" "a < 2 ^ 53"
    using False assms of_int_less_iff [of "\<bar>n\<bar>" "2 ^ 53", where ?'a = rat] by (auto simp: a_def)
  have "e \<le> 52"
  proof (rule ccontr)
    assume "\<not> e \<le> 52"
    then have "53 \<le> nat e" "0 \<le> e" by linarith+
    then have "(2::rat) ^ 53 \<le> pow2 e"
      using power_increasing [of 53 "nat e" "2::rat"] by (simp add: pow2_def)
    with floor_log2_le [OF a(1)] a(2) show False by (simp add: e_def)
  qed
  define k where "k = nat (- max (e - 52) (- 1074))"
  have u: "u = 1 / 2 ^ k"
    using \<open>e \<le> 52\<close> by (cases "max (e - 52) (- 1074) = 0") (auto simp: u_def k_def pow2_def)
  have "a / u = of_int (\<bar>n\<bar> * 2 ^ k)" by (simp add: u a_def)
  then have "round_half_even (a / u) = \<bar>n\<bar> * 2 ^ k" by (simp only: round_half_even_int)
  then have "u * of_int (round_half_even (a / u)) = a" by (simp add: u a_def)
  then show ?thesis
    using False by (simp add: rnd_def Let_def u_def e_def a_def mult_sgn_abs)
qed simp

lemma to_double_int:
  assumes "\<bar>n\<bar> < 2 ^ 53"
  shows "to_double (of_int n) = Fin (of_int n)"
proof -
  have "(2::rat) ^ 53 \<le> pow2 1024"
    unfolding pow2_def by (simp add: power_increasing)
  moreover have "\<bar>of_int n\<bar> < (2::rat) ^ 53"
    using assms of_int_less_iff [of "\<bar>n\<bar>" "2 ^ 53", where ?'a = rat] by simp
  ultimately have "of_int n < pow2 1024" "- pow2 1024 < of_int n" by linarith+
  then show ?thesis
    using rnd_int [OF assms] by (simp add: to_double_def Let_def)
qed

text \<open>For evaluation: integers and small results need no look at the ends of the range.\<close>

lemma to_double_code [code]:
  "to_double x =
     (let (n, d) = quotient_of x in
      if d = 1 \<and> \<bar>n\<bar> < 9007199254740992 then Fin x
      else let y = rnd x in
        if \<bar>y\<bar> < 9007199254740992 then Fin y
        else if pow2 1024 \<le> y then PInf else if y \<le> - pow2 1024 then NInf else Fin y)"
proof -
  obtain n d where q: "quotient_of x = (n, d)" by force
  then have x: "x = of_int n / of_int d" by (rule quotient_of_div)
  have big: "9007199254740992 \<le> pow2 1024"
  proof -
    have "(2::rat) ^ 53 \<le> 2 ^ 1024" by (rule power_increasing) simp_all
    then show ?thesis by (simp add: pow2_def)
  qed
  show ?thesis
  proof (cases "d = 1 \<and> \<bar>n\<bar> < 9007199254740992")
    case True
    then have "to_double x = Fin x" using to_double_int [of n] x by simp
    with True q show ?thesis by simp
  next
    case False
    have "to_double x = Fin (rnd x)" if "\<bar>rnd x\<bar> < 9007199254740992"
      using that big by (auto simp: to_double_def Let_def abs_less_iff)
    with False q show ?thesis by (auto simp: to_double_def Let_def)
  qed
qed

section \<open>Operations\<close>

fun num_neg :: "jsnum \<Rightarrow> jsnum" where
  "num_neg NaN = NaN"
| "num_neg PInf = NInf"
| "num_neg NInf = PInf"
| "num_neg (Fin x) = Fin (- x)"

fun num_add :: "jsnum \<Rightarrow> jsnum \<Rightarrow> jsnum" where
  "num_add (Fin x) (Fin y) = to_double (x + y)"
| "num_add NaN b = NaN"
| "num_add a NaN = NaN"
| "num_add PInf NInf = NaN"
| "num_add NInf PInf = NaN"
| "num_add PInf b = PInf"
| "num_add a PInf = PInf"
| "num_add NInf b = NInf"
| "num_add a NInf = NInf"

definition num_sub :: "jsnum \<Rightarrow> jsnum \<Rightarrow> jsnum" where
  "num_sub a b = num_add a (num_neg b)"

fun num_sign :: "jsnum \<Rightarrow> int" where
  "num_sign PInf = 1"
| "num_sign NInf = - 1"
| "num_sign NaN = 0"
| "num_sign (Fin x) = (if x < 0 then - 1 else if x = 0 then 0 else 1)"

definition num_inf :: "int \<Rightarrow> jsnum" where
  "num_inf s = (if s < 0 then NInf else if s = 0 then NaN else PInf)"

fun num_mul :: "jsnum \<Rightarrow> jsnum \<Rightarrow> jsnum" where
  "num_mul (Fin x) (Fin y) = to_double (x * y)"
| "num_mul NaN b = NaN"
| "num_mul a NaN = NaN"
| "num_mul a b = num_inf (num_sign a * num_sign b)"

fun num_div :: "jsnum \<Rightarrow> jsnum \<Rightarrow> jsnum" where
  "num_div (Fin x) (Fin y) =
     (if y = 0 then num_inf (num_sign (Fin x)) else to_double (x / y))"
| "num_div (Fin x) PInf = Fin 0"
| "num_div (Fin x) NInf = Fin 0"
| "num_div PInf (Fin y) = (if y < 0 then NInf else PInf)"
| "num_div NInf (Fin y) = (if y < 0 then PInf else NInf)"
| "num_div a b = NaN"

fun num_lt :: "jsnum \<Rightarrow> jsnum \<Rightarrow> bool" where
  "num_lt (Fin x) (Fin y) = (x < y)"
| "num_lt NInf (Fin y) = True"
| "num_lt NInf PInf = True"
| "num_lt (Fin x) PInf = True"
| "num_lt a b = False"

fun num_eq :: "jsnum \<Rightarrow> jsnum \<Rightarrow> bool" where
  "num_eq NaN b = False"
| "num_eq a b = (a = b)"

definition num_le :: "jsnum \<Rightarrow> jsnum \<Rightarrow> bool" where
  "num_le a b \<longleftrightarrow> num_lt a b \<or> num_eq a b"

lemma num_le_Fin [simp]: "num_le (Fin x) (Fin y) \<longleftrightarrow> x \<le> y"
  by (auto simp: num_le_def)

text \<open>\<open>Number.isFinite\<close>, \<open>isInteger\<close>, \<open>isSafeInteger\<close>, and the rounding functions.\<close>

fun num_finite :: "jsnum \<Rightarrow> bool" where
  "num_finite (Fin x) = True"
| "num_finite _ = False"

fun num_integer :: "jsnum \<Rightarrow> int option" where
  "num_integer (Fin x) = (if of_int \<lfloor>x\<rfloor> = x then Some \<lfloor>x\<rfloor> else None)"
| "num_integer _ = None"

definition max_safe_integer :: int where
  "max_safe_integer = 2 ^ 53 - 1"

definition num_safe_integer :: "jsnum \<Rightarrow> int option" where
  "num_safe_integer a =
     (case num_integer a of None \<Rightarrow> None
      | Some n \<Rightarrow> if \<bar>n\<bar> \<le> max_safe_integer then Some n else None)"

fun num_floor :: "jsnum \<Rightarrow> jsnum" where
  "num_floor (Fin x) = Fin (of_int \<lfloor>x\<rfloor>)"
| "num_floor a = a"

definition rat_trunc :: "rat \<Rightarrow> int" where
  "rat_trunc x = (if x < 0 then \<lceil>x\<rceil> else \<lfloor>x\<rfloor>)"

fun num_trunc :: "jsnum \<Rightarrow> jsnum" where
  "num_trunc (Fin x) = Fin (of_int (rat_trunc x))"
| "num_trunc a = a"

fun num_max :: "jsnum \<Rightarrow> jsnum \<Rightarrow> jsnum" where
  "num_max NaN b = NaN"
| "num_max a NaN = NaN"
| "num_max a b = (if num_lt a b then b else a)"

fun num_min :: "jsnum \<Rightarrow> jsnum \<Rightarrow> jsnum" where
  "num_min NaN b = NaN"
| "num_min a NaN = NaN"
| "num_min a b = (if num_lt b a then b else a)"

definition num_of_int :: "int \<Rightarrow> jsnum" where
  "num_of_int n = to_double (of_int n)"

lemma num_of_int_exact: "\<bar>n\<bar> < 2 ^ 53 \<Longrightarrow> num_of_int n = Fin (of_int n)"
  by (simp add: num_of_int_def to_double_int)

lemma num_integer_Fin_int [simp]: "num_integer (Fin (of_int n)) = Some n"
  by simp

lemma num_integer_SomeD: "num_integer a = Some n \<Longrightarrow> a = Fin (of_int n)"
  by (cases a) (auto split: if_splits)

lemma to_double_nonneg: "0 \<le> x \<Longrightarrow> to_double x = PInf \<or> (\<exists>y \<ge> 0. to_double x = Fin y)"
proof -
  assume "0 \<le> x"
  then have "0 \<le> rnd x" by (rule rnd_nonneg)
  moreover have "- pow2 1024 < 0" by simp
  ultimately have "\<not> rnd x \<le> - pow2 1024" by linarith
  with \<open>0 \<le> rnd x\<close> show ?thesis by (auto simp: to_double_def Let_def)
qed

section \<open>Text\<close>

text \<open>Code units of one character; characters are ordered by them.\<close>

abbreviation char_code :: "char \<Rightarrow> int" where
  "char_code c \<equiv> of_char c"

definition is_digit :: "char \<Rightarrow> bool" where
  "is_digit c \<longleftrightarrow> 48 \<le> char_code c \<and> char_code c \<le> 57"

definition is_ws :: "char \<Rightarrow> bool" where
  "is_ws c \<longleftrightarrow> char_code c \<in> {9, 10, 11, 12, 13, 32, 160}"

definition char_lower :: "char \<Rightarrow> char" where
  "char_lower c = (if 65 \<le> char_code c \<and> char_code c \<le> 90 then char_of (char_code c + 32) else c)"

definition char_upper :: "char \<Rightarrow> char" where
  "char_upper c = (if 97 \<le> char_code c \<and> char_code c \<le> 122 then char_of (char_code c - 32) else c)"

definition js_trim :: "string \<Rightarrow> string" where
  "js_trim s = rev (dropWhile is_ws (rev (dropWhile is_ws s)))"

definition js_lower :: "string \<Rightarrow> string" where
  "js_lower s = List.map char_lower s"

definition js_upper :: "string \<Rightarrow> string" where
  "js_upper s = List.map char_upper s"

text \<open>\<open>s.split(sep)\<close> for a one-character separator, and \<open>s.split(/\\s+/)\<close>.\<close>

fun js_split :: "char \<Rightarrow> string \<Rightarrow> string list" where
  "js_split c [] = [[]]"
| "js_split c (x # xs) =
     (if x = c then [] # js_split c xs
      else (case js_split c xs of [] \<Rightarrow> [[x]] | s # ss \<Rightarrow> (x # s) # ss))"

fun js_split_ws :: "bool \<Rightarrow> string \<Rightarrow> string list" where
  "js_split_ws inws [] = [[]]"
| "js_split_ws inws (x # xs) =
     (if is_ws x then (if inws then js_split_ws True xs else [] # js_split_ws True xs)
      else (case js_split_ws False xs of [] \<Rightarrow> [[x]] | s # ss \<Rightarrow> (x # s) # ss))"

fun js_join :: "string \<Rightarrow> string list \<Rightarrow> string" where
  "js_join sep [] = []"
| "js_join sep [s] = s"
| "js_join sep (s # ss) = s @ sep @ js_join sep ss"

text \<open>\<open>s.includes(sub)\<close>\<close>

fun js_includes :: "string \<Rightarrow> string \<Rightarrow> bool" where
  "js_includes [] sub = (sub = [])"
| "js_includes (c # s) sub = (take (length sub) (c # s) = sub \<or> js_includes s sub)"

lemma js_split_nonempty [simp]: "js_split c s \<noteq> []"
  by (induction s) (auto split: list.splits)

lemma js_join_head: "js_join sep ((x # s) # ss) = x # js_join sep (s # ss)"
  by (cases ss) auto

lemma js_split_join: "js_join [c] (js_split c s) = s"
proof (induction s)
  case (Cons x s)
  then show ?case by (cases "js_split c s") (auto simp: js_join_head)
qed simp

section \<open>Decimal text\<close>

definition digit_char :: "int \<Rightarrow> char" where
  "digit_char n = char_of (48 + n)"

definition digit_val :: "char \<Rightarrow> int" where
  "digit_val c = char_code c - 48"

function nat_str :: "int \<Rightarrow> string" where
  "nat_str n = (if n < 10 then [digit_char n] else nat_str (n div 10) @ [digit_char (n mod 10)])"
  by pat_completeness auto
termination by (relation "measure nat") auto

declare nat_str.simps [simp del]

definition int_str :: "int \<Rightarrow> string" where
  "int_str i = (if i < 0 then CHR ''-'' # nat_str (- i) else nat_str i)"

definition digits_val :: "string \<Rightarrow> int" where
  "digits_val ds = foldl (\<lambda>a c. 10 * a + digit_val c) 0 ds"

lemma digit_char_code: "0 \<le> n \<Longrightarrow> n < 10 \<Longrightarrow> char_code (digit_char n) = 48 + n"
  by (simp add: digit_char_def)

lemma digit_val_char [simp]: "0 \<le> n \<Longrightarrow> n < 10 \<Longrightarrow> digit_val (digit_char n) = n"
  by (simp add: digit_val_def digit_char_code)

lemma is_digit_char [simp]: "0 \<le> n \<Longrightarrow> n < 10 \<Longrightarrow> is_digit (digit_char n)"
  by (simp add: is_digit_def digit_char_code)

lemma digits_val_Nil [simp]: "digits_val [] = 0"
  by (simp add: digits_val_def)

lemma digits_val_snoc: "digits_val (ds @ [c]) = 10 * digits_val ds + digit_val c"
  by (simp add: digits_val_def)

lemma digits_val_nat_str: "0 \<le> n \<Longrightarrow> digits_val (nat_str n) = n"
proof (induction n rule: nat_str.induct)
  case (1 n)
  then show ?case
    by (cases "n < 10")
      (simp_all add: nat_str.simps [of n] digits_val_snoc digits_val_def [of "[_]"])
qed

lemma nat_str_digits: "0 \<le> n \<Longrightarrow> list_all is_digit (nat_str n)"
proof (induction n rule: nat_str.induct)
  case (1 n)
  then show ?case by (cases "n < 10") (auto simp: nat_str.simps [of n])
qed

lemma nat_str_nonempty [simp]: "nat_str n \<noteq> []"
  by (subst nat_str.simps) simp

lemma nat_str_inj: "0 \<le> m \<Longrightarrow> 0 \<le> n \<Longrightarrow> nat_str m = nat_str n \<longleftrightarrow> m = n"
  by (metis digits_val_nat_str)

section \<open>Reading and printing numbers\<close>

text \<open>\<open>StringToNumber\<close> of ECMAScript: decimal literals with fraction and exponent,
  hexadecimal, octal and binary integers, \<open>Infinity\<close>, and 0 for blank text.\<close>

definition pow10 :: "int \<Rightarrow> rat" where
  "pow10 e = (if 0 \<le> e then 10 ^ nat e else 1 / 10 ^ nat (- e))"

definition parse_exponent :: "string \<Rightarrow> int option" where
  "parse_exponent s =
     (case s of [] \<Rightarrow> Some 0
      | c # t \<Rightarrow>
          if c = CHR ''e'' \<or> c = CHR ''E'' then
            (let (neg, ds) = (case t of [] \<Rightarrow> (False, []) | d # u \<Rightarrow>
                   if d = CHR ''-'' then (True, u) else if d = CHR ''+'' then (False, u) else (False, t))
             in if ds = [] \<or> \<not> list_all is_digit ds then None
                else Some (if neg then - digits_val ds else digits_val ds))
          else None)"

definition parse_unsigned_decimal :: "string \<Rightarrow> jsnum" where
  "parse_unsigned_decimal s =
     (if s = ''Infinity'' then PInf
      else
        let ip = takeWhile is_digit s;
            r = dropWhile is_digit s;
            (fp, r2) = (case r of c # t \<Rightarrow>
                if c = CHR ''.'' then (takeWhile is_digit t, dropWhile is_digit t) else ([], r)
              | [] \<Rightarrow> ([], []))
        in if ip = [] \<and> fp = [] then NaN
           else (case parse_exponent r2 of None \<Rightarrow> NaN
                 | Some e \<Rightarrow> to_double (of_int (digits_val (ip @ fp)) * pow10 (e - int (length fp)))))"

definition radix_digit :: "char \<Rightarrow> int" where
  "radix_digit c =
     (if is_digit c then digit_val c
      else let l = char_code (char_lower c) in if 97 \<le> l \<and> l \<le> 102 then l - 87 else 99)"

definition parse_radix :: "int \<Rightarrow> string \<Rightarrow> jsnum" where
  "parse_radix b ds =
     (if ds = [] \<or> list_ex (\<lambda>c. b \<le> radix_digit c) ds then NaN
      else to_double (of_int (foldl (\<lambda>a c. b * a + radix_digit c) 0 ds)))"

definition js_parse_number :: "string \<Rightarrow> jsnum" where
  "js_parse_number str =
     (let s = js_trim str in
      if s = [] then Fin 0
      else if List.member [''0x'', ''0X''] (take 2 s) then parse_radix 16 (drop 2 s)
      else if List.member [''0o'', ''0O''] (take 2 s) then parse_radix 8 (drop 2 s)
      else if List.member [''0b'', ''0B''] (take 2 s) then parse_radix 2 (drop 2 s)
      else if hd s = CHR ''-'' then num_neg (parse_unsigned_decimal (tl s))
      else if hd s = CHR ''+'' then parse_unsigned_decimal (tl s)
      else parse_unsigned_decimal s)"

text \<open>\<open>Number::toString\<close>: the shortest decimal digits that read back as the value,
  laid out with or without an exponent by its size.\<close>

fun first_some :: "(nat \<Rightarrow> 'a option) \<Rightarrow> nat \<Rightarrow> nat \<Rightarrow> 'a option" where
  "first_some f k 0 = None"
| "first_some f k (Suc n) = (case f k of Some x \<Rightarrow> Some x | None \<Rightarrow> first_some f (Suc k) n)"

definition dec_exponent :: "rat \<Rightarrow> int" where
  \<comment> \<open>the \<open>n\<close> with \<open>10^(n-1) \<le> x < 10^n\<close>, for positive \<open>x\<close>\<close>
  "dec_exponent x =
     (let (p, q) = quotient_of x;
          n = int (length (nat_str p)) - int (length (nat_str q))
      in if pow10 n \<le> x then n + 1 else n)"

definition shortest_digits :: "rat \<Rightarrow> int \<Rightarrow> int \<times> int" where
  \<comment> \<open>the digits as an integer and their decimal exponent; a value just below a power
    of ten may round up to it\<close>
  "shortest_digits x n =
     (case first_some (\<lambda>k. let d = round_half_even (x / pow10 (n - int k))
                           in if rnd (of_int d * pow10 (n - int k)) = x then Some d else None) 1 17
      of Some d \<Rightarrow> if d = 10 then (1, n + 1) else (d, n) | None \<Rightarrow> (0, n))"

definition num_str_pos :: "rat \<Rightarrow> string" where
  "num_str_pos x =
     (let (d, n) = shortest_digits x (dec_exponent x);
          ds = nat_str d;
          k = int (length ds)
      in if k \<le> n \<and> n \<le> 21 then ds @ replicate (nat (n - k)) (CHR ''0'')
         else if 0 < n \<and> n \<le> 21 then take (nat n) ds @ ''.'' @ drop (nat n) ds
         else if - 6 < n \<and> n \<le> 0 then ''0.'' @ replicate (nat (- n)) (CHR ''0'') @ ds
         else (let e = n - 1; es = (if e < 0 then ''-'' else ''+'') @ nat_str \<bar>e\<bar>
               in if k = 1 then ds @ ''e'' @ es else take 1 ds @ ''.'' @ drop 1 ds @ ''e'' @ es))"

fun num_str :: "jsnum \<Rightarrow> string" where
  "num_str NaN = ''NaN''"
| "num_str PInf = ''Infinity''"
| "num_str NInf = ''-Infinity''"
| "num_str (Fin x) =
     (if x = 0 then ''0''
      else if x < 0 then CHR ''-'' # num_str_pos (- x) else num_str_pos x)"

text \<open>The digits of a natural number read back as that number.\<close>

lemma dropWhile_id: "(\<And>x. x \<in> set xs \<Longrightarrow> \<not> P x) \<Longrightarrow> dropWhile P xs = xs"
  by (cases xs) auto

lemma js_trim_id: "(\<And>c. c \<in> set s \<Longrightarrow> \<not> is_ws c) \<Longrightarrow> js_trim s = s"
  using dropWhile_id [of s is_ws] dropWhile_id [of "rev s" is_ws] by (simp add: js_trim_def)

lemma digit_not_ws: "is_digit c \<Longrightarrow> \<not> is_ws c"
  by (auto simp: is_digit_def is_ws_def)

lemma js_trim_digits: "list_all is_digit s \<Longrightarrow> js_trim s = s"
  by (intro js_trim_id) (auto simp: list_all_iff digit_not_ws)

lemma digits_take_drop:
  assumes "list_all is_digit ds"
  shows "takeWhile is_digit ds = ds" "dropWhile is_digit ds = []"
  using assms by (auto simp: list_all_iff)

lemma parse_unsigned_digits:
  assumes "list_all is_digit ds" "ds \<noteq> []"
  shows "parse_unsigned_decimal ds = to_double (of_int (digits_val ds))"
proof -
  have "ds \<noteq> ''Infinity''" using assms by (auto simp: is_digit_def)
  then show ?thesis
    using assms(2) digits_take_drop [OF assms(1)]
    by (simp add: parse_unsigned_decimal_def Let_def parse_exponent_def pow10_def
        del: takeWhile_eq_all_conv dropWhile_eq_Nil_conv)
qed

lemma parse_digits:
  assumes "list_all is_digit ds" "ds \<noteq> []"
  shows "js_parse_number ds = to_double (of_int (digits_val ds))"
proof -
  have "is_digit (hd ds)" using assms by (cases ds) auto
  then have hd: "hd ds \<noteq> CHR ''-''" "hd ds \<noteq> CHR ''+''" by (auto simp: is_digit_def)
  have tk: "take 2 ds \<noteq> [a, b]" if "\<not> is_digit b" for a b
  proof
    assume "take 2 ds = [a, b]"
    then have "b \<in> set ds" by (metis in_set_takeD list.set_intros)
    with assms(1) that show False by (auto simp: list_all_iff)
  qed
  have "\<not> is_digit (CHR ''x'')" "\<not> is_digit (CHR ''X'')" "\<not> is_digit (CHR ''o'')"
    "\<not> is_digit (CHR ''O'')" "\<not> is_digit (CHR ''b'')" "\<not> is_digit (CHR ''B'')"
    by (simp_all add: is_digit_def)
  with tk have "take 2 ds \<notin> set [''0x'', ''0X'', ''0o'', ''0O'', ''0b'', ''0B'']" by auto
  then show ?thesis
    using assms hd
    by (simp add: js_parse_number_def Let_def js_trim_digits parse_unsigned_digits)
qed

lemma parse_nat_str:
  assumes "0 \<le> n" "n < 2 ^ 53"
  shows "js_parse_number (nat_str n) = Fin (of_int n)"
  using to_double_int [of n] assms by (simp add: parse_digits digits_val_nat_str nat_str_digits)

section \<open>Rounding error and integer quotients\<close>
lemma pow2_mono: "a \<le> b \<Longrightarrow> pow2 a \<le> pow2 b"
proof -
  assume "a \<le> b"
  then obtain n where n: "b = a + int n" by (metis zle_iff_zadd)
  have "(1::rat) \<le> 2 ^ n" by simp
  then have "pow2 a * 1 \<le> pow2 a * 2 ^ n"
    using less_imp_le [OF pow2_pos [of a]] by (rule mult_left_mono)
  then show ?thesis by (simp add: n pow2_add pow2_nat)
qed

lemma pow2_less_imp: "pow2 a < pow2 b \<Longrightarrow> a < b"
  using pow2_mono [of b a] by (meson linorder_not_le)

lemma floor_log2_less:
  assumes "0 < a"
  shows "a < pow2 (floor_log2 a + 1)"
proof -
  obtain p q where pq: "quotient_of a = (p, q)" by (cases "quotient_of a")
  have q: "0 < q" and a: "a = of_int p / of_int q"
    using quotient_of_denom_pos [OF pq] quotient_of_div [OF pq] by auto
  have p: "0 < p" using assms q by (simp add: a zero_less_divide_iff)
  define i j where "i = ilog2 p" and "j = ilog2 q"
  have b: "p < 2 * (2::int) ^ i" "2 ^ j \<le> q"
    using ilog2_bounds [of p] ilog2_bounds [of q] p q by (auto simp: i_def j_def)
  have b': "of_int p < (2::rat) * 2 ^ i" "(2::rat) ^ j \<le> of_int q"
    using b(2) [THEN of_int_le_iff [THEN iffD2]] b(1) [THEN of_int_less_iff [THEN iffD2]]
    by simp_all
  have "pow2 (int i - int j + 1) * 2 ^ j = 2 * 2 ^ i"
    using pow2_add [of "int i - int j + 1" "int j"] pow2_add [of "int i" 1]
    by (simp add: pow2_nat add.commute) (simp add: pow2_def)
  then have "2 * (2::rat) ^ i \<le> pow2 (int i - int j + 1) * of_int q"
    using b'(2) by (metis less_imp_le mult_left_mono pow2_pos)
  with b'(1) have "of_int p < pow2 (int i - int j + 1) * of_int q" by linarith
  then have "a < pow2 (int i - int j + 1)"
    using q by (simp add: a pos_divide_less_eq)
  then show ?thesis by (auto simp: floor_log2_def pq Let_def i_def j_def)
qed

lemma round_half_even_error: "\<bar>of_int (round_half_even x) - x\<bar> \<le> 1 / 2"
proof -
  have "of_int \<lfloor>x\<rfloor> \<le> x" "x < of_int \<lfloor>x\<rfloor> + 1" by linarith+
  then show ?thesis by (auto simp: round_half_even_def Let_def)
qed

lemma rnd_error:
  assumes "0 < x" "pow2 (- 1000) \<le> x"
  shows "\<bar>rnd x - x\<bar> \<le> x / 2 ^ 53"
proof -
  define e where "e = floor_log2 x"
  have "pow2 (- 1000) < pow2 (e + 1)"
    using floor_log2_less [OF assms(1)] assms(2) by (simp add: e_def)
  then have e: "- 1001 < e" using pow2_less_imp by fastforce
  define u where "u = pow2 (e - 52)"
  have u: "0 < u" by (simp add: u_def)
  have r: "rnd x = u * of_int (round_half_even (x / u))"
    using assms(1) e by (simp add: rnd_def Let_def u_def e_def max_def)
  have "rnd x - x = u * (of_int (round_half_even (x / u)) - x / u)"
    using u by (simp add: r algebra_simps)
  then have "\<bar>rnd x - x\<bar> = u * \<bar>of_int (round_half_even (x / u)) - x / u\<bar>"
    using u by (simp add: abs_mult)
  also have "\<dots> \<le> u * (1 / 2)"
    using round_half_even_error [of "x / u"] u by (intro mult_left_mono) auto
  also have "u * (1 / 2) = pow2 e / 2 ^ 53"
    using pow2_add [of "e - 52" 52] by (simp add: u_def) (simp add: pow2_def [of 52])
  also have "\<dots> \<le> x / 2 ^ 53"
    using floor_log2_le [OF assms(1)] by (simp add: e_def divide_right_mono)
  finally show ?thesis .
qed

lemma rnd_minus: "rnd (- x) = - rnd x"
  by (simp add: rnd_def Let_def sgn_minus)

lemma rnd_quotient_error:
  assumes "0 < a" "a < 2 ^ 53" "0 < b" "b < 2 ^ 53"
  shows "\<bar>rnd (of_int a / of_int b) - of_int a / of_int b\<bar> < 1 / of_int b"
proof -
  let ?x = "of_int a / of_int b :: rat"
  have ab: "(1::rat) \<le> of_int a" "(0::rat) < of_int b" "of_int a < (2::rat) ^ 53" "of_int b < (2::rat) ^ 53"
    using assms(1,3) of_int_less_iff [of a "2 ^ 53", where ?'a = rat]
      of_int_less_iff [of b "2 ^ 53", where ?'a = rat] assms(2,4) by auto
  have "pow2 (- 1000) \<le> pow2 (- 53)" by (rule pow2_mono) simp
  also have "pow2 (- 53) = 1 / 2 ^ 53" by (simp add: pow2_def)
  also have "\<dots> \<le> 1 / of_int b" using ab by (intro divide_left_mono) auto
  also have "\<dots> \<le> ?x" using ab by (intro divide_right_mono) auto
  finally have "\<bar>rnd ?x - ?x\<bar> \<le> ?x / 2 ^ 53" using ab by (intro rnd_error) auto
  also have "?x / 2 ^ 53 = (of_int a / 2 ^ 53) * (1 / of_int b)" by simp
  also have "\<dots> < 1 * (1 / of_int b)" using ab by (intro mult_strict_right_mono) auto
  finally show ?thesis by simp
qed

text \<open>\<open>Math.floor(a / b)\<close> of integers below \<open>2^53\<close> is the integer quotient: the
  rounding of the division never reaches the next integer.\<close>

lemma floor_rnd_div:
  assumes "\<bar>a\<bar> < 2 ^ 53" "0 < b" "b < 2 ^ 53"
  shows "\<lfloor>rnd (of_int a / of_int b)\<rfloor> = a div b"
proof (cases "b dvd a")
  case True
  then obtain k where k: "a = b * k" by blast
  have "\<bar>k\<bar> * 1 \<le> \<bar>k\<bar> * b" using assms(2) by (intro mult_left_mono) auto
  then have "\<bar>k\<bar> < 2 ^ 53" using assms by (simp add: k abs_mult mult.commute)
  moreover have "(of_int a / of_int b :: rat) = of_int k" using assms(2) by (simp add: k)
  ultimately show ?thesis using rnd_int [of k] assms(2) by (simp add: k)
next
  case False
  then have a0: "a \<noteq> 0" by auto
  let ?x = "of_int a / of_int b :: rat"
  define d where "d = a div b"
  define r where "r = a mod b"
  have r: "1 \<le> r" "r \<le> b - 1" "a = b * d + r"
  proof -
    have "a mod b \<noteq> 0" using False by (simp add: dvd_eq_mod_eq_0)
    then show "1 \<le> r" "r \<le> b - 1"
      using pos_mod_bound [OF assms(2), of a] pos_mod_sign [OF assms(2), of a]
      unfolding r_def by linarith+
    show "a = b * d + r" by (simp add: r_def d_def)
  qed
  have b: "(0::rat) < of_int b" using assms(2) by simp
  have err: "\<bar>rnd ?x - ?x\<bar> < 1 / of_int b"
  proof (cases "0 < a")
    case True
    then show ?thesis using rnd_quotient_error [of a b] assms by simp
  next
    case False
    then have "0 < - a" using a0 by simp
    then have "\<bar>rnd (- ?x) - - ?x\<bar> < 1 / of_int b"
      using rnd_quotient_error [of "- a" b] assms by simp
    then show ?thesis unfolding rnd_minus by linarith
  qed
  have x: "?x = of_int d + of_int r / of_int b"
    using b r(3) by (simp add: field_simps)
  have "1 / of_int b \<le> (of_int r / of_int b :: rat)" "of_int r / of_int b \<le> 1 - 1 / (of_int b :: rat)"
    using b r(1,2) of_int_le_iff [of r "b - 1", where ?'a = rat] by (auto simp: field_simps)
  with err x have "of_int d < rnd ?x" "rnd ?x < of_int d + 1" by (auto simp: abs_less_iff)
  then show ?thesis by (auto simp: d_def [symmetric] floor_eq_iff)
qed

lemma num_floor_div:
  assumes "\<bar>a\<bar> < 2 ^ 53" "0 < b" "b < 2 ^ 53"
  shows "num_floor (num_div (Fin (of_int a)) (Fin (of_int b))) = Fin (of_int (a div b))"
proof -
  let ?x = "of_int a / of_int b :: rat"
  have fl: "\<lfloor>rnd ?x\<rfloor> = a div b" by (rule floor_rnd_div [OF assms])
  have "\<lfloor>?x\<rfloor> = a div b" by (simp add: floor_divide_of_int_eq)
  with fl have near: "rnd ?x < ?x + 1" "?x - 1 < rnd ?x"
    by linarith+
  have "\<bar>of_int a\<bar> < (2::rat) ^ 53"
    using assms(1) of_int_less_iff [of "\<bar>a\<bar>" "2 ^ 53", where ?'a = rat] by simp
  moreover have "\<bar>?x\<bar> \<le> \<bar>of_int a\<bar>"
    using assms(2) by (simp add: abs_divide divide_le_eq mult_le_cancel_left1)
  ultimately have "\<bar>?x\<bar> < 2 ^ 53" by linarith
  moreover have "(2::rat) ^ 53 + 1 \<le> pow2 1024"
    using pow2_mono [of 54 1024] by (simp add: pow2_def [of 54])
  ultimately have "rnd ?x < pow2 1024" "- pow2 1024 < rnd ?x" using near by linarith+
  then show ?thesis using assms(2) fl by (simp add: to_double_def Let_def)
qed

section \<open>Trimming twice\<close>

lemma dropWhile_idem: "dropWhile P (dropWhile P xs) = dropWhile P xs"
  by (induction xs) auto

lemma dropWhile_id_iff: "dropWhile P xs = xs \<longleftrightarrow> xs = [] \<or> \<not> P (hd xs)"
proof (cases xs)
  case (Cons a as)
  have "length (dropWhile P as) \<le> length as" by (rule length_dropWhile_le)
  then show ?thesis using Cons by (auto dest: arg_cong [of _ _ length])
qed simp

lemma dropWhile_rev_idem:
  assumes "dropWhile P xs = xs"
  shows "dropWhile P (rev (dropWhile P (rev xs))) = rev (dropWhile P (rev xs))"
proof -
  define ys where "ys = rev (dropWhile P (rev xs))"
  have "rev xs = takeWhile P (rev xs) @ rev ys" by (simp add: ys_def)
  then have "xs = ys @ rev (takeWhile P (rev xs))" by (metis rev_append rev_rev_ident)
  then have "ys = [] \<or> hd ys = hd xs \<and> xs \<noteq> []" by (metis append_is_Nil_conv hd_append2)
  then show ?thesis using assms unfolding dropWhile_id_iff ys_def [symmetric] by auto
qed

lemma js_trim_idem [simp]: "js_trim (js_trim s) = js_trim s"
  unfolding js_trim_def
  using dropWhile_rev_idem [of is_ws "dropWhile is_ws s"] by (simp add: dropWhile_idem)

section \<open>Printing whole numbers\<close>

lemma length_nat_str:
  "0 < n \<Longrightarrow> 10 ^ (length (nat_str n) - 1) \<le> n \<and> n < 10 ^ length (nat_str n)"
proof (induction n rule: nat_str.induct)
  case (1 n)
  show ?case
  proof (cases "n < 10")
    case False
    define l where "l = length (nat_str (n div 10))"
    have "0 < l" by (simp add: l_def)
    moreover have "10 ^ (l - 1) \<le> n div 10 \<and> n div 10 < 10 ^ l"
      using 1 False unfolding l_def by simp
    ultimately have "10 ^ l \<le> n \<and> n < 10 * 10 ^ l"
      by (cases l) auto
    then show ?thesis using False by (simp add: nat_str.simps [of n] l_def)
  qed (use 1 in \<open>simp add: nat_str.simps [of n]\<close>)
qed

lemma length_nat_str_eq:
  assumes "10 ^ k \<le> n" "n < 10 ^ Suc k"
  shows "length (nat_str n) = Suc k"
proof -
  have n: "0 < n" using assms(1) by (meson less_le_trans zero_less_numeral zero_less_power)
  define l where "l = length (nat_str n)"
  have l: "10 ^ (l - 1) \<le> n" "n < 10 ^ l" using length_nat_str [OF n] by (simp_all add: l_def)
  have "(10::int) ^ (l - 1) < 10 ^ Suc k" "(10::int) ^ k < 10 ^ l" using assms l by linarith+
  then have "l - 1 < Suc k" "k < l"
    using power_less_imp_less_exp [of "10::int" "l - 1" "Suc k"] power_less_imp_less_exp [of "10::int" k l]
    by linarith+
  then show ?thesis by (simp add: l_def)
qed

lemma first_some_least:
  assumes "first_some f k n = Some d"
  shows "\<exists>i. k \<le> i \<and> i < k + n \<and> f i = Some d \<and> (\<forall>j. k \<le> j \<and> j < i \<longrightarrow> f j = None)"
  using assms
proof (induction f k n rule: first_some.induct)
  case (2 f k n)
  show ?case
  proof (cases "f k")
    case None
    then obtain i where i: "Suc k \<le> i" "i < Suc k + n" "f i = Some d" "\<forall>j. Suc k \<le> j \<and> j < i \<longrightarrow> f j = None"
      using 2 by auto
    have "\<forall>j. k \<le> j \<and> j < i \<longrightarrow> f j = None" using i(4) None by (metis Suc_leI le_neq_implies_less)
    with i show ?thesis by (intro exI [of _ i]) auto
  qed (use 2 in auto)
qed simp

lemma first_some_found:
  "f i \<noteq> None \<Longrightarrow> k \<le> i \<Longrightarrow> i < k + n \<Longrightarrow> first_some f k n \<noteq> None"
proof (induction f k n rule: first_some.induct)
  case (2 f k n)
  then show ?case by (cases "i = k") (auto split: option.splits)
qed simp

lemma round_half_even_bounds: "x - 1 / 2 \<le> of_int (round_half_even x) \<and> of_int (round_half_even x) \<le> x + 1 / 2"
  using abs_le_D1 [OF round_half_even_error [of x]] abs_le_D2 [OF round_half_even_error [of x]] by linarith

lemma pow10_nat [simp]: "pow10 (int n) = 10 ^ n"
  by (simp add: pow10_def)

lemma dec_exponent_int:
  assumes "0 < m"
  shows "dec_exponent (of_int m) = int (length (nat_str m))"
proof -
  obtain l where l: "length (nat_str m) = Suc l" by (cases "nat_str m") auto
  have "10 ^ l \<le> m" using length_nat_str [OF assms] l by simp
  then have "(10::rat) ^ l \<le> of_int m" using of_int_le_iff [of "10 ^ l" m, where ?'a = rat] by simp
  moreover have "length (nat_str 1) = 1" by (simp add: nat_str.simps)
  ultimately show ?thesis by (simp add: dec_exponent_def l)
qed

text \<open>The leading digits of a whole number of \<open>l + 1\<close> digits, rounded.\<close>

lemma scaled_bounds:
  fixes m :: int
  assumes "10 ^ l \<le> m" "m < 10 ^ Suc l" "l = j + k"
  shows "(10::rat) ^ j \<le> of_int m / 10 ^ k \<and> of_int m / 10 ^ k < (10::rat) ^ Suc j"
proof -
  have "(10::rat) ^ j * 10 ^ k \<le> of_int m"
    using assms(1) of_int_le_iff [of "10 ^ l" m, where ?'a = rat] by (simp add: assms(3) power_add)
  moreover have "of_int m < (10::rat) ^ Suc j * 10 ^ k"
    using assms(2) of_int_less_iff [of m "10 ^ Suc l", where ?'a = rat] by (simp add: assms(3) power_add)
  ultimately show ?thesis by (simp add: pos_le_divide_eq pos_divide_less_eq del: power_Suc)
qed

lemma leading_digits_bounds:
  fixes m :: int
  assumes "10 ^ l \<le> m" "m < 10 ^ Suc l" "l = j + k"
  shows "10 ^ j \<le> round_half_even (of_int m / 10 ^ k) \<and> round_half_even (of_int m / 10 ^ k) \<le> 10 ^ Suc j"
proof -
  let ?d = "round_half_even (of_int m / 10 ^ k)"
  have "of_int (10 ^ j) - 1 / 2 \<le> (of_int ?d :: rat)" "(of_int ?d :: rat) \<le> of_int (10 ^ Suc j) + 1 / 2"
    using scaled_bounds [OF assms] round_half_even_bounds [of "of_int m / 10 ^ k"] by simp_all
  then have "(of_int (10 ^ j) :: rat) < of_int (?d + 1)" "(of_int ?d :: rat) < of_int (10 ^ Suc j + 1)"
    by simp_all
  then show ?thesis unfolding of_int_less_iff by simp
qed

text \<open>Where the rounding of more digits carries into a new one, that of the first digit does.\<close>

lemma carry_at_first_digit:
  fixes m :: int
  assumes "m < 10 ^ Suc l" "l = j + k" "1 \<le> j" "round_half_even (of_int m / 10 ^ k) = 10 ^ Suc j"
  shows "round_half_even (of_int m / 10 ^ l) = 10"
proof -
  have "((10::rat) ^ Suc j - 1 / 2) \<le> of_int m / 10 ^ k"
    using round_half_even_bounds [of "of_int m / 10 ^ k"] assms(4) by simp
  then have "((10::rat) ^ Suc j - 1 / 2) * 10 ^ k / 10 ^ l \<le> of_int m / 10 ^ l"
    by (intro divide_right_mono) (simp_all add: pos_le_divide_eq)
  moreover have "((10::rat) ^ Suc j - 1 / 2) * 10 ^ k / 10 ^ l = 10 - 1 / 2 / 10 ^ j"
    by (simp add: assms(2) power_add field_simps)
  moreover have "1 / 2 / (10::rat) ^ j < 1 / 2" using assms(3) by (simp add: one_less_power)
  ultimately have lo: "9 + 1 / 2 < of_int m / (10::rat) ^ l" by linarith
  have "of_int m / (10::rat) ^ l < 10"
    using assms(1) of_int_less_iff [of m "10 ^ Suc l", where ?'a = rat] by (simp add: pos_divide_less_eq mult.commute)
  with lo have "\<lfloor>of_int m / (10::rat) ^ l\<rfloor> = 9" by linarith
  then show ?thesis using lo by (simp add: round_half_even_def Let_def)
qed

lemma ten_is_one_digit:
  fixes m :: int
  assumes "10 ^ Suc k \<le> m" "round_half_even (of_int m / 10 ^ k) = 10"
  shows "round_half_even (of_int m / 10 ^ Suc k) = 1"
proof -
  have "(10::rat) ^ Suc k \<le> of_int m"
    using assms(1) of_int_le_iff [of "10 ^ Suc k" m, where ?'a = rat] by simp
  moreover have "of_int m / (10::rat) ^ k - 1 / 2 \<le> 10"
    using round_half_even_bounds [of "of_int m / 10 ^ k"] assms(2) by simp
  ultimately have "of_int m / (10::rat) ^ Suc k - 1 / 20 \<le> 1" "1 \<le> of_int m / (10::rat) ^ Suc k"
    by (simp_all add: field_simps)
  then have "\<lfloor>of_int m / (10::rat) ^ Suc k\<rfloor> = 1" "of_int m / (10::rat) ^ Suc k - 1 < 1 / 2" by linarith+
  then show ?thesis by (simp add: round_half_even_def Let_def)
qed

text \<open>The digits found for a whole number are the fewest that round back to it.\<close>

lemma shortest_search_int:
  fixes m :: int
  assumes m: "0 < m" "m < 2 ^ 53" and l: "length (nat_str m) = Suc l"
  obtains d j k where "l = j + k" "l < 16" "10 ^ l \<le> m" "m < 10 ^ Suc l" "d = round_half_even (of_int m / 10 ^ k)"
    "rnd (of_int d * 10 ^ k) = of_int m"
    "shortest_digits (of_int m) (int (Suc l)) = (if d = 10 then (1, int (Suc l) + 1) else (d, int (Suc l)))"
    "\<forall>c. c = round_half_even (of_int m / 10 ^ l) \<and> rnd (of_int c * 10 ^ l) = of_int m \<longrightarrow> j = 0"
proof -
  define f where "f = (\<lambda>k. let d = round_half_even (of_int m / pow10 (int (Suc l) - int k))
    in if rnd (of_int d * pow10 (int (Suc l) - int k)) = of_int m then Some d else None)"
  have mL: "10 ^ l \<le> m" "m < 10 ^ Suc l" using length_nat_str [OF m(1)] by (simp_all add: l)
  have "(10::int) ^ l < 10 ^ 16" using mL(1) m(2) by (rule le_less_trans [THEN less_trans]) simp
  then have l16: "l < 16" by (rule power_less_imp_less_exp [rotated]) simp
  have "rnd (of_int m) = of_int m" using m by (intro rnd_int) auto
  then have fL: "f (Suc l) = Some m" by (simp add: f_def Let_def pow10_def)
  have "first_some f 1 17 \<noteq> None"
    by (rule first_some_found [of f "Suc l"]) (use fL l16 in \<open>simp_all del: not_None_eq\<close>)
  then obtain d where d: "first_some f 1 17 = Some d" by blast
  from first_some_least [OF d]
  obtain i where i: "1 \<le> i" "f i = Some d" "\<forall>j. 1 \<le> j \<and> j < i \<longrightarrow> f j = None"
    by (elim exE conjE)
  have iL: "i \<le> Suc l"
  proof (rule ccontr)
    assume "\<not> i \<le> Suc l"
    then have "f (Suc l) = None" using i(3) by simp
    then show False unfolding fL by simp
  qed
  obtain j where j: "i = Suc j" using i(1) by (cases i) auto
  define k where "k = l - j"
  have k: "l = j + k" "int (Suc l) - int i = int k" using iL j by (simp_all add: k_def)
  have dd: "d = round_half_even (of_int m / 10 ^ k)" "rnd (of_int d * 10 ^ k) = of_int m"
    using i(2) unfolding f_def Let_def k(2) by (auto split: if_splits)
  have s: "shortest_digits (of_int m) (int (Suc l)) = (if d = 10 then (1, int (Suc l) + 1) else (d, int (Suc l)))"
    unfolding shortest_digits_def using d by (simp add: f_def)
  have "j = 0" if "c = round_half_even (of_int m / 10 ^ l)" "rnd (of_int c * 10 ^ l) = of_int m" for c
  proof (rule ccontr)
    assume "j \<noteq> 0"
    then have "f 1 = None" using i(3) j by simp
    moreover have "int (Suc l) - int 1 = int l" by simp
    ultimately show False using that by (simp add: f_def Let_def)
  qed
  then show ?thesis by (intro that [OF k(1) l16 mL dd s]) blast
qed

text \<open>Those digits, and the zeros after them, round back to the number.\<close>

lemma shortest_digits_int:
  assumes m: "0 < m" "m < 2 ^ 53"
  obtains d k where "shortest_digits (of_int m) (int (length (nat_str m))) = (d, int (length (nat_str d) + k))"
    "0 < d" "length (nat_str d) + k \<le> 17" "rnd (of_int (d * 10 ^ k)) = of_int m"
proof -
  obtain l where l: "length (nat_str m) = Suc l" by (cases "nat_str m") auto
  obtain d j k where s: "l = j + k" "l < 16" "10 ^ l \<le> m" "m < 10 ^ Suc l" "d = round_half_even (of_int m / 10 ^ k)"
    "rnd (of_int d * 10 ^ k) = of_int m"
    "shortest_digits (of_int m) (int (Suc l)) = (if d = 10 then (1, int (Suc l) + 1) else (d, int (Suc l)))"
    and first: "\<forall>c. c = round_half_even (of_int m / 10 ^ l) \<and> rnd (of_int c * 10 ^ l) = of_int m \<longrightarrow> j = 0"
    by (rule shortest_search_int [OF m l])
  have db: "10 ^ j \<le> d" "d \<le> 10 ^ Suc j"
    using leading_digits_bounds [OF s(3,4,1)] unfolding s(5) by simp_all
  have carry: "j = 0" if "d = 10 ^ Suc j"
  proof (cases "1 \<le> j")
    case True
    have "rnd (of_int 10 * 10 ^ l) = of_int m" using s(6) that by (simp add: s(1) power_add algebra_simps)
    then show ?thesis using first [rule_format, of 10] carry_at_first_digit [OF s(4,1) True] s(5) that by simp
  qed simp
  show ?thesis
  proof (cases "d = 10")
    case True
    have "j = 0"
    proof (cases "j = 1")
      case one: True
      have "rnd (of_int 1 * 10 ^ l) = of_int m" using s(1,6) True one by simp
      then show ?thesis using first [rule_format, of 1] ten_is_one_digit [of k m] s(1,3,5) True one by simp
    next
      case False
      have "j \<le> 1" using db(1) True power_le_imp_le_exp [of "10::int" j 1] by simp
      with False show ?thesis by simp
    qed
    moreover have "length (nat_str 1) = 1" by (simp add: nat_str.simps)
    ultimately show ?thesis using s(1,2,6,7) True l by (intro that [of 1 "Suc l"]) auto
  next
    case False
    then have "d \<noteq> 10 ^ Suc j" using carry by auto
    then have "length (nat_str d) = Suc j" using length_nat_str_eq [OF db(1)] db(2) by simp
    moreover have "0 < d" using db(1) by (meson less_le_trans zero_less_numeral zero_less_power)
    ultimately show ?thesis using s(1,2,6,7) False l by (intro that [of d k]) auto
  qed
qed

lemma digits_val_zeros: "digits_val (ds @ replicate k (CHR ''0'')) = digits_val ds * 10 ^ k"
proof (induction k)
  case (Suc k)
  have "digits_val (ds @ replicate (Suc k) (CHR ''0'')) = 10 * digits_val (ds @ replicate k (CHR ''0''))"
    using digits_val_snoc [of "ds @ replicate k (CHR ''0'')" "CHR ''0''"]
    by (simp add: replicate_append_same digit_val_def)
  with Suc show ?case by simp
qed simp

lemma num_str_int:
  assumes "0 < m" "m < 2 ^ 53"
  shows "list_all is_digit (num_str (Fin (of_int m))) \<and> num_str (Fin (of_int m)) \<noteq> []
    \<and> rnd (of_int (digits_val (num_str (Fin (of_int m))))) = of_int m"
proof -
  obtain d k where d: "shortest_digits (of_int m) (int (length (nat_str m))) = (d, int (length (nat_str d) + k))"
    "0 < d" "length (nat_str d) + k \<le> 17" "rnd (of_int (d * 10 ^ k)) = of_int m"
    by (rule shortest_digits_int [OF assms])
  then have "num_str (Fin (of_int m)) = nat_str d @ replicate k (CHR ''0'')"
    using assms(1) by (simp add: num_str_pos_def dec_exponent_int Let_def)
  moreover have "is_digit (CHR ''0'')" by (simp add: is_digit_def)
  ultimately show ?thesis
    using d(2,4) nat_str_digits [of d]
    by (auto simp: digits_val_zeros digits_val_nat_str list_all_iff simp del: num_str.simps)
qed

lemma num_str_int_inj:
  assumes "0 < m" "m < 2 ^ 53" "0 < n" "n < 2 ^ 53" "num_str (Fin (of_int m)) = num_str (Fin (of_int n))"
  shows "m = n"
  using num_str_int [OF assms(1,2)] num_str_int [OF assms(3,4)] assms(5) by (metis of_int_eq_iff)

end
