(* ===== verification/JsTime.thy ===== *)
theory JsTime
  imports JsNumber "HOL-Library.Monad_Syntax"
begin

text \<open>
  The proleptic Gregorian calendar of ECMAScript, \<open>Date.prototype.toISOString\<close>
  and \<open>Date.parse\<close> on the ECMAScript date-time format, all in UTC (the zone of
  every runtime of the repository). A time value is an integer number of
  milliseconds since the epoch. Text outside that format is implementation
  defined for \<open>Date.parse\<close>; the model answers None (NaN) for it.
\<close>

section \<open>Calendar\<close>

definition MS_DAY :: int where "MS_DAY = 86400000"
definition MS_HOUR :: int where "MS_HOUR = 3600000"
definition MS_MINUTE :: int where "MS_MINUTE = 60000"
definition MAX_TIME :: int where "MAX_TIME = 8640000000000000"

lemmas ms_defs = MS_DAY_def MS_HOUR_def MS_MINUTE_def MAX_TIME_def

definition leap :: "int \<Rightarrow> bool" where
  "leap y \<longleftrightarrow> y mod 4 = 0 \<and> (y mod 100 \<noteq> 0 \<or> y mod 400 = 0)"

definition day_from_year :: "int \<Rightarrow> int" where
  "day_from_year y =
     365 * (y - 1970) + (y - 1969) div 4 - (y - 1901) div 100 + (y - 1601) div 400"

definition year_of_day :: "int \<Rightarrow> int" where
  "year_of_day d =
     (let y = 1970 + (d * 400) div 146097
      in if d < day_from_year y then y - 1
         else if day_from_year (y + 1) \<le> d then y + 1 else y)"

definition month_starts :: "bool \<Rightarrow> int list" where
  "month_starts lp =
     (if lp then [0, 31, 60, 91, 121, 152, 182, 213, 244, 274, 305, 335]
      else [0, 31, 59, 90, 120, 151, 181, 212, 243, 273, 304, 334])"

definition month_of :: "bool \<Rightarrow> int \<Rightarrow> int" where
  "month_of lp n = int (length (filter (\<lambda>s. s \<le> n) (month_starts lp)))"

definition month_start :: "bool \<Rightarrow> int \<Rightarrow> int" where
  "month_start lp m = month_starts lp ! nat (m - 1)"

definition civil_of_day :: "int \<Rightarrow> int \<times> int \<times> int" where
  "civil_of_day d =
     (let y = year_of_day d; n = d - day_from_year y; m = month_of (leap y) n
      in (y, m, n - month_start (leap y) m + 1))"

text \<open>\<open>MakeDay\<close>: a day past the end of the month runs on into the next one.\<close>

definition day_of_civil :: "int \<Rightarrow> int \<Rightarrow> int \<Rightarrow> int" where
  "day_of_civil y m d = day_from_year y + month_start (leap y) m + d - 1"

definition weekday :: "int \<Rightarrow> int" where
  "weekday d = (d + 4) mod 7"

lemma div_succ:
  assumes n: "0 < n"
  shows "(a + 1) div n = a div n + (if n dvd a + 1 then 1 else (0::int))"
proof -
  have "a = n * (a div n) + a mod n" by simp
  moreover have "0 \<le> a mod n" "a mod n < n" using n by auto
  ultimately obtain q r where a: "a = n * q + r" "0 \<le> r" "r < n" "a div n = q" by metis
  show ?thesis
  proof (cases "r = n - 1")
    case True
    then have "a + 1 = n * (q + 1)" using a by (simp add: algebra_simps)
    then show ?thesis using n a(4) by simp
  next
    case False
    then have "(a + 1) div n = q" "(a + 1) mod n = r + 1"
      using a n by (auto intro!: int_div_pos_eq [of _ _ _ "r + 1"] int_mod_pos_eq [of _ _ q])
    with a show ?thesis by (auto simp: dvd_eq_mod_eq_0)
  qed
qed

lemma dvd_shift: "n dvd c \<Longrightarrow> n dvd y - c \<longleftrightarrow> n dvd (y :: int)"
  by (metis diff_add_cancel dvd_add_left_iff)

lemma div_bounds: "0 < n \<Longrightarrow> n * (a div n) \<le> a \<and> a \<le> n * (a div n) + (n - 1)" for a n :: int
  using pos_mod_bound [of n a] pos_mod_sign [of n a] mult_div_mod_eq [of n a] by linarith

lemma div_succ_shift:
  assumes "0 < n" "n dvd c" 
  shows "(y + 1 - (c + 1)) div n = (y - (c + 1)) div n + (if n dvd y then 1 else (0::int))"
proof -
  have "(y - (c + 1) + 1) div n = (y - (c + 1)) div n + (if n dvd y - (c + 1) + 1 then 1 else 0)"
    by (rule div_succ [OF assms(1)])
  moreover have "y - (c + 1) + 1 = y - c" "y + 1 - (c + 1) = y - c" by simp_all
  ultimately show ?thesis using dvd_shift [OF assms(2), of y] by simp
qed

lemma year_step_arith:
  assumes "C \<Longrightarrow> B" "B \<Longrightarrow> A"
  shows "365 * (y + 1 - 1970) + (p + (if A then 1 else 0)) - (q + (if B then 1 else 0))
      + (r + (if C then 1 else 0))
    = 365 * (y - 1970) + p - q + r + (if A \<and> (\<not> B \<or> C) then 366 else 365 :: int)"
  using assms by (cases A; cases B; cases C) auto

lemma day_from_year_step: "day_from_year (y + 1) = day_from_year y + (if leap y then 366 else 365)"
proof -
  have c: "(1968 + 1 :: int) = 1969" "(1900 + 1 :: int) = 1901" "(1600 + 1 :: int) = 1601"
    and p: "(0::int) < 4" "(0::int) < 100" "(0::int) < 400"
    and v: "(4::int) dvd 1968" "(100::int) dvd 1900" "(400::int) dvd 1600"
    by simp_all
  have m: "400 dvd y \<Longrightarrow> 100 dvd y" "100 dvd y \<Longrightarrow> 4 dvd y"
    using dvd_trans [of 100 400 y] dvd_trans [of 4 100 y] by simp_all
  show ?thesis
    unfolding day_from_year_def leap_def mod_eq_0_iff_dvd
      div_succ_shift [OF p(1) v(1), unfolded c] div_succ_shift [OF p(2) v(2), unfolded c]
      div_succ_shift [OF p(3) v(3), unfolded c]
    using m by (rule year_step_arith)
qed

lemma day_from_year_bounds:
  "146097 * (y - 1970) - 506 \<le> 400 * day_from_year y \<and>
   400 * day_from_year y \<le> 146097 * (y - 1970) + 589"
  using div_bounds [of 4 "y - 1969"] div_bounds [of 100 "y - 1901"] div_bounds [of 400 "y - 1601"]
  unfolding day_from_year_def by simp

lemma year_of_day_bounds:
  "day_from_year (year_of_day d) \<le> d" "d < day_from_year (year_of_day d + 1)"
proof -
  define q where "q = (d * 400) div 146097"
  define y where "y = 1970 + q"
  have q: "146097 * q \<le> d * 400" "d * 400 \<le> 146097 * q + 146096"
    using div_bounds [of 146097 "d * 400"] by (simp_all add: q_def)
  have lo: "day_from_year (y - 1) \<le> d"
    using day_from_year_bounds [of "y - 1"] q by (simp add: y_def)
  have hi: "d < day_from_year (y + 2)"
    using day_from_year_bounds [of "y + 2"] q by (simp add: y_def)
  have "year_of_day d = (if d < day_from_year y then y - 1
      else if day_from_year (y + 1) \<le> d then y + 1 else y)"
    by (simp add: year_of_day_def y_def q_def Let_def)
  then show "day_from_year (year_of_day d) \<le> d" "d < day_from_year (year_of_day d + 1)"
    using lo hi by (auto simp: add.commute)
qed

lemma day_from_year_mono: "y \<le> z \<Longrightarrow> day_from_year y \<le> day_from_year z"
proof (induction z rule: int_ge_induct)
  case (step i)
  then show ?case using day_from_year_step [of i] by auto
qed simp

lemma year_of_day_unique:
  assumes "day_from_year y \<le> d" "d < day_from_year (y + 1)"
  shows "year_of_day d = y"
proof (rule ccontr)
  let ?z = "year_of_day d"
  assume "?z \<noteq> y"
  then consider "?z + 1 \<le> y" | "y + 1 \<le> ?z" by linarith
  then show False
  proof cases
    case 1
    then show False using day_from_year_mono [of "?z + 1" y] year_of_day_bounds(2) [of d] assms by linarith
  next
    case 2
    then show False using day_from_year_mono [of "y + 1" ?z] year_of_day_bounds(1) [of d] assms by linarith
  qed
qed

lemma year_of_day_mono: "d \<le> e \<Longrightarrow> year_of_day d \<le> year_of_day e"
  using day_from_year_mono [of "year_of_day e + 1" "year_of_day d"]
    year_of_day_bounds(1) [of d] year_of_day_bounds(2) [of e] by linarith

text \<open>The length of a month and the dates that exist.\<close>

definition month_length :: "bool \<Rightarrow> int \<Rightarrow> int" where
  "month_length lp m =
     (if m = 12 then (if lp then 366 else 365) else month_start lp (m + 1)) - month_start lp m"

definition valid_civil :: "int \<Rightarrow> int \<Rightarrow> int \<Rightarrow> bool" where
  "valid_civil y m d \<longleftrightarrow> 1 \<le> m \<and> m \<le> 12 \<and> 1 \<le> d \<and> d \<le> month_length (leap y) m"

lemma month_cases:
  "1 \<le> m \<Longrightarrow> m \<le> 12 \<Longrightarrow>
     m = 1 \<or> m = 2 \<or> m = 3 \<or> m = 4 \<or> m = 5 \<or> m = 6 \<or> m = 7 \<or> m = 8 \<or> m = 9 \<or> m = 10
     \<or> m = 11 \<or> (m :: int) = 12"
  by presburger

lemma month_of_start:
  assumes "1 \<le> m" "m \<le> 12" "1 \<le> d" "d \<le> month_length lp m"
  shows "month_of lp (month_start lp m + d - 1) = m"
  using month_cases [OF assms(1,2)] assms(3,4)
  by (elim disjE; cases lp)
    (simp_all add: month_of_def month_start_def month_starts_def month_length_def)

lemma sorted_nth_le:
  "sorted ss \<Longrightarrow> i < length ss \<Longrightarrow> ss ! i \<le> n \<longleftrightarrow> i < length (filter (\<lambda>s. s \<le> n) ss)"
proof (induction ss arbitrary: i)
  case (Cons a ss)
  show ?case
  proof (cases "a \<le> n")
    case True
    with Cons show ?thesis by (cases i) auto
  next
    case False
    with Cons.prems have "\<forall>s \<in> set ss. \<not> s \<le> n" by auto
    then have "filter (\<lambda>s. s \<le> n) ss = []" by (simp add: filter_empty_conv)
    moreover have "a \<le> (a # ss) ! i" using Cons.prems by (cases i) auto
    ultimately show ?thesis using False by simp
  qed
qed simp

lemma month_of_bounds:
  assumes "0 \<le> n" "n < (if lp then 366 else 365)"
  shows "1 \<le> month_of lp n \<and> month_of lp n \<le> 12 \<and> month_start lp (month_of lp n) \<le> n
    \<and> n < month_start lp (month_of lp n) + month_length lp (month_of lp n)"
proof -
  let ?ss = "month_starts lp"
  define k where "k = length (filter (\<lambda>s. s \<le> n) ?ss)"
  have ss: "sorted ?ss" "length ?ss = 12" "?ss ! 0 = 0" by (simp_all add: month_starts_def)
  have i: "?ss ! i \<le> n \<longleftrightarrow> i < k" if "i < 12" for i
    using sorted_nth_le [OF ss(1), of i n] ss(2) that by (simp add: k_def)
  have "k \<le> 12" using ss(2) length_filter_le [of _ ?ss] by (simp add: k_def)
  moreover have "1 \<le> k" using i [of 0] assms(1) ss(3) by simp
  moreover have "?ss ! (k - 1) \<le> n" using i [of "k - 1"] calculation by simp
  moreover have "k < 12 \<Longrightarrow> n < ?ss ! k" using i [of k] by (metis linorder_not_less order.irrefl)
  moreover have "nat (int k - 1) = k - 1" "nat (int k) = k" by simp_all
  ultimately show ?thesis
    using assms(2) by (auto simp: month_of_def month_start_def month_length_def simp flip: k_def)
qed

lemma civil_of_day_valid:
  assumes "civil_of_day n = (y, m, d)"
  shows "valid_civil y m d" "day_of_civil y m d = n"
proof -
  let ?k = "n - day_from_year (year_of_day n)"
  have y: "y = year_of_day n" and m: "m = month_of (leap y) ?k"
    and d: "d = ?k - month_start (leap y) m + 1"
    using assms by (auto simp: civil_of_day_def Let_def)
  have "0 \<le> ?k" "?k < (if leap y then 366 else 365)"
    using year_of_day_bounds [of n] day_from_year_step [of y] by (auto simp: y)
  from month_of_bounds [OF this] show "valid_civil y m d" by (simp add: valid_civil_def d m)
  show "day_of_civil y m d = n" by (simp add: day_of_civil_def d y)
qed

lemma month_end_le:
  "1 \<le> m \<Longrightarrow> m \<le> 12 \<Longrightarrow>
     0 \<le> month_start lp m \<and> month_start lp m + month_length lp m \<le> (if lp then 366 else 365)"
  by (drule (1) month_cases, elim disjE; cases lp)
    (simp_all add: month_start_def month_starts_def month_length_def)

lemma civil_of_day_of_civil:
  assumes "valid_civil y m d"
  shows "civil_of_day (day_of_civil y m d) = (y, m, d)"
proof -
  let ?n = "day_of_civil y m d"
  have v: "1 \<le> m" "m \<le> 12" "1 \<le> d" "d \<le> month_length (leap y) m"
    using assms by (auto simp: valid_civil_def)
  have "year_of_day ?n = y"
    using month_end_le [OF v(1,2), of "leap y"] v day_from_year_step [of y]
    by (intro year_of_day_unique) (auto simp: day_of_civil_def)
  moreover from month_of_start [OF v] have "month_of (leap y) (?n - day_from_year y) = m"
    by (simp add: day_of_civil_def algebra_simps)
  ultimately show ?thesis by (simp add: civil_of_day_def Let_def) (simp add: day_of_civil_def)
qed

section \<open>\<open>toISOString\<close>\<close>

primrec pad :: "nat \<Rightarrow> int \<Rightarrow> string" where
  "pad 0 k = []"
| "pad (Suc n) k = pad n (k div 10) @ [digit_char (k mod 10)]"

definition iso_year :: "int \<Rightarrow> string" where
  "iso_year y =
     (if 0 \<le> y \<and> y \<le> 9999 then pad 4 y
      else (if y < 0 then CHR ''-'' else CHR ''+'') # pad 6 \<bar>y\<bar>)"

definition iso_day :: "int \<Rightarrow> string" where
  "iso_day n =
     (let (y, m, d) = civil_of_day n
      in iso_year y @ CHR ''-'' # pad 2 m @ CHR ''-'' # pad 2 d)"

definition iso_clock :: "int \<Rightarrow> string" where
  "iso_clock r =
     pad 2 (r div MS_HOUR) @ CHR '':'' # pad 2 (r div MS_MINUTE mod 60) @ CHR '':'' #
     pad 2 (r div 1000 mod 60) @ CHR ''.'' # pad 3 (r mod 1000) @ [CHR ''Z'']"

definition to_iso :: "int \<Rightarrow> string" where
  "to_iso t = iso_day (t div MS_DAY) @ CHR ''T'' # iso_clock (t mod MS_DAY)"

text \<open>\<open>new Date(t).toISOString()\<close> throws outside the range of time values.\<close>

definition to_iso_res :: "int \<Rightarrow> string res" where
  "to_iso_res t = (if \<bar>t\<bar> \<le> MAX_TIME then Inr (to_iso t) else Inl RangeError)"

section \<open>\<open>Date.parse\<close>\<close>

definition read_digits :: "nat \<Rightarrow> string \<Rightarrow> (int \<times> string) option" where
  "read_digits n s =
     (if length (take n s) = n \<and> list_all is_digit (take n s)
      then Some (digits_val (take n s), drop n s) else None)"

definition expect :: "char \<Rightarrow> string \<Rightarrow> string option" where
  "expect c s = (case s of [] \<Rightarrow> None | x # t \<Rightarrow> if x = c then Some t else None)"

definition read_seconds :: "string \<Rightarrow> (int \<times> int \<times> string) option" where
  "read_seconds s =
     (case expect (CHR '':'') s of
        None \<Rightarrow> Some (0, 0, s)
      | Some t \<Rightarrow> do {
          (sec, r) \<leftarrow> read_digits 2 t;
          (case expect (CHR ''.'') r of
             None \<Rightarrow> Some (sec, 0, r)
           | Some u \<Rightarrow>
               let f = takeWhile is_digit u
               in if f = [] then None
                  else Some (sec, digits_val (take 3 (f @ ''00'')), dropWhile is_digit u))
        })"

definition read_zone :: "string \<Rightarrow> int option" where
  "read_zone s =
     (if s = [] \<or> s = ''Z'' then Some 0
      else do {
        (sg, t) \<leftarrow> (case s of [] \<Rightarrow> None | c # t \<Rightarrow>
           if c = CHR ''+'' then Some (1, t) else if c = CHR ''-'' then Some (- 1, t) else None);
        (h, u) \<leftarrow> read_digits 2 t;
        v \<leftarrow> expect (CHR '':'') u;
        (mi, w) \<leftarrow> read_digits 2 v;
        if w = [] \<and> h \<le> 23 \<and> mi \<le> 59 then Some (sg * (h * MS_HOUR + mi * MS_MINUTE)) else None
      })"

definition read_clock :: "string \<Rightarrow> int option" where
  "read_clock s = do {
     (h, s1) \<leftarrow> read_digits 2 s;
     s2 \<leftarrow> expect (CHR '':'') s1;
     (mi, s3) \<leftarrow> read_digits 2 s2;
     (sec, ms, s4) \<leftarrow> read_seconds s3;
     off \<leftarrow> read_zone s4;
     if h \<le> 23 \<and> mi \<le> 59 \<and> sec \<le> 59 \<or> h = 24 \<and> mi = 0 \<and> sec = 0 \<and> ms = 0
     then Some (h * MS_HOUR + mi * MS_MINUTE + sec * 1000 + ms - off) else None
   }"

definition read_year :: "string \<Rightarrow> (int \<times> string) option" where
  "read_year s =
     (case s of [] \<Rightarrow> None | c # t \<Rightarrow>
        if c = CHR ''+'' then read_digits 6 t
        else if c = CHR ''-'' then do {
          (y, r) \<leftarrow> read_digits 6 t;
          if y = 0 then None else Some (- y, r)
        }
        else read_digits 4 s)"

definition read_month_day :: "string \<Rightarrow> (int \<times> int \<times> string) option" where
  "read_month_day s =
     (case expect (CHR ''-'') s of
        None \<Rightarrow> Some (1, 1, s)
      | Some t \<Rightarrow> do {
          (m, r) \<leftarrow> read_digits 2 t;
          (case expect (CHR ''-'') r of
             None \<Rightarrow> Some (m, 1, r)
           | Some u \<Rightarrow> do { (d, v) \<leftarrow> read_digits 2 u; Some (m, d, v) })
        })"

definition time_clip :: "int \<Rightarrow> int option" where
  "time_clip t = (if \<bar>t\<bar> \<le> MAX_TIME then Some t else None)"

text \<open>V8 bounds the day of the month by 31 only; a day past the month's end runs on.\<close>

definition date_parse :: "string \<Rightarrow> int option" where
  "date_parse s = do {
     (y, s1) \<leftarrow> read_year s;
     (m, d, s2) \<leftarrow> read_month_day s1;
     if 1 \<le> m \<and> m \<le> 12 \<and> 1 \<le> d \<and> d \<le> 31 then do {
       c \<leftarrow> (if s2 = [] then Some 0 else expect (CHR ''T'') s2 \<bind> read_clock);
       time_clip (day_of_civil y m d * MS_DAY + c)
     } else None
   }"

subsection \<open>What is printed reads back\<close>

lemma length_pad [simp]: "length (pad n k) = n"
  by (induction n arbitrary: k) auto

lemma pad_digits [simp]: "list_all is_digit (pad n k)"
  by (induction n arbitrary: k) auto

lemma digits_val_pad: "0 \<le> k \<Longrightarrow> k < 10 ^ n \<Longrightarrow> digits_val (pad n k) = k"
proof (induction n arbitrary: k)
  case (Suc n)
  then have "k div 10 < 10 ^ n" "0 \<le> k div 10" by auto
  with Suc.IH [of "k div 10"] show ?case by (simp add: digits_val_snoc)
qed simp

lemma read_digits_pad:
  "0 \<le> k \<Longrightarrow> k < 10 ^ n \<Longrightarrow> read_digits n (pad n k @ r) = Some (k, r)"
  by (simp add: read_digits_def digits_val_pad)

lemma expect_Cons [simp]: "expect c (x # t) = (if x = c then Some t else None)"
  and expect_Nil [simp]: "expect c [] = None"
  by (simp_all add: expect_def)

lemma takeWhile_pad [simp]: "\<not> is_digit c \<Longrightarrow> takeWhile is_digit (pad n k @ c # r) = pad n k"
  and dropWhile_pad [simp]: "\<not> is_digit c \<Longrightarrow> dropWhile is_digit (pad n k @ c # r) = c # r"
  using pad_digits [of n k] by (induction "pad n k") (auto simp: list_all_iff takeWhile_append2 dropWhile_append2)
lemma read_clock_iso:
  assumes "0 \<le> r" "r < MS_DAY"
  shows "read_clock (iso_clock r) = Some r"
proof -
  let ?h = "r div MS_HOUR" and ?m = "r div MS_MINUTE mod 60" and ?s = "r div 1000 mod 60"
  have h: "0 \<le> ?h" "?h < 24" using assms by (auto simp: ms_defs)
  have m: "0 \<le> ?m" "?m < 60" and s: "0 \<le> ?s" "?s < 60" and u: "0 \<le> r mod 1000" "r mod 1000 < 1000"
    by (auto simp: ms_defs)
  have rd: "read_digits 2 (pad 2 ?h @ x) = Some (?h, x)" "read_digits 2 (pad 2 ?m @ x) = Some (?m, x)"
    "read_digits 2 (pad 2 ?s @ x) = Some (?s, x)" for x
    using h m s by (auto intro!: read_digits_pad)
  have fr: "take 3 (pad 3 (r mod 1000) @ ''00'') = pad 3 (r mod 1000)" by simp
  have ne: "pad 3 (r mod 1000) \<noteq> []" by (metis length_pad list.size(3) zero_neq_numeral)
  have z: "\<not> is_digit (CHR ''Z'')" by (simp add: is_digit_def)
  have sec: "read_seconds (CHR '':'' # pad 2 ?s @ CHR ''.'' # pad 3 (r mod 1000) @ [CHR ''Z''])
    = Some (?s, r mod 1000, ''Z'')"
    using ne u by (simp add: read_seconds_def rd takeWhile_pad [OF z] dropWhile_pad [OF z] Let_def fr
        digits_val_pad)
  have sum: "?h * MS_HOUR + ?m * MS_MINUTE + ?s * 1000 + r mod 1000 = r"
  proof -
    have "r div 60000 = r div 1000 div 60" "r div 3600000 = r div 60000 div 60"
      using zdiv_zmult2_eq [of 60 r 1000] zdiv_zmult2_eq [of 60 r 60000] by simp_all
    moreover have "r div 1000 = r div 1000 div 60 * 60 + ?s"
      "r div 60000 = r div 60000 div 60 * 60 + r div 60000 mod 60" by simp_all
    moreover have "r = r div 1000 * 1000 + r mod 1000" by simp
    ultimately show ?thesis unfolding ms_defs by (simp only:)
  qed
  have "?m \<le> 59" "?s \<le> 59" using m s by linarith+
  then show ?thesis
    using h by (simp add: read_clock_def iso_clock_def rd sec read_zone_def sum)
qed

lemma year_of_time:
  assumes "\<bar>t\<bar> \<le> MAX_TIME"
  shows "- 999999 \<le> year_of_day (t div MS_DAY)" "year_of_day (t div MS_DAY) \<le> 999999"
proof -
  have "(- MAX_TIME) div MS_DAY \<le> t div MS_DAY" "t div MS_DAY \<le> MAX_TIME div MS_DAY"
    using assms by (auto intro!: zdiv_mono1 simp: ms_defs)
  then have d: "- 100000000 \<le> t div MS_DAY" "t div MS_DAY \<le> 100000000" by (simp_all add: ms_defs)
  have "year_of_day (- 100000000) = - 271821" "year_of_day 100000000 = 275760"
    by (simp_all add: year_of_day_def day_from_year_def)
  then show "- 999999 \<le> year_of_day (t div MS_DAY)" "year_of_day (t div MS_DAY) \<le> 999999"
    using year_of_day_mono [OF d(1)] year_of_day_mono [OF d(2)] by linarith+
qed

lemma read_iso_year:
  assumes "- 999999 \<le> y" "y \<le> 999999"
  shows "read_year (iso_year y @ x) = Some (y, x)"
proof (cases "0 \<le> y \<and> y \<le> 9999")
  case True
  obtain c0 cs where p: "pad 4 y = c0 # cs" "is_digit c0"
    using pad_digits [of 4 y] length_pad [of 4 y] by (cases "pad 4 y") auto
  have "read_digits 4 (pad 4 y @ x) = Some (y, x)" using True by (intro read_digits_pad) auto
  then show ?thesis using True p by (auto simp: read_year_def iso_year_def is_digit_def)
next
  case False
  have "read_digits 6 (pad 6 \<bar>y\<bar> @ x) = Some (\<bar>y\<bar>, x)" using assms by (intro read_digits_pad) auto
  then show ?thesis using False by (auto simp: read_year_def iso_year_def)
qed

lemma date_parse_iso:
  assumes "\<bar>t\<bar> \<le> MAX_TIME"
  shows "date_parse (to_iso t) = Some t"
proof -
  obtain y m d where c: "civil_of_day (t div MS_DAY) = (y, m, d)" by (metis prod_cases3)
  then have y: "y = year_of_day (t div MS_DAY)" by (auto simp: civil_of_day_def Let_def)
  from civil_of_day_valid [OF c] have v: "valid_civil y m d" and n: "day_of_civil y m d = t div MS_DAY"
    by auto
  have md: "1 \<le> m" "m \<le> 12" "1 \<le> d" using v by (auto simp: valid_civil_def)
  moreover have "month_length (leap y) m \<le> 31"
    using month_cases [OF md(1,2)]
    by (elim disjE; cases "leap y") (simp_all add: month_length_def month_start_def month_starts_def)
  ultimately have "d \<le> 31" using v by (auto simp: valid_civil_def)
  have rd: "read_digits 2 (pad 2 m @ x) = Some (m, x)" "read_digits 2 (pad 2 d @ x) = Some (d, x)" for x
    using md \<open>d \<le> 31\<close> by (auto intro!: read_digits_pad)
  have "read_year (iso_year y @ x) = Some (y, x)" for x
    unfolding y by (intro read_iso_year year_of_time assms)
  moreover have "read_clock (iso_clock (t mod MS_DAY)) = Some (t mod MS_DAY)"
    by (rule read_clock_iso) (auto simp: ms_defs)
  ultimately show ?thesis
    using assms md \<open>d \<le> 31\<close>
    by (simp add: date_parse_def to_iso_def iso_day_def c read_month_day_def rd n time_clip_def)
qed

lemma date_parse_range: "date_parse s = Some t \<Longrightarrow> \<bar>t\<bar> \<le> MAX_TIME"
  by (auto simp: date_parse_def time_clip_def bind_eq_Some_conv split: if_splits prod.splits)

text \<open>Printing a time that was read and reading it again gives the same time.\<close>

lemma date_parse_again: "date_parse s = Some t \<Longrightarrow> date_parse (to_iso t) = Some t"
  by (rule date_parse_iso [OF date_parse_range])

text \<open>Midnight of a day with a year of four digits.\<close>

lemma to_iso_midnight: "to_iso (n * MS_DAY) = iso_day n @ ''T00:00:00.000Z''"
proof -
  have "iso_clock 0 = ''00:00:00.000Z''" by code_simp
  then show ?thesis by (simp add: to_iso_def ms_defs)
qed

lemma iso_day_length:
  "0 \<le> year_of_day n \<Longrightarrow> year_of_day n \<le> 9999 \<Longrightarrow> length (iso_day n) = 10"
  by (auto simp: iso_day_def iso_year_def civil_of_day_def Let_def)

lemma year_day_range:
  assumes "0 \<le> year_of_day n" "year_of_day n \<le> 9999"
  shows "\<bar>n * MS_DAY\<bar> \<le> MAX_TIME"
proof -
  have e: "year_of_day (- 100000000) = - 271821" "year_of_day 100000000 = 275760"
    by (simp_all add: year_of_day_def day_from_year_def)
  have "- 100000000 \<le> n" "n \<le> 100000000"
    using assms e year_of_day_mono [of n "- 100000000"] year_of_day_mono [of 100000000 n] by linarith+
  then show ?thesis by (simp add: ms_defs abs_le_iff)
qed

lemma date_parse_midnight:
  assumes "0 \<le> year_of_day n" "year_of_day n \<le> 9999"
  shows "date_parse (iso_day n @ ''T00:00:00.000Z'') = Some (n * MS_DAY)"
  using date_parse_iso [OF year_day_range [OF assms]] by (simp add: to_iso_midnight)

text \<open>A date text that is read as a midnight and printed back is a day with a year of four digits.\<close>

lemma iso_midnight:
  assumes "date_parse (d @ ''T00:00:00.000Z'') = Some ms" "take 10 (to_iso ms) = d" "length d = 10" "is_digit (d ! 0)"
  shows "\<exists>n. d = iso_day n \<and> ms = n * MS_DAY \<and> 0 \<le> year_of_day n \<and> year_of_day n \<le> 9999"
proof -
  define n where "n = ms div MS_DAY"
  obtain y m k where c: "civil_of_day n = (y, m, k)" by (metis prod_cases3)
  then have y: "y = year_of_day n" by (auto simp: civil_of_day_def Let_def)
  have hd: "d ! 0 = to_iso ms ! 0" using assms(2,3) by (metis nth_take zero_less_numeral)
  have yr: "0 \<le> y \<and> y \<le> 9999"
  proof (rule ccontr)
    assume "\<not> ?thesis"
    then have "to_iso ms ! 0 = CHR ''-'' \<or> to_iso ms ! 0 = CHR ''+''"
      using c by (auto simp: to_iso_def iso_day_def iso_year_def n_def [symmetric])
    then show False using assms(4) hd by (auto simp: is_digit_def)
  qed
  have "length (iso_day n) = 10" using yr y by (intro iso_day_length) simp_all
  then have d: "d = iso_day n" using assms(2) by (simp add: to_iso_def n_def)
  have "ms = n * MS_DAY"
    using assms(1) date_parse_midnight [of n] yr y unfolding d by simp
  then show ?thesis using d yr y by blast
qed

subsection \<open>The order of printed times is the order of times\<close>

lemma append_less_iff:
  "length u = length v \<Longrightarrow> u @ x < v @ y \<longleftrightarrow> u < v \<or> u = v \<and> x < (y :: 'a::linorder list)"
  by (induction u v rule: list_induct2) auto

lemma digit_char_less: 
  "0 \<le> a \<Longrightarrow> a < 10 \<Longrightarrow> 0 \<le> b \<Longrightarrow> b < 10 \<Longrightarrow> digit_char a < digit_char b \<longleftrightarrow> a < b"
proof -
  assume "0 \<le> a" "a < 10" "0 \<le> b" "b < 10"
  moreover have "c < d \<longleftrightarrow> char_code c < char_code d" for c d :: char
    by (metis less_char_def of_nat_less_iff of_nat_of_char)
  ultimately show ?thesis by (simp add: digit_char_code)
qed

lemma pad_inj: "0 \<le> a \<Longrightarrow> a < 10 ^ n \<Longrightarrow> 0 \<le> b \<Longrightarrow> b < 10 ^ n \<Longrightarrow> pad n a = pad n b \<longleftrightarrow> a = b"
  by (metis digits_val_pad)

lemma pad_less:
  "0 \<le> a \<Longrightarrow> a < 10 ^ n \<Longrightarrow> 0 \<le> b \<Longrightarrow> b < 10 ^ n \<Longrightarrow> pad n a < pad n b \<longleftrightarrow> a < b"
proof (induction n arbitrary: a b)
  case (Suc n)
  have d: "0 \<le> a div 10" "a div 10 < 10 ^ n" "0 \<le> b div 10" "b div 10 < 10 ^ n"
    using Suc.prems by auto
  have e: "a = 10 * (a div 10) + a mod 10" "b = 10 * (b div 10) + b mod 10"
    "0 \<le> a mod 10" "a mod 10 < 10" "0 \<le> b mod 10" "b mod 10 < 10" by simp_all
  have "pad (Suc n) a < pad (Suc n) b \<longleftrightarrow>
      a div 10 < b div 10 \<or> a div 10 = b div 10 \<and> a mod 10 < b mod 10"
    using Suc.IH [OF d] pad_inj [OF d] e
    by (simp add: append_less_iff digit_char_less)
  also have "\<dots> \<longleftrightarrow> a < b" using e by linarith
  finally show ?case .
qed simp

lemma div_mod_less:
  assumes "0 < n" "a < b"
  shows "a div n < b div n \<or> a div n = b div n \<and> a mod n < b mod (n :: int)"
proof (cases "a div n = b div n")
  case True
  moreover have "a = n * (a div n) + a mod n" "b = n * (b div n) + b mod n" by simp_all
  ultimately show ?thesis using assms(2) by (metis add_less_cancel_left)
next
  case False
  then show ?thesis using zdiv_mono1 [of a b n] assms by auto
qed

lemma pad_chain_less:
  assumes "0 \<le> h" "h < 100" "0 \<le> h'" "h' < 100" "0 \<le> m" "m < 100" "0 \<le> m'" "m' < 100"
    "0 \<le> s" "s < 100" "0 \<le> s'" "s' < 100" "0 \<le> u" "u < 1000" "0 \<le> u'" "u' < 1000"
    "h < h' \<or> h = h' \<and> (m < m' \<or> m = m' \<and> (s < s' \<or> s = s' \<and> u < u'))"
  shows "pad 2 h @ a # pad 2 m @ b # pad 2 s @ c # pad 3 u @ z
    < pad 2 h' @ a # pad 2 m' @ b # pad 2 s' @ c # pad 3 u' @ z"
  using assms pad_less [of h 2 h'] pad_less [of m 2 m'] pad_less [of s 2 s'] pad_less [of u 3 u']
  by (auto simp: append_less_iff)

lemma iso_clock_less:
  assumes "0 \<le> r" "r < q" "q < MS_DAY"
  shows "iso_clock r < iso_clock q"
proof -
  let ?h = "\<lambda>r. r div MS_HOUR" and ?m = "\<lambda>r. r div MS_MINUTE mod 60" and ?s = "\<lambda>r. r div 1000 mod 60"
  have h: "0 \<le> ?h r" "?h r < 100" "0 \<le> ?h q" "?h q < 100" using assms by (auto simp: ms_defs)
  have m: "0 \<le> ?m x" "?m x < 100" and s: "0 \<le> ?s x" "?s x < 100"
    and u: "0 \<le> x mod 1000" "x mod 1000 < 1000" for x
    using pos_mod_bound [of 60 "x div MS_MINUTE"] pos_mod_bound [of 60 "x div 1000"] by auto
  have e: "x div 1000 div 60 = x div MS_MINUTE" "x div MS_MINUTE div 60 = x div MS_HOUR" for x :: int
    using zdiv_zmult2_eq [of 60 x 1000] zdiv_zmult2_eq [of 60 x 60000] by (simp_all add: ms_defs)
  have p60: "(0::int) < 60" by simp
  have 1: "r div 1000 < q div 1000 \<or> r div 1000 = q div 1000 \<and> r mod 1000 < q mod 1000"
    by (rule div_mod_less) (use assms in auto)
  have 2: "r div 1000 < q div 1000 \<Longrightarrow>
      r div MS_MINUTE < q div MS_MINUTE \<or> r div MS_MINUTE = q div MS_MINUTE \<and> ?s r < ?s q"
    by (drule div_mod_less [OF p60]) (simp only: e)
  have 3: "r div MS_MINUTE < q div MS_MINUTE \<Longrightarrow> ?h r < ?h q \<or> ?h r = ?h q \<and> ?m r < ?m q"
    by (drule div_mod_less [OF p60]) (simp only: e)
  have 4: "r div 1000 = q div 1000 \<Longrightarrow> r div MS_MINUTE = q div MS_MINUTE"
    and 5: "r div MS_MINUTE = q div MS_MINUTE \<Longrightarrow> ?h r = ?h q"
    by (simp_all only: e [symmetric])
  have 6: "r div 1000 = q div 1000 \<Longrightarrow> ?s r = ?s q"
    and 7: "r div MS_MINUTE = q div MS_MINUTE \<Longrightarrow> ?m r = ?m q"
    by simp_all
  from 1 2 3 4 5 6 7 have "?h r < ?h q \<or> ?h r = ?h q \<and> (?m r < ?m q \<or> ?m r = ?m q \<and>
      (?s r < ?s q \<or> ?s r = ?s q \<and> r mod 1000 < q mod 1000))"
    by blast
  with h m [of r] m [of q] s [of r] s [of q] u [of r] u [of q] show ?thesis
    unfolding iso_clock_def by (intro pad_chain_less)
qed

lemma length_filter_imp: "(\<And>x. P x \<Longrightarrow> Q x) \<Longrightarrow> length (filter P xs) \<le> length (filter Q xs)"
  by (induction xs) (auto simp: le_SucI)

lemma month_of_mono: "a \<le> b \<Longrightarrow> month_of lp a \<le> month_of lp b"
  by (auto simp: month_of_def intro!: length_filter_imp)

lemma civil_less:
  assumes "civil_of_day a = (y, m, d)" "civil_of_day b = (y', m', d')" "a < b"
  shows "y < y' \<or> y = y' \<and> (m < m' \<or> m = m' \<and> d < d')"
proof -
  have "y \<le> y'" using year_of_day_mono [of a b] assms by (auto simp: civil_of_day_def Let_def)
  moreover have "m < m' \<or> m = m' \<and> d < d'" if "y = y'"
    using assms that month_of_mono [of "a - day_from_year y" "b - day_from_year y" "leap y"]
    by (auto simp: civil_of_day_def Let_def)
  ultimately show ?thesis by auto
qed

definition four_digit_year :: "int \<Rightarrow> bool" where
  "four_digit_year t \<longleftrightarrow> 0 \<le> year_of_day (t div MS_DAY) \<and> year_of_day (t div MS_DAY) \<le> 9999"

lemma month_day_small:
  assumes "civil_of_day n = (y, m, d)"
  shows "1 \<le> m \<and> m \<le> 12 \<and> 1 \<le> d \<and> d \<le> 31"
proof -
  have v: "1 \<le> m" "m \<le> 12" "1 \<le> d" "d \<le> month_length (leap y) m"
    using civil_of_day_valid(1) [OF assms] by (auto simp: valid_civil_def)
  have "month_length (leap y) m \<le> 31"
    using month_cases [OF v(1,2)]
    by (elim disjE; cases "leap y") (simp_all add: month_length_def month_start_def month_starts_def)
  with v show ?thesis by simp
qed

lemma iso_day_less:
  assumes "0 \<le> year_of_day a" "year_of_day b \<le> 9999" "a < b"
  shows "iso_day a < iso_day b"
proof -
  obtain y m d y' m' d' where c: "civil_of_day a = (y, m, d)" "civil_of_day b = (y', m', d')"
    by (metis prod_cases3)
  have y: "y = year_of_day a" "y' = year_of_day b" using c by (auto simp: civil_of_day_def Let_def)
  have yy: "0 \<le> y" "y \<le> 9999" "0 \<le> y'" "y' \<le> 9999"
    using assms year_of_day_mono [of a b] by (auto simp: y)
  show ?thesis
    using civil_less [OF c assms(3)] yy month_day_small [OF c(1)] month_day_small [OF c(2)]
      pad_less [of y 4 y'] pad_less [of m 2 m'] pad_less [of d 2 d']
    by (auto simp: iso_day_def c iso_year_def append_less_iff)
qed

lemma to_iso_less:
  assumes "four_digit_year t" "four_digit_year u" "t < u"
  shows "to_iso t < to_iso u"
proof -
  have b: "0 \<le> t mod MS_DAY" "u mod MS_DAY < MS_DAY" by (auto simp: ms_defs)
  have len: "length (iso_day (t div MS_DAY)) = length (iso_day (u div MS_DAY))"
    using assms(1,2) by (auto simp: iso_day_def iso_year_def four_digit_year_def civil_of_day_def Let_def)
  have "t div MS_DAY < u div MS_DAY \<or> t div MS_DAY = u div MS_DAY \<and> t mod MS_DAY < u mod MS_DAY"
    using div_mod_less [OF _ assms(3), of MS_DAY] by (simp add: ms_defs)
  then show ?thesis
    using iso_day_less [of "t div MS_DAY" "u div MS_DAY"] iso_clock_less [OF b(1) _ b(2)] assms(1,2)
    by (auto simp: to_iso_def append_less_iff [OF len] four_digit_year_def)
qed

lemma to_iso_less_iff:
  "four_digit_year t \<Longrightarrow> four_digit_year u \<Longrightarrow> to_iso t < to_iso u \<longleftrightarrow> t < u"
  using to_iso_less [of t u] to_iso_less [of u t] by (cases t u rule: linorder_cases) auto

lemma to_iso_inj:
  "four_digit_year t \<Longrightarrow> four_digit_year u \<Longrightarrow> to_iso t = to_iso u \<longleftrightarrow> t = u"
  using to_iso_less [of t u] to_iso_less [of u t] by (cases t u rule: linorder_cases) auto

text \<open>The times from the epoch to the end of the year 9999, where every conversion is exact.\<close>

definition common_time :: "int \<Rightarrow> bool" where
  "common_time t \<longleftrightarrow> 0 \<le> t \<and> t < 253402300800000"

lemma common_time_range: "common_time t \<Longrightarrow> \<bar>t\<bar> \<le> MAX_TIME"
  by (simp add: common_time_def MAX_TIME_def)

lemma common_time_year: "common_time t \<Longrightarrow> four_digit_year t"
proof -
  assume c: "common_time t"
  have e: "year_of_day 0 = 1970" "year_of_day 2932896 = 9999" by code_simp+
  define q where "q = t div MS_DAY"
  have "MS_DAY * q \<le> t" "t \<le> MS_DAY * q + (MS_DAY - 1)"
    using div_bounds [of MS_DAY t] by (auto simp: q_def MS_DAY_def)
  moreover have "0 \<le> t" "t < 253402300800000" using c by (simp_all add: common_time_def)
  ultimately have "0 \<le> q" "q \<le> 2932896" unfolding MS_DAY_def by linarith+
  then show ?thesis
    using year_of_day_mono [of 0 q] year_of_day_mono [of q 2932896]
    by (simp add: e four_digit_year_def q_def)
qed

lemma date_parse_common: "common_time t \<Longrightarrow> date_parse (to_iso t) = Some t"
  by (intro date_parse_iso common_time_range)

lemma to_iso_res_common [simp]: "common_time t \<Longrightarrow> to_iso_res t = Inr (to_iso t)"
  using common_time_range [of t] by (simp add: to_iso_res_def del: abs_le_iff)

lemma to_iso_common_less: "common_time t \<Longrightarrow> common_time u \<Longrightarrow> to_iso t < to_iso u \<longleftrightarrow> t < u"
  by (simp add: to_iso_less_iff common_time_year)

lemma to_iso_common_inj: "common_time t \<Longrightarrow> common_time u \<Longrightarrow> to_iso t = to_iso u \<longleftrightarrow> t = u"
  by (simp add: to_iso_inj common_time_year)

end
