(* ===== verification/JsValue.thy ===== *)
theory JsValue
  imports JsTime
begin

text \<open>
  JavaScript values as the code meets them at its edges (rows of JSON payloads,
  environment variables, query parameters), with the conversions
  \<open>String(v)\<close>, \<open>Number(v)\<close>, \<open>Boolean(v)\<close>, property reads and
  \<open>JSON.stringify\<close>. Objects are property lists in insertion order; identity of
  objects is not modelled. A \<open>Date\<close> is its time value, None for an invalid one.
\<close>

datatype jsval =
    Undef
  | Null
  | JBool bool
  | JNum jsnum
  | JStr string
  | JArr "jsval list"
  | JObj "(string \<times> jsval) list"
  | JDate "int option"

abbreviation JInt :: "int \<Rightarrow> jsval" where
  "JInt n \<equiv> JNum (Fin (of_int n))"

section \<open>Property reads\<close>

text \<open>\<open>row?.key\<close>: undefined for a missing property and for a value without properties.\<close>

fun jget :: "jsval \<Rightarrow> string \<Rightarrow> jsval" where
  "jget (JObj kvs) k = (case map_of kvs k of None \<Rightarrow> Undef | Some v \<Rightarrow> v)"
| "jget _ k = Undef"

text \<open>The object spread \<open>{...row, key: v}\<close>.\<close>

fun jput :: "jsval \<Rightarrow> string \<Rightarrow> jsval \<Rightarrow> jsval" where
  "jput (JObj kvs) k v = JObj (jm_set k v kvs)"
| "jput _ k v = JObj [(k, v)]"

lemma jget_jput: "jget (jput (JObj kvs) k v) k' = (if k' = k then v else jget (JObj kvs) k')"
  using jm_get_set [of k v kvs k'] by (simp add: jm_get_def)

definition is_nullish :: "jsval \<Rightarrow> bool" where
  "is_nullish v \<longleftrightarrow> v = Undef \<or> v = Null"

text \<open>\<open>a ?? b\<close>\<close>

definition js_coalesce :: "jsval \<Rightarrow> jsval \<Rightarrow> jsval" where
  "js_coalesce a b = (if is_nullish a then b else a)"

fun js_truthy :: "jsval \<Rightarrow> bool" where
  "js_truthy Undef = False"
| "js_truthy Null = False"
| "js_truthy (JBool b) = b"
| "js_truthy (JNum n) = (n \<noteq> NaN \<and> n \<noteq> Fin 0)"
| "js_truthy (JStr s) = (s \<noteq> [])"
| "js_truthy _ = True"

text \<open>\<open>a || b\<close>\<close>

definition js_or :: "jsval \<Rightarrow> jsval \<Rightarrow> jsval" where
  "js_or a b = (if js_truthy a then a else b)"

section \<open>\<open>String(v)\<close>\<close>

definition weekday_name :: "int \<Rightarrow> string" where
  "weekday_name n = [''Sun'', ''Mon'', ''Tue'', ''Wed'', ''Thu'', ''Fri'', ''Sat''] ! nat n"

definition month_name :: "int \<Rightarrow> string" where
  "month_name m = [''Jan'', ''Feb'', ''Mar'', ''Apr'', ''May'', ''Jun'', ''Jul'', ''Aug'', ''Sep'',
     ''Oct'', ''Nov'', ''Dec''] ! nat (m - 1)"

definition date_str :: "int \<Rightarrow> string" where
  "date_str t =
     (let n = t div MS_DAY; r = t mod MS_DAY; (y, m, d) = civil_of_day n
      in weekday_name (weekday n) @ '' '' @ month_name m @ '' '' @ pad 2 d @ '' '' @
         (if y < 0 then CHR ''-'' # pad 6 (- y) else if y < 10000 then pad 4 y else int_str y) @ '' '' @
         pad 2 (r div MS_HOUR) @ '':'' @ pad 2 (r div MS_MINUTE mod 60) @ '':'' @
         pad 2 (r div 1000 mod 60) @ '' GMT+0000 (Coordinated Universal Time)'')"

fun js_string :: "jsval \<Rightarrow> string" where
  "js_string Undef = ''undefined''"
| "js_string Null = ''null''"
| "js_string (JBool b) = (if b then ''true'' else ''false'')"
| "js_string (JNum n) = num_str n"
| "js_string (JStr s) = s"
| "js_string (JArr vs) = js_join '','' (List.map (\<lambda>v. if is_nullish v then [] else js_string v) vs)"
| "js_string (JObj _) = ''[object Object]''"
| "js_string (JDate None) = ''Invalid Date''"
| "js_string (JDate (Some t)) = date_str t"

text \<open>The two idioms of the code: \<open>String(v ?? "")\<close> and \<open>String(v || "")\<close>.\<close>

definition str_coalesce :: "jsval \<Rightarrow> string" where
  "str_coalesce v = js_string (js_coalesce v (JStr []))"

definition str_or_empty :: "jsval \<Rightarrow> string" where
  "str_or_empty v = js_string (js_or v (JStr []))"

lemma str_coalesce_JStr [simp]: "str_coalesce (JStr s) = s"
  by (simp add: str_coalesce_def js_coalesce_def is_nullish_def)

lemma str_or_empty_JStr [simp]: "str_or_empty (JStr s) = s"
  by (simp add: str_or_empty_def js_or_def)

lemma str_or_empty_nullish [simp]: "str_or_empty Undef = []" "str_or_empty Null = []"
  by (simp_all add: str_or_empty_def js_or_def)

section \<open>\<open>Number(v)\<close>\<close>

fun js_number :: "jsval \<Rightarrow> jsnum" where
  "js_number Undef = NaN"
| "js_number Null = Fin 0"
| "js_number (JBool b) = (if b then Fin 1 else Fin 0)"
| "js_number (JNum n) = n"
| "js_number (JStr s) = js_parse_number s"
| "js_number (JArr vs) = js_parse_number (js_string (JArr vs))"
| "js_number (JObj _) = NaN"
| "js_number (JDate None) = NaN"
| "js_number (JDate (Some t)) = Fin (of_int t)"

text \<open>\<open>JSON\<close> payloads hold neither undefined nor dates, and their numbers are finite.\<close>

fun is_json :: "jsval \<Rightarrow> bool" where
  "is_json Undef = False"
| "is_json (JDate _) = False"
| "is_json (JNum n) = num_finite n"
| "is_json (JArr vs) = list_all is_json vs"
| "is_json (JObj kvs) = list_all (\<lambda>kv. is_json (snd kv)) kvs"
| "is_json _ = True"

section \<open>\<open>JSON.stringify\<close>\<close>

definition hex_digit :: "int \<Rightarrow> char" where
  "hex_digit n = (if n < 10 then digit_char n else char_of (87 + n))"

definition json_char :: "char \<Rightarrow> string" where
  "json_char c =
     (let n = char_code c in
      if n = 34 then [char_of (92::int), char_of (34::int)]
      else if n = 92 then [char_of (92::int), char_of (92::int)]
      else if n = 8 then char_of (92::int) # ''b''
      else if n = 9 then char_of (92::int) # ''t''
      else if n = 10 then char_of (92::int) # ''n''
      else if n = 12 then char_of (92::int) # ''f''
      else if n = 13 then char_of (92::int) # ''r''
      else if n < 32 then char_of (92::int) # ''u00'' @ [hex_digit (n div 16), hex_digit (n mod 16)]
      else [c])"

definition json_string :: "string \<Rightarrow> string" where
  "json_string s = CHR 0x22 # List.concat (List.map json_char s) @ [CHR 0x22]"

fun json_stringify :: "jsval \<Rightarrow> string" where
  "json_stringify Undef = ''null''"
| "json_stringify Null = ''null''"
| "json_stringify (JBool b) = (if b then ''true'' else ''false'')"
| "json_stringify (JNum n) = (if num_finite n then num_str n else ''null'')"
| "json_stringify (JStr s) = json_string s"
| "json_stringify (JArr vs) = ''['' @ js_join '','' (List.map json_stringify vs) @ '']''"
| "json_stringify (JObj kvs) =
     ''{'' @ js_join '','' (List.concat (List.map (\<lambda>kv. case snd kv of Undef \<Rightarrow> []
         | v \<Rightarrow> [json_string (fst kv) @ '':'' @ json_stringify (snd kv)]) kvs)) @ ''}''"
| "json_stringify (JDate None) = ''null''"
| "json_stringify (JDate (Some t)) = json_string (to_iso t)"

section \<open>Conversions shared by several files\<close>

text \<open>\<open>Number(value)\<close> as a positive integer, the form every identifier is read in.\<close>

definition positive_int_of :: "jsnum \<Rightarrow> int option" where
  "positive_int_of a = (case num_integer a of None \<Rightarrow> None | Some n \<Rightarrow> if 0 < n then Some n else None)"

lemma positive_int_of_pos: "positive_int_of a = Some n \<Longrightarrow> 0 < n"
  by (auto simp: positive_int_of_def split: option.splits if_splits)

lemma positive_int_of_JInt [simp]: "0 < n \<Longrightarrow> positive_int_of (Fin (of_int n)) = Some n"
  by (simp add: positive_int_of_def)

text \<open>A string compared under the default collation: punctuation and symbols come before
  digits, digits before letters, and letters are compared without case first. It orders the
  composite keys the code builds from digits, lower-case words, \<open>|\<close> and time stamps.\<close>

definition collation_rank :: "char \<Rightarrow> int" where
  "collation_rank c =
     (let l = char_code (char_lower c) in
      if is_digit c then 200 + l else if 97 \<le> l \<and> l \<le> 122 then 300 + l else l)"

definition collation_key :: "string \<Rightarrow> int list \<times> string" where
  "collation_key s = (List.map collation_rank s, s)"

end
