(* ===== verification/JsJson.thy ===== *)
theory JsJson
  imports JsValue
begin

text \<open>
  \<open>JSON.parse\<close> on the strings of the model (code units below 256): the
  grammar of the JSON standard, whitespace included. None is a SyntaxError. A
  \<open>u\<close> escape above 00FF has no counterpart in the model's strings and is refused.
  The parser's fuel bounds the nesting of calls; a text of n characters needs at
  most 2 n + 2.
\<close>

definition json_ws :: "char \<Rightarrow> bool" where
  "json_ws c \<longleftrightarrow> char_code c \<in> {32, 9, 10, 13}"

definition skip_ws :: "string \<Rightarrow> string" where
  "skip_ws s = dropWhile json_ws s"

definition json_escape :: "char \<Rightarrow> char option" where
  "json_escape c =
     (let n = char_code c in
      if n = 34 \<or> n = 92 \<or> n = 47 then Some c
      else map_of [(98, char_of (8::int)), (102, char_of (12::int)), (110, char_of (10::int)),
        (114, char_of (13::int)), (116, char_of (9::int))] n)"

definition hex_val :: "char \<Rightarrow> int option" where
  "hex_val c =
     (let n = char_code c in
      if is_digit c then Some (n - 48)
      else if 97 \<le> n \<and> n \<le> 102 then Some (n - 87)
      else if 65 \<le> n \<and> n \<le> 70 then Some (n - 55) else None)"

definition unicode_char :: "char \<Rightarrow> char \<Rightarrow> char \<Rightarrow> char \<Rightarrow> char option" where
  "unicode_char a b c d =
     do { w \<leftarrow> hex_val a; x \<leftarrow> hex_val b; y \<leftarrow> hex_val c; z \<leftarrow> hex_val d;
          (if w = 0 \<and> x = 0 then Some (char_of (16 * y + z)) else None) }"

definition cons_fst :: "char \<Rightarrow> (string \<times> string) option \<Rightarrow> (string \<times> string) option" where
  "cons_fst c r = map_option (\<lambda>(t, rest). (c # t, rest)) r"

text \<open>The characters up to the closing quote, and what follows it.\<close>

fun json_chars :: "string \<Rightarrow> (string \<times> string) option" where
  "json_chars [] = None"
| "json_chars (c # s) =
     (if char_code c = 34 then Some ([], s)
      else if char_code c < 32 then None
      else if char_code c \<noteq> 92 then cons_fst c (json_chars s)
      else (case s of
          [] \<Rightarrow> None
        | e # s1 \<Rightarrow>
            (case json_escape e of
               Some x \<Rightarrow> cons_fst x (json_chars s1)
             | None \<Rightarrow>
                 if e \<noteq> CHR ''u'' then None
                 else (case s1 of
                     h1 # h2 # h3 # h4 # s2 \<Rightarrow>
                       (case unicode_char h1 h2 h3 h4 of
                          None \<Rightarrow> None | Some x \<Rightarrow> cons_fst x (json_chars s2))
                   | _ \<Rightarrow> None))))"

text \<open>The token of a number: \<open>-?(0|[1-9][0-9]*)(.[0-9]+)?([eE][+-]?[0-9]+)?\<close>.\<close>

definition json_fraction :: "string \<Rightarrow> (string \<times> string) option" where
  "json_fraction s =
     (case s of
        c # t \<Rightarrow> if c = CHR ''.'' then
            (if takeWhile is_digit t = [] then None
             else Some (c # takeWhile is_digit t, dropWhile is_digit t))
          else Some ([], s)
      | [] \<Rightarrow> Some ([], s))"

definition json_exponent :: "string \<Rightarrow> (string \<times> string) option" where
  "json_exponent s =
     (case s of
        c # t \<Rightarrow> if char_lower c = CHR ''e'' then
            (let (sign, u) = (case t of x # u \<Rightarrow> if x = CHR ''+'' \<or> x = CHR ''-'' then ([x], u) else ([], t)
                              | [] \<Rightarrow> ([], t))
             in if takeWhile is_digit u = [] then None
                else Some (c # sign @ takeWhile is_digit u, dropWhile is_digit u))
          else Some ([], s)
      | [] \<Rightarrow> Some ([], s))"

definition json_number_token :: "string \<Rightarrow> (string \<times> string) option" where
  "json_number_token s =
     (let (sign, t) = (case s of c # t \<Rightarrow> if c = CHR ''-'' then ([c], t) else ([], s) | [] \<Rightarrow> ([], s));
          ds = takeWhile is_digit t
      in if ds = [] then None
         else let (int_part, u) = (if hd ds = CHR ''0'' then (''0'', tl t) else (ds, dropWhile is_digit t))
           in do { (frac, v) \<leftarrow> json_fraction u;
                   (ex, w) \<leftarrow> json_exponent v;
                   Some (sign @ int_part @ frac @ ex, w) })"

definition json_word :: "string \<Rightarrow> jsval \<Rightarrow> string \<Rightarrow> (jsval \<times> string) option" where
  "json_word w v s = (if take (length w) s = w then Some (v, drop (length w) s) else None)"

text \<open>Values, the elements of an array after its bracket, the members of an object after its brace.\<close>

fun json_value :: "nat \<Rightarrow> string \<Rightarrow> (jsval \<times> string) option"
  and json_elements :: "nat \<Rightarrow> string \<Rightarrow> (jsval list \<times> string) option"
  and json_members :: "nat \<Rightarrow> (string \<times> jsval) list \<Rightarrow> string \<Rightarrow> ((string \<times> jsval) list \<times> string) option"
where
  "json_value 0 s = None"
| "json_value (Suc n) s =
     (case skip_ws s of
        [] \<Rightarrow> None
      | c # t \<Rightarrow>
          if c = CHR ''n'' then json_word ''null'' Null (c # t)
          else if c = CHR ''t'' then json_word ''true'' (JBool True) (c # t)
          else if c = CHR ''f'' then json_word ''false'' (JBool False) (c # t)
          else if char_code c = 34 then map_option (\<lambda>(x, r). (JStr x, r)) (json_chars t)
          else if c = CHR ''['' then
            (case skip_ws t of
               [] \<Rightarrow> None
             | d # u \<Rightarrow> if d = CHR '']'' then Some (JArr [], u)
                 else map_option (\<lambda>(xs, r). (JArr xs, r)) (json_elements n t))
          else if c = CHR ''{'' then
            (case skip_ws t of
               [] \<Rightarrow> None
             | d # u \<Rightarrow> if d = CHR ''}'' then Some (JObj [], u)
                 else map_option (\<lambda>(kvs, r). (JObj kvs, r)) (json_members n [] t))
          else map_option (\<lambda>(tok, r). (JNum (js_parse_number tok), r)) (json_number_token (c # t)))"
| "json_elements 0 s = None"
| "json_elements (Suc n) s =
     (case json_value n s of
        None \<Rightarrow> None
      | Some (v, r) \<Rightarrow>
          (case skip_ws r of
             [] \<Rightarrow> None
           | c # t \<Rightarrow> if c = CHR '']'' then Some ([v], t)
               else if c = CHR '','' then map_option (\<lambda>(vs, u). (v # vs, u)) (json_elements n t)
               else None))"
| "json_members 0 acc s = None"
| "json_members (Suc n) acc s =
     (case skip_ws s of
        [] \<Rightarrow> None
      | q # k \<Rightarrow>
          if char_code q \<noteq> 34 then None
          else (case json_chars k of
              None \<Rightarrow> None
            | Some (key, r) \<Rightarrow>
                (case skip_ws r of
                   [] \<Rightarrow> None
                 | c # t \<Rightarrow>
                     if c \<noteq> CHR '':'' then None
                     else (case json_value n t of
                         None \<Rightarrow> None
                       | Some (v, r2) \<Rightarrow>
                           (case skip_ws r2 of
                              [] \<Rightarrow> None
                            | d # u \<Rightarrow>
                                if d = CHR ''}'' then Some (jm_set key v acc, u)
                                else if d = CHR '','' then json_members n (jm_set key v acc) u
                                else None)))))"

definition json_parse :: "string \<Rightarrow> jsval option" where
  "json_parse s =
     (case json_value (2 * length s + 2) s of
        None \<Rightarrow> None
      | Some (v, r) \<Rightarrow> if skip_ws r = [] then Some v else None)"

end
