(* ===== verification/Cron.thy ===== *)
theory Cron
  imports JsValue
begin

text \<open>
  The cron expressions of the Cloudflare scheduler (cloudflare/scheduler/worker.mjs):
  parsing of the five fields, matching of a UTC minute, and the due minutes of a
  window. A field's value set is the list of its values in insertion order, as
  a JavaScript \<open>Set\<close> keeps them. Field names, error messages and the order of the
  checks are those of the source.
\<close>

section \<open>Tables and fields\<close>

definition MINUTE_MS :: int where
  "MINUTE_MS = 60000"

definition DISPATCH_LEAD_MS :: int where
  "DISPATCH_LEAD_MS = 30000"

definition MONTH_NAME_TO_NUMBER :: "(string \<times> int) list" where
  "MONTH_NAME_TO_NUMBER =
     [(''JAN'', 1), (''FEB'', 2), (''MAR'', 3), (''APR'', 4), (''MAY'', 5), (''JUN'', 6),
      (''JUL'', 7), (''AUG'', 8), (''SEP'', 9), (''OCT'', 10), (''NOV'', 11), (''DEC'', 12)]"

definition DOW_NAME_TO_NUMBER :: "(string \<times> int) list" where
  "DOW_NAME_TO_NUMBER =
     [(''SUN'', 0), (''MON'', 1), (''TUE'', 2), (''WED'', 3), (''THU'', 4), (''FRI'', 5),
      (''SAT'', 6)]"

datatype cron_field = CronAny | CronValues "int list"

record cron =
  cron_minute :: cron_field
  cron_hour :: cron_field
  cron_dayOfMonth :: cron_field
  cron_month :: cron_field
  cron_dayOfWeek :: cron_field

definition set_add :: "'a \<Rightarrow> 'a list \<Rightarrow> 'a list" where
  "set_add x xs = (if x \<in> set xs then xs else xs @ [x])"

lemma set_set_add [simp]: "set (set_add x xs) = insert x (set xs)"
  by (auto simp: set_add_def)

lemma distinct_set_add [simp]: "distinct xs \<Longrightarrow> distinct (set_add x xs)"
  by (simp add: set_add_def)

definition cron_error :: "string \<Rightarrow> string \<Rightarrow> 'a res" where
  "cron_error fieldName what = Inl (JsError (''Invalid '' @ fieldName @ '': '' @ what))"

section \<open>Parsing\<close>

definition fold_sunday :: "bool \<Rightarrow> int \<Rightarrow> int" where
  \<comment> \<open>\<open>fieldName === "day-of-week" && value === 7 ? 0 : value\<close>\<close>
  "fold_sunday dow v = (if dow \<and> v = 7 then 0 else v)"

definition normalizeCronAtom ::
  "string \<Rightarrow> string \<Rightarrow> int \<Rightarrow> int \<Rightarrow> (string \<times> int) list \<Rightarrow> int res" where
  "normalizeCronAtom token fieldName mn mx names =
     (let normalized = js_upper (js_trim token) in
      if normalized = [] then cron_error fieldName ''empty token''
      else case map_of names normalized of
        Some v \<Rightarrow> Inr v
      | None \<Rightarrow>
          if fieldName = ''day-of-week'' \<and> normalized = ''7'' then Inr 0
          else (case num_integer (js_parse_number normalized) of
            None \<Rightarrow> cron_error fieldName (json_string token @ '' is not a valid value'')
          | Some parsed \<Rightarrow>
              if parsed < mn \<or> mx < parsed
              then cron_error fieldName (int_str parsed @ '' outside '' @ int_str mn @ ''-'' @ int_str mx)
              else Inr (fold_sunday (fieldName = ''day-of-week'') parsed)))"

text \<open>\<open>for (let value = start; value <= end; value += step)\<close>, for a positive step.\<close>

function expand_range :: "bool \<Rightarrow> int \<Rightarrow> int \<Rightarrow> int \<Rightarrow> int list \<Rightarrow> int list" where
  "expand_range dow v e step acc =
     (if v \<le> e \<and> 0 < step
      then expand_range dow (v + step) e step (set_add (fold_sunday dow v) acc)
      else acc)"
  by pat_completeness auto
termination
  by (relation "measure (\<lambda>(dow, v, e, step, acc). nat (e - v + 1))") auto

declare expand_range.simps [simp del]

definition token_step :: "string \<Rightarrow> string \<Rightarrow> string \<Rightarrow> (string \<times> int) res" where
  \<comment> \<open>the base of the token and its step\<close>
  "token_step token parts fieldName =
     (if List.member parts (CHR ''/'') then
        (case js_split (CHR ''/'') parts of
           [b, st] \<Rightarrow>
             (case num_integer (js_parse_number (js_trim st)) of
                Some step \<Rightarrow>
                  if step \<le> 0 then cron_error fieldName ''step must be a positive integer''
                  else Inr (b, step)
              | None \<Rightarrow> cron_error fieldName ''step must be a positive integer'')
         | _ \<Rightarrow> cron_error fieldName (json_string token))
      else Inr (parts, 1))"

definition token_range ::
  "string \<Rightarrow> string \<Rightarrow> string \<Rightarrow> int \<Rightarrow> int \<Rightarrow> (string \<times> int) list \<Rightarrow> (int \<times> int) res" where
  \<comment> \<open>the first and last value of the base\<close>
  "token_range token base fieldName mn mx names =
     (if base = ''*'' then Inr (mn, mx)
      else if List.member base (CHR ''-'') then
        (case js_split (CHR ''-'') base of
           [a, b] \<Rightarrow>
             res_bind (normalizeCronAtom a fieldName mn mx names)
               (\<lambda>s. res_map (\<lambda>e. (s, e)) (normalizeCronAtom b fieldName mn mx names))
         | _ \<Rightarrow> cron_error fieldName (json_string token))
      else res_map (\<lambda>v. (v, v)) (normalizeCronAtom base fieldName mn mx names))"

definition expandCronToken ::
  "string \<Rightarrow> string \<Rightarrow> int \<Rightarrow> int \<Rightarrow> (string \<times> int) list \<Rightarrow> int list res" where
  "expandCronToken token fieldName mn mx names =
     (let parts = js_upper (js_trim token) in
      if parts = [] then cron_error fieldName ''empty cron token''
      else res_bind (token_step token parts fieldName) (\<lambda>(base, step).
        res_bind (token_range token base fieldName mn mx names) (\<lambda>(start, end').
          if end' < start then cron_error fieldName ''range start must be <= range end''
          else Inr (expand_range (fieldName = ''day-of-week'') start end' step []))))"

definition parseCronField ::
  "string \<Rightarrow> string \<Rightarrow> int \<Rightarrow> int \<Rightarrow> (string \<times> int) list \<Rightarrow> cron_field res" where
  "parseCronField field fieldName mn mx names =
     (let normalized = js_upper (js_trim field) in
      if normalized = [] then Inl (JsError (''Invalid cron expression: missing '' @ fieldName))
      else if normalized = ''*'' then Inr CronAny
      else res_map CronValues
        (res_fold (\<lambda>token values.
            res_map (\<lambda>vs. fold set_add vs values) (expandCronToken token fieldName mn mx names))
          (js_split (CHR '','') normalized) []))"

definition parseCronExpression :: "string \<Rightarrow> cron res" where
  "parseCronExpression expr =
     (case js_split_ws False (js_trim expr) of
        [f0, f1, f2, f3, f4] \<Rightarrow>
          res_bind (parseCronField f0 ''minute'' 0 59 []) (\<lambda>mi.
          res_bind (parseCronField f1 ''hour'' 0 23 []) (\<lambda>h.
          res_bind (parseCronField f2 ''day-of-month'' 1 31 []) (\<lambda>dom.
          res_bind (parseCronField f3 ''month'' 1 12 MONTH_NAME_TO_NUMBER) (\<lambda>mo.
          res_bind (parseCronField f4 ''day-of-week'' 0 7 DOW_NAME_TO_NUMBER) (\<lambda>dow.
            Inr \<lparr>cron_minute = mi, cron_hour = h, cron_dayOfMonth = dom, cron_month = mo, cron_dayOfWeek = dow\<rparr>)))))
      | _ \<Rightarrow> Inl (JsError (''Invalid cron expression '' @ json_string expr @ '': expected five fields'')))"

section \<open>Matching\<close>

fun fieldMatches :: "cron_field \<Rightarrow> int option \<Rightarrow> bool" where
  "fieldMatches CronAny v = True"
| "fieldMatches (CronValues vs) None = False"
| "fieldMatches (CronValues vs) (Some v) = (v \<in> set vs)"

text \<open>
  The UTC parts of \<open>new Date(t)\<close>; a time outside the range of time values is an
  invalid date, whose parts are NaN (None) and match no value set.
\<close>

definition utc_part :: "(int \<Rightarrow> int) \<Rightarrow> int \<Rightarrow> int option" where
  "utc_part f t = map_option f (time_clip t)"

definition getUTCMinutes :: "int \<Rightarrow> int" where
  "getUTCMinutes t = t div MS_MINUTE mod 60"

definition getUTCHours :: "int \<Rightarrow> int" where
  "getUTCHours t = t div MS_HOUR mod 24"

definition getUTCDate :: "int \<Rightarrow> int" where
  "getUTCDate t = (case civil_of_day (t div MS_DAY) of (y, m, d) \<Rightarrow> d)"

definition getUTCMonth1 :: "int \<Rightarrow> int" where
  \<comment> \<open>\<open>getUTCMonth() + 1\<close>\<close>
  "getUTCMonth1 t = (case civil_of_day (t div MS_DAY) of (y, m, d) \<Rightarrow> m)"

definition getUTCDay :: "int \<Rightarrow> int" where
  "getUTCDay t = weekday (t div MS_DAY)"

definition cronMatchesDate :: "cron \<Rightarrow> int \<Rightarrow> bool" where
  "cronMatchesDate c t =
     (let minuteMatches = fieldMatches (cron_minute c) (utc_part getUTCMinutes t);
          hourMatches = fieldMatches (cron_hour c) (utc_part getUTCHours t);
          monthMatches = fieldMatches (cron_month c) (utc_part getUTCMonth1 t);
          domMatches = fieldMatches (cron_dayOfMonth c) (utc_part getUTCDate t);
          dowMatches = fieldMatches (cron_dayOfWeek c) (utc_part getUTCDay t);
          dayMatches = (if cron_dayOfMonth c = CronAny \<or> cron_dayOfWeek c = CronAny
                        then domMatches \<and> dowMatches else domMatches \<or> dowMatches)
      in minuteMatches \<and> hourMatches \<and> monthMatches \<and> dayMatches)"

section \<open>Due minutes of a window\<close>

function scan_minutes :: "cron \<Rightarrow> int \<Rightarrow> int \<Rightarrow> int list" where
  "scan_minutes c t e =
     (if t \<le> e then (if cronMatchesDate c t then [t] else []) @ scan_minutes c (t + MINUTE_MS) e
      else [])"
  by pat_completeness auto
termination
  by (relation "measure (\<lambda>(c, t, e). nat (e - t + 1))") (auto simp: MINUTE_MS_def)

declare scan_minutes.simps [simp del]

definition minute_floor :: "int \<Rightarrow> int" where
  "minute_floor t = t div MINUTE_MS * MINUTE_MS"

definition cronDueTimes :: "string \<Rightarrow> int \<Rightarrow> int \<Rightarrow> string list res" where
  "cronDueTimes expr startExclusiveMs endInclusiveMs =
     res_bind (parseCronExpression expr) (\<lambda>c.
       let start = minute_floor startExclusiveMs + MINUTE_MS;
           end' = minute_floor endInclusiveMs
       in if end' < start then Inr []
          else res_mapM to_iso_res (scan_minutes c start end'))"

section \<open>Lemmas on parsing\<close>
lemma range_shift:
  fixes v step e :: int
  shows "(\<exists>k. v + int k * step \<le> e \<and> P (v + int k * step)) \<longleftrightarrow>
     (v \<le> e \<and> P v) \<or> (\<exists>k. v + step + int k * step \<le> e \<and> P (v + step + int k * step))"
proof -
  have "(\<exists>k. Q k) \<longleftrightarrow> Q 0 \<or> (\<exists>k. Q (Suc k))" for Q :: "nat \<Rightarrow> bool"
    by (metis not0_implies_Suc)
  from this [of "\<lambda>k. v + int k * step \<le> e \<and> P (v + int k * step)"]
  show ?thesis by (simp add: algebra_simps)
qed

lemma mem_expand_range:
  assumes "0 < step"
  shows "w \<in> set (expand_range dow v e step acc) \<longleftrightarrow>
    w \<in> set acc \<or> (\<exists>k. v + int k * step \<le> e \<and> w = fold_sunday dow (v + int k * step))"
  using assms
proof (induction dow v e step acc rule: expand_range.induct)
  case (1 dow v e step acc)
  note sh = range_shift [of v step e "\<lambda>x. w = fold_sunday dow x"]
  show ?case
  proof (cases "v \<le> e")
    case True
    with 1 have "w \<in> set (expand_range dow v e step acc) \<longleftrightarrow> w \<in> set (set_add (fold_sunday dow v) acc) \<or>
        (\<exists>k. v + step + int k * step \<le> e \<and> w = fold_sunday dow (v + step + int k * step))"
      by (subst expand_range.simps) simp
    with True show ?thesis unfolding sh by auto
  next
    case False
    have "\<not> v + int k * step \<le> e" for k
      using False 1(2) mult_nonneg_nonneg [of "int k" step] by linarith
    then show ?thesis using False by (subst expand_range.simps) simp
  qed
qed

lemma distinct_expand_range: "distinct acc \<Longrightarrow> distinct (expand_range dow v e step acc)"
  by (induction dow v e step acc rule: expand_range.induct)
    (subst expand_range.simps, simp)

lemma set_fold_set_add: "set (fold set_add vs acc) = set vs \<union> set acc"
  by (induction vs arbitrary: acc) auto

lemma distinct_fold_set_add: "distinct acc \<Longrightarrow> distinct (fold set_add vs acc)"
  by (induction vs arbitrary: acc) auto

text \<open>The values a field may hold: the day of the week folds 7 to 0.\<close>

definition field_max :: "string \<Rightarrow> int \<Rightarrow> int" where
  "field_max fieldName mx = (if fieldName = ''day-of-week'' then 6 else mx)"

definition names_within :: "(string \<times> int) list \<Rightarrow> int \<Rightarrow> int \<Rightarrow> bool" where
  "names_within names mn mx \<longleftrightarrow> list_all (\<lambda>nv. mn \<le> snd nv \<and> snd nv \<le> mx) names"

lemma names_within_lookup:
  "names_within names mn mx \<Longrightarrow> map_of names n = Some v \<Longrightarrow> mn \<le> v \<and> v \<le> mx"
  by (auto simp: names_within_def list_all_iff dest!: map_of_SomeD)

lemma cron_error_ne [simp]: "cron_error f w \<noteq> Inr x"
  by (simp add: cron_error_def)

lemma normalizeCronAtom_range:
  assumes "normalizeCronAtom tok f mn mx names = Inr v" "names_within names mn (field_max f mx)"
    "mn \<le> 0 \<or> f \<noteq> ''day-of-week''" "f = ''day-of-week'' \<Longrightarrow> mx \<le> 7"
  shows "mn \<le> v \<and> v \<le> field_max f mx"
proof (cases "map_of names (js_upper (js_trim tok))")
  case (Some w)
  with assms(1) have "v = w"
    by (auto simp: normalizeCronAtom_def Let_def split: if_splits)
  with names_within_lookup [OF assms(2) Some] show ?thesis by simp
next
  case None
  with assms(1,3,4) show ?thesis
    by (auto simp: normalizeCronAtom_def Let_def field_max_def fold_sunday_def split: if_splits option.splits)
qed

definition std_field :: "string \<Rightarrow> int \<Rightarrow> int \<Rightarrow> (string \<times> int) list \<Rightarrow> bool" where
  "std_field f mn mx names \<longleftrightarrow> mn \<le> field_max f mx \<and> names_within names mn (field_max f mx)
     \<and> (f = ''day-of-week'' \<longrightarrow> mn = 0 \<and> mx = 7)"

lemma token_range_range:
  assumes "token_range tok base f mn mx names = Inr (s, e)" "std_field f mn mx names"
  shows "mn \<le> s \<and> e \<le> mx"
proof -
  have atom: "mn \<le> v \<and> v \<le> mx" if "normalizeCronAtom t f mn mx names = Inr v" for t v
  proof -
    from assms(2) have "mn \<le> v \<and> v \<le> field_max f mx"
      by (intro normalizeCronAtom_range [OF that]) (auto simp: std_field_def)
    then show ?thesis using assms(2) by (auto simp: field_max_def std_field_def split: if_splits)
  qed
  show ?thesis
    using assms(1) atom
    by (auto simp: token_range_def res_simps split: if_splits list.splits)
qed

lemma token_step_pos: "token_step tok parts f = Inr (b, step) \<Longrightarrow> 0 < step"
  by (auto simp: token_step_def split: if_splits list.splits option.splits)

lemma expandCronToken_cases:
  assumes "expandCronToken tok f mn mx names = Inr vs"
  obtains base step s e where
    "token_step tok (js_upper (js_trim tok)) f = Inr (base, step)"
    "token_range tok base f mn mx names = Inr (s, e)" "s \<le> e" "0 < step"
    "vs = expand_range (f = ''day-of-week'') s e step []"
  using assms token_step_pos
  by (auto simp: expandCronToken_def Let_def res_simps not_less split: if_splits)

lemma expandCronToken_mem:
  assumes "expandCronToken tok f mn mx names = Inr vs"
  shows "\<exists>base step s e. token_step tok (js_upper (js_trim tok)) f = Inr (base, step)
     \<and> token_range tok base f mn mx names = Inr (s, e) \<and> 0 < step \<and> s \<le> e
     \<and> set vs = {fold_sunday (f = ''day-of-week'') (s + int k * step) | k. s + int k * step \<le> e}"
  using assms
proof (rule expandCronToken_cases)
  fix base step s e
  assume *: "token_step tok (js_upper (js_trim tok)) f = Inr (base, step)"
    "token_range tok base f mn mx names = Inr (s, e)" "s \<le> e" "0 < step"
    "vs = expand_range (f = ''day-of-week'') s e step []"
  then show ?thesis
    using mem_expand_range [OF *(4), of _ "f = ''day-of-week''" s e "[]"] by auto
qed

lemma expandCronToken_range:
  assumes "expandCronToken tok f mn mx names = Inr vs" "std_field f mn mx names"
  shows "vs \<noteq> [] \<and> (\<forall>v \<in> set vs. mn \<le> v \<and> v \<le> field_max f mx)"
proof -
  from expandCronToken_mem [OF assms(1)] obtain base step s e where
    r: "token_range tok base f mn mx names = Inr (s, e)" and st: "0 < step" "s \<le> e"
    and vs: "set vs = {fold_sunday (f = ''day-of-week'') (s + int k * step) | k. s + int k * step \<le> e}"
    by blast
  have "fold_sunday (f = ''day-of-week'') (s + int 0 * step) \<in> set vs"
    unfolding vs using st(2) by (intro CollectI exI [of _ 0]) simp
  moreover have "mn \<le> fold_sunday (f = ''day-of-week'') (s + int k * step) \<and>
      fold_sunday (f = ''day-of-week'') (s + int k * step) \<le> field_max f mx"
    if "s + int k * step \<le> e" for k
  proof -
    have "0 \<le> int k * step" using st(1) by simp
    then have "mn \<le> s + int k * step" "s + int k * step \<le> mx"
      using token_range_range [OF r assms(2)] that by linarith+
    then show ?thesis
      using assms(2) by (auto simp: fold_sunday_def field_max_def std_field_def)
  qed
  ultimately show ?thesis using vs by auto
qed

definition wf_field :: "int \<Rightarrow> int \<Rightarrow> cron_field \<Rightarrow> bool" where
  "wf_field lo hi c = (case c of CronAny \<Rightarrow> True
     | CronValues vs \<Rightarrow> vs \<noteq> [] \<and> distinct vs \<and> list_all (\<lambda>v. lo \<le> v \<and> v \<le> hi) vs)"

lemma parseCronField_wf:
  assumes "parseCronField field f mn mx names = Inr c" "std_field f mn mx names"
  shows "wf_field mn (field_max f mx) c"
proof -
  let ?step = "\<lambda>token values. res_map (\<lambda>vs. fold set_add vs values) (expandCronToken token f mn mx names)"
  let ?P = "\<lambda>vs. distinct vs \<and> (\<forall>v \<in> set vs. mn \<le> v \<and> v \<le> field_max f mx)"
  have step: "?P w \<and> w \<noteq> []" if "?P vs" "?step tok vs = Inr w" for tok vs w
    using that expandCronToken_range [OF _ assms(2), of tok]
    by (auto simp: res_simps set_fold_set_add distinct_fold_set_add)
      (metis list.set_intros(1) neq_Nil_conv set_fold_set_add UnI1 empty_iff list.set(1))+
  have loop: "?P w" if "res_fold ?step toks vs = Inr w" "?P vs" for toks vs w
    using res_fold_inv [where P = ?P, OF that] step by blast
  show ?thesis
  proof (cases c)
    case (CronValues w)
    then obtain toks where toks: "res_fold ?step toks [] = Inr w" "toks \<noteq> []"
      using assms(1) js_split_nonempty [of "CHR '',''" "js_upper (js_trim field)"]
      by (auto simp: parseCronField_def Let_def res_simps split: if_splits)
    then obtain tok rest vs where r: "?step tok [] = Inr vs" "res_fold ?step rest vs = Inr w"
      by (cases toks) (auto simp: res_simps)
    have "vs \<noteq> []" "?P vs" using step [OF _ r(1)] by auto
    moreover have "w \<noteq> []"
      using res_fold_inv [where P = "\<lambda>vs. ?P vs \<and> vs \<noteq> []", OF r(2)] step calculation by blast
    ultimately show ?thesis
      using loop [OF r(2)] CronValues by (simp add: wf_field_def list_all_iff)
  qed (simp add: wf_field_def)
qed

definition wf_cron :: "cron \<Rightarrow> bool" where
  "wf_cron c \<longleftrightarrow> wf_field 0 59 (cron_minute c) \<and> wf_field 0 23 (cron_hour c) \<and> wf_field 1 31 (cron_dayOfMonth c)
     \<and> wf_field 1 12 (cron_month c) \<and> wf_field 0 6 (cron_dayOfWeek c)"

lemma std_fields:
  "std_field ''minute'' 0 59 []" "std_field ''hour'' 0 23 []" "std_field ''day-of-month'' 1 31 []"
  "std_field ''month'' 1 12 MONTH_NAME_TO_NUMBER" "std_field ''day-of-week'' 0 7 DOW_NAME_TO_NUMBER"
  by (simp_all add: std_field_def names_within_def field_max_def MONTH_NAME_TO_NUMBER_def
      DOW_NAME_TO_NUMBER_def)

lemma std_field_wf:
  "parseCronField x ''minute'' 0 59 [] = Inr c \<Longrightarrow> wf_field 0 59 c"
  "parseCronField x ''hour'' 0 23 [] = Inr c \<Longrightarrow> wf_field 0 23 c"
  "parseCronField x ''day-of-month'' 1 31 [] = Inr c \<Longrightarrow> wf_field 1 31 c"
  "parseCronField x ''month'' 1 12 MONTH_NAME_TO_NUMBER = Inr c \<Longrightarrow> wf_field 1 12 c"
  "parseCronField x ''day-of-week'' 0 7 DOW_NAME_TO_NUMBER = Inr c \<Longrightarrow> wf_field 0 6 c"
  using parseCronField_wf [OF _ std_fields(1)] parseCronField_wf [OF _ std_fields(2)]
    parseCronField_wf [OF _ std_fields(3)] parseCronField_wf [OF _ std_fields(4)]
    parseCronField_wf [OF _ std_fields(5)]
  by (simp_all add: field_max_def)

lemma parseCronExpression_fields:
  assumes "parseCronExpression expr = Inr c"
  obtains f0 f1 f2 f3 f4 where "js_split_ws False (js_trim expr) = [f0, f1, f2, f3, f4]"
    "parseCronField f0 ''minute'' 0 59 [] = Inr (cron_minute c)"
    "parseCronField f1 ''hour'' 0 23 [] = Inr (cron_hour c)"
    "parseCronField f2 ''day-of-month'' 1 31 [] = Inr (cron_dayOfMonth c)"
    "parseCronField f3 ''month'' 1 12 MONTH_NAME_TO_NUMBER = Inr (cron_month c)"
    "parseCronField f4 ''day-of-week'' 0 7 DOW_NAME_TO_NUMBER = Inr (cron_dayOfWeek c)"
  using assms unfolding parseCronExpression_def
  by (simp add: res_bind_Inr split: list.splits) fastforce

lemma parseCronExpression_wf: "parseCronExpression expr = Inr c \<Longrightarrow> wf_cron c"
  by (erule parseCronExpression_fields) (simp add: wf_cron_def std_field_wf)

section \<open>Lemmas on due times\<close>

lemma scan_minutes_empty [simp]: "e < t \<Longrightarrow> scan_minutes c t e = []"
  by (subst scan_minutes.simps) simp

lemma mem_scan_minutes:
  "x \<in> set (scan_minutes c t e) \<longleftrightarrow>
     cronMatchesDate c x \<and> t \<le> x \<and> x \<le> e \<and> MINUTE_MS dvd x - t"
proof (induction c t e rule: scan_minutes.induct)
  case (1 c t e)
  have m: "0 < MINUTE_MS" by (simp add: MINUTE_MS_def)
  show ?case
  proof (cases "t \<le> e")
    case True
    have dv: "MINUTE_MS dvd x - (t + MINUTE_MS) \<longleftrightarrow> MINUTE_MS dvd x - t"
      using dvd_shift [of MINUTE_MS MINUTE_MS "x - t"] by (simp add: diff_diff_eq)
    have ge: "MINUTE_MS dvd x - t \<Longrightarrow> t \<le> x \<Longrightarrow> x \<noteq> t \<Longrightarrow> t + MINUTE_MS \<le> x"
      using zdvd_imp_le [of MINUTE_MS "x - t"] by simp
    from 1 True have ih: "x \<in> set (scan_minutes c (t + MINUTE_MS) e) \<longleftrightarrow> cronMatchesDate c x \<and>
        t + MINUTE_MS \<le> x \<and> x \<le> e \<and> MINUTE_MS dvd x - t" unfolding dv by blast
    have "x \<in> set (scan_minutes c t e) \<longleftrightarrow>
        cronMatchesDate c t \<and> x = t \<or> x \<in> set (scan_minutes c (t + MINUTE_MS) e)"
      using True by (subst scan_minutes.simps) auto
    also have "\<dots> \<longleftrightarrow> cronMatchesDate c x \<and> t \<le> x \<and> x \<le> e \<and> MINUTE_MS dvd x - t"
      unfolding ih using True ge m by (cases "x = t") auto
    finally show ?thesis .
  qed (subst scan_minutes.simps, auto)
qed

lemma scan_minutes_append:
  "t \<le> u \<Longrightarrow> u \<le> e + MINUTE_MS \<Longrightarrow> MINUTE_MS dvd u - t \<Longrightarrow>
     scan_minutes c t e = scan_minutes c t (u - MINUTE_MS) @ scan_minutes c u e"
proof (induction c t e rule: scan_minutes.induct)
  case (1 c t e)
  have m: "0 < MINUTE_MS" by (simp add: MINUTE_MS_def)
  show ?case
  proof (cases "t = u")
    case True
    then show ?thesis using m by simp
  next
    case False
    have u: "t + MINUTE_MS \<le> u"
      using zdvd_imp_le [of MINUTE_MS "u - t"] 1(2,4) False by simp
    have "MINUTE_MS dvd u - (t + MINUTE_MS)"
      using 1(4) dvd_shift [of MINUTE_MS MINUTE_MS "u - t"] by (simp add: diff_diff_eq)
    then have "scan_minutes c (t + MINUTE_MS) e =
        scan_minutes c (t + MINUTE_MS) (u - MINUTE_MS) @ scan_minutes c u e"
      using 1 u by auto
    then show ?thesis
      using u 1(3) by (subst (1 2) scan_minutes.simps) simp
  qed
qed

lemma scan_minutes_sorted: "sorted_wrt (<) (scan_minutes c t e)"
proof (induction c t e rule: scan_minutes.induct)
  case (1 c t e)
  have m: "0 < MINUTE_MS" by (simp add: MINUTE_MS_def)
  have "\<forall>x \<in> set (scan_minutes c (t + MINUTE_MS) e). t < x"
    using m by (auto simp: mem_scan_minutes)
  with 1 show ?case by (cases "t \<le> e") (auto simp: scan_minutes.simps [of c t e])
qed

lemma minute_floor_bounds: "minute_floor t \<le> t \<and> t < minute_floor t + MINUTE_MS"
  using div_bounds [of MINUTE_MS t] by (simp add: minute_floor_def MINUTE_MS_def)

lemma minute_floor_mono: "a \<le> b \<Longrightarrow> minute_floor a \<le> minute_floor b"
  by (simp add: minute_floor_def MINUTE_MS_def zdiv_mono1)

lemma minute_floor_dvd: "MINUTE_MS dvd minute_floor t"
  by (simp add: minute_floor_def)

lemma minute_floor_less:
  assumes "MINUTE_MS dvd t"
  shows "minute_floor a + MINUTE_MS \<le> t \<longleftrightarrow> a < t" "t \<le> minute_floor a \<longleftrightarrow> t \<le> a"
proof -
  obtain q where t: "t = 60000 * q" using assms by (auto simp: MINUTE_MS_def)
  define d where "d = a div 60000"
  have d: "60000 * d \<le> a" "a \<le> 60000 * d + 59999"
    using div_bounds [of 60000 a] by (simp_all add: d_def)
  have "minute_floor a = 60000 * d" by (simp add: minute_floor_def MINUTE_MS_def d_def)
  moreover have "a < 60000 * q \<longleftrightarrow> d < q" "60000 * q \<le> a \<longleftrightarrow> q \<le> d"
    using d by linarith+
  ultimately show "minute_floor a + MINUTE_MS \<le> t \<longleftrightarrow> a < t" "t \<le> minute_floor a \<longleftrightarrow> t \<le> a"
    by (auto simp: MINUTE_MS_def t)
qed

lemma res_mapM_append:
  "res_mapM f (xs @ ys) = res_bind (res_mapM f xs) (\<lambda>us. res_map (\<lambda>vs. us @ vs) (res_mapM f ys))"
proof (induction xs)
  case Nil
  show ?case by (cases "res_mapM f ys") auto
next
  case (Cons x xs)
  then show ?case by (cases "f x"; cases "res_mapM f xs"; cases "res_mapM f ys") auto
qed

lemma res_mapM_Inr_iff: "res_mapM f xs = Inr ys \<longleftrightarrow> list_all2 (\<lambda>x y. f x = Inr y) xs ys"
  by (induction xs arbitrary: ys) (auto simp: res_simps list_all2_Cons1)

lemma cronDueTimes_parsed:
  "parseCronExpression expr = Inr c \<Longrightarrow>
     cronDueTimes expr a b = res_mapM to_iso_res (scan_minutes c (minute_floor a + MINUTE_MS) (minute_floor b))"
  by (simp add: cronDueTimes_def Let_def)

lemma cronDueTimes_tile:
  assumes "a \<le> b" "b \<le> c"
  shows "cronDueTimes expr a c = res_bind (cronDueTimes expr a b)
     (\<lambda>us. res_map (\<lambda>vs. us @ vs) (cronDueTimes expr b c))"
proof (cases "parseCronExpression expr")
  case (Inr p)
  let ?s = "minute_floor a + MINUTE_MS" and ?u = "minute_floor b + MINUTE_MS"
  have "MINUTE_MS dvd ?u - ?s" by (simp add: minute_floor_dvd dvd_diff)
  then have "scan_minutes p ?s (minute_floor c) =
      scan_minutes p ?s (minute_floor b) @ scan_minutes p ?u (minute_floor c)"
    using scan_minutes_append [of ?s ?u "minute_floor c" p] assms minute_floor_mono by simp
  with Inr show ?thesis by (simp add: cronDueTimes_parsed res_mapM_append)
qed (simp add: cronDueTimes_def)

lemma cronDueTimes_mem:
  assumes "parseCronExpression expr = Inr c" "cronDueTimes expr a b = Inr due"
  shows "set due = to_iso ` {t. a < t \<and> t \<le> b \<and> MINUTE_MS dvd t \<and> cronMatchesDate c t}"
proof -
  have due: "list_all2 (\<lambda>x y. to_iso_res x = Inr y)
      (scan_minutes c (minute_floor a + MINUTE_MS) (minute_floor b)) due"
    using assms by (simp add: cronDueTimes_parsed res_mapM_Inr_iff)
  have iso: "to_iso_res x = Inr y \<Longrightarrow> y = to_iso x" for x y
    by (auto simp: to_iso_res_def split: if_splits)
  have "due = List.map to_iso (scan_minutes c (minute_floor a + MINUTE_MS) (minute_floor b))"
    using list.rel_mono_strong [OF due, of "\<lambda>x y. y = to_iso x"] iso
    by (auto simp: list_all2_conv_all_nth intro: nth_equalityI)
  moreover have "MINUTE_MS dvd t - (minute_floor a + MINUTE_MS) \<longleftrightarrow> MINUTE_MS dvd t" for t
    using minute_floor_dvd [of a] by (simp add: dvd_shift)
  ultimately show ?thesis using minute_floor_less by (auto simp: mem_scan_minutes)
qed
end
