(* ===== verification/SchedulerShared.thy ===== *)
theory SchedulerShared
  imports JsValue
begin

text \<open>
  cloudflare/scheduler/shared.mjs: time stamps and minutes, the state of the
  latest runs of a job, and the decisions whether an ingest job or a daily task
  is due. Rows are JSON objects, read with the conversions of the source; the
  current time is an argument, as in the source. Printing (\<open>logJson\<close>,
  \<open>jsonResponse\<close>) and the PostgREST call are not modelled here.
\<close>

section \<open>Text and time\<close>

definition strip_trailing :: "char \<Rightarrow> string \<Rightarrow> string" where
  "strip_trailing c s = rev (dropWhile (\<lambda>x. x = c) (rev s))"

definition normalizeBaseUrl :: "jsval \<Rightarrow> string" where
  "normalizeBaseUrl value = strip_trailing (CHR ''/'') (js_trim (str_or_empty value))"

text \<open>A secret binding: a value, an object with an asynchronous \<open>get\<close>, or a promise,
  the last two with what they resolve to.\<close>

datatype secret = SecretValue jsval | SecretGetter jsval | SecretPromise jsval

definition resolved_secret :: "jsval \<Rightarrow> string" where
  "resolved_secret v = (case v of JStr s \<Rightarrow> s | _ \<Rightarrow> str_coalesce v)"

fun readSecret :: "secret \<Rightarrow> string" where
  "readSecret (SecretValue (JStr s)) = s"
| "readSecret (SecretGetter v) = resolved_secret v"
| "readSecret (SecretPromise v) = resolved_secret v"
| "readSecret (SecretValue v) = (if js_truthy v then js_string v else [])"

definition nowIso :: "int \<Rightarrow> string res" where
  "nowIso nowMs = to_iso_res nowMs"

definition currentUtcDate :: "int \<Rightarrow> string res" where
  "currentUtcDate nowMs = res_map (take 10) (to_iso_res nowMs)"

text \<open>\<open>new Date(`${isoDate}T00:00:00.000Z`)\<close>, None when invalid.\<close>

definition day_start :: "string \<Rightarrow> int option" where
  "day_start isoDate = date_parse (isoDate @ ''T00:00:00.000Z'')"

definition shiftUtcDate :: "string \<Rightarrow> int \<Rightarrow> string res" where
  "shiftUtcDate isoDate dayDelta =
     (case day_start isoDate of
        None \<Rightarrow> Inl RangeError
      | Some t \<Rightarrow> res_map (take 10) (to_iso_res (t + dayDelta * MS_DAY)))"

text \<open>None for a time that is not \<open>HH:MM\<close>; the time value of an invalid date is NaN.\<close>

definition combineUtcDateAndTime :: "string \<Rightarrow> jsval \<Rightarrow> jsnum option" where
  "combineUtcDateAndTime isoDate hhmm =
     (case js_trim (str_or_empty hhmm) of
        [a, b, c, d, e] \<Rightarrow>
          if c = CHR '':'' \<and> list_all is_digit [a, b, d, e] then
            (case day_start isoDate of
               None \<Rightarrow> Some NaN
             | Some t \<Rightarrow> Some (Fin (of_int
                 (t + digits_val [a, b] * MS_HOUR + digits_val [d, e] * MS_MINUTE))))
          else None
      | _ \<Rightarrow> None)"

definition parseTimestamp :: "jsval \<Rightarrow> int option" where
  "parseTimestamp value =
     (if is_nullish value \<or> value = JStr [] then None
      else case value of
        JDate t \<Rightarrow> Option.bind t time_clip
      | _ \<Rightarrow> let text = js_trim (js_string value) in if text = [] then None else date_parse text)"

text \<open>\<open>Math.max(0, Math.floor((laterMs - earlierMs) / MS_PER_MINUTE))\<close>, null without a start.\<close>

definition minutesBetween :: "jsval \<Rightarrow> int \<Rightarrow> jsval" where
  "minutesBetween earlier later =
     (if is_nullish earlier then Null
      else JNum (num_max (Fin 0)
        (num_floor (num_div (num_sub (Fin (of_int later)) (js_number earlier)) (Fin 60000)))))"

section \<open>The latest runs of a job\<close>

text \<open>
  \<open>rs_latestInFlightAt\<close> is kept as a JavaScript value: a row in flight without a
  readable start stores undefined there, and the maximum with undefined is NaN.
\<close>

record run_state =
  rs_latestRow :: "jsval option"
  rs_latestStartedAt :: "int option"
  rs_latestSuccessAt :: "int option"
  rs_latestInFlightAt :: jsval

definition first_timestamp :: "string list \<Rightarrow> jsval \<Rightarrow> int option" where
  "first_timestamp fieldNames row =
     (case List.find (\<lambda>v. v \<noteq> None) (List.map (\<lambda>f. parseTimestamp (jget row f)) fieldNames) of
        None \<Rightarrow> None | Some v \<Rightarrow> v)"

definition success_timestamp :: "jsval \<Rightarrow> int option" where
  "success_timestamp row =
     parseTimestamp (js_or (jget row ''run_ended_at'') (js_or (jget row ''finished_at'')
       (js_or (jget row ''finished_or_failed_at'')
         (js_or (jget row ''updated_at'') (jget row ''created_at'')))))"

definition in_flight_max :: "jsval \<Rightarrow> int option \<Rightarrow> jsval" where
  "in_flight_max cur startedAt =
     (let s = (case startedAt of None \<Rightarrow> Undef | Some t \<Rightarrow> JInt t)
      in if cur = Null then s else JNum (num_max (js_number cur) (js_number s)))"

definition run_state_step ::
  "string list \<Rightarrow> (jsval \<Rightarrow> bool) \<Rightarrow> (jsval \<Rightarrow> bool) \<Rightarrow> jsval \<Rightarrow> run_state \<Rightarrow> run_state" where
  "run_state_step fieldNames success inFlight row st =
     (let startedAt = first_timestamp fieldNames row;
          st1 = (if rs_latestRow st = None then st\<lparr>rs_latestRow := Some row\<rparr> else st);
          st2 = st1\<lparr>rs_latestStartedAt := opt_max (rs_latestStartedAt st1) startedAt\<rparr>;
          st3 = (if success row
                 then st2\<lparr>rs_latestSuccessAt := opt_max (rs_latestSuccessAt st2) (success_timestamp row)\<rparr>
                 else st2)
      in if inFlight row
         then st3\<lparr>rs_latestInFlightAt := in_flight_max (rs_latestInFlightAt st3) startedAt\<rparr>
         else st3)"

definition latestRunState ::
  "jsval list \<Rightarrow> string list \<Rightarrow> (jsval \<Rightarrow> bool) \<Rightarrow> (jsval \<Rightarrow> bool) \<Rightarrow> run_state" where
  "latestRunState rows fieldNames success inFlight =
     fold (run_state_step fieldNames success inFlight) rows
       \<lparr>rs_latestRow = None, rs_latestStartedAt = None, rs_latestSuccessAt = None, rs_latestInFlightAt = Null\<rparr>"

section \<open>Decisions\<close>

record decision =
  dec_due :: bool
  dec_reason :: string
  dec_state :: run_state
  dec_currentInFlight :: bool
  dec_currentInFlightAgeMinutes :: jsval
  dec_lastStartedAt :: "int option"
  dec_lastSuccessAt :: "int option"
  dec_latestActivityAt :: "int option"
  dec_scheduledAtMs :: "jsnum option"
  dec_dueAtMs :: "jsnum option"
  dec_wouldTrigger :: bool

definition trimmed :: "jsval \<Rightarrow> string" where
  "trimmed v = js_trim (str_or_empty v)"

definition lowered :: "jsval \<Rightarrow> string" where
  "lowered v = js_lower (trimmed v)"

definition job_enabled :: "jsval \<Rightarrow> bool" where
  "job_enabled job \<longleftrightarrow> jget job ''enabled'' \<noteq> JBool False"

definition latest_activity :: "run_state \<Rightarrow> int option" where
  "latest_activity st =
     (let zero = (\<lambda>v. case v of None \<Rightarrow> 0 | Some t \<Rightarrow> t);
          m = max (zero (rs_latestStartedAt st)) (zero (rs_latestSuccessAt st))
      in if m = 0 then None else Some m)"

text \<open>\<open>minutesBetween(...) < job.limit\<close> with JavaScript's comparison.\<close>

definition minutes_below :: "jsval \<Rightarrow> jsval \<Rightarrow> bool" where
  "minutes_below minutes limit \<longleftrightarrow> num_lt (js_number minutes) (js_number limit)"

definition at_value :: "int option \<Rightarrow> jsval" where
  "at_value t = (case t of None \<Rightarrow> Null | Some x \<Rightarrow> JInt x)"

definition ingest_success :: "jsval \<Rightarrow> bool" where
  "ingest_success row \<longleftrightarrow> js_includes (lowered (jget row ''run_status'')) ''succeed''"

definition ingest_in_flight :: "jsval \<Rightarrow> bool" where
  "ingest_in_flight row \<longleftrightarrow> trimmed (jget row ''run_ended_at'') = []
     \<and> \<not> js_includes (lowered (jget row ''run_status'')) ''failed''"

definition evaluateIngestJob :: "jsval \<Rightarrow> jsval list \<Rightarrow> int \<Rightarrow> decision" where
  "evaluateIngestJob job rows nowMs =
     (let st = latestRunState rows [''run_started_at'', ''created_at''] ingest_success ingest_in_flight;
          inFlight = (case rs_latestRow st of None \<Rightarrow> False | Some row \<Rightarrow>
             ingest_in_flight row \<and> rs_latestInFlightAt st \<noteq> Null);
          age = (if inFlight \<and> rs_latestInFlightAt st \<noteq> Null
                 then minutesBetween (rs_latestInFlightAt st) nowMs else Null);
          answer = (\<lambda>d r. \<lparr>dec_due = d, dec_reason = r, dec_state = st, dec_currentInFlight = inFlight,
             dec_currentInFlightAgeMinutes = age, dec_lastStartedAt = rs_latestStartedAt st,
             dec_lastSuccessAt = rs_latestSuccessAt st, dec_latestActivityAt = latest_activity st,
             dec_scheduledAtMs = None, dec_dueAtMs = None, dec_wouldTrigger = d\<rparr>)
      in if \<not> job_enabled job then answer False ''disabled''
         else if inFlight \<and> age \<noteq> Null \<and> minutes_below age (jget job ''stale_after_minutes'')
           then answer False ''run_in_progress''
         else if rs_latestSuccessAt st \<noteq> None
             \<and> minutes_below (minutesBetween (at_value (rs_latestSuccessAt st)) nowMs) (jget job ''interval_minutes'')
           then answer False ''recent_success''
         else if rs_latestStartedAt st \<noteq> None
             \<and> minutes_below (minutesBetween (at_value (rs_latestStartedAt st)) nowMs) (jget job ''min_gap_minutes'')
           then answer False ''recent_start''
         else answer True ''due'')"

definition daily_status :: "jsval \<Rightarrow> string" where
  "daily_status row = lowered (js_or (jget row ''raw_status'') (jget row ''effective_status''))"

definition daily_success :: "jsval \<Rightarrow> bool" where
  "daily_success row \<longleftrightarrow> daily_status row = ''finished'' \<or> daily_status row = ''succeeded''
     \<or> trimmed (jget row ''finished_at'') \<noteq> []"

definition daily_open :: "jsval \<Rightarrow> bool" where
  \<comment> \<open>started, neither finished nor failed\<close>
  "daily_open row \<longleftrightarrow> trimmed (jget row ''started_at'') \<noteq> []
     \<and> trimmed (jget row ''finished_at'') = [] \<and> trimmed (jget row ''failed_at'') = []"

definition daily_in_flight :: "jsval \<Rightarrow> bool" where
  "daily_in_flight row \<longleftrightarrow> daily_status row = ''started'' \<or> daily_open row"

definition evaluateDailyTaskJob :: "jsval \<Rightarrow> jsval list \<Rightarrow> int \<Rightarrow> decision res" where
  "evaluateDailyTaskJob job rows nowMs =
     (let st = latestRunState rows [''started_at'', ''scheduled_at_utc'', ''scheduled_or_started_at'']
            daily_success daily_in_flight
      in res_map (\<lambda>todayIso.
        (case combineUtcDateAndTime todayIso (jget job ''scheduled_time_utc'') of
           None \<Rightarrow> \<lparr>dec_due = False, dec_reason = ''invalid_schedule'', dec_state = st, dec_currentInFlight = False,
             dec_currentInFlightAgeMinutes = Null, dec_lastStartedAt = rs_latestStartedAt st,
             dec_lastSuccessAt = rs_latestSuccessAt st, dec_latestActivityAt = latest_activity st,
             dec_scheduledAtMs = None, dec_dueAtMs = None, dec_wouldTrigger = False\<rparr>
         | Some scheduled \<Rightarrow>
             let dueAt = num_add scheduled (num_mul (js_number (jget job ''due_after_minutes'')) (Fin 60000));
                 inFlight = (case rs_latestRow st of None \<Rightarrow> False | Some row \<Rightarrow> daily_open row);
                 age = (if inFlight \<and> rs_latestStartedAt st \<noteq> None
                        then minutesBetween (at_value (rs_latestStartedAt st)) nowMs else Null);
                 answer = (\<lambda>d r. \<lparr>dec_due = d, dec_reason = r, dec_state = st, dec_currentInFlight = inFlight,
                    dec_currentInFlightAgeMinutes = age, dec_lastStartedAt = rs_latestStartedAt st,
                    dec_lastSuccessAt = rs_latestSuccessAt st, dec_latestActivityAt = latest_activity st,
                    dec_scheduledAtMs = Some scheduled, dec_dueAtMs = Some dueAt, dec_wouldTrigger = d\<rparr>)
             in if \<not> job_enabled job then answer False ''disabled''
                else if num_lt (Fin (of_int nowMs)) dueAt then answer False ''not_due_yet''
                else if inFlight \<and> age \<noteq> Null \<and> minutes_below age (jget job ''stale_after_minutes'')
                  then answer False ''run_in_progress''
                else if (case rs_latestSuccessAt st of None \<Rightarrow> False
                         | Some t \<Rightarrow> num_le scheduled (Fin (of_int t)))
                  then answer False ''recent_success''
                else if rs_latestStartedAt st \<noteq> None
                    \<and> minutes_below (minutesBetween (at_value (rs_latestStartedAt st)) nowMs) (jget job ''min_gap_minutes'')
                  then answer False ''recent_start''
                else answer True ''due''))
        (currentUtcDate nowMs))"

text \<open>The report of a decision: an object, with the optional times last.\<close>

definition iso_or_null :: "int option \<Rightarrow> jsval res" where
  "iso_or_null t = (case t of None \<Rightarrow> Inr Null | Some x \<Rightarrow> res_map JStr (nowIso x))"

definition iso_entry :: "string \<Rightarrow> jsnum option \<Rightarrow> (string \<times> jsval) list res" where
  "iso_entry key t =
     (case t of
        Some (Fin x) \<Rightarrow> if x = 0 then Inr [] else res_map (\<lambda>s. [(key, JStr s)]) (nowIso (rat_trunc x))
      | Some PInf \<Rightarrow> Inl RangeError
      | Some NInf \<Rightarrow> Inl RangeError
      | _ \<Rightarrow> Inr [])"

definition summarizeDecision :: "jsval \<Rightarrow> decision \<Rightarrow> jsval list \<Rightarrow> int \<Rightarrow> jsval res" where
  "summarizeDecision job d rows nowMs =
     res_bind (iso_or_null (dec_lastStartedAt d)) (\<lambda>started.
     res_bind (iso_or_null (dec_lastSuccessAt d)) (\<lambda>succeeded.
     res_bind (iso_or_null (dec_latestActivityAt d)) (\<lambda>activity.
     res_bind (nowIso nowMs) (\<lambda>now.
     res_bind (iso_entry ''scheduled_at_utc'' (dec_scheduledAtMs d)) (\<lambda>sched.
     res_map (\<lambda>dueAt. JObj ([(''job_key'', jget job ''job_key''), (''label'', jget job ''label''),
         (''target_label'', jget job ''target_label''), (''state_source'', jget job ''state_source''),
         (''enabled'', JBool (job_enabled job)), (''dry_run'', JBool True), (''cron'', jget job ''cron''),
         (''due'', JBool (dec_due d)), (''reason'', JStr (dec_reason d)),
         (''would_trigger'', JBool (dec_wouldTrigger d)), (''rows_examined'', JInt (int (length rows))),
         (''last_started_at'', started), (''last_success_at'', succeeded),
         (''latest_activity_at'', activity), (''in_flight'', JBool (dec_currentInFlight d)),
         (''in_flight_age_minutes'', dec_currentInFlightAgeMinutes d), (''now_utc'', JStr now)] @ sched @ dueAt))
       (iso_entry ''due_at_utc'' (dec_dueAtMs d)))))))"

section \<open>Lemmas\<close>

lemma MAX_TIME_less: "MAX_TIME < 2 ^ 53"
  by (simp add: MAX_TIME_def)

lemma time_clip_range: "time_clip t = Some u \<Longrightarrow> \<bar>u\<bar> \<le> MAX_TIME"
  by (auto simp: time_clip_def split: if_splits)

lemma parseTimestamp_range: "parseTimestamp v = Some t \<Longrightarrow> \<bar>t\<bar> \<le> MAX_TIME"
  by (auto simp: parseTimestamp_def Let_def bind_eq_Some_conv split: if_splits jsval.splits
      dest: date_parse_range time_clip_range)

lemma first_timestamp_range:
  assumes "first_timestamp fs row = Some t"
  shows "\<bar>t\<bar> \<le> MAX_TIME"
proof -
  obtain v where "List.find (\<lambda>v. v \<noteq> None) (List.map (\<lambda>f. parseTimestamp (jget row f)) fs) = Some v" "v = Some t"
    using assms by (auto simp: first_timestamp_def split: option.splits)
  then have "Some t \<in> set (List.map (\<lambda>f. parseTimestamp (jget row f)) fs)"
    using find_Some_mem by fastforce
  then obtain f where "parseTimestamp (jget row f) = Some t" by auto
  then show ?thesis by (rule parseTimestamp_range)
qed

text \<open>Minutes between two time values are the integer quotient, never negative.\<close>

lemma minutesBetween_int:
  assumes "\<bar>b - a\<bar> < 2 ^ 53"
  shows "minutesBetween (JInt a) b = JNum (Fin (of_int (max 0 ((b - a) div 60000))))"
proof -
  have "num_sub (Fin (of_int b)) (Fin (of_int a)) = Fin (of_int (b - a))"
    using to_double_int [OF assms] by (simp add: num_sub_def)
  moreover have "num_floor (num_div (Fin (of_int (b - a))) (Fin (of_int 60000))) = Fin (of_int ((b - a) div 60000))"
    by (rule num_floor_div) (use assms in auto)
  ultimately have "minutesBetween (JInt a) b = JNum (num_max (Fin 0) (Fin (of_int ((b - a) div 60000))))"
    by (simp add: minutesBetween_def is_nullish_def del: num_div.simps num_floor.simps)
  then show ?thesis by (simp add: max_def)
qed

lemma run_state_step_fields:
  "rs_latestStartedAt (run_state_step fs p q row st) = opt_max (rs_latestStartedAt st) (first_timestamp fs row)"
  "rs_latestSuccessAt (run_state_step fs p q row st) =
     opt_max (rs_latestSuccessAt st) (if p row then success_timestamp row else None)"
  by (simp_all add: run_state_step_def Let_def)

lemma latestRunState_started:
  "rs_latestStartedAt (latestRunState rows fs p q) = fold (\<lambda>row a. opt_max a (first_timestamp fs row)) rows None"
proof -
  have "rs_latestStartedAt (fold (run_state_step fs p q) rows st) =
      fold (\<lambda>row a. opt_max a (first_timestamp fs row)) rows (rs_latestStartedAt st)" for st
    by (induction rows arbitrary: st) (simp_all add: run_state_step_fields)
  then show ?thesis by (simp add: latestRunState_def)
qed

lemma latestRunState_success:
  "rs_latestSuccessAt (latestRunState rows fs p q) =
     fold (\<lambda>row a. opt_max a (if p row then success_timestamp row else None)) rows None"
proof -
  have "rs_latestSuccessAt (fold (run_state_step fs p q) rows st) =
      fold (\<lambda>row a. opt_max a (if p row then success_timestamp row else None)) rows (rs_latestSuccessAt st)" for st
    by (induction rows arbitrary: st) (simp_all add: run_state_step_fields)
  then show ?thesis by (simp add: latestRunState_def)
qed

text \<open>The latest start and success are the greatest readable ones of the rows.\<close>

lemma latest_started_ge:
  assumes "row \<in> set rows" "first_timestamp fs row = Some t"
  shows "\<exists>m. rs_latestStartedAt (latestRunState rows fs p q) = Some m \<and> t \<le> m \<and> \<bar>m\<bar> \<le> MAX_TIME"
proof -
  have "opt_le (Some t) (rs_latestStartedAt (latestRunState rows fs p q))"
    using fold_opt_max_ge [OF assms(1), of "first_timestamp fs" None] assms(2)
    by (simp add: latestRunState_started)
  then obtain m where m: "rs_latestStartedAt (latestRunState rows fs p q) = Some m" "t \<le> m"
    by (auto simp: opt_le_Some)
  from fold_opt_max_mem [OF m(1) [unfolded latestRunState_started]]
  have "\<bar>m\<bar> \<le> MAX_TIME" using first_timestamp_range by auto
  with m show ?thesis by blast
qed

lemma latest_success_ge:
  assumes "row \<in> set rows" "p row" "success_timestamp row = Some t"
  shows "\<exists>m. rs_latestSuccessAt (latestRunState rows fs p q) = Some m \<and> t \<le> m \<and> \<bar>m\<bar> \<le> MAX_TIME"
proof -
  let ?f = "\<lambda>row. if p row then success_timestamp row else None"
  have "opt_le (Some t) (rs_latestSuccessAt (latestRunState rows fs p q))"
    using fold_opt_max_ge [OF assms(1), of ?f None] assms(2,3)
    by (simp add: latestRunState_success)
  then obtain m where m: "rs_latestSuccessAt (latestRunState rows fs p q) = Some m" "t \<le> m"
    by (auto simp: opt_le_Some)
  from fold_opt_max_mem [OF m(1) [unfolded latestRunState_success]]
  have "\<bar>m\<bar> \<le> MAX_TIME"
    by (auto simp: success_timestamp_def split: if_splits dest: parseTimestamp_range)
  with m show ?thesis by blast
qed

lemma minutes_not_below:
  assumes "\<not> minutes_below (minutesBetween (JInt m) now) (JInt n)" "t \<le> m"
    "\<bar>now - m\<bar> < 2 ^ 53" "0 < n"
  shows "t + n * 60000 \<le> now"
proof -
  have "n \<le> (now - m) div 60000"
    using assms(1,4) by (simp add: minutesBetween_int [OF assms(3)] minutes_below_def)
  moreover have "60000 * ((now - m) div 60000) \<le> now - m"
    using div_bounds [of 60000 "now - m"] by simp
  ultimately show ?thesis using assms(2) by linarith
qed

lemma evaluateIngestJob_trigger:
  assumes "dec_wouldTrigger (evaluateIngestJob job rows now)"
  defines "st \<equiv> latestRunState rows [''run_started_at'', ''created_at''] ingest_success ingest_in_flight"
  shows "job_enabled job"
    "rs_latestSuccessAt st = Some m \<Longrightarrow> \<not> minutes_below (minutesBetween (JInt m) now) (jget job ''interval_minutes'')"
    "rs_latestStartedAt st = Some m \<Longrightarrow> \<not> minutes_below (minutesBetween (JInt m) now) (jget job ''min_gap_minutes'')"
  using assms(1) unfolding evaluateIngestJob_def Let_def st_def [symmetric]
  by (simp_all add: at_value_def split: if_splits)

lemma evaluateDailyTaskJob_trigger:
  assumes "evaluateDailyTaskJob job rows now = Inr d" "dec_wouldTrigger d"
  defines "st \<equiv> latestRunState rows [''started_at'', ''scheduled_at_utc'', ''scheduled_or_started_at'']
            daily_success daily_in_flight"
  shows "job_enabled job"
    "\<exists>s. combineUtcDateAndTime (take 10 (to_iso now)) (jget job ''scheduled_time_utc'') = Some s
       \<and> \<not> num_lt (Fin (of_int now)) (num_add s (num_mul (js_number (jget job ''due_after_minutes'')) (Fin 60000)))
       \<and> (\<forall>m. rs_latestSuccessAt st = Some m \<longrightarrow> \<not> num_le s (Fin (of_int m)))"
    "rs_latestStartedAt st = Some m \<Longrightarrow> \<not> minutes_below (minutesBetween (JInt m) now) (jget job ''min_gap_minutes'')"
proof -
  have *: "to_iso_res now = Inr (to_iso now)"
    using assms(1) by (auto simp: evaluateDailyTaskJob_def Let_def res_simps currentUtcDate_def
        to_iso_res_def split: if_splits)
  let ?late = "rs_latestStartedAt st \<noteq> None
      \<and> minutes_below (minutesBetween (at_value (rs_latestStartedAt st)) now) (jget job ''min_gap_minutes'')"
  note a = assms(1) [unfolded evaluateDailyTaskJob_def Let_def st_def [symmetric] currentUtcDate_def *
      res_map.simps sum.inject, symmetric]
  obtain sched where s: "combineUtcDateAndTime (take 10 (to_iso now)) (jget job ''scheduled_time_utc'') = Some sched"
    using a assms(2) by (cases "combineUtcDateAndTime (take 10 (to_iso now)) (jget job ''scheduled_time_utc'')") simp_all
  let ?dueAt = "num_add sched (num_mul (js_number (jget job ''due_after_minutes'')) (Fin 60000))"
  let ?recent = "case rs_latestSuccessAt st of None \<Rightarrow> False | Some t \<Rightarrow> num_le sched (Fin (of_int t))"
  have open_job: "job_enabled job" "\<not> num_lt (Fin (of_int now)) ?dueAt" "\<not> ?recent" "\<not> ?late"
    using a [unfolded s option.case, THEN arg_cong [where f = dec_wouldTrigger],
        unfolded if_distrib [where f = dec_wouldTrigger] decision.simps] assms(2)
    by (simp_all split: if_split_asm)
  show "job_enabled job" by (rule open_job(1))
  show "\<exists>s. combineUtcDateAndTime (take 10 (to_iso now)) (jget job ''scheduled_time_utc'') = Some s
       \<and> \<not> num_lt (Fin (of_int now)) (num_add s (num_mul (js_number (jget job ''due_after_minutes'')) (Fin 60000)))
       \<and> (\<forall>m. rs_latestSuccessAt st = Some m \<longrightarrow> \<not> num_le s (Fin (of_int m)))"
    using s open_job(2,3) by (intro exI [of _ sched]) (simp split: option.splits)
  show "rs_latestStartedAt st = Some m \<Longrightarrow> \<not> minutes_below (minutesBetween (JInt m) now) (jget job ''min_gap_minutes'')"
    using open_job(4) by (simp add: at_value_def)
qed

end
