(* ===== verification/SchedulerStore.thy ===== *)
theory SchedulerStore
  imports JsValue
begin

text \<open>
  The D1 store of the scheduler (\<open>createSchedulerStore\<close> of
  cloudflare/scheduler/worker.mjs) over the tables of its migrations: the runs,
  unique per scheduler name and minute slot, the dispatches, unique per job key
  and due time, and the configured jobs. Each operation is one SQL statement and
  so one atomic step on the tables. \<open>insert or ignore\<close> leaves the table as it is
  when a unique index would be violated; a foreign key that has no job is an
  error it does not ignore.
\<close>

section \<open>The tables\<close>

record run_row =
  run_id :: int
  run_scheduler_name :: string
  run_minute_slot :: "string option"
  run_trigger_source :: "string option"
  run_started_at :: string
  run_finished_at :: "string option"
  run_status :: string
  run_previous_run_started_at :: "string option"
  run_window_start :: "string option"
  run_window_end :: "string option"
  run_jobs_checked :: int
  run_jobs_due :: int
  run_jobs_claimed :: int
  run_jobs_dispatched :: int
  run_jobs_failed :: int
  run_error_message :: "string option"

record dispatch_row =
  disp_id :: int
  disp_job_key :: string
  disp_due_at :: string
  disp_claimed_at :: string
  disp_dispatched_at :: "string option"
  disp_target_type :: string
  disp_dry_run :: int
  disp_status :: string
  disp_reason :: "string option"
  disp_response_status :: "int option"
  disp_response_preview :: "string option"

record sched_db =
  db_jobs :: "jsval list"
  db_runs :: "run_row list"
  db_dispatches :: "dispatch_row list"
  db_next_run_id :: int
  db_next_dispatch_id :: int

text \<open>Autoincrement identifiers are positive and greater than all given out before.\<close>

definition db_wf :: "sched_db \<Rightarrow> bool" where
  "db_wf db \<longleftrightarrow>
     0 < db_next_run_id db \<and> 0 < db_next_dispatch_id db
     \<and> (\<forall>r \<in> set (db_runs db). 0 < run_id r \<and> run_id r < db_next_run_id db)
     \<and> (\<forall>r \<in> set (db_dispatches db). 0 < disp_id r \<and> disp_id r < db_next_dispatch_id db)
     \<and> distinct (List.map run_id (db_runs db)) \<and> distinct (List.map disp_id (db_dispatches db))
     \<and> distinct (List.map (\<lambda>r. (run_scheduler_name r, run_minute_slot r))
         (filter (\<lambda>r. run_minute_slot r \<noteq> None) (db_runs db)))
     \<and> distinct (List.map (\<lambda>r. (disp_job_key r, disp_due_at r)) (db_dispatches db))"

section \<open>Claiming a minute\<close>

record minute_claim =
  mc_claimed :: bool
  mc_scheduler_run_id :: "int option"
  mc_run_status :: string
  mc_trigger_source :: "string option"

definition bounded_text :: "string option \<Rightarrow> nat \<Rightarrow> string" where
  "bounded_text v n =
     (let t = js_trim (case v of None \<Rightarrow> [] | Some s \<Rightarrow> s) in if t \<noteq> [] \<and> length t \<le> n then t else [])"

definition id_or_null :: "int \<Rightarrow> int option" where
  \<comment> \<open>\<open>Number(id) || null\<close>\<close>
  "id_or_null n = (if n = 0 then None else Some n)"

definition claimMinute :: "run_row \<Rightarrow> sched_db \<Rightarrow> minute_claim res \<times> sched_db" where
  "claimMinute run db =
     (let taken = filter (\<lambda>r. run_scheduler_name r = run_scheduler_name run
            \<and> run_minute_slot r = run_minute_slot run) (db_runs db)
      in if run_minute_slot run = None \<or> taken = [] then
           (let i = db_next_run_id db
            in (Inr \<lparr>mc_claimed = True, mc_scheduler_run_id = id_or_null i,
                     mc_run_status = ''started'', mc_trigger_source = run_trigger_source run\<rparr>,
                db\<lparr>db_runs := db_runs db @ [run\<lparr>run_id := i\<rparr>], db_next_run_id := i + 1\<rparr>))
         else (let existing = hd taken
            in (Inr \<lparr>mc_claimed = False, mc_scheduler_run_id = id_or_null (run_id existing),
                     mc_run_status = (let s = bounded_text (Some (run_status existing)) 64
                        in if s = [] then ''unknown'' else s),
                     mc_trigger_source = (let s = bounded_text (run_trigger_source existing) 64
                        in if s = [] then None else Some s)\<rparr>, db)))"

text \<open>\<open>select ... where enabled = 1 order by job_key\<close>\<close>

definition listEnabledJobs :: "sched_db \<Rightarrow> jsval list" where
  "listEnabledJobs db =
     sort_key (\<lambda>row. js_string (jget row ''job_key''))
       (filter (\<lambda>row. jget row ''enabled'' = JInt 1) (db_jobs db))"

section \<open>Claiming and updating a dispatch\<close>

record dispatch_claim =
  cl_job_key :: string
  cl_due_at :: string
  cl_claimed_at :: string
  cl_target_type :: string
  cl_dry_run :: int

definition claimDispatch :: "dispatch_claim \<Rightarrow> sched_db \<Rightarrow> int option res \<times> sched_db" where
  "claimDispatch c db =
     (if \<exists>r \<in> set (db_dispatches db). disp_job_key r = cl_job_key c \<and> disp_due_at r = cl_due_at c
      then (Inr None, db)
      else if cl_job_key c \<notin> set (List.map (\<lambda>row. js_string (jget row ''job_key'')) (db_jobs db))
      then (Inl (JsError ''FOREIGN KEY constraint failed''), db)
      else (let i = db_next_dispatch_id db
        in (Inr (id_or_null i),
            db\<lparr>db_dispatches := db_dispatches db @
                 [\<lparr>disp_id = i, disp_job_key = cl_job_key c, disp_due_at = cl_due_at c,
                   disp_claimed_at = cl_claimed_at c, disp_dispatched_at = None,
                   disp_target_type = cl_target_type c, disp_dry_run = cl_dry_run c,
                   disp_status = ''claimed'', disp_reason = None, disp_response_status = None,
                   disp_response_preview = None\<rparr>],
               db_next_dispatch_id := i + 1\<rparr>)))"

record dispatch_patch =
  pa_dispatched_at :: "string option"
  pa_dispatch_status :: string
  pa_reason :: "string option"
  pa_response_status :: "int option"
  pa_response_preview :: "string option"

definition patch_dispatch :: "int \<Rightarrow> dispatch_patch \<Rightarrow> dispatch_row \<Rightarrow> dispatch_row" where
  "patch_dispatch i p r =
     (if disp_id r = i
      then r\<lparr>disp_dispatched_at := pa_dispatched_at p, disp_status := pa_dispatch_status p,
             disp_reason := pa_reason p, disp_response_status := pa_response_status p,
             disp_response_preview := pa_response_preview p\<rparr>
      else r)"

definition updateDispatch :: "int \<Rightarrow> dispatch_patch \<Rightarrow> sched_db \<Rightarrow> sched_db" where
  "updateDispatch i p db =
     db\<lparr>db_dispatches := List.map (patch_dispatch i p) (db_dispatches db)\<rparr>"

record run_patch =
  rp_status :: string
  rp_finished_at :: string
  rp_previous_run_started_at :: "string option"
  rp_window_start :: "string option"
  rp_window_end :: "string option"
  rp_jobs_checked :: int
  rp_jobs_due :: int
  rp_jobs_claimed :: int
  rp_jobs_dispatched :: int
  rp_jobs_failed :: int
  rp_error_message :: "string option"

definition patch_run :: "int \<Rightarrow> run_patch \<Rightarrow> run_row \<Rightarrow> run_row" where
  "patch_run i p r =
     (if run_id r = i
      then r\<lparr>run_status := rp_status p, run_finished_at := Some (rp_finished_at p),
             run_previous_run_started_at := rp_previous_run_started_at p,
             run_window_start := rp_window_start p, run_window_end := rp_window_end p,
             run_jobs_checked := rp_jobs_checked p, run_jobs_due := rp_jobs_due p,
             run_jobs_claimed := rp_jobs_claimed p, run_jobs_dispatched := rp_jobs_dispatched p,
             run_jobs_failed := rp_jobs_failed p, run_error_message := rp_error_message p\<rparr>
      else r)"

definition finishRun :: "int \<Rightarrow> run_patch \<Rightarrow> sched_db \<Rightarrow> sched_db" where
  "finishRun i p db = db\<lparr>db_runs := List.map (patch_run i p) (db_runs db)\<rparr>"

section \<open>What the operations keep of the tables\<close>

lemma map_keep: "(\<And>x. x \<in> set xs \<Longrightarrow> f (g x) = f x) \<Longrightarrow> List.map f (List.map g xs) = List.map f xs"
  by (induction xs) auto

lemma map_filter_keep:
  "(\<And>x. f (g x) = f x) \<Longrightarrow> (\<And>x. P (g x) = P x) \<Longrightarrow>
     List.map f (filter P (List.map g xs)) = List.map f (filter P xs)"
  by (induction xs) auto

definition job_keys :: "sched_db \<Rightarrow> string set" where
  "job_keys db = (\<lambda>row. js_string (jget row ''job_key'')) ` set (db_jobs db)"

definition minute_keys :: "sched_db \<Rightarrow> (string \<times> string) set" where
  "minute_keys db = {k. \<exists>r \<in> set (db_runs db).
     run_scheduler_name r = fst k \<and> run_minute_slot r = Some (snd k)}"

definition dispatch_keys :: "sched_db \<Rightarrow> (string \<times> string) set" where
  "dispatch_keys db = {k. \<exists>r \<in> set (db_dispatches db). disp_job_key r = fst k \<and> disp_due_at r = snd k}"

lemma claimDispatch_cases:
  "claimDispatch c db =
     (if (cl_job_key c, cl_due_at c) \<in> dispatch_keys db then (Inr None, db)
      else if cl_job_key c \<notin> job_keys db
      then (Inl (JsError ''FOREIGN KEY constraint failed''), db)
      else (Inr (id_or_null (db_next_dispatch_id db)),
            db\<lparr>db_dispatches := db_dispatches db @
                 [\<lparr>disp_id = db_next_dispatch_id db, disp_job_key = cl_job_key c,
                   disp_due_at = cl_due_at c,
                   disp_claimed_at = cl_claimed_at c, disp_dispatched_at = None,
                   disp_target_type = cl_target_type c, disp_dry_run = cl_dry_run c,
                   disp_status = ''claimed'', disp_reason = None, disp_response_status = None,
                   disp_response_preview = None\<rparr>],
               db_next_dispatch_id := db_next_dispatch_id db + 1\<rparr>))"
  unfolding claimDispatch_def dispatch_keys_def job_keys_def Let_def
  by (rule if_cong) simp_all

lemma claimMinute_cases:
  "claimMinute run db =
     (case List.find (\<lambda>r. run_scheduler_name r = run_scheduler_name run
            \<and> run_minute_slot r = run_minute_slot run \<and> run_minute_slot run \<noteq> None) (db_runs db) of
        None \<Rightarrow> (Inr \<lparr>mc_claimed = True, mc_scheduler_run_id = id_or_null (db_next_run_id db),
                     mc_run_status = ''started'', mc_trigger_source = run_trigger_source run\<rparr>,
                db\<lparr>db_runs := db_runs db @ [run\<lparr>run_id := db_next_run_id db\<rparr>],
                   db_next_run_id := db_next_run_id db + 1\<rparr>)
      | Some r \<Rightarrow> (Inr \<lparr>mc_claimed = False, mc_scheduler_run_id = id_or_null (run_id r),
                     mc_run_status = (let s = bounded_text (Some (run_status r)) 64
                        in if s = [] then ''unknown'' else s),
                     mc_trigger_source = (let s = bounded_text (run_trigger_source r) 64
                        in if s = [] then None else Some s)\<rparr>, db))"
proof (cases "run_minute_slot run")
  case None
  moreover have "List.find (\<lambda>_. False) xs = None" for xs :: "run_row list"
    by (induction xs) auto
  ultimately show ?thesis by (simp add: claimMinute_def Let_def)
next
  case (Some s)
  have *: "List.find P xs = (case filter P xs of [] \<Rightarrow> None | x # _ \<Rightarrow> Some x)" for P and xs :: "run_row list"
    by (induction xs) auto
  from Some show ?thesis
    by (simp add: claimMinute_def * Let_def split: list.split)
qed

lemma db_wf_claimMinute:
  assumes "db_wf db"
  shows "db_wf (snd (claimMinute run db))"
proof (cases "List.find (\<lambda>r. run_scheduler_name r = run_scheduler_name run
    \<and> run_minute_slot r = run_minute_slot run \<and> run_minute_slot run \<noteq> None) (db_runs db)")
  case None
  then have "\<forall>r \<in> set (db_runs db). \<not> (run_scheduler_name r = run_scheduler_name run
      \<and> run_minute_slot r = run_minute_slot run \<and> run_minute_slot run \<noteq> None)"
    by (simp add: find_None_iff)
  with assms None show ?thesis
    by (simp add: claimMinute_cases db_wf_def) (force simp: image_iff)
next
  case (Some r)
  with assms show ?thesis by (simp add: claimMinute_cases)
qed

lemma db_wf_claimDispatch:
  assumes "db_wf db"
  shows "db_wf (snd (claimDispatch c db))"
  using assms unfolding claimDispatch_cases
  by (simp add: db_wf_def) (force simp: dispatch_keys_def)

lemma patch_keep [simp]:
  "disp_id (patch_dispatch i p r) = disp_id r"
  "disp_job_key (patch_dispatch i p r) = disp_job_key r"
  "disp_due_at (patch_dispatch i p r) = disp_due_at r"
  "run_id (patch_run i q u) = run_id u"
  "run_scheduler_name (patch_run i q u) = run_scheduler_name u"
  "run_minute_slot (patch_run i q u) = run_minute_slot u"
  by (simp_all add: patch_dispatch_def patch_run_def)

lemma db_wf_updateDispatch: "db_wf db \<Longrightarrow> db_wf (updateDispatch i p db)"
  by (simp add: db_wf_def updateDispatch_def comp_def)

lemma db_wf_finishRun: "db_wf db \<Longrightarrow> db_wf (finishRun i p db)"
  by (simp add: db_wf_def finishRun_def comp_def map_filter_keep)

lemmas db_wf_intros = db_wf_claimMinute db_wf_claimDispatch db_wf_updateDispatch db_wf_finishRun

lemma dispatch_keys_frame [simp]:
  "dispatch_keys (updateDispatch i p db) = dispatch_keys db"
  "dispatch_keys (finishRun j q db) = dispatch_keys db"
  "job_keys (updateDispatch i p db) = job_keys db"
  "job_keys (finishRun j q db) = job_keys db"
  "minute_keys (updateDispatch i p db) = minute_keys db"
  "minute_keys (finishRun j q db) = minute_keys db"
  by (simp_all add: dispatch_keys_def job_keys_def minute_keys_def updateDispatch_def
      finishRun_def)

section \<open>The claim interface\<close>

text \<open>
  What the clients of both claims rely on: over well-formed tables a claim
  succeeds exactly when its key is known and free, takes the key for good, and
  never frees another.
\<close>

locale claim_store =
  fixes claim :: "'k \<Rightarrow> 's \<Rightarrow> bool \<times> 's"
    and taken :: "'s \<Rightarrow> 'k set"
    and known :: "'s \<Rightarrow> 'k set"
    and wf :: "'s \<Rightarrow> bool"
  assumes claim_granted: "wf s \<Longrightarrow> fst (claim k s) \<longleftrightarrow> k \<in> known s \<and> k \<notin> taken s"
    and claim_taken: "wf s \<Longrightarrow> taken (snd (claim k s)) = taken s \<union> ({k} \<inter> known s)"
    and claim_known: "wf s \<Longrightarrow> known (snd (claim k s)) = known s"
    and claim_wf: "wf s \<Longrightarrow> wf (snd (claim k s))"
begin

fun claim_all :: "'k list \<Rightarrow> 's \<Rightarrow> 'k list \<times> 's" where
  "claim_all [] s = ([], s)"
| "claim_all (k # ks) s =
     (let (g, s1) = claim k s; (won, s2) = claim_all ks s1 in (if g then k # won else won, s2))"

lemma claim_twice: "wf s \<Longrightarrow> fst (claim k s) \<Longrightarrow> \<not> fst (claim k (snd (claim k s)))"
  by (simp add: claim_granted claim_taken claim_known claim_wf)

lemma claim_all_taken:
  "wf s \<Longrightarrow> taken (snd (claim_all ks s)) = taken s \<union> (set ks \<inter> known s)"
proof (induction ks arbitrary: s)
  case (Cons k ks)
  from Cons.IH [of "snd (claim k s)"] Cons.prems show ?case
    by (auto simp: split_beta Let_def claim_taken claim_known claim_wf)
qed simp

lemma claim_all_won: "wf s \<Longrightarrow> set (fst (claim_all ks s)) = (set ks \<inter> known s) - taken s"
proof (induction ks arbitrary: s)
  case (Cons k ks)
  from Cons.IH [of "snd (claim k s)"] Cons.prems show ?case
    by (auto simp: split_beta Let_def claim_granted claim_taken claim_known claim_wf)
qed simp

text \<open>Whatever the order of the claims, a key is won at most once.\<close>

lemma claim_all_distinct: "wf s \<Longrightarrow> distinct (fst (claim_all ks s))"
proof (induction ks arbitrary: s)
  case (Cons k ks)
  from Cons.IH [of "snd (claim k s)"] Cons.prems show ?case
    by (auto simp: split_beta Let_def claim_all_won claim_granted claim_taken claim_known claim_wf)
qed simp

end

text \<open>The two claims, each over its key.\<close>

definition claim_minute_key :: "run_row \<Rightarrow> string \<times> string \<Rightarrow> sched_db \<Rightarrow> bool \<times> sched_db" where
  "claim_minute_key run k db =
     (case claimMinute (run\<lparr>run_scheduler_name := fst k, run_minute_slot := Some (snd k)\<rparr>) db of
        (Inr c, db') \<Rightarrow> (mc_claimed c, db') | (Inl e, db') \<Rightarrow> (False, db'))"

definition claim_dispatch_key :: "dispatch_claim \<Rightarrow> string \<times> string \<Rightarrow> sched_db \<Rightarrow> bool \<times> sched_db" where
  "claim_dispatch_key c k db =
     (case claimDispatch (c\<lparr>cl_job_key := fst k, cl_due_at := snd k\<rparr>) db of
        (Inr (Some i), db') \<Rightarrow> (True, db') | (_, db') \<Rightarrow> (False, db'))"

interpretation minute_claims:
  claim_store "claim_minute_key run" minute_keys "\<lambda>_. UNIV" db_wf
proof
  fix k :: "string \<times> string" and s
  let ?run = "run\<lparr>run_scheduler_name := fst k, run_minute_slot := Some (snd k)\<rparr>"
  have key: "claim_minute_key run k s = (k \<notin> minute_keys s, snd (claimMinute ?run s))"
    by (auto simp: claim_minute_key_def claimMinute_cases minute_keys_def find_None_iff
        find_Some_iff split: option.splits)
  show "fst (claim_minute_key run k s) \<longleftrightarrow> k \<in> UNIV \<and> k \<notin> minute_keys s"
    by (simp add: key)
  show "minute_keys (snd (claim_minute_key run k s)) = minute_keys s \<union> ({k} \<inter> UNIV)"
    unfolding key snd_conv
    by (cases k) (auto simp: claimMinute_cases minute_keys_def find_Some_iff split: option.splits)
  show "db_wf s \<Longrightarrow> db_wf (snd (claim_minute_key run k s))"
    by (simp add: key db_wf_claimMinute)
qed simp

interpretation dispatch_claims:
  claim_store "claim_dispatch_key c" dispatch_keys "\<lambda>db. {k. fst k \<in> job_keys db}" db_wf
proof
  fix k :: "string \<times> string" and s
  assume wf: "db_wf s"
  then have id: "id_or_null (db_next_dispatch_id s) = Some (db_next_dispatch_id s)"
    by (simp add: db_wf_def id_or_null_def)
  let ?c = "c\<lparr>cl_job_key := fst k, cl_due_at := snd k\<rparr>"
  have key: "claim_dispatch_key c k s =
      (fst k \<in> job_keys s \<and> k \<notin> dispatch_keys s, snd (claimDispatch ?c s))"
    by (simp add: claim_dispatch_key_def claimDispatch_cases id)
  show "fst (claim_dispatch_key c k s) \<longleftrightarrow> k \<in> {k. fst k \<in> job_keys s} \<and> k \<notin> dispatch_keys s"
    by (simp add: key)
  show "dispatch_keys (snd (claim_dispatch_key c k s)) =
      dispatch_keys s \<union> ({k} \<inter> {k. fst k \<in> job_keys s})"
    unfolding key snd_conv
    by (cases k) (auto simp: claimDispatch_cases dispatch_keys_def)
  show "{j. fst j \<in> job_keys (snd (claim_dispatch_key c k s))} = {j. fst j \<in> job_keys s}"
    unfolding key snd_conv claimDispatch_cases by (auto simp: job_keys_def)
  show "db_wf (snd (claim_dispatch_key c k s))"
    by (simp add: key wf db_wf_claimDispatch)
qed

end
