(* ===== verification/SchedulerWorker.thy ===== *)
theory SchedulerWorker
  imports JsJson Cron SchedulerShared SchedulerStore
begin

text \<open>
  cloudflare/scheduler/worker.mjs: reading a configured job, sending a dispatch
  to its target, the dispatch of the jobs due in a window, one run of the
  scheduler and the worker's HTTP handler. A world holds the tables, the requests
  sent so far and a count of the clock reads; the platform (network, clock, failures
  of the store, URL parser, environment) is an argument. Log lines are not modelled.
\<close>

section \<open>Text\<close>

definition trimText :: "jsval \<Rightarrow> string" where
  "trimText value = js_trim (str_coalesce value)"

definition boundedText :: "jsval \<Rightarrow> nat \<Rightarrow> string" where
  "boundedText value maxLength =
     (let t = trimText value in if t \<noteq> [] \<and> length t \<le> maxLength then t else [])"

definition text_or_null :: "string \<Rightarrow> string option" where
  "text_or_null t = (if t = [] then None else Some t)"

definition RESPONSE_PREVIEW_LIMIT :: nat where "RESPONSE_PREVIEW_LIMIT = 1000"

definition truncatePreview :: "string \<Rightarrow> nat \<Rightarrow> string option" where
  "truncatePreview s limit =
     (let raw = js_trim s in
      if raw = [] then None
      else if length raw \<le> limit then Some raw
      else Some (take (limit - 3) raw @ ''...''))"

text \<open>\<open>text.split(sep).join(by)\<close> for a non-empty separator.\<close>

fun split_on :: "string \<Rightarrow> string \<Rightarrow> string \<Rightarrow> string list" where
  "split_on sep acc [] = [rev acc]"
| "split_on sep acc (c # s) =
     (if sep \<noteq> [] \<and> take (length sep) (c # s) = sep
      then rev acc # split_on sep [] (drop (length sep - 1) s)
      else split_on sep (c # acc) s)"

definition redact :: "string \<Rightarrow> string \<Rightarrow> string" where
  "redact secret t = js_join ''[REDACTED]'' (split_on secret [] t)"

section \<open>The minute of a run\<close>

text \<open>\<open>new Date(n).toISOString()\<close> for a number.\<close>

definition iso_of_num :: "jsnum \<Rightarrow> string res" where
  "iso_of_num n = (case n of Fin r \<Rightarrow> to_iso_res (rat_trunc r) | _ \<Rightarrow> Inl RangeError)"

definition canonicalMinuteSlot :: "jsnum \<Rightarrow> string res" where
  "canonicalMinuteSlot t =
     (if \<not> num_finite t then Inl (JsError ''Invalid scheduler invocation time'')
      else iso_of_num (num_mul (num_floor (num_div t (num_of_int MINUTE_MS))) (num_of_int MINUTE_MS)))"

record eval_window =
  ew_startMs :: int
  ew_endMs :: int
  ew_start :: string
  ew_end :: string

definition currentMinuteEvaluationWindow :: "string \<Rightarrow> eval_window res" where
  "currentMinuteEvaluationWindow minuteSlot =
     (case date_parse minuteSlot of
        None \<Rightarrow> Inl (JsError ''Invalid scheduler minute slot'')
      | Some endMs \<Rightarrow>
          res_bind (nowIso (endMs - MINUTE_MS)) (\<lambda>s.
          res_bind (nowIso endMs) (\<lambda>e.
            Inr \<lparr>ew_startMs = endMs - MINUTE_MS, ew_endMs = endMs, ew_start = s, ew_end = e\<rparr>)))"

definition TRIGGER_SOURCE_CLOUDFLARE_CRON :: string where
  "TRIGGER_SOURCE_CLOUDFLARE_CRON = ''cloudflare_cron''"

definition TRIGGER_SOURCE_EXTERNAL_WATCHDOG :: string where
  "TRIGGER_SOURCE_EXTERNAL_WATCHDOG = ''external_watchdog''"

definition SCHEDULER_NAME :: string where
  "SCHEDULER_NAME = ''uk-aq-cron-scheduler-ops''"

definition normalizeTriggerSource :: "jsval \<Rightarrow> string res" where
  "normalizeTriggerSource value =
     (let source = boundedText value 64 in
      if source \<in> {TRIGGER_SOURCE_CLOUDFLARE_CRON, TRIGGER_SOURCE_EXTERNAL_WATCHDOG}
      then Inr source else Inl (JsError ''Invalid scheduler trigger source''))"

section \<open>Reading a job row\<close>

definition parseInteger :: "jsval \<Rightarrow> string \<Rightarrow> int res" where
  "parseInteger value fieldName =
     (case num_integer (js_parse_number (trimText value)) of
        None \<Rightarrow> Inl (JsError (''Invalid '' @ fieldName @ '': expected an integer''))
      | Some n \<Rightarrow> Inr n)"

definition parseBinaryFlag :: "jsval \<Rightarrow> string \<Rightarrow> int res" where
  "parseBinaryFlag value fieldName =
     res_bind (parseInteger value fieldName) (\<lambda>n.
       if n \<noteq> 0 \<and> n \<noteq> 1 then Inl (JsError (''Invalid '' @ fieldName @ '': expected 0 or 1''))
       else Inr n)"

text \<open>The engine's own text after the name of the field is left out of the message.\<close>

definition parseJsonValue :: "jsval \<Rightarrow> string \<Rightarrow> bool \<Rightarrow> jsval res" where
  "parseJsonValue t fieldName allowEmptyObject =
     (let raw = trimText t in
      if raw = [] then Inr (if allowEmptyObject then JObj [] else Null)
      else case json_parse raw of
        None \<Rightarrow> Inl (JsError (''Invalid JSON in '' @ fieldName))
      | Some v \<Rightarrow> Inr v)"

fun isPlainObject :: "jsval \<Rightarrow> bool" where
  "isPlainObject (JObj _) = True"
| "isPlainObject (JDate _) = True"
| "isPlainObject _ = False"

definition parseJsonObject :: "jsval \<Rightarrow> string \<Rightarrow> jsval res" where
  "parseJsonObject t fieldName =
     res_bind (parseJsonValue t fieldName True) (\<lambda>v.
       if isPlainObject v then Inr v
       else Inl (JsError (''Invalid JSON in '' @ fieldName @ '': expected a JSON object'')))"

definition parseJsonBody :: "jsval \<Rightarrow> string \<Rightarrow> jsval res" where
  "parseJsonBody t fieldName =
     res_map (\<lambda>v. if v = Null then JObj [] else v) (parseJsonValue t fieldName True)"

definition normalizeTimezone :: "jsval \<Rightarrow> string res" where
  "normalizeTimezone value =
     (let t = trimText value in
      if t = [] then Inr ''UTC''
      else if t = ''UTC'' \<or> t = ''Etc/UTC'' then Inr t
      else Inl (JsError (''Unsupported timezone '' @ json_string t @ ''; expected UTC'')))"

text \<open>The URL parser gives the protocol and the host name of an absolute URL.\<close>

definition job_error :: "string \<Rightarrow> string \<Rightarrow> 'a res" where
  "job_error jobKey what = Inl (JsError (''Invalid scheduler job '' @ jobKey @ '': '' @ what))"

definition normalizeWorkerHttpUrl ::
  "(string \<Rightarrow> (string \<times> string) option) \<Rightarrow> jsval \<Rightarrow> string \<Rightarrow> string res" where
  "normalizeWorkerHttpUrl url value jobKey =
     (let normalized = trimText value;
          bad = job_error jobKey ''worker_http_url must be an absolute HTTPS URL''
      in case url normalized of
           None \<Rightarrow> bad
         | Some (protocol, hostname) \<Rightarrow>
             if protocol \<noteq> ''https:'' \<or> hostname = [] then bad else Inr normalized)"

definition binding_char :: "char \<Rightarrow> bool" where
  "binding_char c \<longleftrightarrow> is_digit c \<or> 65 \<le> char_code c \<and> char_code c \<le> 90 \<or> c = CHR ''_''"

text \<open>\<open>/^UK_AQ_[A-Z0-9_]*WORKER_HTTP_SECRET$/\<close>: 6 and 18 characters around the middle.\<close>

definition secret_binding_pattern :: "string \<Rightarrow> bool" where
  "secret_binding_pattern b \<longleftrightarrow> 24 \<le> length b \<and> take 6 b = ''UK_AQ_''
     \<and> drop (length b - 18) b = ''WORKER_HTTP_SECRET'' \<and> list_all binding_char b"

definition normalizeWorkerHttpSecretBinding :: "jsval \<Rightarrow> string \<Rightarrow> string res" where
  "normalizeWorkerHttpSecretBinding value jobKey =
     (let b = trimText value in
      if secret_binding_pattern b then Inr b
      else job_error jobKey
        ''worker_http_secret_binding must match /^UK_AQ_[A-Z0-9_]*WORKER_HTTP_SECRET$/'')"

text \<open>A normalised job: what all targets share, and the configuration of its target.\<close>

datatype job_target =
    GithubWorkflow (gh_repo: string) (gh_file: string) (gh_ref: string) (gh_inputs: jsval)
  | CloudRun (cr_url: string) (cr_method: string) (cr_headers: jsval) (cr_body: jsval)
  | WorkerHttp (wh_url: string) (wh_binding: string) (wh_body: jsval)

record sched_job =
  job_key :: string
  job_enabled_flag :: int
  job_cron_expr :: string
  job_timezone :: string
  job_dry_run :: int
  job_notes :: "string option"
  job_target :: job_target

fun target_type :: "job_target \<Rightarrow> string" where
  "target_type (GithubWorkflow _ _ _ _) = ''github_workflow''"
| "target_type (CloudRun _ _ _ _) = ''cloud_run''"
| "target_type (WorkerHttp _ _ _) = ''worker_http''"

definition or_default :: "string \<Rightarrow> string \<Rightarrow> string" where
  "or_default t d = (if t = [] then d else t)"

definition parse_target ::
  "(string \<Rightarrow> (string \<times> string) option) \<Rightarrow> jsval \<Rightarrow> string \<Rightarrow> string \<Rightarrow> job_target res" where
  "parse_target url row jobKey ty =
     (if ty = ''github_workflow'' then
        (let repo = trimText (jget row ''github_repo'');
             file = trimText (jget row ''github_workflow_file'');
             ref = or_default (trimText (jget row ''github_ref'')) ''main''
         in if repo = [] \<or> file = [] \<or> ref = []
            then job_error jobKey ''github_workflow requires github_repo, github_workflow_file, and github_ref''
            else res_map (GithubWorkflow repo file ref)
              (parseJsonObject (jget row ''github_inputs_json'')
                (''scheduler_jobs.github_inputs_json for '' @ jobKey)))
      else if ty = ''cloud_run'' then
        (let u = trimText (jget row ''cloud_run_url'')
         in if u = [] then job_error jobKey ''cloud_run requires cloud_run_url''
            else res_bind (parseJsonObject (jget row ''cloud_run_headers_json'')
                (''scheduler_jobs.cloud_run_headers_json for '' @ jobKey)) (\<lambda>headers.
              res_map (CloudRun u (or_default (trimText (jget row ''cloud_run_method'')) ''POST'') headers)
                (parseJsonBody (jget row ''cloud_run_body_json'')
                  (''scheduler_jobs.cloud_run_body_json for '' @ jobKey))))
      else
        res_bind (normalizeWorkerHttpUrl url (jget row ''worker_http_url'') jobKey) (\<lambda>u.
        res_bind (normalizeWorkerHttpSecretBinding (jget row ''worker_http_secret_binding'') jobKey) (\<lambda>b.
          res_map (WorkerHttp u b)
            (parseJsonObject (jget row ''worker_http_body_json'')
              (''scheduler_jobs.worker_http_body_json for '' @ jobKey)))))"

definition parseSchedulerJobRow ::
  "(string \<Rightarrow> (string \<times> string) option) \<Rightarrow> jsval \<Rightarrow> sched_job res" where
  "parseSchedulerJobRow url row =
     (let jobKey = trimText (jget row ''job_key'');
          ty = trimText (jget row ''target_type'');
          cronExpr = trimText (jget row ''cron_expr'')
      in if jobKey = [] then Inl (JsError ''Invalid scheduler job: missing job_key'')
         else res_bind (parseBinaryFlag (jget row ''enabled'')
             (''scheduler_jobs.enabled for '' @ jobKey)) (\<lambda>enabled.
           if ty \<notin> {''github_workflow'', ''cloud_run'', ''worker_http''}
           then job_error jobKey (''unsupported target_type '' @ json_string ty)
           else if cronExpr = [] then job_error jobKey ''missing cron_expr''
           else res_bind (normalizeTimezone (jget row ''timezone'')) (\<lambda>tz.
             res_bind (parseBinaryFlag (jget row ''dry_run'')
                 (''scheduler_jobs.dry_run for '' @ jobKey)) (\<lambda>dry.
               res_map (\<lambda>target. \<lparr>job_key = jobKey, job_enabled_flag = enabled,
                   job_cron_expr = cronExpr, job_timezone = tz, job_dry_run = dry,
                   job_notes = text_or_null (trimText (jget row ''notes'')), job_target = target\<rparr>)
                 (parse_target url row jobKey ty)))))"

section \<open>The world and its platform\<close>

record http_request =
  rq_url :: string
  rq_method :: string
  rq_headers :: "(string, string) jsmap"
  rq_body :: "string option"

text \<open>A fetch rejects, or answers with a status and a body whose reading may reject.\<close>

datatype http_reply = NetworkError js_error | HttpReply int "string res"

record world =
  w_db :: sched_db
  w_sent :: "http_request list"
  w_tick :: nat

text \<open>
  A statement on the tables answers, or its promise rejects: the statement was not
  carried out, or it was and its answer is lost.
\<close>

datatype store_fault = StatementRejected js_error | StatementLost js_error

text \<open>
  The network answers the n-th request of the world, the clock gives its n-th
  reading, and any statement may fail, depending on the world it is sent in; all
  three are arbitrary functions. No two statements of a run are sent in the same world:
  a clock reading or the claim of the minute lies between them.
\<close>

record platform =
  pl_fetch :: "nat \<Rightarrow> http_request \<Rightarrow> http_reply"
  pl_now :: "nat \<Rightarrow> int"
  pl_store :: "world \<Rightarrow> store_fault option"
  pl_url :: "string \<Rightarrow> (string \<times> string) option"
  pl_env :: "string \<Rightarrow> secret"

type_synonym 'a act = "world \<Rightarrow> 'a res \<times> world"

definition act_ret :: "'a \<Rightarrow> 'a act" where
  "act_ret x w = (Inr x, w)"

definition act_bind :: "'a act \<Rightarrow> ('a \<Rightarrow> 'b act) \<Rightarrow> 'b act" where
  "act_bind m f w = (case m w of (Inl e, w1) \<Rightarrow> (Inl e, w1) | (Inr x, w1) \<Rightarrow> f x w1)"

definition act_catch :: "'a act \<Rightarrow> (js_error \<Rightarrow> 'a act) \<Rightarrow> 'a act" where
  "act_catch m h w = (case m w of (Inl e, w1) \<Rightarrow> h e w1 | (Inr x, w1) \<Rightarrow> (Inr x, w1))"

definition act_res :: "'a res \<Rightarrow> 'a act" where
  "act_res r w = (r, w)"

text \<open>A statement of the store.\<close>

definition on_db :: "platform \<Rightarrow> (sched_db \<Rightarrow> 'a res \<times> sched_db) \<Rightarrow> 'a act" where
  "on_db p f w =
     (let after = w\<lparr>w_db := snd (f (w_db w))\<rparr> in
      case pl_store p w of
        None \<Rightarrow> (fst (f (w_db w)), after)
      | Some (StatementRejected e) \<Rightarrow> (Inl e, w)
      | Some (StatementLost e) \<Rightarrow> (Inl e, after))"

definition read_clock_iso :: "platform \<Rightarrow> string act" where
  "read_clock_iso p w = (nowIso (pl_now p (w_tick w)), w\<lparr>w_tick := w_tick w + 1\<rparr>)"

definition send :: "platform \<Rightarrow> http_request \<Rightarrow> http_reply act" where
  "send p rq w = (Inr (pl_fetch p (length (w_sent w)) rq), w\<lparr>w_sent := w_sent w @ [rq]\<rparr>)"

section \<open>Sending a dispatch\<close>

text \<open>Header names are tokens in lower case, values are trimmed and hold no line break.\<close>

definition token_char :: "char \<Rightarrow> bool" where
  "token_char c \<longleftrightarrow> is_digit c \<or> char_lower c \<noteq> char_upper c \<and> char_code c < 128
     \<or> c \<in> set ''!#$%&*+-.^_|~'' \<or> char_code c \<in> {39, 96}"

definition header_trim :: "string \<Rightarrow> string" where
  "header_trim s = (let ws = (\<lambda>c. char_code c \<in> {9, 10, 13, 32})
     in rev (dropWhile ws (rev (dropWhile ws s))))"

definition header_set :: "string \<Rightarrow> string \<Rightarrow> (string, string) jsmap \<Rightarrow> (string, string) jsmap res" where
  "header_set name value hs =
     (let v = header_trim value in
      if name = [] \<or> \<not> list_all token_char name \<or> (\<exists>c \<in> set v. char_code c \<in> {0, 10, 13})
      then Inl TypeError else Inr (jm_set (js_lower name) v hs))"

definition make_headers :: "(string \<times> string) list \<Rightarrow> (string, string) jsmap \<Rightarrow> (string, string) jsmap res" where
  "make_headers kvs hs = res_fold (\<lambda>(k, v). header_set k v) kvs hs"

definition uri_char :: "char \<Rightarrow> string" where
  "uri_char c =
     (let n = char_code c;
          hex = (\<lambda>k. char_upper (hex_digit k));
          pct = (\<lambda>k. [CHR ''%'', hex (k div 16), hex (k mod 16)])
      in if is_digit c \<or> (char_lower c \<noteq> char_upper c \<and> n < 128) \<or> c \<in> set ''-_.!~*()'' \<or> n = 39
         then [c]
         else if n < 128 then pct n
         else pct (192 + n div 64) @ pct (128 + n mod 64))"

definition encodeURIComponent :: "string \<Rightarrow> string" where
  "encodeURIComponent s = List.concat (List.map uri_char s)"

record dispatch_result =
  dr_ok :: bool
  dr_response_status :: int
  dr_response_preview :: "string option"
  dr_reason :: "string option"

definition missing_secret :: "string \<Rightarrow> 'a res" where
  "missing_secret name = Inl (JsError (''Missing required Worker secret: '' @ name))"

definition env_secret :: "platform \<Rightarrow> string \<Rightarrow> string" where
  "env_secret p name = js_trim (readSecret (pl_env p name))"

definition reply_result ::
  "http_reply \<Rightarrow> (int \<Rightarrow> bool) \<Rightarrow> (string \<Rightarrow> string) \<Rightarrow> string \<Rightarrow> dispatch_result res" where
  "reply_result reply ok show_body what =
     (case reply of
        NetworkError e \<Rightarrow> Inl e
      | HttpReply st body \<Rightarrow>
          res_map (\<lambda>t. \<lparr>dr_ok = ok st, dr_response_status = st,
              dr_response_preview = truncatePreview (show_body t) RESPONSE_PREVIEW_LIMIT,
              dr_reason = (if ok st then None else Some (what @ '' dispatch failed with HTTP '' @ int_str st))\<rparr>)
            body)"

definition status_ok :: "int \<Rightarrow> bool" where
  "status_ok st \<longleftrightarrow> 200 \<le> st \<and> st \<le> 299"

definition github_request :: "string \<Rightarrow> string \<Rightarrow> string \<Rightarrow> string \<Rightarrow> string \<Rightarrow> jsval \<Rightarrow> http_request res" where
  "github_request token owner repo file ref inputs =
     res_map (\<lambda>hs. \<lparr>rq_url = ''https://api.github.com/repos/'' @ encodeURIComponent owner @ ''/''
           @ encodeURIComponent repo @ ''/actions/workflows/'' @ encodeURIComponent file @ ''/dispatches'',
         rq_method = ''POST'', rq_headers = hs,
         rq_body = Some (json_stringify (JObj [(''ref'', JStr ref), (''inputs'', inputs)]))\<rparr>)
       (make_headers [(''Authorization'', ''Bearer '' @ token), (''Accept'', ''application/vnd.github+json''),
          (''X-GitHub-Api-Version'', ''2022-11-28''), (''Content-Type'', ''application/json''),
          (''User-Agent'', ''uk-aq-cloudflare-cron-scheduler'')] [])"

definition dispatchGitHubWorkflow ::
  "platform \<Rightarrow> string \<Rightarrow> string \<Rightarrow> string \<Rightarrow> jsval \<Rightarrow> dispatch_result act" where
  "dispatchGitHubWorkflow p repository file ref inputs =
     (let token = env_secret p ''UK_AQ_GITHUB_WORKFLOW_DISPATCH_PAT'' in
      if token = [] then act_res (missing_secret ''UK_AQ_GITHUB_WORKFLOW_DISPATCH_PAT'')
      else case js_split (CHR ''/'') repository of
        [owner, repo] \<Rightarrow>
          if owner = [] \<or> repo = [] then
            act_res (Inl (JsError (''Invalid github_repo '' @ json_string repository @ ''; expected owner/repo'')))
          else act_bind (act_res (github_request token owner repo file ref inputs)) (\<lambda>rq.
            act_bind (send p rq) (\<lambda>reply. act_res
              (case reply of
                 NetworkError e \<Rightarrow> Inl e
               | HttpReply st body \<Rightarrow>
                   if st = 204 then Inr \<lparr>dr_ok = True, dr_response_status = 204,
                     dr_response_preview = None, dr_reason = None\<rparr>
                   else reply_result reply (\<lambda>_. False) id ''GitHub'')))
      | _ \<Rightarrow> act_res (Inl (JsError (''Invalid github_repo '' @ json_string repository @ ''; expected owner/repo''))))"

text \<open>\<open>Object.entries(job.cloud_run_headers)\<close> without the entries that are null.\<close>

fun header_entries :: "jsval \<Rightarrow> (string \<times> string) list" where
  "header_entries (JObj kvs) = List.map (\<lambda>(k, v). (k, js_string v)) (filter (\<lambda>(k, v). \<not> is_nullish v) kvs)"
| "header_entries _ = []"

definition cloud_run_request :: "string \<Rightarrow> string \<Rightarrow> string \<Rightarrow> jsval \<Rightarrow> jsval \<Rightarrow> http_request res" where
  "cloud_run_request secret url method headers body =
     res_bind (make_headers (header_entries headers @ [(''x-uk-aq-dispatch-secret'', secret)]) []) (\<lambda>hs.
       let m = js_upper (js_trim (or_default method ''POST''));
           bodyless = (m = ''GET'' \<or> m = ''HEAD'')
       in Inr \<lparr>rq_url = url, rq_method = m,
            rq_headers = (if \<not> bodyless \<and> \<not> jm_has hs ''content-type''
              then jm_set ''content-type'' ''application/json; charset=utf-8'' hs else hs),
            rq_body = (if bodyless then None else Some (json_stringify (js_coalesce body (JObj []))))\<rparr>)"

definition dispatchCloudRun ::
  "platform \<Rightarrow> string \<Rightarrow> string \<Rightarrow> jsval \<Rightarrow> jsval \<Rightarrow> dispatch_result act" where
  "dispatchCloudRun p url method headers body =
     (let secret = env_secret p ''UK_AQ_EDGE_UPSTREAM_SECRET'' in
      if secret = [] then act_res (missing_secret ''UK_AQ_EDGE_UPSTREAM_SECRET'')
      else act_bind (act_res (cloud_run_request secret url method headers body)) (\<lambda>rq.
        act_bind (send p rq) (\<lambda>reply. act_res (reply_result reply status_ok id ''Cloud Run''))))"

definition worker_http_request :: "string \<Rightarrow> string \<Rightarrow> jsval \<Rightarrow> http_request res" where
  "worker_http_request secret url body =
     res_map (\<lambda>hs. \<lparr>rq_url = url, rq_method = ''POST'', rq_headers = hs,
         rq_body = Some (json_stringify (js_coalesce body (JObj [])))\<rparr>)
       (make_headers [(''Accept'', ''application/json''),
          (''Content-Type'', ''application/json; charset=utf-8''),
          (''x-uk-aq-worker-http-secret'', secret)] [])"

definition dispatchWorkerHttp :: "platform \<Rightarrow> string \<Rightarrow> string \<Rightarrow> jsval \<Rightarrow> dispatch_result act" where
  "dispatchWorkerHttp p url binding body =
     (let secret = env_secret p binding in
      if secret = [] then act_res (missing_secret binding)
      else act_bind (act_res (worker_http_request secret url body)) (\<lambda>rq.
        act_bind (send p rq) (\<lambda>reply. act_res (reply_result reply status_ok (redact secret) ''Worker HTTP''))))"

fun dispatchTarget :: "platform \<Rightarrow> job_target \<Rightarrow> dispatch_result act" where
  "dispatchTarget p (GithubWorkflow repo file ref inputs) = dispatchGitHubWorkflow p repo file ref inputs"
| "dispatchTarget p (CloudRun url method headers body) = dispatchCloudRun p url method headers body"
| "dispatchTarget p (WorkerHttp url binding body) = dispatchWorkerHttp p url binding body"

section \<open>The jobs due in a window\<close>

definition dueSlotsForJob :: "sched_job \<Rightarrow> int \<Rightarrow> int \<Rightarrow> string list res" where
  "dueSlotsForJob job windowStartMs windowEndMs =
     cronDueTimes (job_cron_expr job) (windowStartMs + DISPATCH_LEAD_MS) (windowEndMs + DISPATCH_LEAD_MS)"

record run_summary =
  su_checked :: int
  su_due :: int
  su_claimed :: int
  su_dispatched :: int
  su_failed :: int

definition summary_zero :: run_summary where
  "summary_zero = \<lparr>su_checked = 0, su_due = 0, su_claimed = 0, su_dispatched = 0, su_failed = 0\<rparr>"

definition claim_of :: "sched_job \<Rightarrow> string \<Rightarrow> string \<Rightarrow> dispatch_claim" where
  "claim_of job dueAt claimedAt =
     \<lparr>cl_job_key = job_key job, cl_due_at = dueAt, cl_claimed_at = claimedAt,
      cl_target_type = target_type (job_target job), cl_dry_run = job_dry_run job\<rparr>"

text \<open>Writing the outcome of a dispatch with a fresh time stamp.\<close>

definition record_outcome ::
  "platform \<Rightarrow> int \<Rightarrow> string \<Rightarrow> string option \<Rightarrow> int option \<Rightarrow> string option \<Rightarrow> unit act" where
  "record_outcome p i st reason response preview =
     act_bind (read_clock_iso p) (\<lambda>t. on_db p (\<lambda>db. (Inr (), updateDispatch i
       \<lparr>pa_dispatched_at = Some t, pa_dispatch_status = st, pa_reason = reason,
        pa_response_status = response, pa_response_preview = preview\<rparr> db)))"

definition attempt_dispatch :: "platform \<Rightarrow> sched_job \<Rightarrow> int \<Rightarrow> run_summary \<Rightarrow> run_summary act" where
  "attempt_dispatch p job i s =
     act_catch
       (act_bind (dispatchTarget p (job_target job)) (\<lambda>r.
        act_bind (record_outcome p i (if dr_ok r then ''dispatched'' else ''failed'')
            (if dr_ok r then None else dr_reason r) (Some (dr_response_status r)) (dr_response_preview r)) (\<lambda>_.
        act_ret (if dr_ok r then s\<lparr>su_dispatched := su_dispatched s + 1\<rparr>
                 else s\<lparr>su_failed := su_failed s + 1\<rparr>))))
       (\<lambda>e. act_bind (record_outcome p i ''failed'' (Some (error_message e)) None None) (\<lambda>_.
          act_ret (s\<lparr>su_failed := su_failed s + 1\<rparr>)))"

definition dispatch_slot :: "platform \<Rightarrow> sched_job \<Rightarrow> string \<Rightarrow> run_summary \<Rightarrow> run_summary act" where
  "dispatch_slot p job dueAt s =
     act_bind (read_clock_iso p) (\<lambda>claimedAt.
     act_bind (on_db p (claimDispatch (claim_of job dueAt claimedAt))) (\<lambda>r.
       case r of
         None \<Rightarrow> act_ret s
       | Some i \<Rightarrow>
           let s1 = s\<lparr>su_claimed := su_claimed s + 1\<rparr> in
           if job_dry_run job = 1 then
             act_bind (record_outcome p i ''dry_run'' (Some ''dry_run_enabled'') None None) (\<lambda>_. act_ret s1)
           else attempt_dispatch p job i s1))"

fun act_fold :: "('a \<Rightarrow> 's \<Rightarrow> 's act) \<Rightarrow> 'a list \<Rightarrow> 's \<Rightarrow> 's act" where
  "act_fold f [] s = act_ret s"
| "act_fold f (x # xs) s = act_bind (f x s) (act_fold f xs)"

definition dispatch_job :: "platform \<Rightarrow> int \<Rightarrow> int \<Rightarrow> jsval \<Rightarrow> run_summary \<Rightarrow> run_summary act" where
  "dispatch_job p windowStartMs windowEndMs rawJob s =
     (let s1 = s\<lparr>su_checked := su_checked s + 1\<rparr>;
          invalid = act_ret (s1\<lparr>su_failed := su_failed s1 + 1\<rparr>)
      in case parseSchedulerJobRow (pl_url p) rawJob of
           Inl _ \<Rightarrow> invalid
         | Inr job \<Rightarrow>
             (case dueSlotsForJob job windowStartMs windowEndMs of
                Inl _ \<Rightarrow> invalid
              | Inr dueTimes \<Rightarrow>
                  act_fold (dispatch_slot p job) dueTimes (s1\<lparr>su_due := su_due s1 + int (length dueTimes)\<rparr>)))"

definition dispatchDueJobsForWindow :: "platform \<Rightarrow> jsval list \<Rightarrow> int \<Rightarrow> int \<Rightarrow> run_summary act" where
  "dispatchDueJobsForWindow p jobs windowStartMs windowEndMs =
     act_fold (dispatch_job p windowStartMs windowEndMs) jobs summary_zero"

section \<open>One run of the scheduler\<close>

datatype run_outcome =
    AlreadyClaimed (ac_claim: minute_claim) (ac_scheduler: string) (ac_slot: string) (ac_source: string)
  | Triggered (tr_run: int) (tr_scheduler: string) (tr_started: string) (tr_window: eval_window)
      (tr_slot: string) (tr_source: string) (tr_summary: run_summary)

fun triggered :: "run_outcome \<Rightarrow> bool" where
  "triggered (Triggered _ _ _ _ _ _ _) = True"
| "triggered (AlreadyClaimed _ _ _ _) = False"

definition new_run :: "string \<Rightarrow> string \<Rightarrow> string \<Rightarrow> string \<Rightarrow> string \<Rightarrow> run_row" where
  "new_run schedulerName minuteSlot source startedAt windowStart =
     \<lparr>run_id = 0, run_scheduler_name = schedulerName, run_minute_slot = Some minuteSlot,
      run_trigger_source = Some source, run_started_at = startedAt, run_finished_at = None,
      run_status = ''started'', run_previous_run_started_at = None,
      run_window_start = Some windowStart, run_window_end = Some minuteSlot,
      run_jobs_checked = 0, run_jobs_due = 0, run_jobs_claimed = 0, run_jobs_dispatched = 0,
      run_jobs_failed = 0, run_error_message = None\<rparr>"

definition finish_patch :: "string \<Rightarrow> string \<Rightarrow> string \<Rightarrow> string \<Rightarrow> run_summary \<Rightarrow> string option \<Rightarrow> run_patch" where
  "finish_patch st finishedAt windowStart minuteSlot s err =
     \<lparr>rp_status = st, rp_finished_at = finishedAt, rp_previous_run_started_at = None,
      rp_window_start = Some windowStart, rp_window_end = Some minuteSlot,
      rp_jobs_checked = su_checked s, rp_jobs_due = su_due s, rp_jobs_claimed = su_claimed s,
      rp_jobs_dispatched = su_dispatched s, rp_jobs_failed = su_failed s, rp_error_message = err\<rparr>"

definition finish_run :: "platform \<Rightarrow> int \<Rightarrow> string \<Rightarrow> string \<Rightarrow> string \<Rightarrow> run_summary \<Rightarrow> string option \<Rightarrow> unit act" where
  "finish_run p runId st windowStart minuteSlot s err =
     act_bind (read_clock_iso p) (\<lambda>t.
       on_db p (\<lambda>db. (Inr (), finishRun runId (finish_patch st t windowStart minuteSlot s err) db)))"

text \<open>The claimed part: on an error the run is closed as failed, best effort, and the error passes on.\<close>

definition run_claimed :: "platform \<Rightarrow> int \<Rightarrow> eval_window \<Rightarrow> string \<Rightarrow> run_summary act" where
  "run_claimed p runId ew minuteSlot =
     act_catch
       (act_bind (on_db p (\<lambda>db. (Inr (listEnabledJobs db), db))) (\<lambda>jobs.
        act_bind (dispatchDueJobsForWindow p jobs (ew_startMs ew) (ew_endMs ew)) (\<lambda>s.
        act_bind (finish_run p runId ''finished'' (ew_start ew) minuteSlot s None) (\<lambda>_. act_ret s))))
       (\<lambda>e. act_bind
          (act_catch (finish_run p runId ''failed'' (ew_start ew) minuteSlot summary_zero
             (truncatePreview (error_message e) RESPONSE_PREVIEW_LIMIT)) (\<lambda>_. act_ret ()))
          (\<lambda>_. act_res (Inl e)))"

text \<open>From the claim of the minute on.\<close>

definition run_minute :: "platform \<Rightarrow> string \<Rightarrow> string \<Rightarrow> string \<Rightarrow> string \<Rightarrow> eval_window \<Rightarrow> run_outcome act" where
  "run_minute p schedulerName minuteSlot source startedAt ew =
     act_bind (on_db p (claimMinute (new_run schedulerName minuteSlot source startedAt (ew_start ew)))) (\<lambda>c.
       if \<not> mc_claimed c then act_ret (AlreadyClaimed c schedulerName minuteSlot source)
       else (case mc_scheduler_run_id c of
           None \<Rightarrow> act_res (Inl (JsError ''Failed to claim scheduler minute''))
         | Some runId \<Rightarrow>
             act_bind (run_claimed p runId ew minuteSlot) (\<lambda>s.
               act_ret (Triggered runId schedulerName startedAt ew minuteSlot source s))))"

definition runScheduler :: "platform \<Rightarrow> jsnum \<Rightarrow> string \<Rightarrow> jsval \<Rightarrow> run_outcome act" where
  "runScheduler p nowMs schedulerName triggerSource =
     (if \<not> num_finite nowMs then act_res (Inl (JsError ''Invalid scheduler invocation time''))
      else act_bind (act_res (iso_of_num nowMs)) (\<lambda>startedAt.
        act_bind (act_res (canonicalMinuteSlot nowMs)) (\<lambda>minuteSlot.
        act_bind (act_res (currentMinuteEvaluationWindow minuteSlot)) (\<lambda>ew.
        act_bind (act_res (normalizeTriggerSource triggerSource)) (\<lambda>source.
          run_minute p schedulerName minuteSlot source startedAt ew)))))"

section \<open>The worker's handlers\<close>

definition scheduled :: "platform \<Rightarrow> jsval \<Rightarrow> run_outcome act" where
  "scheduled p scheduledTime w =
     (if is_nullish scheduledTime
      then runScheduler p (num_of_int (pl_now p (w_tick w))) SCHEDULER_NAME
             (JStr TRIGGER_SOURCE_CLOUDFLARE_CRON) (w\<lparr>w_tick := w_tick w + 1\<rparr>)
      else runScheduler p (js_number scheduledTime) SCHEDULER_NAME
             (JStr TRIGGER_SOURCE_CLOUDFLARE_CRON) w)"

record http_incoming =
  in_path :: string
  in_method :: string
  in_trigger_header :: "string option"

record http_response =
  hr_status :: int
  hr_body :: jsval

definition hasValidSchedulerTriggerSecret :: "platform \<Rightarrow> string option \<Rightarrow> bool" where
  "hasValidSchedulerTriggerSecret p header =
     (let provided = boundedText (case header of None \<Rightarrow> Null | Some h \<Rightarrow> JStr h) 512;
          expected = boundedText (JStr (readSecret (pl_env p ''UK_AQ_SCHEDULER_TRIGGER_SECRET''))) 512
      in provided \<noteq> [] \<and> expected \<noteq> [] \<and> provided = expected)"

definition opt_str :: "string option \<Rightarrow> jsval" where
  "opt_str s = (case s of None \<Rightarrow> Null | Some t \<Rightarrow> JStr t)"

fun outcome_json :: "run_outcome \<Rightarrow> (string \<times> jsval) list" where
  "outcome_json (AlreadyClaimed c name slot source) =
     [(''scheduler_run_id'', case mc_scheduler_run_id c of None \<Rightarrow> Null | Some i \<Rightarrow> JInt i),
      (''scheduler_name'', JStr name), (''minute_slot'', JStr slot), (''trigger_source'', JStr source),
      (''claimed_trigger_source'', opt_str (mc_trigger_source c)),
      (''run_status'', JStr (mc_run_status c)), (''status'', JStr ''already_claimed'')]"
| "outcome_json (Triggered i name started ew slot source s) =
     [(''scheduler_run_id'', JInt i), (''scheduler_name'', JStr name), (''started_at'', JStr started),
      (''minute_slot'', JStr slot), (''trigger_source'', JStr source),
      (''previous_run_started_at'', Null), (''evaluation_window_start'', JStr (ew_start ew)),
      (''evaluation_window_end'', JStr slot),
      (''jobs_checked'', JInt (su_checked s)), (''jobs_due'', JInt (su_due s)),
      (''jobs_claimed'', JInt (su_claimed s)), (''jobs_dispatched'', JInt (su_dispatched s)),
      (''jobs_failed'', JInt (su_failed s)), (''run_status'', JStr ''finished''),
      (''status'', JStr ''triggered'')]"

definition respond :: "int \<Rightarrow> jsval \<Rightarrow> http_response act" where
  "respond st body = act_ret \<lparr>hr_status = st, hr_body = body\<rparr>"

definition run_if_due :: "platform \<Rightarrow> http_response act" where
  "run_if_due p w =
     (let invokedAtMs = num_of_int (pl_now p (w_tick w)) in
      act_catch
        (act_bind (runScheduler p invokedAtMs SCHEDULER_NAME (JStr TRIGGER_SOURCE_EXTERNAL_WATCHDOG))
          (\<lambda>r. respond 200 (JObj ((''ok'', JBool True) # outcome_json r))))
        (\<lambda>_. act_bind (act_res (canonicalMinuteSlot invokedAtMs)) (\<lambda>slot.
          respond 500 (JObj [(''ok'', JBool False), (''status'', JStr ''failed''),
            (''scheduler_name'', JStr SCHEDULER_NAME),
            (''trigger_source'', JStr TRIGGER_SOURCE_EXTERNAL_WATCHDOG), (''minute_slot'', JStr slot)])))
        (w\<lparr>w_tick := w_tick w + 1\<rparr>))"

definition handle_fetch :: "platform \<Rightarrow> http_incoming \<Rightarrow> http_response act" where
  "handle_fetch p rq =
     (if in_path rq = ''/run-if-due'' then
        (if in_method rq \<noteq> ''POST'' then respond 405 (JStr ''Method not allowed'')
         else if \<not> hasValidSchedulerTriggerSecret p (in_trigger_header rq)
           then respond 401 (JObj [(''ok'', JBool False), (''error'', JStr ''unauthorized'')])
         else run_if_due p)
      else if in_path rq \<noteq> ''/'' \<and> in_path rq \<noteq> ''/health'' then respond 404 (JStr ''Not found'')
      else respond 200 (JObj [(''ok'', JBool True), (''worker'', JStr ''uk-aq-cron-scheduler-ops''),
        (''scheduler_name'', JStr SCHEDULER_NAME), (''binding'', JStr ''SCHEDULER_DB'')]))"

section \<open>What every action keeps\<close>

text \<open>
  A reflexive and transitive relation between worlds that the atomic actions keep
  is kept by everything built from them.
\<close>

locale world_order =
  fixes R :: "world \<Rightarrow> world \<Rightarrow> bool"
  assumes R_refl: "R w w"
    and R_trans: "R u v \<Longrightarrow> R v w \<Longrightarrow> R u w"
begin

definition keeps :: "'a act \<Rightarrow> bool" where
  "keeps m \<longleftrightarrow> (\<forall>w. R w (snd (m w)))"

lemma keepsI: "(\<And>w. R w (snd (m w))) \<Longrightarrow> keeps m"
  by (simp add: keeps_def)

lemma keepsD: "keeps m \<Longrightarrow> R w (snd (m w))"
  by (simp add: keeps_def)

lemma keeps_ret: "keeps (act_ret x)"
  by (simp add: keeps_def act_ret_def R_refl)

lemma keeps_res: "keeps (act_res r)"
  by (simp add: keeps_def act_res_def R_refl)

lemma keeps_bind: "keeps m \<Longrightarrow> (\<And>x. keeps (f x)) \<Longrightarrow> keeps (act_bind m f)"
  unfolding keeps_def act_bind_def
  by (auto split: prod.split sum.split) (metis R_trans snd_conv)+

lemma keeps_catch: "keeps m \<Longrightarrow> (\<And>e. keeps (h e)) \<Longrightarrow> keeps (act_catch m h)"
  unfolding keeps_def act_catch_def
  by (auto split: prod.split sum.split) (metis R_trans snd_conv)+

lemma keeps_fold: "(\<And>x s. keeps (f x s)) \<Longrightarrow> keeps (act_fold f xs s)"
  by (induction xs arbitrary: s) (simp_all add: keeps_ret keeps_bind)

lemma keeps_on_db: "(\<And>w. R w (w\<lparr>w_db := snd (f (w_db w))\<rparr>)) \<Longrightarrow> keeps (on_db p f)"
  by (simp add: keeps_def on_db_def Let_def R_refl split: option.split store_fault.split)

lemma keeps_dispatch_job:
  "(\<And>job due s. keeps (dispatch_slot p job due s)) \<Longrightarrow> keeps (dispatch_job p a b raw s)"
  by (auto simp: dispatch_job_def Let_def keeps_ret intro!: keeps_fold split: sum.split)

lemma keeps_window:
  "(\<And>job due s. keeps (dispatch_slot p job due s)) \<Longrightarrow> keeps (dispatchDueJobsForWindow p jobs a b)"
  unfolding dispatchDueJobsForWindow_def by (intro keeps_fold keeps_dispatch_job)

text \<open>A run keeps the relation when its slots, its clock reads and its two writes to the runs do.\<close>

lemma keeps_run:
  assumes "\<And>job due s. keeps (dispatch_slot p job due s)"
    and "keeps (read_clock_iso p)"
    and "\<And>i q. keeps (on_db p (\<lambda>db. (Inr (), finishRun i q db)))"
    and "\<And>run. keeps (on_db p (claimMinute run))"
    and "keeps (on_db p (\<lambda>db. (Inr (listEnabledJobs db), db)))"
  shows "keeps (runScheduler p nowMs name source)"
proof -
  have fin: "keeps (finish_run p i st a b s e)" for i st a b s e
    unfolding finish_run_def by (intro keeps_bind assms)
  have claimed: "keeps (run_claimed p i ew slot)" for i ew slot
    unfolding run_claimed_def
    by (intro keeps_catch keeps_bind keeps_ret keeps_res keeps_window fin assms)
  have minute: "keeps (run_minute p name slot src st ew)" for slot src st ew
    unfolding run_minute_def
    by (auto intro!: keeps_ret keeps_res keeps_bind claimed assms split: option.split)
  show ?thesis
    unfolding runScheduler_def by (auto intro!: keeps_bind keeps_res keeps_ret minute)
qed

end

text \<open>First instance: well-formed tables stay well-formed, and no claim is ever taken back.\<close>

definition tables_grow :: "world \<Rightarrow> world \<Rightarrow> bool" where
  "tables_grow w w' \<longleftrightarrow> (db_wf (w_db w) \<longrightarrow> db_wf (w_db w'))
     \<and> minute_keys (w_db w) \<subseteq> minute_keys (w_db w')
     \<and> dispatch_keys (w_db w) \<subseteq> dispatch_keys (w_db w')
     \<and> db_jobs (w_db w) = db_jobs (w_db w')"

interpretation grow: world_order tables_grow
  by unfold_locales (auto simp: tables_grow_def)

lemma grow_read_clock: "grow.keeps (read_clock_iso p)"
  by (rule grow.keepsI) (simp add: tables_grow_def read_clock_iso_def)

lemma grow_send: "grow.keeps (send p rq)"
  by (rule grow.keepsI) (simp add: tables_grow_def send_def)

lemma claimMinute_frame [simp]:
  "dispatch_keys (snd (claimMinute run db)) = dispatch_keys db"
  "db_jobs (snd (claimMinute run db)) = db_jobs db"
  "minute_keys db \<subseteq> minute_keys (snd (claimMinute run db))"
  by (auto simp: claimMinute_cases dispatch_keys_def minute_keys_def split: option.splits)

lemma claimDispatch_frame [simp]:
  "minute_keys (snd (claimDispatch c db)) = minute_keys db"
  "db_jobs (snd (claimDispatch c db)) = db_jobs db"
  "dispatch_keys db \<subseteq> dispatch_keys (snd (claimDispatch c db))"
  by (auto simp: claimDispatch_cases dispatch_keys_def minute_keys_def)

lemma grow_claims: "grow.keeps (on_db p (claimMinute run))" "grow.keeps (on_db p (claimDispatch c))"
  by (rule grow.keeps_on_db;
      simp add: tables_grow_def db_wf_claimMinute db_wf_claimDispatch)+

lemma grow_updates:
  "grow.keeps (on_db p (\<lambda>db. (Inr (), updateDispatch i q db)))"
  "grow.keeps (on_db p (\<lambda>db. (Inr (), finishRun j r db)))"
  "grow.keeps (on_db p (\<lambda>db. (Inr (listEnabledJobs db), db)))"
  by (rule grow.keeps_on_db;
      simp add: tables_grow_def db_wf_intros updateDispatch_def [THEN arg_cong [where f = db_jobs]]
        finishRun_def [THEN arg_cong [where f = db_jobs]])+

lemma grow_target: "grow.keeps (dispatchTarget p t)"
proof (cases t)
  case (GithubWorkflow repo wf ref inputs)
  then show ?thesis
    by (auto simp: dispatchGitHubWorkflow_def Let_def
        intro!: grow.keeps_bind grow.keeps_res grow_send split: list.split)
qed (auto simp: dispatchCloudRun_def dispatchWorkerHttp_def Let_def
    intro!: grow.keeps_bind grow.keeps_res grow_send)

lemma grow_record: "grow.keeps (record_outcome p i st r a b)"
  unfolding record_outcome_def by (intro grow.keeps_bind grow_read_clock grow_updates)

lemma grow_slot: "grow.keeps (dispatch_slot p job due s)"
  unfolding dispatch_slot_def attempt_dispatch_def
  by (auto simp: Let_def intro!: grow.keeps_bind grow.keeps_catch grow.keeps_ret grow_read_clock
      grow_claims grow_record grow_target split: option.split)

lemma runScheduler_grows: "tables_grow w (snd (runScheduler p nowMs name source w))"
  by (intro grow.keepsD grow.keeps_run grow_slot grow_read_clock grow_updates grow_claims)

section \<open>One minute, one run\<close>

lemma minute_floor_in_range:
  "\<bar>t\<bar> \<le> MAX_TIME \<Longrightarrow> \<bar>minute_floor t\<bar> \<le> MAX_TIME"
proof -
  assume a: "\<bar>t\<bar> \<le> MAX_TIME"
  have d: "MINUTE_MS dvd - MAX_TIME" by (simp add: MINUTE_MS_def MAX_TIME_def)
  have "\<not> minute_floor t < - MAX_TIME"
  proof
    assume "minute_floor t < - MAX_TIME"
    moreover have "MINUTE_MS dvd - MAX_TIME - minute_floor t"
      using d minute_floor_dvd [of t] by (rule dvd_diff)
    ultimately have "MINUTE_MS \<le> - MAX_TIME - minute_floor t"
      by (intro zdvd_imp_le) auto
    with minute_floor_bounds [of t] a show False by linarith
  qed
  with minute_floor_bounds [of t] a show ?thesis by linarith
qed

lemma canonicalMinuteSlot_int:
  assumes "\<bar>t\<bar> \<le> MAX_TIME"
  shows "canonicalMinuteSlot (Fin (of_int t)) = Inr (to_iso (minute_floor t))"
proof -
  have small: "\<bar>t\<bar> < 2 ^ 53" using assms by (simp add: MAX_TIME_def)
  have fl: "num_floor (num_div (Fin (of_int t)) (num_of_int MINUTE_MS)) = Fin (of_int (t div MINUTE_MS))"
    using num_floor_div [OF small, of MINUTE_MS] by (simp add: num_of_int_exact MINUTE_MS_def)
  have r: "\<bar>minute_floor t\<bar> \<le> MAX_TIME" by (rule minute_floor_in_range [OF assms])
  then have "to_double (of_int (minute_floor t)) = Fin (of_int (minute_floor t))"
    by (intro to_double_int) (simp add: MAX_TIME_def)
  then have "num_mul (Fin (of_int (t div MINUTE_MS))) (num_of_int MINUTE_MS)
      = Fin (of_int (minute_floor t))"
    by (simp add: num_of_int_exact MINUTE_MS_def minute_floor_def)
  moreover have "rat_trunc (of_int n) = n" for n by (simp add: rat_trunc_def)
  ultimately show ?thesis using fl r
    by (simp add: canonicalMinuteSlot_def iso_of_num_def to_iso_res_def del: abs_le_iff)
qed

lemma window_of_slot:
  assumes "common_time m" "common_time (m - MINUTE_MS)"
  shows "currentMinuteEvaluationWindow (to_iso m) =
     Inr \<lparr>ew_startMs = m - MINUTE_MS, ew_endMs = m, ew_start = to_iso (m - MINUTE_MS), ew_end = to_iso m\<rparr>"
  using assms by (simp add: currentMinuteEvaluationWindow_def date_parse_common nowIso_def)

text \<open>The window of a run reaches exactly its own minute, thanks to the lead of half a minute.\<close>

lemma scan_one: "scan_minutes c m m = (if cronMatchesDate c m then [m] else [])"
proof -
  have "MINUTE_MS > 0" by (simp add: MINUTE_MS_def)
  then show ?thesis by (subst scan_minutes.simps) (simp add: scan_minutes_empty)
qed

lemma minute_floor_add: "MINUTE_MS dvd m \<Longrightarrow> 0 \<le> k \<Longrightarrow> k < MINUTE_MS \<Longrightarrow> minute_floor (m + k) = m"
  by (elim dvdE) (simp add: minute_floor_def MINUTE_MS_def)

lemma due_slots_of_minute:
  assumes "MINUTE_MS dvd m" "common_time m" "parseCronExpression (job_cron_expr job) = Inr c"
  shows "dueSlotsForJob job (m - MINUTE_MS) m = Inr (if cronMatchesDate c m then [to_iso m] else [])"
proof -
  have d: "MINUTE_MS dvd m - MINUTE_MS" using assms(1) by (simp add: dvd_diff)
  have "minute_floor (m - MINUTE_MS + DISPATCH_LEAD_MS) = m - MINUTE_MS"
    "minute_floor (m + DISPATCH_LEAD_MS) = m"
    by (rule minute_floor_add [OF d], simp_all add: DISPATCH_LEAD_MS_def MINUTE_MS_def)
      (rule minute_floor_add [OF assms(1), simplified MINUTE_MS_def], simp_all)
  then show ?thesis
    using assms(2) by (simp add: dueSlotsForJob_def cronDueTimes_parsed [OF assms(3)] scan_one)
qed

section \<open>A minute is run at most once\<close>

lemma claim_taken_minute:
  assumes "(name, slot) \<in> minute_keys db"
  shows "\<exists>c. claimMinute (new_run name slot src st ws) db = (Inr c, db) \<and> \<not> mc_claimed c"
  using assms
  by (auto simp: claimMinute_cases new_run_def minute_keys_def find_None_iff split: option.split)

lemma claim_records_minute:
  "(name, slot) \<in> minute_keys (snd (claimMinute (new_run name slot src st ws) db))"
  by (auto simp: claimMinute_cases new_run_def minute_keys_def find_Some_iff split: option.split)

lemma act_simps:
  "act_bind (act_res r) f w = (case r of Inl e \<Rightarrow> (Inl e, w) | Inr x \<Rightarrow> f x w)"
  "act_res r w = (r, w)" "act_ret x w = (Inr x, w)"
  by (auto simp: act_bind_def act_res_def act_ret_def split: sum.split)

lemma bind_on_db: "act_bind (on_db p f) g w =
    (case (pl_store p w, fst (f (w_db w))) of
       (None, Inr x) \<Rightarrow> g x (w\<lparr>w_db := snd (f (w_db w))\<rparr>)
     | (None, Inl e) \<Rightarrow> (Inl e, w\<lparr>w_db := snd (f (w_db w))\<rparr>)
     | (Some (StatementRejected e), _) \<Rightarrow> (Inl e, w)
     | (Some (StatementLost e), _) \<Rightarrow> (Inl e, w\<lparr>w_db := snd (f (w_db w))\<rparr>))"
  by (simp add: act_bind_def on_db_def Let_def split: prod.split sum.split option.split store_fault.split)

text \<open>Before the claim a run can only fail, and has no effect.\<close>

lemma runScheduler_cases:
  obtains (early) e where "runScheduler p nowMs name source w = (Inl e, w)"
  | (claims) slot st ew src where "canonicalMinuteSlot nowMs = Inr slot"
      "currentMinuteEvaluationWindow slot = Inr ew" "normalizeTriggerSource source = Inr src"
      "runScheduler p nowMs name source w = run_minute p name slot src st ew w"
  by (cases "num_finite nowMs"; cases "iso_of_num nowMs"; cases "canonicalMinuteSlot nowMs";
      cases "currentMinuteEvaluationWindow (projr (canonicalMinuteSlot nowMs))";
      cases "normalizeTriggerSource source")
    (auto simp: runScheduler_def act_simps)

text \<open>A second invocation in a claimed minute changes nothing and sends nothing.\<close>

lemma run_in_claimed_minute:
  assumes "canonicalMinuteSlot nowMs = Inr slot" "(name, slot) \<in> minute_keys (w_db w)"
  shows "snd (runScheduler p nowMs name source w) = w"
    and "fst (runScheduler p nowMs name source w) = Inr r \<Longrightarrow> \<exists>c src. r = AlreadyClaimed c name slot src"
proof -
  have *: "(\<exists>c. run_minute p name slot src st ew w = (Inr (AlreadyClaimed c name slot src), w))
      \<or> (\<exists>e. run_minute p name slot src st ew w = (Inl e, w))" for src st ew
    using claim_taken_minute [OF assms(2), of src st "ew_start ew"]
    by (auto simp: run_minute_def bind_on_db act_simps split: option.split store_fault.split)
  have "snd (runScheduler p nowMs name source w) = w \<and>
      (fst (runScheduler p nowMs name source w) = Inr r \<longrightarrow> (\<exists>c src. r = AlreadyClaimed c name slot src))" for r
  proof (cases rule: runScheduler_cases [of p nowMs name source w])
    case (claims slot' st ew src)
    with assms(1) have "slot' = slot" by simp
    with claims * [of src st ew] show ?thesis by auto
  qed simp
  then show "snd (runScheduler p nowMs name source w) = w"
    and "fst (runScheduler p nowMs name source w) = Inr r \<Longrightarrow> \<exists>c src. r = AlreadyClaimed c name slot src"
    by auto
qed

lemma claimMinute_answers: "\<exists>c. fst (claimMinute run db) = Inr c"
  by (simp add: claimMinute_cases split: option.split)

lemma run_minute_records:
  assumes "\<And>i. grow.keeps (run_claimed p i ew slot)" "fst (run_minute p name slot src st ew w) = Inr r"
  shows "(name, slot) \<in> minute_keys (w_db (snd (run_minute p name slot src st ew w)))"
proof -
  let ?new = "new_run name slot src st (ew_start ew)"
  let ?w = "w\<lparr>w_db := snd (claimMinute ?new (w_db w))\<rparr>"
  obtain c where c: "fst (claimMinute ?new (w_db w)) = Inr c" using claimMinute_answers by blast
  have ok: "pl_store p w = None"
    using assms(2) by (simp add: run_minute_def bind_on_db split: option.splits store_fault.splits)
  have k: "(name, slot) \<in> minute_keys (w_db ?w)" by (simp add: claim_records_minute)
  have "tables_grow ?w (snd (run_claimed p i ew slot ?w))" for i by (rule grow.keepsD [OF assms(1)])
  then have "(name, slot) \<in> minute_keys (w_db (snd (run_claimed p i ew slot ?w)))" for i
    using k by (auto simp: tables_grow_def)
  then show ?thesis
    using c ok k
    by (auto simp: run_minute_def bind_on_db act_simps act_bind_def [of "run_claimed _ _ _ _"]
        split: prod.split sum.split option.split) (metis snd_conv)+
qed

lemma grow_run_claimed: "grow.keeps (run_claimed p i ew slot)"
  unfolding run_claimed_def finish_run_def
  by (intro grow.keeps_catch grow.keeps_bind grow.keeps_ret grow.keeps_res grow.keeps_window
      grow_slot grow_read_clock grow_updates)

lemma run_claims_minute:
  assumes "fst (runScheduler p nowMs name source w) = Inr r"
  shows "\<exists>slot. canonicalMinuteSlot nowMs = Inr slot
    \<and> (name, slot) \<in> minute_keys (w_db (snd (runScheduler p nowMs name source w)))"
  by (rule runScheduler_cases [of p nowMs name source w])
    (use assms run_minute_records [OF grow_run_claimed] in auto)

section \<open>Requests are paid for by claims\<close>

definition one_request :: "'a act \<Rightarrow> bool" where
  "one_request m \<longleftrightarrow> (\<forall>w. length (w_sent (snd (m w))) \<le> Suc (length (w_sent w)) \<and> w_db (snd (m w)) = w_db w)"

lemma one_request_send: "one_request (act_bind (send p rq) (\<lambda>r. act_res (f r)))"
  by (simp add: one_request_def act_bind_def send_def act_res_def)

lemma one_request_res: "one_request (act_res r)"
  by (simp add: one_request_def act_res_def)

lemma one_request_after_res: "(\<And>x. one_request (f x)) \<Longrightarrow> one_request (act_bind (act_res r) f)"
  by (cases r) (simp_all add: one_request_def act_bind_def act_res_def)

text \<open>A target gets at most one request, and dispatching to it leaves the tables alone.\<close>

lemma one_request_target: "one_request (dispatchTarget p t)"
proof (cases t)
  case (GithubWorkflow repo wf ref inputs)
  then show ?thesis
    by (auto simp: dispatchGitHubWorkflow_def Let_def
        intro!: one_request_res one_request_after_res one_request_send split: list.split)
qed (auto simp: dispatchCloudRun_def dispatchWorkerHttp_def Let_def
    intro!: one_request_res one_request_after_res one_request_send)

definition final_status :: "string \<Rightarrow> bool" where
  "final_status st \<longleftrightarrow> st \<in> {''dispatched'', ''failed'', ''dry_run''}"

definition clock_ok :: "platform \<Rightarrow> bool" where
  "clock_ok p \<longleftrightarrow> (\<forall>n. \<bar>pl_now p n\<bar> \<le> MAX_TIME)"

text \<open>A platform on which the clock can be read and every statement answers.\<close>

definition steady :: "platform \<Rightarrow> bool" where
  "steady p \<longleftrightarrow> clock_ok p \<and> (\<forall>w. pl_store p w = None)"

lemma steady_clock: "steady p \<Longrightarrow> \<exists>t. read_clock_iso p w = (Inr t, w\<lparr>w_tick := w_tick w + 1\<rparr>)"
  by (simp add: steady_def clock_ok_def read_clock_iso_def nowIso_def to_iso_res_def del: abs_le_iff)

lemma clock_world: "snd (read_clock_iso p w) = w\<lparr>w_tick := w_tick w + 1\<rparr>"
  by (simp add: read_clock_iso_def)

text \<open>
  Recording an outcome writes the status, or fails; a failure may have written it. It does not
  fail on a steady platform.
\<close>

lemma record_outcome_ends:
  assumes "record_outcome p i st reason a b w = (r, w')"
  shows "w_sent w' = w_sent w"
    and "(\<exists>pa. pa_dispatch_status pa = st \<and> w_db w' = updateDispatch i pa (w_db w)) \<or> isl r \<and> w_db w' = w_db w"
    and "isl r \<Longrightarrow> \<not> steady p"
proof -
  let ?w = "w\<lparr>w_tick := w_tick w + 1\<rparr>"
  have all: "w_sent w' = w_sent w
      \<and> ((\<exists>pa. pa_dispatch_status pa = st \<and> w_db w' = updateDispatch i pa (w_db w)) \<or> isl r \<and> w_db w' = w_db w)
      \<and> (isl r \<longrightarrow> \<not> steady p)"
  proof (cases "fst (read_clock_iso p w)")
    case (Inl e)
    then have "\<not> steady p" using steady_clock [of p w] by auto
    with Inl assms show ?thesis
      by (auto simp: record_outcome_def act_bind_def clock_world split: prod.splits sum.splits
          dest!: arg_cong [where f = snd])
  next
    case (Inr t)
    let ?pa = "\<lparr>pa_dispatched_at = Some t, pa_dispatch_status = st, pa_reason = reason,
        pa_response_status = a, pa_response_preview = b\<rparr>"
    have c: "read_clock_iso p w = (Inr t, ?w)" using Inr clock_world [of p w] by (simp add: prod_eq_iff)
    have e: "record_outcome p i st reason a b w = on_db p (\<lambda>db. (Inr (), updateDispatch i ?pa db)) ?w"
      by (simp add: record_outcome_def act_bind_def c)
    have "\<exists>pa. pa_dispatch_status pa = st \<and> updateDispatch i ?pa (w_db w) = updateDispatch i pa (w_db w)"
      by (rule exI [of _ ?pa]) simp
    then show ?thesis
      using assms unfolding e on_db_def Let_def steady_def
      by (cases "pl_store p ?w") (auto split: store_fault.splits)
  qed
  then show "w_sent w' = w_sent w"
    and "(\<exists>pa. pa_dispatch_status pa = st \<and> w_db w' = updateDispatch i pa (w_db w)) \<or> isl r \<and> w_db w' = w_db w"
    and "isl r \<Longrightarrow> \<not> steady p" by blast+
qed

lemma record_outcome_final:
  assumes "record_outcome p i st reason a b w = (r, w')" "final_status st"
  shows "(\<exists>pa. final_status (pa_dispatch_status pa) \<and> w_db w' = updateDispatch i pa (w_db w)) \<or> isl r \<and> w_db w' = w_db w"
  using record_outcome_ends(2) [OF assms(1)]
proof
  assume "\<exists>pa. pa_dispatch_status pa = st \<and> w_db w' = updateDispatch i pa (w_db w)"
  then obtain pa where "pa_dispatch_status pa = st" "w_db w' = updateDispatch i pa (w_db w)" by blast
  then show ?thesis using assms(2) by (intro disjI1 exI [of _ pa]) simp
qed simp

lemma updateDispatch_twice: "updateDispatch i q (updateDispatch i pa db) = updateDispatch i q db"
  by (simp add: updateDispatch_def patch_dispatch_def)

text \<open>
  What an attempt leaves behind: at most one request, and the row in a final status, or as it was
  if the attempt threw. It throws only when a statement or the clock failed.
\<close>

lemma attempt_dispatch_ends:
  assumes "attempt_dispatch p job i s w = (r, w')"
  shows "length (w_sent w') \<le> Suc (length (w_sent w))"
    and "(\<exists>pa. final_status (pa_dispatch_status pa) \<and> w_db w' = updateDispatch i pa (w_db w)) \<or> isl r \<and> w_db w' = w_db w"
    and "isl r \<Longrightarrow> \<not> steady p"
    and "r = Inr s' \<Longrightarrow> s' = s\<lparr>su_dispatched := su_dispatched s + 1\<rparr> \<or> s' = s\<lparr>su_failed := su_failed s + 1\<rparr>"
proof -
  let ?done = "\<lambda>u. (\<exists>pa. final_status (pa_dispatch_status pa) \<and> w_db u = updateDispatch i pa (w_db w)) \<or> w_db u = w_db w"
  obtain d w1 where d: "dispatchTarget p (job_target job) w = (d, w1)" by force
  have w1: "w_db w1 = w_db w" "length (w_sent w1) \<le> Suc (length (w_sent w))"
    using one_request_target [of p "job_target job"] d by (auto simp: one_request_def dest: spec [of _ w])
  obtain x w2 where x: "(case d of Inl e \<Rightarrow> (Inl e, w1)
      | Inr v \<Rightarrow> act_bind (record_outcome p i (if dr_ok v then ''dispatched'' else ''failed'')
            (if dr_ok v then None else dr_reason v) (Some (dr_response_status v)) (dr_response_preview v)) (\<lambda>_.
          act_ret (if dr_ok v then s\<lparr>su_dispatched := su_dispatched s + 1\<rparr>
                 else s\<lparr>su_failed := su_failed s + 1\<rparr>)) w1) = (x, w2)" by force
  have run: "attempt_dispatch p job i s w = (case x of
      Inl e \<Rightarrow> act_bind (record_outcome p i ''failed'' (Some (error_message e)) None None) (\<lambda>_.
          act_ret (s\<lparr>su_failed := su_failed s + 1\<rparr>)) w2
    | Inr v \<Rightarrow> (Inr v, w2))"
    using d x by (auto simp: attempt_dispatch_def act_catch_def act_bind_def split: sum.splits)
  have first: "length (w_sent w2) \<le> Suc (length (w_sent w)) \<and> ?done w2
      \<and> (\<forall>v. x = Inr v \<longrightarrow> (\<exists>pa. final_status (pa_dispatch_status pa) \<and> w_db w2 = updateDispatch i pa (w_db w))
          \<and> (v = s\<lparr>su_dispatched := su_dispatched s + 1\<rparr> \<or> v = s\<lparr>su_failed := su_failed s + 1\<rparr>))"
  proof (cases d)
    case (Inl e)
    with x w1 show ?thesis by auto
  next
    case (Inr v)
    obtain y w3 where y: "record_outcome p i (if dr_ok v then ''dispatched'' else ''failed'')
        (if dr_ok v then None else dr_reason v) (Some (dr_response_status v)) (dr_response_preview v) w1 = (y, w3)" by force
    note ends = record_outcome_ends [OF y]
    have e: "w2 = w3" "isl x = isl y" using x Inr y by (auto simp: act_bind_def act_ret_def split: sum.splits)
    have "(\<exists>pa. final_status (pa_dispatch_status pa) \<and> w_db w2 = updateDispatch i pa (w_db w)) \<or> isl x \<and> w_db w2 = w_db w"
      unfolding e w1(1) [symmetric] by (rule record_outcome_final [OF y]) (simp add: final_status_def)
    moreover have "length (w_sent w2) \<le> Suc (length (w_sent w))" using ends(1) w1(2) e(1) by simp
    moreover have "x = Inr u \<Longrightarrow> u = (if dr_ok v then s\<lparr>su_dispatched := su_dispatched s + 1\<rparr>
        else s\<lparr>su_failed := su_failed s + 1\<rparr>)" for u
      using x Inr y by (cases y) (simp_all add: act_bind_def act_ret_def)
    ultimately show ?thesis using w1(1) by (cases "dr_ok v") auto
  qed
  have all: "length (w_sent w') \<le> Suc (length (w_sent w))
      \<and> ((\<exists>pa. final_status (pa_dispatch_status pa) \<and> w_db w' = updateDispatch i pa (w_db w)) \<or> isl r \<and> w_db w' = w_db w)
      \<and> (isl r \<longrightarrow> \<not> steady p)
      \<and> (\<forall>u. r = Inr u \<longrightarrow> u = s\<lparr>su_dispatched := su_dispatched s + 1\<rparr> \<or> u = s\<lparr>su_failed := su_failed s + 1\<rparr>)"
  proof (cases x)
    case (Inr v)
    then have e: "r = Inr v" "w' = w2" using run assms by simp_all
    show ?thesis unfolding e using first Inr by simp
  next
    case (Inl e)
    obtain y w3 where y: "record_outcome p i ''failed'' (Some (error_message e)) None None w2 = (y, w3)" by force
    note ends = record_outcome_ends [OF y]
    have r: "w' = w3" "isl r = isl y" "\<forall>u. r = Inr u \<longrightarrow> u = s\<lparr>su_failed := su_failed s + 1\<rparr>"
      using run assms Inl y by (auto simp: act_bind_def act_ret_def split: sum.splits)
    have "(\<exists>pa. final_status (pa_dispatch_status pa) \<and> w_db w3 = updateDispatch i pa (w_db w2)) \<or> isl y \<and> w_db w3 = w_db w2"
      by (rule record_outcome_final [OF y]) (simp add: final_status_def)
    then have "(\<exists>pa. final_status (pa_dispatch_status pa) \<and> w_db w3 = updateDispatch i pa (w_db w)) \<or> isl y \<and> w_db w3 = w_db w"
      using first updateDispatch_twice by metis
    then show ?thesis unfolding r(1,2) using r(3) ends(1,3) first by auto
  qed
  show "length (w_sent w') \<le> Suc (length (w_sent w))" by (rule all [THEN conjunct1])
  show "(\<exists>pa. final_status (pa_dispatch_status pa) \<and> w_db w' = updateDispatch i pa (w_db w)) \<or> isl r \<and> w_db w' = w_db w"
    by (rule all [THEN conjunct2, THEN conjunct1])
  show "isl r \<Longrightarrow> \<not> steady p" by (rule all [THEN conjunct2, THEN conjunct2, THEN conjunct1, THEN mp])
  show "r = Inr s' \<Longrightarrow> s' = s\<lparr>su_dispatched := su_dispatched s + 1\<rparr> \<or> s' = s\<lparr>su_failed := su_failed s + 1\<rparr>"
    by (rule all [THEN conjunct2, THEN conjunct2, THEN conjunct2, rule_format])
qed

lemma claim_wins:
  assumes "db_wf db" "(cl_job_key c, cl_due_at c) \<notin> dispatch_keys db" "cl_job_key c \<in> job_keys db"
  shows "\<exists>db'. claimDispatch c db = (Inr (Some (db_next_dispatch_id db)), db')"
  using assms by (simp add: claimDispatch_cases id_or_null_def db_wf_def)

text \<open>
  The ways a slot can go: it was taken; nothing happened and it threw; it was claimed, and then its
  row has a final status or the slot threw. On a steady platform it throws only for an unknown key.
\<close>

lemma dispatch_slot_cases:
  assumes "db_wf (w_db w)"
  obtains
    (duplicate) w' where "dispatch_slot p job due s w = (Inr s, w')" "w_db w' = w_db w"
      "w_sent w' = w_sent w" "(job_key job, due) \<in> dispatch_keys (w_db w)"
  | (nothing) e w' where "dispatch_slot p job due s w = (Inl e, w')" "w_db w' = w_db w"
      "w_sent w' = w_sent w" "job_key job \<notin> job_keys (w_db w) \<or> \<not> steady p"
  | (granted) i db r w' claimedAt where
      "(job_key job, due) \<notin> dispatch_keys (w_db w)"
      "claimDispatch (claim_of job due claimedAt) (w_db w) = (Inr (Some i), db)"
      "dispatch_slot p job due s w = (r, w')"
      "(\<exists>pa. final_status (pa_dispatch_status pa) \<and> w_db w' = updateDispatch i pa db) \<or> isl r \<and> w_db w' = db"
      "length (w_sent w') \<le> Suc (length (w_sent w))"
      "isl r \<Longrightarrow> \<not> steady p"
      "\<And>s'. r = Inr s' \<Longrightarrow> su_checked s' = su_checked s \<and> su_due s' = su_due s \<and> su_claimed s' = su_claimed s + 1
        \<and> su_dispatched s \<le> su_dispatched s' \<and> su_failed s \<le> su_failed s'
        \<and> su_dispatched s' + su_failed s' \<le> su_dispatched s + su_failed s + 1"
proof (cases "fst (read_clock_iso p w)")
  case (Inl e)
  then have ns: "\<not> steady p" using steady_clock [of p w] by auto
  have ds: "dispatch_slot p job due s w = (Inl e, w\<lparr>w_tick := w_tick w + 1\<rparr>)"
    using Inl clock_world [of p w] by (auto simp: dispatch_slot_def act_bind_def split: prod.splits)
  show ?thesis by (rule that(2) [OF ds]) (use ns in simp_all)
next
  case (Inr t)
  let ?w = "w\<lparr>w_tick := w_tick w + 1\<rparr>"
  have t: "read_clock_iso p w = (Inr t, ?w)" using Inr clock_world [of p w] by (simp add: prod_eq_iff)
  let ?c = "claim_of job due t" and ?s1 = "s\<lparr>su_claimed := su_claimed s + 1\<rparr>"
  have key: "cl_job_key ?c = job_key job" "cl_due_at ?c = due" by (simp_all add: claim_of_def)
  let ?rest = "\<lambda>r. case r of None \<Rightarrow> act_ret s
       | Some i \<Rightarrow>
           let s1 = s\<lparr>su_claimed := su_claimed s + 1\<rparr> in
           if job_dry_run job = 1 then
             act_bind (record_outcome p i ''dry_run'' (Some ''dry_run_enabled'') None None) (\<lambda>_. act_ret s1)
           else attempt_dispatch p job i s1"
  have slot: "dispatch_slot p job due s w = act_bind (on_db p (claimDispatch ?c)) ?rest ?w"
    using t by (simp add: dispatch_slot_def act_bind_def [of "read_clock_iso p"])
  note st = slot [unfolded bind_on_db]
  consider (a) "(job_key job, due) \<in> dispatch_keys (w_db w)" "claimDispatch ?c (w_db w) = (Inr None, w_db w)"
    | (b) e where "job_key job \<notin> job_keys (w_db w)" "claimDispatch ?c (w_db w) = (Inl e, w_db w)"
    | (c) db where "(job_key job, due) \<notin> dispatch_keys (w_db w)"
        "claimDispatch ?c (w_db w) = (Inr (Some (db_next_dispatch_id (w_db w))), db)"
    using claim_wins [OF assms, of ?c] unfolding key
    by (cases "(job_key job, due) \<in> dispatch_keys (w_db w)"; cases "job_key job \<in> job_keys (w_db w)")
      (auto simp: claimDispatch_cases key)
  then show ?thesis
  proof cases
    case a
    show ?thesis
    proof (cases "pl_store p ?w")
      case None
      with st a have ds: "dispatch_slot p job due s w = (Inr s, ?w)" by (simp add: act_simps)
      show ?thesis by (rule duplicate [OF ds]) (use a in simp_all)
    next
      case (Some f)
      with st a obtain e where ds: "dispatch_slot p job due s w = (Inl e, ?w)" by (cases f) simp_all
      show ?thesis by (rule that(2) [OF ds]) (use Some in \<open>auto simp: steady_def\<close>)
    qed
  next
    case b
    with st obtain e where ds: "dispatch_slot p job due s w = (Inl e, ?w)"
      by (auto split: option.splits store_fault.splits)
    show ?thesis by (rule that(2) [OF ds]) (use b in simp_all)
  next
    case c
    let ?i = "db_next_dispatch_id (w_db w)"
    show ?thesis
    proof (cases "pl_store p ?w")
      case (Some f)
      then have n: "\<not> steady p" by (auto simp: steady_def)
      show ?thesis
      proof (cases f)
        case (StatementRejected e)
        with st Some have ds: "dispatch_slot p job due s w = (Inl e, ?w)" by simp
        show ?thesis by (rule that(2) [OF ds]) (use n in simp_all)
      next
        case (StatementLost e)
        with st Some c have ds: "dispatch_slot p job due s w = (Inl e, ?w\<lparr>w_db := db\<rparr>)" by simp
        show ?thesis by (rule granted [OF c ds]) (use n in simp_all)
      qed
    next
      case None
      let ?v = "?w\<lparr>w_db := db\<rparr>"
      have sl: "dispatch_slot p job due s w = (if job_dry_run job = 1
          then act_bind (record_outcome p ?i ''dry_run'' (Some ''dry_run_enabled'') None None) (\<lambda>_. act_ret ?s1)
          else attempt_dispatch p job ?i ?s1) ?v"
        using st None c(2) by simp
      show ?thesis
      proof (cases "job_dry_run job = 1")
        case True
        obtain y w2 where y: "record_outcome p ?i ''dry_run'' (Some ''dry_run_enabled'') None None ?v = (y, w2)" by force
        note ends = record_outcome_ends [OF y]
        have r: "dispatch_slot p job due s w = (case y of Inl e \<Rightarrow> Inl e | Inr _ \<Rightarrow> Inr ?s1, w2)"
          using sl True y by (auto simp: act_bind_def act_ret_def split: sum.splits)
        have fin: "(\<exists>pa. final_status (pa_dispatch_status pa) \<and> w_db w2 = updateDispatch ?i pa db) \<or> isl y \<and> w_db w2 = db"
          using record_outcome_final [OF y] by (simp add: final_status_def)
        have isl: "isl (case y of Inl e \<Rightarrow> Inl e | Inr _ \<Rightarrow> Inr ?s1) = isl y" by (cases y) simp_all
        show ?thesis
          by (rule granted [OF c r]) (use fin ends(1,3) isl in \<open>auto split: sum.splits\<close>)
      next
        case False
        obtain r w2 where a: "attempt_dispatch p job ?i ?s1 ?v = (r, w2)" by force
        note ends = attempt_dispatch_ends [OF a]
        have r: "dispatch_slot p job due s w = (r, w2)" using sl False a by simp
        show ?thesis
          by (rule granted [OF c r]) (use ends in \<open>fastforce+\<close>)
      qed
    qed
  qed
qed

text \<open>
  Requests against rows: over well-formed tables every request sent is paid for by a new dispatch row, and
  at most so many of the rows that are new are left in status claimed.
\<close>

definition left_claimed :: "world \<Rightarrow> world \<Rightarrow> dispatch_row set" where
  "left_claimed w w' = {r \<in> set (db_dispatches (w_db w')). disp_status r = ''claimed'' \<and> r \<notin> set (db_dispatches (w_db w))}"

definition accounted :: "nat \<Rightarrow> world \<Rightarrow> world \<Rightarrow> bool" where
  "accounted k w w' \<longleftrightarrow> (db_wf (w_db w) \<longrightarrow> db_wf (w_db w')
     \<and> length (w_sent w') + length (db_dispatches (w_db w)) \<le> length (w_sent w) + length (db_dispatches (w_db w'))
     \<and> card (left_claimed w w') \<le> k)"

lemma accounted_trans:
  assumes "accounted j u v" "accounted k v w"
  shows "accounted (j + k) u w"
proof -
  have "left_claimed u w \<subseteq> left_claimed u v \<union> left_claimed v w" by (auto simp: left_claimed_def)
  moreover have "finite (left_claimed u v \<union> left_claimed v w)" by (simp add: left_claimed_def)
  ultimately have "card (left_claimed u w) \<le> card (left_claimed u v) + card (left_claimed v w)"
    by (meson card_Un_le card_mono le_trans)
  with assms show ?thesis by (auto simp: accounted_def)
qed

lemma accounted_same:
  "db_dispatches (w_db w') = db_dispatches (w_db w) \<Longrightarrow> w_sent w' = w_sent w \<Longrightarrow>
     (db_wf (w_db w) \<Longrightarrow> db_wf (w_db w')) \<Longrightarrow> accounted k w w'"
  by (auto simp: accounted_def left_claimed_def intro: card_eq_0_iff [THEN iffD2, THEN eq_refl, THEN le_trans])

text \<open>An action that settles its rows, except for so many when it throws.\<close>

definition settles :: "nat \<Rightarrow> 'a act \<Rightarrow> bool" where
  "settles k m \<longleftrightarrow> (\<forall>w. accounted (if isl (fst (m w)) then k else 0) w (snd (m w)))"

lemma settles_bind: "settles k m \<Longrightarrow> (\<And>x. settles k (f x)) \<Longrightarrow> settles k (act_bind m f)"
  unfolding settles_def act_bind_def
proof (intro allI)
  fix w
  assume a: "\<forall>w. accounted (if isl (fst (m w)) then k else 0) w (snd (m w))"
    "\<And>x. \<forall>w. accounted (if isl (fst (f x w)) then k else 0) w (snd (f x w))"
  obtain r w1 where m: "m w = (r, w1)" by force
  show "accounted (if isl (fst (case m w of (Inl e, w1) \<Rightarrow> (Inl e, w1) | (Inr x, w1) \<Rightarrow> f x w1)) then k else 0) w
      (snd (case m w of (Inl e, w1) \<Rightarrow> (Inl e, w1) | (Inr x, w1) \<Rightarrow> f x w1))"
  proof (cases r)
    case (Inl e)
    then show ?thesis using a(1) [rule_format, of w] m by simp
  next
    case (Inr x)
    have "accounted 0 w w1" using a(1) [rule_format, of w] m Inr by simp
    from accounted_trans [OF this a(2) [rule_format, of x w1]] show ?thesis using m Inr by simp
  qed
qed

text \<open>A handler that writes no dispatch row and throws again.\<close>

lemma settles_catch:
  assumes "settles k m" "\<And>e w. isl (fst (h e w)) \<and> accounted 0 w (snd (h e w))"
  shows "settles k (act_catch m h)"
  unfolding settles_def act_catch_def
proof
  fix w
  obtain r w1 where m: "m w = (r, w1)" by force
  have a: "accounted (if isl r then k else 0) w w1" using assms(1) [unfolded settles_def, rule_format, of w] m by simp
  show "accounted (if isl (fst (case m w of (Inl e, w1) \<Rightarrow> h e w1 | (Inr x, w1) \<Rightarrow> (Inr x, w1))) then k else 0) w
      (snd (case m w of (Inl e, w1) \<Rightarrow> h e w1 | (Inr x, w1) \<Rightarrow> (Inr x, w1)))"
  proof (cases r)
    case (Inl e)
    then show ?thesis using accounted_trans [OF a, of 0 "snd (h e w1)"] assms(2) [of e w1] m by simp
  qed (use a m in simp)
qed

lemma settles_quiet: "(\<And>w. accounted 0 w (snd (m w))) \<Longrightarrow> settles k m"
  by (simp add: settles_def accounted_def)

lemma settles_ret: "settles k (act_ret x)" "settles k (act_res r)"
  by (rule settles_quiet, simp add: act_ret_def act_res_def accounted_same)+

lemma settles_fold: "(\<And>x s. settles k (f x s)) \<Longrightarrow> settles k (act_fold f xs s)"
  by (induction xs arbitrary: s) (simp_all add: settles_ret settles_bind)

lemma granted_rows:
  assumes "db_wf db" "claimDispatch c db = (Inr (Some i), db')" "final_status (pa_dispatch_status pa)"
  shows "db_wf (updateDispatch i pa db')"
    and "length (db_dispatches (updateDispatch i pa db')) = Suc (length (db_dispatches db))"
    and "r \<in> set (db_dispatches (updateDispatch i pa db')) \<Longrightarrow> disp_status r = ''claimed'' \<Longrightarrow>
      r \<in> set (db_dispatches db)"
    and "dispatch_keys (updateDispatch i pa db') = insert (cl_job_key c, cl_due_at c) (dispatch_keys db)"
    and "db_wf db'" "length (db_dispatches db') = Suc (length (db_dispatches db))"
    and "\<exists>new. set (db_dispatches db') = insert new (set (db_dispatches db))"
proof -
  show "db_wf (updateDispatch i pa db')"
    using db_wf_claimDispatch [OF assms(1), of c] assms(2) by (simp add: db_wf_updateDispatch)
  have i: "i = db_next_dispatch_id db" "db_dispatches db' = db_dispatches db @
      [\<lparr>disp_id = i, disp_job_key = cl_job_key c, disp_due_at = cl_due_at c,
        disp_claimed_at = cl_claimed_at c, disp_dispatched_at = None,
        disp_target_type = cl_target_type c, disp_dry_run = cl_dry_run c,
        disp_status = ''claimed'', disp_reason = None, disp_response_status = None,
        disp_response_preview = None\<rparr>]"
    using assms(2) unfolding claimDispatch_cases
    by (auto simp: id_or_null_def split: if_splits)
  then show "length (db_dispatches db') = Suc (length (db_dispatches db))"
    and "\<exists>new. set (db_dispatches db') = insert new (set (db_dispatches db))" by auto
  show "db_wf db'" using db_wf_claimDispatch [OF assms(1), of c] assms(2) by simp
  show "length (db_dispatches (updateDispatch i pa db')) = Suc (length (db_dispatches db))"
    by (simp add: updateDispatch_def i(2))
  have old: "patch_dispatch i pa r = r" if "r \<in> set (db_dispatches db)" for r
    using assms(1) that i(1) by (auto simp: patch_dispatch_def db_wf_def)
  have fin: "pa_dispatch_status pa \<noteq> ''claimed''" using assms(3) by (auto simp: final_status_def)
  show "r \<in> set (db_dispatches (updateDispatch i pa db')) \<Longrightarrow> disp_status r = ''claimed'' \<Longrightarrow>
      r \<in> set (db_dispatches db)"
    using old fin by (auto simp: updateDispatch_def i(2) patch_dispatch_def [of i pa "_ :: dispatch_row"])
  show "dispatch_keys (updateDispatch i pa db') = insert (cl_job_key c, cl_due_at c) (dispatch_keys db)"
    unfolding dispatch_keys_frame by (auto simp: dispatch_keys_def i(2))
qed

lemma claim_of_key [simp]: "cl_job_key (claim_of job due t) = job_key job" "cl_due_at (claim_of job due t) = due"
  by (simp_all add: claim_of_def)

text \<open>A slot leaves its row claimed only when it throws, and on a steady platform not even then.\<close>

lemma settles_slot: "settles (if steady p then 0 else 1) (dispatch_slot p job due s)"
  unfolding settles_def
proof
  fix w
  let ?r = "fst (dispatch_slot p job due s w)" and ?w' = "snd (dispatch_slot p job due s w)"
  let ?k = "if isl ?r then if steady p then 0 else 1 else 0 :: nat"
  show "accounted ?k w ?w'"
  proof (cases "db_wf (w_db w)")
    case True
    then show ?thesis
    proof (cases rule: dispatch_slot_cases [where p = p and job = job and due = due and s = s])
      case (granted i db r w' t)
      show ?thesis
      proof (cases "\<exists>pa. final_status (pa_dispatch_status pa) \<and> w_db w' = updateDispatch i pa db")
        case True
        then obtain pa where pa: "final_status (pa_dispatch_status pa)" "w_db w' = updateDispatch i pa db" by blast
        note rows = granted_rows(1-3) [OF \<open>db_wf (w_db w)\<close> granted(2) pa(1)]
        have "left_claimed w w' = {}" using rows(3) pa(2) by (auto simp: left_claimed_def)
        then show ?thesis using granted(3,5) rows(1,2) pa(2) by (simp add: accounted_def)
      next
        case False
        then have r: "isl r" "w_db w' = db" "\<not> steady p" using granted(4,6) by blast+
        obtain pa :: dispatch_patch where "pa_dispatch_status pa = ''failed''" by (meson dispatch_patch.select_convs(2))
        then have "final_status (pa_dispatch_status pa)" by (simp add: final_status_def)
        note rows = granted_rows(5-7) [OF \<open>db_wf (w_db w)\<close> granted(2) this]
        obtain new where "set (db_dispatches db) = insert new (set (db_dispatches (w_db w)))" using rows(3) by blast
        then have "left_claimed w w' \<subseteq> {new}" using r(2) by (auto simp: left_claimed_def)
        then have "card (left_claimed w w') \<le> 1" using card_mono [of "{new}"] by fastforce
        then show ?thesis using granted(3,5) rows(1,2) r by (simp add: accounted_def)
      qed
    qed (simp_all add: accounted_same True)
  qed (simp add: accounted_def)
qed

lemma quiet_on_db:
  assumes "\<And>db. db_dispatches (snd (f db)) = db_dispatches db" "\<And>db. db_wf db \<Longrightarrow> db_wf (snd (f db))"
  shows "accounted 0 w (snd (on_db p f w))"
  using assms by (auto simp: on_db_def Let_def intro!: accounted_same split: option.split store_fault.split)

lemma quiet_statements:
  "accounted 0 w (snd (read_clock_iso p w))"
  "accounted 0 w (snd (on_db p (\<lambda>db. (Inr (), finishRun i q db)) w))"
  "accounted 0 w (snd (on_db p (claimMinute run) w))"
  "accounted 0 w (snd (on_db p (\<lambda>db. (Inr (listEnabledJobs db), db)) w))"
proof -
  show "accounted 0 w (snd (read_clock_iso p w))" by (simp add: clock_world accounted_same)
  show "accounted 0 w (snd (on_db p (\<lambda>db. (Inr (), finishRun i q db)) w))"
    by (rule quiet_on_db) (simp_all add: db_wf_finishRun, simp add: finishRun_def)
  show "accounted 0 w (snd (on_db p (claimMinute run) w))"
    by (rule quiet_on_db) (simp_all add: db_wf_claimMinute, simp add: claimMinute_cases split: option.split)
  show "accounted 0 w (snd (on_db p (\<lambda>db. (Inr (listEnabledJobs db), db)) w))"
    by (rule quiet_on_db) simp_all
qed

lemma quiet_finish: "accounted 0 w (snd (finish_run p i st a b s e w))"
proof -
  obtain t w1 where t: "read_clock_iso p w = (t, w1)" by force
  have "accounted 0 w w1" using quiet_statements(1) [of w p] t by simp
  then show ?thesis
    using accounted_trans [of 0 w w1 0] quiet_statements(2) t
    by (cases t) (simp_all add: finish_run_def act_bind_def)
qed

lemma runScheduler_settles: "settles (if steady p then 0 else 1) (runScheduler p nowMs name source)"
proof -
  define k where "k = (if steady p then 0 else 1 :: nat)"
  have slot: "settles k (dispatch_slot p job due s)" for job due s
    unfolding k_def by (rule settles_slot)
  have job: "settles k (dispatch_job p a b raw s)" for a b raw s
    unfolding dispatch_job_def Let_def
    by (cases "parseSchedulerJobRow (pl_url p) raw"; cases "dueSlotsForJob (projr (parseSchedulerJobRow (pl_url p) raw)) a b")
      (simp_all only: sum.case sum.sel settles_ret settles_fold [OF slot])
  have claimed: "settles k (run_claimed p i ew slot)" for i ew slot
    unfolding run_claimed_def
  proof (rule settles_catch)
    show "settles k (act_bind (on_db p (\<lambda>db. (Inr (listEnabledJobs db), db))) (\<lambda>jobs.
        act_bind (dispatchDueJobsForWindow p jobs (ew_startMs ew) (ew_endMs ew)) (\<lambda>s.
        act_bind (finish_run p i ''finished'' (ew_start ew) slot s None) (\<lambda>_. act_ret s))))"
      unfolding dispatchDueJobsForWindow_def
      by (intro settles_bind settles_fold job settles_ret settles_quiet quiet_statements quiet_finish)
    fix e w
    let ?fin = "finish_run p i ''failed'' (ew_start ew) slot summary_zero (truncatePreview (error_message e) RESPONSE_PREVIEW_LIMIT)"
    obtain r w1 where f: "act_catch ?fin (\<lambda>_. act_ret ()) w = (Inr r, w1)" "accounted 0 w w1"
      using quiet_finish [of w p i "''failed''" "ew_start ew" slot summary_zero "truncatePreview (error_message e) RESPONSE_PREVIEW_LIMIT"]
      by (cases "?fin w"; cases "fst (?fin w)") (auto simp: act_catch_def act_ret_def)
    then show "isl (fst (act_bind (act_catch ?fin (\<lambda>_. act_ret ())) (\<lambda>_. act_res (Inl e)) w))
      \<and> accounted 0 w (snd (act_bind (act_catch ?fin (\<lambda>_. act_ret ())) (\<lambda>_. act_res (Inl e)) w))"
      by (simp add: act_bind_def act_res_def)
  qed
  have minute: "settles k (run_minute p name slot src st ew)" for slot src st ew
    unfolding run_minute_def
    by (rule settles_bind [OF settles_quiet [OF quiet_statements(3)]])
      (simp split: option.split, intro conjI impI allI settles_ret settles_bind claimed)
  show ?thesis
    unfolding runScheduler_def k_def [symmetric]
    by (auto intro!: settles_bind settles_ret minute)
qed

section \<open>Counters, and no due job missed\<close>

lemma act_bind_Inr: "act_bind m f w = (Inr y, w') \<longleftrightarrow>
    (\<exists>x w1. m w = (Inr x, w1) \<and> f x w1 = (Inr y, w'))"
  by (auto simp: act_bind_def split: prod.split sum.split)

lemma act_fold_rest:
  assumes "act_fold f xs s w = (Inr s', w')" "P xs s w"
    and "\<And>x ys s w s1 w1. P (x # ys) s w \<Longrightarrow> f x s w = (Inr s1, w1) \<Longrightarrow> P ys s1 w1"
  shows "P [] s' w'"
  using assms(1,2)
proof (induction xs arbitrary: s w)
  case Nil
  then show ?case by (simp add: act_ret_def)
next
  case (Cons x xs)
  then obtain s1 w1 where "f x s w = (Inr s1, w1)" "act_fold f xs s1 w1 = (Inr s', w')"
    by (auto simp: act_bind_Inr)
  with Cons assms(3) show ?case by blast
qed

definition counts_ok :: "int \<Rightarrow> int \<Rightarrow> run_summary \<Rightarrow> world \<Rightarrow> bool" where
  "counts_ok rows0 ahead s w \<longleftrightarrow> db_wf (w_db w)
     \<and> su_claimed s = int (length (db_dispatches (w_db w))) - rows0
     \<and> 0 \<le> su_dispatched s \<and> su_dispatched s \<le> su_claimed s \<and> su_claimed s + ahead \<le> su_due s"

lemma counts_slot:
  assumes "counts_ok n (a + 1) s w" "dispatch_slot p job due s w = (Inr s1, w1)" "0 \<le> a"
  shows "counts_ok n a s1 w1 \<and> su_checked s1 = su_checked s"
proof -
  from assms(1) have wf: "db_wf (w_db w)" by (simp add: counts_ok_def)
  then show ?thesis
  proof (cases rule: dispatch_slot_cases [where p = p and job = job and due = due and s = s])
    case (granted i db r w' t)
    have eq: "r = Inr s1" "w' = w1" using granted(3) assms(2) by simp_all
    obtain pa where pa: "final_status (pa_dispatch_status pa)" "w_db w1 = updateDispatch i pa db"
      using granted(4) eq by auto
    note rows = granted_rows(1,2) [OF wf granted(2) pa(1)]
    show ?thesis using granted(7) [OF eq(1)] assms(1) rows unfolding counts_ok_def pa(2) by simp
  qed (use assms in \<open>auto simp: counts_ok_def\<close>)
qed

lemma counts_slots:
  assumes "act_fold (dispatch_slot p job) dues s w = (Inr s', w')"
    and "counts_ok n (int (length dues)) s w"
  shows "counts_ok n 0 s' w' \<and> su_checked s' = su_checked s"
proof -
  have "counts_ok n (int (length ([] :: string list))) s' w' \<and> su_checked s' = su_checked s"
  proof (rule act_fold_rest [OF assms(1), where P = "\<lambda>ds u v. counts_ok n (int (length ds)) u v
      \<and> su_checked u = su_checked s"])
    fix d ds u v u1 v1
    assume a: "counts_ok n (int (length (d # ds))) u v \<and> su_checked u = su_checked s"
      and b: "dispatch_slot p job d u v = (Inr u1, v1)"
    from a have "counts_ok n (int (length ds) + 1) u v" by (simp add: add.commute)
    from counts_slot [OF this b] a
    show "counts_ok n (int (length ds)) u1 v1 \<and> su_checked u1 = su_checked s" by simp
  qed (use assms(2) in simp)
  then show ?thesis by simp
qed

lemma counts_job:
  assumes "dispatch_job p a b raw s w = (Inr s', w')" "counts_ok n 0 s w"
  shows "counts_ok n 0 s' w' \<and> su_checked s' = su_checked s + 1"
proof -
  consider (invalid) "w' = w" "s' = s\<lparr>su_checked := su_checked s + 1, su_failed := su_failed s + 1\<rparr>"
    | (slots) job dues where
      "act_fold (dispatch_slot p job) dues (s\<lparr>su_checked := su_checked s + 1,
         su_due := su_due s + int (length dues)\<rparr>) w = (Inr s', w')"
    using assms(1)
    by (auto simp: dispatch_job_def Let_def act_ret_def split: sum.splits)
  then show ?thesis
  proof cases
    case invalid
    with assms(2) show ?thesis by (simp add: counts_ok_def)
  next
    case slots
    have "counts_ok n (int (length dues)) (s\<lparr>su_checked := su_checked s + 1,
         su_due := su_due s + int (length dues)\<rparr>) w"
      using assms(2) by (simp add: counts_ok_def)
    from counts_slots [OF slots this] show ?thesis by simp
  qed
qed

lemma counts_window:
  assumes "db_wf (w_db w)" "dispatchDueJobsForWindow p jobs a b w = (Inr s', w')"
  shows "counts_ok (int (length (db_dispatches (w_db w)))) 0 s' w'" "su_checked s' = int (length jobs)"
proof -
  let ?n = "int (length (db_dispatches (w_db w)))"
  have "counts_ok ?n 0 s' w' \<and> su_checked s' + int (length ([] :: jsval list)) = int (length jobs)"
    by (rule act_fold_rest [OF assms(2) [unfolded dispatchDueJobsForWindow_def],
        where P = "\<lambda>js u v. counts_ok ?n 0 u v \<and> su_checked u + int (length js) = int (length jobs)"])
      (use assms(1) counts_job in \<open>fastforce simp: counts_ok_def summary_zero_def\<close>)+
  then show "counts_ok ?n 0 s' w'" "su_checked s' = int (length jobs)" by auto
qed

text \<open>Every slot that is due is claimed, by this run or an earlier one.\<close>

lemma slot_claimed:
  assumes "db_wf (w_db w)" "dispatch_slot p job due s w = (Inr s1, w1)"
  shows "(job_key job, due) \<in> dispatch_keys (w_db w1)"
  using assms(1)
proof (cases rule: dispatch_slot_cases [where p = p and job = job and due = due and s = s])
  case (granted i db r w' t)
  have eq: "r = Inr s1" "w' = w1" using granted(3) assms(2) by simp_all
  obtain pa where pa: "final_status (pa_dispatch_status pa)" "w_db w1 = updateDispatch i pa db"
    using granted(4) eq by auto
  from granted_rows(4) [OF assms(1) granted(2) pa(1)] show ?thesis using pa(2) by simp
qed (use assms in auto)

lemma slots_claimed:
  assumes "db_wf (w_db w)" "act_fold (dispatch_slot p job) dues s w = (Inr s1, w1)"
    and "d \<in> set dues"
  shows "(job_key job, d) \<in> dispatch_keys (w_db w1)"
  using assms
proof (induction dues arbitrary: s w)
  case (Cons due dues)
  then obtain s2 w2 where s: "dispatch_slot p job due s w = (Inr s2, w2)"
      "act_fold (dispatch_slot p job) dues s2 w2 = (Inr s1, w1)"
    by (auto simp: act_bind_Inr)
  have g: "tables_grow w w2" "tables_grow w2 w1"
    using grow.keepsD [OF grow_slot, of w p job due s] s
      grow.keepsD [OF grow.keeps_fold [of "dispatch_slot p job", OF grow_slot], of w2 dues s2] by simp_all
  show ?case
    using slot_claimed [OF Cons.prems(1) s(1)] g Cons.IH [OF _ s(2)] Cons.prems
    by (auto simp: tables_grow_def)
qed simp

lemma jobs_claimed:
  assumes "db_wf (w_db w)" "act_fold (dispatch_job p a b) jobs s w = (Inr s1, w1)"
    and "raw \<in> set jobs" "parseSchedulerJobRow (pl_url p) raw = Inr job"
    and "dueSlotsForJob job a b = Inr dues" "d \<in> set dues"
  shows "(job_key job, d) \<in> dispatch_keys (w_db w1)"
  using assms(1-3)
proof (induction jobs arbitrary: s w)
  case (Cons j jobs)
  then obtain s2 w2 where s: "dispatch_job p a b j s w = (Inr s2, w2)"
      "act_fold (dispatch_job p a b) jobs s2 w2 = (Inr s1, w1)"
    by (auto simp: act_bind_Inr)
  have g: "tables_grow w w2" "tables_grow w2 w1"
    using grow.keepsD [OF grow.keeps_dispatch_job [OF grow_slot], of w p a b j s] s
      grow.keepsD [OF grow.keeps_fold [of "dispatch_job p a b", OF grow.keeps_dispatch_job [OF grow_slot]],
        of w2 jobs s2] by simp_all
  show ?case
  proof (cases "j = raw")
    case True
    with s(1) assms(4,5) obtain s0 where
      "act_fold (dispatch_slot p job) dues s0 w = (Inr s2, w2)"
      by (auto simp: dispatch_job_def Let_def)
    from slots_claimed [OF Cons.prems(1) this assms(6)] g show ?thesis
      by (auto simp: tables_grow_def)
  next
    case False
    with Cons g s(2) show ?thesis by (auto simp: tables_grow_def)
  qed
qed simp

text \<open>Put together for a run of the minute m, whatever statements fail.\<close>

lemma on_db_Inr: "on_db p f w = (Inr x, w') \<longleftrightarrow> pl_store p w = None \<and> fst (f (w_db w)) = Inr x \<and> w' = w\<lparr>w_db := snd (f (w_db w))\<rparr>"
  by (auto simp: on_db_def Let_def split: option.split store_fault.split)

lemma run_dispatches_due_jobs:
  assumes wf: "db_wf (w_db w)"
    and time: "common_time t" "common_time (minute_floor t - MINUTE_MS)"
    and run: "runScheduler p (Fin (of_int t)) name source w = (Inr (Triggered i nm st ew slot src s), w')"
    and raw: "raw \<in> set (listEnabledJobs (w_db w))" "parseSchedulerJobRow (pl_url p) raw = Inr job"
    and cron: "parseCronExpression (job_cron_expr job) = Inr c" "cronMatchesDate c (minute_floor t)"
  shows "(job_key job, to_iso (minute_floor t)) \<in> dispatch_keys (w_db w')"
proof -
  let ?m = "minute_floor t"
  have m: "common_time ?m" using time minute_floor_bounds [of t]
    by (auto simp: common_time_def MINUTE_MS_def)
  have slot: "canonicalMinuteSlot (Fin (of_int t)) = Inr (to_iso ?m)"
    by (rule canonicalMinuteSlot_int [OF common_time_range [OF time(1)]])
  show ?thesis
  proof (cases rule: runScheduler_cases [of p "Fin (of_int t)" name source w])
    case (early e)
    with run show ?thesis by simp
  next
    case (claims slot' st' ew' src')
    have s: "slot' = to_iso ?m" "ew_startMs ew' = ?m - MINUTE_MS" "ew_endMs ew' = ?m"
      using claims(1,2) slot window_of_slot [OF m time(2)] by auto
    let ?db = "snd (claimMinute (new_run name slot' src' st' (ew_start ew')) (w_db w))"
    have c: "run_claimed p i ew' slot' (w\<lparr>w_db := ?db\<rparr>) = (Inr s, w')"
      using run claims(4)
      by (auto simp: run_minute_def act_simps act_bind_Inr on_db_Inr split: if_splits option.splits)
    have w1: "db_wf ?db" "listEnabledJobs ?db = listEnabledJobs (w_db w)"
      using db_wf_claimMinute [OF wf] by (simp_all add: listEnabledJobs_def)
    obtain w2 where d: "dispatchDueJobsForWindow p (listEnabledJobs (w_db w)) (?m - MINUTE_MS) ?m (w\<lparr>w_db := ?db\<rparr>) = (Inr s, w2)"
      "finish_run p i ''finished'' (ew_start ew') slot' s None w2 = (Inr (), w')"
      using c w1(2) s(2,3)
      by (auto simp: run_claimed_def act_catch_def act_bind_Inr on_db_Inr act_simps act_bind_def [of "act_catch _ _"]
          split: prod.splits sum.splits)
    have "(job_key job, to_iso ?m) \<in> dispatch_keys (w_db w2)"
      using jobs_claimed [OF _ d(1) [unfolded dispatchDueJobsForWindow_def] raw]
        due_slots_of_minute [OF minute_floor_dvd m cron(1)] cron(2) w1(1) by auto
    moreover have "tables_grow w2 w'"
      using grow.keepsD [of "finish_run p i ''finished'' (ew_start ew') slot' s None" w2] d(2)
      by (auto simp: finish_run_def intro!: grow.keeps_bind grow_read_clock grow_updates)
    ultimately show ?thesis by (auto simp: tables_grow_def)
  qed
qed

section \<open>Redaction\<close>

lemma take_before_mark:
  assumes "c \<notin> set sub"
  shows "take (length sub) (x @ c # y) = sub \<longleftrightarrow> take (length sub) x = sub"
proof (cases "length sub \<le> length x")
  case False
  then have "c \<in> set (take (length sub) (x @ c # y))"
    by (cases "length sub - length x") (auto simp: take_Cons')
  moreover have "take (length sub) x \<noteq> sub"
    using False by (metis length_take min.absorb1 nat_le_linear)
  ultimately show ?thesis using assms by metis
qed simp

lemma includes_at_mark:
  assumes "c \<notin> set sub" "sub \<noteq> []"
  shows "js_includes (x @ c # y) sub \<longleftrightarrow> js_includes x sub \<or> js_includes y sub"
proof (induction x)
  case Nil
  then show ?case using assms take_before_mark [OF assms(1), of "[]" y] by simp
next
  case (Cons a x)
  then show ?case using take_before_mark [OF assms(1), of "a # x" y] by simp
qed

lemma split_on_acc:
  "split_on sep (acc @ acc0) s = (rev acc0 @ hd (split_on sep acc s)) # tl (split_on sep acc s)"
  by (induction sep acc s rule: split_on.induct) auto

lemma split_on_ne [simp]: "split_on sep acc s \<noteq> []"
  by (induction sep acc s rule: split_on.induct) auto

lemma split_on_hd_prefix: "\<exists>r. rev acc @ s = hd (split_on sep acc s) @ r"
proof (induction sep acc s rule: split_on.induct)
  case (2 sep acc c s)
  then show ?case
    by (cases "sep \<noteq> [] \<and> take (length sep) (c # s) = sep") auto
qed simp

text \<open>No piece between two occurrences holds another one.\<close>

lemma split_on_pieces:
  assumes "sep \<noteq> []" "piece \<in> set (split_on sep [] s)"
  shows "\<not> js_includes piece sep"
  using assms(2)
proof (induction s arbitrary: piece rule: length_induct)
  case (1 s)
  show ?case
  proof (cases s)
    case Nil
    with 1(2) assms(1) show ?thesis by simp
  next
    case (Cons c t)
    show ?thesis
    proof (cases "take (length sep) (c # t) = sep")
      case True
      then have "piece = [] \<or> piece \<in> set (split_on sep [] (drop (length sep - 1) t))"
        using 1(2) Cons assms(1) by simp
      then show ?thesis
        using 1(1) [rule_format, of "drop (length sep - 1) t"] Cons assms(1) by auto
    next
      case False
      let ?ps = "split_on sep [] t"
      have ps: "split_on sep [] s = (c # hd ?ps) # tl ?ps"
        using split_on_acc [of sep "[]" "[c]" t] False Cons assms(1) by auto
      have ne: "?ps \<noteq> []" by simp
      have IH: "q \<in> set ?ps \<Longrightarrow> \<not> js_includes q sep" for q
        using 1(1) Cons by auto
      obtain r where r: "t = hd ?ps @ r" using split_on_hd_prefix [of "[]" t sep] by auto
      have "take (length sep) (c # hd ?ps) \<noteq> sep"
      proof
        assume a: "take (length sep) (c # hd ?ps) = sep"
        then have "length sep \<le> length (c # hd ?ps)" by (metis length_take min.cobounded2 nat_le_linear min.absorb1)
        then have "take (length sep) (c # t) = take (length sep) (c # hd ?ps)"
          by (subst r) (cases "length sep"; simp)
        with a False show False by simp
      qed
      moreover have "\<not> js_includes (hd ?ps) sep" using IH ne by simp
      moreover have "q \<in> set (tl ?ps) \<Longrightarrow> \<not> js_includes q sep" for q
        using IH by (meson list.set_sel(2) ne)
      ultimately show ?thesis using 1(2) ps by auto
    qed
  qed
qed

lemma js_includes_empty: "sub \<noteq> [] \<Longrightarrow> \<not> js_includes [] sub"
  by simp

lemma join_redacted:
  assumes "secret \<noteq> []" "CHR ''['' \<notin> set secret" "CHR '']'' \<notin> set secret"
    "\<not> js_includes ''REDACTED'' secret" "\<forall>q \<in> set ps. \<not> js_includes q secret"
  shows "\<not> js_includes (js_join ''[REDACTED]'' ps) secret"
  using assms(5)
proof (induction ps)
  case (Cons q ps)
  show ?case
  proof (cases ps)
    case (Cons q' ps')
    have j: "js_join ''[REDACTED]'' (q # ps) =
        q @ CHR ''['' # (''REDACTED'' @ CHR '']'' # js_join ''[REDACTED]'' ps)"
      using Cons by simp
    show ?thesis
      unfolding j includes_at_mark [OF assms(2,1)] includes_at_mark [OF assms(3,1)]
      using Cons.IH Cons.prems assms(4) by auto
  qed (use Cons.prems in auto)
qed (use assms(1) in auto)

lemma redact_hides:
  assumes "secret \<noteq> []" "CHR ''['' \<notin> set secret" "CHR '']'' \<notin> set secret"
    "\<not> js_includes ''REDACTED'' secret"
  shows "\<not> js_includes (redact secret t) secret"
  unfolding redact_def by (intro join_redacted assms) (auto dest: split_on_pieces [OF assms(1)])

section \<open>What a parsed row guarantees\<close>

text \<open>The target has what its dispatch needs, and the flags are flags.\<close>

fun target_ready :: "(string \<Rightarrow> (string \<times> string) option) \<Rightarrow> job_target \<Rightarrow> bool" where
  "target_ready url (GithubWorkflow repo file ref inputs) \<longleftrightarrow>
     repo \<noteq> [] \<and> file \<noteq> [] \<and> ref \<noteq> [] \<and> isPlainObject inputs"
| "target_ready url (CloudRun u m headers body) \<longleftrightarrow>
     u \<noteq> [] \<and> m \<noteq> [] \<and> isPlainObject headers \<and> body \<noteq> Null"
| "target_ready url (WorkerHttp u b body) \<longleftrightarrow>
     (\<exists>host. url u = Some (''https:'', host) \<and> host \<noteq> []) \<and> secret_binding_pattern b \<and> isPlainObject body"

lemma parse_target_ready:
  "parse_target url row k ty = Inr t \<Longrightarrow> target_ready url t"
  by (auto simp: parse_target_def Let_def job_error_def or_default_def parseJsonObject_def parseJsonBody_def
      normalizeWorkerHttpUrl_def normalizeWorkerHttpSecretBinding_def res_simps
      split: if_splits option.splits)

lemma parseSchedulerJobRow_ready:
  assumes "parseSchedulerJobRow url row = Inr job"
  shows "job_key job = trimText (jget row ''job_key'')" "job_key job \<noteq> []"
    "job_enabled_flag job \<in> {0, 1}" "job_dry_run job \<in> {0, 1}"
    "job_timezone job \<in> {''UTC'', ''Etc/UTC''}" "job_cron_expr job \<noteq> []"
    "target_ready url (job_target job)"
  using assms parse_target_ready [of url row "trimText (jget row ''job_key'')"]
  by (auto simp: parseSchedulerJobRow_def Let_def parseBinaryFlag_def normalizeTimezone_def job_error_def
      res_simps split: if_splits)

section \<open>On a steady platform a run returns\<close>

text \<open>An action that returns from a world of kind K, and ends in one.\<close>

definition returns :: "(world \<Rightarrow> bool) \<Rightarrow> 'a act \<Rightarrow> bool" where
  "returns K m \<longleftrightarrow> (\<forall>w. K w \<longrightarrow> (\<exists>x w'. m w = (Inr x, w') \<and> K w'))"

lemma returns_ret: "returns K (act_ret x)"
  by (simp add: returns_def act_ret_def)

lemma returns_bind: "returns K m \<Longrightarrow> (\<And>x. returns K (f x)) \<Longrightarrow> returns K (act_bind m f)"
  unfolding returns_def act_bind_def by fastforce

lemma returns_catch: "returns K m \<Longrightarrow> returns K (act_catch m h)"
  unfolding returns_def act_catch_def by fastforce

lemma returns_fold: "(\<And>x s. x \<in> set xs \<Longrightarrow> returns K (f x s)) \<Longrightarrow> returns K (act_fold f xs s)"
  by (induction xs arbitrary: s) (simp_all add: returns_ret returns_bind)

text \<open>The worlds of a run: well-formed tables with the jobs the run found.\<close>

definition with_jobs :: "jsval list \<Rightarrow> world \<Rightarrow> bool" where
  "with_jobs js w \<longleftrightarrow> db_wf (w_db w) \<and> db_jobs (w_db w) = js"

lemma with_jobs_grows: "grow.keeps m \<Longrightarrow> with_jobs js w \<Longrightarrow> with_jobs js (snd (m w))"
  using grow.keepsD [of m w] by (simp add: with_jobs_def tables_grow_def)

lemma returns_grows:
  assumes "grow.keeps m" "\<And>w. with_jobs js w \<Longrightarrow> \<exists>x. fst (m w) = Inr x"
  shows "returns (with_jobs js) m"
  using assms(2) with_jobs_grows [OF assms(1)] by (force simp: returns_def prod_eq_iff)

text \<open>No stored key has blanks around it.\<close>

definition keys_trimmed :: "sched_db \<Rightarrow> bool" where
  "keys_trimmed db \<longleftrightarrow> (\<forall>row \<in> set (db_jobs db). trimText (jget row ''job_key'') = js_string (jget row ''job_key''))"

lemma returns_clock: "steady p \<Longrightarrow> returns (with_jobs js) (read_clock_iso p)"
  by (rule returns_grows [OF grow_read_clock]) (use steady_clock in \<open>metis fst_conv\<close>)

lemma returns_update:
  assumes "steady p" "grow.keeps (on_db p (\<lambda>db. (Inr (), f db)))"
  shows "returns (with_jobs js) (on_db p (\<lambda>db. (Inr (), f db)))"
  by (rule returns_grows [OF assms(2)]) (use assms(1) in \<open>simp add: on_db_def steady_def\<close>)

lemma returns_finish: "steady p \<Longrightarrow> returns (with_jobs js) (finish_run p i st a b s e)"
  unfolding finish_run_def by (intro returns_bind returns_clock returns_update grow_updates)

lemma returns_slot:
  assumes "steady p" "job_key job \<in> (\<lambda>row. js_string (jget row ''job_key'')) ` set js"
  shows "returns (with_jobs js) (dispatch_slot p job due s)"
proof (rule returns_grows [OF grow_slot])
  fix w
  assume w: "with_jobs js w"
  then have wf: "db_wf (w_db w)" and key: "job_key job \<in> job_keys (w_db w)"
    using assms(2) by (simp_all add: with_jobs_def job_keys_def)
  from wf show "\<exists>x. fst (dispatch_slot p job due s w) = Inr x"
  proof (cases rule: dispatch_slot_cases [where p = p and job = job and due = due and s = s])
    case (granted i db r w' claimedAt)
    then show ?thesis using assms(1) by (cases r) auto
  qed (use key assms(1) in auto)
qed

lemma returns_job:
  assumes "steady p" "raw \<in> set js" "trimText (jget raw ''job_key'') = js_string (jget raw ''job_key'')"
  shows "returns (with_jobs js) (dispatch_job p a b raw s)"
proof -
  have "returns (with_jobs js) (dispatch_slot p job due s)"
    if "parseSchedulerJobRow (pl_url p) raw = Inr job" for job due s
    by (rule returns_slot [OF assms(1)]) (use parseSchedulerJobRow_ready(1) [OF that] assms(2,3) in simp)
  then show ?thesis
    by (simp add: dispatch_job_def Let_def returns_ret returns_fold split: sum.split)
qed

lemma returns_claimed:
  assumes "steady p" "\<forall>row \<in> set js. trimText (jget row ''job_key'') = js_string (jget row ''job_key'')"
  shows "returns (with_jobs js) (run_claimed p i ew slot)"
proof -
  let ?found = "listEnabledJobs \<lparr>db_jobs = js, db_runs = [], db_dispatches = [], db_next_run_id = 0, db_next_dispatch_id = 0\<rparr>"
  have rows: "row \<in> set js" if "row \<in> set ?found" for row
    using that by (auto simp: listEnabledJobs_def)
  have win: "returns (with_jobs js) (dispatchDueJobsForWindow p ?found a b)" for a b
    unfolding dispatchDueJobsForWindow_def
    by (rule returns_fold, rule returns_job [OF assms(1)]) (use rows assms(2) in auto)
  have rest: "returns (with_jobs js) (act_bind (dispatchDueJobsForWindow p ?found a b) (\<lambda>s.
      act_bind (finish_run p i ''finished'' c slot s None) (\<lambda>_. act_ret s)))" for a b c
    by (intro returns_bind win returns_finish assms(1) returns_ret)
  show ?thesis
    unfolding run_claimed_def
  proof (rule returns_catch, unfold returns_def, intro allI impI)
    fix w
    assume w: "with_jobs js w"
    then have "listEnabledJobs (w_db w) = ?found" by (simp add: with_jobs_def listEnabledJobs_def)
    then have found: "act_bind (on_db p (\<lambda>db. (Inr (listEnabledJobs db), db))) f w = f ?found w" for f :: "jsval list \<Rightarrow> 'b act"
      using assms(1) by (simp add: bind_on_db steady_def)
    show "\<exists>x w'. act_bind (on_db p (\<lambda>db. (Inr (listEnabledJobs db), db))) (\<lambda>jobs.
          act_bind (dispatchDueJobsForWindow p jobs (ew_startMs ew) (ew_endMs ew)) (\<lambda>s.
          act_bind (finish_run p i ''finished'' (ew_start ew) slot s None) (\<lambda>_. act_ret s))) w = (Inr x, w')
      \<and> with_jobs js w'"
      unfolding found by (rule rest [unfolded returns_def, rule_format, OF w])
  qed
qed

text \<open>The claim of a free minute is granted.\<close>

lemma claim_free_minute:
  assumes "db_wf db" "(name, slot) \<notin> minute_keys db"
  shows "\<exists>c. claimMinute (new_run name slot src st a) db = (Inr c, snd (claimMinute (new_run name slot src st a) db))
    \<and> mc_claimed c \<and> mc_scheduler_run_id c = Some (db_next_run_id db)"
proof -
  have "List.find (\<lambda>r. run_scheduler_name r = name \<and> run_minute_slot r = Some slot) (db_runs db) = None"
    using assms(2) by (auto simp: find_None_iff minute_keys_def)
  then show ?thesis using assms(1) by (simp add: claimMinute_cases new_run_def id_or_null_def db_wf_def)
qed

lemma steady_run_returns:
  assumes "steady p" "db_wf (w_db w)" "keys_trimmed (w_db w)" "normalizeTriggerSource source = Inr src"
    and time: "common_time t" "common_time (minute_floor t - MINUTE_MS)"
    and free: "(name, to_iso (minute_floor t)) \<notin> minute_keys (w_db w)"
  shows "\<exists>r. fst (runScheduler p (Fin (of_int t)) name source w) = Inr r \<and> triggered r"
proof -
  let ?m = "minute_floor t"
  have m: "common_time ?m" using time minute_floor_bounds [of t]
    by (auto simp: common_time_def MINUTE_MS_def)
  have slot: "canonicalMinuteSlot (Fin (of_int t)) = Inr (to_iso ?m)"
    by (rule canonicalMinuteSlot_int [OF common_time_range [OF time(1)]])
  have "rat_trunc (of_int t) = t" by (simp add: rat_trunc_def)
  then obtain st where st: "iso_of_num (Fin (of_int t)) = Inr st"
    using common_time_range [OF time(1)] by (simp add: iso_of_num_def to_iso_res_def del: abs_le_iff)
  obtain ew where ew: "currentMinuteEvaluationWindow (to_iso ?m) = Inr ew"
    using window_of_slot [OF m time(2)] by blast
  have run: "runScheduler p (Fin (of_int t)) name source w = run_minute p name (to_iso ?m) src st ew w"
    using slot st ew assms(4) by (simp add: runScheduler_def act_simps)
  let ?new = "new_run name (to_iso ?m) src st (ew_start ew)"
  let ?w = "w\<lparr>w_db := snd (claimMinute ?new (w_db w))\<rparr>"
  obtain c where c: "fst (claimMinute ?new (w_db w)) = Inr c" "mc_claimed c" "mc_scheduler_run_id c = Some (db_next_run_id (w_db w))"
    using claim_free_minute [OF assms(2) free, of src st "ew_start ew"] by (metis fst_conv)
  have mid: "run_minute p name (to_iso ?m) src st ew w = act_bind (run_claimed p (db_next_run_id (w_db w)) ew (to_iso ?m))
      (\<lambda>s. act_ret (Triggered (db_next_run_id (w_db w)) name st ew (to_iso ?m) src s)) ?w"
    using c assms(1) by (simp add: run_minute_def bind_on_db steady_def)
  have "with_jobs (db_jobs (w_db w)) ?w"
    using db_wf_claimMinute [OF assms(2)] by (simp add: with_jobs_def)
  then obtain u w' where "run_claimed p (db_next_run_id (w_db w)) ew (to_iso ?m) ?w = (Inr u, w')"
    using returns_claimed [OF assms(1) assms(3) [unfolded keys_trimmed_def]] unfolding returns_def by metis
  then show ?thesis
    unfolding run mid act_bind_def by (simp add: act_ret_def)
qed

section \<open>The HTTP handler\<close>

text \<open>Without the right secret a request has no effect.\<close>

lemma fetch_unauthorised:
  assumes "in_path rq \<noteq> ''/run-if-due'' \<or> in_method rq \<noteq> ''POST''
    \<or> \<not> hasValidSchedulerTriggerSecret p (in_trigger_header rq)"
  shows "snd (handle_fetch p rq w) = w"
    and "fst (handle_fetch p rq w) = Inr resp \<Longrightarrow> in_path rq = ''/run-if-due'' \<Longrightarrow> hr_status resp \<in> {401, 405}"
  using assms by (auto simp: handle_fetch_def respond_def act_ret_def split: if_splits)

lemma boundedText_ne: "boundedText v n = s \<Longrightarrow> s \<noteq> [] \<Longrightarrow> s = trimText v \<and> length s \<le> n"
  by (auto simp: boundedText_def Let_def split: if_splits)

lemma trigger_secret_exact:
  assumes "hasValidSchedulerTriggerSecret p h"
  shows "\<exists>t. h = Some t \<and> js_trim t = js_trim (readSecret (pl_env p ''UK_AQ_SCHEDULER_TRIGGER_SECRET''))
    \<and> js_trim t \<noteq> [] \<and> length (js_trim t) \<le> 512"
proof (cases h)
  case None
  have "js_trim [] = []" by (simp add: js_trim_def)
  then have "boundedText Null 512 = []"
    by (simp add: boundedText_def trimText_def str_coalesce_def js_coalesce_def is_nullish_def)
  with assms None show ?thesis by (simp add: hasValidSchedulerTriggerSecret_def)
next
  case (Some t)
  let ?e = "readSecret (pl_env p ''UK_AQ_SCHEDULER_TRIGGER_SECRET'')"
  have a: "boundedText (JStr t) 512 \<noteq> []" "boundedText (JStr t) 512 = boundedText (JStr ?e) 512"
    using assms Some unfolding hasValidSchedulerTriggerSecret_def Let_def by simp_all
  have "boundedText (JStr t) 512 = js_trim t \<and> length (js_trim t) \<le> 512"
    using boundedText_ne [OF refl a(1)] by (auto simp: trimText_def)
  moreover have "boundedText (JStr ?e) 512 = js_trim ?e"
    using boundedText_ne [OF refl a(1) [unfolded a(2)]] by (simp add: trimText_def)
  ultimately show ?thesis using a Some by simp
qed

end
