(* ===== verification/SchedulerConcurrent.thy ===== *)
theory SchedulerConcurrent
  imports SchedulerWorker
begin

text \<open>
  Several invocations of the scheduler at once (two workers whose minutes overlap,
  the watchdog beside the cron trigger, a job that two scheduler names share). A
  step is one statement on the tables or one dispatch to a target, the grain at
  which \<open>dispatchDueJobsForWindow\<close> of cloudflare/scheduler/worker.mjs awaits; a
  runner may stop at any point. The log records the slots for which a target was
  contacted, in order.
\<close>

datatype runner =
    Pending "(sched_job \<times> string) list"
  | Holding int sched_job string "(sched_job \<times> string) list"
  | Answered int dispatch_patch "(sched_job \<times> string) list"

type_synonym slot_key = "string \<times> string"
type_synonym csys = "sched_db \<times> runner list \<times> slot_key list"

inductive cstep :: "csys \<Rightarrow> csys \<Rightarrow> bool" where
  win: "i < length rs \<Longrightarrow> rs ! i = Pending ((job, due) # rest)
    \<Longrightarrow> claimDispatch (claim_of job due t) db = (Inr (Some n), db')
    \<Longrightarrow> cstep (db, rs, l) (db', rs[i := Holding n job due rest], l)"
| lose: "i < length rs \<Longrightarrow> rs ! i = Pending ((job, due) # rest)
    \<Longrightarrow> claimDispatch (claim_of job due t) db = (Inr None, db')
    \<Longrightarrow> cstep (db, rs, l) (db', rs[i := Pending rest], l)"
| dry_run: "i < length rs \<Longrightarrow> rs ! i = Holding n job due rest \<Longrightarrow> job_dry_run job = 1
    \<Longrightarrow> pa_dispatch_status pa = ''dry_run''
    \<Longrightarrow> cstep (db, rs, l) (updateDispatch n pa db, rs[i := Pending rest], l)"
| contact: "i < length rs \<Longrightarrow> rs ! i = Holding n job due rest \<Longrightarrow> job_dry_run job \<noteq> 1
    \<Longrightarrow> pa_dispatch_status pa \<in> {''dispatched'', ''failed''}
    \<Longrightarrow> cstep (db, rs, l) (db, rs[i := Answered n pa rest], l @ [(job_key job, due)])"
| note_outcome: "i < length rs \<Longrightarrow> rs ! i = Answered n pa rest
    \<Longrightarrow> cstep (db, rs, l) (updateDispatch n pa db, rs[i := Pending rest], l)"
| stop: "i < length rs \<Longrightarrow> cstep (db, rs, l) (db, rs[i := Pending []], l)"

fun held :: "runner \<Rightarrow> slot_key option" where
  "held (Holding n job due rest) = Some (job_key job, due)"
| "held _ = None"

text \<open>
  The invariant, relative to the slots taken at the start: slots contacted or held
  are claimed since, no slot was contacted twice, none is held that was contacted,
  and no two runners hold the same slot.
\<close>

definition holds :: "runner list \<Rightarrow> nat \<Rightarrow> slot_key option" where
  "holds rs i = (if i < length rs then held (rs ! i) else None)"

lemma holds_update: "i < length rs \<Longrightarrow> holds (rs[i := r]) = (holds rs)(i := held r)"
  by (rule ext) (simp add: holds_def nth_list_update)

definition keys_inv :: "'k set \<Rightarrow> 'k set \<Rightarrow> 'k list \<Rightarrow> (nat \<Rightarrow> 'k option) \<Rightarrow> bool" where
  "keys_inv K D l h \<longleftrightarrow> K \<subseteq> D \<and> distinct l \<and> set l \<subseteq> D - K
     \<and> (\<forall>i k. h i = Some k \<longrightarrow> k \<in> D - K - set l)
     \<and> (\<forall>i j k. h i = Some k \<longrightarrow> h j = Some k \<longrightarrow> i = j)"

definition slots_inv :: "slot_key set \<Rightarrow> csys \<Rightarrow> bool" where
  "slots_inv K s \<longleftrightarrow> (case s of (db, rs, l) \<Rightarrow>
     db_wf db \<and> keys_inv K (dispatch_keys db) l (holds rs))"

lemma keys_inv_free: "keys_inv K D l h \<Longrightarrow> D \<subseteq> D' \<Longrightarrow> keys_inv K D' l (h(i := None))"
  by (auto simp: keys_inv_def split: if_splits)

lemma keys_inv_hold:
  assumes "keys_inv K D l h" "k \<notin> D"
  shows "keys_inv K (insert k D) l (h(i := Some k))"
proof -
  have "h j \<noteq> Some k" for j using assms unfolding keys_inv_def by blast
  then show ?thesis using assms by (auto simp: keys_inv_def split: if_splits)
qed

lemma keys_inv_contact:
  assumes "keys_inv K D l h" "h i = Some k"
  shows "keys_inv K D (l @ [k]) (h(i := None))"
proof -
  have "k \<in> D - K - set l" "\<And>j. h j = Some k \<Longrightarrow> j = i"
    using assms unfolding keys_inv_def by blast+
  then show ?thesis using assms by (auto simp: keys_inv_def split: if_splits)
qed

lemma slots_inv_free:
  assumes "slots_inv K (db, rs, l)" "db_wf db'" "dispatch_keys db \<subseteq> dispatch_keys db'"
    "held r = None" "i < length rs"
  shows "slots_inv K (db', rs[i := r], l)"
  using assms keys_inv_free [of K "dispatch_keys db" l "holds rs" "dispatch_keys db'" i]
  by (simp add: slots_inv_def holds_update)

lemma slots_inv_hold:
  assumes "slots_inv K (db, rs, l)" "db_wf db'" "dispatch_keys db' = insert k (dispatch_keys db)"
    "k \<notin> dispatch_keys db" "held r = Some k" "i < length rs"
  shows "slots_inv K (db', rs[i := r], l)"
  using assms by (simp add: slots_inv_def holds_update keys_inv_hold)

lemma slots_inv_contact:
  assumes "slots_inv K (db, rs, l)" "held (rs ! i) = Some k" "held r = None" "i < length rs"
  shows "slots_inv K (db, rs[i := r], l @ [k])"
  using assms keys_inv_contact [of K "dispatch_keys db" l "holds rs" i k]
  by (simp add: slots_inv_def holds_update) (simp add: holds_def)

lemma claim_won_key:
  "db_wf db \<Longrightarrow> claimDispatch c db = (Inr (Some n), db') \<Longrightarrow>
     (cl_job_key c, cl_due_at c) \<notin> dispatch_keys db
     \<and> dispatch_keys db' = insert (cl_job_key c, cl_due_at c) (dispatch_keys db)"
  unfolding claimDispatch_cases by (auto simp: dispatch_keys_def split: if_splits)

lemma slots_inv_step:
  assumes "cstep s s'" "slots_inv K s"
  shows "slots_inv K s'"
proof -
  have wf: "db_wf db" if "slots_inv K (db, rs, l)" for db rs l
    using that by (simp add: slots_inv_def)
  show ?thesis
    using assms
  proof (induction rule: cstep.induct)
    case (win i rs job due rest t db n db' l)
    have "db_wf db'"
      using db_wf_claimDispatch [OF wf [OF win(4)], of "claim_of job due t"] win(3) by simp
    with win(1,4) claim_won_key [OF wf [OF win(4)] win(3)] show ?case
      by (intro slots_inv_hold [of K db rs l db' "(job_key job, due)"]) simp_all
  next
    case (lose i rs job due rest t db db' l)
    have "db_wf db'" "dispatch_keys db \<subseteq> dispatch_keys db'"
      using db_wf_claimDispatch [OF wf [OF lose(4)], of "claim_of job due t"]
        claimDispatch_frame(3) [of db "claim_of job due t"] lose(3) by simp_all
    with lose(1,4) show ?case by (intro slots_inv_free [of K db]) simp_all
  next
    case (contact i rs n job due rest pa db l)
    then show ?case by (intro slots_inv_contact) simp_all
  next
    case (dry_run i rs n job due rest pa db l)
    then show ?case using wf [OF dry_run(5)]
      by (intro slots_inv_free [of K db]) (simp_all add: db_wf_updateDispatch)
  next
    case (note_outcome i rs n pa rest db l)
    then show ?case using wf [OF note_outcome(3)]
      by (intro slots_inv_free [of K db]) (simp_all add: db_wf_updateDispatch)
  next
    case (stop i rs db l)
    then show ?case using wf [OF stop(2)] by (intro slots_inv_free [of K db]) simp_all
  qed
qed

lemma slots_inv_reachable: "rtranclp cstep s s' \<Longrightarrow> slots_inv K s \<Longrightarrow> slots_inv K s'"
  by (induction rule: rtranclp_induct) (auto intro: slots_inv_step)

text \<open>Whatever the interleaving, and with any number of runners, a slot is contacted at most once.\<close>

lemma contacted_at_most_once:
  assumes "db_wf db" "\<forall>r \<in> set rs. held r = None" "rtranclp cstep (db, rs, []) (db', rs', l)"
  shows "distinct l \<and> set l \<subseteq> dispatch_keys db' - dispatch_keys db"
proof -
  have "slots_inv (dispatch_keys db) (db, rs, [])"
    using assms(1,2) by (auto simp: slots_inv_def keys_inv_def holds_def)
  from slots_inv_reachable [OF assms(3) this] show ?thesis by (simp add: slots_inv_def keys_inv_def)
qed

end
