(* ===== verification/AqiLevels.thy ===== *)
theory AqiLevels
  imports JsValue
begin

text \<open>
  lib/aqi/aqi_levels.mjs: from source observations to hourly means, the hourly grid
  of the particulate series, rolling 24 hour means, the DAQI and EAQI index levels,
  and the merging of calculated and stored rows. Rows that enter are JSON values;
  between the stages they are records. A time given as a number may lie outside the
  range of dates, where the source throws; that is the error of the results.
\<close>

section \<open>Tables\<close>

definition HOUR_MS :: int where "HOUR_MS = 3600000"

datatype pollutant = NO2 | PM25 | PM10

fun pollutant_code :: "pollutant \<Rightarrow> string" where
  "pollutant_code NO2 = ''no2''"
| "pollutant_code PM25 = ''pm25''"
| "pollutant_code PM10 = ''pm10''"

definition AQI_ALGORITHM_VERSION :: string where
  "AQI_ALGORITHM_VERSION = ''aqilevels_hourly_v2''"

definition AQI_CALCULATION_STATUSES :: "string list" where
  "AQI_CALCULATION_STATUSES = [''ok'', ''insufficient_samples'', ''missing_input'', ''unsupported_pollutant'']"

definition AQI_AVERAGING_CODES :: "string list" where
  "AQI_AVERAGING_CODES = [''hourly_mean'', ''rolling_24h_mean'']"

definition DAQI_PM_ROLLING24H_WINDOW_HOURS :: int where "DAQI_PM_ROLLING24H_WINDOW_HOURS = 24"
definition DAQI_PM_ROLLING24H_REQUIRED_HOURS :: int where "DAQI_PM_ROLLING24H_REQUIRED_HOURS = 18"

record breakpoint =
  bp_low :: int
  bp_high :: "int option"
  bp_level :: int

definition bp :: "int \<Rightarrow> int option \<Rightarrow> int \<Rightarrow> breakpoint" where
  "bp l h v = \<lparr>bp_low = l, bp_high = h, bp_level = v\<rparr>"

definition DAQI_NO2_BREAKPOINTS :: "breakpoint list" where
  "DAQI_NO2_BREAKPOINTS = [bp 0 (Some 67) 1, bp 67 (Some 134) 2, bp 134 (Some 200) 3,
     bp 200 (Some 267) 4, bp 267 (Some 334) 5, bp 334 (Some 400) 6, bp 400 (Some 467) 7,
     bp 467 (Some 534) 8, bp 534 (Some 600) 9, bp 600 None 10]"

definition DAQI_PM25_ROLLING24H_BREAKPOINTS :: "breakpoint list" where
  "DAQI_PM25_ROLLING24H_BREAKPOINTS = [bp 0 (Some 11) 1, bp 11 (Some 23) 2, bp 23 (Some 35) 3,
     bp 35 (Some 41) 4, bp 41 (Some 47) 5, bp 47 (Some 53) 6, bp 53 (Some 58) 7,
     bp 58 (Some 64) 8, bp 64 (Some 70) 9, bp 70 None 10]"

definition DAQI_PM10_ROLLING24H_BREAKPOINTS :: "breakpoint list" where
  "DAQI_PM10_ROLLING24H_BREAKPOINTS = [bp 0 (Some 16) 1, bp 16 (Some 33) 2, bp 33 (Some 50) 3,
     bp 50 (Some 58) 4, bp 58 (Some 66) 5, bp 66 (Some 75) 6, bp 75 (Some 83) 7,
     bp 83 (Some 91) 8, bp 91 (Some 100) 9, bp 100 None 10]"

definition EAQI_NO2_BREAKPOINTS :: "breakpoint list" where
  "EAQI_NO2_BREAKPOINTS = [bp 0 (Some 10) 1, bp 10 (Some 25) 2, bp 25 (Some 60) 3,
     bp 60 (Some 100) 4, bp 100 (Some 150) 5, bp 150 None 6]"

definition EAQI_PM25_BREAKPOINTS :: "breakpoint list" where
  "EAQI_PM25_BREAKPOINTS = [bp 0 (Some 5) 1, bp 5 (Some 15) 2, bp 15 (Some 50) 3,
     bp 50 (Some 90) 4, bp 90 (Some 140) 5, bp 140 None 6]"

definition EAQI_PM10_BREAKPOINTS :: "breakpoint list" where
  "EAQI_PM10_BREAKPOINTS = [bp 0 (Some 15) 1, bp 15 (Some 45) 2, bp 45 (Some 120) 3,
     bp 120 (Some 195) 4, bp 195 (Some 270) 5, bp 270 None 6]"

section \<open>Reading values\<close>

definition is_alnum_lower :: "char \<Rightarrow> bool" where
  "is_alnum_lower c \<longleftrightarrow> is_digit c \<or> 97 \<le> char_code c \<and> char_code c \<le> 122"

definition normalizePollutantCode :: "jsval \<Rightarrow> pollutant option" where
  "normalizePollutantCode value =
     (let compact = filter is_alnum_lower (js_lower (js_trim (str_or_empty value))) in
      if compact \<in> {''ino2'', ''no2''} then Some NO2
      else if compact \<in> {''ipm25'', ''pm25'', ''pm2''} then Some PM25
      else if compact \<in> {''ipm10'', ''pm10''} then Some PM10
      else None)"

definition normalizeAqiCalculationStatus :: "jsval \<Rightarrow> string option" where
  "normalizeAqiCalculationStatus value =
     (let s = js_lower (js_trim (str_or_empty value)) in
      if s \<in> set AQI_CALCULATION_STATUSES then Some s else None)"

definition normalizeAqiAveragingCode :: "jsval \<Rightarrow> string option" where
  "normalizeAqiAveragingCode value =
     (let s = js_lower (js_trim (str_or_empty value)) in
      if s \<in> set AQI_AVERAGING_CODES then Some s else None)"

fun find_level :: "jsnum \<Rightarrow> breakpoint list \<Rightarrow> int option" where
  "find_level value [] = None"
| "find_level value (b # bs) =
     (case bp_high b of
        None \<Rightarrow> Some (bp_level b)
      | Some h \<Rightarrow> if num_le value (Fin (of_int h)) then Some (bp_level b) else find_level value bs)"

definition lookupAqiIndexLevel :: "jsnum option \<Rightarrow> breakpoint list \<Rightarrow> int option" where
  "lookupAqiIndexLevel value breakpoints =
     (case value of
        None \<Rightarrow> None
      | Some v \<Rightarrow>
          if \<not> num_finite v \<or> breakpoints = [] then None
          else if num_lt v (Fin (of_int (bp_low (hd breakpoints)))) then None
          else find_level v breakpoints)"

definition normalizeIsoTimestamp :: "jsval \<Rightarrow> string option res" where
  "normalizeIsoTimestamp raw =
     (case raw of
        JDate None \<Rightarrow> Inr None
      | JDate (Some t) \<Rightarrow> res_map Some (to_iso_res t)
      | JNum n \<Rightarrow> (case n of Fin x \<Rightarrow> res_map Some (to_iso_res (rat_trunc x)) | _ \<Rightarrow> Inr None)
      | _ \<Rightarrow> let t = js_trim (str_or_empty raw) in
          if t = [] then Inr None else Inr (map_option to_iso (date_parse t)))"

text \<open>The start of the hour a time stamp that has been normalised lies in.\<close>

definition hour_of_iso :: "string \<Rightarrow> string option" where
  "hour_of_iso s = map_option (\<lambda>t. to_iso (t div HOUR_MS * HOUR_MS)) (date_parse s)"

lemma hour_of_iso_code [code]:
  "hour_of_iso s = (case date_parse s of None \<Rightarrow> None | Some t \<Rightarrow> Some (to_iso (t div HOUR_MS * HOUR_MS)))"
  by (simp add: hour_of_iso_def split: option.splits)

definition parseIsoHour :: "jsval \<Rightarrow> string option res" where
  "parseIsoHour raw = res_map (\<lambda>n. case n of None \<Rightarrow> None | Some s \<Rightarrow> hour_of_iso s) (normalizeIsoTimestamp raw)"

definition finite_or_none :: "jsnum \<Rightarrow> jsnum option" where
  "finite_or_none n = (if num_finite n then Some n else None)"

definition toNumberOrNull :: "jsval \<Rightarrow> jsnum option" where
  "toNumberOrNull value =
     (if is_nullish value \<or> value = JStr [] then None else finite_or_none (js_number value))"

definition toPositiveIntOrNull :: "jsval \<Rightarrow> int option" where
  "toPositiveIntOrNull value = positive_int_of (js_number value)"

definition average :: "jsnum list \<Rightarrow> jsnum option" where
  "average values =
     (if values = [] then None
      else Some (num_div (foldl num_add (Fin 0) values) (Fin (of_nat (length values)))))"

definition utcDayStartIso :: "string \<Rightarrow> string" where
  "utcDayStartIso dayUtc = dayUtc @ ''T00:00:00.000Z''"

definition utcDayEndIso :: "string \<Rightarrow> string res" where
  "utcDayEndIso dayUtc =
     (case date_parse (utcDayStartIso dayUtc) of
        None \<Rightarrow> Inl RangeError | Some t \<Rightarrow> to_iso_res (t + MS_DAY))"

fun daqiAveragingCodeForPollutant :: "pollutant \<Rightarrow> string" where
  "daqiAveragingCodeForPollutant NO2 = ''hourly_mean''"
| "daqiAveragingCodeForPollutant _ = ''rolling_24h_mean''"

section \<open>Source observations to hourly rows\<close>

record source_obs =
  so_timeseries_id :: int
  so_station_id :: int
  so_connector_id :: "int option"
  so_pollutant :: pollutant
  so_observed_at :: string
  so_value :: jsnum
  so_status :: "string option"

definition bar :: string where "bar = ''|''"

definition or_else :: "'a option res \<Rightarrow> 'a option res \<Rightarrow> 'a option res" where
  "or_else a b = res_bind a (\<lambda>x. case x of None \<Rightarrow> b | Some y \<Rightarrow> Inr (Some y))"

definition read_source_row :: "jsval \<Rightarrow> source_obs option res" where
  "read_source_row row =
     res_map (\<lambda>observedAt.
       case (toPositiveIntOrNull (jget row ''timeseries_id''), toPositiveIntOrNull (jget row ''station_id''),
             normalizePollutantCode (jget row ''pollutant_code''), observedAt,
             toNumberOrNull (jget row ''value'')) of
         (Some ts, Some st, Some pol, Some tm, Some v) \<Rightarrow>
           if num_lt v (Fin 0) then None
           else Some \<lparr>so_timeseries_id = ts, so_station_id = st,
             so_connector_id = toPositiveIntOrNull (jget row ''connector_id''), so_pollutant = pol,
             so_observed_at = tm, so_value = v,
             so_status = (if is_nullish (jget row ''status'') then None
                          else Some (js_string (jget row ''status'')))\<rparr>
       | _ \<Rightarrow> None)
     (or_else (normalizeIsoTimestamp (jget row ''observed_at''))
        (normalizeIsoTimestamp (jget row ''observed_at_utc'')))"

definition obs_key :: "source_obs \<Rightarrow> string" where
  "obs_key o1 = int_str (so_timeseries_id o1) @ bar @ so_observed_at o1"

definition dedupeSourceObservationRows :: "jsval list \<Rightarrow> source_obs list res" where
  "dedupeSourceObservationRows rows =
     res_map (\<lambda>m. sort_key (\<lambda>o1. (so_timeseries_id o1, collation_key (so_observed_at o1))) (jm_values m))
       (res_fold (\<lambda>row m. res_map (\<lambda>r. case r of None \<Rightarrow> m | Some o1 \<Rightarrow> jm_set (obs_key o1) o1 m)
          (read_source_row row)) rows jm_empty)"

record narrow_row =
  nr_timeseries_id :: int
  nr_station_id :: int
  nr_connector_id :: "int option"
  nr_pollutant :: pollutant
  nr_hour :: string
  nr_mean :: jsnum
  nr_count :: int

record hour_sum =
  hs_first :: source_obs
  hs_hour :: string
  hs_sum :: jsnum
  hs_count :: int

definition add_to_hour :: "source_obs \<Rightarrow> (string, hour_sum) jsmap \<Rightarrow> (string, hour_sum) jsmap" where
  "add_to_hour o1 m =
     (case hour_of_iso (so_observed_at o1) of
        None \<Rightarrow> m
      | Some hour \<Rightarrow>
          (let key = int_str (so_timeseries_id o1) @ bar @ hour;
               cur = (case jm_get m key of Some c \<Rightarrow> c
                      | None \<Rightarrow> \<lparr>hs_first = o1, hs_hour = hour, hs_sum = Fin 0, hs_count = 0\<rparr>)
           in jm_set key (cur\<lparr>hs_sum := num_add (hs_sum cur) (so_value o1), hs_count := hs_count cur + 1\<rparr>) m))"

definition narrow_of_sum :: "hour_sum \<Rightarrow> narrow_row" where
  "narrow_of_sum h =
     \<lparr>nr_timeseries_id = so_timeseries_id (hs_first h), nr_station_id = so_station_id (hs_first h),
      nr_connector_id = so_connector_id (hs_first h), nr_pollutant = so_pollutant (hs_first h),
      nr_hour = hs_hour h, nr_mean = num_div (hs_sum h) (Fin (of_int (hs_count h))), nr_count = hs_count h\<rparr>"

definition sourceObservationsToNarrowRows :: "jsval list \<Rightarrow> narrow_row list res" where
  "sourceObservationsToNarrowRows rows =
     res_map (\<lambda>obs. sort_key (\<lambda>r. (collation_key (nr_hour r), nr_timeseries_id r))
         (List.map narrow_of_sum (jm_values (fold add_to_hour obs jm_empty))))
       (dedupeSourceObservationRows rows)"

text \<open>The key of an hourly row: time series, pollutant and hour.\<close>

definition hourly_key :: "int \<Rightarrow> pollutant \<Rightarrow> string \<Rightarrow> string" where
  "hourly_key ts pol hour = int_str ts @ bar @ pollutant_code pol @ bar @ hour"

definition canonicalAqiHourlyKey :: "jsval \<Rightarrow> string option res" where
  "canonicalAqiHourlyKey row =
     res_map (\<lambda>hour. case (toPositiveIntOrNull (jget row ''timeseries_id''),
         normalizePollutantCode (jget row ''pollutant_code''), hour) of
         (Some ts, Some pol, Some h) \<Rightarrow> Some (hourly_key ts pol h) | _ \<Rightarrow> None)
       (parseIsoHour (jget row ''timestamp_hour_utc''))"

text \<open>The same key of a row that has been normalised.\<close>

definition narrow_key :: "narrow_row \<Rightarrow> string" where
  "narrow_key r = (case hour_of_iso (nr_hour r) of
     None \<Rightarrow> [] | Some h \<Rightarrow> hourly_key (nr_timeseries_id r) (nr_pollutant r) h)"

definition read_hourly_row :: "jsval \<Rightarrow> narrow_row option res" where
  "read_hourly_row row =
     res_map (\<lambda>hour.
       case (toPositiveIntOrNull (jget row ''timeseries_id''), toPositiveIntOrNull (jget row ''station_id''),
             normalizePollutantCode (jget row ''pollutant_code''), hour,
             toNumberOrNull (jget row ''hourly_mean_ugm3''), toPositiveIntOrNull (jget row ''sample_count'')) of
         (Some ts, Some st, Some pol, Some h, Some v, Some n) \<Rightarrow>
           if num_lt v (Fin 0) then None
           else Some \<lparr>nr_timeseries_id = ts, nr_station_id = st,
             nr_connector_id = toPositiveIntOrNull (jget row ''connector_id''), nr_pollutant = pol,
             nr_hour = h, nr_mean = v, nr_count = n\<rparr>
       | _ \<Rightarrow> None)
     (parseIsoHour (jget row ''timestamp_hour_utc''))"

definition keep_some :: "'a option list \<Rightarrow> 'a list" where
  "keep_some xs = List.map the (filter (\<lambda>x. x \<noteq> None) xs)"

definition normalizeAqiHourlyNarrowRows :: "jsval list \<Rightarrow> narrow_row list res" where
  "normalizeAqiHourlyNarrowRows rows =
     res_map (\<lambda>rs. sort_key (\<lambda>r. collation_key (narrow_key r)) (keep_some rs)) (res_mapM read_hourly_row rows)"

definition put_narrow :: "narrow_row \<Rightarrow> (string, narrow_row) jsmap \<Rightarrow> (string, narrow_row) jsmap" where
  "put_narrow r m = (if narrow_key r = [] then m else jm_set (narrow_key r) r m)"

definition mergeAqiHourlyRowsPreferTargetDay :: "jsval list \<Rightarrow> jsval list \<Rightarrow> narrow_row list res" where
  "mergeAqiHourlyRowsPreferTargetDay contextRows targetDayRows =
     res_bind (normalizeAqiHourlyNarrowRows contextRows) (\<lambda>ctx.
     res_map (\<lambda>day. sort_key (\<lambda>r. collation_key (narrow_key r))
         (jm_values (fold put_narrow day (fold put_narrow ctx jm_empty))))
       (normalizeAqiHourlyNarrowRows targetDayRows))"

section \<open>Helper rows: the hourly grid and the rolling means\<close>

record helper_row =
  hp_timeseries_id :: int
  hp_station_id :: int
  hp_connector_id :: "int option"
  hp_pollutant :: pollutant
  hp_hour :: string
  hp_no2 :: "jsnum option"
  hp_pm25 :: "jsnum option"
  hp_pm10 :: "jsnum option"
  hp_pm25_roll :: "jsnum option"
  hp_pm10_roll :: "jsnum option"
  hp_pm25_count :: "int option"
  hp_pm10_count :: "int option"
  hp_sample_count :: "int option"
  hp_synthetic :: bool

definition sortHelperRows :: "helper_row list \<Rightarrow> helper_row list" where
  "sortHelperRows rows = sort_key (\<lambda>r. (hp_hour r, hp_timeseries_id r)) rows"

definition group_by_timeseries :: "helper_row list \<Rightarrow> (int, helper_row list) jsmap" where
  "group_by_timeseries rows =
     fold (\<lambda>r m. jm_set (hp_timeseries_id r)
       ((case jm_get m (hp_timeseries_id r) of None \<Rightarrow> [] | Some l \<Rightarrow> l) @ [r]) m) rows jm_empty"

definition synthetic_row :: "helper_row \<Rightarrow> string \<Rightarrow> helper_row" where
  "synthetic_row template hour =
     \<lparr>hp_timeseries_id = hp_timeseries_id template, hp_station_id = hp_station_id template,
      hp_connector_id = hp_connector_id template, hp_pollutant = hp_pollutant template,
      hp_hour = hour, hp_no2 = None, hp_pm25 = None, hp_pm10 = None, hp_pm25_roll = None,
      hp_pm10_roll = None, hp_pm25_count = None, hp_pm10_count = None, hp_sample_count = None,
      hp_synthetic = True\<rparr>"

function hour_grid :: "int \<Rightarrow> int \<Rightarrow> int list" where
  "hour_grid cursor endExclusive =
     (if cursor < endExclusive then cursor # hour_grid (cursor + HOUR_MS) endExclusive else [])"
  by pat_completeness auto
termination
  by (relation "measure (\<lambda>(c, e). nat (e - c))") (auto simp: HOUR_MS_def)

declare hour_grid.simps [simp del]

definition expand_series :: "helper_row list \<Rightarrow> helper_row list" where
  "expand_series rows0 =
     (let rows = sortHelperRows rows0 in
      case rows of
        [] \<Rightarrow> []
      | template # _ \<Rightarrow>
          if hp_pollutant template = NO2 then rows
          else
            let rowsByHour = fold (\<lambda>r. jm_set (hp_hour r) r) rows jm_empty
            in (case (date_parse (hp_hour template), date_parse (hp_hour (last rows))) of
                  (Some startMs, Some lastMs) \<Rightarrow>
                    List.map (\<lambda>cursor. case jm_get rowsByHour (to_iso cursor) of
                        Some existing \<Rightarrow> existing\<lparr>hp_synthetic := False\<rparr>
                      | None \<Rightarrow> synthetic_row template (to_iso cursor))
                      (hour_grid startMs (lastMs + HOUR_MS))
                | _ \<Rightarrow> []))"

definition expandPmHelperRowsToHourlyGrid :: "helper_row list \<Rightarrow> helper_row list" where
  "expandPmHelperRowsToHourlyGrid rows =
     sortHelperRows (List.concat (List.map expand_series (jm_values (group_by_timeseries rows))))"

definition diff_hours_24 :: "string \<Rightarrow> string \<Rightarrow> bool" where
  \<comment> \<open>\<open>Math.trunc((currentTs - previousTs) / HOUR_MS) >= 24\<close>; comparisons with NaN fail\<close>
  "diff_hours_24 cur prev =
     (case (date_parse cur, date_parse prev) of
        (Some a, Some b) \<Rightarrow> DAQI_PM_ROLLING24H_WINDOW_HOURS \<le> (a - b) div HOUR_MS
      | _ \<Rightarrow> False)"

text \<open>The rows of the series from the current one back, while they are less than a day old.\<close>

definition rolling_rows :: "(nat \<times> helper_row) list \<Rightarrow> nat \<times> helper_row \<Rightarrow> helper_row list" where
  "rolling_rows indexed cur =
     (let series = sort_key (\<lambda>(i, r). (hp_hour r, hp_timeseries_id r))
            (filter (\<lambda>(i, r). hp_timeseries_id r = hp_timeseries_id (snd cur)) indexed);
          upto = takeWhile (\<lambda>(i, r). i \<noteq> fst cur) series @ [cur]
      in List.map snd (takeWhile (\<lambda>(i, r). \<not> diff_hours_24 (hp_hour (snd cur)) (hp_hour r)) (rev upto)))"

definition length_or_null :: "'a list \<Rightarrow> int option" where
  "length_or_null xs = (if xs = [] then None else Some (int (length xs)))"

definition with_rolling :: "helper_row list \<Rightarrow> helper_row \<Rightarrow> helper_row" where
  "with_rolling prevs r =
     (let pm25Values = keep_some (List.map hp_pm25 prevs); pm10Values = keep_some (List.map hp_pm10 prevs)
      in r\<lparr>hp_pm25_roll := average pm25Values, hp_pm10_roll := average pm10Values,
           hp_pm25_count := length_or_null pm25Values, hp_pm10_count := length_or_null pm10Values\<rparr>)"

definition computeRolling24h :: "helper_row list \<Rightarrow> helper_row list" where
  "computeRolling24h helperRows =
     (let indexed = List.enumerate 0 helperRows
      in List.map (\<lambda>(i, r). with_rolling (rolling_rows indexed (i, r)) r) indexed)"

definition new_helper :: "narrow_row \<Rightarrow> string \<Rightarrow> helper_row" where
  "new_helper row hour =
     \<lparr>hp_timeseries_id = nr_timeseries_id row, hp_station_id = nr_station_id row,
      hp_connector_id = nr_connector_id row, hp_pollutant = nr_pollutant row, hp_hour = hour,
      hp_no2 = None, hp_pm25 = None, hp_pm10 = None, hp_pm25_roll = None, hp_pm10_roll = None,
      hp_pm25_count = None, hp_pm10_count = None, hp_sample_count = None, hp_synthetic = False\<rparr>"

fun set_mean :: "pollutant \<Rightarrow> jsnum option \<Rightarrow> helper_row \<Rightarrow> helper_row" where
  "set_mean NO2 v r = r\<lparr>hp_no2 := v\<rparr>"
| "set_mean PM25 v r = r\<lparr>hp_pm25 := v\<rparr>"
| "set_mean PM10 v r = r\<lparr>hp_pm10 := v\<rparr>"

definition pivot_row :: "narrow_row \<Rightarrow> (string, helper_row) jsmap \<Rightarrow> (string, helper_row) jsmap" where
  "pivot_row row m =
     (case hour_of_iso (nr_hour row) of
        None \<Rightarrow> m
      | Some hour \<Rightarrow>
          (let key = int_str (nr_timeseries_id row) @ bar @ hour;
               cur = (case jm_get m key of Some c \<Rightarrow> c | None \<Rightarrow> new_helper row hour)
           in jm_set key ((set_mean (nr_pollutant row) (finite_or_none (nr_mean row)) cur)
                \<lparr>hp_sample_count := Some (nr_count row)\<rparr>) m))"

definition pivotNarrowRowsToHelperRows :: "narrow_row list \<Rightarrow> helper_row list" where
  "pivotNarrowRowsToHelperRows narrowRows =
     computeRolling24h (expandPmHelperRowsToHourlyGrid
       (sortHelperRows (jm_values (fold pivot_row narrowRows jm_empty))))"

definition narrowRowsToDayRange :: "helper_row list \<Rightarrow> string \<Rightarrow> helper_row list res" where
  "narrowRowsToDayRange helperRows dayUtc =
     res_map (\<lambda>end'. sortHelperRows
         (filter (\<lambda>r. utcDayStartIso dayUtc \<le> hp_hour r \<and> hp_hour r < end') helperRows))
       (utcDayEndIso dayUtc)"

section \<open>Index levels\<close>

definition calculationStatus :: "jsnum option \<Rightarrow> int option \<Rightarrow> int \<Rightarrow> string \<times> string option" where
  "calculationStatus inputValue sourceCount requiredCount =
     (case inputValue of
        None \<Rightarrow> (''missing_input'', Some ''no_input_value'')
      | Some v \<Rightarrow>
          if \<not> num_finite v then (''missing_input'', Some ''no_input_value'')
          else if 1 < requiredCount \<and> (case sourceCount of None \<Rightarrow> 0 | Some n \<Rightarrow> n) < requiredCount
          then (''insufficient_samples'', Some ''insufficient_rolling_24h_hours'')
          else (''ok'', None))"

record aqi_row =
  aq_connector_id :: "int option"
  aq_station_id :: "int option"
  aq_timeseries_id :: "int option"
  aq_pollutant :: pollutant
  aq_hour :: "string option"
  aq_daqi_input :: "jsnum option"
  aq_daqi_averaging :: string
  aq_daqi_level :: "int option"
  aq_daqi_source_count :: "int option"
  aq_daqi_required_count :: int
  aq_daqi_status :: string
  aq_daqi_missing_reason :: "string option"
  aq_eaqi_input :: "jsnum option"
  aq_eaqi_averaging :: string
  aq_eaqi_level :: "int option"
  aq_eaqi_source_count :: "int option"
  aq_eaqi_required_count :: int
  aq_eaqi_status :: string
  aq_eaqi_missing_reason :: "string option"
  aq_hourly_sample_count :: "int option"
  aq_algorithm_version :: string
  aq_computed_at :: "string option"
  aq_hourly_mean :: "jsnum option"
  aq_rolling24h_mean :: "jsnum option"
  aq_no2_hourly_mean :: "jsnum option"
  aq_pm25_hourly_mean :: "jsnum option"
  aq_pm10_hourly_mean :: "jsnum option"
  aq_pm25_rolling24h_mean :: "jsnum option"
  aq_pm10_rolling24h_mean :: "jsnum option"
  aq_daqi_no2_level :: "int option"
  aq_daqi_pm25_level :: "int option"
  aq_daqi_pm10_level :: "int option"
  aq_eaqi_no2_level :: "int option"
  aq_eaqi_pm25_level :: "int option"
  aq_eaqi_pm10_level :: "int option"

definition hourly_mean_of :: "helper_row \<Rightarrow> jsnum option" where
  "hourly_mean_of r = Option.bind
     (case hp_pollutant r of NO2 \<Rightarrow> hp_no2 r | PM25 \<Rightarrow> hp_pm25 r | PM10 \<Rightarrow> hp_pm10 r) finite_or_none"

definition rolling_mean_of :: "helper_row \<Rightarrow> jsnum option" where
  "rolling_mean_of r = Option.bind
     (case hp_pollutant r of NO2 \<Rightarrow> None | PM25 \<Rightarrow> hp_pm25_roll r | PM10 \<Rightarrow> hp_pm10_roll r) finite_or_none"

definition rolling_count_of :: "helper_row \<Rightarrow> int option" where
  "rolling_count_of r = (case hp_pollutant r of NO2 \<Rightarrow> None | PM25 \<Rightarrow> hp_pm25_count r | PM10 \<Rightarrow> hp_pm10_count r)"

fun daqi_breakpoints :: "pollutant \<Rightarrow> breakpoint list" where
  "daqi_breakpoints NO2 = DAQI_NO2_BREAKPOINTS"
| "daqi_breakpoints PM25 = DAQI_PM25_ROLLING24H_BREAKPOINTS"
| "daqi_breakpoints PM10 = DAQI_PM10_ROLLING24H_BREAKPOINTS"

fun eaqi_breakpoints :: "pollutant \<Rightarrow> breakpoint list" where
  "eaqi_breakpoints NO2 = EAQI_NO2_BREAKPOINTS"
| "eaqi_breakpoints PM25 = EAQI_PM25_BREAKPOINTS"
| "eaqi_breakpoints PM10 = EAQI_PM10_BREAKPOINTS"

definition level_and_status ::
  "jsnum option \<Rightarrow> string \<times> string option \<Rightarrow> breakpoint list \<Rightarrow> int option \<times> string \<times> string option" where
  "level_and_status inputValue st breakpoints =
     (let level = (if fst st = ''ok'' then lookupAqiIndexLevel inputValue breakpoints else None)
      in if level = None \<and> fst st = ''ok'' then (None, ''missing_input'', Some ''breakpoint_not_found'')
         else (level, st))"

definition only :: "pollutant \<Rightarrow> pollutant \<Rightarrow> 'a option \<Rightarrow> 'a option" where
  "only p pol v = (if pol = p then v else None)"

definition helperRowToNormalizedAqiV1Row :: "helper_row \<Rightarrow> jsval \<Rightarrow> aqi_row res" where
  "helperRowToNormalizedAqiV1Row row computedAt =
     res_map (\<lambda>computedAtUtc.
       let pol = hp_pollutant row;
           hourlyMean = hourly_mean_of row;
           rolling24hMean = rolling_mean_of row;
           averaging = daqiAveragingCodeForPollutant pol;
           daqiInput = (if pol = NO2 then hourlyMean else rolling24hMean);
           daqiSource = (if pol = NO2 then hp_sample_count row else rolling_count_of row);
           daqiRequired = (if averaging = ''rolling_24h_mean'' then DAQI_PM_ROLLING24H_REQUIRED_HOURS else 1);
           (daqiLevel, daqiStatus, daqiReason) = level_and_status daqiInput
             (calculationStatus daqiInput daqiSource daqiRequired) (daqi_breakpoints pol);
           (eaqiLevel, eaqiStatus, eaqiReason) = level_and_status hourlyMean
             (calculationStatus hourlyMean (hp_sample_count row) 1) (eaqi_breakpoints pol)
       in \<lparr>aq_connector_id = Option.bind (hp_connector_id row) (\<lambda>n. if 0 < n then Some n else None),
           aq_station_id = (if 0 < hp_station_id row then Some (hp_station_id row) else None),
           aq_timeseries_id = (if 0 < hp_timeseries_id row then Some (hp_timeseries_id row) else None),
           aq_pollutant = pol, aq_hour = hour_of_iso (hp_hour row),
           aq_daqi_input = daqiInput, aq_daqi_averaging = averaging, aq_daqi_level = daqiLevel,
           aq_daqi_source_count = daqiSource, aq_daqi_required_count = daqiRequired,
           aq_daqi_status = daqiStatus, aq_daqi_missing_reason = daqiReason,
           aq_eaqi_input = hourlyMean, aq_eaqi_averaging = ''hourly_mean'', aq_eaqi_level = eaqiLevel,
           aq_eaqi_source_count = hp_sample_count row, aq_eaqi_required_count = 1,
           aq_eaqi_status = eaqiStatus, aq_eaqi_missing_reason = eaqiReason,
           aq_hourly_sample_count = hp_sample_count row,
           aq_algorithm_version = AQI_ALGORITHM_VERSION, aq_computed_at = computedAtUtc,
           aq_hourly_mean = hourlyMean, aq_rolling24h_mean = rolling24hMean,
           aq_no2_hourly_mean = only NO2 pol hourlyMean, aq_pm25_hourly_mean = only PM25 pol hourlyMean,
           aq_pm10_hourly_mean = only PM10 pol hourlyMean,
           aq_pm25_rolling24h_mean = only PM25 pol rolling24hMean,
           aq_pm10_rolling24h_mean = only PM10 pol rolling24hMean,
           aq_daqi_no2_level = only NO2 pol daqiLevel, aq_daqi_pm25_level = only PM25 pol daqiLevel,
           aq_daqi_pm10_level = only PM10 pol daqiLevel, aq_eaqi_no2_level = only NO2 pol eaqiLevel,
           aq_eaqi_pm25_level = only PM25 pol eaqiLevel, aq_eaqi_pm10_level = only PM10 pol eaqiLevel\<rparr>)
     (if computedAt = Undef then Inr None else normalizeIsoTimestamp computedAt)"

definition keep_normalized :: "helper_row \<Rightarrow> aqi_row \<Rightarrow> bool" where
  "keep_normalized helperRow row \<longleftrightarrow> aq_connector_id row \<noteq> None \<and> aq_station_id row \<noteq> None
     \<and> aq_timeseries_id row \<noteq> None \<and> aq_hour row \<noteq> None
     \<and> (\<not> hp_synthetic helperRow \<or> aq_daqi_status row = ''ok'')"

definition helperRowsToNormalizedAqiV1Rows :: "helper_row list \<Rightarrow> jsval \<Rightarrow> aqi_row list res" where
  "helperRowsToNormalizedAqiV1Rows helperRows computedAt =
     res_map (\<lambda>rows. sort_key (\<lambda>r. (case aq_timeseries_id r of None \<Rightarrow> 0 | Some n \<Rightarrow> n,
           collation_key (case aq_hour r of None \<Rightarrow> [] | Some h \<Rightarrow> h)))
         (List.map snd (filter (\<lambda>(h, r). keep_normalized h r) (zip helperRows rows))))
       (res_mapM (\<lambda>h. helperRowToNormalizedAqiV1Row h computedAt) helperRows)"

section \<open>Merging\<close>

definition canonicalAqiKey :: "jsval \<Rightarrow> string option res" where
  "canonicalAqiKey row =
     res_map (\<lambda>hour. case (toPositiveIntOrNull (jget row ''timeseries_id''),
         normalizePollutantCode (jget row ''pollutant_code''), hour) of
         (Some ts, Some pol, Some h) \<Rightarrow> Some (hourly_key ts pol h) | _ \<Rightarrow> None)
       (parseIsoHour (js_or (jget row ''timestamp_hour_utc'') (js_or (jget row ''period_start_utc'')
          (js_or (jget row ''observed_at_utc'') (jget row ''observed_at'')))))"

definition canonicalObservationKey :: "jsval \<Rightarrow> string option res" where
  "canonicalObservationKey row =
     res_map (\<lambda>observedAt. case (toPositiveIntOrNull (jget row ''timeseries_id''), observedAt) of
         (Some ts, Some tm) \<Rightarrow> Some (int_str ts @ bar @ tm) | _ \<Rightarrow> None)
       (normalizeIsoTimestamp (js_or (jget row ''observed_at_utc'')
          (js_or (jget row ''observed_at'') (jget row ''timestamp_hour_utc''))))"

definition with_source :: "string \<Rightarrow> jsval \<Rightarrow> jsval" where
  "with_source s row = jput row ''source'' (js_or (jget row ''source'') (JStr s))"

text \<open>Writing the rows of one side into the map, and the order of the result.\<close>

definition put_rows ::
  "(jsval \<Rightarrow> string option res) \<Rightarrow> string \<Rightarrow> jsval list \<Rightarrow> (string, jsval) jsmap \<Rightarrow> (string, jsval) jsmap res" where
  "put_rows key s rows m =
     res_fold (\<lambda>row m. res_map (\<lambda>k. case k of None \<Rightarrow> m | Some k \<Rightarrow> jm_set k (with_source s row) m) (key row)) rows m"

definition key_or_empty :: "(jsval \<Rightarrow> string option res) \<Rightarrow> jsval \<Rightarrow> string" where
  "key_or_empty key row = (case key row of Inr (Some k) \<Rightarrow> k | _ \<Rightarrow> [])"

definition sorted_by_key :: "(jsval \<Rightarrow> string option res) \<Rightarrow> (string, jsval) jsmap \<Rightarrow> jsval list" where
  "sorted_by_key key m = sort_key (\<lambda>row. collation_key (key_or_empty key row)) (jm_values m)"

definition mergeAqiRowsPreferR2 :: "jsval list \<Rightarrow> jsval list \<Rightarrow> jsval list res" where
  "mergeAqiRowsPreferR2 r2Rows liveRows =
     res_bind (put_rows canonicalAqiKey ''live_calculated'' liveRows jm_empty) (\<lambda>m.
     res_map (sorted_by_key canonicalAqiKey) (put_rows canonicalAqiKey ''r2'' r2Rows m))"

definition put_r2_observation :: "jsval \<Rightarrow> (string, jsval) jsmap \<times> int \<Rightarrow> ((string, jsval) jsmap \<times> int) res" where
  "put_r2_observation row s =
     res_map (\<lambda>k. case k of None \<Rightarrow> s
       | Some k \<Rightarrow> (jm_set k (with_source ''r2'' row) (fst s), snd s + (if jm_has (fst s) k then 1 else 0)))
       (canonicalObservationKey row)"

definition mergeObservationRowsPreferR2 :: "jsval list \<Rightarrow> jsval list \<Rightarrow> (jsval list \<times> int) res" where
  "mergeObservationRowsPreferR2 r2Rows ingestRows =
     res_bind (put_rows canonicalObservationKey ''ingest'' ingestRows jm_empty) (\<lambda>m.
     res_map (\<lambda>(m, n). (sorted_by_key canonicalObservationKey m, n)) (res_fold put_r2_observation r2Rows (m, 0)))"

section \<open>Missing hours\<close>

text \<open>A window is its start and its end, the end excluded.\<close>

fun coalesce_ranges :: "(int \<times> int) list \<Rightarrow> (int \<times> int) list \<Rightarrow> (int \<times> int) list" where
  "coalesce_ranges out [] = rev out"
| "coalesce_ranges [] (r # rs) = coalesce_ranges [r] rs"
| "coalesce_ranges (l # out) (r # rs) =
     (if fst r \<le> snd l then coalesce_ranges ((fst l, max (snd l) (snd r)) # out) rs
      else coalesce_ranges (r # l # out) rs)"

definition hour_range :: "int \<Rightarrow> int \<Rightarrow> int \<times> int" where
  "hour_range contextHours ms = (ms - max 0 contextHours * HOUR_MS, ms + HOUR_MS)"

definition coalesceAqiMissingHourWindows :: "jsval list \<Rightarrow> int \<Rightarrow> (string \<times> string) list res" where
  "coalesceAqiMissingHourWindows hours contextHours =
     res_bind (res_mapM parseIsoHour hours) (\<lambda>hs.
       let times = sort (keep_some (List.map date_parse (keep_some hs)))
       in res_mapM (\<lambda>(s, e). res_bind (to_iso_res s) (\<lambda>a. res_map (Pair a) (to_iso_res e)))
            (coalesce_ranges [] (List.map (hour_range contextHours) times)))"

definition count_status :: "jsval \<Rightarrow> (string, int) jsmap \<Rightarrow> (string, int) jsmap" where
  "count_status v counts =
     (let st = (case normalizeAqiCalculationStatus v of None \<Rightarrow> ''unknown'' | Some s \<Rightarrow> s)
      in jm_set st ((case jm_get counts st of None \<Rightarrow> 0 | Some n \<Rightarrow> n) + 1) counts)"

definition summarizeAqiCalculationStatuses :: "jsval list \<Rightarrow> (string, int) jsmap" where
  "summarizeAqiCalculationStatuses rows =
     fold (\<lambda>row counts. count_status (jget row ''eaqi_calculation_status'')
       (count_status (jget row ''daqi_calculation_status'') counts)) rows jm_empty"

section \<open>Rows of a day\<close>

definition rows_of_day :: "helper_row list \<Rightarrow> string \<Rightarrow> jsval \<Rightarrow> aqi_row list res" where
  "rows_of_day helperRows dayUtc computedAt =
     res_bind (narrowRowsToDayRange helperRows dayUtc) (\<lambda>rows. helperRowsToNormalizedAqiV1Rows rows computedAt)"

definition buildAqilevelHistoryRowsForDayFromSourceObservations ::
  "jsval list \<Rightarrow> string \<Rightarrow> jsval \<Rightarrow> aqi_row list res" where
  "buildAqilevelHistoryRowsForDayFromSourceObservations rows dayUtc computedAt =
     res_bind (sourceObservationsToNarrowRows rows) (\<lambda>narrow.
     res_bind (utcDayEndIso dayUtc) (\<lambda>_.
       rows_of_day (pivotNarrowRowsToHelperRows narrow) dayUtc computedAt))"

definition buildAqilevelHistoryRowsForDayFromHourlyRows ::
  "jsval list \<Rightarrow> string \<Rightarrow> jsval \<Rightarrow> aqi_row list res" where
  "buildAqilevelHistoryRowsForDayFromHourlyRows rows dayUtc computedAt =
     res_bind (normalizeAqiHourlyNarrowRows rows) (\<lambda>narrow.
     res_bind (utcDayEndIso dayUtc) (\<lambda>_.
       rows_of_day (pivotNarrowRowsToHelperRows narrow) dayUtc computedAt))"

text \<open>The next day as the source computes it.\<close>

definition next_day :: "string \<Rightarrow> string res" where
  "next_day day = res_map (take 10) (utcDayEndIso day)"

text \<open>The loop over the days, with fuel: None when it runs out.\<close>

fun build_days :: "nat \<Rightarrow> helper_row list \<Rightarrow> jsval \<Rightarrow> string \<Rightarrow> string \<Rightarrow>
    (string \<times> aqi_row list) list \<Rightarrow> (string \<times> aqi_row list) list res option" where
  "build_days fuel helperRows computedAt cursor toDay out =
     (if \<not> cursor \<le> toDay then Some (Inr out)
      else case fuel of
        0 \<Rightarrow> None
      | Suc n \<Rightarrow>
          (case rows_of_day helperRows cursor computedAt of
             Inl e \<Rightarrow> Some (Inl e)
           | Inr rows \<Rightarrow>
               (case next_day cursor of
                  Inl e \<Rightarrow> Some (Inl e)
                | Inr d \<Rightarrow> build_days n helperRows computedAt d toDay (out @ [(cursor, rows)]))))"

definition buildAqilevelHistoryRowsByDayFromSourceObservations ::
  "nat \<Rightarrow> jsval list \<Rightarrow> string \<Rightarrow> string \<Rightarrow> jsval \<Rightarrow> (string \<times> aqi_row list) list res option" where
  "buildAqilevelHistoryRowsByDayFromSourceObservations fuel rows fromDay toDay computedAt =
     (case sourceObservationsToNarrowRows rows of
        Inl e \<Rightarrow> Some (Inl e)
      | Inr narrow \<Rightarrow>
          (case utcDayEndIso toDay of
             Inl e \<Rightarrow> Some (Inl e)
           | Inr _ \<Rightarrow> build_days fuel (pivotNarrowRowsToHelperRows narrow) computedAt fromDay toDay []))"

section \<open>Lemmas on the index levels\<close>

text \<open>A table of n levels: each band starts where the one before ends, the last is open.\<close>

fun table_ok :: "int \<Rightarrow> breakpoint list \<Rightarrow> bool" where
  "table_ok n [] = False"
| "table_ok n [b] = (bp_high b = None \<and> bp_level b = n)"
| "table_ok n (b # c # bs) =
     (bp_level b = n \<and> bp_low b < bp_low c \<and> bp_high b = Some (bp_low c) \<and> table_ok (n + 1) (c # bs))"

definition above_count :: "jsnum \<Rightarrow> breakpoint list \<Rightarrow> int" where
  "above_count v bs = int (length (filter (\<lambda>b. \<not> num_le v (Fin (of_int (bp_low b)))) bs))"

lemma table_lows_sorted: "table_ok n (b # bs) \<Longrightarrow> c \<in> set bs \<Longrightarrow> bp_low b < bp_low c"
proof (induction bs arbitrary: b n)
  case (Cons d bs)
  then show ?case by (cases "c = d") force+
qed simp

text \<open>The level is the first one plus the number of later bands whose start the value exceeds.\<close>

lemma find_level_counts:
  "table_ok n (b # bs) \<Longrightarrow> num_finite v \<Longrightarrow> find_level v (b # bs) = Some (n + above_count v bs)"
proof (induction bs arbitrary: b n)
  case Nil
  then show ?case by (simp add: above_count_def)
next
  case (Cons c bs)
  obtain x where v: "v = Fin x" using Cons.prems(2) by (cases v) auto
  have IH: "find_level v (c # bs) = Some (n + 1 + above_count v bs)"
    using Cons.IH [of "n + 1" c] Cons.prems by simp
  show ?case
  proof (cases "num_le v (Fin (of_int (bp_low c)))")
    case True
    have "num_le v (Fin (of_int (bp_low d)))" if "d \<in> set bs" for d
    proof -
      have "bp_low c < bp_low d"
        using table_lows_sorted [of "n + 1" c bs d] Cons.prems(1) that by simp
      then have "(of_int (bp_low c) :: rat) < of_int (bp_low d)" by simp
      with True v show ?thesis by simp
    qed
    then have "above_count v (c # bs) = 0" using True by (auto simp: above_count_def filter_empty_conv)
    with True Cons.prems(1) show ?thesis by simp
  next
    case False
    then have "above_count v (c # bs) = 1 + above_count v bs" by (simp add: above_count_def)
    with False Cons.prems(1) IH show ?thesis by simp
  qed
qed

lemma lookup_counts:
  assumes "table_ok n (b # bs)" "bp_low b = 0" "num_finite v" "\<not> num_lt v (Fin 0)"
  shows "lookupAqiIndexLevel (Some v) (b # bs) = Some (n + above_count v bs)"
  unfolding lookupAqiIndexLevel_def using find_level_counts [OF assms(1,3)] assms(2-4) by simp

lemma lookup_None:
  assumes "table_ok n (b # bs)" "bp_low b = 0"
  shows "lookupAqiIndexLevel v (b # bs) = None \<longleftrightarrow> \<not> (\<exists>x. v = Some (Fin x) \<and> 0 \<le> x)"
proof (cases v)
  case (Some n')
  show ?thesis
  proof (cases "num_finite n' \<and> \<not> num_lt n' (Fin 0)")
    case True
    then show ?thesis using lookup_counts [OF assms, of n'] Some by (cases n') auto
  next
    case False
    then show ?thesis using Some assms(2) by (cases n') (auto simp: lookupAqiIndexLevel_def)
  qed
qed (simp add: lookupAqiIndexLevel_def)

lemma above_count_bounds: "0 \<le> above_count v bs" "above_count v bs \<le> int (length bs)"
  by (simp_all add: above_count_def)

lemma above_count_mono:
  assumes "x \<le> y"
  shows "above_count (Fin x) bs \<le> above_count (Fin y) bs"
proof -
  have "length (filter (\<lambda>b. \<not> num_le (Fin x) (Fin (of_int (bp_low b)))) bs)
      \<le> length (filter (\<lambda>b. \<not> num_le (Fin y) (Fin (of_int (bp_low b)))) bs)"
    using assms by (intro length_filter_imp) (auto simp del: of_int_le_iff)
  then show ?thesis by (simp add: above_count_def)
qed

lemmas breakpoint_tables = DAQI_NO2_BREAKPOINTS_def DAQI_PM25_ROLLING24H_BREAKPOINTS_def
  DAQI_PM10_ROLLING24H_BREAKPOINTS_def EAQI_NO2_BREAKPOINTS_def EAQI_PM25_BREAKPOINTS_def
  EAQI_PM10_BREAKPOINTS_def

text \<open>All six tables of the file are tables of this kind, with ten and with six levels.\<close>

lemma daqi_table:
  obtains b bs where "daqi_breakpoints p = b # bs" "table_ok 1 (b # bs)" "bp_low b = 0" "length bs = 9"
proof -
  have "\<exists>b bs. daqi_breakpoints p = b # bs \<and> table_ok 1 (b # bs) \<and> bp_low b = 0 \<and> length bs = 9"
    by (cases p) (simp_all add: breakpoint_tables bp_def)
  with that show ?thesis by blast
qed

lemma eaqi_table:
  obtains b bs where "eaqi_breakpoints p = b # bs" "table_ok 1 (b # bs)" "bp_low b = 0" "length bs = 5"
proof -
  have "\<exists>b bs. eaqi_breakpoints p = b # bs \<and> table_ok 1 (b # bs) \<and> bp_low b = 0 \<and> length bs = 5"
    by (cases p) (simp_all add: breakpoint_tables bp_def)
  with that show ?thesis by blast
qed

lemma daqi_level_range:
  "lookupAqiIndexLevel v (daqi_breakpoints p) = Some k \<Longrightarrow> 1 \<le> k \<and> k \<le> 10"
proof -
  assume l: "lookupAqiIndexLevel v (daqi_breakpoints p) = Some k"
  obtain b bs where t: "daqi_breakpoints p = b # bs" "table_ok 1 (b # bs)" "bp_low b = 0" "length bs = 9"
    by (rule daqi_table)
  from l lookup_None [OF t(2,3), of v] obtain x where x: "v = Some (Fin x)" "0 \<le> x" by (auto simp: t(1))
  show ?thesis
    using l lookup_counts [OF t(2,3), of "Fin x"] x above_count_bounds [of "Fin x" bs] t(1,4) by simp
qed

lemma eaqi_level_range:
  "lookupAqiIndexLevel v (eaqi_breakpoints p) = Some k \<Longrightarrow> 1 \<le> k \<and> k \<le> 6"
proof -
  assume l: "lookupAqiIndexLevel v (eaqi_breakpoints p) = Some k"
  obtain b bs where t: "eaqi_breakpoints p = b # bs" "table_ok 1 (b # bs)" "bp_low b = 0" "length bs = 5"
    by (rule eaqi_table)
  from l lookup_None [OF t(2,3), of v] obtain x where x: "v = Some (Fin x)" "0 \<le> x" by (auto simp: t(1))
  show ?thesis
    using l lookup_counts [OF t(2,3), of "Fin x"] x above_count_bounds [of "Fin x" bs] t(1,4) by simp
qed

lemma daqi_level_mono:
  assumes "0 \<le> x" "x \<le> y"
  shows "\<exists>k l. lookupAqiIndexLevel (Some (Fin x)) (daqi_breakpoints p) = Some k
    \<and> lookupAqiIndexLevel (Some (Fin y)) (daqi_breakpoints p) = Some l \<and> k \<le> l"
proof -
  obtain b bs where t: "daqi_breakpoints p = b # bs" "table_ok 1 (b # bs)" "bp_low b = 0" "length bs = 9"
    by (rule daqi_table)
  show ?thesis
    using lookup_counts [OF t(2,3), of "Fin x"] lookup_counts [OF t(2,3), of "Fin y"] assms
      above_count_mono [OF assms(2), of bs] by (simp add: t(1))
qed

text \<open>A row carries a level exactly when its status is ok.\<close>

lemma level_and_status_ok:
  assumes "level_and_status v st bs = (level, s, r)"
  shows "level \<noteq> None \<longleftrightarrow> s = ''ok''" "level = Some k \<Longrightarrow> st = (s, r) \<and> lookupAqiIndexLevel v bs = Some k"
  using assms by (auto simp: level_and_status_def Let_def split: if_splits prod.splits)

lemma calculationStatus_ok:
  "fst (calculationStatus v n req) = ''ok'' \<Longrightarrow> 1 < req \<Longrightarrow> (\<exists>m. n = Some m \<and> req \<le> m) \<or> req \<le> 0"
  by (auto simp: calculationStatus_def split: option.splits if_splits)

lemma normalized_row_levels:
  assumes "helperRowToNormalizedAqiV1Row h c = Inr r"
  shows "aq_daqi_level r \<noteq> None \<longleftrightarrow> aq_daqi_status r = ''ok''"
    and "aq_eaqi_level r \<noteq> None \<longleftrightarrow> aq_eaqi_status r = ''ok''"
    and "aq_daqi_level r = Some k \<Longrightarrow> 1 \<le> k \<and> k \<le> 10
      \<and> (hp_pollutant h \<noteq> NO2 \<longrightarrow> (\<exists>n. rolling_count_of h = Some n \<and> 18 \<le> n))"
    and "aq_eaqi_level r = Some k \<Longrightarrow> 1 \<le> k \<and> k \<le> 6"
proof -
  let ?pol = "hp_pollutant h"
  let ?in = "if ?pol = NO2 then hourly_mean_of h else rolling_mean_of h"
  let ?src = "if ?pol = NO2 then hp_sample_count h else rolling_count_of h"
  let ?req = "if daqiAveragingCodeForPollutant ?pol = ''rolling_24h_mean''
    then DAQI_PM_ROLLING24H_REQUIRED_HOURS else 1"
  obtain dl ds dr where d: "level_and_status ?in (calculationStatus ?in ?src ?req) (daqi_breakpoints ?pol) = (dl, ds, dr)"
    by (metis prod_cases3)
  obtain el es er where e: "level_and_status (hourly_mean_of h)
      (calculationStatus (hourly_mean_of h) (hp_sample_count h) 1) (eaqi_breakpoints ?pol) = (el, es, er)"
    by (metis prod_cases3)
  have r: "aq_daqi_level r = dl" "aq_daqi_status r = ds" "aq_eaqi_level r = el" "aq_eaqi_status r = es"
    using assms d e by (auto simp: helperRowToNormalizedAqiV1Row_def Let_def res_simps)
  show "aq_daqi_level r \<noteq> None \<longleftrightarrow> aq_daqi_status r = ''ok''"
    "aq_eaqi_level r \<noteq> None \<longleftrightarrow> aq_eaqi_status r = ''ok''"
    using level_and_status_ok(1) [OF d] level_and_status_ok(1) [OF e] by (simp_all add: r)
  show "1 \<le> k \<and> k \<le> 6" if "aq_eaqi_level r = Some k"
    using level_and_status_ok(2) [OF e, of k] that eaqi_level_range [of _ ?pol k] by (auto simp: r)
  show "1 \<le> k \<and> k \<le> 10 \<and> (?pol \<noteq> NO2 \<longrightarrow> (\<exists>n. rolling_count_of h = Some n \<and> 18 \<le> n))"
    if "aq_daqi_level r = Some k"
  proof -
    have l: "calculationStatus ?in ?src ?req = (ds, dr)" "lookupAqiIndexLevel ?in (daqi_breakpoints ?pol) = Some k"
      using level_and_status_ok(2) [OF d, of k] that r(1) by simp_all
    have "ds = ''ok''" using level_and_status_ok(1) [OF d] that r(1) by simp
    with l(1) have ok: "fst (calculationStatus ?in ?src ?req) = ''ok''" by simp
    have "\<exists>n. rolling_count_of h = Some n \<and> 18 \<le> n" if "?pol \<noteq> NO2"
    proof -
      have "?req = 18" using that by (cases ?pol) (simp_all add: DAQI_PM_ROLLING24H_REQUIRED_HOURS_def)
      with calculationStatus_ok [OF ok] that show ?thesis by simp
    qed
    with daqi_level_range [OF l(2)] show ?thesis by blast
  qed
qed

end
