(* ===== verification/AqiMerge.thy ===== *)
theory AqiMerge
  imports AqiLevels
begin

text \<open>
  What the merges of lib/aqi/aqi_levels.mjs guarantee (precedence of the stored rows,
  one row per key) and the coalescing of missing hours into windows.
\<close>

section \<open>Lemmas on the merges\<close>

text \<open>The writes of one side, as one fold over the rows that have a key.\<close>

lemma put_rows_fold:
  assumes "put_rows key s rows m = Inr m'"
  shows "m' = fold (\<lambda>row. jm_set (key_or_empty key row) (with_source s row))
    (filter (\<lambda>row. \<exists>k. key row = Inr (Some k)) rows) m"
  using assms
proof (induction rows arbitrary: m)
  case (Cons row rows)
  then obtain k m1 where k: "key row = Inr k" "m1 = (case k of None \<Rightarrow> m | Some k \<Rightarrow> jm_set k (with_source s row) m)"
      "put_rows key s rows m1 = Inr m'"
    by (auto simp: put_rows_def res_simps)
  with Cons.IH [OF k(3)] show ?case by (cases k) (auto simp: key_or_empty_def)
qed (simp add: put_rows_def)

lemma key_or_empty_Some [simp]: "key row = Inr (Some k) \<Longrightarrow> key_or_empty key row = k"
  by (simp add: key_or_empty_def)

lemma put_rows_wf:
  assumes "put_rows key s rows m = Inr m'" "jm_wf m"
  shows "jm_wf m'"
  unfolding put_rows_fold [OF assms(1)] by (rule jm.wf_fold_put [OF assms(2)])

lemma put_rows_hit:
  assumes "put_rows key s rows m = Inr m'" "row \<in> set rows" "key row = Inr (Some k)"
  shows "\<exists>row' \<in> set rows. key row' = Inr (Some k) \<and> jm_get m' k = Some (with_source s row')"
proof -
  define good where "good = filter (\<lambda>row. \<exists>k. key row = Inr (Some k)) rows"
  define xs where "xs = filter (\<lambda>x. key_or_empty key x = k) good"
  have "row \<in> set xs" using assms(2,3) by (simp add: xs_def good_def)
  then have ne: "xs \<noteq> []" by auto
  then have l: "last xs \<in> set xs" by simp
  have "jm_get m' k = Some (with_source s (last xs))"
    using jm.get_fold_put [of "key_or_empty key" "with_source s" good m k] ne
    unfolding put_rows_fold [OF assms(1)] good_def [symmetric] xs_def [symmetric]
    by (cases xs) simp_all
  moreover have "last xs \<in> set rows" "key (last xs) = Inr (Some k)"
    using l by (auto simp: xs_def good_def)
  ultimately show ?thesis by blast
qed

lemma put_rows_miss:
  assumes "put_rows key s rows m = Inr m'" "\<forall>row \<in> set rows. key row \<noteq> Inr (Some k)"
  shows "jm_get m' k = jm_get m k"
  unfolding put_rows_fold [OF assms(1)]
  using assms(2) by (intro jm.get_fold_put_keep) auto

lemma merge_prefers_second:
  assumes "put_rows key s1 first jm_empty = Inr m1" "put_rows key s2 second m1 = Inr m2"
    and "row \<in> set second" "key row = Inr (Some k)"
  shows "\<exists>row' \<in> set second. key row' = Inr (Some k) \<and> jm_get m2 k = Some (with_source s2 row')"
  by (rule put_rows_hit [OF assms(2-4)])

lemma merge_keeps_first:
  assumes "put_rows key s1 first jm_empty = Inr m1" "put_rows key s2 second m1 = Inr m2"
    and "\<forall>row \<in> set second. key row \<noteq> Inr (Some k)" "row \<in> set first" "key row = Inr (Some k)"
  shows "\<exists>row' \<in> set first. key row' = Inr (Some k) \<and> jm_get m2 k = Some (with_source s1 row')"
  using put_rows_hit [OF assms(1,4,5)] put_rows_miss [OF assms(2,3)] by metis

text \<open>Adding the source does not change the key, so the rows of the result have distinct keys.\<close>

definition keyed :: "(jsval \<Rightarrow> string option res) \<Rightarrow> (string, jsval) jsmap \<Rightarrow> bool" where
  "keyed key m \<longleftrightarrow> jm_wf m \<and> (\<forall>(k, v) \<in> set m. key v = Inr (Some k))"

definition stable_key :: "(jsval \<Rightarrow> string option res) \<Rightarrow> bool" where
  "stable_key key \<longleftrightarrow> (\<forall>s row k. key row = Inr (Some k) \<longrightarrow> key (with_source s row) = Inr (Some k))"

lemma jget_with_source: "f \<noteq> ''source'' \<Longrightarrow> row = JObj kvs \<Longrightarrow> jget (with_source s row) f = jget row f"
  by (simp add: with_source_def jget_jput del: jget.simps jput.simps)

lemma no_id: "toPositiveIntOrNull (jget row ''timeseries_id'') = Some n \<Longrightarrow> \<exists>kvs. row = JObj kvs"
  by (cases row) (simp_all add: toPositiveIntOrNull_def positive_int_of_def)

lemma stable_aqi_key: "stable_key canonicalAqiKey"
proof -
  have "canonicalAqiKey (with_source s row) = Inr (Some k)" if k: "canonicalAqiKey row = Inr (Some k)" for s row k
  proof -
    obtain n where "toPositiveIntOrNull (jget row ''timeseries_id'') = Some n"
      using k by (auto simp: canonicalAqiKey_def res_simps split: option.splits)
    then obtain kvs where "row = JObj kvs" using no_id by blast
    with k show ?thesis by (simp add: canonicalAqiKey_def jget_with_source)
  qed
  then show ?thesis by (simp add: stable_key_def)
qed

lemma stable_observation_key: "stable_key canonicalObservationKey"
proof -
  have "canonicalObservationKey (with_source s row) = Inr (Some k)"
    if k: "canonicalObservationKey row = Inr (Some k)" for s row k
  proof -
    obtain n where "toPositiveIntOrNull (jget row ''timeseries_id'') = Some n"
      using k by (auto simp: canonicalObservationKey_def res_simps split: option.splits)
    then obtain kvs where "row = JObj kvs" using no_id by blast
    with k show ?thesis by (simp add: canonicalObservationKey_def jget_with_source)
  qed
  then show ?thesis by (simp add: stable_key_def)
qed

lemma put_rows_keyed:
  assumes "put_rows key s rows m = Inr m'" "keyed key m" "stable_key key"
  shows "keyed key m'"
  using assms(1,2)
proof (induction rows arbitrary: m)
  case (Cons row rows)
  then obtain k where k: "key row = Inr k"
      "put_rows key s rows (case k of None \<Rightarrow> m | Some k \<Rightarrow> jm_set k (with_source s row) m) = Inr m'"
    by (auto simp: put_rows_def res_simps)
  have "keyed key (jm_set k' (with_source s row) m)" if "k = Some k'" for k'
    using Cons.prems(2) k(1) that assms(3) set_jm_set [of k' "with_source s row" m]
    by (auto simp: keyed_def stable_key_def)
  with Cons k(2) show ?case by (cases k) auto
qed (simp add: put_rows_def)

lemma keyed_values:
  assumes "keyed key m"
  shows "distinct (List.map (key_or_empty key) (sorted_by_key key m))"
    and "v \<in> set (sorted_by_key key m) \<longleftrightarrow> (\<exists>k. jm_get m k = Some v)"
    and "sorted (List.map (\<lambda>row. collation_key (key_or_empty key row)) (sorted_by_key key m))"
proof -
  have "List.map (key_or_empty key) (jm_values m) = jm_keys m"
    using assms by (auto simp: keyed_def jm_values_def jm_keys_def)
  then have "distinct (List.map (key_or_empty key) (jm_values m))"
    using assms by (simp add: keyed_def jm_wf_def)
  then show "distinct (List.map (key_or_empty key) (sorted_by_key key m))"
    unfolding sorted_by_key_def by (simp add: sorting_simps)
  show "v \<in> set (sorted_by_key key m) \<longleftrightarrow> (\<exists>k. jm_get m k = Some v)"
    using assms by (simp add: sorted_by_key_def keyed_def jm_values_mem)
  show "sorted (List.map (\<lambda>row. collation_key (key_or_empty key row)) (sorted_by_key key m))"
    by (simp add: sorted_by_key_def)
qed

text \<open>What the merge of stored and calculated rows guarantees.\<close>

lemma mergeAqiRows_prefers:
  assumes "mergeAqiRowsPreferR2 r2Rows liveRows = Inr out"
  shows "distinct (List.map (key_or_empty canonicalAqiKey) out)"
    and "row \<in> set r2Rows \<Longrightarrow> canonicalAqiKey row = Inr (Some k) \<Longrightarrow>
      \<exists>row' \<in> set r2Rows. canonicalAqiKey row' = Inr (Some k) \<and> with_source ''r2'' row' \<in> set out"
    and "\<forall>row \<in> set r2Rows. canonicalAqiKey row \<noteq> Inr (Some k) \<Longrightarrow> row \<in> set liveRows \<Longrightarrow>
      canonicalAqiKey row = Inr (Some k) \<Longrightarrow>
      \<exists>row' \<in> set liveRows. canonicalAqiKey row' = Inr (Some k) \<and> with_source ''live_calculated'' row' \<in> set out"
proof -
  obtain m1 m2 where m: "put_rows canonicalAqiKey ''live_calculated'' liveRows jm_empty = Inr m1"
      "put_rows canonicalAqiKey ''r2'' r2Rows m1 = Inr m2" "out = sorted_by_key canonicalAqiKey m2"
    using assms by (auto simp: mergeAqiRowsPreferR2_def res_simps)
  have "keyed canonicalAqiKey jm_empty" by (simp add: keyed_def jm_empty_def)
  then have k2: "keyed canonicalAqiKey m2"
    using put_rows_keyed [OF m(2) put_rows_keyed [OF m(1)]] stable_aqi_key by blast
  have inside: "jm_get m2 k = Some v \<Longrightarrow> v \<in> set out" for v
    using keyed_values(2) [OF k2] unfolding m(3) by blast
  show "distinct (List.map (key_or_empty canonicalAqiKey) out)"
    using keyed_values(1) [OF k2] by (simp add: m(3))
  show "row \<in> set r2Rows \<Longrightarrow> canonicalAqiKey row = Inr (Some k) \<Longrightarrow>
      \<exists>row' \<in> set r2Rows. canonicalAqiKey row' = Inr (Some k) \<and> with_source ''r2'' row' \<in> set out"
    using merge_prefers_second [OF m(1,2), of row k] inside by blast
  show "\<forall>row \<in> set r2Rows. canonicalAqiKey row \<noteq> Inr (Some k) \<Longrightarrow> row \<in> set liveRows \<Longrightarrow>
      canonicalAqiKey row = Inr (Some k) \<Longrightarrow>
      \<exists>row' \<in> set liveRows. canonicalAqiKey row' = Inr (Some k) \<and> with_source ''live_calculated'' row' \<in> set out"
    using merge_keeps_first [OF m(1,2), of k row] inside by blast
qed

section \<open>Lemmas on the missing windows\<close>

definition covered :: "(int \<times> int) list \<Rightarrow> int set" where
  "covered rs = (\<Union>r \<in> set rs. {fst r ..< snd r})"

definition apart :: "(int \<times> int) list \<Rightarrow> bool" where
  "apart rs \<longleftrightarrow> sorted_wrt (\<lambda>a b. snd a < fst b) rs \<and> (\<forall>r \<in> set rs. fst r < snd r)"

lemma covered_simps [simp]:
  "covered [] = {}" "covered (r # rs) = {fst r ..< snd r} \<union> covered rs" "covered (rev rs) = covered rs"
  by (auto simp: covered_def)

lemma coalesce_ranges_apart:
  assumes "apart (rev out)" "\<forall>r \<in> set rs. fst r < snd r" "sorted (List.map fst rs)"
    "out \<noteq> [] \<Longrightarrow> \<forall>r \<in> set rs. fst (hd out) \<le> fst r"
  shows "apart (coalesce_ranges out rs) \<and> covered (coalesce_ranges out rs) = covered out \<union> covered rs"
  using assms
proof (induction out rs rule: coalesce_ranges.induct)
  case (1 out)
  then show ?case by simp
next
  case (2 r rs)
  then show ?case by (simp add: apart_def)
next
  case (3 l out r rs)
  have lr: "fst l \<le> fst r" "fst l < snd l" "fst r < snd r" using 3(3,4,6) by (auto simp: apart_def)
  show ?case
  proof (cases "fst r \<le> snd l")
    case True
    have "apart (rev ((fst l, max (snd l) (snd r)) # out))"
      using 3(3) lr by (auto simp: apart_def sorted_wrt_append)
    with 3(1) [OF True] 3(4-6) True lr show ?thesis by auto
  next
    case False
    have "apart (rev (r # l # out))"
      using 3(3) lr False by (auto simp: apart_def sorted_wrt_append)
    with 3(2) [OF False] 3(4-6) False lr show ?thesis by auto
  qed
qed

lemma coalesce_hours:
  assumes "sorted tms"
  shows "apart (coalesce_ranges [] (List.map (hour_range c) tms))"
    and "covered (coalesce_ranges [] (List.map (hour_range c) tms)) =
      (\<Union>t \<in> set tms. {t - max 0 c * HOUR_MS ..< t + HOUR_MS})"
proof -
  have s: "sorted (List.map fst (List.map (hour_range c) tms))"
    using assms by (simp add: hour_range_def comp_def sorted_map sorted_wrt_map)
  have p: "fst (hour_range c t) < snd (hour_range c t)" for t
  proof -
    have "0 \<le> max 0 c * HOUR_MS" by (simp add: HOUR_MS_def)
    then show ?thesis by (simp add: hour_range_def HOUR_MS_def)
  qed
  have *: "apart (coalesce_ranges [] (List.map (hour_range c) tms))
    \<and> covered (coalesce_ranges [] (List.map (hour_range c) tms)) = covered [] \<union> covered (List.map (hour_range c) tms)"
    by (rule coalesce_ranges_apart) (use s p in \<open>auto simp: apart_def\<close>)
  then show "apart (coalesce_ranges [] (List.map (hour_range c) tms))" by blast
  show "covered (coalesce_ranges [] (List.map (hour_range c) tms)) =
      (\<Union>t \<in> set tms. {t - max 0 c * HOUR_MS ..< t + HOUR_MS})"
    using * by (simp add: covered_def hour_range_def)
qed

section \<open>Properties\<close>

text \<open>C32: merging stored and calculated AQI rows gives one row per key; a key that a stored row has
  gets a stored row, and only a key that none has gets a calculated one.\<close>

theorem merge_prefers_stored:
  assumes "mergeAqiRowsPreferR2 r2Rows liveRows = Inr out"
  shows "distinct (List.map (key_or_empty canonicalAqiKey) out)
    \<and> (\<forall>row k. row \<in> set r2Rows \<and> canonicalAqiKey row = Inr (Some k) \<longrightarrow>
        (\<exists>row' \<in> set r2Rows. canonicalAqiKey row' = Inr (Some k) \<and> with_source ''r2'' row' \<in> set out))
    \<and> (\<forall>row k. row \<in> set liveRows \<and> canonicalAqiKey row = Inr (Some k)
          \<and> (\<forall>q \<in> set r2Rows. canonicalAqiKey q \<noteq> Inr (Some k)) \<longrightarrow>
        (\<exists>row' \<in> set liveRows. canonicalAqiKey row' = Inr (Some k) \<and> with_source ''live_calculated'' row' \<in> set out))"
  using mergeAqiRows_prefers [OF assms] by blast

definition sample_live_row :: jsval where
  "sample_live_row = JObj [(''timeseries_id'', JInt 7), (''pollutant_code'', JStr ''no2''),
     (''timestamp_hour_utc'', JStr ''2024-03-01T10:00:00.000Z'')]"

theorem merge_prefers_stored_witness:
  "\<exists>out. mergeAqiRowsPreferR2 [jput sample_live_row ''note'' (JInt 1)] [sample_live_row] = Inr out
     \<and> distinct (List.map (key_or_empty canonicalAqiKey) out)"
proof -
  have "is_ok (mergeAqiRowsPreferR2 [jput sample_live_row ''note'' (JInt 1)] [sample_live_row])" by code_simp
  then obtain out where "mergeAqiRowsPreferR2 [jput sample_live_row ''note'' (JInt 1)] [sample_live_row] = Inr out"
    by (auto simp: is_ok_iff)
  with merge_prefers_stored [OF this] show ?thesis by blast
qed

lemma iso_pairs:
  "res_mapM (\<lambda>(s, e). res_bind (to_iso_res s) (\<lambda>a. res_map (Pair a) (to_iso_res e))) rs = Inr out \<Longrightarrow>
     out = List.map (\<lambda>(s, e). (to_iso s, to_iso e)) rs"
  by (induction rs arbitrary: out) (auto simp: res_simps to_iso_res_def split: if_splits)

text \<open>The windows fetched for missing hours are apart from each other (no two touch) and cover
  exactly the missing hours with the context before each.\<close>

lemma missing_windows_exact:
  assumes "coalesceAqiMissingHourWindows hours c = Inr out"
  shows "\<exists>hs rs. res_mapM parseIsoHour hours = Inr hs
    \<and> out = List.map (\<lambda>(s, e). (to_iso s, to_iso e)) rs \<and> apart rs
    \<and> covered rs = (\<Union>t \<in> set (keep_some (List.map date_parse (keep_some hs))).
        {t - max 0 c * HOUR_MS ..< t + HOUR_MS})"
proof -
  obtain hs where hs: "res_mapM parseIsoHour hours = Inr hs" using assms
    by (auto simp: coalesceAqiMissingHourWindows_def res_simps)
  define tms where "tms = sort (keep_some (List.map date_parse (keep_some hs)))"
  have "out = List.map (\<lambda>(s, e). (to_iso s, to_iso e)) (coalesce_ranges [] (List.map (hour_range c) tms))"
    using assms iso_pairs by (auto simp: coalesceAqiMissingHourWindows_def hs tms_def Let_def)
  moreover have "sorted tms" "set tms = set (keep_some (List.map date_parse (keep_some hs)))"
    by (simp_all add: tms_def)
  ultimately show ?thesis
    using coalesce_hours [of tms c] hs
    by (intro exI [of _ hs] exI [of _ "coalesce_ranges [] (List.map (hour_range c) tms)"]) simp
qed

end
