(* ===== verification/AqiSeries.thy ===== *)
theory AqiSeries
  imports AqiLevels
begin

text \<open>
  What the time series stages of lib/aqi/aqi_levels.mjs guarantee: which rows the
  rolling 24 hour means are taken over, and the hourly grid of a particulate series.
\<close>

section \<open>Lemmas on the rolling means\<close>

text \<open>Whole hours in the common range, the form every stage gives its hours.\<close>

definition hour_ok :: "string \<Rightarrow> bool" where
  "hour_ok h \<longleftrightarrow> (\<exists>t. common_time t \<and> HOUR_MS dvd t \<and> h = to_iso t)"

definition ms_of :: "string \<Rightarrow> int" where
  "ms_of h = (case date_parse h of Some t \<Rightarrow> t | None \<Rightarrow> 0)"

lemma ms_of_iso [simp]: "common_time t \<Longrightarrow> ms_of (to_iso t) = t"
  by (simp add: ms_of_def date_parse_common)

lemma hour_okD:
  assumes "hour_ok h"
  shows "date_parse h = Some (ms_of h)" "common_time (ms_of h)" "HOUR_MS dvd ms_of h" "to_iso (ms_of h) = h"
  using assms by (auto simp: hour_ok_def date_parse_common)

lemma hour_less: "hour_ok g \<Longrightarrow> hour_ok h \<Longrightarrow> g < h \<longleftrightarrow> ms_of g < ms_of h"
  using to_iso_common_less [of "ms_of g" "ms_of h"] by (simp add: hour_okD)

lemma hour_le: "hour_ok g \<Longrightarrow> hour_ok h \<Longrightarrow> g \<le> h \<longleftrightarrow> ms_of g \<le> ms_of h"
  using hour_less [of h g] by (auto simp: not_less [symmetric])

lemma hour_eq: "hour_ok g \<Longrightarrow> hour_ok h \<Longrightarrow> g = h \<longleftrightarrow> ms_of g = ms_of h"
  using hour_okD(4) by metis

definition rows_ok :: "helper_row list \<Rightarrow> bool" where
  "rows_ok rows \<longleftrightarrow> (\<forall>r \<in> set rows. hour_ok (hp_hour r))
     \<and> distinct (List.map (\<lambda>r. (hp_timeseries_id r, hp_hour r)) rows)"

lemma takeWhile_other:
  fixes f :: "'a \<Rightarrow> 'b::linorder"
  assumes "sorted_wrt (\<lambda>a b. f a < f b) xs" "c \<in> set xs"
  shows "takeWhile (\<lambda>x. x \<noteq> c) xs @ [c] = filter (\<lambda>x. f x \<le> f c) xs"
proof -
  obtain ys zs where xs: "xs = ys @ c # zs" using split_list [OF assms(2)] by blast
  have y: "\<forall>y \<in> set ys. f y < f c" and z: "\<forall>z \<in> set zs. f c < f z"
    using assms(1) by (auto simp: xs sorted_wrt_append)
  then have "c \<notin> set ys" by auto
  then have "takeWhile (\<lambda>x. x \<noteq> c) xs = ys" unfolding xs by (induction ys) auto
  moreover have "filter (\<lambda>x. f x \<le> f c) ys = ys" using y by (auto simp: filter_id_conv intro: less_imp_le)
  moreover have "filter (\<lambda>x. f x \<le> f c) zs = []" using z by (auto simp: filter_empty_conv not_le)
  ultimately show ?thesis by (simp add: xs)
qed

lemma takeWhile_down:
  fixes f :: "'a \<Rightarrow> 'b::linorder"
  assumes "sorted_wrt (\<lambda>a b. f b < f a) xs" "\<And>x y. P x \<Longrightarrow> f x \<le> f y \<Longrightarrow> x \<in> set xs \<Longrightarrow> y \<in> set xs \<Longrightarrow> P y"
  shows "takeWhile P xs = filter P xs"
  using assms
proof (induction xs)
  case (Cons x xs)
  show ?case
  proof (cases "P x")
    case True
    with Cons show ?thesis by auto
  next
    case False
    have "filter P xs = []"
    proof (rule ccontr)
      assume "filter P xs \<noteq> []"
      then obtain y where y: "y \<in> set xs" "P y" by (auto simp: filter_empty_conv)
      with Cons.prems(1) have "f y \<le> f x" by (auto intro: less_imp_le)
      with Cons.prems(2) [of y x] y False show False by simp
    qed
    with False show ?thesis by simp
  qed
qed simp

definition series_of :: "helper_row list \<Rightarrow> int \<Rightarrow> (nat \<times> helper_row) list" where
  "series_of rows ts = sort_key (\<lambda>(i, r). (hp_hour r, hp_timeseries_id r))
     (filter (\<lambda>(i, r). hp_timeseries_id r = ts) (List.enumerate 0 rows))"

lemma series_set: "(i, r) \<in> set (series_of rows ts) \<longleftrightarrow> i < length rows \<and> rows ! i = r \<and> hp_timeseries_id r = ts"
  by (auto simp: series_of_def in_set_enumerate_eq)

lemma series_sorted:
  assumes "rows_ok rows"
  shows "sorted_wrt (\<lambda>a b. ms_of (hp_hour (snd a)) < ms_of (hp_hour (snd b))) (series_of rows ts)"
proof -
  let ?key = "\<lambda>(i, r). (hp_hour r, hp_timeseries_id r) :: string \<times> int"
  let ?xs = "series_of rows ts"
  have d0: "distinct (List.map (\<lambda>p. (hp_timeseries_id (snd p), hp_hour (snd p))) (List.enumerate 0 rows))"
    using assms by (simp add: rows_ok_def comp_def flip: map_map [of "\<lambda>r. (hp_timeseries_id r, hp_hour r)" snd, unfolded comp_def])
  have "sorted (List.map ?key ?xs)" by (simp add: series_of_def)
  moreover have "distinct (List.map ?key ?xs)"
  proof -
    have "distinct (List.map (\<lambda>p. (hp_timeseries_id (snd p), hp_hour (snd p)))
        (filter (\<lambda>(i, r). hp_timeseries_id r = ts) (List.enumerate 0 rows)))"
      using d0 by (rule distinct_map_filter)
    then show ?thesis
      by (auto simp: series_of_def distinct_map_sort_key distinct_map inj_on_def split: prod.splits)
  qed
  ultimately have "sorted_wrt (<) (List.map ?key ?xs)" by (simp only: strict_sorted_iff')
  then have s: "sorted_wrt (\<lambda>a b. ?key a < ?key b) ?xs" by (simp only: sorted_wrt_map)
  show ?thesis
  proof (rule sorted_wrt_mono_rel [OF _ s])
    fix a b
    assume a: "a \<in> set ?xs" and b: "b \<in> set ?xs" and l: "?key a < ?key b"
    obtain i r j q where ab: "a = (i, r)" "b = (j, q)" by (metis surj_pair)
    have "hour_ok (hp_hour r)" "hour_ok (hp_hour q)" "hp_timeseries_id r = ts" "hp_timeseries_id q = ts"
      using a b assms by (auto simp: ab series_set rows_ok_def)
    with l show "ms_of (hp_hour (snd a)) < ms_of (hp_hour (snd b))"
      by (simp add: ab less_prod_def' hour_less)
  qed
qed

lemma le_div_iff: "0 < n \<Longrightarrow> k \<le> x div n \<longleftrightarrow> k * n \<le> x" for n k x :: int
proof
  assume n: "0 < n" and "k \<le> x div n"
  then have "k * n \<le> x div n * n" by (intro mult_right_mono) auto
  also have "\<dots> \<le> x" using div_bounds [OF n, of x] by (simp add: mult.commute)
  finally show "k * n \<le> x" .
next
  assume "0 < n" "k * n \<le> x"
  then show "k \<le> x div n" using zdiv_mono1 [of "k * n" x n] by simp
qed

lemma diff_24:
  assumes "hour_ok g" "hour_ok h"
  shows "diff_hours_24 g h \<longleftrightarrow> 24 * HOUR_MS \<le> ms_of g - ms_of h"
proof -
  have "24 \<le> x div HOUR_MS \<longleftrightarrow> 24 * HOUR_MS \<le> x" for x
    using le_div_iff [of HOUR_MS 24 x] by (simp add: HOUR_MS_def)
  then show ?thesis
    using assms by (simp add: diff_hours_24_def hour_okD(1) DAQI_PM_ROLLING24H_WINDOW_HOURS_def)
qed

lemma rolling_rows_eq:
  assumes "rows_ok rows" "i < length rows" "rows ! i = r"
  shows "rolling_rows (List.enumerate 0 rows) (i, r) = List.map snd (filter
      (\<lambda>(j, q). \<not> diff_hours_24 (hp_hour r) (hp_hour q))
      (rev (filter (\<lambda>p. ms_of (hp_hour (snd p)) \<le> ms_of (hp_hour r)) (series_of rows (hp_timeseries_id r)))))"
proof -
  let ?f = "\<lambda>p :: nat \<times> helper_row. ms_of (hp_hour (snd p))"
  let ?s = "series_of rows (hp_timeseries_id r)"
  have mem: "(i, r) \<in> set ?s" using assms(2,3) by (simp add: series_set)
  note srt = series_sorted [OF assms(1), of "hp_timeseries_id r"]
  have id: "p \<in> set ?s \<Longrightarrow> fst p = i \<longleftrightarrow> p = (i, r)" for p
    using assms(3) by (cases p) (auto simp: series_set)
  have "takeWhile (\<lambda>(j, q). j \<noteq> i) ?s = takeWhile (\<lambda>p. p \<noteq> (i, r)) ?s"
    by (rule takeWhile_cong) (use id in \<open>force split: prod.splits\<close>)+
  then have upto: "takeWhile (\<lambda>(j, q). j \<noteq> i) ?s @ [(i, r)] = filter (\<lambda>p. ?f p \<le> ms_of (hp_hour r)) ?s"
    using takeWhile_other [OF srt mem] by simp
  let ?d = "rev (filter (\<lambda>p. ?f p \<le> ms_of (hp_hour r)) ?s)"
  have ok: "hour_ok (hp_hour (snd p))" if "p \<in> set ?s" for p
  proof -
    obtain j q where "p = (j, q)" by force
    with that assms(1) show ?thesis by (auto simp: series_set rows_ok_def)
  qed
  have rok: "hour_ok (hp_hour r)" using ok [OF mem] by simp
  have "takeWhile (\<lambda>(j, q). \<not> diff_hours_24 (hp_hour r) (hp_hour q)) ?d =
      filter (\<lambda>(j, q). \<not> diff_hours_24 (hp_hour r) (hp_hour q)) ?d"
  proof (rule takeWhile_down [where f = ?f])
    show "sorted_wrt (\<lambda>a b. ?f b < ?f a) ?d"
      using srt by (simp add: sorted_wrt_rev sorted_wrt_filter)
  next
    fix p q
    assume a: "case p of (j, q) \<Rightarrow> \<not> diff_hours_24 (hp_hour r) (hp_hour q)" "?f p \<le> ?f q"
      "p \<in> set ?d" "q \<in> set ?d"
    then have ok2: "hour_ok (hp_hour (snd p))" "hour_ok (hp_hour (snd q))" using ok by auto
    show "case q of (j, q) \<Rightarrow> \<not> diff_hours_24 (hp_hour r) (hp_hour q)"
      using a(1,2) diff_24 [OF rok ok2(1)] diff_24 [OF rok ok2(2)] by (cases p; cases q) simp
  qed
  then show ?thesis
    by (simp only: rolling_rows_def Let_def fst_conv snd_conv series_of_def [symmetric] upto)
qed

lemma rolling_rows_set:
  assumes "rows_ok rows" "i < length rows" "rows ! i = r"
  shows "set (rolling_rows (List.enumerate 0 rows) (i, r)) =
      {q \<in> set rows. hp_timeseries_id q = hp_timeseries_id r
         \<and> ms_of (hp_hour r) - 24 * HOUR_MS < ms_of (hp_hour q) \<and> ms_of (hp_hour q) \<le> ms_of (hp_hour r)}"
proof -
  have ok: "q \<in> set rows \<Longrightarrow> hour_ok (hp_hour q)" for q using assms(1) by (simp add: rows_ok_def)
  have r: "r \<in> set rows" using assms(2,3) by auto
  have "(\<exists>j. (j, q) \<in> set (series_of rows (hp_timeseries_id r))) \<longleftrightarrow>
      q \<in> set rows \<and> hp_timeseries_id q = hp_timeseries_id r" for q
    unfolding series_set by (auto simp: in_set_conv_nth)
  moreover have "set (rolling_rows (List.enumerate 0 rows) (i, r)) =
      {q. (\<exists>j. (j, q) \<in> set (series_of rows (hp_timeseries_id r)))
        \<and> \<not> diff_hours_24 (hp_hour r) (hp_hour q) \<and> ms_of (hp_hour q) \<le> ms_of (hp_hour r)}"
    unfolding rolling_rows_eq [OF assms] by (force simp: image_iff)
  ultimately show ?thesis
    using diff_24 [OF ok [OF r] ok] by (auto simp: not_le)
qed

lemma rolling_rows_length:
  assumes "rows_ok rows" "i < length rows" "rows ! i = r"
  shows "length (rolling_rows (List.enumerate 0 rows) (i, r)) \<le> 24"
proof -
  let ?rr = "rolling_rows (List.enumerate 0 rows) (i, r)"
  let ?g = "\<lambda>q. (ms_of (hp_hour r) - ms_of (hp_hour q)) div HOUR_MS"
  have ok: "q \<in> set rows \<Longrightarrow> hour_ok (hp_hour q)" for q using assms(1) by (simp add: rows_ok_def)
  have r: "r \<in> set rows" using assms(2,3) by auto
  have "sorted_wrt (\<lambda>p q. ms_of (hp_hour (snd q)) < ms_of (hp_hour (snd p)))
      (filter (\<lambda>(j, q). \<not> diff_hours_24 (hp_hour r) (hp_hour q))
        (rev (filter (\<lambda>p. ms_of (hp_hour (snd p)) \<le> ms_of (hp_hour r)) (series_of rows (hp_timeseries_id r)))))"
    using series_sorted [OF assms(1)] by (simp add: sorted_wrt_rev sorted_wrt_filter)
  then have s: "sorted_wrt (\<lambda>p q. ms_of (hp_hour q) < ms_of (hp_hour p)) ?rr"
    unfolding rolling_rows_eq [OF assms] sorted_wrt_map .
  have bounds: "?g q \<in> {0..<24} \<and> ms_of (hp_hour q) = ms_of (hp_hour r) - ?g q * HOUR_MS"
    if "q \<in> set ?rr" for q
  proof -
    have q: "q \<in> set rows" "ms_of (hp_hour r) - 24 * HOUR_MS < ms_of (hp_hour q)"
      "ms_of (hp_hour q) \<le> ms_of (hp_hour r)"
      using that unfolding rolling_rows_set [OF assms] by auto
    have "HOUR_MS dvd ms_of (hp_hour r) - ms_of (hp_hour q)"
      using hour_okD(3) ok r q(1) by (simp add: dvd_diff)
    then obtain k where k: "ms_of (hp_hour r) - ms_of (hp_hour q) = HOUR_MS * k" by (elim dvdE)
    then have "?g q = k" by (simp add: HOUR_MS_def)
    with k q(2,3) show ?thesis by (auto simp: HOUR_MS_def)
  qed
  have "distinct (List.map (\<lambda>q. ms_of (hp_hour q)) ?rr)"
    using s by (auto simp: distinct_conv_nth sorted_wrt_iff_nth_less) (metis linorder_neqE_nat less_irrefl)
  then have "inj_on (\<lambda>q. ms_of (hp_hour q)) (set ?rr)" and d: "distinct ?rr"
    by (auto simp: distinct_map)
  then have "inj_on ?g (set ?rr)"
    using bounds unfolding inj_on_def by metis
  moreover have "?g ` set ?rr \<subseteq> {0..<24}" using bounds by blast
  ultimately have "card (set ?rr) \<le> card {0..<24::int}"
    by (metis card_inj_on_le finite_atLeastLessThan_int)
  then show ?thesis using d by (simp add: distinct_card)
qed

text \<open>What the rolling columns hold.\<close>

lemma rolling_columns:
  assumes "rows_ok rows" "i < length rows"
  defines "w \<equiv> rolling_rows (List.enumerate 0 rows) (i, rows ! i)"
  shows "hp_pm25_roll (computeRolling24h rows ! i) = average (keep_some (List.map hp_pm25 w))"
    and "hp_pm25_count (computeRolling24h rows ! i) = Some n \<Longrightarrow> 1 \<le> n \<and> n \<le> 24
      \<and> n = int (length (keep_some (List.map hp_pm25 w)))"
    and "hp_pm10_count (computeRolling24h rows ! i) = Some n \<Longrightarrow> 1 \<le> n \<and> n \<le> 24
      \<and> n = int (length (keep_some (List.map hp_pm10 w)))"
proof -
  have c: "computeRolling24h rows ! i = with_rolling w (rows ! i)"
    using assms(2) by (simp add: computeRolling24h_def nth_enumerate_eq w_def Let_def)
  have len: "length (keep_some (List.map f w)) \<le> 24" for f :: "helper_row \<Rightarrow> jsnum option"
  proof -
    have "length (keep_some (List.map f w)) \<le> length (List.map f w)"
      unfolding keep_some_def length_map by (rule order.trans [OF length_filter_le]) simp
    then show ?thesis using rolling_rows_length [OF assms(1,2) refl] by (simp add: w_def)
  qed
  show "hp_pm25_roll (computeRolling24h rows ! i) = average (keep_some (List.map hp_pm25 w))"
    by (simp add: c with_rolling_def Let_def)
  show "hp_pm25_count (computeRolling24h rows ! i) = Some n \<Longrightarrow> 1 \<le> n \<and> n \<le> 24
      \<and> n = int (length (keep_some (List.map hp_pm25 w)))"
    using len [of hp_pm25] by (auto simp: c with_rolling_def Let_def length_or_null_def Suc_le_eq split: if_splits)
  show "hp_pm10_count (computeRolling24h rows ! i) = Some n \<Longrightarrow> 1 \<le> n \<and> n \<le> 24
      \<and> n = int (length (keep_some (List.map hp_pm10 w)))"
    using len [of hp_pm10] by (auto simp: c with_rolling_def Let_def length_or_null_def Suc_le_eq split: if_splits)
qed

section \<open>Lemmas on the hourly grid\<close>

lemma hour_grid_set: "set (hour_grid s e) = {t. s \<le> t \<and> t < e \<and> HOUR_MS dvd t - s}"
proof (induction s e rule: hour_grid.induct)
  case (1 s e)
  show ?case
  proof (cases "s < e")
    case True
    have "(s \<le> t \<and> t < e \<and> HOUR_MS dvd t - s) \<longleftrightarrow>
        t = s \<or> (s + HOUR_MS \<le> t \<and> t < e \<and> HOUR_MS dvd t - (s + HOUR_MS))" for t
    proof
      assume a: "s \<le> t \<and> t < e \<and> HOUR_MS dvd t - s"
      then obtain k where k: "t - s = HOUR_MS * k" by (elim conjE dvdE)
      show "t = s \<or> (s + HOUR_MS \<le> t \<and> t < e \<and> HOUR_MS dvd t - (s + HOUR_MS))"
      proof (cases "k = 0")
        case False
        moreover have "0 \<le> k" using a k by (auto simp: HOUR_MS_def)
        ultimately have "1 \<le> k" by simp
        then have "HOUR_MS \<le> t - s" unfolding k by (simp add: HOUR_MS_def)
        moreover have "HOUR_MS dvd (t - s) - HOUR_MS" using a by (simp add: dvd_diff)
        ultimately show ?thesis using a by (simp add: algebra_simps)
      qed (use k in simp)
    next
      assume "t = s \<or> (s + HOUR_MS \<le> t \<and> t < e \<and> HOUR_MS dvd t - (s + HOUR_MS))"
      then show "s \<le> t \<and> t < e \<and> HOUR_MS dvd t - s"
      proof
        assume a: "s + HOUR_MS \<le> t \<and> t < e \<and> HOUR_MS dvd t - (s + HOUR_MS)"
        then have "HOUR_MS dvd (t - (s + HOUR_MS)) + HOUR_MS" by (intro dvd_add) auto
        with a show ?thesis by (simp add: HOUR_MS_def)
      qed (use True in simp)
    qed
    with 1 True show ?thesis by (subst hour_grid.simps) auto
  qed (subst hour_grid.simps, auto)
qed

lemma hour_grid_sorted: "sorted_wrt (<) (hour_grid s e)"
proof (induction s e rule: hour_grid.induct)
  case (1 s e)
  have "s < t" if "t \<in> set (hour_grid (s + HOUR_MS) e)" for t
    using that by (auto simp: hour_grid_set HOUR_MS_def)
  with 1 show ?case by (subst hour_grid.simps) auto
qed

lemma keys_of_fold: "jm_get (fold (\<lambda>r. jm_set (hp_hour r) r) rows jm_empty) h =
  (case filter (\<lambda>r. hp_hour r = h) rows of [] \<Rightarrow> None | _ \<Rightarrow> Some (last (filter (\<lambda>r. hp_hour r = h) rows)))"
  using jm.get_fold_put [of hp_hour "\<lambda>r. r" rows jm_empty h] by (simp split: list.split)

lemma by_hour_hit:
  assumes "distinct (List.map hp_hour rows)" "r \<in> set rows"
  shows "jm_get (fold (\<lambda>r. jm_set (hp_hour r) r) rows jm_empty) (hp_hour r) = Some r"
proof -
  have "filter (\<lambda>q. hp_hour q = hp_hour r) rows = [r]"
  proof -
    obtain ys zs where "rows = ys @ r # zs" using split_list [OF assms(2)] by blast
    moreover from this assms(1) have "filter (\<lambda>q. hp_hour q = hp_hour r) ys = []"
      "filter (\<lambda>q. hp_hour q = hp_hour r) zs = []"
      by (auto simp: filter_empty_conv) (metis imageI)+
    ultimately show ?thesis by simp
  qed
  then show ?thesis by (simp add: keys_of_fold)
qed

lemma by_hour_miss:
  assumes "h \<notin> hp_hour ` set rows"
  shows "jm_get (fold (\<lambda>r. jm_set (hp_hour r) r) rows jm_empty) h = None"
proof -
  have "filter (\<lambda>r. hp_hour r = h) rows = []" using assms by (auto simp: filter_empty_conv)
  then show ?thesis by (simp add: keys_of_fold)
qed

text \<open>A particulate series after the expansion: one row per hour from its first to its last.\<close>

lemma expand_series_grid:
  assumes "rows_ok rows" "rows \<noteq> []" "\<forall>r \<in> set rows. hp_timeseries_id r = ts \<and> hp_pollutant r \<noteq> NO2"
  obtains a b where "hour_ok (to_iso a)" "hour_ok (to_iso b)" "common_time a" "common_time b"
    "to_iso a \<in> hp_hour ` set rows" "to_iso b \<in> hp_hour ` set rows"
    "\<forall>r \<in> set rows. a \<le> ms_of (hp_hour r) \<and> ms_of (hp_hour r) \<le> b"
    "List.map hp_hour (expand_series rows) = List.map to_iso (hour_grid a (b + HOUR_MS))"
    "\<forall>r \<in> set rows. r\<lparr>hp_synthetic := False\<rparr> \<in> set (expand_series rows)"
    "\<forall>q \<in> set (expand_series rows). (\<exists>r \<in> set rows. q = r\<lparr>hp_synthetic := False\<rparr>)
       \<or> (hp_synthetic q \<and> hp_pm25 q = None \<and> hp_pm10 q = None \<and> hp_timeseries_id q = ts
          \<and> hp_hour q \<notin> hp_hour ` set rows)"
proof -
  let ?s = "sortHelperRows rows"
  have set: "set ?s = set rows" by (simp add: sortHelperRows_def)
  obtain t0 rest where s: "?s = t0 # rest" using assms(2) set by (cases ?s) auto
  have ok: "r \<in> set rows \<Longrightarrow> hour_ok (hp_hour r)" for r using assms(1) by (simp add: rows_ok_def)
  have t0: "t0 \<in> set rows" using s set by auto
  have lst: "last ?s \<in> set rows" using s set by (metis last_in_set list.discI)
  define a b where "a = ms_of (hp_hour t0)" and "b = ms_of (hp_hour (last ?s))"
  have ab: "hp_hour t0 = to_iso a" "hp_hour (last ?s) = to_iso b" "common_time a" "common_time b"
    "HOUR_MS dvd a" "HOUR_MS dvd b" "date_parse (hp_hour t0) = Some a" "date_parse (hp_hour (last ?s)) = Some b"
    using hour_okD [OF ok [OF t0]] hour_okD [OF ok [OF lst]] by (auto simp: a_def b_def)
  have "sorted (List.map (\<lambda>r. (hp_hour r, hp_timeseries_id r)) ?s)" by (simp add: sortHelperRows_def)
  then have srt: "sorted_wrt (\<lambda>p q. (hp_hour p, hp_timeseries_id p) \<le> (hp_hour q, hp_timeseries_id q)) ?s"
    by (simp only: sorted_map)
  have low: "a \<le> ms_of (hp_hour r)" and high: "ms_of (hp_hour r) \<le> b" if "r \<in> set rows" for r
  proof -
    have "r = t0 \<or> (hp_hour t0, hp_timeseries_id t0) \<le> (hp_hour r, hp_timeseries_id r)"
      using srt that s set by (auto simp del: less_eq_prod_simp)
    then have "hp_hour t0 \<le> hp_hour r" by auto
    then show "a \<le> ms_of (hp_hour r)" using hour_le [OF ok [OF t0] ok [OF that]] by (simp add: a_def)
    obtain ys where ys: "?s = ys @ [last ?s]" using s by (metis append_butlast_last_id list.discI)
    have "r = last ?s \<or> (hp_hour r, hp_timeseries_id r) \<le> (hp_hour (last ?s), hp_timeseries_id (last ?s))"
    proof -
      have "r \<in> set (ys @ [last ?s])" using that set ys by simp
      moreover have "sorted_wrt (\<lambda>p q. (hp_hour p, hp_timeseries_id p) \<le> (hp_hour q, hp_timeseries_id q)) (ys @ [last ?s])"
        using srt ys by simp
      ultimately show ?thesis by (auto simp: sorted_wrt_append simp del: less_eq_prod_simp)
    qed
    then have "hp_hour r \<le> hp_hour (last ?s)" by auto
    then show "ms_of (hp_hour r) \<le> b" using hour_le [OF ok [OF that] ok [OF lst]] by (simp add: b_def)
  qed
  let ?m = "fold (\<lambda>r. jm_set (hp_hour r) r) ?s jm_empty"
  let ?row = "\<lambda>c. case jm_get ?m (to_iso c) of Some e \<Rightarrow> e\<lparr>hp_synthetic := False\<rparr>
      | None \<Rightarrow> synthetic_row t0 (to_iso c)"
  have ex: "expand_series rows = List.map ?row (hour_grid a (b + HOUR_MS))"
    using assms(3) t0 s ab(7,8) by (simp add: expand_series_def Let_def)
  have "distinct (List.map (\<lambda>r. (hp_timeseries_id r, hp_hour r)) rows)" using assms(1) by (simp add: rows_ok_def)
  then have "distinct (List.map hp_hour rows)"
    using assms(3) by (auto simp: distinct_map inj_on_def)
  then have dist: "distinct (List.map hp_hour ?s)" by (simp add: sortHelperRows_def sorting_simps)
  have hit: "?row (ms_of (hp_hour r)) = r\<lparr>hp_synthetic := False\<rparr>" if "r \<in> set rows" for r
    using by_hour_hit [OF dist, of r] hour_okD(4) [OF ok [OF that]] that set by simp
  have miss: "?row c = synthetic_row t0 (to_iso c)" if "to_iso c \<notin> hp_hour ` set rows" for c
    using by_hour_miss [of "to_iso c" ?s] that set by simp
  have cover: "ms_of (hp_hour r) \<in> set (hour_grid a (b + HOUR_MS))" if "r \<in> set rows" for r
    using low [OF that] high [OF that] hour_okD(3) [OF ok [OF that]] ab(5)
    by (simp add: hour_grid_set HOUR_MS_def [THEN arg_cong [where f = "(<) 0"], simplified] dvd_diff)
      (simp add: HOUR_MS_def)
  have hours: "hp_hour (?row c) = to_iso c" for c
  proof (cases "to_iso c \<in> hp_hour ` set rows")
    case True
    then obtain r where r: "r \<in> set rows" "hp_hour r = to_iso c" by auto
    then have "jm_get ?m (to_iso c) = Some r" using by_hour_hit [OF dist, of r] set by simp
    then show ?thesis using r(2) by simp
  next
    case False
    then show ?thesis using miss [OF False] by (simp add: synthetic_row_def)
  qed
  show ?thesis
  proof (rule that [of a b])
    show "hour_ok (to_iso a)" "hour_ok (to_iso b)" using ab by (auto simp: hour_ok_def)
    show "common_time a" "common_time b" by (rule ab)+
    show "to_iso a \<in> hp_hour ` set rows" "to_iso b \<in> hp_hour ` set rows"
      using t0 lst ab(1,2) by (metis imageI)+
    show "\<forall>r \<in> set rows. a \<le> ms_of (hp_hour r) \<and> ms_of (hp_hour r) \<le> b" using low high by blast
    show "List.map hp_hour (expand_series rows) = List.map to_iso (hour_grid a (b + HOUR_MS))"
      unfolding ex using hours by simp
    show "\<forall>r \<in> set rows. r\<lparr>hp_synthetic := False\<rparr> \<in> set (expand_series rows)"
      unfolding ex using hit cover by (metis (no_types, lifting) image_eqI image_set)
    show "\<forall>q \<in> set (expand_series rows). (\<exists>r \<in> set rows. q = r\<lparr>hp_synthetic := False\<rparr>)
       \<or> (hp_synthetic q \<and> hp_pm25 q = None \<and> hp_pm10 q = None \<and> hp_timeseries_id q = ts
          \<and> hp_hour q \<notin> hp_hour ` set rows)"
    proof
      fix q assume "q \<in> set (expand_series rows)"
      then obtain c where q: "q = ?row c" unfolding ex by auto
      show "(\<exists>r \<in> set rows. q = r\<lparr>hp_synthetic := False\<rparr>)
       \<or> (hp_synthetic q \<and> hp_pm25 q = None \<and> hp_pm10 q = None \<and> hp_timeseries_id q = ts
          \<and> hp_hour q \<notin> hp_hour ` set rows)"
      proof (cases "to_iso c \<in> hp_hour ` set rows")
        case True
        then obtain r where r: "r \<in> set rows" "hp_hour r = to_iso c" by auto
        then have "jm_get ?m (to_iso c) = Some r" using by_hour_hit [OF dist, of r] set by simp
        with r(1) q show ?thesis by auto
      next
        case False
        then show ?thesis using q miss [OF False] assms(3) t0 by (simp add: synthetic_row_def)
      qed
    qed
  qed
qed

section \<open>Lemmas on the loop over the days\<close>

lemma iso_day_le_iff:
  assumes "0 \<le> year_of_day n" "year_of_day n \<le> 9999" "0 \<le> year_of_day m" "year_of_day m \<le> 9999"
  shows "iso_day n \<le> iso_day m \<longleftrightarrow> n \<le> m"
  using iso_day_less [of n m] iso_day_less [of m n] assms by (cases n m rule: linorder_cases) auto

lemma next_day_iso:
  assumes "0 \<le> year_of_day n" "year_of_day (n + 1) \<le> 9999"
  shows "next_day (iso_day n) = Inr (iso_day (n + 1))"
proof -
  have y: "year_of_day n \<le> 9999" "0 \<le> year_of_day (n + 1)"
    using assms year_of_day_mono [of n "n + 1"] by linarith+
  have "to_iso_res ((n + 1) * MS_DAY) = Inr (to_iso ((n + 1) * MS_DAY))"
    using year_day_range [OF y(2) assms(2)] by (simp add: to_iso_res_def del: abs_le_iff)
  moreover have "n * MS_DAY + MS_DAY = (n + 1) * MS_DAY" by (simp add: algebra_simps)
  ultimately show ?thesis
    using date_parse_midnight [OF assms(1) y(1)] iso_day_length [OF y(2) assms(2)]
    by (simp add: next_day_def utcDayEndIso_def utcDayStartIso_def to_iso_midnight)
qed

declare build_days.simps [simp del]

text \<open>The loop ends when the fuel covers the days, and visits every day of the range once.\<close>

lemma build_days_done:
  assumes "0 \<le> year_of_day n" "0 \<le> year_of_day m" "year_of_day (m + 1) \<le> 9999" "n \<le> m + 1"
    "nat (m + 1 - n) \<le> fuel"
  shows "\<exists>r. build_days fuel hs c (iso_day n) (iso_day m) out = Some r \<and>
    (\<forall>days. r = Inr days \<longrightarrow> List.map fst days = List.map fst out @ List.map iso_day [n..m])"
  using assms
proof (induction "nat (m + 1 - n)" arbitrary: n fuel out)
  case 0
  then have "n = m + 1" by simp
  have "\<not> iso_day (m + 1) \<le> iso_day m"
    using iso_day_le_iff [of "m + 1" m] 0 \<open>n = m + 1\<close> year_of_day_mono [of m "m + 1"] by auto
  then show ?case using \<open>n = m + 1\<close> by (simp add: build_days.simps)
next
  case (Suc k)
  then have nm: "n \<le> m" by simp
  obtain f where f: "fuel = Suc f" using Suc by (cases fuel) auto
  have y: "0 \<le> year_of_day n" "year_of_day (n + 1) \<le> 9999" "0 \<le> year_of_day (n + 1)"
    using Suc.prems nm year_of_day_mono [of "n + 1" "m + 1"] year_of_day_mono [of n "n + 1"] by linarith+
  have le: "iso_day n \<le> iso_day m"
    using iso_day_le_iff [of n m] nm y Suc.prems year_of_day_mono [of n m] year_of_day_mono [of m "m + 1"] by auto
  have IH: "\<exists>r. build_days f hs c (iso_day (n + 1)) (iso_day m) out' = Some r \<and>
      (\<forall>days. r = Inr days \<longrightarrow> List.map fst days = List.map fst out' @ List.map iso_day [n + 1..m])" for out'
    by (rule Suc.hyps(1)) (use Suc nm y f in auto)
  have "[n..m] = n # [n + 1..m]" using nm by (simp add: upto_rec1)
  then show ?case
    using le IH [of "out @ [(iso_day n, projr (rows_of_day hs (iso_day n) c))]"]
    by (cases "rows_of_day hs (iso_day n) c")
      (simp_all add: build_days.simps [of "Suc f"] f next_day_iso [OF y(1,2)])
qed

section \<open>Properties\<close>

text \<open>On the tables of the file the search for a level is counting: a finite value that is not
  negative has the first level plus the number of later bands whose start it exceeds, for the DAQI
  and for the EAQI of every pollutant.\<close>

lemma index_level_counts:
  assumes "0 \<le> x"
  shows "lookupAqiIndexLevel (Some (Fin x)) (daqi_breakpoints p) =
      Some (1 + above_count (Fin x) (tl (daqi_breakpoints p)))
    \<and> lookupAqiIndexLevel (Some (Fin x)) (eaqi_breakpoints p) =
      Some (1 + above_count (Fin x) (tl (eaqi_breakpoints p)))"
proof -
  obtain b bs where d: "daqi_breakpoints p = b # bs" "table_ok 1 (b # bs)" "bp_low b = 0" by (rule daqi_table)
  obtain c cs where e: "eaqi_breakpoints p = c # cs" "table_ok 1 (c # cs)" "bp_low c = 0" by (rule eaqi_table)
  show ?thesis using lookup_counts [OF d(2,3)] lookup_counts [OF e(2,3)] assms by (simp add: d(1) e(1))
qed

text \<open>C30: levels are monotone in the concentration and stay in their scale, 1 to 10 for the DAQI and
  1 to 6 for the EAQI.\<close>

theorem index_level_monotone:
  assumes "0 \<le> x" "x \<le> y"
  shows "\<exists>k l k' l'. lookupAqiIndexLevel (Some (Fin x)) (daqi_breakpoints p) = Some k
    \<and> lookupAqiIndexLevel (Some (Fin y)) (daqi_breakpoints p) = Some l \<and> 1 \<le> k \<and> k \<le> l \<and> l \<le> 10
    \<and> lookupAqiIndexLevel (Some (Fin x)) (eaqi_breakpoints p) = Some k'
    \<and> lookupAqiIndexLevel (Some (Fin y)) (eaqi_breakpoints p) = Some l' \<and> 1 \<le> k' \<and> k' \<le> l' \<and> l' \<le> 6"
proof -
  obtain b bs where d: "daqi_breakpoints p = b # bs" "table_ok 1 (b # bs)" "bp_low b = 0" "length bs = 9"
    by (rule daqi_table)
  obtain c cs where e: "eaqi_breakpoints p = c # cs" "table_ok 1 (c # cs)" "bp_low c = 0" "length cs = 5"
    by (rule eaqi_table)
  show ?thesis
    using lookup_counts [OF d(2,3)] lookup_counts [OF e(2,3)] assms above_count_mono [OF assms(2)]
      above_count_bounds [of "Fin x"] above_count_bounds [of "Fin y" bs] above_count_bounds [of "Fin y" cs]
    by (simp add: d e)
qed

theorem index_level_monotone_witness:
  "\<exists>k. lookupAqiIndexLevel (Some (Fin 601)) (daqi_breakpoints NO2) = Some k \<and> 1 \<le> k \<and> k \<le> 10"
  using index_level_monotone [of 1 601 NO2] by auto

text \<open>A normalised row carries a level exactly when its status is ok, its levels are in their
  scales, and a particulate has a DAQI level only on at least 18 hours of its rolling day.\<close>

lemma normalized_levels_sound:
  assumes "helperRowToNormalizedAqiV1Row h c = Inr r"
  shows "(aq_daqi_level r \<noteq> None \<longleftrightarrow> aq_daqi_status r = ''ok'') \<and> (aq_eaqi_level r \<noteq> None \<longleftrightarrow> aq_eaqi_status r = ''ok'')
    \<and> (\<forall>k. aq_daqi_level r = Some k \<longrightarrow> 1 \<le> k \<and> k \<le> 10
        \<and> (hp_pollutant h \<noteq> NO2 \<longrightarrow> (\<exists>n. rolling_count_of h = Some n \<and> 18 \<le> n)))
    \<and> (\<forall>k. aq_eaqi_level r = Some k \<longrightarrow> 1 \<le> k \<and> k \<le> 6)"
  using normalized_row_levels [OF assms] by blast

definition sample_helper :: helper_row where
  "sample_helper = \<lparr>hp_timeseries_id = 7, hp_station_id = 3, hp_connector_id = Some 1, hp_pollutant = PM25,
     hp_hour = ''2024-03-01T10:00:00.000Z'', hp_no2 = None, hp_pm25 = Some (Fin 12), hp_pm10 = None,
     hp_pm25_roll = Some (Fin 36), hp_pm10_roll = None, hp_pm25_count = Some 18, hp_pm10_count = None,
     hp_sample_count = Some 1, hp_synthetic = False\<rparr>"

text \<open>C31: the rolling mean of a row is taken over exactly the rows of its series that are less than 24
  hours older and not newer, at most 24 of them, whatever the order of the rows.\<close>

theorem rolling_window_exact:
  assumes "rows_ok rows" "i < length rows"
  shows "hp_pm25_roll (computeRolling24h rows ! i) =
      average (keep_some (List.map hp_pm25 (rolling_rows (List.enumerate 0 rows) (i, rows ! i))))
    \<and> set (rolling_rows (List.enumerate 0 rows) (i, rows ! i)) =
      {q \<in> set rows. hp_timeseries_id q = hp_timeseries_id (rows ! i)
         \<and> ms_of (hp_hour (rows ! i)) - 24 * HOUR_MS < ms_of (hp_hour q)
         \<and> ms_of (hp_hour q) \<le> ms_of (hp_hour (rows ! i))}
    \<and> length (rolling_rows (List.enumerate 0 rows) (i, rows ! i)) \<le> 24"
  using rolling_columns(1) [OF assms] rolling_rows_set [OF assms refl] rolling_rows_length [OF assms refl] by simp

definition sample_helpers :: "helper_row list" where
  "sample_helpers = [sample_helper, sample_helper\<lparr>hp_hour := ''2024-02-29T10:00:00.000Z''\<rparr>]"

lemma sample_helpers_ok: "rows_ok sample_helpers"
proof -
  have "to_iso 1709287200000 = ''2024-03-01T10:00:00.000Z''" "to_iso 1709200800000 = ''2024-02-29T10:00:00.000Z''"
    by code_simp+
  moreover have "common_time 1709287200000" "common_time 1709200800000" by (simp_all add: common_time_def)
  moreover have "HOUR_MS dvd 1709287200000" "HOUR_MS dvd 1709200800000" by (simp_all add: HOUR_MS_def)
  ultimately have "hour_ok ''2024-03-01T10:00:00.000Z''" "hour_ok ''2024-02-29T10:00:00.000Z''"
    unfolding hour_ok_def by metis+
  then show ?thesis by (simp add: rows_ok_def sample_helpers_def sample_helper_def)
qed

theorem rolling_window_exact_witness:
  "length (rolling_rows (List.enumerate 0 sample_helpers) (0, sample_helpers ! 0)) \<le> 24"
  using rolling_window_exact [OF sample_helpers_ok, of 0] by (simp add: sample_helpers_def)

text \<open>The expansion of one particulate series has one row for each hour from its first to its
  last, keeps the values of every row it was given, and adds only rows marked synthetic that hold no value.\<close>

lemma particulate_grid_complete:
  assumes "rows_ok rows" "rows \<noteq> []" "\<forall>r \<in> set rows. hp_timeseries_id r = ts \<and> hp_pollutant r \<noteq> NO2"
  shows "\<exists>a b. to_iso a \<in> hp_hour ` set rows \<and> to_iso b \<in> hp_hour ` set rows
    \<and> (\<forall>r \<in> set rows. a \<le> ms_of (hp_hour r) \<and> ms_of (hp_hour r) \<le> b)
    \<and> List.map hp_hour (expand_series rows) = List.map to_iso (hour_grid a (b + HOUR_MS))
    \<and> (\<forall>r \<in> set rows. r\<lparr>hp_synthetic := False\<rparr> \<in> set (expand_series rows))
    \<and> (\<forall>q \<in> set (expand_series rows). (\<exists>r \<in> set rows. q = r\<lparr>hp_synthetic := False\<rparr>)
       \<or> (hp_synthetic q \<and> hp_pm25 q = None \<and> hp_pm10 q = None \<and> hp_timeseries_id q = ts
          \<and> hp_hour q \<notin> hp_hour ` set rows))"
  by (rule expand_series_grid [OF assms]) blast

text \<open>The loop over the days from one day to a later one ends (fuel for each day of the range is
  enough), and an outcome that is not an error lists every day of the range once, in order.\<close>

lemma day_loop_terminates:
  assumes "0 \<le> year_of_day n" "n \<le> m" "year_of_day (m + 1) \<le> 9999" "nat (m + 1 - n) \<le> fuel"
  shows "\<exists>r. buildAqilevelHistoryRowsByDayFromSourceObservations fuel rows (iso_day n) (iso_day m) c = Some r
    \<and> (\<forall>days. r = Inr days \<longrightarrow> List.map fst days = List.map iso_day [n..m])"
proof -
  have m: "0 \<le> year_of_day m" using assms(1,2) year_of_day_mono [of n m] by linarith
  show ?thesis
    using build_days_done [OF assms(1) m assms(3) _ assms(4), of _ c "[]"] assms(2)
    by (auto simp: buildAqilevelHistoryRowsByDayFromSourceObservations_def split: sum.splits)
qed

end
