(* ===== verification/Stitch.thy ===== *)
theory Stitch
  imports AqiMerge
begin

text \<open>
  workers/uk_aq_cache_proxy/src/timeseries_v2_stitch.mjs: the window of a time
  series request, the rows of the stored history (R2) and of the ingest database
  merged by time stamp, the slices of the window that the stored history leaves
  open, and the gaps of a series. Instants are milliseconds; None is a value that is
  not finite. Times handed to \<open>toISOString\<close> lie between bounds that were parsed.
\<close>

section \<open>Bounds and routes\<close>

definition WINDOW_HOURS :: "(string \<times> int) list" where
  "WINDOW_HOURS = [(''12h'', 12), (''24h'', 24), (''7d'', 24 * 7), (''31d'', 24 * 31), (''90d'', 24 * 90)]"

definition parseIsoMsOrNull :: "jsval \<Rightarrow> int option" where
  "parseIsoMsOrNull value =
     (let t = js_trim (str_coalesce value) in if t = [] then None else date_parse t)"

record window_bounds =
  wb_startMs :: "int option"
  wb_endMs :: int
  wb_mode :: string
  wb_label :: "string option"

text \<open>
  The table of window lengths is an ordinary object, so a label that names a member of
  \<open>Object.prototype\<close> is found in it as well; the product of that member with a number
  is not a number (None).
\<close>

definition OBJECT_PROTOTYPE_KEYS :: "string list" where
  "OBJECT_PROTOTYPE_KEYS = [''constructor'', ''hasOwnProperty'', ''isPrototypeOf'',
     ''propertyIsEnumerable'', ''toLocaleString'', ''toString'', ''valueOf'', ''__proto__'',
     ''__defineGetter__'', ''__defineSetter__'', ''__lookupGetter__'', ''__lookupSetter__'']"

definition window_entry :: "string \<Rightarrow> int option option" where
  "window_entry label =
     (case map_of WINDOW_HOURS label of
        Some h \<Rightarrow> Some (Some h)
      | None \<Rightarrow> if label \<in> set OBJECT_PROTOTYPE_KEYS then Some None else None)"

definition resolveTimeseriesWindowBounds ::
  "int \<Rightarrow> string \<Rightarrow> jsval \<Rightarrow> jsval \<Rightarrow> jsnum \<Rightarrow> window_bounds" where
  "resolveTimeseriesWindowBounds nowMs windowLabel startUtc endUtc maxWindowDays =
     (let maxDays = (case maxWindowDays of Fin x \<Rightarrow> max 1 \<lfloor>x\<rfloor> | _ \<Rightarrow> 90);
          byWindow = (let label = (if window_entry windowLabel = None then ''24h'' else windowLabel)
            in \<lparr>wb_startMs = map_option (\<lambda>h. nowMs - min (h * HOUR_MS) (maxDays * MS_DAY)) (the (window_entry label)),
                wb_endMs = nowMs, wb_mode = ''window'', wb_label = Some label\<rparr>)
      in case (parseIsoMsOrNull startUtc, parseIsoMsOrNull endUtc) of
           (Some s, Some e) \<Rightarrow>
             if s < e then
               (let effectiveEnd = min e nowMs
                in \<lparr>wb_startMs = Some (max s (effectiveEnd - maxDays * MS_DAY)), wb_endMs = effectiveEnd,
                    wb_mode = ''explicit'', wb_label = None\<rparr>)
             else byWindow
         | _ \<Rightarrow> byWindow)"

record source_route =
  sr_sourceMode :: string
  sr_usedR2 :: bool
  sr_usedSupabase :: bool
  sr_r2StartMs :: "int option"
  sr_r2EndMs :: "int option"
  sr_recentBoundaryMs :: "int option"

definition classifyTimeseriesV2SourceRoute ::
  "int option \<Rightarrow> int option \<Rightarrow> int option \<Rightarrow> source_route" where
  "classifyTimeseriesV2SourceRoute requestStartMs requestEndMs recentBoundaryMs =
     (let route = (\<lambda>mode. \<lparr>sr_sourceMode = mode, sr_usedR2 = True, sr_usedSupabase = False,
            sr_r2StartMs = requestStartMs, sr_r2EndMs = requestEndMs,
            sr_recentBoundaryMs = recentBoundaryMs\<rparr>)
      in case (requestStartMs, requestEndMs, recentBoundaryMs) of
           (Some s, Some e, Some b) \<Rightarrow>
             if e \<le> s then route ''r2_first_full_range''
             else if e \<le> b then route ''history_only''
             else route ''r2_first_full_range''
         | _ \<Rightarrow> route ''r2_first_full_range'')"

section \<open>Rows\<close>

record stitch_row =
  st_observed_at :: string
  st_value :: "jsnum option"
  st_source :: string
  st_unit :: "jsval option"

fun is_object :: "jsval \<Rightarrow> bool" where
  "is_object (JObj _) = True"
| "is_object (JArr _) = True"
| "is_object (JDate _) = True"
| "is_object _ = False"

definition normalizeObservedRow :: "jsval \<Rightarrow> string \<Rightarrow> stitch_row option" where
  "normalizeObservedRow input sourceLabel =
     (if \<not> is_object input then None
      else map_option (\<lambda>ms. \<lparr>st_observed_at = to_iso ms,
          st_value = finite_or_none (js_number (jget input ''value'')), st_source = sourceLabel,
          st_unit = (if is_nullish (jget input ''unit'') then None else Some (jget input ''unit''))\<rparr>)
        (parseIsoMsOrNull (jget input ''observed_at'')))"

lemma normalizeObservedRow_code [code]:
  "normalizeObservedRow input sourceLabel =
     (if \<not> is_object input then None
      else case parseIsoMsOrNull (jget input ''observed_at'') of
          None \<Rightarrow> None
        | Some ms \<Rightarrow> Some \<lparr>st_observed_at = to_iso ms,
            st_value = finite_or_none (js_number (jget input ''value'')), st_source = sourceLabel,
            st_unit = (if is_nullish (jget input ''unit'') then None else Some (jget input ''unit''))\<rparr>)"
  by (simp add: normalizeObservedRow_def split: option.splits)

definition put_r2_row :: "stitch_row \<Rightarrow> (string, stitch_row) jsmap \<Rightarrow> (string, stitch_row) jsmap" where
  "put_r2_row row m = (if st_observed_at row = [] then m else jm_set (st_observed_at row) row m)"

definition put_ingest_row ::
  "bool \<Rightarrow> stitch_row \<Rightarrow> (string, stitch_row) jsmap \<times> int \<Rightarrow> (string, stitch_row) jsmap \<times> int" where
  "put_ingest_row overwrite row s =
     (let (m, deduped) = s; k = st_observed_at row in
      if k = [] then s
      else if jm_has m k then (if overwrite then jm_set k row m else m, deduped + 1)
      else (jm_set k row m, deduped))"

definition row_ms :: "stitch_row \<Rightarrow> int" where
  "row_ms row = (case date_parse (st_observed_at row) of None \<Rightarrow> 0 | Some t \<Rightarrow> t)"

definition mergeAndDedupeRows ::
  "stitch_row list \<Rightarrow> stitch_row list \<Rightarrow> bool \<Rightarrow> stitch_row list \<times> int" where
  "mergeAndDedupeRows r2Rows ingestRows allowIngestOverwrite =
     (let (m, deduped) = fold (put_ingest_row allowIngestOverwrite) ingestRows
            (fold put_r2_row r2Rows jm_empty, 0)
      in (sort_key row_ms (jm_values m), deduped))"

section \<open>Slices\<close>

record slice =
  sl_startMs :: int
  sl_endMs :: int
  sl_reason :: string

text \<open>\<open>/day_utc=(\d{4}-\d{2}-\d{2})/i\<close>, the first match.\<close>

definition day_text :: "string \<Rightarrow> string option" where
  "day_text s =
     (if length s \<ge> 10 \<and> list_all (\<lambda>i. if i = 4 \<or> i = 7 then s ! i = CHR ''-'' else is_digit (s ! i)) [0..<10]
      then Some (take 10 s) else None)"

fun find_day :: "string \<Rightarrow> string option" where
  "find_day [] = None"
| "find_day (c # s) =
     (case (if js_lower (take 8 (c # s)) = ''day_utc='' then day_text (drop 8 (c # s)) else None) of
        Some d \<Rightarrow> Some d
      | None \<Rightarrow> find_day s)"

definition parseDayUtcFromManifestKey :: "jsval \<Rightarrow> string option" where
  "parseDayUtcFromManifestKey key = find_day (str_coalesce key)"

definition day_slice :: "int \<Rightarrow> int \<Rightarrow> string \<Rightarrow> slice option" where
  "day_slice requestStartMs requestEndMs day =
     (case date_parse (day @ ''T00:00:00.000Z'') of
        None \<Rightarrow> None
      | Some dayStartMs \<Rightarrow>
          (let s = max requestStartMs dayStartMs; e = min requestEndMs (dayStartMs + MS_DAY)
           in if s < e then Some \<lparr>sl_startMs = s, sl_endMs = e, sl_reason = ''missing_day_manifest''\<rparr> else None))"

definition distinct_days :: "jsval list \<Rightarrow> string list" where
  "distinct_days keys =
     fold (\<lambda>d ds. if d \<in> set ds then ds else ds @ [d]) (keep_some (List.map parseDayUtcFromManifestKey keys)) []"

definition buildMissingDaySlices :: "jsval list \<Rightarrow> int \<Rightarrow> int \<Rightarrow> slice list" where
  "buildMissingDaySlices keys requestStartMs requestEndMs =
     sort_key sl_startMs (keep_some (List.map (day_slice requestStartMs requestEndMs) (distinct_days keys)))"

definition buildDiagnosticDaySlices :: "jsval list \<Rightarrow> int \<Rightarrow> int \<Rightarrow> string \<Rightarrow> slice list" where
  "buildDiagnosticDaySlices keys requestStartMs requestEndMs reason =
     List.map (\<lambda>s. s\<lparr>sl_reason := reason\<rparr>) (buildMissingDaySlices keys requestStartMs requestEndMs)"

fun merge_sorted_slices :: "slice list \<Rightarrow> slice list \<Rightarrow> slice list" where
  "merge_sorted_slices merged [] = rev merged"
| "merge_sorted_slices [] (x # rest) = merge_sorted_slices [x] rest"
| "merge_sorted_slices (l # merged) (x # rest) =
     (if sl_startMs x \<le> sl_endMs l
      then merge_sorted_slices (l\<lparr>sl_endMs := max (sl_endMs l) (sl_endMs x),
             sl_reason := (if sl_reason l = [] then sl_reason x else sl_reason l)\<rparr> # merged) rest
      else merge_sorted_slices (x # l # merged) rest)"

definition mergeSlices :: "slice list \<Rightarrow> slice list" where
  "mergeSlices slices =
     merge_sorted_slices [] (sort_key sl_startMs (filter (\<lambda>s. sl_startMs s < sl_endMs s) slices))"

section \<open>Coverage, gaps and increments\<close>

definition computeCoverageFromRows :: "stitch_row list \<Rightarrow> (string \<times> string) option" where
  "computeCoverageFromRows rows =
     (if rows = [] then None else Some (st_observed_at (hd rows), st_observed_at (last rows)))"

text \<open>The neighbouring rows whose times are readable and increase.\<close>

fun steps_of :: "stitch_row list \<Rightarrow> (string \<times> string \<times> int) list" where
  "steps_of (a # b # rows) =
     (case (date_parse (st_observed_at a), date_parse (st_observed_at b)) of
        (Some p, Some n) \<Rightarrow> if p < n then (st_observed_at a, st_observed_at b, n - p) # steps_of (b # rows)
                          else steps_of (b # rows)
      | _ \<Rightarrow> steps_of (b # rows))"
| "steps_of _ = []"

definition gap_threshold :: "int list \<Rightarrow> string \<Rightarrow> jsnum" where
  "gap_threshold spans windowLabel =
     (let sorted = sort spans;
          mid = sorted ! (length sorted div 2);
          median = (if mid = 0 then HOUR_MS else mid);
          minimum = (if windowLabel = ''12h'' \<or> windowLabel = ''24h'' then 15 * 60 * 1000 else HOUR_MS);
          expected = max minimum median
      in num_max (num_mul (Fin (of_int expected)) (to_double (8 / 5))) (Fin (of_int (expected + 20 * 60 * 1000))))"

definition detectGapRanges ::
  "stitch_row list \<Rightarrow> int \<Rightarrow> int \<Rightarrow> string \<Rightarrow> bool \<times> (string \<times> string) list" where
  "detectGapRanges rows requestStartMs requestEndMs windowLabel =
     (let steps = steps_of rows; spans = List.map (\<lambda>(_, _, d). d) steps in
      if length rows < 2 \<or> spans = [] then (False, [])
      else
        let threshold = gap_threshold spans windowLabel;
            wide = (\<lambda>d. num_lt threshold (Fin (of_int d)));
            inner = List.map (\<lambda>(a, b, _). (a, b)) (filter (\<lambda>(_, _, d). wide d) steps);
            first = st_observed_at (hd rows); final = st_observed_at (last rows);
            head = (case date_parse first of
                Some t \<Rightarrow> if wide (t - requestStartMs) then [(to_iso requestStartMs, first)] else []
              | None \<Rightarrow> []);
            tail = (case date_parse final of
                Some t \<Rightarrow> if wide (requestEndMs - t) then [(final, to_iso requestEndMs)] else []
              | None \<Rightarrow> []);
            gaps = head @ inner @ tail
        in (gaps \<noteq> [], gaps))"

definition computeNextSince :: "stitch_row list \<Rightarrow> jsval \<Rightarrow> string option" where
  "computeNextSince rows requestedSinceIso =
     map_option to_iso
       (fold (\<lambda>row cur. opt_max cur (parseIsoMsOrNull (JStr (st_observed_at row)))) rows
         (parseIsoMsOrNull requestedSinceIso))"

definition subtractCoveredTailInterval :: "int \<Rightarrow> int \<Rightarrow> string option \<Rightarrow> int \<times> int" where
  "subtractCoveredTailInterval requestStartMs requestEndMs coverageEnd =
     (case Option.bind coverageEnd (\<lambda>c. parseIsoMsOrNull (JStr c)) of
        None \<Rightarrow> (requestStartMs, requestEndMs)
      | Some c \<Rightarrow> (max requestStartMs (c + 1), requestEndMs))"

section \<open>The fill plan\<close>

record skipped_slice =
  sk_start_utc :: string
  sk_end_utc :: string
  sk_reason :: string

text \<open>The candidate and skipped slices so far, each in order.\<close>

definition outside_cap :: "int \<Rightarrow> int \<Rightarrow> string \<Rightarrow> skipped_slice" where
  "outside_cap s e reason =
     \<lparr>sk_start_utc = to_iso s, sk_end_utc = to_iso e, sk_reason = reason @ ''_outside_supabase_tail_cap''\<rparr>"

definition addSlice ::
  "int \<Rightarrow> int \<Rightarrow> slice \<Rightarrow> slice list \<times> skipped_slice list \<Rightarrow> slice list \<times> skipped_slice list" where
  "addSlice requestEndMs maxSpanMs sl acc =
     (let (candidates, skipped) = acc; s = sl_startMs sl; e = sl_endMs sl; reason = sl_reason sl in
      if e \<le> s then acc
      else if maxSpanMs \<le> 0 then (candidates, skipped @ [outside_cap s e reason])
      else
        let capped = max s (requestEndMs - maxSpanMs)
        in (if capped < e then candidates @ [\<lparr>sl_startMs = capped, sl_endMs = e, sl_reason = reason\<rparr>] else candidates,
            if s < capped then skipped @ [outside_cap s (min e capped) reason] else skipped))"

record fill_plan =
  fp_ingestSlices :: "slice list"
  fp_skippedIngestSlices :: "skipped_slice list"
  fp_r2CoverageStart :: "string option"
  fp_r2CoverageEnd :: "string option"

fun js_array :: "jsval \<Rightarrow> jsval list" where
  "js_array (JArr vs) = vs"
| "js_array _ = []"

definition open_slices :: "int \<Rightarrow> int \<Rightarrow> stitch_row list \<Rightarrow> jsval \<Rightarrow> slice list" where
  "open_slices requestStartMs requestEndMs sourceRows r2Coverage =
     (let mk = (\<lambda>s e r. \<lparr>sl_startMs = s, sl_endMs = e, sl_reason = r\<rparr>);
          coverage = computeCoverageFromRows sourceRows;
          rowsOpen = (case coverage of
              None \<Rightarrow> [mk requestStartMs requestEndMs ''r2_empty_window'']
            | Some (first, final) \<Rightarrow>
                (case parseIsoMsOrNull (JStr first) of
                   Some c \<Rightarrow> if requestStartMs < c then [mk requestStartMs c ''r2_uncovered_head''] else []
                 | None \<Rightarrow> []) @
                (let (s, e) = subtractCoveredTailInterval requestStartMs requestEndMs (Some final)
                 in [mk s e ''r2_uncovered_tail'']));
          diagnostic = (\<lambda>(field, reason). buildDiagnosticDaySlices (js_array (jget r2Coverage field))
            requestStartMs requestEndMs reason)
      in rowsOpen @ List.concat (List.map diagnostic
           [(''missing_day_manifest_keys'', ''missing_day_manifest''),
            (''missing_connector_manifest_keys'', ''missing_connector_manifest''),
            (''missing_parquet_keys'', ''missing_parquet'')]))"

text \<open>The cap on the tail comes in whole hours.\<close>

definition buildTimeseriesV2SupabaseFillPlan ::
  "int \<Rightarrow> int \<Rightarrow> stitch_row list \<Rightarrow> jsval \<Rightarrow> int \<Rightarrow> fill_plan" where
  "buildTimeseriesV2SupabaseFillPlan requestStartMs requestEndMs sourceRows r2Coverage maxTailHours =
     (let (candidates, skipped) = fold (addSlice requestEndMs (max 0 maxTailHours * HOUR_MS))
            (open_slices requestStartMs requestEndMs sourceRows r2Coverage) ([], []);
          coverage = computeCoverageFromRows sourceRows
      in \<lparr>fp_ingestSlices = mergeSlices candidates, fp_skippedIngestSlices = skipped,
          fp_r2CoverageStart = map_option fst coverage, fp_r2CoverageEnd = map_option snd coverage\<rparr>)"

section \<open>Lemmas on the slices\<close>

lemma apart_Cons: "apart (r # rs) \<longleftrightarrow> fst r < snd r \<and> (\<forall>q \<in> set rs. snd r < fst q) \<and> apart rs"
  by (auto simp: apart_def)

lemma covered_lower: "apart (r # rs) \<Longrightarrow> t \<in> covered (r # rs) \<Longrightarrow> fst r \<le> t"
  by (force simp: covered_def apart_Cons apart_def)

lemma first_covered: "apart (r # rs) \<Longrightarrow> fst r \<in> covered (r # rs)"
  by (simp add: apart_Cons)

lemma covered_tail: "apart (r # rs) \<Longrightarrow> covered rs = covered (r # rs) - {fst r ..< snd r} \<and> snd r \<notin> covered (r # rs)"
  by (force simp: covered_def apart_Cons)

text \<open>Intervals that do not touch are determined by the instants they cover.\<close>

lemma apart_unique: "apart rs \<Longrightarrow> apart qs \<Longrightarrow> covered rs = covered qs \<Longrightarrow> rs = qs"
proof (induction rs arbitrary: qs)
  case Nil
  then show ?case using first_covered by (cases qs) auto
next
  case (Cons r rs)
  then obtain q ps where q: "qs = q # ps" using first_covered [of r rs] by (cases qs) auto
  let ?A = "covered (r # rs)"
  have A: "?A = covered (q # ps)" using Cons.prems(3) q by simp
  have ap: "apart (r # rs)" "apart (q # ps)" using Cons.prems q by simp_all
  have f: "fst r = fst q"
    using covered_lower [OF ap(1)] covered_lower [OF ap(2)]
      first_covered [OF ap(1)] first_covered [OF ap(2)]
    unfolding A by (meson order_antisym)
  have "snd r \<notin> {fst q ..< snd q}" "snd q \<notin> {fst r ..< snd r}"
    using covered_tail [OF ap(1)] covered_tail [OF ap(2)] A by auto
  then have s: "snd r = snd q" using f ap by (auto simp: apart_Cons)
  have "covered rs = covered ps"
    using covered_tail [OF ap(1)] covered_tail [OF ap(2)] A f s by simp
  then have "rs = ps" using Cons.IH ap by (simp add: apart_Cons)
  with f s q show ?case by (simp add: prod_eq_iff)
qed

text \<open>What a routine that merges intervals promises, and what follows from it.\<close>

locale interval_merge =
  fixes ibounds :: "'a \<Rightarrow> int \<times> int"
    and obounds :: "'b \<Rightarrow> int \<times> int"
    and merge :: "'a list \<Rightarrow> 'b list"
  assumes apart_merge: "apart (List.map obounds (merge xs))"
    and covered_merge: "covered (List.map obounds (merge xs)) = covered (List.map ibounds xs)"
begin

text \<open>The result depends on the instants alone, not on the order or the cutting of the input.\<close>

lemma merge_canonical:
  "covered (List.map ibounds xs) = covered (List.map ibounds ys) \<Longrightarrow>
     List.map obounds (merge xs) = List.map obounds (merge ys)"
  by (intro apart_unique apart_merge) (simp add: covered_merge)

lemma merge_set:
  "ibounds ` set xs = ibounds ` set ys \<Longrightarrow> List.map obounds (merge xs) = List.map obounds (merge ys)"
  by (rule merge_canonical) (simp only: covered_def list.set_map)

lemma merge_disjoint:
  assumes "i < j" "j < length (merge xs)"
  shows "snd (obounds (merge xs ! i)) < fst (obounds (merge xs ! j))"
  using apart_merge [of xs] assms by (auto simp: apart_def sorted_wrt_map sorted_wrt_iff_nth_less)

end

definition slice_bounds :: "slice \<Rightarrow> int \<times> int" where
  "slice_bounds s = (sl_startMs s, sl_endMs s)"

lemma slice_bounds_sel [simp]:
  "fst (slice_bounds s) = sl_startMs s" "snd (slice_bounds s) = sl_endMs s"
  by (simp_all add: slice_bounds_def)

text \<open>Merging slices is the coalescing of their bounds.\<close>

lemma merge_sorted_slices_bounds:
  "List.map slice_bounds (merge_sorted_slices out rs) =
     coalesce_ranges (List.map slice_bounds out) (List.map slice_bounds rs)"
  by (induction out rs rule: merge_sorted_slices.induct)
    (auto simp: rev_map slice_bounds_def)

lemma covered_map_bounds: "covered (List.map f xs) = (\<Union>x \<in> set xs. {fst (f x) ..< snd (f x)})"
  by (simp add: covered_def)

lemma mergeSlices_apart:
  "apart (List.map slice_bounds (mergeSlices ss)) \<and>
     covered (List.map slice_bounds (mergeSlices ss)) = covered (List.map slice_bounds ss)"
proof -
  define rs where "rs = List.map slice_bounds (sort_key sl_startMs (filter (\<lambda>s. sl_startMs s < sl_endMs s) ss))"
  have s: "sorted (List.map fst rs)" by (simp add: rs_def comp_def)
  have "apart (coalesce_ranges [] rs) \<and> covered (coalesce_ranges [] rs) = covered [] \<union> covered rs"
    by (rule coalesce_ranges_apart) (use s in \<open>auto simp: apart_def rs_def\<close>)
  moreover have "covered rs = covered (List.map slice_bounds ss)"
    by (auto simp: rs_def covered_map_bounds)
  ultimately show ?thesis
    by (simp add: mergeSlices_def merge_sorted_slices_bounds rs_def)
qed

interpretation slices: interval_merge slice_bounds slice_bounds mergeSlices
  by unfold_locales (use mergeSlices_apart in blast)+

interpretation hours: interval_merge "hour_range c" "\<lambda>r. r"
  "\<lambda>tms. coalesce_ranges [] (List.map (hour_range c) (sort tms))"
proof
  fix tms
  show "apart (List.map (\<lambda>r. r) (coalesce_ranges [] (List.map (hour_range c) (sort tms))))"
    using coalesce_hours(1) [of "sort tms" c] by simp
  show "covered (List.map (\<lambda>r. r) (coalesce_ranges [] (List.map (hour_range c) (sort tms))))
      = covered (List.map (hour_range c) tms)"
    using coalesce_hours(2) [of "sort tms" c] by (simp add: covered_def hour_range_def)
qed

section \<open>Lemmas on the fill plan\<close>

definition capped :: "int \<Rightarrow> int \<Rightarrow> slice \<Rightarrow> int set" where
  "capped e cap sl = (if cap \<le> 0 then {} else {max (sl_startMs sl) (e - cap) ..< sl_endMs sl})"

lemma addSlice_covered:
  "covered (List.map slice_bounds (fst (addSlice e cap sl acc))) =
     covered (List.map slice_bounds (fst acc)) \<union> capped e cap sl"
  by (cases acc) (auto simp: addSlice_def capped_def Let_def covered_def slice_bounds_def)

lemma fold_addSlice_covered:
  "covered (List.map slice_bounds (fst (fold (addSlice e cap) sls acc))) =
     covered (List.map slice_bounds (fst acc)) \<union> (\<Union>sl \<in> set sls. capped e cap sl)"
  by (induction sls arbitrary: acc) (auto simp: addSlice_covered)

lemma capped_all:
  "(\<Union>sl \<in> set sls. capped e cap sl) =
     (if cap \<le> 0 then {} else covered (List.map slice_bounds sls) \<inter> {e - cap ..})"
  by (auto simp: capped_def covered_map_bounds)

lemma fill_plan_ingest:
  "fp_ingestSlices (buildTimeseriesV2SupabaseFillPlan s e rows cov h) =
     mergeSlices (fst (fold (addSlice e (max 0 h * HOUR_MS)) (open_slices s e rows cov) ([], [])))"
  "fp_skippedIngestSlices (buildTimeseriesV2SupabaseFillPlan s e rows cov h) =
     snd (fold (addSlice e (max 0 h * HOUR_MS)) (open_slices s e rows cov) ([], []))"
  by (simp_all add: buildTimeseriesV2SupabaseFillPlan_def Let_def split: prod.splits)

lemma fill_plan_covered:
  "covered (List.map slice_bounds (fp_ingestSlices (buildTimeseriesV2SupabaseFillPlan s e rows cov h))) =
     (if h \<le> 0 then {} else covered (List.map slice_bounds (open_slices s e rows cov)) \<inter> {e - h * HOUR_MS ..})"
proof -
  have "max 0 h * HOUR_MS \<le> 0 \<longleftrightarrow> h \<le> 0" by (auto simp: HOUR_MS_def)
  moreover have "\<not> h \<le> 0 \<Longrightarrow> max 0 h = h" by simp
  ultimately show ?thesis
    using fold_addSlice_covered [of e "max 0 h * HOUR_MS" "open_slices s e rows cov" "([], [])"]
    by (simp add: fill_plan_ingest slices.covered_merge capped_all)
qed

lemma fill_plan_apart:
  "apart (List.map slice_bounds (fp_ingestSlices (buildTimeseriesV2SupabaseFillPlan s e rows cov h)))"
  by (simp add: fill_plan_ingest slices.apart_merge)

text \<open>The part of a slice that the cap cuts off, and the entry of the skipped list for it.\<close>

lemma addSlice_skipped:
  "snd (addSlice e cap sl acc) = snd acc @
     (let over = (if cap \<le> 0 then sl_endMs sl else min (sl_endMs sl) (e - cap))
      in if sl_startMs sl < over then [outside_cap (sl_startMs sl) over (sl_reason sl)] else [])"
  by (cases acc) (auto simp: addSlice_def Let_def min_def max_def)

lemma fold_addSlice_skipped:
  "snd (fold (addSlice e cap) sls acc) = snd acc @ List.concat (List.map (\<lambda>sl.
     let over = (if cap \<le> 0 then sl_endMs sl else min (sl_endMs sl) (e - cap))
     in if sl_startMs sl < over then [outside_cap (sl_startMs sl) over (sl_reason sl)] else []) sls)"
  by (induction sls arbitrary: acc) (simp_all only: fold_simps addSlice_skipped list.map concat.simps
      append_Nil2 append_assoc)

text \<open>The instants of a slice that a plan does not ask for.\<close>

definition not_asked :: "fill_plan \<Rightarrow> slice \<Rightarrow> int set" where
  "not_asked plan sl = {sl_startMs sl ..< sl_endMs sl} - covered (List.map slice_bounds (fp_ingestSlices plan))"

lemma Min_Max_interval: "(a :: int) < b \<Longrightarrow> Min {a ..< b} = a \<and> Max {a ..< b} + 1 = b"
  by (intro conjI Min_eqI) (auto simp: eq_diff_eq [symmetric] intro!: Max_eqI)

lemma concat_map_filter: "List.concat (List.map (\<lambda>x. if P x then [f x] else []) xs) = List.map f (filter P xs)"
  by (induction xs) auto

lemma fill_plan_skipped:
  assumes "plan = buildTimeseriesV2SupabaseFillPlan s e rows cov h"
  shows "fp_skippedIngestSlices plan =
    List.map (\<lambda>sl. outside_cap (Min (not_asked plan sl)) (Max (not_asked plan sl) + 1) (sl_reason sl))
      (filter (\<lambda>sl. not_asked plan sl \<noteq> {}) (open_slices s e rows cov))"
proof -
  let ?over = "\<lambda>sl. if max 0 h * HOUR_MS \<le> 0 then sl_endMs sl else min (sl_endMs sl) (e - max 0 h * HOUR_MS)"
  have h: "max 0 h * HOUR_MS \<le> 0 \<longleftrightarrow> h \<le> 0" "\<not> h \<le> 0 \<Longrightarrow> max 0 h = h" by (auto simp: HOUR_MS_def)
  have n: "not_asked plan sl = {sl_startMs sl ..< ?over sl}" if "sl \<in> set (open_slices s e rows cov)" for sl
    using that h unfolding not_asked_def assms fill_plan_covered
    by (auto simp: covered_map_bounds)
  have "fp_skippedIngestSlices plan = List.concat (List.map (\<lambda>sl.
      if sl_startMs sl < ?over sl then [outside_cap (sl_startMs sl) (?over sl) (sl_reason sl)] else [])
      (open_slices s e rows cov))"
    unfolding assms fill_plan_ingest(2) fold_addSlice_skipped by (simp add: Let_def)
  also have "\<dots> = List.concat (List.map (\<lambda>sl. if not_asked plan sl \<noteq> {}
      then [outside_cap (Min (not_asked plan sl)) (Max (not_asked plan sl) + 1) (sl_reason sl)] else [])
      (open_slices s e rows cov))"
    by (rule arg_cong [where f = List.concat], rule map_cong [OF refl])
      (use n Min_Max_interval in \<open>simp del: Max_less_iff\<close>)
  also have "\<dots> = List.map (\<lambda>sl. outside_cap (Min (not_asked plan sl)) (Max (not_asked plan sl) + 1) (sl_reason sl))
      (filter (\<lambda>sl. not_asked plan sl \<noteq> {}) (open_slices s e rows cov))"
    by (rule concat_map_filter)
  finally show ?thesis .
qed

section \<open>Lemmas on the merged rows\<close>

definition row_put :: "stitch_row \<Rightarrow> (string, stitch_row) jsmap \<Rightarrow> (string, stitch_row) jsmap" where
  "row_put r = jm_set (st_observed_at r) r"

definition timed :: "stitch_row list \<Rightarrow> stitch_row list" where
  "timed rows = filter (\<lambda>r. st_observed_at r \<noteq> []) rows"

abbreviation times_of :: "stitch_row list \<Rightarrow> string set" where
  "times_of rows \<equiv> st_observed_at ` set (timed rows)"

lemma put_r2_fold: "fold put_r2_row rows m = fold row_put (timed rows) m"
  by (induction rows arbitrary: m) (auto simp: put_r2_row_def row_put_def timed_def)

definition rows_inv :: "stitch_row list \<Rightarrow> (string, stitch_row) jsmap \<Rightarrow> bool" where
  "rows_inv rows m \<longleftrightarrow> jm_wf m \<and> (\<forall>k v. jm_get m k = Some v \<longrightarrow> st_observed_at v = k \<and> v \<in> set rows)"

lemma rows_inv_set: "rows_inv rows m \<Longrightarrow> r \<in> set rows \<Longrightarrow> rows_inv rows (row_put r m)"
  by (auto simp: rows_inv_def row_put_def jm_get_set)

lemma rows_inv_fold: "rows_inv rows m \<Longrightarrow> set rs \<subseteq> set rows \<Longrightarrow> rows_inv rows (fold row_put rs m)"
  by (induction rs arbitrary: m) (auto intro: rows_inv_set)

lemma put_ingest_row_cases:
  assumes "st_observed_at r \<noteq> []"
  shows "put_ingest_row ov r (m, n) =
    (if jm_has m (st_observed_at r) \<and> \<not> ov then m else row_put r m,
     if jm_has m (st_observed_at r) then n + 1 else n)"
  using assms by (simp add: put_ingest_row_def row_put_def)

lemma put_ingest_skip: "st_observed_at r = [] \<Longrightarrow> put_ingest_row ov r s = s"
  by (simp add: put_ingest_row_def split: prod.splits)

lemma put_ingest_timed: "fold (put_ingest_row ov) rows s = fold (put_ingest_row ov) (timed rows) s"
  by (induction rows arbitrary: s) (simp_all add: timed_def put_ingest_skip)

lemma ingest_keys:
  assumes "\<forall>r \<in> set rs. st_observed_at r \<noteq> []"
  shows "set (jm_keys (fst (fold (put_ingest_row ov) rs (m, n)))) = set (jm_keys m) \<union> st_observed_at ` set rs
    \<and> int (length (fst (fold (put_ingest_row ov) rs (m, n)))) + snd (fold (put_ingest_row ov) rs (m, n))
      = int (length m) + n + int (length rs)"
  using assms
proof (induction rs arbitrary: m n)
  case (Cons r rs)
  define m1 where "m1 = (if jm_has m (st_observed_at r) \<and> \<not> ov then m else row_put r m)"
  define n1 where "n1 = (if jm_has m (st_observed_at r) then n + 1 else n)"
  have st: "put_ingest_row ov r (m, n) = (m1, n1)"
    using Cons.prems by (simp add: put_ingest_row_cases m1_def n1_def)
  have hask: "jm_has m k \<longleftrightarrow> k \<in> set (jm_keys m)" for k by (simp add: jm_has_def jm_get_None)
  have len: "length m = length (jm_keys m)" for m :: "(string, stitch_row) jsmap" by (simp add: jm_keys_def)
  have "set (jm_keys m1) = insert (st_observed_at r) (set (jm_keys m))"
    by (auto simp: m1_def row_put_def jm_keys_set hask)
  moreover have "int (length m1) + n1 = int (length m) + n + 1"
    by (simp add: m1_def n1_def row_put_def jm_keys_set hask len)
  moreover have "\<forall>r \<in> set rs. st_observed_at r \<noteq> []" using Cons.prems by simp
  ultimately show ?case using Cons.IH [of m1 n1] st by auto
qed simp

lemma ingest_inv:
  "rows_inv rows (fst s) \<Longrightarrow> set rs \<subseteq> set rows \<Longrightarrow> \<forall>r \<in> set rs. st_observed_at r \<noteq> [] \<Longrightarrow>
     rows_inv rows (fst (fold (put_ingest_row ov) rs s))"
proof (induction rs arbitrary: s)
  case (Cons r rs)
  obtain m n where s: "s = (m, n)" by (cases s)
  have "rows_inv rows (fst (put_ingest_row ov r s))"
    using Cons.prems s by (auto simp: put_ingest_row_cases intro: rows_inv_set)
  with Cons.IH Cons.prems show ?case by simp
qed simp

lemma ingest_overwrites:
  "\<forall>r \<in> set rs. st_observed_at r \<noteq> [] \<Longrightarrow>
     fst (fold (put_ingest_row True) rs (m, n)) = fold row_put rs m"
  by (induction rs arbitrary: m n) (auto simp: put_ingest_row_cases)

lemma ingest_get:
  assumes "\<forall>r \<in> set rs. st_observed_at r \<noteq> []"
  shows "jm_get (fst (fold (put_ingest_row False) rs (m, n))) k =
    (case jm_get m k of Some v \<Rightarrow> Some v | None \<Rightarrow> find (\<lambda>r. st_observed_at r = k) rs)"
  using assms
proof (induction rs arbitrary: m n)
  case (Cons r rs)
  obtain m1 n1 where st: "put_ingest_row False r (m, n) = (m1, n1)" by (cases "put_ingest_row False r (m, n)")
  have "jm_get m1 k = (case jm_get m k of Some v \<Rightarrow> Some v
      | None \<Rightarrow> if st_observed_at r = k then Some r else None)"
    using st Cons.prems
    by (auto simp: put_ingest_row_cases row_put_def jm_has_def jm_get_set split: option.splits if_splits)
  moreover have "jm_get (fst (fold (put_ingest_row False) rs (m1, n1))) k =
    (case jm_get m1 k of Some v \<Rightarrow> Some v | None \<Rightarrow> find (\<lambda>r. st_observed_at r = k) rs)"
    using Cons by simp
  ultimately show ?case using st by (auto split: option.splits)
qed (simp split: option.splits)

lemma find_hd_filter: "find P xs = (if filter P xs = [] then None else Some (hd (filter P xs)))"
  by (induction xs) auto

lemma fold_row_put_last:
  "jm_get (fold row_put rs m) k =
     (case filter (\<lambda>r. st_observed_at r = k) rs of [] \<Rightarrow> jm_get m k | rs' \<Rightarrow> Some (last rs'))"
  using jm.get_fold_put [of st_observed_at "\<lambda>r. r" rs m k]
  unfolding row_put_def by (auto split: list.splits)

text \<open>The row that stands for a time stamp: the last stored row, or else the first ingest row; when
  ingest rows may overwrite, the last row of all, the ingest rows coming after the stored ones.\<close>

definition row_for :: "stitch_row list \<Rightarrow> stitch_row list \<Rightarrow> bool \<Rightarrow> string \<Rightarrow> stitch_row" where
  "row_for r2 ing ov k =
     (let stored = filter (\<lambda>r. st_observed_at r = k) r2; fresh = filter (\<lambda>r. st_observed_at r = k) ing
      in if ov then last (stored @ fresh) else if stored = [] then hd fresh else last stored)"

lemma filter_timed: "k \<noteq> [] \<Longrightarrow> filter (\<lambda>r. st_observed_at r = k) (timed rows) = filter (\<lambda>r. st_observed_at r = k) rows"
  unfolding timed_def filter_filter by (rule filter_cong) auto

lemma times_of_filter: "k \<in> times_of rows \<longleftrightarrow> k \<noteq> [] \<and> filter (\<lambda>r. st_observed_at r = k) rows \<noteq> []"
  by (auto simp: timed_def filter_empty_conv)

lemma merged_get:
  assumes "k \<in> times_of r2 \<union> times_of ing"
  shows "jm_get (fst (fold (put_ingest_row ov) (timed ing) (fold row_put (timed r2) jm_empty, n))) k =
    Some (row_for r2 ing ov k)"
proof -
  have k: "k \<noteq> []" using assms by (auto simp: times_of_filter)
  have ti: "\<forall>r \<in> set (timed ing). st_observed_at r \<noteq> []" by (auto simp: timed_def)
  have e: "jm_get jm_empty k = (None :: stitch_row option)" by (simp add: jm_get_empty)
  show ?thesis
  proof (cases ov)
    case True
    then show ?thesis using assms ti e k
      by (auto simp: ingest_overwrites fold_row_put_last filter_timed row_for_def times_of_filter
          split: list.splits)
  next
    case False
    then show ?thesis using assms e k
      by (auto simp: ingest_get [OF ti] fold_row_put_last find_hd_filter filter_timed row_for_def
          times_of_filter split: list.splits option.splits)
  qed
qed

lemma mergeAndDedupeRows_spec:
  assumes "mergeAndDedupeRows r2 ing ov = (out, n)"
  shows "distinct (List.map st_observed_at out)"
    and "sorted (List.map row_ms out)"
    and "st_observed_at ` set out = times_of r2 \<union> times_of ing"
    and "set out \<subseteq> set r2 \<union> set ing"
    and "set out = row_for r2 ing ov ` (times_of r2 \<union> times_of ing)"
    and "n = int (length (timed ing)) - int (card (times_of ing - times_of r2))"
proof -
  define m1 where "m1 = fold row_put (timed r2) jm_empty"
  define s2 where "s2 = fold (put_ingest_row ov) (timed ing) (m1, 0)"
  define m2 where "m2 = fst s2"
  let ?R = "r2 @ ing"
  have out: "out = sort_key row_ms (jm_values m2)" "n = snd s2"
    using assms by (auto simp: mergeAndDedupeRows_def put_r2_fold m1_def m2_def s2_def
        put_ingest_timed [of _ ing] split: prod.splits)
  have ti: "\<forall>r \<in> set (timed ing). st_observed_at r \<noteq> []" "set (timed ing) \<subseteq> set ing"
    "set (timed r2) \<subseteq> set r2" by (auto simp: timed_def)
  have i1: "rows_inv ?R m1" unfolding m1_def
    by (rule rows_inv_fold) (use ti in \<open>auto simp: rows_inv_def\<close>)
  then have i2: "rows_inv ?R m2" unfolding m2_def s2_def
    by (intro ingest_inv) (use ti in auto)
  have keys: "List.map st_observed_at (jm_values m2) = jm_keys m2"
    using i2 by (auto simp: rows_inv_def jm_values_def jm_keys_def jm_mem_get [symmetric])
  have wf: "distinct (jm_keys m1)" "distinct (jm_keys m2)"
    using i1 i2 by (simp_all add: rows_inv_def jm_wf_def)
  show "distinct (List.map st_observed_at out)"
    using wf(2) keys by (simp add: out sorting_simps)
  show "sorted (List.map row_ms out)" by (simp add: out)
  have k1: "set (jm_keys m1) = times_of r2"
    using jm.keys_fold_put_set [of st_observed_at "\<lambda>r. r" "timed r2" jm_empty]
    by (simp add: m1_def row_put_def [abs_def] jm_keys_def jm_empty_def)
  have k2: "set (jm_keys m2) = times_of r2 \<union> times_of ing"
    "int (length m2) + n = int (length m1) + int (length (timed ing))"
    using ingest_keys [OF ti(1), of ov m1 0] k1 by (simp_all add: m2_def s2_def out)
  show "st_observed_at ` set out = times_of r2 \<union> times_of ing"
    using k2(1) arg_cong [OF keys, of set] by (simp add: out)
  have mem: "v \<in> set out \<longleftrightarrow> (\<exists>k. jm_get m2 k = Some v)" for v
    using i2 by (simp add: out rows_inv_def jm_values_mem)
  show "set out \<subseteq> set r2 \<union> set ing" using mem i2 by (auto simp: rows_inv_def)
  have km: "{k. jm_get m2 k \<noteq> None} = times_of r2 \<union> times_of ing"
    using k2(1) by (auto simp: jm_get_None)
  have got: "\<And>k. k \<in> times_of r2 \<union> times_of ing \<Longrightarrow> jm_get m2 k = Some (row_for r2 ing ov k)"
    using merged_get by (simp add: m2_def s2_def m1_def)
  show "set out = row_for r2 ing ov ` (times_of r2 \<union> times_of ing)"
  proof (intro set_eqI iffI)
    fix v assume "v \<in> set out"
    then obtain k where k: "jm_get m2 k = Some v" using mem by blast
    then have "k \<in> times_of r2 \<union> times_of ing" using km by blast
    with got [OF this] k show "v \<in> row_for r2 ing ov ` (times_of r2 \<union> times_of ing)" by simp
  next
    fix v assume "v \<in> row_for r2 ing ov ` (times_of r2 \<union> times_of ing)"
    then obtain k where "k \<in> times_of r2 \<union> times_of ing" "v = row_for r2 ing ov k" by (rule imageE)
    with got show "v \<in> set out" using mem by blast
  qed
  have "length m1 = card (times_of r2)"
    using distinct_card [OF wf(1)] k1 by (simp add: jm_keys_def)
  moreover have "length m2 = card (times_of r2 \<union> times_of ing)"
    using distinct_card [OF wf(2)] k2(1) by (simp add: jm_keys_def)
  moreover have "card (times_of r2 \<union> times_of ing) = card (times_of r2) + card (times_of ing - times_of r2)"
    by (subst card_Un_disjoint [symmetric]) (auto intro: arg_cong [where f = card])
  ultimately show "n = int (length (timed ing)) - int (card (times_of ing - times_of r2))"
    using k2(2) by simp
qed

section \<open>Lemmas on the window\<close>

lemma window_bounds_span:
  assumes "resolveTimeseriesWindowBounds now label su eu d = w" "wb_startMs w = Some s"
  shows "wb_endMs w \<le> now" "s \<ge> wb_endMs w - (case d of Fin x \<Rightarrow> max 1 \<lfloor>x\<rfloor> | _ \<Rightarrow> 90) * MS_DAY"
  using assms
  by (auto simp: resolveTimeseriesWindowBounds_def Let_def split: option.splits if_splits)

lemma computeNextSince_max:
  "opt_le (parseIsoMsOrNull since) (fold (\<lambda>row cur. opt_max cur (parseIsoMsOrNull (JStr (st_observed_at row)))) rows (parseIsoMsOrNull since))"
  by (rule fold_opt_max_start)

section \<open>Properties\<close>

text \<open>C33: merging the rows of the stored history and of the ingest database gives each time stamp once,
  in the order of time. The row of a time stamp is the last stored row of it, or else the first ingest
  row; with permission to overwrite it is the last ingest row, or else the last stored row. The count of
  duplicates is the number of ingest rows whose time stamp was taken when they came, by a stored row or
  by an earlier ingest row; a stored row that a later stored row of its time replaces is not counted.\<close>

theorem merged_rows_accounted:
  assumes "mergeAndDedupeRows r2 ing ov = (out, n)"
  shows "distinct (List.map st_observed_at out) \<and> sorted (List.map row_ms out)
    \<and> st_observed_at ` set out = times_of r2 \<union> times_of ing
    \<and> set out = row_for r2 ing ov ` (times_of r2 \<union> times_of ing)
    \<and> n = int (length (timed ing)) - int (card (times_of ing - times_of r2))"
  using mergeAndDedupeRows_spec [OF assms] by blast

definition stitch_sample :: "string \<Rightarrow> string \<Rightarrow> stitch_row" where
  "stitch_sample tm s = \<lparr>st_observed_at = tm, st_value = Some (Fin 4), st_source = s, st_unit = None\<rparr>"

theorem merged_rows_accounted_witness:
  "let stored = [stitch_sample ''2024-03-01T10:00:00.000Z'' ''r2'', stitch_sample ''2024-03-01T10:00:00.000Z'' ''r2b''];
       fresh = [stitch_sample ''2024-03-01T10:00:00.000Z'' ''ingest'', stitch_sample ''2024-03-01T09:00:00.000Z'' ''ingest''];
       merged = mergeAndDedupeRows stored fresh False
   in set (fst merged) = {stitch_sample ''2024-03-01T10:00:00.000Z'' ''r2b'', stitch_sample ''2024-03-01T09:00:00.000Z'' ''ingest''}
     \<and> snd merged = 1"
  using merged_rows_accounted [OF surjective_pairing,
      of "[stitch_sample ''2024-03-01T10:00:00.000Z'' ''r2'', stitch_sample ''2024-03-01T10:00:00.000Z'' ''r2b'']"
      "[stitch_sample ''2024-03-01T10:00:00.000Z'' ''ingest'', stitch_sample ''2024-03-01T09:00:00.000Z'' ''ingest'']" False]
  by (simp add: Let_def timed_def row_for_def stitch_sample_def)

text \<open>C34: merging slices implements the union of sets of instants: the merged slices are apart from
  each other, cover what the given ones cover, and depend on nothing else, so merging again or
  merging the slices in another order gives the same bounds.\<close>

theorem slice_merge_canonical:
  assumes "covered (List.map slice_bounds ss) = covered (List.map slice_bounds ts)"
  shows "apart (List.map slice_bounds (mergeSlices ss))
    \<and> covered (List.map slice_bounds (mergeSlices ss)) = covered (List.map slice_bounds ss)
    \<and> List.map slice_bounds (mergeSlices ss) = List.map slice_bounds (mergeSlices ts)
    \<and> List.map slice_bounds (mergeSlices (mergeSlices ss)) = List.map slice_bounds (mergeSlices ss)"
  using slices.apart_merge slices.covered_merge slices.merge_canonical [OF assms]
    slices.merge_canonical [OF slices.covered_merge] by blast

definition sample_slice :: "int \<Rightarrow> int \<Rightarrow> slice" where
  "sample_slice s e = \<lparr>sl_startMs = s, sl_endMs = e, sl_reason = ''gap''\<rparr>"

theorem slice_merge_canonical_witness:
  "List.map slice_bounds (mergeSlices [sample_slice 5 9, sample_slice 0 5]) =
     List.map slice_bounds (mergeSlices [sample_slice 0 9])"
  by (rule slice_merge_canonical [THEN conjunct2, THEN conjunct2, THEN conjunct1])
    (auto simp: covered_def sample_slice_def)

text \<open>C35: the plan asks the ingest database for exactly the open part of the window that the cap on the
  tail allows, in slices that are apart from each other. The skipped list has one entry for each open
  slice that holds instants the plan does not ask for, in the order of the open slices: its bounds are
  the first of those instants and the one after the last, its reason is the reason of the slice, marked
  as outside the cap.\<close>

theorem fill_plan_exact:
  "let plan = buildTimeseriesV2SupabaseFillPlan s e rows cov h;
       asked = covered (List.map slice_bounds (fp_ingestSlices plan));
       left = (\<lambda>sl. {sl_startMs sl ..< sl_endMs sl} - asked)
   in apart (List.map slice_bounds (fp_ingestSlices plan))
      \<and> asked = (if h \<le> 0 then {} else covered (List.map slice_bounds (open_slices s e rows cov)) \<inter> {e - h * HOUR_MS ..})
      \<and> fp_skippedIngestSlices plan =
         List.map (\<lambda>sl. \<lparr>sk_start_utc = to_iso (Min (left sl)), sk_end_utc = to_iso (Max (left sl) + 1),
             sk_reason = sl_reason sl @ ''_outside_supabase_tail_cap''\<rparr>)
           (filter (\<lambda>sl. left sl \<noteq> {}) (open_slices s e rows cov))"
  using fill_plan_apart fill_plan_covered fill_plan_skipped [OF refl]
  unfolding Let_def not_asked_def outside_cap_def by blast

end
