(* ===== verification/RequestWindow.thy ===== *)
theory RequestWindow
  imports Stitch
begin

text \<open>
  workers/uk_aq_cache_proxy/src/station_history/request_window.mjs: the canonical URL of
  a time series request, the runtime limits read from the environment, and the window
  of a request. A URL is its origin with its path, its fragment and the list of its query
  parameters, as \<open>URLSearchParams\<close> keeps them; environments are functions from
  names to values. Every rejected request of this file has status 400, so the error
  carries the code alone.
\<close>

section \<open>Query parameters\<close>

type_synonym params = "(string \<times> string) list"

record url =
  url_base :: string
  url_params :: params
  url_hash :: string

definition ps_get :: "params \<Rightarrow> string \<Rightarrow> jsval" where
  "ps_get ps k = (case map_of ps k of None \<Rightarrow> Null | Some v \<Rightarrow> JStr v)"

definition ps_has :: "params \<Rightarrow> string \<Rightarrow> bool" where
  "ps_has ps k \<longleftrightarrow> k \<in> fst ` set ps"

definition ps_delete :: "string \<Rightarrow> params \<Rightarrow> params" where
  "ps_delete k ps = filter (\<lambda>kv. fst kv \<noteq> k) ps"

text \<open>\<open>set\<close> overwrites the first parameter of that name and drops the others.\<close>

fun ps_set :: "string \<Rightarrow> string \<Rightarrow> params \<Rightarrow> params" where
  "ps_set k v [] = [(k, v)]"
| "ps_set k v (kv # ps) = (if fst kv = k then (k, v) # ps_delete k ps else kv # ps_set k v ps)"

definition ps_append :: "string \<Rightarrow> string \<Rightarrow> params \<Rightarrow> params" where
  "ps_append k v ps = ps @ [(k, v)]"

definition ps_set_opt :: "string \<Rightarrow> string option \<Rightarrow> params \<Rightarrow> params" where
  "ps_set_opt k v ps = (case v of None \<Rightarrow> ps | Some t \<Rightarrow> ps_set k t ps)"

definition with_params :: "(params \<Rightarrow> params) \<Rightarrow> url \<Rightarrow> url" where
  "with_params f u = u\<lparr>url_params := f (url_params u)\<rparr>"

definition fresh_url :: "url \<Rightarrow> params \<Rightarrow> url" where
  "fresh_url u ps = \<lparr>url_base = url_base u, url_params = ps, url_hash = []\<rparr>"

section \<open>Parsing of values\<close>

definition trim_coalesce :: "jsval \<Rightarrow> string" where
  "trim_coalesce value = js_trim (str_coalesce value)"

definition parseBooleanFlag :: "jsval \<Rightarrow> bool" where
  "parseBooleanFlag value \<longleftrightarrow> js_lower (trim_coalesce value) \<in> {''1'', ''true'', ''yes'', ''on''}"

definition parseIntInRange :: "jsval \<Rightarrow> int \<Rightarrow> int \<Rightarrow> int \<Rightarrow> int" where
  "parseIntInRange value fallback lo hi =
     (let normalized = trim_coalesce value in
      if normalized = [] then fallback
      else case js_parse_number normalized of
          Fin x \<Rightarrow> if \<lfloor>x\<rfloor> < lo \<or> hi < \<lfloor>x\<rfloor> then fallback else \<lfloor>x\<rfloor>
        | _ \<Rightarrow> fallback)"

fun getFirstSearchParam :: "params \<Rightarrow> string list \<Rightarrow> jsval" where
  "getFirstSearchParam ps [] = Null"
| "getFirstSearchParam ps (k # ks) =
     (if trim_coalesce (ps_get ps k) \<noteq> [] then ps_get ps k else getFirstSearchParam ps ks)"

definition all_digits :: "string \<Rightarrow> bool" where
  "all_digits s \<longleftrightarrow> s \<noteq> [] \<and> list_all is_digit s"

definition parsePositiveIntegerStringOrNull :: "jsval \<Rightarrow> string option" where
  "parsePositiveIntegerStringOrNull value =
     (let t = trim_coalesce value in
      if \<not> all_digits t then None
      else case js_parse_number t of
          Fin x \<Rightarrow> if x < 1 \<or> 2147483647 < x then None else Some (int_str \<lfloor>x\<rfloor>)
        | _ \<Rightarrow> None)"

definition normalizeIsoOrNull :: "jsval \<Rightarrow> string option" where
  "normalizeIsoOrNull value = map_option to_iso (parseIsoMsOrNull value)"

definition squeeze_code :: "string \<Rightarrow> string" where
  "squeeze_code s = filter (\<lambda>c. \<not> (is_ws c \<or> c \<in> {CHR ''.'', CHR ''_'', CHR ''-''})) s"

definition normalizeTimeseriesPollutantKey :: "jsval \<Rightarrow> string option" where
  "normalizeTimeseriesPollutantKey value =
     (let normalized = squeeze_code (js_lower (trim_coalesce value))
      in if normalized \<in> {''pm25'', ''pm10'', ''no2''} then Some normalized else None)"

definition flag_value :: "string \<Rightarrow> string option" where
  "flag_value s =
     (if s \<in> {''1'', ''true'', ''yes'', ''on''} then Some ''true''
      else if s \<in> {''0'', ''false'', ''no'', ''off''} then Some ''false'' else None)"

definition normalizeResponsePartFlag :: "params \<Rightarrow> string \<Rightarrow> string" where
  "normalizeResponsePartFlag ps name =
     (if \<not> ps_has ps name then ''true''
      else case flag_value (js_lower (trim_coalesce (ps_get ps name))) of
          Some f \<Rightarrow> f
        | None \<Rightarrow> str_coalesce (ps_get ps name))"

definition since_of :: "params \<Rightarrow> string option" where
  "since_of ps =
     (case normalizeIsoOrNull (ps_get ps ''since'') of
        Some t \<Rightarrow> Some t
      | None \<Rightarrow> (let t = trim_coalesce (ps_get ps ''since'') in if t = [] then None else Some t))"

section \<open>The canonical request\<close>

record v2_flags =
  vf_enabled :: bool
  vf_proxyFirst :: bool
  vf_r2First :: bool
  vf_allowIngestOverwrite :: bool

definition resolveTimeseriesV2FlagsFromEnv :: "jsval \<Rightarrow> jsval \<Rightarrow> jsval \<Rightarrow> jsval \<Rightarrow> v2_flags" where
  "resolveTimeseriesV2FlagsFromEnv v2EnabledRaw proxyFirstRaw r2FirstRaw allowIngestOverwriteRaw =
     \<lparr>vf_enabled = parseBooleanFlag v2EnabledRaw, vf_proxyFirst = parseBooleanFlag proxyFirstRaw,
      vf_r2First = parseBooleanFlag r2FirstRaw,
      vf_allowIngestOverwrite = parseBooleanFlag allowIngestOverwriteRaw\<rparr>"

definition isTimeseriesV2Request :: "url \<Rightarrow> string \<Rightarrow> v2_flags \<Rightarrow> string \<Rightarrow> bool" where
  "isTimeseriesV2Request u upstreamFunction flags timeseriesUpstreamFunction \<longleftrightarrow>
     upstreamFunction = timeseriesUpstreamFunction \<and> vf_enabled flags \<and> vf_proxyFirst flags
     \<and> trim_coalesce (ps_get (url_params u) ''v'') = ''2''"

definition isProgressiveStationHistoryChunkRequest :: "url \<Rightarrow> bool" where
  "isProgressiveStationHistoryChunkRequest u =
     (let ps = url_params u in
      case (parseIsoMsOrNull (js_or (ps_get ps ''start_utc'') (ps_get ps ''from_utc'')),
            parseIsoMsOrNull (js_or (ps_get ps ''end_utc'') (ps_get ps ''to_utc'')),
            parseIsoMsOrNull (ps_get ps ''stable_head_start_utc'')) of
        (Some s, Some e, Some h) \<Rightarrow> s < e \<and> e \<le> h \<and> e - s \<le> 31 * 24 * 60 * 60 * 1000
      | _ \<Rightarrow> False)"

definition ALLOWED_WINDOWS :: "string list" where
  "ALLOWED_WINDOWS = [''12h'', ''24h'', ''7d'', ''31d'', ''90d'']"

definition CACHE_BUSTER_KEYS :: "string list" where
  "CACHE_BUSTER_KEYS = [''_t'', ''timestamp'', ''cache_bust'', ''random'']"

definition PRIMARY_QUERY_KEYS :: "string list" where
  "PRIMARY_QUERY_KEYS = [''timeseries_id'', ''connector_id'', ''pollutant'', ''window'', ''since'',
     ''start_utc'', ''end_utc'', ''stable_head_start_utc'', ''format'', ''v'', ''include_observations'',
     ''include_aqi'']"

text \<open>What the canonical URL is built from.\<close>

record ts_query =
  tq_timeseries_id :: "string option"
  tq_connector_id :: "string option"
  tq_pollutant :: "string option"
  tq_window :: "string option"
  tq_since :: "string option"
  tq_range :: "(string \<times> string) option"
  tq_stable_head :: "string option"
  tq_parts :: "(string \<times> string) option"

definition valid_range :: "params \<Rightarrow> (string \<times> string) option" where
  "valid_range ps =
     (case (normalizeIsoOrNull (getFirstSearchParam ps [''start_utc'', ''start'']),
            normalizeIsoOrNull (getFirstSearchParam ps [''end_utc'', ''end''])) of
        (Some s, Some e) \<Rightarrow>
          (case (date_parse s, date_parse e) of
             (Some a, Some b) \<Rightarrow> if a < b then Some (s, e) else None
           | _ \<Rightarrow> None)
      | _ \<Rightarrow> None)"

definition read_query :: "params \<Rightarrow> ts_query" where
  "read_query ps =
     (let rawWindow = js_lower (trim_coalesce (ps_get ps ''window''));
          range = valid_range ps
      in \<lparr>tq_timeseries_id = parsePositiveIntegerStringOrNull (ps_get ps ''timeseries_id''),
          tq_connector_id = parsePositiveIntegerStringOrNull (ps_get ps ''connector_id''),
          tq_pollutant = normalizeTimeseriesPollutantKey (ps_get ps ''pollutant''),
          tq_window = (if rawWindow \<in> set ALLOWED_WINDOWS \<and> range = None then Some rawWindow else None),
          tq_since = since_of ps,
          tq_range = range,
          tq_stable_head = normalizeIsoOrNull (ps_get ps ''stable_head_start_utc''),
          tq_parts = (if ps_has ps ''include_observations'' \<or> ps_has ps ''include_aqi''
            then Some (normalizeResponsePartFlag ps ''include_observations'',
                       normalizeResponsePartFlag ps ''include_aqi'') else None)\<rparr>)"

definition write_query :: "ts_query \<Rightarrow> params" where
  "write_query q =
     (let p1 = ps_set_opt ''timeseries_id'' (tq_timeseries_id q) [];
          p2 = ps_set_opt ''connector_id'' (tq_connector_id q) p1;
          p3 = ps_set_opt ''pollutant'' (tq_pollutant q) p2;
          p4 = ps_set_opt ''window'' (tq_window q) p3;
          p5 = ps_set_opt ''since'' (tq_since q) p4;
          p6 = (case tq_range q of None \<Rightarrow> p5 | Some (s, e) \<Rightarrow> ps_set ''end_utc'' e (ps_set ''start_utc'' s p5));
          p7 = ps_set_opt ''stable_head_start_utc'' (tq_stable_head q) p6;
          p8 = (case tq_parts q of None \<Rightarrow> p7
                | Some (ob, aqi) \<Rightarrow> ps_set ''include_aqi'' aqi (ps_set ''include_observations'' ob p7));
          p9 = ps_set ''format'' ''json'' p8
      in ps_set ''v'' ''2'' p9)"

definition canonicalizeTimeseriesV2RequestUrl :: "url \<Rightarrow> bool \<Rightarrow> url \<times> string list" where
  "canonicalizeTimeseriesV2RequestUrl u allowCacheBypassParams =
     (let ps0 = url_params u;
          stripped = (if allowCacheBypassParams then [] else filter (ps_has ps0) CACHE_BUSTER_KEYS);
          ps = fold ps_delete stripped ps0;
          canonical = write_query (read_query ps);
          extra = (if allowCacheBypassParams then filter (\<lambda>kv. fst kv \<notin> set PRIMARY_QUERY_KEYS) ps else [])
      in (fresh_url u (fold (\<lambda>kv. ps_append (fst kv) (snd kv)) extra canonical), stripped))"

section \<open>Limits and the window\<close>

record runtime_config =
  rc_maxWindowDays :: int
  rc_maxR2ObjectsPerRequest :: int
  rc_maxSupabaseTailHours :: int
  rc_incrementalOverlapMinutes :: int
  rc_partialOnR2Error :: bool
  rc_partialOnIngestError :: bool
  rc_recentEdgeTtlSeconds :: int
  rc_recentBrowserTtlSeconds :: int
  rc_recentSwrSeconds :: int
  rc_historicalEdgeTtlSeconds :: int
  rc_historicalBrowserTtlSeconds :: int
  rc_historicalSwrSeconds :: int
  rc_staleIfErrorSeconds :: int

definition buildTimeseriesV2RuntimeConfig :: "(string \<Rightarrow> jsval) \<Rightarrow> runtime_config" where
  "buildTimeseriesV2RuntimeConfig env =
     (let text_of = (\<lambda>name. JStr (str_coalesce (env name)));
          flag = (\<lambda>name dflt. parseBooleanFlag (JStr (js_string (js_coalesce (env name) (JStr dflt)))));
          maxWindowDays = parseIntInRange (text_of ''UK_AQ_TIMESERIES_MAX_WINDOW_DAYS'') 90 1 365
      in \<lparr>rc_maxWindowDays = maxWindowDays,
          rc_maxR2ObjectsPerRequest = parseIntInRange (text_of ''UK_AQ_TIMESERIES_MAX_R2_OBJECTS_PER_REQUEST'') 1000 1 2000,
          rc_maxSupabaseTailHours = parseIntInRange (text_of ''UK_AQ_TIMESERIES_MAX_SUPABASE_TAIL_HOURS'') 168 1 (maxWindowDays * 24),
          rc_incrementalOverlapMinutes = parseIntInRange (text_of ''UK_AQ_TIMESERIES_INCREMENTAL_OVERLAP_MINUTES'') 180 0 720,
          rc_partialOnR2Error = flag ''UK_AQ_TIMESERIES_PARTIAL_ON_R2_ERROR'' ''true'',
          rc_partialOnIngestError = flag ''UK_AQ_TIMESERIES_PARTIAL_ON_INGEST_ERROR'' ''false'',
          rc_recentEdgeTtlSeconds = parseIntInRange (text_of ''UK_AQ_TIMESERIES_RECENT_EDGE_TTL_SECONDS'') 60 0 604800,
          rc_recentBrowserTtlSeconds = parseIntInRange (text_of ''UK_AQ_TIMESERIES_RECENT_BROWSER_TTL_SECONDS'') 60 0 604800,
          rc_recentSwrSeconds = parseIntInRange (text_of ''UK_AQ_TIMESERIES_RECENT_SWR_SECONDS'') 60 0 604800,
          rc_historicalEdgeTtlSeconds = parseIntInRange (text_of ''UK_AQ_TIMESERIES_HISTORICAL_EDGE_TTL_SECONDS'') 86400 0 604800,
          rc_historicalBrowserTtlSeconds = parseIntInRange (text_of ''UK_AQ_TIMESERIES_HISTORICAL_BROWSER_TTL_SECONDS'') 86400 0 604800,
          rc_historicalSwrSeconds = parseIntInRange (text_of ''UK_AQ_TIMESERIES_HISTORICAL_SWR_SECONDS'') 86400 0 604800,
          rc_staleIfErrorSeconds = parseIntInRange (text_of ''UK_AQ_TIMESERIES_STALE_IF_ERROR_SECONDS'') 300 0 604800\<rparr>)"

record request_window =
  rw_timeseriesId :: jsnum
  rw_connectorId :: "jsnum option"
  rw_pollutantKey :: "string option"
  rw_requestStartMs :: int
  rw_requestEndMs :: int
  rw_requestSinceIso :: "string option"
  rw_normalizedWindowLabel :: "string option"

definition request_bounds :: "int \<Rightarrow> url \<Rightarrow> runtime_config \<Rightarrow> window_bounds" where
  "request_bounds now u runtime =
     (let ps = url_params u in
      resolveTimeseriesWindowBounds now (js_lower (trim_coalesce (ps_get ps ''window'')))
        (getFirstSearchParam ps [''start_utc'', ''start'']) (getFirstSearchParam ps [''end_utc'', ''end''])
        (num_of_int (rc_maxWindowDays runtime)))"

definition buildTimeseriesV2RequestWindow ::
  "int \<Rightarrow> url \<Rightarrow> runtime_config \<Rightarrow> request_window res" where
  "buildTimeseriesV2RequestWindow now u runtime =
     (let ps = url_params u; bounds = request_bounds now u runtime in
      case parsePositiveIntegerStringOrNull (ps_get ps ''timeseries_id'') of
        None \<Rightarrow> Inl (JsError ''timeseries_id_required'')
      | Some tid \<Rightarrow>
          (case wb_startMs bounds of
             None \<Rightarrow> Inl (JsError ''invalid_window'')
           | Some s \<Rightarrow>
               if wb_endMs bounds \<le> s then Inl (JsError ''invalid_window'')
               else Inr \<lparr>rw_timeseriesId = js_parse_number tid,
                 rw_connectorId = map_option js_parse_number (parsePositiveIntegerStringOrNull (ps_get ps ''connector_id'')),
                 rw_pollutantKey = normalizeTimeseriesPollutantKey (ps_get ps ''pollutant''),
                 rw_requestStartMs = s, rw_requestEndMs = wb_endMs bounds,
                 rw_requestSinceIso = since_of ps,
                 rw_normalizedWindowLabel = wb_label bounds\<rparr>))"

section \<open>Lemmas on query parameters\<close>

lemma ps_has_map_of: "ps_has ps k \<longleftrightarrow> map_of ps k \<noteq> None"
  by (simp add: ps_has_def map_of_eq_None_iff)

lemma ps_get_Null [simp]: "ps_get ps k = Null \<longleftrightarrow> \<not> ps_has ps k"
  by (simp add: ps_get_def ps_has_map_of split: option.splits)

lemma ps_get_Nil [simp]: "ps_get [] k = Null" "\<not> ps_has [] k"
  by (simp_all add: ps_get_def ps_has_def)

lemma map_of_ps_delete: "map_of (ps_delete k ps) k' = (if k' = k then None else map_of ps k')"
  by (induction ps) (auto simp: ps_delete_def)

lemma map_of_ps_set: "map_of (ps_set k v ps) k' = (if k' = k then Some v else map_of ps k')"
  by (induction k v ps rule: ps_set.induct) (auto simp: map_of_ps_delete)

lemma ps_get_set: "ps_get (ps_set k v ps) k' = (if k' = k then JStr v else ps_get ps k')"
  by (simp add: ps_get_def map_of_ps_set)

lemma ps_get_delete: "ps_get (ps_delete k ps) k' = (if k' = k then Null else ps_get ps k')"
  by (simp add: ps_get_def map_of_ps_delete)

lemma ps_has_set: "ps_has (ps_set k v ps) k' \<longleftrightarrow> k' = k \<or> ps_has ps k'"
  by (auto simp: ps_has_map_of map_of_ps_set)

lemma ps_has_delete: "ps_has (ps_delete k ps) k' \<longleftrightarrow> k' \<noteq> k \<and> ps_has ps k'"
  by (auto simp: ps_has_map_of map_of_ps_delete)

lemma ps_get_set_opt:
  "ps_get (ps_set_opt k v ps) k' = (if k' = k \<and> v \<noteq> None then JStr (the v) else ps_get ps k')"
  by (auto simp: ps_set_opt_def ps_get_set split: option.splits)

lemma ps_has_set_opt: "ps_has (ps_set_opt k v ps) k' \<longleftrightarrow> k' = k \<and> v \<noteq> None \<or> ps_has ps k'"
  by (auto simp: ps_set_opt_def ps_has_set split: option.splits)

lemmas ps_simps = ps_get_set ps_get_delete ps_has_set ps_has_delete ps_get_set_opt ps_has_set_opt

lemma ps_delete_absent: "\<not> ps_has ps k \<Longrightarrow> ps_delete k ps = ps"
  by (auto simp: ps_delete_def ps_has_def filter_id_conv)

lemma ps_delete_twice [simp]: "ps_delete k (ps_delete k ps) = ps_delete k ps"
  by (simp add: ps_delete_def)

lemma ps_delete_set [simp]: "ps_delete k (ps_set k v ps) = ps_delete k ps"
  by (induction k v ps rule: ps_set.induct) (auto simp: ps_delete_def)

lemma ps_set_twice [simp]: "ps_set k v (ps_set k w ps) = ps_set k v ps"
  by (induction k w ps rule: ps_set.induct) (auto simp: ps_delete_def)

section \<open>Lemmas on the parsed values\<close>

lemma trim_coalesce_JStr [simp]: "trim_coalesce (JStr s) = js_trim s"
  by (simp add: trim_coalesce_def)

lemma trim_coalesce_Null [simp]: "trim_coalesce Null = []"
  by (simp add: trim_coalesce_def str_coalesce_def js_coalesce_def is_nullish_def js_trim_def)

lemma parse_trimmed: "parseIsoMsOrNull (JStr (js_trim s)) = parseIsoMsOrNull (JStr s)"
  by (simp add: parseIsoMsOrNull_def)

lemma parse_Null [simp]: "parseIsoMsOrNull Null = None"
  by (simp add: parseIsoMsOrNull_def str_coalesce_def js_coalesce_def is_nullish_def js_trim_def)

definition time_value :: "int \<Rightarrow> bool" where
  "time_value t \<longleftrightarrow> \<bar>t\<bar> \<le> MAX_TIME"

lemma date_parse_value: "date_parse s = Some t \<Longrightarrow> time_value t"
  unfolding time_value_def by (rule date_parse_range)

lemma value_round_trip: "time_value t \<Longrightarrow> date_parse (to_iso t) = Some t"
  unfolding time_value_def by (rule date_parse_iso)

lemma parseIso_value: "parseIsoMsOrNull v = Some t \<Longrightarrow> time_value t"
  by (auto simp: parseIsoMsOrNull_def Let_def intro: date_parse_value split: if_splits)

text \<open>The characters of a printed time are no white space.\<close>

lemma pad_chars: "c \<in> set (pad n k) \<Longrightarrow> is_digit c"
  using pad_digits [of n k] by (simp add: list_all_iff)

lemma iso_chars: "c \<in> set (to_iso t) \<Longrightarrow> is_digit c \<or> c \<in> set ''+-:.TZ''"
  by (auto simp: to_iso_def iso_day_def iso_clock_def iso_year_def dest: pad_chars split: prod.splits if_splits)

lemma to_iso_trim [simp]: "js_trim (to_iso t) = to_iso t"
proof (rule js_trim_id)
  fix c assume "c \<in> set (to_iso t)"
  then show "\<not> is_ws c" using iso_chars [of c t] digit_not_ws [of c] by (auto simp: is_ws_def)
qed

lemma to_iso_nonempty [simp]: "to_iso t \<noteq> []"
  by (simp add: to_iso_def)

lemma parse_to_iso: "time_value t \<Longrightarrow> parseIsoMsOrNull (JStr (to_iso t)) = Some t"
  by (simp add: parseIsoMsOrNull_def value_round_trip)

lemma normalizeIso_again: "normalizeIsoOrNull v = Some s \<Longrightarrow> normalizeIsoOrNull (JStr s) = Some s"
  by (auto simp: normalizeIsoOrNull_def parse_to_iso dest: parseIso_value)

lemma normalizeIso_parse:
  "normalizeIsoOrNull v = Some s \<Longrightarrow> \<exists>t. s = to_iso t \<and> date_parse s = Some t \<and> parseIsoMsOrNull v = Some t"
  using parseIso_value [of v] value_round_trip by (auto simp: normalizeIsoOrNull_def)

lemma normalizeIso_Null [simp]: "normalizeIsoOrNull Null = None"
  by (simp add: normalizeIsoOrNull_def)

lemma positive_string_again:
  assumes "parsePositiveIntegerStringOrNull v = Some s"
  shows "parsePositiveIntegerStringOrNull (JStr s) = Some s"
    and "\<exists>n. 1 \<le> n \<and> n \<le> 2147483647 \<and> s = int_str n"
proof -
  have "\<exists>x. \<not> x < 1 \<and> \<not> 2147483647 < x \<and> s = int_str \<lfloor>x :: rat\<rfloor>"
    using assms by (auto simp: parsePositiveIntegerStringOrNull_def Let_def split: if_splits jsnum.splits)
  then obtain x :: rat where x: "1 \<le> x" "x \<le> 2147483647" "s = int_str \<lfloor>x\<rfloor>" by (auto simp: not_less)
  define n where "n = \<lfloor>x\<rfloor>"
  have n: "1 \<le> n" "n \<le> 2147483647" "s = nat_str n"
    using x by (auto simp: n_def le_floor_iff floor_le_iff int_str_def)
  have d: "list_all is_digit s" "s \<noteq> []" using n by (simp_all add: nat_str_digits)
  have "js_parse_number s = Fin (of_int n)" using n by (simp add: parse_nat_str)
  moreover have "(1 :: rat) \<le> of_int n" "of_int n \<le> (2147483647 :: rat)" using n by simp_all
  ultimately show "parsePositiveIntegerStringOrNull (JStr s) = Some s"
    using n d by (simp add: parsePositiveIntegerStringOrNull_def js_trim_digits all_digits_def int_str_def)
  show "\<exists>n. 1 \<le> n \<and> n \<le> 2147483647 \<and> s = int_str n" using n by (intro exI [of _ n]) (simp add: int_str_def)
qed

lemma positive_Null [simp]: "parsePositiveIntegerStringOrNull Null = None"
  by (simp add: parsePositiveIntegerStringOrNull_def all_digits_def)

lemma pollutant_again:
  "normalizeTimeseriesPollutantKey v = Some s \<Longrightarrow> normalizeTimeseriesPollutantKey (JStr s) = Some s"
  by (auto simp: normalizeTimeseriesPollutantKey_def Let_def js_trim_def js_lower_def squeeze_code_def
      char_lower_def is_ws_def split: if_splits)

lemma pollutant_Null [simp]: "normalizeTimeseriesPollutantKey Null = None"
  by (simp add: normalizeTimeseriesPollutantKey_def squeeze_code_def js_lower_def)

lemma window_again: "s \<in> set ALLOWED_WINDOWS \<Longrightarrow> js_lower (js_trim s) = s"
  by (auto simp: ALLOWED_WINDOWS_def js_trim_def js_lower_def char_lower_def is_ws_def)

lemma flag_value_again: "flag_value s = Some f \<Longrightarrow> f = ''true'' \<or> f = ''false''"
  by (auto simp: flag_value_def split: if_splits)

lemma flag_again: "flag_value (js_lower (js_trim ''true'')) = Some ''true''"
  "flag_value (js_lower (js_trim ''false'')) = Some ''false''"
  by (simp_all add: flag_value_def js_trim_def js_lower_def char_lower_def is_ws_def)

text \<open>A value that normalises to itself as a response part.\<close>

definition part_normal :: "string \<Rightarrow> bool" where
  "part_normal f \<longleftrightarrow> (case flag_value (js_lower (js_trim f)) of Some g \<Rightarrow> g = f | None \<Rightarrow> True)"

lemma part_flag_normal: "part_normal (normalizeResponsePartFlag ps name)"
proof (cases "ps_has ps name")
  case True
  then obtain v where v: "ps_get ps name = JStr v" by (auto simp: ps_get_def ps_has_map_of)
  show ?thesis
  proof (cases "flag_value (js_lower (js_trim v))")
    case None
    then show ?thesis using True v by (simp add: part_normal_def normalizeResponsePartFlag_def)
  next
    case (Some f)
    then have "f = ''true'' \<or> f = ''false''" by (rule flag_value_again)
    then show ?thesis
      using True v Some flag_again by (auto simp: part_normal_def normalizeResponsePartFlag_def)
  qed
qed (simp add: normalizeResponsePartFlag_def part_normal_def flag_again)

lemma part_normal_again:
  "ps_get ps name = JStr f \<Longrightarrow> part_normal f \<Longrightarrow> normalizeResponsePartFlag ps name = f"
  by (auto simp: normalizeResponsePartFlag_def part_normal_def split: option.splits dest: ps_get_Null [THEN iffD2])

section \<open>Lemmas on the canonical request\<close>

definition normal_query :: "ts_query \<Rightarrow> bool" where
  "normal_query q \<longleftrightarrow>
     (\<forall>s. tq_timeseries_id q = Some s \<longrightarrow> parsePositiveIntegerStringOrNull (JStr s) = Some s)
     \<and> (\<forall>s. tq_connector_id q = Some s \<longrightarrow> parsePositiveIntegerStringOrNull (JStr s) = Some s)
     \<and> (\<forall>s. tq_pollutant q = Some s \<longrightarrow> normalizeTimeseriesPollutantKey (JStr s) = Some s)
     \<and> (\<forall>s. tq_window q = Some s \<longrightarrow> s \<in> set ALLOWED_WINDOWS \<and> tq_range q = None)
     \<and> (\<forall>s. tq_since q = Some s \<longrightarrow> js_trim s = s \<and> s \<noteq> [] \<and>
          (case normalizeIsoOrNull (JStr s) of None \<Rightarrow> True | Some t \<Rightarrow> t = s))
     \<and> (\<forall>s e. tq_range q = Some (s, e) \<longrightarrow> (\<exists>a b. s = to_iso a \<and> e = to_iso b \<and> a < b \<and>
          time_value a \<and> time_value b))
     \<and> (\<forall>s. tq_stable_head q = Some s \<longrightarrow> normalizeIsoOrNull (JStr s) = Some s)
     \<and> (\<forall>f g. tq_parts q = Some (f, g) \<longrightarrow> part_normal f \<and> part_normal g)"

lemma since_normal:
  assumes "since_of ps = Some s"
  shows "js_trim s = s \<and> s \<noteq> [] \<and> (case normalizeIsoOrNull (JStr s) of None \<Rightarrow> True | Some t \<Rightarrow> t = s)"
proof (cases "normalizeIsoOrNull (ps_get ps ''since'')")
  case None
  then have s: "s = trim_coalesce (ps_get ps ''since'')" "s \<noteq> []"
    using assms by (auto simp: since_of_def Let_def split: if_splits)
  then obtain v where v: "ps_get ps ''since'' = JStr v" by (auto simp: ps_get_def split: option.splits)
  have "normalizeIsoOrNull (JStr s) = None"
    using None s v by (simp add: normalizeIsoOrNull_def parse_trimmed)
  then show ?thesis using s v by simp
next
  case (Some t)
  then have "s = t" using assms by (simp add: since_of_def)
  then show ?thesis
    using normalizeIso_again [OF Some] normalizeIso_parse [OF Some] by auto
qed

lemma valid_range_parse:
  assumes "valid_range ps = Some (s, e)"
  shows "\<exists>a b. s = to_iso a \<and> e = to_iso b \<and> a < b \<and> time_value a \<and> time_value b"
proof -
  obtain a b where ab: "date_parse s = Some a" "date_parse e = Some b" "a < b"
    using assms by (auto simp: valid_range_def split: option.splits if_splits)
  have n: "\<exists>v. normalizeIsoOrNull v = Some s" "\<exists>w. normalizeIsoOrNull w = Some e"
    using assms by (auto simp: valid_range_def split: option.splits if_splits)
  then show ?thesis using ab normalizeIso_parse date_parse_value by (metis option.inject)
qed

lemma read_query_normal: "normal_query (read_query ps)"
proof -
  have "tq_window (read_query ps) = Some s \<Longrightarrow> s \<in> set ALLOWED_WINDOWS \<and> tq_range (read_query ps) = None" for s
    by (auto simp: read_query_def Let_def split: if_splits)
  moreover have "tq_parts (read_query ps) = Some (f, g) \<Longrightarrow> part_normal f \<and> part_normal g" for f g
    by (auto simp: read_query_def Let_def part_flag_normal split: if_splits)
  moreover have "tq_range (read_query ps) = Some (s, e) \<Longrightarrow>
      \<exists>a b. s = to_iso a \<and> e = to_iso b \<and> a < b \<and> time_value a \<and> time_value b" for s e
    by (rule valid_range_parse [of ps]) (simp add: read_query_def Let_def)
  moreover have "tq_since (read_query ps) = since_of ps"
      "tq_timeseries_id (read_query ps) = parsePositiveIntegerStringOrNull (ps_get ps ''timeseries_id'')"
      "tq_connector_id (read_query ps) = parsePositiveIntegerStringOrNull (ps_get ps ''connector_id'')"
      "tq_pollutant (read_query ps) = normalizeTimeseriesPollutantKey (ps_get ps ''pollutant'')"
      "tq_stable_head (read_query ps) = normalizeIsoOrNull (ps_get ps ''stable_head_start_utc'')"
    by (simp_all add: read_query_def Let_def)
  ultimately show ?thesis
    unfolding normal_query_def
    by (simp add: positive_string_again(1) pollutant_again since_normal normalizeIso_again)
qed

lemma write_query_get:
  "ps_get (write_query q) ''timeseries_id'' = (case tq_timeseries_id q of None \<Rightarrow> Null | Some s \<Rightarrow> JStr s)"
  "ps_get (write_query q) ''connector_id'' = (case tq_connector_id q of None \<Rightarrow> Null | Some s \<Rightarrow> JStr s)"
  "ps_get (write_query q) ''pollutant'' = (case tq_pollutant q of None \<Rightarrow> Null | Some s \<Rightarrow> JStr s)"
  "ps_get (write_query q) ''window'' = (case tq_window q of None \<Rightarrow> Null | Some s \<Rightarrow> JStr s)"
  "ps_get (write_query q) ''since'' = (case tq_since q of None \<Rightarrow> Null | Some s \<Rightarrow> JStr s)"
  "ps_get (write_query q) ''start_utc'' = (case tq_range q of None \<Rightarrow> Null | Some (s, e) \<Rightarrow> JStr s)"
  "ps_get (write_query q) ''end_utc'' = (case tq_range q of None \<Rightarrow> Null | Some (s, e) \<Rightarrow> JStr e)"
  "ps_get (write_query q) ''start'' = Null" "ps_get (write_query q) ''end'' = Null"
  "ps_get (write_query q) ''stable_head_start_utc'' = (case tq_stable_head q of None \<Rightarrow> Null | Some s \<Rightarrow> JStr s)"
  "ps_get (write_query q) ''include_observations'' = (case tq_parts q of None \<Rightarrow> Null | Some (f, g) \<Rightarrow> JStr f)"
  "ps_get (write_query q) ''include_aqi'' = (case tq_parts q of None \<Rightarrow> Null | Some (f, g) \<Rightarrow> JStr g)"
  by (simp_all add: write_query_def Let_def ps_simps split: option.splits prod.splits)

lemma write_query_no_buster: "k \<in> set CACHE_BUSTER_KEYS \<Longrightarrow> \<not> ps_has (write_query q) k"
  by (auto simp: CACHE_BUSTER_KEYS_def write_query_def Let_def ps_simps split: option.splits prod.splits)

lemma ps_has_get: "ps_has ps k \<longleftrightarrow> ps_get ps k \<noteq> Null"
  by simp

lemma valid_range_write:
  assumes "normal_query q"
  shows "valid_range (write_query q) = tq_range q"
proof (cases "tq_range q")
  case None
  then show ?thesis by (simp add: valid_range_def write_query_get)
next
  case (Some se)
  obtain s e where se: "se = (s, e)" by (cases se)
  then obtain a b where "s = to_iso a" "e = to_iso b" "a < b" "time_value a" "time_value b"
    using assms Some unfolding normal_query_def by metis
  then show ?thesis
    using Some se
    by (simp add: valid_range_def write_query_get normalizeIsoOrNull_def parse_to_iso value_round_trip)
qed

lemma since_write:
  assumes "normal_query q"
  shows "since_of (write_query q) = tq_since q"
proof (cases "tq_since q")
  case (Some s)
  then have "js_trim s = s" "s \<noteq> []" "case normalizeIsoOrNull (JStr s) of None \<Rightarrow> True | Some t \<Rightarrow> t = s"
    using assms unfolding normal_query_def by blast+
  then show ?thesis using Some by (simp add: since_of_def write_query_get split: option.splits)
qed (simp add: since_of_def write_query_get)

lemma parts_write:
  assumes "normal_query q"
  shows "tq_parts (read_query (write_query q)) = tq_parts q"
proof (cases "tq_parts q")
  case None
  then show ?thesis
    by (simp add: read_query_def Let_def ps_has_get write_query_get del: ps_get_Null)
next
  case (Some fg)
  obtain f g where fg: "fg = (f, g)" by (cases fg)
  have "part_normal f" "part_normal g" using assms Some fg unfolding normal_query_def by blast+
  moreover have "ps_get (write_query q) ''include_observations'' = JStr f"
      "ps_get (write_query q) ''include_aqi'' = JStr g"
    using Some fg by (simp_all add: write_query_get)
  ultimately show ?thesis
    using Some fg
    by (simp add: read_query_def Let_def part_normal_again ps_has_get del: ps_get_Null)
qed

text \<open>Reading a written normal query gives it back.\<close>

lemma read_write_query:
  assumes "normal_query q"
  shows "read_query (write_query q) = q"
proof -
  have w: "tq_window q = Some s \<Longrightarrow> js_lower (js_trim s) = s \<and> s \<in> set ALLOWED_WINDOWS \<and> tq_range q = None" for s
    using assms window_again unfolding normal_query_def by blast
  have n: "[] \<notin> set ALLOWED_WINDOWS" "js_lower [] = []" by (simp_all add: ALLOWED_WINDOWS_def js_lower_def)
  have "tq_window (read_query (write_query q)) = tq_window q"
    using w n by (auto simp: read_query_def Let_def valid_range_write [OF assms] write_query_get split: option.splits)
  moreover have "tq_range (read_query (write_query q)) = tq_range q" "tq_since (read_query (write_query q)) = tq_since q"
    by (simp_all add: read_query_def Let_def valid_range_write [OF assms] since_write [OF assms])
  moreover have "tq_timeseries_id (read_query (write_query q)) = tq_timeseries_id q"
      "tq_connector_id (read_query (write_query q)) = tq_connector_id q"
      "tq_pollutant (read_query (write_query q)) = tq_pollutant q"
      "tq_stable_head (read_query (write_query q)) = tq_stable_head q"
    using assms unfolding normal_query_def
    by (simp_all add: read_query_def Let_def write_query_get split: option.splits)
  ultimately show ?thesis by (simp add: parts_write [OF assms])
qed

lemma canonical_params:
  "url_params (fst (canonicalizeTimeseriesV2RequestUrl u False)) =
     write_query (read_query (fold ps_delete (filter (ps_has (url_params u)) CACHE_BUSTER_KEYS) (url_params u)))"
  "snd (canonicalizeTimeseriesV2RequestUrl u False) = filter (ps_has (url_params u)) CACHE_BUSTER_KEYS"
  by (simp_all add: canonicalizeTimeseriesV2RequestUrl_def Let_def fresh_url_def)

lemma canonicalize_idem:
  "canonicalizeTimeseriesV2RequestUrl (fst (canonicalizeTimeseriesV2RequestUrl u False)) False =
     (fst (canonicalizeTimeseriesV2RequestUrl u False), [])"
proof -
  have "filter (ps_has (write_query q)) CACHE_BUSTER_KEYS = []" for q
    using write_query_no_buster by (auto simp: filter_empty_conv)
  then show ?thesis
    by (simp add: canonicalizeTimeseriesV2RequestUrl_def Let_def fresh_url_def read_write_query read_query_normal)
qed

text \<open>Parameters that are not read do not matter.\<close>

definition READ_KEYS :: "string list" where
  "READ_KEYS = PRIMARY_QUERY_KEYS @ [''start'', ''end'']"

lemma read_query_cong:
  assumes "\<And>k. k \<in> set READ_KEYS \<Longrightarrow> ps_get ps k = ps_get qs k"
  shows "read_query ps = read_query qs"
proof -
  have "ps_has ps k = ps_has qs k" if "k \<in> set READ_KEYS" for k
    using assms [OF that] by (simp add: ps_has_get del: ps_get_Null)
  then have eqs: "\<forall>k \<in> set READ_KEYS. ps_get ps k = ps_get qs k \<and> ps_has ps k = ps_has qs k"
    using assms by blast
  show ?thesis
    using eqs [unfolded READ_KEYS_def PRIMARY_QUERY_KEYS_def, simplified]
    by (simp add: read_query_def Let_def valid_range_def since_of_def normalizeResponsePartFlag_def
        cong: option.case_cong)
qed

lemma fold_delete_get: "k \<notin> set ks \<Longrightarrow> ps_get (fold ps_delete ks ps) k = ps_get ps k"
  by (induction ks arbitrary: ps) (auto simp: ps_get_delete)

lemma canonical_params_read:
  "url_params (fst (canonicalizeTimeseriesV2RequestUrl u False)) = write_query (read_query (url_params u))"
proof -
  have "read_query (fold ps_delete (filter (ps_has (url_params u)) CACHE_BUSTER_KEYS) (url_params u))
      = read_query (url_params u)"
    by (rule read_query_cong, rule fold_delete_get)
      (auto simp: READ_KEYS_def PRIMARY_QUERY_KEYS_def CACHE_BUSTER_KEYS_def)
  then show ?thesis by (simp add: canonical_params)
qed

lemma canonicalize_ignores:
  assumes "k \<notin> set READ_KEYS"
  shows "fst (canonicalizeTimeseriesV2RequestUrl (with_params (ps_delete k) u) False) =
    fst (canonicalizeTimeseriesV2RequestUrl u False)"
proof -
  have "read_query (ps_delete k (url_params u)) = read_query (url_params u)"
    by (rule read_query_cong) (use assms in \<open>auto simp: ps_get_delete\<close>)
  then have "url_params (fst (canonicalizeTimeseriesV2RequestUrl (with_params (ps_delete k) u) False)) =
      url_params (fst (canonicalizeTimeseriesV2RequestUrl u False))"
    by (simp add: canonical_params_read with_params_def)
  then show ?thesis
    by (simp add: canonicalizeTimeseriesV2RequestUrl_def Let_def fresh_url_def with_params_def)
qed

section \<open>Lemmas on limits and the window\<close>

lemma parseIntInRange_bounds:
  assumes "lo \<le> d" "d \<le> hi"
  shows "lo \<le> parseIntInRange v d lo hi" "parseIntInRange v d lo hi \<le> hi"
  using assms by (auto simp: parseIntInRange_def Let_def split: jsnum.splits)

lemma runtime_days: "1 \<le> rc_maxWindowDays (buildTimeseriesV2RuntimeConfig env)"
  "rc_maxWindowDays (buildTimeseriesV2RuntimeConfig env) \<le> 365"
  using parseIntInRange_bounds [of 1 90 365] by (simp_all add: buildTimeseriesV2RuntimeConfig_def Let_def)

lemma request_window_bounds:
  assumes "buildTimeseriesV2RequestWindow now u rt = Inr w" "1 \<le> rc_maxWindowDays rt" "rc_maxWindowDays rt \<le> 365"
  shows "rw_requestStartMs w < rw_requestEndMs w" "rw_requestEndMs w \<le> now"
    "rw_requestEndMs w - rw_requestStartMs w \<le> rc_maxWindowDays rt * MS_DAY"
proof -
  let ?b = "request_bounds now u rt"
  have s: "wb_startMs ?b = Some (rw_requestStartMs w)" "wb_endMs ?b = rw_requestEndMs w"
    and lt: "rw_requestStartMs w < rw_requestEndMs w"
    using assms(1) by (auto simp: buildTimeseriesV2RequestWindow_def Let_def split: option.splits if_splits)
  show "rw_requestStartMs w < rw_requestEndMs w" by (rule lt)
  have d: "num_of_int (rc_maxWindowDays rt) = Fin (of_int (rc_maxWindowDays rt))"
    by (rule num_of_int_exact) (use assms(2,3) in simp)
  show "rw_requestEndMs w \<le> now" "rw_requestEndMs w - rw_requestStartMs w \<le> rc_maxWindowDays rt * MS_DAY"
    using window_bounds_span [OF request_bounds_def [unfolded Let_def, symmetric] s(1)] s(2) assms(2)
    by (simp_all add: d)
qed

section \<open>Properties\<close>

text \<open>The canonical URL of a request is a fixed point (a canonical URL canonicalises to itself and has
  nothing left to strip), and no parameter outside those that are read, such as a cache buster,
  makes two requests differ.\<close>

lemma canonical_url_stable:
  assumes "k \<notin> set READ_KEYS"
  shows "canonicalizeTimeseriesV2RequestUrl (fst (canonicalizeTimeseriesV2RequestUrl u False)) False =
      (fst (canonicalizeTimeseriesV2RequestUrl u False), [])
    \<and> fst (canonicalizeTimeseriesV2RequestUrl (with_params (ps_delete k) u) False) =
      fst (canonicalizeTimeseriesV2RequestUrl u False)"
  using canonicalize_idem canonicalize_ignores [OF assms] by blast

definition sample_url :: url where
  "sample_url = \<lparr>url_base = ''https://example.org/timeseries'',
     url_params = [(''timeseries_id'', ''042''), (''window'', ''7D''), (''_t'', ''99''), (''pollutant'', ''PM2.5'')],
     url_hash = []\<rparr>"

text \<open>Under the limits read from any environment, an accepted window is not empty, does not
  reach past the present and is no longer than the configured number of days, which is 1 to 365.\<close>

lemma request_window_bounded:
  assumes "buildTimeseriesV2RequestWindow now u (buildTimeseriesV2RuntimeConfig env) = Inr w"
  shows "rw_requestStartMs w < rw_requestEndMs w \<and> rw_requestEndMs w \<le> now
    \<and> rw_requestEndMs w - rw_requestStartMs w \<le>
       rc_maxWindowDays (buildTimeseriesV2RuntimeConfig env) * MS_DAY
    \<and> rc_maxWindowDays (buildTimeseriesV2RuntimeConfig env) \<in> {1..365}"
  using request_window_bounds [OF assms runtime_days] runtime_days by simp

text \<open>A request is rejected for its identifier exactly when that is not a decimal number from 1 to
  2147483647, and otherwise for its window exactly when the resolved bounds are no window; there is
  no other rejection.\<close>

lemma request_rejections:
  "(buildTimeseriesV2RequestWindow now u rt = Inl (JsError ''timeseries_id_required'') \<longleftrightarrow>
      parsePositiveIntegerStringOrNull (ps_get (url_params u) ''timeseries_id'') = None)
   \<and> (buildTimeseriesV2RequestWindow now u rt = Inl (JsError ''invalid_window'') \<longleftrightarrow>
      parsePositiveIntegerStringOrNull (ps_get (url_params u) ''timeseries_id'') \<noteq> None
      \<and> (case wb_startMs (request_bounds now u rt) of
           None \<Rightarrow> True | Some s \<Rightarrow> wb_endMs (request_bounds now u rt) \<le> s))
   \<and> buildTimeseriesV2RequestWindow now u rt \<in>
      range Inr \<union> {Inl (JsError ''timeseries_id_required''), Inl (JsError ''invalid_window'')}"
proof (cases "parsePositiveIntegerStringOrNull (ps_get (url_params u) ''timeseries_id'')")
  case None
  then show ?thesis by (simp add: buildTimeseriesV2RequestWindow_def Let_def)
next
  case (Some tid)
  show ?thesis
  proof (cases "wb_startMs (request_bounds now u rt)")
    case None
    then show ?thesis using Some by (simp add: buildTimeseriesV2RequestWindow_def Let_def)
  next
    case (Some s)
    then show ?thesis
      using \<open>parsePositiveIntegerStringOrNull (ps_get (url_params u) ''timeseries_id'') = Some tid\<close>
      by (simp add: buildTimeseriesV2RequestWindow_def Let_def)
  qed
qed

end
