(* ===== verification/CacheKeys.thy ===== *)
theory CacheKeys
  imports RequestWindow
begin

text \<open>
  workers/uk_aq_cache_proxy/src/station_history/cache_keys.mjs: the URLs that serve as
  public cache keys of the station series and of the AQI history, and the hourly
  generation that ages the keys of mutable answers. The time is an argument.
\<close>

section \<open>Constants\<close>

definition AQI_HISTORY_START_KEYS :: "string list" where
  "AQI_HISTORY_START_KEYS = [''from_utc'', ''start_utc'', ''from'', ''start'']"

definition AQI_HISTORY_END_KEYS :: "string list" where
  "AQI_HISTORY_END_KEYS = [''to_utc'', ''end_utc'', ''to'', ''end'']"

definition GENERATION_PARAM :: string where
  "GENERATION_PARAM = ''__uk_aq_aqi_proxy_generation_hour''"

definition AQI_CONTRACT_PARAM :: string where
  "AQI_CONTRACT_PARAM = ''__uk_aq_aqi_history_contract''"

definition SERIES_CONTRACT_PARAM :: string where
  "SERIES_CONTRACT_PARAM = ''__uk_aq_station_series_contract''"

lemmas cache_params = GENERATION_PARAM_def AQI_CONTRACT_PARAM_def SERIES_CONTRACT_PARAM_def

section \<open>The station series\<close>

definition partFlagOrNull :: "params \<Rightarrow> string \<Rightarrow> string option" where
  "partFlagOrNull ps name =
     (if \<not> ps_has ps name then Some ''true'' else flag_value (js_lower (trim_coalesce (ps_get ps name))))"

definition series_id :: "params \<Rightarrow> string option" where
  "series_id ps =
     (let t = trim_coalesce (ps_get ps ''timeseries_id''); n = js_parse_number t
      in if all_digits t \<and> num_lt (Fin 0) n then Some (num_str n) else None)"

definition series_params :: "params \<Rightarrow> string \<Rightarrow> string \<Rightarrow> params" where
  "series_params ps includeObservations includeAqi =
     (let window = js_lower (trim_coalesce (ps_get ps ''window''));
          p1 = ps_set_opt ''timeseries_id'' (series_id ps) [];
          p2 = ps_set_opt ''pollutant'' (normalizeTimeseriesPollutantKey (ps_get ps ''pollutant'')) p1;
          p3 = ps_set_opt ''start_utc'' (normalizeIsoOrNull (ps_get ps ''start_utc'')) p2;
          p4 = ps_set_opt ''end_utc'' (normalizeIsoOrNull (ps_get ps ''end_utc'')) p3;
          p5 = ps_set_opt ''window'' (if window = [] then None else Some window) p4;
          p6 = ps_set ''format'' ''objects'' p5;
          p7 = ps_set ''include_observations'' includeObservations p6;
          p8 = ps_set ''include_aqi'' includeAqi p7
      in ps_set SERIES_CONTRACT_PARAM ''5-explicit-response-parts'' p8)"

definition canonicalizeStationSeriesRequestUrl :: "url \<Rightarrow> string \<Rightarrow> string \<Rightarrow> url" where
  "canonicalizeStationSeriesRequestUrl u upstreamFunction stationSeriesUpstream =
     (let ps = url_params u in
      if upstreamFunction \<noteq> stationSeriesUpstream then u
      else case (partFlagOrNull ps ''include_observations'', partFlagOrNull ps ''include_aqi'') of
          (Some ob, Some aqi) \<Rightarrow> fresh_url u (series_params ps ob aqi)
        | _ \<Rightarrow> u)"

definition stripStationSeriesCacheContractComponent :: "url \<Rightarrow> url" where
  "stripStationSeriesCacheContractComponent u = with_params (ps_delete SERIES_CONTRACT_PARAM) u"

text \<open>The body of the cached answer, None when it is not JSON.\<close>

definition cachedStationSeriesIdentityMatchesRequest ::
  "jsval option \<Rightarrow> url \<Rightarrow> string \<Rightarrow> string \<Rightarrow> bool" where
  "cachedStationSeriesIdentityMatchesRequest body u upstreamFunction stationSeriesUpstream =
     (let supplied = trim_coalesce (ps_get (url_params u) ''connector_id'') in
      if upstreamFunction \<noteq> stationSeriesUpstream then True
      else if supplied = [] then True
      else if \<not> all_digits supplied \<or> num_le (js_parse_number supplied) (Fin 0) then False
      else case body of
          None \<Rightarrow> False
        | Some payload \<Rightarrow>
            (let authoritative = js_number (js_coalesce (jget (jget payload ''identity'') ''connector_id'')
                   (jget (jget payload ''request'') ''connector_id''))
             in num_integer authoritative \<noteq> None \<and> num_lt (Fin 0) authoritative
                \<and> num_eq authoritative (js_parse_number supplied)))"

section \<open>The AQI history\<close>

definition set_present :: "string list \<Rightarrow> string \<Rightarrow> params \<Rightarrow> params" where
  "set_present ks v = fold (\<lambda>k ps. if ps_has ps k then ps_set k v ps else ps) ks"

definition history_format :: "params \<Rightarrow> string" where
  "history_format ps =
     (let requested = js_lower (js_trim (str_or_empty (ps_get ps ''format'')))
      in if requested = ''tsv'' then ''tsv'' else if requested = ''objects'' then ''objects'' else ''compact'')"

definition floor_hour :: "int \<Rightarrow> int" where
  "floor_hour t = t div HOUR_MS * HOUR_MS"

text \<open>A window of three days or more is cut to whole hours, under every name it has.\<close>

definition round_window :: "params \<Rightarrow> params" where
  "round_window ps =
     (case (parseIsoMsOrNull (getFirstSearchParam ps AQI_HISTORY_START_KEYS),
            parseIsoMsOrNull (getFirstSearchParam ps AQI_HISTORY_END_KEYS)) of
        (Some s, Some e) \<Rightarrow>
          if e \<le> s \<or> e - s < 3 * 24 * HOUR_MS then ps
          else if floor_hour e \<le> floor_hour s then ps
          else set_present AQI_HISTORY_END_KEYS (to_iso (floor_hour e))
                 (set_present AQI_HISTORY_START_KEYS (to_iso (floor_hour s)) ps)
      | _ \<Rightarrow> ps)"

definition history_params :: "params \<Rightarrow> params" where
  "history_params ps =
     (let p1 = ps_set AQI_CONTRACT_PARAM ''aqi_hour_interval_v2'' ps
      in round_window (ps_set ''format'' (history_format p1) p1))"

definition canonicalizeAqiHistoryRequestUrl :: "url \<Rightarrow> string \<Rightarrow> string \<Rightarrow> url" where
  "canonicalizeAqiHistoryRequestUrl u upstreamFunction aqiHistoryUpstream =
     (if upstreamFunction \<noteq> aqiHistoryUpstream then u else with_params history_params u)"

definition resolveAqiMutableHours :: "jsval \<Rightarrow> int \<Rightarrow> int \<Rightarrow> int \<Rightarrow> int" where
  "resolveAqiMutableHours raw defaultHours minHours maxHours = parseIntInRange raw defaultHours minHours maxHours"

definition isAqiProxyHourlyGenerationEnabled :: "jsval \<Rightarrow> bool" where
  "isAqiProxyHourlyGenerationEnabled raw = parseBooleanFlag raw"

definition getAqiProxyGenerationHour :: "int \<Rightarrow> string" where
  "getAqiProxyGenerationHour nowMs = to_iso (floor_hour nowMs)"

definition isExplicitImmutableAqiHistoryRequest :: "url \<Rightarrow> int \<Rightarrow> int \<Rightarrow> bool" where
  "isExplicitImmutableAqiHistoryRequest u mutableHours nowMs =
     (case parseIsoMsOrNull (js_or (ps_get (url_params u) ''to_utc'') (js_or (ps_get (url_params u) ''end_utc'')
             (js_or (ps_get (url_params u) ''to'') (ps_get (url_params u) ''end'')))) of
        None \<Rightarrow> False
      | Some e \<Rightarrow> e \<le> nowMs - mutableHours * HOUR_MS)"

definition generation_value :: "int \<Rightarrow> string" where
  "generation_value nowMs = ''1:'' @ getAqiProxyGenerationHour nowMs"

definition applyAqiProxyHourlyGenerationCacheComponent ::
  "url \<Rightarrow> string \<Rightarrow> bool \<Rightarrow> int \<Rightarrow> string \<Rightarrow> int \<Rightarrow> url" where
  "applyAqiProxyHourlyGenerationCacheComponent u upstreamFunction enabled mutableHours aqiHistoryUpstream nowMs =
     (if upstreamFunction \<noteq> aqiHistoryUpstream then u
      else
        let normalized = with_params (ps_delete GENERATION_PARAM) u
        in if enabled \<and> \<not> isExplicitImmutableAqiHistoryRequest normalized mutableHours nowMs
           then with_params (ps_set GENERATION_PARAM (generation_value nowMs)) normalized
           else normalized)"

definition applyStationSeriesAqiGenerationCacheComponent ::
  "url \<Rightarrow> string \<Rightarrow> bool \<Rightarrow> string \<Rightarrow> int \<Rightarrow> url" where
  "applyStationSeriesAqiGenerationCacheComponent u upstreamFunction enabled stationSeriesUpstream nowMs =
     (if upstreamFunction \<noteq> stationSeriesUpstream then u
      else
        let normalized = with_params (ps_delete GENERATION_PARAM) u;
            aqiEnabled = js_lower (trim_coalesce (ps_get (url_params normalized) ''include_aqi''))
              \<notin> {''0'', ''false'', ''no'', ''off''}
        in if enabled \<and> aqiEnabled
           then with_params (ps_set GENERATION_PARAM (generation_value nowMs)) normalized
           else normalized)"

definition stripAqiProxyHourlyGenerationCacheComponent :: "url \<Rightarrow> url" where
  "stripAqiProxyHourlyGenerationCacheComponent u = with_params (ps_delete GENERATION_PARAM) u"

definition stripAqiHistoryCacheContractComponent :: "url \<Rightarrow> url" where
  "stripAqiHistoryCacheContractComponent u = with_params (ps_delete AQI_CONTRACT_PARAM) u"

definition resolveAqiCacheScope ::
  "string \<Rightarrow> url \<Rightarrow> int \<Rightarrow> bool \<Rightarrow> string \<Rightarrow> int \<Rightarrow> string option" where
  "resolveAqiCacheScope upstreamFunction u mutableHours hourlyGenerationEnabled aqiHistoryUpstream nowMs =
     (if upstreamFunction \<noteq> aqiHistoryUpstream then None
      else if isExplicitImmutableAqiHistoryRequest u mutableHours nowMs then Some ''immutable''
      else Some (if hourlyGenerationEnabled then ''recent_hourly'' else ''recent_legacy''))"

text \<open>\<open>Headers\<close> compare names without regard to case.\<close>

type_synonym headers = "(string, string) jsmap"

definition hd_set :: "string \<Rightarrow> string \<Rightarrow> headers \<Rightarrow> headers" where
  "hd_set name v h = jm_set (js_lower name) v h"

definition hd_get :: "headers \<Rightarrow> string \<Rightarrow> jsval" where
  "hd_get h name = (case jm_get h (js_lower name) of None \<Rightarrow> Null | Some v \<Rightarrow> JStr v)"

definition hd_delete :: "string \<Rightarrow> headers \<Rightarrow> headers" where
  "hd_delete name h = filter (\<lambda>kv. fst kv \<noteq> js_lower name) h"

definition addAqiCacheDiagnosticHeaders ::
  "headers \<Rightarrow> string \<Rightarrow> url \<Rightarrow> int \<Rightarrow> bool \<Rightarrow> string \<Rightarrow> int \<Rightarrow> headers" where
  "addAqiCacheDiagnosticHeaders h upstreamFunction u mutableHours hourlyGenerationEnabled aqiHistoryUpstream nowMs =
     (case resolveAqiCacheScope upstreamFunction u mutableHours hourlyGenerationEnabled aqiHistoryUpstream nowMs of
        None \<Rightarrow> h
      | Some scope \<Rightarrow>
          (let h1 = hd_set ''X-UK-AQ-AQI-Cache-Scope'' scope h;
               h2 = hd_set ''X-UK-AQ-AQI-Mutable-Hours'' (int_str mutableHours) h1
           in case ps_get (url_params u) GENERATION_PARAM of
                JStr g \<Rightarrow> if g = [] then h2 else hd_set ''X-UK-AQ-AQI-Generation'' g h2
              | _ \<Rightarrow> h2))"

section \<open>Lemmas on writing parameters\<close>

lemma with_params_simps [simp]:
  "url_params (with_params f u) = f (url_params u)" "url_base (with_params f u) = url_base u"
  "url_hash (with_params f u) = url_hash u" "with_params f (with_params g u) = with_params (f \<circ> g) u"
  by (simp_all add: with_params_def)

lemma with_params_cong: "f (url_params u) = g (url_params u) \<Longrightarrow> with_params f u = with_params g u"
  by (simp add: with_params_def)

lemma delete_set_other: "k \<noteq> k' \<Longrightarrow> ps_delete k (ps_set k' v ps) = ps_set k' v (ps_delete k ps)"
  by (induction k' v ps rule: ps_set.induct) (auto simp: ps_delete_def filter_filter conj_commute)

lemma delete_commute: "ps_delete k (ps_delete k' ps) = ps_delete k' (ps_delete k ps)"
  by (auto simp: ps_delete_def filter_filter intro: filter_cong)

lemma set_set_commute:
  "k \<noteq> k' \<Longrightarrow> ps_has ps k \<Longrightarrow> ps_set k v (ps_set k' w ps) = ps_set k' w (ps_set k v ps)"
proof (induction ps)
  case (Cons kv ps)
  then show ?case
    by (cases "fst kv = k"; cases "fst kv = k'")
      (auto simp: delete_set_other delete_commute ps_has_def)
qed simp

text \<open>A parameter that holds its value once, so that writing it again changes nothing.\<close>

definition pinned :: "string \<Rightarrow> string \<Rightarrow> params \<Rightarrow> bool" where
  "pinned k v ps \<longleftrightarrow> ps_set k v ps = ps"

lemma pinned_has: "pinned k v ps \<Longrightarrow> ps_has ps k"
  unfolding pinned_def by (metis ps_has_set)

lemma pinned_get: "pinned k v ps \<Longrightarrow> ps_get ps k = JStr v"
  unfolding pinned_def by (metis ps_get_set)

lemma pinned_set [simp]: "pinned k v (ps_set k v ps)"
  by (simp add: pinned_def)

lemma pinned_keep: "pinned k v ps \<Longrightarrow> k' \<noteq> k \<Longrightarrow> pinned k v (ps_set k' w ps)"
  using set_set_commute [of k k' ps v w] pinned_has [of k v ps] by (simp add: pinned_def)

lemma set_present_simps [simp]:
  "set_present [] v ps = ps"
  "set_present (k # ks) v ps = set_present ks v (if ps_has ps k then ps_set k v ps else ps)"
  by (simp_all add: set_present_def)

lemma set_present_has [simp]: "ps_has (set_present ks v ps) k = ps_has ps k"
  by (induction ks arbitrary: ps) (auto simp: ps_has_set)

lemma set_present_pinned: "pinned k v ps \<Longrightarrow> k \<notin> set ks \<Longrightarrow> pinned k v (set_present ks w ps)"
proof (induction ks arbitrary: ps)
  case (Cons j ks)
  have "pinned k v (if ps_has ps j then ps_set j w ps else ps)"
    using Cons.prems pinned_keep by auto
  then show ?case using Cons.IH Cons.prems(2) by simp
qed simp

lemma set_present_pins:
  "distinct ks \<Longrightarrow> k \<in> set ks \<Longrightarrow> ps_has ps k \<Longrightarrow> pinned k v (set_present ks v ps)"
proof (induction ks arbitrary: ps)
  case (Cons j ks)
  then show ?case by (cases "j = k") (auto intro: set_present_pinned simp: ps_has_set)
qed simp

lemma set_present_again:
  "(\<And>k. k \<in> set ks \<Longrightarrow> ps_has ps k \<Longrightarrow> pinned k v ps) \<Longrightarrow> set_present ks v ps = ps"
  by (induction ks) (auto simp: pinned_def)

lemma set_present_get_other: "k \<notin> set ks \<Longrightarrow> ps_get (set_present ks v ps) k = ps_get ps k"
  by (induction ks arbitrary: ps) (auto simp: ps_get_set)

lemma set_present_get:
  assumes "k \<in> set ks" "distinct ks"
  shows "ps_get (set_present ks v ps) k = (if ps_has ps k then JStr v else Null)"
  using assms set_present_pins [of ks k ps v] pinned_get by auto

lemma getFirst_has: "getFirstSearchParam ps ks \<noteq> Null \<Longrightarrow> \<exists>k \<in> set ks. ps_has ps k"
  by (induction ks) (auto split: if_splits dest: ps_get_Null [THEN iffD2])

lemma getFirst_set_present:
  assumes "\<And>k. k \<in> set ks \<Longrightarrow> ps_get ps k = (if ps_has ps k then JStr v else Null)"
    and "\<exists>k \<in> set ks. ps_has ps k" "js_trim v \<noteq> []"
  shows "getFirstSearchParam ps ks = JStr v"
  using assms by (induction ks) auto

section \<open>Lemmas on the canonical history request\<close>

lemma floor_hour_idem [simp]: "floor_hour (floor_hour t) = floor_hour t"
  by (simp add: floor_hour_def HOUR_MS_def)

lemma floor_hour_le: "floor_hour t \<le> t" "t < floor_hour t + HOUR_MS"
  using div_bounds [of HOUR_MS t] by (auto simp: floor_hour_def HOUR_MS_def mult.commute)

lemma floor_hour_value: "time_value t \<Longrightarrow> time_value (floor_hour t)"
proof -
  assume "time_value t"
  then have t: "- MAX_TIME \<le> t" "t \<le> MAX_TIME" by (auto simp: time_value_def)
  have "floor_hour (- MAX_TIME) \<le> floor_hour t"
    unfolding floor_hour_def using t(1) by (intro mult_right_mono zdiv_mono1) (simp_all add: HOUR_MS_def)
  moreover have "floor_hour (- MAX_TIME) = - MAX_TIME" by (simp add: floor_hour_def MAX_TIME_def HOUR_MS_def)
  ultimately show ?thesis using floor_hour_le(1) [of t] t(2) by (simp add: time_value_def abs_le_iff)
qed

lemma history_format_again: "ps_get ps ''format'' = JStr (history_format qs) \<Longrightarrow> history_format ps = history_format qs"
  by (auto simp: history_format_def Let_def js_trim_def js_lower_def char_lower_def is_ws_def)

lemma round_window_cases:
  obtains (same) "round_window ps = ps"
  | (cut) s e where "time_value s" "time_value e" "3 * 24 * HOUR_MS \<le> e - s"
      "parseIsoMsOrNull (getFirstSearchParam ps AQI_HISTORY_START_KEYS) = Some s"
      "parseIsoMsOrNull (getFirstSearchParam ps AQI_HISTORY_END_KEYS) = Some e"
      "round_window ps = set_present AQI_HISTORY_END_KEYS (to_iso (floor_hour e))
         (set_present AQI_HISTORY_START_KEYS (to_iso (floor_hour s)) ps)"
proof (cases "parseIsoMsOrNull (getFirstSearchParam ps AQI_HISTORY_START_KEYS)")
  case None
  then show ?thesis using same by (simp add: round_window_def)
next
  case s: (Some s)
  show ?thesis
  proof (cases "parseIsoMsOrNull (getFirstSearchParam ps AQI_HISTORY_END_KEYS)")
    case None
    then show ?thesis using same s by (simp add: round_window_def)
  next
    case e: (Some e)
    then show ?thesis using same cut [OF parseIso_value [OF s] parseIso_value [OF e] _ s e] s
      by (cases "e \<le> s \<or> e - s < 3 * 24 * HOUR_MS \<or> floor_hour e \<le> floor_hour s")
        (auto simp: round_window_def)
  qed
qed

lemma round_window_pinned:
  assumes "pinned k v ps" "k \<notin> set AQI_HISTORY_START_KEYS" "k \<notin> set AQI_HISTORY_END_KEYS"
  shows "pinned k v (round_window ps)"
  by (cases ps rule: round_window_cases) (simp_all add: assms set_present_pinned)

lemma history_keys [simp]:
  "distinct AQI_HISTORY_START_KEYS" "distinct AQI_HISTORY_END_KEYS"
  "k \<in> set AQI_HISTORY_START_KEYS \<Longrightarrow> k \<notin> set AQI_HISTORY_END_KEYS"
  by (auto simp: AQI_HISTORY_START_KEYS_def AQI_HISTORY_END_KEYS_def)

lemma round_window_idem: "round_window (round_window ps) = round_window ps"
proof (cases ps rule: round_window_cases)
  case same
  then show ?thesis by simp
next
  case (cut s e)
  let ?S = AQI_HISTORY_START_KEYS and ?E = AQI_HISTORY_END_KEYS
  let ?vs = "to_iso (floor_hour s)" and ?ve = "to_iso (floor_hour e)"
  define r where "r = round_window ps"
  have r: "r = set_present ?E ?ve (set_present ?S ?vs ps)" using cut(6) by (simp add: r_def)
  have has: "ps_has r k = ps_has ps k" for k by (simp add: r)
  have "getFirstSearchParam ps ?S \<noteq> Null" "getFirstSearchParam ps ?E \<noteq> Null"
    using cut(4,5) by auto
  then have ex: "\<exists>k \<in> set ?S. ps_has r k" "\<exists>k \<in> set ?E. ps_has r k"
    using getFirst_has [of ps ?S] getFirst_has [of ps ?E] by (auto simp: has)
  have "getFirstSearchParam r ?S = JStr ?vs"
    by (rule getFirst_set_present [OF _ ex(1)])
      (simp_all add: r set_present_get_other set_present_get)
  moreover have "getFirstSearchParam r ?E = JStr ?ve"
    by (rule getFirst_set_present [OF _ ex(2)]) (simp_all add: r set_present_get)
  ultimately have p: "parseIsoMsOrNull (getFirstSearchParam r ?S) = Some (floor_hour s)"
      "parseIsoMsOrNull (getFirstSearchParam r ?E) = Some (floor_hour e)"
    using cut(1,2) by (simp_all add: parse_to_iso floor_hour_value)
  have "set_present ?S ?vs r = r"
    by (rule set_present_again) (simp add: r set_present_pinned set_present_pins)
  moreover have "set_present ?E ?ve r = r"
    by (rule set_present_again) (simp add: r set_present_pins)
  ultimately have "round_window r = r" using p by (simp add: round_window_def [of r])
  then show ?thesis by (simp add: r_def)
qed

lemma history_params_idem: "history_params (history_params ps) = history_params ps"
proof -
  define p1 where "p1 = ps_set AQI_CONTRACT_PARAM ''aqi_hour_interval_v2'' ps"
  define r where "r = round_window (ps_set ''format'' (history_format p1) p1)"
  have keys: "AQI_CONTRACT_PARAM \<notin> set AQI_HISTORY_START_KEYS" "AQI_CONTRACT_PARAM \<notin> set AQI_HISTORY_END_KEYS"
      "''format'' \<notin> set AQI_HISTORY_START_KEYS" "''format'' \<notin> set AQI_HISTORY_END_KEYS"
      "AQI_CONTRACT_PARAM \<noteq> ''format''"
    by (simp_all add: AQI_CONTRACT_PARAM_def AQI_HISTORY_START_KEYS_def AQI_HISTORY_END_KEYS_def)
  have c: "pinned AQI_CONTRACT_PARAM ''aqi_hour_interval_v2'' r" "pinned ''format'' (history_format p1) r"
    using round_window_pinned [OF pinned_keep [OF pinned_set keys(5) [symmetric]] keys(1,2)]
      round_window_pinned [OF pinned_set keys(3,4)]
    by (simp_all add: r_def p1_def)
  then have "ps_set AQI_CONTRACT_PARAM ''aqi_hour_interval_v2'' r = r" "ps_set ''format'' (history_format r) r = r"
    using history_format_again [OF pinned_get [OF c(2)]] by (simp_all add: pinned_def)
  then have "history_params r = round_window r" by (simp add: history_params_def Let_def)
  then have "history_params r = r" by (simp add: r_def round_window_idem)
  moreover have "history_params ps = r" by (simp add: history_params_def r_def p1_def Let_def)
  ultimately show ?thesis by simp
qed

lemma canonicalizeAqiHistory_idem:
  "canonicalizeAqiHistoryRequestUrl (canonicalizeAqiHistoryRequestUrl u f up) f up =
     canonicalizeAqiHistoryRequestUrl u f up"
  by (simp add: canonicalizeAqiHistoryRequestUrl_def history_params_idem with_params_def)

section \<open>Lemmas on the hourly generation\<close>

lemma strip_apply:
  "stripAqiProxyHourlyGenerationCacheComponent
     (applyAqiProxyHourlyGenerationCacheComponent u f enabled h up now) =
   stripAqiProxyHourlyGenerationCacheComponent u"
  by (simp add: stripAqiProxyHourlyGenerationCacheComponent_def
      applyAqiProxyHourlyGenerationCacheComponent_def Let_def comp_def)

lemma strip_apply_series:
  "stripAqiProxyHourlyGenerationCacheComponent
     (applyStationSeriesAqiGenerationCacheComponent u f enabled up now) =
   stripAqiProxyHourlyGenerationCacheComponent u"
  by (simp add: stripAqiProxyHourlyGenerationCacheComponent_def
      applyStationSeriesAqiGenerationCacheComponent_def Let_def comp_def)

lemma immutable_delete [simp]:
  "isExplicitImmutableAqiHistoryRequest (with_params (ps_delete GENERATION_PARAM) u) h now =
     isExplicitImmutableAqiHistoryRequest u h now"
  by (simp add: isExplicitImmutableAqiHistoryRequest_def ps_get_delete GENERATION_PARAM_def)

lemma generation_of:
  "ps_get (url_params (applyAqiProxyHourlyGenerationCacheComponent u up True h up now)) GENERATION_PARAM =
     (if isExplicitImmutableAqiHistoryRequest u h now then Null else JStr (generation_value now))"
  by (simp add: applyAqiProxyHourlyGenerationCacheComponent_def Let_def ps_simps)

lemma generation_value_eq:
  assumes "time_value a" "time_value b"
  shows "generation_value a = generation_value b \<longleftrightarrow> a div HOUR_MS = b div HOUR_MS"
proof -
  have "to_iso (floor_hour a) = to_iso (floor_hour b) \<longleftrightarrow> floor_hour a = floor_hour b"
    using value_round_trip [OF floor_hour_value [OF assms(1)]]
      value_round_trip [OF floor_hour_value [OF assms(2)]] by (metis option.inject)
  then show ?thesis
    by (simp add: generation_value_def getAqiProxyGenerationHour_def floor_hour_def HOUR_MS_def)
qed

section \<open>Lemmas on the station series key\<close>

lemma series_params_get:
  "ps_get (series_params ps ob aqi) ''include_observations'' = JStr ob"
  "ps_get (series_params ps ob aqi) ''include_aqi'' = JStr aqi"
  "\<not> ps_has (series_params ps ob aqi) ''connector_id''"
  by (simp_all add: series_params_def Let_def ps_simps SERIES_CONTRACT_PARAM_def)

lemma partFlag_values: "partFlagOrNull ps name = Some f \<Longrightarrow> f = ''true'' \<or> f = ''false''"
  by (auto simp: partFlagOrNull_def dest: flag_value_again split: if_splits)

lemma partFlag_again:
  "ps_get ps name = JStr f \<Longrightarrow> f = ''true'' \<or> f = ''false'' \<Longrightarrow> partFlagOrNull ps name = Some f"
  using flag_again by (auto simp: partFlagOrNull_def dest: ps_get_Null [THEN iffD2])

text \<open>The canonical key carries the response parts of the request, malformed ones included.\<close>

lemma series_parts:
  assumes "name = ''include_observations'' \<or> name = ''include_aqi''"
  shows "partFlagOrNull (url_params (canonicalizeStationSeriesRequestUrl u up up)) name =
    partFlagOrNull (url_params u) name"
proof (cases "partFlagOrNull (url_params u) ''include_observations''")
  case (Some ob)
  show ?thesis
  proof (cases "partFlagOrNull (url_params u) ''include_aqi''")
    case aqi: (Some aqi)
    have "canonicalizeStationSeriesRequestUrl u up up = fresh_url u (series_params (url_params u) ob aqi)"
      using Some aqi by (simp add: canonicalizeStationSeriesRequestUrl_def)
    then show ?thesis
      using assms Some aqi partFlag_again [OF series_params_get(1)] partFlag_again [OF series_params_get(2)]
        partFlag_values [OF Some] partFlag_values [OF aqi]
      by (auto simp: fresh_url_def)
  qed (use Some in \<open>simp add: canonicalizeStationSeriesRequestUrl_def\<close>)
qed (simp add: canonicalizeStationSeriesRequestUrl_def)

text \<open>The connector is a hint: it never partitions the cache.\<close>

lemma series_ignores_connector:
  assumes "partFlagOrNull (url_params u) ''include_observations'' \<noteq> None"
    "partFlagOrNull (url_params u) ''include_aqi'' \<noteq> None"
  shows "canonicalizeStationSeriesRequestUrl (with_params (ps_set ''connector_id'' c) u) up up =
    canonicalizeStationSeriesRequestUrl u up up"
proof -
  let ?q = "ps_set ''connector_id'' c (url_params u)"
  have f: "partFlagOrNull ?q name = partFlagOrNull (url_params u) name" if "name \<noteq> ''connector_id''" for name
    using that by (simp add: partFlagOrNull_def ps_simps)
  have "series_params ?q ob aqi = series_params (url_params u) ob aqi" for ob aqi
    by (simp add: series_params_def series_id_def ps_simps)
  then show ?thesis
    using assms by (auto simp: canonicalizeStationSeriesRequestUrl_def f fresh_url_def split: option.splits)
qed

lemma identity_mismatch_refused:
  assumes "cachedStationSeriesIdentityMatchesRequest body u up up"
    "trim_coalesce (ps_get (url_params u) ''connector_id'') \<noteq> []"
  shows "\<exists>payload n. body = Some payload \<and> 0 < n \<and>
    js_number (js_coalesce (jget (jget payload ''identity'') ''connector_id'')
      (jget (jget payload ''request'') ''connector_id'')) = Fin (of_int n) \<and>
    js_parse_number (trim_coalesce (ps_get (url_params u) ''connector_id'')) = Fin (of_int n)"
proof -
  define a where "a = js_parse_number (trim_coalesce (ps_get (url_params u) ''connector_id''))"
  obtain payload where p: "body = Some payload"
    using assms by (auto simp: cachedStationSeriesIdentityMatchesRequest_def Let_def split: option.splits if_splits)
  define b where "b = js_number (js_coalesce (jget (jget payload ''identity'') ''connector_id'')
      (jget (jget payload ''request'') ''connector_id''))"
  have "num_integer b \<noteq> None" "num_lt (Fin 0) b" "num_eq b a"
    using assms p unfolding a_def b_def
    by (auto simp: cachedStationSeriesIdentityMatchesRequest_def Let_def split: if_splits)
  then obtain n where n: "b = Fin (of_int n)" "0 < n" using num_integer_SomeD by fastforce
  then have "a = Fin (of_int n)" using \<open>num_eq b a\<close> by (cases a) auto
  then show ?thesis using p n unfolding a_def b_def by blast
qed

section \<open>Properties\<close>

text \<open>The canonical key of an AQI history request is a fixed point, although a window of three days
  or more is cut to whole hours under every name it is given.\<close>

lemma history_key_stable:
  "canonicalizeAqiHistoryRequestUrl (canonicalizeAqiHistoryRequestUrl u f up) f up =
     canonicalizeAqiHistoryRequestUrl u f up"
  by (rule canonicalizeAqiHistory_idem)

text \<open>The generation of a cache key is no part of the request (removing it gives back the key without
  it); requests that are mutable get the same generation exactly when they are made in the same
  hour, and requests for a past that no longer changes get none.\<close>

lemma generation_ages_hourly:
  assumes "time_value a" "time_value b"
    "\<not> isExplicitImmutableAqiHistoryRequest u h a" "\<not> isExplicitImmutableAqiHistoryRequest u h b"
    "isExplicitImmutableAqiHistoryRequest v h a"
  shows "stripAqiProxyHourlyGenerationCacheComponent
      (applyAqiProxyHourlyGenerationCacheComponent u up True h up a) = stripAqiProxyHourlyGenerationCacheComponent u
    \<and> (ps_get (url_params (applyAqiProxyHourlyGenerationCacheComponent u up True h up a)) GENERATION_PARAM =
        ps_get (url_params (applyAqiProxyHourlyGenerationCacheComponent u up True h up b)) GENERATION_PARAM
       \<longleftrightarrow> a div HOUR_MS = b div HOUR_MS)
    \<and> \<not> ps_has (url_params (applyAqiProxyHourlyGenerationCacheComponent v up True h up a)) GENERATION_PARAM"
proof -
  have "ps_get (url_params (applyAqiProxyHourlyGenerationCacheComponent v up True h up a)) GENERATION_PARAM = Null"
    using assms(5) by (simp only: generation_of if_True)
  then have "\<not> ps_has (url_params (applyAqiProxyHourlyGenerationCacheComponent v up True h up a)) GENERATION_PARAM"
    by (rule iffD1 [OF ps_get_Null])
  then show ?thesis
    using strip_apply generation_value_eq [OF assms(1,2)] assms(3,4) by (simp add: generation_of)
qed

definition history_url :: "string \<Rightarrow> url" where
  "history_url to_utc = \<lparr>url_base = ''https://example.org/aqi'',
     url_params = [(''to_utc'', to_utc), (''timeseries_id'', ''7'')], url_hash = []\<rparr>"

text \<open>Two station series requests share a cache key only if they ask for the same response parts (so an
  answer without AQI never serves a request with it), the connector, which is a hint, does not
  divide the cache, and a cached answer serves a request that names a connector only if it is the
  connector the answer was made for.\<close>

lemma series_key_identity:
  assumes "name = ''include_observations'' \<or> name = ''include_aqi''"
    "canonicalizeStationSeriesRequestUrl u up up = canonicalizeStationSeriesRequestUrl v up up"
    "partFlagOrNull (url_params u) ''include_observations'' \<noteq> None" "partFlagOrNull (url_params u) ''include_aqi'' \<noteq> None"
    "cachedStationSeriesIdentityMatchesRequest body u up up" "trim_coalesce (ps_get (url_params u) ''connector_id'') \<noteq> []"
  shows "partFlagOrNull (url_params u) name = partFlagOrNull (url_params v) name
    \<and> canonicalizeStationSeriesRequestUrl (with_params (ps_set ''connector_id'' c) u) up up =
        canonicalizeStationSeriesRequestUrl u up up
    \<and> (\<exists>payload n. body = Some payload \<and> 0 < n
        \<and> js_number (js_coalesce (jget (jget payload ''identity'') ''connector_id'')
            (jget (jget payload ''request'') ''connector_id'')) = Fin (of_int n)
        \<and> js_parse_number (trim_coalesce (ps_get (url_params u) ''connector_id'')) = Fin (of_int n))"
  using series_parts [OF assms(1), of u up] series_parts [OF assms(1), of v up] assms(2)
    series_ignores_connector [OF assms(3,4)] identity_mismatch_refused [OF assms(5,6)] by auto

definition series_url :: url where
  "series_url = \<lparr>url_base = ''https://example.org/series'',
     url_params = [(''timeseries_id'', ''7''), (''connector_id'', ''3''), (''include_aqi'', ''off'')], url_hash = []\<rparr>"

definition series_body :: jsval where
  "series_body = JObj [(''identity'', JObj [(''connector_id'', JInt 3)])]"

end
