(* ===== verification/StaleCache.thy ===== *)
theory StaleCache
  imports CacheKeys JsJson
begin

text \<open>
  workers/uk_aq_cache_proxy/src/station_history/stale_cache.mjs: which answers of the
  station history may be stored, for how long they are fresh and how long they may stand
  in for a failing upstream, and what the stored, the fresh and the stale answers look
  like. A response is its status, its headers and the text of its body; the time is an
  argument. \<open>existingFreshSeconds\<close> and \<open>fallback\<close> are whole numbers.
\<close>

section \<open>Configuration\<close>

definition CACHE_KEY_VERSION :: string where "CACHE_KEY_VERSION = ''station-history-stale-v1''"
definition CACHE_KEY_PARAM :: string where "CACHE_KEY_PARAM = ''__uk_aq_station_history_cache''"
definition HEADER_VERSION :: string where "HEADER_VERSION = ''X-UK-AQ-Station-History-Cache-Key-Version''"
definition HEADER_ENTRY :: string where "HEADER_ENTRY = ''X-UK-AQ-Station-History-Cache-Entry''"
definition HEADER_STATE :: string where "HEADER_STATE = ''X-UK-AQ-Station-History-Cache-State''"
definition HEADER_CACHED_AT :: string where "HEADER_CACHED_AT = ''X-UK-AQ-Station-History-Cached-At''"
definition HEADER_FRESH_UNTIL :: string where "HEADER_FRESH_UNTIL = ''X-UK-AQ-Station-History-Fresh-Until''"
definition HEADER_STALE_UNTIL :: string where "HEADER_STALE_UNTIL = ''X-UK-AQ-Station-History-Stale-Until''"
definition HEADER_STALE_REASON :: string where "HEADER_STALE_REASON = ''X-UK-AQ-Station-History-Stale-Reason''"
definition HEADER_PUBLIC :: string where "HEADER_PUBLIC = ''X-UK-AQ-Station-History-Public-Cache-Control''"

lemmas header_names = HEADER_VERSION_def HEADER_ENTRY_def HEADER_STATE_def HEADER_CACHED_AT_def
  HEADER_FRESH_UNTIL_def HEADER_STALE_UNTIL_def HEADER_STALE_REASON_def HEADER_PUBLIC_def

record stale_config =
  sc_enabled :: bool
  sc_recentBundleFreshSeconds :: int
  sc_recentBundleMaxStaleSeconds :: int
  sc_mutableAqiMaxStaleSeconds :: int
  sc_mutableObservationMaxStaleSeconds :: int
  sc_immutableHistoryMaxStaleSeconds :: int

definition resolveStaleCacheConfig :: "(string \<Rightarrow> jsval) \<Rightarrow> stale_config" where
  "resolveStaleCacheConfig env =
     \<lparr>sc_enabled = parseBooleanFlag (env ''UK_AQ_STATION_HISTORY_STALE_FALLBACK_ENABLED''),
      sc_recentBundleFreshSeconds =
        parseIntInRange (env ''UK_AQ_STATION_HISTORY_RECENT_BUNDLE_FRESH_TTL_SECONDS'') 60 1 3600,
      sc_recentBundleMaxStaleSeconds =
        parseIntInRange (env ''UK_AQ_STATION_HISTORY_RECENT_BUNDLE_MAX_STALE_SECONDS'') 300 0 86400,
      sc_mutableAqiMaxStaleSeconds =
        parseIntInRange (env ''UK_AQ_STATION_HISTORY_MUTABLE_AQI_MAX_STALE_SECONDS'') 300 0 86400,
      sc_mutableObservationMaxStaleSeconds =
        parseIntInRange (env ''UK_AQ_STATION_HISTORY_MUTABLE_OBSERVATION_MAX_STALE_SECONDS'') 300 0 86400,
      sc_immutableHistoryMaxStaleSeconds =
        parseIntInRange (env ''UK_AQ_STATION_HISTORY_IMMUTABLE_HISTORY_MAX_STALE_SECONDS'') 604800 0 2592000\<rparr>"

section \<open>Keys\<close>

definition buildFreshKey :: "url \<Rightarrow> url" where
  "buildFreshKey u =
     with_params (ps_set CACHE_KEY_PARAM (CACHE_KEY_VERSION @ '':fresh'') \<circ> ps_delete CACHE_KEY_PARAM) u"

definition buildStaleKey :: "url \<Rightarrow> url" where
  "buildStaleKey u =
     with_params (ps_set CACHE_KEY_PARAM (CACHE_KEY_VERSION @ '':stale'') \<circ> ps_delete GENERATION_PARAM
       \<circ> ps_delete CACHE_KEY_PARAM) u"

definition buildFreshAndStaleCacheKeys :: "url \<Rightarrow> url \<times> url" where
  "buildFreshAndStaleCacheKeys u = (buildFreshKey u, buildStaleKey u)"

definition isSupportedStationHistoryStaleRequest :: "url \<Rightarrow> string \<Rightarrow> bool" where
  "isSupportedStationHistoryStaleRequest u internalRoute \<longleftrightarrow>
     internalRoute \<in> {''/v1/station-series'', ''/v1/aqi-history'', ''/v1/observations-history''}
     \<and> js_lower (js_trim (js_string (js_or (ps_get (url_params u) ''format'') (JStr ''objects'')))) \<noteq> ''tsv''"

section \<open>What may be stored\<close>

fun isObject :: "jsval \<Rightarrow> bool" where
  "isObject (JArr _) = False"
| "isObject v = is_object v"

definition hasKnownGap :: "jsval \<Rightarrow> bool" where
  "hasKnownGap section \<longleftrightarrow>
     isObject section \<and>
     (jget section ''has_gap'' = JBool True \<or>
      (case jget section ''gap_ranges'' of JArr rs \<Rightarrow> rs \<noteq> [] | _ \<Rightarrow> False))"

definition section_complete :: "jsval \<Rightarrow> bool" where
  "section_complete part \<longleftrightarrow>
     isObject part \<and>
     (jget part ''enabled'' = JBool False \<and> jget part ''state'' = JStr ''disabled'' \<and> \<not> hasKnownGap part
      \<or> jget part ''enabled'' \<noteq> JBool False \<and> jget part ''response_complete'' = JBool True \<and> \<not> hasKnownGap part)"

record inspection =
  in_cacheable :: bool
  in_immutable :: bool
  in_reason :: "string option"
  in_payload :: "jsval option"

definition inspectCompleteGapFreePayload :: "jsval \<Rightarrow> string \<Rightarrow> inspection" where
  "inspectCompleteGapFreePayload payload internalRoute =
     (let verdict = (\<lambda>ok immutable. \<lparr>in_cacheable = ok, in_immutable = immutable,
            in_reason = (if ok then None else Some ''incomplete_or_gap''), in_payload = None\<rparr>)
      in if \<not> isObject payload then
           \<lparr>in_cacheable = False, in_immutable = False, in_reason = Some ''unsupported_payload'', in_payload = None\<rparr>
         else if internalRoute = ''/v1/station-series'' then
           verdict (section_complete (jget payload ''aqi'') \<and> section_complete (jget payload ''observations'')) False
         else
           verdict (jget payload ''response_complete'' = JBool True \<and> \<not> hasKnownGap payload)
             (jget (jget payload ''chunk'') ''cache_class'' = JStr ''immutable''))"

record response =
  rs_status :: int
  rs_statusText :: string
  rs_headers :: headers
  rs_body :: string

definition inspectStationHistoryResponse :: "response \<Rightarrow> string \<Rightarrow> inspection" where
  "inspectStationHistoryResponse r internalRoute =
     (let refuse = (\<lambda>reason. \<lparr>in_cacheable = False, in_immutable = False, in_reason = Some reason, in_payload = None\<rparr>)
      in if rs_status r \<noteq> 200 then refuse ''status''
         else if js_trim (str_or_empty (hd_get (rs_headers r) ''X-UK-AQ-Station-History-Contract'')) \<noteq> ''v2''
         then refuse ''unsupported_contract''
         else if \<not> js_includes (js_lower (str_or_empty (hd_get (rs_headers r) ''Content-Type''))) ''application/json''
         then refuse ''unsupported_content_type''
         else case json_parse (rs_body r) of
             None \<Rightarrow> refuse ''invalid_json''
           | Some payload \<Rightarrow> (inspectCompleteGapFreePayload payload internalRoute)\<lparr>in_payload := Some payload\<rparr>)"

section \<open>How long\<close>

record cache_policy =
  cp_freshSeconds :: int
  cp_maxStaleSeconds :: int
  cp_className :: string

definition resolveRouteCachePolicy :: "string \<Rightarrow> inspection \<Rightarrow> stale_config \<Rightarrow> int \<Rightarrow> cache_policy" where
  "resolveRouteCachePolicy internalRoute inspected config existingFreshSeconds =
     (let or_else = (\<lambda>d. if existingFreshSeconds = 0 then d else existingFreshSeconds);
          aqi = (internalRoute = ''/v1/aqi-history'')
      in if internalRoute = ''/v1/station-series'' then
           \<lparr>cp_freshSeconds = sc_recentBundleFreshSeconds config,
            cp_maxStaleSeconds = sc_recentBundleMaxStaleSeconds config, cp_className = ''recent_bundle''\<rparr>
         else if in_immutable inspected then
           \<lparr>cp_freshSeconds = max 1 (or_else 86400),
            cp_maxStaleSeconds = sc_immutableHistoryMaxStaleSeconds config, cp_className = ''immutable_history''\<rparr>
         else
           \<lparr>cp_freshSeconds = max 1 (or_else (if aqi then 3900 else 300)),
            cp_maxStaleSeconds = (if aqi then sc_mutableAqiMaxStaleSeconds config
              else sc_mutableObservationMaxStaleSeconds config),
            cp_className = (if aqi then ''mutable_aqi'' else ''mutable_observations'')\<rparr>)"

text \<open>\<open>/(?:^|,)\s*<name>=(\d+)/\<close>, the digits of the first match.\<close>

definition directive_here :: "string \<Rightarrow> string \<Rightarrow> string option" where
  "directive_here name s =
     (let t = dropWhile is_ws s; digits = takeWhile is_digit (drop (length name) t)
      in if take (length name) t = name \<and> digits \<noteq> [] then Some digits else None)"

fun directive_after_comma :: "string \<Rightarrow> string \<Rightarrow> string option" where
  "directive_after_comma name [] = None"
| "directive_after_comma name (c # s) =
     (case (if c = CHR '','' then directive_here name s else None) of
        Some d \<Rightarrow> Some d
      | None \<Rightarrow> directive_after_comma name s)"

definition directive :: "string \<Rightarrow> string \<Rightarrow> string option" where
  "directive name s = (case directive_here name s of Some d \<Rightarrow> Some d | None \<Rightarrow> directive_after_comma name s)"

definition resolveFreshSecondsFromCacheControl :: "jsval \<Rightarrow> int \<Rightarrow> int" where
  "resolveFreshSecondsFromCacheControl value fallback =
     (let t = js_lower (str_or_empty value);
          parsed = (case (directive ''s-maxage='' t, directive ''max-age='' t) of
              (Some d, _) \<Rightarrow> js_parse_number d
            | (None, Some d) \<Rightarrow> js_parse_number d
            | (None, None) \<Rightarrow> NaN)
      in case parsed of Fin x \<Rightarrow> if 0 < x then \<lfloor>x\<rfloor> else max 1 fallback | _ \<Rightarrow> max 1 fallback)"

record cache_metadata =
  cm_version :: jsval
  cm_cached_at :: string
  cm_fresh_until :: string
  cm_stale_until :: string
  cm_cached_at_ms :: int
  cm_fresh_until_ms :: int
  cm_stale_until_ms :: int

definition buildCacheMetadata :: "int \<Rightarrow> cache_policy \<Rightarrow> cache_metadata res" where
  "buildCacheMetadata nowMs policy =
     (let freshUntilMs = nowMs + cp_freshSeconds policy * 1000;
          staleUntilMs = freshUntilMs + cp_maxStaleSeconds policy * 1000
      in res_bind (to_iso_res nowMs) (\<lambda>c.
         res_bind (to_iso_res freshUntilMs) (\<lambda>f.
         res_map (\<lambda>s. \<lparr>cm_version = JStr CACHE_KEY_VERSION, cm_cached_at = c, cm_fresh_until = f, cm_stale_until = s,
             cm_cached_at_ms = nowMs, cm_fresh_until_ms = freshUntilMs, cm_stale_until_ms = staleUntilMs\<rparr>)
           (to_iso_res staleUntilMs))))"

section \<open>Stored, fresh and stale answers\<close>

definition applyMetadataHeaders :: "cache_metadata \<Rightarrow> headers \<Rightarrow> headers" where
  "applyMetadataHeaders meta h =
     hd_set HEADER_STALE_UNTIL (cm_stale_until meta)
       (hd_set HEADER_FRESH_UNTIL (cm_fresh_until meta)
         (hd_set HEADER_CACHED_AT (cm_cached_at meta)
           (hd_set HEADER_VERSION (js_string (cm_version meta)) h)))"

definition applyRefreshMetadataHeaders :: "cache_metadata \<Rightarrow> headers \<Rightarrow> headers" where
  "applyRefreshMetadataHeaders meta h =
     hd_delete HEADER_STALE_REASON (hd_set HEADER_STATE ''REFRESHED'' (applyMetadataHeaders meta h))"

definition buildStoredCacheResponse :: "response \<Rightarrow> cache_metadata \<Rightarrow> string \<Rightarrow> int \<Rightarrow> response" where
  "buildStoredCacheResponse r meta entryKind storageTtlSeconds =
     (let public = js_string (js_or (hd_get (rs_headers r) ''Cache-Control'') (JStr ''no-store''));
          h = applyMetadataHeaders meta (hd_set HEADER_ENTRY entryKind (hd_set HEADER_PUBLIC public (rs_headers r)))
      in r\<lparr>rs_headers := hd_set ''Cache-Control'' (''public, max-age='' @ int_str (max 1 storageTtlSeconds)) h\<rparr>)"

definition readCacheMetadata :: "response \<Rightarrow> cache_metadata option" where
  "readCacheMetadata r =
     (let g = (\<lambda>name. str_or_empty (hd_get (rs_headers r) name))
      in case (date_parse (g HEADER_CACHED_AT), date_parse (g HEADER_FRESH_UNTIL), date_parse (g HEADER_STALE_UNTIL)) of
           (Some c, Some f, Some s) \<Rightarrow>
             Some \<lparr>cm_version = hd_get (rs_headers r) HEADER_VERSION, cm_cached_at = g HEADER_CACHED_AT,
               cm_fresh_until = g HEADER_FRESH_UNTIL, cm_stale_until = g HEADER_STALE_UNTIL,
               cm_cached_at_ms = c, cm_fresh_until_ms = f, cm_stale_until_ms = s\<rparr>
         | _ \<Rightarrow> None)"

definition isFreshCacheResponse :: "response \<Rightarrow> int \<Rightarrow> bool" where
  "isFreshCacheResponse r nowMs =
     (case readCacheMetadata r of
        None \<Rightarrow> False
      | Some m \<Rightarrow> cm_version m = JStr CACHE_KEY_VERSION \<and> nowMs \<le> cm_fresh_until_ms m)"

definition isValidStaleCacheResponse :: "response \<Rightarrow> int \<Rightarrow> bool" where
  "isValidStaleCacheResponse r nowMs =
     (case readCacheMetadata r of
        None \<Rightarrow> False
      | Some m \<Rightarrow> cm_version m = JStr CACHE_KEY_VERSION \<and> nowMs \<le> cm_stale_until_ms m)"

definition publicHeadersFromStored :: "response \<Rightarrow> headers" where
  "publicHeadersFromStored r =
     (let public = str_or_empty (hd_get (rs_headers r) HEADER_PUBLIC);
          h = hd_delete HEADER_PUBLIC (hd_delete HEADER_ENTRY (rs_headers r))
      in if public = [] then h else hd_set ''Cache-Control'' public h)"

definition buildFreshHitResponse :: "response \<Rightarrow> response" where
  "buildFreshHitResponse r =
     r\<lparr>rs_headers := hd_delete HEADER_STALE_REASON (hd_set HEADER_STATE ''FRESH'' (publicHeadersFromStored r))\<rparr>"

definition stale_note :: "string \<Rightarrow> cache_metadata \<Rightarrow> jsval" where
  "stale_note reason m =
     JObj [(''state'', JStr ''stale''), (''reason'', JStr reason), (''cached_at'', JStr (cm_cached_at m)),
       (''fresh_until'', JStr (cm_fresh_until m)), (''stale_until'', JStr (cm_stale_until m))]"

definition buildStaleFallbackResponse :: "response \<Rightarrow> string \<Rightarrow> response option" where
  "buildStaleFallbackResponse r reason =
     (case readCacheMetadata r of
        None \<Rightarrow> None
      | Some m \<Rightarrow>
          (case json_parse (rs_body r) of
             None \<Rightarrow> None
           | Some payload \<Rightarrow>
               if \<not> isObject payload then None
               else
                 (let h1 = hd_set HEADER_STATE ''STALE'' (publicHeadersFromStored r);
                      h2 = hd_set HEADER_STALE_REASON reason h1;
                      h3 = hd_set ''X-UK-AQ-Cache'' ''STALE'' h2;
                      h4 = hd_set ''Cache-Control'' ''no-store'' h3
                  in Some \<lparr>rs_status = 200, rs_statusText = [],
                       rs_headers = hd_delete ''Content-Length'' (hd_delete ''ETag'' h4),
                       rs_body = json_stringify (jput payload ''station_history_cache'' (stale_note reason m))\<rparr>)))"

definition isUpstreamFailureStatus :: "int \<Rightarrow> bool" where
  "isUpstreamFailureStatus status \<longleftrightarrow> 500 \<le> status \<and> status \<le> 599"

definition shouldAttemptStaleFallback :: "jsval \<Rightarrow> jsval \<Rightarrow> jsval \<Rightarrow> jsval \<Rightarrow> bool" where
  "shouldAttemptStaleFallback enabled shouldUseCache requestSupported upstreamFailure \<longleftrightarrow>
     enabled = JBool True \<and> shouldUseCache = JBool True \<and> requestSupported = JBool True \<and> upstreamFailure = JBool True"

section \<open>Lemmas on headers\<close>

lemma hd_get_set: "hd_get (hd_set n v h) m = (if js_lower m = js_lower n then JStr v else hd_get h m)"
  by (simp add: hd_get_def hd_set_def jm_get_set)

lemma map_of_filter_key: "map_of (filter (\<lambda>kv. fst kv \<noteq> k) m) j = (if j = k then None else map_of m j)"
  by (induction m) auto

lemma hd_get_delete: "hd_get (hd_delete n h) m = (if js_lower m = js_lower n then Null else hd_get h m)"
  by (simp add: hd_get_def hd_delete_def jm_get_def map_of_filter_key)

lemma js_lower_Cons [simp]: "js_lower (c # s) = char_lower c # js_lower s" "js_lower [] = []"
  by (simp_all add: js_lower_def)

lemmas hd_simps = hd_get_set hd_get_delete header_names char_lower_def

section \<open>Lemmas on the life of a stored answer\<close>

lemma to_iso_res_value: "to_iso_res t = Inr s \<Longrightarrow> time_value t \<and> s = to_iso t"
  by (auto simp: to_iso_res_def time_value_def split: if_splits)

lemma buildCacheMetadata_fields:
  assumes "buildCacheMetadata now p = Inr m"
  shows "cm_version m = JStr CACHE_KEY_VERSION" "cm_cached_at_ms m = now"
    "cm_fresh_until_ms m = now + cp_freshSeconds p * 1000"
    "cm_stale_until_ms m = now + cp_freshSeconds p * 1000 + cp_maxStaleSeconds p * 1000"
    "date_parse (cm_cached_at m) = Some (cm_cached_at_ms m)"
    "date_parse (cm_fresh_until m) = Some (cm_fresh_until_ms m)"
    "date_parse (cm_stale_until m) = Some (cm_stale_until_ms m)"
proof -
  let ?f = "now + cp_freshSeconds p * 1000" and ?s = "now + cp_freshSeconds p * 1000 + cp_maxStaleSeconds p * 1000"
  have "time_value now \<and> time_value ?f \<and> time_value ?s \<and>
      m = \<lparr>cm_version = JStr CACHE_KEY_VERSION, cm_cached_at = to_iso now, cm_fresh_until = to_iso ?f,
        cm_stale_until = to_iso ?s, cm_cached_at_ms = now, cm_fresh_until_ms = ?f, cm_stale_until_ms = ?s\<rparr>"
    using assms unfolding buildCacheMetadata_def Let_def
    by (auto simp: res_simps dest!: to_iso_res_value)
  then show "cm_version m = JStr CACHE_KEY_VERSION" "cm_cached_at_ms m = now"
    "cm_fresh_until_ms m = now + cp_freshSeconds p * 1000"
    "cm_stale_until_ms m = now + cp_freshSeconds p * 1000 + cp_maxStaleSeconds p * 1000"
    "date_parse (cm_cached_at m) = Some (cm_cached_at_ms m)"
    "date_parse (cm_fresh_until m) = Some (cm_fresh_until_ms m)"
    "date_parse (cm_stale_until m) = Some (cm_stale_until_ms m)"
    by (auto simp: value_round_trip)
qed

lemma buildCacheMetadata_texts:
  assumes "buildCacheMetadata now p = Inr m"
  shows "cm_cached_at m = to_iso now" "cm_fresh_until m = to_iso (now + cp_freshSeconds p * 1000)"
    "cm_stale_until m = to_iso (now + cp_freshSeconds p * 1000 + cp_maxStaleSeconds p * 1000)"
  using assms unfolding buildCacheMetadata_def Let_def by (auto simp: res_simps dest!: to_iso_res_value)

lemma date_parse_nonempty: "date_parse s = Some t \<Longrightarrow> s \<noteq> []"
  by (auto simp: date_parse_def read_year_def)

lemma stored_headers:
  "hd_get (rs_headers (buildStoredCacheResponse r m kind ttl)) HEADER_CACHED_AT = JStr (cm_cached_at m)"
  "hd_get (rs_headers (buildStoredCacheResponse r m kind ttl)) HEADER_FRESH_UNTIL = JStr (cm_fresh_until m)"
  "hd_get (rs_headers (buildStoredCacheResponse r m kind ttl)) HEADER_STALE_UNTIL = JStr (cm_stale_until m)"
  "hd_get (rs_headers (buildStoredCacheResponse r m kind ttl)) HEADER_VERSION = JStr (js_string (cm_version m))"
  "hd_get (rs_headers (buildStoredCacheResponse r m kind ttl)) HEADER_PUBLIC =
     JStr (js_string (js_or (hd_get (rs_headers r) ''Cache-Control'') (JStr ''no-store'')))"
  by (simp_all add: buildStoredCacheResponse_def Let_def applyMetadataHeaders_def hd_simps)

lemma stored_metadata:
  assumes "buildCacheMetadata now p = Inr m"
  shows "readCacheMetadata (buildStoredCacheResponse r m kind ttl) = Some m"
  using buildCacheMetadata_fields [OF assms]
  by (simp add: readCacheMetadata_def Let_def stored_headers CACHE_KEY_VERSION_def)

lemma stored_life:
  assumes "buildCacheMetadata now p = Inr m"
  shows "isFreshCacheResponse (buildStoredCacheResponse r m kind ttl) t \<longleftrightarrow> t \<le> now + cp_freshSeconds p * 1000"
    and "isValidStaleCacheResponse (buildStoredCacheResponse r m kind ttl) t \<longleftrightarrow>
      t \<le> now + cp_freshSeconds p * 1000 + cp_maxStaleSeconds p * 1000"
  using buildCacheMetadata_fields [OF assms]
  by (simp_all add: isFreshCacheResponse_def isValidStaleCacheResponse_def stored_metadata [OF assms])

text \<open>Serving a stored answer gives back the public caching directive of the original.\<close>

lemma public_directive:
  "js_string (js_or v (JStr ''no-store'')) \<noteq> []" if "v = Null \<or> (\<exists>s. v = JStr s)"
  using that by (auto simp: js_or_def)

lemma hd_get_values: "hd_get h n = Null \<or> (\<exists>s. hd_get h n = JStr s)"
  by (simp add: hd_get_def split: option.splits)

lemma fresh_hit_directive:
  "hd_get (rs_headers (buildFreshHitResponse (buildStoredCacheResponse r m kind ttl))) ''Cache-Control'' =
     JStr (js_string (js_or (hd_get (rs_headers r) ''Cache-Control'') (JStr ''no-store'')))"
proof -
  have "js_string (js_or (hd_get (rs_headers r) ''Cache-Control'') (JStr ''no-store'')) \<noteq> []"
    by (rule public_directive [OF hd_get_values])
  then show ?thesis
    by (simp add: buildFreshHitResponse_def publicHeadersFromStored_def Let_def stored_headers)
      (simp add: hd_simps)
qed

lemma fresh_hit_rest:
  "rs_status (buildFreshHitResponse (buildStoredCacheResponse r m kind ttl)) = rs_status r"
  "rs_body (buildFreshHitResponse (buildStoredCacheResponse r m kind ttl)) = rs_body r"
  "hd_get (rs_headers (buildFreshHitResponse r')) HEADER_STATE = JStr ''FRESH''"
  "hd_get (rs_headers (buildFreshHitResponse r')) HEADER_ENTRY = Null"
  "hd_get (rs_headers (buildFreshHitResponse r')) HEADER_PUBLIC = Null"
  by (simp_all add: buildFreshHitResponse_def buildStoredCacheResponse_def publicHeadersFromStored_def
      Let_def hd_simps)

lemma stale_fallback:
  assumes "buildStaleFallbackResponse r reason = Some s"
  shows "rs_status s = 200" "hd_get (rs_headers s) ''Cache-Control'' = JStr ''no-store''"
    "hd_get (rs_headers s) HEADER_STATE = JStr ''STALE''" "hd_get (rs_headers s) ''ETag'' = Null"
    "\<exists>payload m. json_parse (rs_body r) = Some payload \<and> readCacheMetadata r = Some m \<and> isObject payload \<and>
      rs_body s = json_stringify (jput payload ''station_history_cache'' (stale_note reason m))"
  using assms
  by (auto simp: buildStaleFallbackResponse_def Let_def hd_simps split: option.splits if_splits)

section \<open>Lemmas on keys, limits and admission\<close>

lemma fresh_key_not_stale: "buildFreshKey u \<noteq> buildStaleKey v"
proof
  assume "buildFreshKey u = buildStaleKey v"
  then have "ps_get (url_params (buildFreshKey u)) CACHE_KEY_PARAM = ps_get (url_params (buildStaleKey v)) CACHE_KEY_PARAM"
    by simp
  then show False by (simp add: buildFreshKey_def buildStaleKey_def ps_simps)
qed

lemma stale_key_generation:
  "buildStaleKey (applyAqiProxyHourlyGenerationCacheComponent u f enabled h up now) = buildStaleKey u"
proof -
  have "ps_delete GENERATION_PARAM (ps_delete CACHE_KEY_PARAM (ps_set GENERATION_PARAM v ps)) =
      ps_delete GENERATION_PARAM (ps_delete CACHE_KEY_PARAM ps)" for v ps
    by (simp add: delete_commute [of GENERATION_PARAM])
  moreover have "ps_delete GENERATION_PARAM (ps_delete CACHE_KEY_PARAM (ps_delete GENERATION_PARAM ps)) =
      ps_delete GENERATION_PARAM (ps_delete CACHE_KEY_PARAM ps)" for ps
    by (simp add: delete_commute [of GENERATION_PARAM])
  ultimately show ?thesis
    by (simp add: buildStaleKey_def applyAqiProxyHourlyGenerationCacheComponent_def Let_def with_params_def)
qed

lemma policy_bounds:
  assumes "config = resolveStaleCacheConfig env" "p = resolveRouteCachePolicy route i config existing"
  shows "1 \<le> cp_freshSeconds p" "0 \<le> cp_maxStaleSeconds p" "cp_maxStaleSeconds p \<le> 2592000"
proof -
  note b = parseIntInRange_bounds
  have c: "1 \<le> sc_recentBundleFreshSeconds config"
    "0 \<le> sc_recentBundleMaxStaleSeconds config" "sc_recentBundleMaxStaleSeconds config \<le> 86400"
    "0 \<le> sc_mutableAqiMaxStaleSeconds config" "sc_mutableAqiMaxStaleSeconds config \<le> 86400"
    "0 \<le> sc_mutableObservationMaxStaleSeconds config" "sc_mutableObservationMaxStaleSeconds config \<le> 86400"
    "0 \<le> sc_immutableHistoryMaxStaleSeconds config" "sc_immutableHistoryMaxStaleSeconds config \<le> 2592000"
    by (simp_all add: assms(1) resolveStaleCacheConfig_def b)
  then show "1 \<le> cp_freshSeconds p" "0 \<le> cp_maxStaleSeconds p" "cp_maxStaleSeconds p \<le> 2592000"
    by (simp_all add: assms(2) resolveRouteCachePolicy_def Let_def)
qed

text \<open>
  What an answer has to be, said of the fields of the parsed body: nothing in a part admits a gap; a
  part is either answered in full or switched off; a series has both parts, the other two routes
  answer in the body itself.
\<close>

definition no_gap_told :: "(string \<times> jsval) list \<Rightarrow> bool" where
  "no_gap_told fs \<longleftrightarrow> map_of fs ''has_gap'' \<noteq> Some (JBool True)
     \<and> (\<forall>ranges. map_of fs ''gap_ranges'' = Some (JArr ranges) \<longrightarrow> ranges = [])"

definition answered_in_full :: "(string \<times> jsval) list \<Rightarrow> bool" where
  "answered_in_full fs \<longleftrightarrow> map_of fs ''response_complete'' = Some (JBool True) \<and> no_gap_told fs"

definition switched_off :: "(string \<times> jsval) list \<Rightarrow> bool" where
  "switched_off fs \<longleftrightarrow> map_of fs ''enabled'' = Some (JBool False)
     \<and> map_of fs ''state'' = Some (JStr ''disabled'') \<and> no_gap_told fs"

definition whole_part :: "(string \<times> jsval) list \<Rightarrow> string \<Rightarrow> bool" where
  "whole_part body part \<longleftrightarrow> (\<exists>fs. map_of body part = Some (JObj fs)
     \<and> (switched_off fs \<or> map_of fs ''enabled'' \<noteq> Some (JBool False) \<and> answered_in_full fs))"

definition whole_answer :: "response \<Rightarrow> string \<Rightarrow> bool" where
  "whole_answer r route \<longleftrightarrow> rs_status r = 200
     \<and> js_trim (str_or_empty (hd_get (rs_headers r) ''X-UK-AQ-Station-History-Contract'')) = ''v2''
     \<and> js_includes (js_lower (str_or_empty (hd_get (rs_headers r) ''Content-Type''))) ''application/json''
     \<and> (\<exists>body. json_parse (rs_body r) = Some (JObj body)
         \<and> (if route = ''/v1/station-series'' then whole_part body ''aqi'' \<and> whole_part body ''observations''
            else answered_in_full body))"

lemma jget_fields:
  "v \<noteq> Undef \<Longrightarrow> jget (JObj fs) k = v \<longleftrightarrow> map_of fs k = Some v"
  by (auto split: option.splits)

lemma hasKnownGap_fields: "\<not> hasKnownGap (JObj fs) \<longleftrightarrow> no_gap_told fs"
  by (auto simp: hasKnownGap_def no_gap_told_def split: option.splits jsval.splits)

lemma jget_object: "jget v k = w \<Longrightarrow> w \<noteq> Undef \<Longrightarrow> \<exists>fs. v = JObj fs"
  by (cases v) auto

lemma section_complete_object:
  "section_complete (JObj fs) \<longleftrightarrow> switched_off fs
     \<or> map_of fs ''enabled'' \<noteq> Some (JBool False) \<and> answered_in_full fs"
  using jget_fields [of "JBool False" fs "''enabled''"] jget_fields [of "JBool True" fs "''response_complete''"]
    jget_fields [of "JStr ''disabled''" fs "''state''"]
  by (simp add: section_complete_def switched_off_def answered_in_full_def hasKnownGap_fields del: jget.simps)

lemma section_complete_fields:
  "section_complete (jget (JObj body) part) \<longleftrightarrow> whole_part body part"
proof
  assume c: "section_complete (jget (JObj body) part)"
  have "section_complete v \<Longrightarrow> \<exists>fs. v = JObj fs" for v
    by (cases v) (simp_all add: section_complete_def)
  from this [OF c] obtain fs where f: "jget (JObj body) part = JObj fs" by blast
  then have "map_of body part = Some (JObj fs)" using jget_fields [of "JObj fs" body part] by simp
  with c f show "whole_part body part" by (simp add: whole_part_def section_complete_object del: jget.simps)
next
  assume "whole_part body part"
  then show "section_complete (jget (JObj body) part)"
    by (auto simp: whole_part_def section_complete_object)
qed

lemma admitted_whole: "in_cacheable (inspectStationHistoryResponse r route) \<longleftrightarrow> whole_answer r route"
proof (cases "json_parse (rs_body r)")
  case (Some payload)
  have "in_cacheable (inspectCompleteGapFreePayload payload route) \<longleftrightarrow> (\<exists>body. payload = JObj body
     \<and> (if route = ''/v1/station-series'' then whole_part body ''aqi'' \<and> whole_part body ''observations''
        else answered_in_full body))"
  proof (cases "\<exists>body. payload = JObj body")
    case True
    then obtain body where b: "payload = JObj body" by blast
    have "jget payload ''response_complete'' = JBool True \<and> \<not> hasKnownGap payload \<longleftrightarrow> answered_in_full body"
      unfolding b answered_in_full_def hasKnownGap_fields by (subst jget_fields) simp_all
    then show ?thesis
      using section_complete_fields [of body] b by (simp add: inspectCompleteGapFreePayload_def Let_def)
  next
    case False
    then have "jget payload k = Undef" for k by (cases payload) auto
    then show ?thesis using False
      by (auto simp: inspectCompleteGapFreePayload_def Let_def section_complete_def)
  qed
  with Some show ?thesis by (auto simp: inspectStationHistoryResponse_def whole_answer_def Let_def)
qed (simp add: inspectStationHistoryResponse_def whole_answer_def Let_def)

text \<open>A whole answer that was stored can stand in for a failing upstream.\<close>

lemma stored_stands_in:
  assumes "buildCacheMetadata now p = Inr m" "whole_answer a route"
  shows "\<exists>body s. json_parse (rs_body a) = Some (JObj body)
    \<and> buildStaleFallbackResponse (buildStoredCacheResponse a m kind ttl) reason = Some s
    \<and> rs_body s = json_stringify (JObj (jm_set ''station_history_cache'' (stale_note reason m) body))"
proof -
  obtain body where b: "json_parse (rs_body a) = Some (JObj body)"
    using assms(2) by (auto simp: whole_answer_def)
  then have "json_parse (rs_body (buildStoredCacheResponse a m kind ttl)) = Some (JObj body)"
    by (simp add: buildStoredCacheResponse_def Let_def)
  with b stored_metadata [OF assms(1)] show ?thesis
    by (simp add: buildStaleFallbackResponse_def Let_def)
qed

lemma stale_fallback_reason:
  "buildStaleFallbackResponse r reason = Some s \<Longrightarrow> hd_get (rs_headers s) HEADER_STALE_REASON = JStr reason"
  by (auto simp: buildStaleFallbackResponse_def Let_def hd_simps split: option.splits if_splits)

section \<open>Properties\<close>

text \<open>C36: the dates written into a stored answer are read back as they were computed; the answer counts as
  fresh exactly until its fresh time is over and may stand in for a failing upstream exactly until
  its stale time is over as well, under every policy the configuration can produce; while it is
  fresh it is given out with the body, the status and the public caching directive it came with.\<close>

theorem stored_answer_life:
  assumes "p = resolveRouteCachePolicy route i (resolveStaleCacheConfig env) existing"
    "buildCacheMetadata now p = Inr m" "s = buildStoredCacheResponse r m kind ttl"
  shows "readCacheMetadata s = Some m
    \<and> (isFreshCacheResponse s t \<longleftrightarrow> t \<le> now + cp_freshSeconds p * 1000)
    \<and> (isValidStaleCacheResponse s t \<longleftrightarrow> t \<le> now + cp_freshSeconds p * 1000 + cp_maxStaleSeconds p * 1000)
    \<and> (isFreshCacheResponse s t \<longrightarrow> isValidStaleCacheResponse s t)
    \<and> 1 \<le> cp_freshSeconds p \<and> cp_maxStaleSeconds p \<in> {0..2592000}
    \<and> rs_status (buildFreshHitResponse s) = rs_status r \<and> rs_body (buildFreshHitResponse s) = rs_body r
    \<and> hd_get (rs_headers (buildFreshHitResponse s)) ''Cache-Control'' =
        JStr (js_string (js_or (hd_get (rs_headers r) ''Cache-Control'') (JStr ''no-store'')))"
  using stored_metadata [OF assms(2)] stored_life [OF assms(2)] policy_bounds [OF refl assms(1)]
    fresh_hit_directive fresh_hit_rest(1,2) by (simp add: assms(3))

definition sample_response :: response where
  "sample_response = \<lparr>rs_status = 200, rs_statusText = ''OK'',
     rs_headers = hd_set ''Cache-Control'' ''public, max-age=60'' jm_empty, rs_body = ''{}''\<rparr>"

definition sample_inspection :: inspection where
  "sample_inspection = \<lparr>in_cacheable = True, in_immutable = False, in_reason = None, in_payload = None\<rparr>"

theorem stored_answer_life_witness:
  "\<exists>m. buildCacheMetadata 1709287200000 (resolveRouteCachePolicy ''/v1/station-series'' sample_inspection
       (resolveStaleCacheConfig (\<lambda>_. Undef)) 0) = Inr m
     \<and> readCacheMetadata (buildStoredCacheResponse sample_response m ''fresh'' 60) = Some m"
proof -
  have "is_ok (buildCacheMetadata 1709287200000 (resolveRouteCachePolicy ''/v1/station-series'' sample_inspection
       (resolveStaleCacheConfig (\<lambda>_. Undef)) 0))" by code_simp
  then obtain m where m: "buildCacheMetadata 1709287200000 (resolveRouteCachePolicy ''/v1/station-series''
       sample_inspection (resolveStaleCacheConfig (\<lambda>_. Undef)) 0) = Inr m" by (auto simp: is_ok_iff)
  from stored_answer_life [OF refl m refl] m show ?thesis by blast
qed

text \<open>C37: on each of the three routes an answer is admitted exactly if it is whole: it came with status 200, the
  second contract and a JSON body that tells of no gap and is complete, for a series in both of its
  parts, each of which may be switched off instead. A stored answer that was admitted can stand in for a
  failing upstream; whatever stands in has status 200, is marked as stale with the reason and the times
  in its headers and its body, keeps every other field of the body and forbids further storing. The keys
  of the fresh and of the stale copy never agree, and the hour of the generation does not matter to the
  stale one.\<close>

theorem stale_answers_marked:
  assumes "buildCacheMetadata now p = Inr m"
  shows "(in_cacheable (inspectStationHistoryResponse a route) \<longleftrightarrow> whole_answer a route)
    \<and> (in_cacheable (inspectStationHistoryResponse a route) \<longrightarrow> (\<exists>body s.
        json_parse (rs_body a) = Some (JObj body)
        \<and> buildStaleFallbackResponse (buildStoredCacheResponse a m kind ttl) reason = Some s
        \<and> rs_body s = json_stringify (JObj (jm_set ''station_history_cache''
            (JObj [(''state'', JStr ''stale''), (''reason'', JStr reason), (''cached_at'', JStr (to_iso now)),
              (''fresh_until'', JStr (to_iso (now + cp_freshSeconds p * 1000))),
              (''stale_until'', JStr (to_iso (now + cp_freshSeconds p * 1000 + cp_maxStaleSeconds p * 1000)))]) body))))
    \<and> (\<forall>r s. buildStaleFallbackResponse r reason = Some s \<longrightarrow> rs_status s = 200
        \<and> hd_get (rs_headers s) ''Cache-Control'' = JStr ''no-store'' \<and> hd_get (rs_headers s) ''ETag'' = Null
        \<and> hd_get (rs_headers s) HEADER_STATE = JStr ''STALE'' \<and> hd_get (rs_headers s) HEADER_STALE_REASON = JStr reason)
    \<and> buildFreshKey u \<noteq> buildStaleKey v
    \<and> buildStaleKey (applyAqiProxyHourlyGenerationCacheComponent u f enabled h up minute) = buildStaleKey u"
proof -
  have txt_note: "stale_note reason m = JObj [(''state'', JStr ''stale''), (''reason'', JStr reason), (''cached_at'', JStr (to_iso now)),
      (''fresh_until'', JStr (to_iso (now + cp_freshSeconds p * 1000))),
      (''stale_until'', JStr (to_iso (now + cp_freshSeconds p * 1000 + cp_maxStaleSeconds p * 1000)))]"
    using buildCacheMetadata_texts [OF assms] by (simp add: stale_note_def)
  have stands: "whole_answer a route \<longrightarrow> (\<exists>body s. json_parse (rs_body a) = Some (JObj body)
      \<and> buildStaleFallbackResponse (buildStoredCacheResponse a m kind ttl) reason = Some s
      \<and> rs_body s = json_stringify (JObj (jm_set ''station_history_cache'' (stale_note reason m) body)))"
    using stored_stands_in [OF assms] by blast
  have marks: "\<forall>r s. buildStaleFallbackResponse r reason = Some s \<longrightarrow> rs_status s = 200
        \<and> hd_get (rs_headers s) ''Cache-Control'' = JStr ''no-store'' \<and> hd_get (rs_headers s) ''ETag'' = Null
        \<and> hd_get (rs_headers s) HEADER_STATE = JStr ''STALE'' \<and> hd_get (rs_headers s) HEADER_STALE_REASON = JStr reason"
    using stale_fallback(1-4) stale_fallback_reason by simp
  show ?thesis unfolding admitted_whole
    by (intro conjI refl fresh_key_not_stale stale_key_generation stands [unfolded txt_note] marks)
qed

definition admitted_response :: response where
  "admitted_response = \<lparr>rs_status = 200, rs_statusText = ''OK'',
     rs_headers = hd_set ''X-UK-AQ-Station-History-Contract'' ''v2'' (hd_set ''Content-Type'' ''application/json''
       (hd_set HEADER_CACHED_AT ''2024-03-01T10:00:00.000Z'' (hd_set HEADER_FRESH_UNTIL ''2024-03-01T10:01:00.000Z''
         (hd_set HEADER_STALE_UNTIL ''2024-03-01T10:06:00.000Z'' jm_empty)))),
     rs_body = ''{\"aqi\":{\"response_complete\":true},\"observations\":{\"enabled\":false,\"state\":\"disabled\"}}''\<rparr>"

theorem stale_answers_marked_witness:
  "\<exists>m s. buildCacheMetadata 1709287200000 (resolveRouteCachePolicy ''/v1/station-series'' sample_inspection
       (resolveStaleCacheConfig (\<lambda>_. Undef)) 0) = Inr m
     \<and> in_cacheable (inspectStationHistoryResponse admitted_response ''/v1/station-series'')
     \<and> buildStaleFallbackResponse (buildStoredCacheResponse admitted_response m ''stale'' 60) ''upstream_failure'' = Some s
     \<and> hd_get (rs_headers s) HEADER_STATE = JStr ''STALE''"
proof -
  have "is_ok (buildCacheMetadata 1709287200000 (resolveRouteCachePolicy ''/v1/station-series'' sample_inspection
       (resolveStaleCacheConfig (\<lambda>_. Undef)) 0))" by code_simp
  then obtain m where m: "buildCacheMetadata 1709287200000 (resolveRouteCachePolicy ''/v1/station-series''
       sample_inspection (resolveStaleCacheConfig (\<lambda>_. Undef)) 0) = Inr m" by (auto simp: is_ok_iff)
  note c = stale_answers_marked [OF m, where a = admitted_response and route = "''/v1/station-series''"
      and kind = "''stale''" and ttl = 60 and reason = "''upstream_failure''"]
  have adm: "in_cacheable (inspectStationHistoryResponse admitted_response ''/v1/station-series'')" by code_simp
  with c obtain s where s: "buildStaleFallbackResponse
      (buildStoredCacheResponse admitted_response m ''stale'' 60) ''upstream_failure'' = Some s" by blast
  with c have "hd_get (rs_headers s) HEADER_STATE = JStr ''STALE''" by blast
  with m adm s show ?thesis by blast
qed

end
