(* ===== verification/Continuity.thy ===== *)
theory Continuity
  imports RequestWindow
begin

text \<open>
  workers/uk_aq_station_history/src/continuity.mjs, identity.mjs and policy.mjs: the
  binding of a time series (which may join several series of one station, each valid for
  a range of days), the choice of the members that serve a window with the gaps they
  leave, the authoritative identity of a series, and the limits of the service. The
  answers of the binding service and of the database are arguments; the base addresses
  of these services are well-formed.
\<close>

section \<open>Errors and fields\<close>

text \<open>\<open>StationHistoryIdentityError(status, code)\<close>; the detail is a text for the log.\<close>

datatype identity_error = IdentityError int string

type_synonym 'a checked = "identity_error + 'a"

definition fail :: "int \<Rightarrow> string \<Rightarrow> 'a checked" where
  "fail status code = Inl (IdentityError status code)"

definition required :: "jsval \<Rightarrow> string" where
  "required value = trim_coalesce value"

definition or_null :: "string \<Rightarrow> string option" where
  "or_null s = (if s = [] then None else Some s)"

definition positiveInt :: "jsval \<Rightarrow> int option" where
  "positiveInt value = positive_int_of (js_number value)"

definition day_shape :: "string \<Rightarrow> bool" where
  "day_shape s \<longleftrightarrow> length s = 10 \<and> day_text s \<noteq> None"

definition isoDay :: "jsval \<Rightarrow> string option" where
  "isoDay value =
     (let t = required value in
      if \<not> day_shape t then None
      else case date_parse (t @ ''T00:00:00.000Z'') of
          None \<Rightarrow> None
        | Some ms \<Rightarrow> if take 10 (to_iso ms) = t then Some t else None)"

section \<open>Bindings\<close>

record member =
  mb_stationId :: int
  mb_stationRef :: "string option"
  mb_timeseriesId :: int
  mb_timeseriesRef :: "string option"
  mb_connectorId :: int
  mb_pollutant :: pollutant
  mb_validFrom :: "string option"
  mb_validTo :: "string option"

record continuity =
  ct_enabled :: bool
  ct_continuityKey :: "string option"
  ct_siteRef :: "string option"
  ct_ukAirRef :: "string option"
  ct_pollutant :: pollutant
  ct_members :: "member list"

text \<open>One member of the section; None stands for an invalid one.\<close>

definition read_member :: "int \<Rightarrow> pollutant \<Rightarrow> jsval \<Rightarrow> member option" where
  "read_member connectorId pollutant raw =
     (let to_day = jget raw ''valid_to_day_utc'';
          validTo = (if is_nullish to_day then None else isoDay to_day)
      in case (positiveInt (jget raw ''station_id''), positiveInt (jget raw ''timeseries_id''),
               isoDay (jget raw ''valid_from_day_utc'')) of
           (Some stationId, Some timeseriesId, Some validFrom) \<Rightarrow>
             if (\<not> is_nullish to_day \<and> validTo = None)
               \<or> (case validTo of None \<Rightarrow> False | Some d \<Rightarrow> d < validFrom) then None
             else Some \<lparr>mb_stationId = stationId, mb_stationRef = or_null (required (jget raw ''station_ref'')),
               mb_timeseriesId = timeseriesId, mb_timeseriesRef = or_null (required (jget raw ''timeseries_ref'')),
               mb_connectorId = connectorId, mb_pollutant = pollutant,
               mb_validFrom = Some validFrom, mb_validTo = validTo\<rparr>
         | _ \<Rightarrow> None)"

fun read_members :: "int \<Rightarrow> pollutant \<Rightarrow> int set \<Rightarrow> jsval list \<Rightarrow> member list option" where
  "read_members c p seen [] = Some []"
| "read_members c p seen (raw # raws) =
     (case read_member c p raw of
        None \<Rightarrow> None
      | Some m \<Rightarrow>
          if mb_timeseriesId m \<in> seen then None
          else map_option (Cons m) (read_members c p (insert (mb_timeseriesId m) seen) raws))"

fun overlapping :: "member list \<Rightarrow> bool" where
  "overlapping (previous # m # ms) =
     ((case mb_validTo previous of None \<Rightarrow> True | Some d \<Rightarrow> the (mb_validFrom m) \<le> d) \<or> overlapping (m # ms))"
| "overlapping _ = False"

definition member_key :: "member \<Rightarrow> (int list \<times> string) \<times> int" where
  "member_key m = (collation_key (the (mb_validFrom m)), mb_timeseriesId m)"

definition continuity_key :: "int \<Rightarrow> string \<Rightarrow> pollutant \<Rightarrow> string" where
  "continuity_key connectorId ukAirRef p = int_str connectorId @ '':'' @ ukAirRef @ '':'' @ pollutant_code p"

definition INVALID :: string where
  "INVALID = ''station_history_continuity_invalid''"

fun array_items :: "jsval \<Rightarrow> jsval list option" where
  "array_items (JArr vs) = Some vs"
| "array_items _ = None"

text \<open>Called once the connector of the binding has been read as a positive number.\<close>

definition validateContinuity :: "jsval \<Rightarrow> int \<Rightarrow> continuity checked" where
  "validateContinuity binding connectorId =
     (let section = jget binding ''continuity'';
          ukAirRef = js_upper (required (jget section ''uk_air_ref''))
      in if \<not> js_truthy section \<or> jget section ''schema_version'' \<noteq> JInt 1
            \<or> jget section ''source'' \<noteq> JStr ''sos_station_timeseries_site_refs''
         then fail 422 INVALID
         else case (normalizePollutantCode (jget section ''pollutant_code''), array_items (jget section ''members'')) of
             (Some p, Some raws) \<Rightarrow>
               (let expectedKey = continuity_key connectorId ukAirRef p in
               if JStr (pollutant_code p) \<noteq> jget binding ''pollutant_code''
                  \<or> required (jget section ''continuity_key'') \<noteq> expectedKey
                  \<or> required (jget section ''site_ref'') = [] \<or> length raws < 2
               then fail 422 INVALID
               else (case read_members connectorId p {} raws of
                   None \<Rightarrow> fail 422 INVALID
                 | Some read \<Rightarrow>
                     (let members = sort_key member_key read;
                          openEnded = length (filter (\<lambda>m. mb_validTo m = None) members);
                          own = filter (\<lambda>m. Some (mb_timeseriesId m) = positiveInt (jget binding ''timeseries_id'')) members
                      in if overlapping members then fail 422 ''station_history_continuity_overlap''
                         else if 1 < openEnded \<or> length own \<noteq> 1 then fail 422 INVALID
                         else Inr \<lparr>ct_enabled = True, ct_continuityKey = Some expectedKey,
                           ct_siteRef = Some (required (jget section ''site_ref'')), ct_ukAirRef = Some ukAirRef,
                           ct_pollutant = p, ct_members = members\<rparr>)))
           | _ \<Rightarrow> fail 422 INVALID)"

record history_request =
  hr_timeseriesId :: jsval
  hr_connectorId :: jsval
  hr_pollutant :: jsval

record series_identity =
  si_source :: string
  si_timeseriesId :: int
  si_stationId :: int
  si_connectorId :: int
  si_pollutant :: pollutant

definition single_member :: "int \<Rightarrow> int \<Rightarrow> int \<Rightarrow> pollutant \<Rightarrow> continuity" where
  "single_member stationId timeseriesId connectorId p =
     \<lparr>ct_enabled = False, ct_continuityKey = None, ct_siteRef = None, ct_ukAirRef = None, ct_pollutant = p,
      ct_members = [\<lparr>mb_stationId = stationId, mb_stationRef = None, mb_timeseriesId = timeseriesId,
        mb_timeseriesRef = None, mb_connectorId = connectorId, mb_pollutant = p,
        mb_validFrom = None, mb_validTo = None\<rparr>]\<rparr>"

definition validateTimeseriesBinding ::
  "jsval \<Rightarrow> history_request \<Rightarrow> (jsval \<times> continuity \<times> series_identity) checked" where
  "validateTimeseriesBinding binding request =
     (let bad = ''station_history_binding_invalid'';
          version = jget binding ''schema_version''
      in if \<not> is_object binding \<or> array_items binding \<noteq> None then fail 422 bad
         else case (positiveInt (jget binding ''timeseries_id''), positiveInt (jget binding ''connector_id''),
                    positiveInt (jget binding ''station_id''), normalizePollutantCode (jget binding ''pollutant_code'')) of
             (Some timeseriesId, Some connectorId, Some stationId, Some p) \<Rightarrow>
               if version \<notin> {JInt 1, JInt 2} \<or> jget binding ''history_version'' \<noteq> JStr ''v2''
                  \<or> jget binding ''index_kind'' \<noteq> JStr ''timeseries_binding'' then fail 422 bad
               else if Some timeseriesId \<noteq> positiveInt (hr_timeseriesId request)
               then fail 409 ''station_history_binding_timeseries_mismatch''
               else if js_truthy (hr_connectorId request) \<and> Some connectorId \<noteq> positiveInt (hr_connectorId request)
               then fail 409 ''station_history_connector_mismatch''
               else if Some p \<noteq> normalizePollutantCode (hr_pollutant request)
               then fail 409 ''station_history_pollutant_mismatch''
               else (case (if version = JInt 2 then validateContinuity binding connectorId
                           else Inr (single_member stationId timeseriesId connectorId p)) of
                   Inl err \<Rightarrow> Inl err
                 | Inr joined \<Rightarrow>
                     if version = JInt 1 \<and> jget binding ''continuity'' \<noteq> Undef then fail 422 bad
                     else Inr (binding, joined, \<lparr>si_source = ''r2_timeseries_binding'', si_timeseriesId = timeseriesId,
                       si_stationId = stationId, si_connectorId = connectorId, si_pollutant = p\<rparr>))
           | _ \<Rightarrow> fail 422 bad)"

text \<open>What came back from a service: nothing, or a status and the body when it is JSON.\<close>

datatype reply = NoReply | Reply int "jsval option"

definition reply_ok :: "int \<Rightarrow> bool" where
  "reply_ok status \<longleftrightarrow> 200 \<le> status \<and> status \<le> 299"

definition payload_of :: "jsval option \<Rightarrow> jsval" where
  "payload_of body = (case body of None \<Rightarrow> Null | Some v \<Rightarrow> v)"

definition resolveTimeseriesBinding ::
  "history_request \<Rightarrow> jsval \<Rightarrow> jsval \<Rightarrow> reply \<Rightarrow> (jsval \<times> continuity \<times> series_identity) checked" where
  "resolveTimeseriesBinding request baseUrl secret answer =
     (if required baseUrl = [] \<or> required secret = [] then fail 500 ''station_history_binding_config_missing''
      else case answer of
          NoReply \<Rightarrow> fail 502 ''station_history_binding_lookup_failed''
        | Reply status body \<Rightarrow>
            (let binding = jget (payload_of body) ''binding'' in
             if status = 404 then fail 404 ''station_history_binding_not_found''
             else if \<not> reply_ok status \<or> \<not> js_truthy binding
             then fail 502 ''station_history_binding_lookup_failed''
             else validateTimeseriesBinding binding request))"

section \<open>The authoritative identity\<close>

definition positiveInteger :: "jsval \<Rightarrow> int option" where
  "positiveInteger value = positive_int_of (js_parse_number (required value))"

text \<open>The first element of an array, or the value itself.\<close>

definition first_or_self :: "jsval \<Rightarrow> jsval" where
  "first_or_self v = (case array_items v of None \<Rightarrow> v | Some [] \<Rightarrow> Undef | Some (x # _) \<Rightarrow> x)"

record full_identity =
  fi_timeseriesId :: int
  fi_stationId :: int
  fi_connectorId :: int
  fi_phenomenonId :: int
  fi_observedPropertyId :: int
  fi_pollutant :: pollutant

definition identity_of_row :: "jsval \<Rightarrow> int \<Rightarrow> int option \<Rightarrow> pollutant \<Rightarrow> full_identity checked" where
  "identity_of_row row timeseriesId suppliedConnectorId requestedPollutant =
     (let phenomenon = first_or_self (jget row ''phenomena'');
          observedProperty = first_or_self (jget phenomenon ''observed_properties'')
      in if required (jget row ''ended_at'') \<noteq> [] then fail 409 ''station_history_timeseries_inactive''
         else case (positiveInteger (jget row ''station_id''), positiveInteger (jget row ''connector_id''),
                    positiveInteger (jget row ''phenomenon_id''),
                    positiveInteger (jget phenomenon ''observed_property_id''),
                    normalizePollutantCode (jget observedProperty ''code'')) of
             (Some stationId, Some connectorId, Some phenomenonId, Some propertyId, Some p) \<Rightarrow>
               if positiveInteger (jget phenomenon ''connector_id'') \<notin> {None, Some connectorId}
               then fail 409 ''station_history_authoritative_identity_conflict''
               else if p \<noteq> requestedPollutant then fail 409 ''station_history_pollutant_mismatch''
               else if suppliedConnectorId \<notin> {None, Some connectorId}
               then fail 409 ''station_history_connector_mismatch''
               else Inr \<lparr>fi_timeseriesId = timeseriesId, fi_stationId = stationId, fi_connectorId = connectorId,
                 fi_phenomenonId = phenomenonId, fi_observedPropertyId = propertyId, fi_pollutant = p\<rparr>
           | _ \<Rightarrow> fail 422 ''station_history_timeseries_identity_unusable'')"

definition resolveAuthoritativeTimeseriesIdentity ::
  "history_request \<Rightarrow> jsval \<Rightarrow> jsval \<Rightarrow> reply \<Rightarrow> full_identity checked" where
  "resolveAuthoritativeTimeseriesIdentity request supabaseUrl serviceKey answer =
     (let supplied = (if is_nullish (hr_connectorId request) then None else positiveInteger (hr_connectorId request))
      in case (positiveInteger (hr_timeseriesId request), normalizePollutantCode (hr_pollutant request)) of
           (None, _) \<Rightarrow> fail 400 ''station_history_timeseries_id_invalid''
         | (Some timeseriesId, wanted) \<Rightarrow>
             if \<not> is_nullish (hr_connectorId request) \<and> supplied = None
             then fail 400 ''station_history_connector_id_invalid''
             else case wanted of
                 None \<Rightarrow> fail 400 ''station_history_pollutant_invalid''
               | Some p \<Rightarrow>
                   if required supabaseUrl = [] \<or> required serviceKey = []
                   then fail 500 ''station_history_identity_config_missing''
                   else case answer of
                       NoReply \<Rightarrow> fail 502 ''station_history_identity_lookup_failed''
                     | Reply status body \<Rightarrow>
                         if \<not> reply_ok status then fail 502 ''station_history_identity_lookup_failed''
                         else case body of
                             None \<Rightarrow> fail 502 ''station_history_identity_lookup_invalid_response''
                           | Some payload \<Rightarrow>
                               (case array_items payload of
                                  Some [row] \<Rightarrow>
                                    if js_truthy row then identity_of_row row timeseriesId supplied p
                                    else fail 404 ''station_history_timeseries_not_found''
                                | _ \<Rightarrow> fail 404 ''station_history_timeseries_not_found''))"

definition publicTimeseriesIdentity :: "full_identity \<Rightarrow> jsval" where
  "publicTimeseriesIdentity i =
     JObj [(''source'', JStr ''authoritative_timeseries_lookup''), (''timeseries_id'', JInt (fi_timeseriesId i)),
       (''connector_id'', JInt (fi_connectorId i)), (''station_id'', JInt (fi_stationId i)),
       (''pollutant'', JStr (pollutant_code (fi_pollutant i)))]"

section \<open>Limits of the service\<close>

definition boolFlag :: "jsval \<Rightarrow> bool" where
  "boolFlag value \<longleftrightarrow> parseBooleanFlag value"

definition validationMode :: "jsval \<Rightarrow> string" where
  "validationMode value =
     (let mode = js_lower (js_trim (js_string (js_coalesce value (JStr ''off''))))
      in if mode \<in> {''off'', ''all'', ''sample''} then mode else ''off'')"

record history_policy =
  po_stableAqiHeadMaxHours :: int
  po_aqiChunkMaxHours :: int
  po_observationChunkMaxHours :: int
  po_observationOverlapHours :: int
  po_obsAqiDbTimeoutMs :: int
  po_ingestRetentionDays :: int
  po_continuityEnabled :: bool
  po_calculatedHistoryAqiEnabled :: bool
  po_aqiValidationMode :: string
  po_aqiValidationSamplePercent :: int

definition resolveStationHistoryPolicy :: "(string \<Rightarrow> jsval) \<Rightarrow> history_policy" where
  "resolveStationHistoryPolicy env =
     \<lparr>po_stableAqiHeadMaxHours = parseIntInRange (env ''UK_AQ_STATION_HISTORY_STABLE_AQI_HEAD_MAX_HOURS'') 168 12 (31 * 24),
      po_aqiChunkMaxHours = parseIntInRange (env ''UK_AQ_STATION_HISTORY_AQI_CHUNK_MAX_HOURS'') (31 * 24) 1 (31 * 24),
      po_observationChunkMaxHours = parseIntInRange (env ''UK_AQ_STATION_HISTORY_OBSERVATION_CHUNK_MAX_HOURS'') (7 * 24) 1 (31 * 24),
      po_observationOverlapHours = parseIntInRange (env ''UK_AQ_STATION_HISTORY_OBSERVATION_OVERLAP_HOURS'') 2 1 3,
      po_obsAqiDbTimeoutMs = parseIntInRange (env ''UK_AQ_STATION_HISTORY_OBSAQIDB_TIMEOUT_MS'') 10000 1000 60000,
      po_ingestRetentionDays = parseIntInRange (env ''INGESTDB_RETENTION_DAYS'') 5 1 31,
      po_continuityEnabled = boolFlag (env ''UK_AQ_STATION_HISTORY_CONTINUITY_ENABLED''),
      po_calculatedHistoryAqiEnabled = boolFlag (env ''UK_AQ_STATION_HISTORY_CALCULATED_HISTORY_AQI_ENABLED''),
      po_aqiValidationMode = validationMode (env ''UK_AQ_STATION_HISTORY_AQI_VALIDATION_MODE''),
      po_aqiValidationSamplePercent = parseIntInRange (env ''UK_AQ_STATION_HISTORY_AQI_VALIDATION_SAMPLE_PERCENT'') 0 0 100\<rparr>"

section \<open>Segments and gaps\<close>

record segment =
  sg_member :: member
  sg_startMs :: int
  sg_endMs :: int

text \<open>The days of a member as instants; None is the infinity on that side.\<close>

definition memberBounds :: "member \<Rightarrow> (int option \<times> int option) option" where
  "memberBounds m =
     (case mb_validFrom m of
        None \<Rightarrow> Some (None, None)
      | Some f \<Rightarrow>
          (case (date_parse (f @ ''T00:00:00.000Z''), mb_validTo m) of
             (None, _) \<Rightarrow> None
           | (Some s, None) \<Rightarrow> Some (Some s, None)
           | (Some s, Some d) \<Rightarrow>
               map_option (\<lambda>e. (Some s, Some (e + MS_DAY))) (date_parse (d @ ''T00:00:00.000Z''))))"

text \<open>A bound that is not a number gives no segment, since it compares false.\<close>

definition member_segment :: "int \<Rightarrow> int \<Rightarrow> member \<Rightarrow> segment option" where
  "member_segment startMs endExclusiveMs m =
     (case memberBounds m of
        None \<Rightarrow> None
      | Some (b, c) \<Rightarrow>
          (let s = (case b of None \<Rightarrow> startMs | Some x \<Rightarrow> max startMs x);
               e = (case c of None \<Rightarrow> endExclusiveMs | Some x \<Rightarrow> min endExclusiveMs x)
           in if s < e then Some \<lparr>sg_member = m, sg_startMs = s, sg_endMs = e\<rparr> else None))"

fun gap_ranges :: "int \<Rightarrow> (int \<times> int) list \<Rightarrow> int \<Rightarrow> (int \<times> int) list" where
  "gap_ranges cursor [] e = (if cursor < e then [(cursor, e)] else [])"
| "gap_ranges cursor ((a, b) # segs) e =
     (if cursor < a then [(cursor, a)] else []) @ gap_ranges (max cursor b) segs e"

definition segments_of :: "member list \<Rightarrow> int \<Rightarrow> int \<Rightarrow> segment list" where
  "segments_of ms startMs endExclusiveMs =
     sort_key (\<lambda>s. (sg_startMs s, mb_timeseriesId (sg_member s)))
       (keep_some (List.map (member_segment startMs endExclusiveMs) ms))"

definition segment_bounds :: "segment \<Rightarrow> int \<times> int" where
  "segment_bounds s = (sg_startMs s, sg_endMs s)"

definition selectContinuitySegments ::
  "continuity \<Rightarrow> int \<Rightarrow> int \<Rightarrow> segment list \<times> (string \<times> string) list" where
  "selectContinuitySegments joined startMs endExclusiveMs =
     (let segs = segments_of (ct_members joined) startMs endExclusiveMs
      in (segs, List.map (\<lambda>(a, b). (to_iso a, to_iso b))
            (gap_ranges startMs (List.map segment_bounds segs) endExclusiveMs)))"

definition js_opt :: "string option \<Rightarrow> jsval" where
  "js_opt v = (case v of None \<Rightarrow> Null | Some s \<Rightarrow> JStr s)"

definition publicContinuity :: "continuity \<Rightarrow> jsval" where
  "publicContinuity joined =
     JObj [(''enabled'', JBool (ct_enabled joined)), (''continuity_key'', js_opt (ct_continuityKey joined)),
       (''site_ref'', js_opt (ct_siteRef joined)), (''uk_air_ref'', js_opt (ct_ukAirRef joined)),
       (''members'', JArr (List.map (\<lambda>m. JObj
          [(''station_id'', JInt (mb_stationId m)), (''station_ref'', js_opt (mb_stationRef m)),
           (''timeseries_id'', JInt (mb_timeseriesId m)), (''timeseries_ref'', js_opt (mb_timeseriesRef m)),
           (''valid_from_day_utc'', js_opt (mb_validFrom m)), (''valid_to_day_utc'', js_opt (mb_validTo m))])
          (ct_members joined)))]"

section \<open>Lemmas on segments and gaps\<close>

text \<open>The gaps are exactly what the segments leave of the window.\<close>

lemma gap_ranges_covered:
  assumes "sorted (List.map fst segs)" "\<forall>s \<in> set segs. fst s < snd s \<and> snd s \<le> e"
  shows "covered (gap_ranges c segs e) = {c ..< e} - covered segs"
  using assms
proof (induction segs arbitrary: c)
  case (Cons s segs)
  obtain a b where s: "s = (a, b)" by (cases s)
  have ab: "a < b" "b \<le> e" using Cons.prems(2) s by auto
  have later: "t \<in> covered segs \<Longrightarrow> a \<le> t" for t
    using Cons.prems(1) s by (fastforce simp: covered_def)
  have "covered (gap_ranges (max c b) segs e) = {max c b ..< e} - covered segs"
    using Cons by simp
  moreover have "covered (xs @ ys) = covered xs \<union> covered ys" for xs ys
    by (auto simp: covered_def)
  ultimately have "covered (gap_ranges c (s # segs) e) =
      (if c < a then {c ..< a} else {}) \<union> ({max c b ..< e} - covered segs)"
    by (auto simp: s)
  also have "\<dots> = {c ..< e} - covered (s # segs)"
  proof (rule set_eqI)
    fix t
    show "t \<in> (if c < a then {c ..< a} else {}) \<union> ({max c b ..< e} - covered segs) \<longleftrightarrow>
        t \<in> {c ..< e} - covered (s # segs)"
      using ab later [of t] by (auto simp: s not_less)
  qed
  finally show ?case .
qed (simp add: covered_def)

lemma keep_some_mem [simp]: "x \<in> set (keep_some xs) \<longleftrightarrow> Some x \<in> set xs"
  by (force simp: keep_some_def)

lemma member_segment_bounds:
  "member_segment s e m = Some g \<Longrightarrow> sg_member g = m \<and> s \<le> sg_startMs g \<and> sg_startMs g < sg_endMs g \<and> sg_endMs g \<le> e"
  by (auto simp: member_segment_def Let_def split: option.splits prod.splits if_splits)

lemma segments_of_mem:
  "g \<in> set (segments_of ms s e) \<longleftrightarrow> (\<exists>m \<in> set ms. member_segment s e m = Some g)"
  by (force simp: segments_of_def)

lemma segments_sorted: "sorted (List.map sg_startMs (segments_of ms s e))"
proof -
  have "sorted (List.map (\<lambda>s. (sg_startMs s, mb_timeseriesId (sg_member s))) (segments_of ms s e))"
    by (simp add: segments_of_def)
  then show ?thesis
    by (auto simp: sorted_wrt_map elim!: sorted_wrt_mono_rel [rotated])
qed

lemma gaps_complete:
  "covered (gap_ranges s (List.map segment_bounds (segments_of ms s e)) e) =
     {s ..< e} - (\<Union>g \<in> set (segments_of ms s e). {sg_startMs g ..< sg_endMs g})"
proof -
  have "covered (gap_ranges s (List.map segment_bounds (segments_of ms s e)) e) =
      {s ..< e} - covered (List.map segment_bounds (segments_of ms s e))"
    by (rule gap_ranges_covered)
      (use segments_sorted [of ms s e] in \<open>auto simp: segment_bounds_def comp_def segments_of_mem dest!: member_segment_bounds\<close>)
  then show ?thesis by (simp add: covered_def segment_bounds_def)
qed

lemma segments_within:
  "g \<in> set (segments_of ms s e) \<Longrightarrow> s \<le> sg_startMs g \<and> sg_startMs g < sg_endMs g \<and> sg_endMs g \<le> e"
  by (auto simp: segments_of_mem dest: member_segment_bounds)

section \<open>Lemmas on days\<close>

lemma isoDay_value:
  assumes "isoDay v = Some d"
  shows "\<exists>n. d = iso_day n \<and> date_parse (d @ ''T00:00:00.000Z'') = Some (n * MS_DAY) \<and>
    0 \<le> year_of_day n \<and> year_of_day n \<le> 9999"
proof -
  obtain ms where ms: "date_parse (d @ ''T00:00:00.000Z'') = Some ms" "take 10 (to_iso ms) = d" "day_shape d"
    using assms by (auto simp: isoDay_def Let_def split: if_splits option.splits)
  have len: "length d = 10" using ms(3) by (simp add: day_shape_def)
  have "\<forall>i \<in> {0 ..< 10}. if i = 4 \<or> i = 7 then d ! i = CHR ''-'' else is_digit (d ! i)"
    using ms(3) by (auto simp: day_shape_def day_text_def list_all_iff split: if_splits)
  then have dig: "is_digit (d ! 0)" by (auto dest: bspec [where x = 0])
  show ?thesis using iso_midnight [OF ms(1,2) len dig] ms(1) by auto
qed

definition day_of :: "string \<Rightarrow> int" where
  "day_of d = (case date_parse (d @ ''T00:00:00.000Z'') of None \<Rightarrow> 0 | Some t \<Rightarrow> t)"

definition good_day :: "string \<Rightarrow> bool" where
  "good_day d \<longleftrightarrow> (\<exists>n. d = iso_day n \<and> date_parse (d @ ''T00:00:00.000Z'') = Some (n * MS_DAY) \<and>
    0 \<le> year_of_day n \<and> year_of_day n \<le> 9999)"

lemma good_day_parse: "good_day d \<Longrightarrow> date_parse (d @ ''T00:00:00.000Z'') = Some (day_of d)"
  by (auto simp: good_day_def day_of_def)

text \<open>Days compared as texts are days compared as instants.\<close>

lemma good_day_less:
  assumes "good_day d" "good_day f" "d < f"
  shows "day_of d + MS_DAY \<le> day_of f"
proof -
  obtain n m where nm: "d = iso_day n" "f = iso_day m" "day_of d = n * MS_DAY" "day_of f = m * MS_DAY"
      "0 \<le> year_of_day n" "year_of_day n \<le> 9999" "0 \<le> year_of_day m" "year_of_day m \<le> 9999"
    using assms(1,2) by (auto simp: good_day_def day_of_def)
  have "n < m"
  proof (rule ccontr)
    assume "\<not> n < m"
    then have "m < n \<or> m = n" by auto
    then show False using assms(3) nm iso_day_less [of m n] by auto
  qed
  then have "(n + 1) * MS_DAY \<le> m * MS_DAY" by (intro mult_right_mono) (auto simp: MS_DAY_def)
  then show ?thesis using nm by (simp add: algebra_simps)
qed

lemma good_day_le:
  assumes "good_day d" "good_day f" "\<not> f < d"
  shows "day_of d \<le> day_of f"
proof (cases "d = f")
  case False
  then have "d < f" using assms(3) by auto
  with good_day_less [OF assms(1,2)] show ?thesis by (simp add: MS_DAY_def)
qed simp

section \<open>Lemmas on validated bindings\<close>

definition dated :: "member \<Rightarrow> bool" where
  "dated m \<longleftrightarrow> (\<exists>f. mb_validFrom m = Some f \<and> good_day f) \<and>
     (\<forall>d. mb_validTo m = Some d \<longrightarrow> good_day d \<and> \<not> d < the (mb_validFrom m))"

lemma read_member_dated: "read_member c p raw = Some m \<Longrightarrow> dated m"
  using isoDay_value
  by (fastforce simp: read_member_def Let_def dated_def good_day_def split: option.splits if_splits)

lemma read_members_dated: "read_members c p seen raws = Some ms \<Longrightarrow> m \<in> set ms \<Longrightarrow> dated m"
  by (induction raws arbitrary: seen ms) (auto split: option.splits if_splits dest: read_member_dated)

lemma read_members_ids:
  "read_members c p seen raws = Some ms \<Longrightarrow> distinct (List.map mb_timeseriesId ms) \<and>
     mb_timeseriesId ` set ms \<inter> seen = {}"
  by (induction raws arbitrary: seen ms) (fastforce split: option.splits if_splits)+

text \<open>Members in order: each ends before the next begins.\<close>

definition before :: "member \<Rightarrow> member \<Rightarrow> bool" where
  "before a b \<longleftrightarrow> (\<exists>d. mb_validTo a = Some d \<and> day_of d + MS_DAY \<le> day_of (the (mb_validFrom b)))"

lemma before_trans: "dated b \<Longrightarrow> before a b \<Longrightarrow> before b c \<Longrightarrow> before a c"
proof -
  assume b: "dated b" and ab: "before a b" and bc: "before b c"
  obtain f d where fd: "mb_validFrom b = Some f" "good_day f" "mb_validTo b = Some d" "good_day d" "\<not> d < f"
    using b bc by (auto simp: dated_def before_def)
  then have "day_of f \<le> day_of d" by (intro good_day_le)
  moreover have "0 \<le> MS_DAY" by (simp add: MS_DAY_def)
  ultimately show ?thesis using ab bc fd by (auto simp: before_def)
qed

lemma not_overlapping_before:
  assumes "\<forall>m \<in> set ms. dated m" "\<not> overlapping ms"
  shows "sorted_wrt before ms"
  using assms
proof (induction ms rule: overlapping.induct)
  case (1 a b ms)
  have "before a b"
  proof -
    obtain d f where df: "mb_validTo a = Some d" "mb_validFrom b = Some f" "good_day d" "good_day f" "d < f"
      using 1(2,3) by (auto simp: dated_def not_le split: option.splits)
    then show ?thesis using good_day_less by (simp add: before_def)
  qed
  moreover have s: "sorted_wrt before (b # ms)" using 1 by simp
  ultimately have "\<forall>c \<in> set ms. before a c" using before_trans 1(2) by auto
  with \<open>before a b\<close> s show ?case by simp
qed simp_all

lemma validateContinuity_members:
  assumes "validateContinuity binding c = Inr joined"
  shows "\<forall>m \<in> set (ct_members joined). dated m" "sorted_wrt before (ct_members joined)"
    "distinct (List.map mb_timeseriesId (ct_members joined))"
proof -
  obtain p raws read where r: "read_members c p {} raws = Some read" "ct_members joined = sort_key member_key read"
      "\<not> overlapping (ct_members joined)"
    using assms by (auto simp: validateContinuity_def Let_def fail_def split: option.splits if_splits)
  show d: "\<forall>m \<in> set (ct_members joined). dated m" using r(2) read_members_dated [OF r(1)] by auto
  show "sorted_wrt before (ct_members joined)" using d r(3) by (rule not_overlapping_before)
  show "distinct (List.map mb_timeseriesId (ct_members joined))"
    using read_members_ids [OF r(1)] r(2) by (simp add: sorting_simps)
qed

lemma binding_members:
  assumes "validateTimeseriesBinding binding request = Inr (b, joined, i)"
  shows "sorted_wrt before (ct_members joined)"
    "(\<forall>m \<in> set (ct_members joined). dated m) \<or> (\<exists>m. ct_members joined = [m])"
proof -
  consider (joined) c where "validateContinuity binding c = Inr joined"
    | (single) s t c p where "joined = single_member s t c p"
    using assms by (auto simp: validateTimeseriesBinding_def Let_def fail_def
        split: option.splits if_splits sum.splits)
  then have "sorted_wrt before (ct_members joined) \<and>
      ((\<forall>m \<in> set (ct_members joined). dated m) \<or> (\<exists>m. ct_members joined = [m]))"
    by cases (use validateContinuity_members in \<open>auto simp: single_member_def\<close>)
  then show "sorted_wrt before (ct_members joined)"
    "(\<forall>m \<in> set (ct_members joined). dated m) \<or> (\<exists>m. ct_members joined = [m])" by auto
qed

lemma before_segments:
  assumes "before a b" "dated a" "dated b" "member_segment s e a = Some g" "member_segment s e b = Some h"
  shows "sg_endMs g \<le> sg_startMs h"
proof -
  obtain d where d: "mb_validTo a = Some d" "day_of d + MS_DAY \<le> day_of (the (mb_validFrom b))"
    using assms(1) by (auto simp: before_def)
  obtain f where f: "mb_validFrom b = Some f" "good_day f" using assms(3) by (auto simp: dated_def)
  obtain f' where f': "mb_validFrom a = Some f'" "good_day f'" using assms(2) by (auto simp: dated_def)
  have "good_day d" using assms(2) d(1) by (simp add: dated_def)
  then have "sg_endMs g \<le> day_of d + MS_DAY"
    using assms(4) d(1) f' by (auto simp: member_segment_def memberBounds_def good_day_parse Let_def split: if_splits)
  moreover have "day_of f \<le> sg_startMs h"
    using assms(5) f by (auto simp: member_segment_def memberBounds_def good_day_parse Let_def split: if_splits option.splits)
  ultimately show ?thesis using d(2) f(1) by simp
qed

text \<open>At every instant at most one segment serves.\<close>

lemma at_most_one: "sorted_wrt (\<lambda>x y. \<not> (P x \<and> P y)) xs \<Longrightarrow> length (filter P xs) \<le> 1"
proof (induction xs)
  case (Cons x xs)
  show ?case
  proof (cases "P x")
    case True
    then have "filter P xs = []" using Cons.prems by (auto simp: filter_empty_conv)
    with True show ?thesis by simp
  next
    case False
    then show ?thesis using Cons by simp
  qed
qed simp

lemma keep_some_simps [simp]:
  "keep_some [] = []" "keep_some (None # xs) = keep_some xs" "keep_some (Some x # xs) = x # keep_some xs"
  by (simp_all add: keep_some_def)

lemma segments_in_order:
  assumes "sorted_wrt before ms" "\<forall>m \<in> set ms. dated m"
  shows "sorted_wrt (\<lambda>g h. sg_endMs g \<le> sg_startMs h) (keep_some (List.map (member_segment s e) ms))"
  using assms
proof (induction ms)
  case (Cons m ms)
  have IH: "sorted_wrt (\<lambda>g h. sg_endMs g \<le> sg_startMs h) (keep_some (List.map (member_segment s e) ms))"
    using Cons by simp
  show ?case
  proof (cases "member_segment s e m")
    case (Some g)
    have "\<forall>h \<in> set (keep_some (List.map (member_segment s e) ms)). sg_endMs g \<le> sg_startMs h"
    proof
      fix h assume "h \<in> set (keep_some (List.map (member_segment s e) ms))"
      then obtain n where "n \<in> set ms" "member_segment s e n = Some h" by auto
      with Cons.prems before_segments [of m n s e g h] Some show "sg_endMs g \<le> sg_startMs h" by auto
    qed
    with Some IH show ?thesis by simp
  qed (use IH in simp)
qed simp

lemma one_segment_serves:
  assumes "validateTimeseriesBinding binding request = Inr (b, joined, i)"
  shows "length (filter (\<lambda>g. sg_startMs g \<le> t \<and> t < sg_endMs g) (segments_of (ct_members joined) s e)) \<le> 1"
proof -
  let ?P = "\<lambda>g. sg_startMs g \<le> t \<and> t < sg_endMs g"
  let ?xs = "keep_some (List.map (member_segment s e) (ct_members joined))"
  note mem = binding_members [OF assms]
  from mem(2) consider (all_dated) "\<forall>m \<in> set (ct_members joined). dated m"
    | (one) k where "ct_members joined = [k]" by blast
  then have "length (filter ?P ?xs) \<le> 1"
  proof cases
    case all_dated
    have "sorted_wrt (\<lambda>x y. \<not> (?P x \<and> ?P y)) ?xs"
      by (rule sorted_wrt_mono_rel [OF _ segments_in_order [OF mem(1) all_dated]]) auto
    then show ?thesis by (rule at_most_one)
  next
    case one
    then show ?thesis by (cases "member_segment s e k") auto
  qed
  moreover have "length (filter ?P (segments_of (ct_members joined) s e)) = length (filter ?P ?xs)"
    unfolding segments_of_def by (rule mset_eq_length) simp
  ultimately show ?thesis by simp
qed

section \<open>Lemmas on identities and limits\<close>

lemma array_items_Some [simp]: "array_items v = Some vs \<longleftrightarrow> v = JArr vs"
  by (cases v) auto

lemma identity_of_row_agrees:
  assumes "identity_of_row row t supplied p = Inr i"
  shows "fi_timeseriesId i = t \<and> fi_pollutant i = p \<and> (supplied = None \<or> supplied = Some (fi_connectorId i))
    \<and> required (jget row ''ended_at'') = []
    \<and> positiveInteger (jget row ''connector_id'') = Some (fi_connectorId i)
    \<and> positiveInteger (jget row ''station_id'') = Some (fi_stationId i)"
  using assms by (auto simp: identity_of_row_def Let_def fail_def split: option.splits if_splits)

lemma identity_agrees:
  assumes "resolveAuthoritativeTimeseriesIdentity request url key answer = Inr i"
  shows "positiveInteger (hr_timeseriesId request) = Some (fi_timeseriesId i)"
    "normalizePollutantCode (hr_pollutant request) = Some (fi_pollutant i)"
    "is_nullish (hr_connectorId request) \<or> positiveInteger (hr_connectorId request) = Some (fi_connectorId i)"
    "\<exists>st row. answer = Reply st (Some (JArr [row])) \<and> reply_ok st \<and> required (jget row ''ended_at'') = []
      \<and> positiveInteger (jget row ''connector_id'') = Some (fi_connectorId i)
      \<and> positiveInteger (jget row ''station_id'') = Some (fi_stationId i)"
proof -
  define supplied where "supplied =
    (if is_nullish (hr_connectorId request) then None else positiveInteger (hr_connectorId request))"
  have "\<exists>t p st row. positiveInteger (hr_timeseriesId request) = Some t \<and> normalizePollutantCode (hr_pollutant request) = Some p
      \<and> answer = Reply st (Some (JArr [row])) \<and> reply_ok st \<and> identity_of_row row t supplied p = Inr i
      \<and> (is_nullish (hr_connectorId request) \<or> supplied \<noteq> None)"
    using assms unfolding resolveAuthoritativeTimeseriesIdentity_def Let_def supplied_def [symmetric]
    by (auto simp: fail_def split: option.splits reply.splits if_splits list.splits)
  then obtain t p st row where r: "positiveInteger (hr_timeseriesId request) = Some t"
      "normalizePollutantCode (hr_pollutant request) = Some p" "answer = Reply st (Some (JArr [row]))" "reply_ok st"
      "identity_of_row row t supplied p = Inr i" "is_nullish (hr_connectorId request) \<or> supplied \<noteq> None"
    by blast
  note a = identity_of_row_agrees [OF r(5)]
  then show "positiveInteger (hr_timeseriesId request) = Some (fi_timeseriesId i)"
    "normalizePollutantCode (hr_pollutant request) = Some (fi_pollutant i)"
    "\<exists>st row. answer = Reply st (Some (JArr [row])) \<and> reply_ok st \<and> required (jget row ''ended_at'') = []
      \<and> positiveInteger (jget row ''connector_id'') = Some (fi_connectorId i)
      \<and> positiveInteger (jget row ''station_id'') = Some (fi_stationId i)"
    using r by simp_all
  show "is_nullish (hr_connectorId request) \<or> positiveInteger (hr_connectorId request) = Some (fi_connectorId i)"
    using a r(6) by (auto simp: supplied_def split: if_splits)
qed

lemma binding_agrees:
  assumes "validateTimeseriesBinding binding request = Inr (b, joined, i)"
  shows "positiveInt (hr_timeseriesId request) = Some (si_timeseriesId i)"
    "js_truthy (hr_connectorId request) \<Longrightarrow> positiveInt (hr_connectorId request) = Some (si_connectorId i)"
    "normalizePollutantCode (hr_pollutant request) = Some (si_pollutant i)"
  using assms
  by (auto simp: validateTimeseriesBinding_def Let_def fail_def split: option.splits if_splits sum.splits)

lemma policy_limits:
  "12 \<le> po_stableAqiHeadMaxHours (resolveStationHistoryPolicy env)"
  "po_stableAqiHeadMaxHours (resolveStationHistoryPolicy env) \<le> 744"
  "1 \<le> po_aqiChunkMaxHours (resolveStationHistoryPolicy env)"
  "po_aqiChunkMaxHours (resolveStationHistoryPolicy env) \<le> 744"
  "1 \<le> po_observationChunkMaxHours (resolveStationHistoryPolicy env)"
  "po_observationChunkMaxHours (resolveStationHistoryPolicy env) \<le> 744"
  "1 \<le> po_ingestRetentionDays (resolveStationHistoryPolicy env)"
  "po_ingestRetentionDays (resolveStationHistoryPolicy env) \<le> 31"
  by (simp_all add: resolveStationHistoryPolicy_def parseIntInRange_bounds)

section \<open>Properties\<close>

text \<open>C38: the segments chosen for a window and the gaps reported beside them divide the window: every
  segment lies in it, the gaps are printed from ranges that cover exactly the instants of the
  window no segment covers.\<close>

theorem segments_partition_window:
  "\<exists>rs. snd (selectContinuitySegments joined s e) = List.map (\<lambda>(a, b). (to_iso a, to_iso b)) rs
    \<and> covered rs = {s ..< e} - covered (List.map segment_bounds (fst (selectContinuitySegments joined s e)))
    \<and> covered (List.map segment_bounds (fst (selectContinuitySegments joined s e))) \<subseteq> {s ..< e}"
proof -
  let ?segs = "segments_of (ct_members joined) s e"
  have "covered (List.map segment_bounds ?segs) = (\<Union>g \<in> set ?segs. {sg_startMs g ..< sg_endMs g})"
    by (simp add: covered_def segment_bounds_def)
  moreover have "(\<Union>g \<in> set ?segs. {sg_startMs g ..< sg_endMs g}) \<subseteq> {s ..< e}"
    using segments_within by fastforce
  ultimately show ?thesis
    using gaps_complete [of s "ct_members joined" e]
    by (intro exI [of _ "gap_ranges s (List.map segment_bounds ?segs) e"])
      (simp add: selectContinuitySegments_def Let_def)
qed

text \<open>C39: in a binding that was validated at most one member serves any instant: no window has two
  segments that contain the same instant.\<close>

theorem one_member_per_instant:
  assumes "validateTimeseriesBinding binding request = Inr (b, joined, i)"
  shows "length (filter (\<lambda>g. sg_startMs g \<le> t \<and> t < sg_endMs g) (fst (selectContinuitySegments joined s e))) \<le> 1"
  using one_segment_serves [OF assms] by (simp add: selectContinuitySegments_def Let_def)

definition sample_member :: "int \<Rightarrow> string \<Rightarrow> jsval \<Rightarrow> jsval" where
  "sample_member ts valid_from valid_to = JObj [(''station_id'', JInt 3), (''timeseries_id'', JInt ts),
     (''valid_from_day_utc'', JStr valid_from), (''valid_to_day_utc'', valid_to)]"

definition sample_binding :: jsval where
  "sample_binding = JObj [(''schema_version'', JInt 2), (''history_version'', JStr ''v2''),
     (''index_kind'', JStr ''timeseries_binding''), (''timeseries_id'', JInt 7), (''connector_id'', JInt 1),
     (''station_id'', JInt 3), (''pollutant_code'', JStr ''no2''),
     (''continuity'', JObj [(''schema_version'', JInt 1), (''source'', JStr ''sos_station_timeseries_site_refs''),
        (''pollutant_code'', JStr ''no2''), (''uk_air_ref'', JStr ''uka00001''),
        (''continuity_key'', JStr ''1:UKA00001:no2''), (''site_ref'', JStr ''S1''),
        (''members'', JArr [sample_member 7 ''2024-01-01'' Null, sample_member 6 ''2023-01-01'' (JStr ''2023-12-31'')])])]"

definition sample_history_request :: history_request where
  "sample_history_request = \<lparr>hr_timeseriesId = JInt 7, hr_connectorId = Null, hr_pollutant = JStr ''NO2''\<rparr>"

definition binding_of :: "(jsval \<times> continuity \<times> series_identity) checked \<Rightarrow> continuity" where
  "binding_of r = fst (snd (projr r))"

theorem one_member_per_instant_witness:
  "length (filter (\<lambda>g. sg_startMs g \<le> 1704067200000 \<and> 1704067200000 < sg_endMs g) (fst (selectContinuitySegments
     (binding_of (validateTimeseriesBinding sample_binding sample_history_request)) 1704000000000 1704100000000))) \<le> 1"
proof -
  let ?v = "validateTimeseriesBinding sample_binding sample_history_request"
  have e: "(case ?v of Inr _ \<Rightarrow> True | Inl _ \<Rightarrow> False)" by code_simp
  then obtain b joined i where v: "?v = Inr (b, joined, i)" by (auto split: sum.splits)
  from one_member_per_instant [OF v] show ?thesis by (simp add: v binding_of_def)
qed

text \<open>C40: an identity is granted only on the single row that the database returned for the series, which
  must be active, and it agrees with the request: the same series and pollutant, and the connector
  of the row, which is the one the request named if it named one.\<close>

theorem identity_authoritative:
  assumes "resolveAuthoritativeTimeseriesIdentity request url key answer = Inr i"
  shows "positiveInteger (hr_timeseriesId request) = Some (fi_timeseriesId i)
    \<and> normalizePollutantCode (hr_pollutant request) = Some (fi_pollutant i)
    \<and> (is_nullish (hr_connectorId request) \<or> positiveInteger (hr_connectorId request) = Some (fi_connectorId i))
    \<and> (\<exists>st row. answer = Reply st (Some (JArr [row])) \<and> reply_ok st \<and> required (jget row ''ended_at'') = []
        \<and> positiveInteger (jget row ''connector_id'') = Some (fi_connectorId i)
        \<and> positiveInteger (jget row ''station_id'') = Some (fi_stationId i))"
  using identity_agrees [OF assms] by blast

definition sample_identity_row :: jsval where
  "sample_identity_row = JObj [(''station_id'', JInt 3), (''connector_id'', JInt 1), (''phenomenon_id'', JInt 5),
     (''phenomena'', JObj [(''connector_id'', JInt 1), (''observed_property_id'', JInt 2),
        (''observed_properties'', JObj [(''code'', JStr ''no2'')])])]"

theorem identity_authoritative_witness:
  "\<exists>i. resolveAuthoritativeTimeseriesIdentity sample_history_request (JStr ''https://db'') (JStr ''k'')
       (Reply 200 (Some (JArr [sample_identity_row]))) = Inr i \<and> reply_ok 200"
proof -
  have "case resolveAuthoritativeTimeseriesIdentity sample_history_request (JStr ''https://db'') (JStr ''k'')
       (Reply 200 (Some (JArr [sample_identity_row]))) of Inr _ \<Rightarrow> True | Inl _ \<Rightarrow> False" by code_simp
  then obtain i where i: "resolveAuthoritativeTimeseriesIdentity sample_history_request (JStr ''https://db'') (JStr ''k'')
       (Reply 200 (Some (JArr [sample_identity_row]))) = Inr i" by (auto split: sum.splits)
  from identity_authoritative [OF i] i show ?thesis by auto
qed

end
