(* ===== verification/Transaction.thy ===== *)
theory Transaction
  imports Prelude
begin

text \<open>
  A connection to the database as the programs use it: one transaction at a time, statements
  that may fail, and a commit whose answer may be lost. The state of the database is a type parameter.
  A fault schedule, indexed by the number of the statement, says which statements fail and how; every
  theorem holds for all schedules. Other sessions are not modelled: a conflict with one of them
  is a fault with its error code.
\<close>

named_theorems tx_rules "what the steps of a transaction establish"

section \<open>Sessions\<close>

datatype tx_error = DatabaseError string | Thrown js_error

text \<open>
  The committed state, the copy the open transaction works on, the number of statements sent so far, and
  the variables that the program keeps outside its try block.
\<close>

record ('db, 'v) session =
  se_db :: 'db
  se_work :: "'db option"
  se_tick :: nat
  se_vars :: 'v

type_synonym ('db, 'v, 'a) tx = "('db, 'v) session \<Rightarrow> (tx_error + 'a) \<times> ('db, 'v) session"

text \<open>A failing statement: the error code it reports, and whether a commit took effect all the same.\<close>

record fault =
  ft_code :: string
  ft_effective :: bool

type_synonym faults = "nat \<Rightarrow> fault option"

section \<open>Programs\<close>

definition tx_ret :: "'a \<Rightarrow> ('db, 'v, 'a) tx" where
  "tx_ret x s = (Inr x, s)"

definition tx_bind :: "('db, 'v, 'a) tx \<Rightarrow> ('a \<Rightarrow> ('db, 'v, 'b) tx) \<Rightarrow> ('db, 'v, 'b) tx" where
  "tx_bind m f s = (case m s of (Inl e, s1) \<Rightarrow> (Inl e, s1) | (Inr x, s1) \<Rightarrow> f x s1)"

definition tx_res :: "'a res \<Rightarrow> ('db, 'v, 'a) tx" where
  "tx_res r s = (case r of Inl e \<Rightarrow> (Inl (Thrown e), s) | Inr x \<Rightarrow> (Inr x, s))"

definition tx_fail :: "tx_error \<Rightarrow> ('db, 'v, 'a) tx" where
  "tx_fail e s = (Inl e, s)"

text \<open>try ... catch\<close>

definition tx_catch :: "('db, 'v, 'a) tx \<Rightarrow> (tx_error \<Rightarrow> ('db, 'v, 'a) tx) \<Rightarrow> ('db, 'v, 'a) tx" where
  "tx_catch m h s = (case m s of (Inl e, s1) \<Rightarrow> h e s1 | (Inr x, s1) \<Rightarrow> (Inr x, s1))"

text \<open>try ... finally: an error of the last part replaces the outcome.\<close>

definition tx_finally :: "('db, 'v, 'a) tx \<Rightarrow> ('db, 'v, unit) tx \<Rightarrow> ('db, 'v, 'a) tx" where
  "tx_finally m f s =
     (case m s of (r, s1) \<Rightarrow> (case f s1 of (Inl e, s2) \<Rightarrow> (Inl e, s2) | (Inr _, s2) \<Rightarrow> (r, s2)))"

fun tx_mapM :: "('a \<Rightarrow> ('db, 'v, 'b) tx) \<Rightarrow> 'a list \<Rightarrow> ('db, 'v, 'b list) tx" where
  "tx_mapM f [] = tx_ret []"
| "tx_mapM f (x # xs) = tx_bind (f x) (\<lambda>y. tx_bind (tx_mapM f xs) (\<lambda>ys. tx_ret (y # ys)))"

definition tx_vars :: "('v \<Rightarrow> 'v) \<Rightarrow> ('db, 'v, unit) tx" where
  "tx_vars f s = (Inr (), s\<lparr>se_vars := f (se_vars s)\<rparr>)"

definition tx_read_vars :: "('db, 'v, 'v) tx" where
  "tx_read_vars s = (Inr (se_vars s), s)"

section \<open>Statements\<close>

text \<open>A statement reads and updates the copy of the open transaction; outside one it commits by itself.\<close>

definition tx_query :: "faults \<Rightarrow> ('db \<Rightarrow> 'a \<times> 'db) \<Rightarrow> ('db, 'v, 'a) tx" where
  "tx_query faults f s =
     (let s1 = s\<lparr>se_tick := se_tick s + 1\<rparr>
      in case faults (se_tick s) of
           Some ft \<Rightarrow> (Inl (DatabaseError (ft_code ft)), s1)
         | None \<Rightarrow>
             (case se_work s of
                None \<Rightarrow> (let (r, db) = f (se_db s) in (Inr r, s1\<lparr>se_db := db\<rparr>))
              | Some w \<Rightarrow> (let (r, w1) = f w in (Inr r, s1\<lparr>se_work := Some w1\<rparr>))))"

definition tx_begin :: "faults \<Rightarrow> ('db, 'v, unit) tx" where
  "tx_begin faults s =
     (let s1 = s\<lparr>se_tick := se_tick s + 1\<rparr>
      in case faults (se_tick s) of
           Some ft \<Rightarrow> (Inl (DatabaseError (ft_code ft)), s1)
         | None \<Rightarrow> (Inr (), s1\<lparr>se_work := Some (se_db s)\<rparr>))"

definition tx_commit :: "faults \<Rightarrow> ('db, 'v, unit) tx" where
  "tx_commit faults s =
     (let s1 = s\<lparr>se_tick := se_tick s + 1, se_work := None\<rparr>;
          done = (case se_work s of None \<Rightarrow> s1 | Some w \<Rightarrow> s1\<lparr>se_db := w\<rparr>)
      in case faults (se_tick s) of
           Some ft \<Rightarrow> (Inl (DatabaseError (ft_code ft)), if ft_effective ft then done else s1)
         | None \<Rightarrow> (Inr (), done))"

text \<open>A rollback whose answer is lost has still ended the transaction: the server ends it with the connection.\<close>

definition tx_rollback :: "faults \<Rightarrow> ('db, 'v, unit) tx" where
  "tx_rollback faults s =
     (let s1 = s\<lparr>se_tick := se_tick s + 1, se_work := None\<rparr>
      in case faults (se_tick s) of
           Some ft \<Rightarrow> (Inl (DatabaseError (ft_code ft)), s1)
         | None \<Rightarrow> (Inr (), s1))"

section \<open>Reasoning\<close>

text \<open>From a state with P the program ends, returns with Q or throws with E.\<close>

definition ensures ::
  "(('db, 'v) session \<Rightarrow> bool) \<Rightarrow> ('db, 'v, 'a) tx \<Rightarrow> ('a \<Rightarrow> ('db, 'v) session \<Rightarrow> bool) \<Rightarrow>
     (tx_error \<Rightarrow> ('db, 'v) session \<Rightarrow> bool) \<Rightarrow> bool" where
  "ensures P m Q E \<longleftrightarrow>
     (\<forall>s. P s \<longrightarrow> (case m s of (Inl e, s') \<Rightarrow> E e s' | (Inr x, s') \<Rightarrow> Q x s'))"

lemma ensuresD:
  assumes "ensures P m Q E" "P s"
  shows "m s = (Inr x, s') \<Longrightarrow> Q x s'" "m s = (Inl e, s') \<Longrightarrow> E e s'"
  using assms by (auto simp: ensures_def)

lemma ensures_weaken:
  assumes "ensures P' m Q' E'" "\<And>s. P s \<Longrightarrow> P' s" "\<And>x s. Q' x s \<Longrightarrow> Q x s" "\<And>e s. E' e s \<Longrightarrow> E e s"
  shows "ensures P m Q E"
  using assms unfolding ensures_def by (fastforce split: prod.splits sum.splits)

lemma ensures_ret [tx_rules]: "(\<And>s. P s \<Longrightarrow> Q x s) \<Longrightarrow> ensures P (tx_ret x) Q E"
  by (simp add: ensures_def tx_ret_def)

lemma ensures_bind:
  assumes "ensures P m R E" "\<And>x. ensures (R x) (f x) Q E"
  shows "ensures P (tx_bind m f) Q E"
  using assms unfolding ensures_def tx_bind_def by (fastforce split: prod.splits sum.splits)

lemma ensures_res [tx_rules]:
  assumes "\<And>x s. r = Inr x \<Longrightarrow> P s \<Longrightarrow> Q x s" "\<And>e s. r = Inl e \<Longrightarrow> P s \<Longrightarrow> E (Thrown e) s"
  shows "ensures P (tx_res r) Q E"
  using assms by (auto simp: ensures_def tx_res_def split: sum.splits)

lemma ensures_fail [tx_rules]: "(\<And>s. P s \<Longrightarrow> E e s) \<Longrightarrow> ensures P (tx_fail e) Q E"
  by (simp add: ensures_def tx_fail_def)

lemma ensures_catch:
  assumes "ensures P m Q F" "\<And>e. ensures (F e) (h e) Q E"
  shows "ensures P (tx_catch m h) Q E"
  using assms unfolding ensures_def tx_catch_def by (fastforce split: prod.splits sum.splits)

lemma ensures_vars [tx_rules]:
  "(\<And>s. P s \<Longrightarrow> Q () (s\<lparr>se_vars := f (se_vars s)\<rparr>)) \<Longrightarrow> ensures P (tx_vars f) Q E"
  by (simp add: ensures_def tx_vars_def)

lemma ensures_read_vars [tx_rules]: "(\<And>s. P s \<Longrightarrow> Q (se_vars s) s) \<Longrightarrow> ensures P tx_read_vars Q E"
  by (simp add: ensures_def tx_read_vars_def)

lemma ensures_if:
  assumes "c \<Longrightarrow> ensures P m Q E" "\<not> c \<Longrightarrow> ensures P n Q E"
  shows "ensures P (if c then m else n) Q E"
  using assms by simp

text \<open>Inside a transaction the committed state stays; the working copy satisfies W.\<close>

definition working :: "'db \<Rightarrow> ('db \<Rightarrow> bool) \<Rightarrow> ('db, 'v) session \<Rightarrow> bool" where
  "working db W s \<longleftrightarrow> se_db s = db \<and> (\<exists>w. se_work s = Some w \<and> W w)"

text \<open>No effect on the committed state.\<close>

definition kept :: "'db \<Rightarrow> ('db, 'v) session \<Rightarrow> bool" where
  "kept db s \<longleftrightarrow> se_db s = db"

lemma working_kept: "working db W s \<Longrightarrow> kept db s"
  by (simp add: working_def kept_def)

lemma ensures_begin [tx_rules]:
  assumes "\<And>s. P s \<Longrightarrow> se_db s = db" "\<And>e s. kept db s \<Longrightarrow> E e s"
  shows "ensures P (tx_begin faults) (\<lambda>_. working db (\<lambda>w. w = db)) E"
  using assms by (auto simp: ensures_def tx_begin_def working_def kept_def Let_def split: option.splits)

lemma ensures_query [tx_rules]:
  assumes "\<And>w. W w \<Longrightarrow> V (fst (f w)) (snd (f w))" "\<And>e s. kept db s \<Longrightarrow> E e s"
  shows "ensures (working db W) (tx_query faults f) (\<lambda>x. working db (V x)) E"
proof -
  have "V x w'" if "W w" "f w = (x, w')" for w x w' using assms(1) [OF that(1)] that(2) by simp
  then show ?thesis
    using assms(2) by (auto simp: ensures_def tx_query_def working_def kept_def Let_def split: option.splits prod.splits)
qed

lemma ensures_rollback [tx_rules]:
  assumes "\<And>s. P s \<Longrightarrow> kept db s" "\<And>e s. kept db s \<Longrightarrow> E e s"
  shows "ensures P (tx_rollback faults) (\<lambda>_. kept db) E"
  using assms by (auto simp: ensures_def tx_rollback_def kept_def Let_def split: option.splits)

text \<open>
  A commit makes the copy the committed state. When it reports an error, either state is possible;
  an error code for which the server has rolled back leaves the old one.
\<close>

definition rolls_back :: "string set \<Rightarrow> faults \<Rightarrow> bool" where
  "rolls_back codes faults \<longleftrightarrow> (\<forall>k ft. faults k = Some ft \<longrightarrow> ft_code ft \<in> codes \<longrightarrow> \<not> ft_effective ft)"

lemma ensures_commit [tx_rules]:
  assumes "rolls_back codes faults" "\<And>s. P s \<Longrightarrow> working db W s"
    "\<And>s. W (se_db s) \<Longrightarrow> Q () s" "\<And>e s. kept db s \<Longrightarrow> E e s"
    "\<And>e s. e \<notin> DatabaseError ` codes \<Longrightarrow> W (se_db s) \<Longrightarrow> E e s"
  shows "ensures P (tx_commit faults) Q E"
proof -
  have "E (DatabaseError (ft_code ft)) s'"
    if "faults k = Some ft" "ft_effective ft" "W (se_db s')" for k ft s'
  proof (rule assms(5))
    show "DatabaseError (ft_code ft) \<notin> DatabaseError ` codes" using assms(1) that(1,2) by (auto simp: rolls_back_def)
  qed (rule that(3))
  note lost = this
  show ?thesis
    unfolding ensures_def
  proof (intro allI impI)
    fix s assume "P s"
    then obtain w where w: "se_db s = db" "se_work s = Some w" "W w" using assms(2) unfolding working_def by blast
    show "case tx_commit faults s of (Inl e, s') \<Rightarrow> E e s' | (Inr x, s') \<Rightarrow> Q x s'"
      using w lost assms(3,4) by (auto simp: tx_commit_def kept_def Let_def split: option.split)
  qed
qed

lemma ensures_vars_then:
  assumes "ensures P (f ()) Q E" "\<And>s v. P s \<Longrightarrow> P (s\<lparr>se_vars := v\<rparr>)"
  shows "ensures P (tx_bind (tx_vars h) f) Q E"
  by (rule ensures_bind [where R = "\<lambda>_. P"]) (use assms in \<open>auto intro: ensures_vars\<close>)

lemma ensures_res_then:
  assumes "\<And>x. r = Inr x \<Longrightarrow> ensures P (f x) Q E" "\<And>e s. P s \<Longrightarrow> E (Thrown e) s"
  shows "ensures P (tx_bind (tx_res r) f) Q E"
proof (cases r)
  case (Inl e)
  then show ?thesis using assms(2) by (auto simp: ensures_def tx_bind_def tx_res_def)
next
  case (Inr x)
  then show ?thesis using assms(1) by (auto simp: ensures_def tx_bind_def tx_res_def)
qed

lemma working_vars [simp]: "working db W (s\<lparr>se_vars := v\<rparr>) = working db W s"
  by (simp add: working_def)

lemma kept_vars [simp]: "kept db (s\<lparr>se_vars := v\<rparr>) = kept db s"
  by (simp add: kept_def)

lemma ensures_working_pure:
  assumes "\<phi> \<Longrightarrow> ensures (working db W) m Q E"
  shows "ensures (working db (\<lambda>w. W w \<and> \<phi>)) m Q E"
proof (cases \<phi>)
  case True
  then show ?thesis using assms by simp
next
  case False
  then show ?thesis by (simp add: ensures_def working_def)
qed

lemma ensures_strengthen:
  "ensures P' m Q E \<Longrightarrow> (\<And>s. P s \<Longrightarrow> P' s) \<Longrightarrow> ensures P m Q E"
  by (rule ensures_weaken)

lemma ensures_rollback_db:
  "ensures (\<lambda>s. R (se_db s)) (tx_rollback faults) (\<lambda>_ s. R (se_db s)) (\<lambda>_ s. R (se_db s))"
  by (auto simp: ensures_def tx_rollback_def Let_def split: option.split)

lemma ensures_db:
  assumes "\<And>db. R db \<Longrightarrow> ensures (\<lambda>s. se_db s = db) m Q E"
  shows "ensures (\<lambda>s. R (se_db s)) m Q E"
  using assms by (auto simp: ensures_def)

lemma ensures_finally_rollback:
  assumes "ensures P m (\<lambda>x s. R x (se_db s)) (\<lambda>_ s. T (se_db s))" "\<And>x d. R x d \<Longrightarrow> T d"
  shows "ensures P (tx_finally m (tx_rollback faults)) (\<lambda>x s. R x (se_db s)) (\<lambda>_ s. T (se_db s))"
proof -
  have keep: "se_db s2 = se_db s1" if "tx_rollback faults s1 = (y, s2)" for s1 s2 :: "('a, 'b) session" and y
    using that by (auto simp: tx_rollback_def Let_def split: option.splits)
  show ?thesis
    unfolding ensures_def tx_finally_def
  proof (intro allI impI)
    fix s assume P: "P s"
    obtain x s1 where m: "m s = (x, s1)" by fastforce
    obtain y s2 where f: "tx_rollback faults s1 = (y, s2)" by fastforce
    have "case x of Inl e \<Rightarrow> T (se_db s1) | Inr x \<Rightarrow> R x (se_db s1)"
      using assms(1) P m by (auto simp: ensures_def split: prod.splits)
    then show "case case m s of (r, s1) \<Rightarrow> (case tx_rollback faults s1 of (Inl e, s2) \<Rightarrow> (Inl e, s2) | (Inr _, s2) \<Rightarrow> (r, s2)) of
        (Inl e, s') \<Rightarrow> T (se_db s') | (Inr x, s') \<Rightarrow> R x (se_db s')"
      using assms(2) keep [OF f] by (cases x; cases y) (auto simp: m f)
  qed
qed

end
