(* ===== verification/ContentHash.thy ===== *)
theory ContentHash
  imports JsValue
begin

text \<open>
  workers/shared/uk_aq_observation_content_hash.mjs: the canonical form of an observation row, its
  text, the text of a set of rows that is hashed, and the checks of hash metadata. The digest
  itself (SHA-256, hexadecimal) is a parameter. Only the messages of errors are read by
  callers, so a TypeError with a message is a JsError; RangeError is what a date out of range throws.
\<close>

section \<open>Constants\<close>

definition newline :: char where "newline = CHR 0x0A"

definition OBSERVATION_CONTENT_HASH_ALGORITHM :: string where
  "OBSERVATION_CONTENT_HASH_ALGORITHM = ''sha256''"

definition CONTENT_HASH_VERSION :: int where "CONTENT_HASH_VERSION = 1"
definition MEASUREMENT_HASH_VERSION :: int where "MEASUREMENT_HASH_VERSION = 2"

definition OBSERVATION_MEASUREMENT_CONTENT_HASH_COLUMNS :: "string list" where
  "OBSERVATION_MEASUREMENT_CONTENT_HASH_COLUMNS =
     [''connector_id'', ''station_id'', ''timeseries_id'', ''pollutant_code'', ''observed_at_utc'', ''value'']"

definition OBSERVATION_CONTENT_HASH_COLUMNS :: "string list" where
  "OBSERVATION_CONTENT_HASH_COLUMNS =
     [''connector_id'', ''station_id'', ''timeseries_id'', ''pollutant_code'', ''observed_at_utc'', ''value'',
      ''verification_status'']"

definition OBSERVATION_CONTENT_HASH_PREFIX :: string where
  "OBSERVATION_CONTENT_HASH_PREFIX = ''uk-aq-observation-content-hash:v1'' @ [newline]"

definition OBSERVATION_MEASUREMENT_CONTENT_HASH_PREFIX :: string where
  "OBSERVATION_MEASUREMENT_CONTENT_HASH_PREFIX = ''uk-aq-observation-measurement-content-hash:v2'' @ [newline]"

section \<open>Reading the columns of a row\<close>

text \<open>\<open>row && typeof row === "object" && !Array.isArray(row)\<close>\<close>

fun plain_object :: "jsval \<Rightarrow> bool" where
  "plain_object (JObj _) = True"
| "plain_object (JDate _) = True"
| "plain_object _ = False"

fun object_keys :: "jsval \<Rightarrow> string list" where
  "object_keys (JObj kvs) = List.map fst kvs"
| "object_keys _ = []"

definition has_own :: "jsval \<Rightarrow> string \<Rightarrow> bool" where
  "has_own v k \<longleftrightarrow> k \<in> set (object_keys v)"

text \<open>Number.isSafeInteger(value) of a value that is a number.\<close>

fun safe_integer :: "jsval \<Rightarrow> int option" where
  "safe_integer (JNum n) = num_safe_integer n"
| "safe_integer _ = None"

definition positiveSafeInteger :: "jsval \<Rightarrow> string \<Rightarrow> int res" where
  "positiveSafeInteger value fieldName =
     (case safe_integer value of
        Some n \<Rightarrow> if 0 < n then Inr n else Inl (JsError (fieldName @ '' must be a positive safe integer''))
      | None \<Rightarrow> Inl (JsError (fieldName @ '' must be a positive safe integer'')))"

definition canonicalStationId :: "jsval \<Rightarrow> int option res" where
  "canonicalStationId value =
     (if is_nullish value then Inr None else res_map Some (positiveSafeInteger value ''station_id''))"

definition normalizeUkAirVerificationStatus :: "jsval \<Rightarrow> string" where
  "normalizeUkAirVerificationStatus value =
     (let normalized = js_lower (js_trim (str_coalesce value))
      in if normalized = ''r'' \<or> normalized = ''ratified'' then ''R'' else ''P'')"

definition requireCanonicalVerificationStatus :: "jsval \<Rightarrow> string option res" where
  "requireCanonicalVerificationStatus value =
     (if is_nullish value then Inr None
      else if value = JStr ''P'' then Inr (Some ''P'')
      else if value = JStr ''R'' then Inr (Some ''R'')
      else Inl (JsError ''verification_status must be P, R or null''))"

definition selectObservationVerificationStatusColumn :: "string list \<Rightarrow> string option res" where
  "selectObservationVerificationStatusColumn columns =
     (let present = filter (\<lambda>name. name \<in> set columns) [''verification_status'', ''status'']
      in case present of
           [] \<Rightarrow> Inr None
         | [name] \<Rightarrow> Inr (Some name)
         | _ \<Rightarrow> Inl (JsError (''Competing observation status fields: '' @ js_join '','' present)))"

definition resolveLegacyVerificationStatus :: "jsval \<Rightarrow> bool \<Rightarrow> string option res" where
  "resolveLegacyVerificationStatus row isSos =
     res_bind (selectObservationVerificationStatusColumn (object_keys row)) (\<lambda>column.
       case column of
         None \<Rightarrow> Inr None
       | Some name \<Rightarrow>
           if name = ''verification_status''
           then requireCanonicalVerificationStatus (jget row ''verification_status'')
           else Inr (if isSos then Some (normalizeUkAirVerificationStatus (jget row ''status'')) else None))"

section \<open>The bytes of a binary64 number\<close>

text \<open>
  The bits of a finite double as an unsigned integer: sign, eleven bits of exponent, fifty-two
  of fraction. With the exponent of a subnormal counted as that of the smallest normal number,
  both cases are one formula. The value 0 stands for \<open>-0\<close> as well.
\<close>

definition bits_exponent :: "rat \<Rightarrow> int" where
  "bits_exponent a = max (floor_log2 a) (- 1022)"

definition float_bits :: "rat \<Rightarrow> int" where
  "float_bits x =
     (if x = 0 then 0
      else let e = bits_exponent \<bar>x\<bar>
           in (if x < 0 then 2 ^ 63 else 0) + (e + 1022) * 2 ^ 52 + \<lfloor>\<bar>x\<bar> / pow2 (e - 52)\<rfloor>)"

text \<open>The n low bytes, the highest first, and their hexadecimal text.\<close>

fun bytes_be :: "nat \<Rightarrow> int \<Rightarrow> int list" where
  "bytes_be 0 k = []"
| "bytes_be (Suc n) k = bytes_be n (k div 256) @ [k mod 256]"

definition byte_hex :: "int \<Rightarrow> string" where
  "byte_hex b = [hex_digit (b div 16), hex_digit (b mod 16)]"

definition double_hex :: "rat \<Rightarrow> string" where
  "double_hex x = List.concat (List.map byte_hex (bytes_be 8 (float_bits x)))"

definition float64BigEndianHex :: "jsval \<Rightarrow> string res" where
  "float64BigEndianHex value =
     (case js_number value of
        Fin x \<Rightarrow> Inr (double_hex x)
      | _ \<Rightarrow> Inl (JsError ''value must be a finite IEEE-754 binary64 number''))"

section \<open>Canonical rows\<close>

record measurement =
  me_connector_id :: int
  me_station_id :: "int option"
  me_timeseries_id :: int
  me_pollutant_code :: string
  me_observed_at_utc :: string
  me_value :: rat

record canonical_row = measurement +
  cr_verification_status :: "string option"

definition lower_word :: "string \<Rightarrow> bool" where
  "lower_word s \<longleftrightarrow> s \<noteq> [] \<and>
     list_all (\<lambda>c. 97 \<le> char_code c \<and> char_code c \<le> 122 \<or> is_digit c \<or> c = CHR ''_'') s"

definition read_pollutant :: "jsval \<Rightarrow> string res" where
  "read_pollutant v =
     (case v of
        JStr s \<Rightarrow> if lower_word s \<and> s = js_lower s then Inr s
                  else Inl (JsError ''pollutant_code must be a validated canonical lower-case code'')
      | _ \<Rightarrow> Inl (JsError ''pollutant_code must be a validated canonical lower-case code''))"

text \<open>A text of the given shape: d stands for a digit.\<close>

definition of_shape :: "string \<Rightarrow> string \<Rightarrow> bool" where
  "of_shape pattern s \<longleftrightarrow> list_all2 (\<lambda>p c. if p = CHR ''d'' then is_digit c else c = p) pattern s"

definition read_observed_at :: "jsval \<Rightarrow> string res" where
  "read_observed_at v =
     (let bad = Inl (JsError ''observed_at_utc must be an exact UTC ISO timestamp with millisecond precision'')
      in case v of
           JStr s \<Rightarrow>
             if of_shape ''dddd-dd-ddTdd:dd:dd.dddZ'' s
             then (case date_parse s of None \<Rightarrow> bad | Some t \<Rightarrow> if to_iso t = s then Inr s else bad)
             else bad
         | _ \<Rightarrow> bad)"

definition read_value :: "jsval \<Rightarrow> rat res" where
  "read_value v =
     (case v of JNum (Fin x) \<Rightarrow> Inr x | _ \<Rightarrow> Inl (JsError ''value must be a finite IEEE-754 binary64 number''))"

definition normalizeCanonicalObservationRow :: "jsval \<Rightarrow> canonical_row res" where
  "normalizeCanonicalObservationRow row =
     (if \<not> plain_object row then Inl (JsError ''canonical observation row must be an object'')
      else
       res_bind (selectObservationVerificationStatusColumn (object_keys row)) (\<lambda>physical.
       if physical = Some ''status'' then Inl (JsError ''canonical observation row requires verification_status'')
       else
       res_bind (read_pollutant (jget row ''pollutant_code'')) (\<lambda>pollutant.
       res_bind (read_observed_at (jget row ''observed_at_utc'')) (\<lambda>observed.
       res_bind (read_value (jget row ''value'')) (\<lambda>x.
       res_bind (positiveSafeInteger (jget row ''connector_id'') ''connector_id'') (\<lambda>connector.
       res_bind (canonicalStationId (jget row ''station_id'')) (\<lambda>station.
       res_bind (positiveSafeInteger (jget row ''timeseries_id'') ''timeseries_id'') (\<lambda>timeseries.
       res_map (\<lambda>status. \<lparr>me_connector_id = connector, me_station_id = station, me_timeseries_id = timeseries,
           me_pollutant_code = pollutant, me_observed_at_utc = observed, me_value = x,
           cr_verification_status = status\<rparr>)
         (requireCanonicalVerificationStatus (jget row ''verification_status''))))))))))"

definition normalizeCanonicalObservationMeasurementRow :: "jsval \<Rightarrow> measurement res" where
  "normalizeCanonicalObservationMeasurementRow row =
     (if \<not> plain_object row then Inl (JsError ''canonical observation measurement row must be an object'')
      else
       res_bind (read_pollutant (jget row ''pollutant_code'')) (\<lambda>pollutant.
       res_bind (read_observed_at (jget row ''observed_at_utc'')) (\<lambda>observed.
       res_bind (read_value (jget row ''value'')) (\<lambda>x.
       res_bind (positiveSafeInteger (jget row ''connector_id'') ''connector_id'') (\<lambda>connector.
       res_bind (canonicalStationId (jget row ''station_id'')) (\<lambda>station.
       res_map (\<lambda>timeseries. \<lparr>me_connector_id = connector, me_station_id = station, me_timeseries_id = timeseries,
           me_pollutant_code = pollutant, me_observed_at_utc = observed, me_value = x\<rparr>)
         (positiveSafeInteger (jget row ''timeseries_id'') ''timeseries_id'')))))))"

section \<open>The text of a row\<close>

definition int_or_null :: "int option \<Rightarrow> jsval" where
  "int_or_null v = (case v of None \<Rightarrow> Null | Some n \<Rightarrow> JInt n)"

definition str_or_null :: "string option \<Rightarrow> jsval" where
  "str_or_null v = (case v of None \<Rightarrow> Null | Some s \<Rightarrow> JStr s)"

definition measurement_fields :: "('a) measurement_scheme \<Rightarrow> jsval list" where
  "measurement_fields m =
     [JInt (me_connector_id m), int_or_null (me_station_id m), JInt (me_timeseries_id m),
      JStr (me_pollutant_code m), JStr (me_observed_at_utc m), JStr (double_hex (me_value m))]"

definition encode_measurement :: "measurement \<Rightarrow> string" where
  "encode_measurement m = json_stringify (JArr (measurement_fields m))"

definition encode_row :: "canonical_row \<Rightarrow> string" where
  "encode_row c = json_stringify (JArr (measurement_fields c @ [str_or_null (cr_verification_status c)]))"

definition encodeCanonicalObservationRow :: "jsval \<Rightarrow> string res" where
  "encodeCanonicalObservationRow row = res_map encode_row (normalizeCanonicalObservationRow row)"

definition encodeCanonicalObservationMeasurementRow :: "jsval \<Rightarrow> string res" where
  "encodeCanonicalObservationMeasurementRow row =
     res_map encode_measurement (normalizeCanonicalObservationMeasurementRow row)"

text \<open>The canonical object, which is normalised again when it is encoded.\<close>

definition measurement_props :: "('a) measurement_scheme \<Rightarrow> (string \<times> jsval) list" where
  "measurement_props m =
     [(''connector_id'', JInt (me_connector_id m)), (''station_id'', int_or_null (me_station_id m)),
      (''timeseries_id'', JInt (me_timeseries_id m)), (''pollutant_code'', JStr (me_pollutant_code m)),
      (''observed_at_utc'', JStr (me_observed_at_utc m)), (''value'', JNum (Fin (me_value m)))]"

definition row_object :: "canonical_row \<Rightarrow> jsval" where
  "row_object c = JObj (measurement_props c @ [(''verification_status'', str_or_null (cr_verification_status c))])"

definition measurement_object :: "measurement \<Rightarrow> jsval" where
  "measurement_object m = JObj (measurement_props m)"

section \<open>The hashed text and the digest\<close>

definition hash_text :: "string \<Rightarrow> string list \<Rightarrow> string" where
  "hash_text prefix encodedRows = prefix @ List.concat (List.map (\<lambda>e. e @ [newline]) (sort encodedRows))"

record content_hash =
  ch_hash :: string
  ch_version :: int
  ch_row_count :: int
  ch_columns :: "string list"
  ch_status_counts :: "(int \<times> int \<times> int) option"

definition count_status_of :: "canonical_row list \<Rightarrow> string option \<Rightarrow> int" where
  "count_status_of rows st = int (length (filter (\<lambda>c. cr_verification_status c = st) rows))"

definition computeObservationContentHash ::
  "(string \<Rightarrow> string) \<Rightarrow> jsval list \<Rightarrow> (content_hash \<times> canonical_row list) res" where
  "computeObservationContentHash sha rows =
     (if rows = [] then Inl (JsError ''observation content hash requires a non-empty canonical partition'')
      else
       res_bind (res_mapM normalizeCanonicalObservationRow rows) (\<lambda>canonical.
       res_map (\<lambda>encoded.
          (\<lparr>ch_hash = sha (hash_text OBSERVATION_CONTENT_HASH_PREFIX encoded), ch_version = CONTENT_HASH_VERSION,
            ch_row_count = int (length canonical), ch_columns = OBSERVATION_CONTENT_HASH_COLUMNS,
            ch_status_counts = Some (count_status_of canonical (Some ''P''), count_status_of canonical (Some ''R''),
              count_status_of canonical None)\<rparr>, canonical))
         (res_mapM encodeCanonicalObservationRow (List.map row_object canonical))))"

definition computeObservationMeasurementContentHash ::
  "(string \<Rightarrow> string) \<Rightarrow> jsval list \<Rightarrow> (content_hash \<times> measurement list) res" where
  "computeObservationMeasurementContentHash sha rows =
     (if rows = [] then Inl (JsError ''observation measurement content hash requires a non-empty canonical partition'')
      else
       res_bind (res_mapM normalizeCanonicalObservationMeasurementRow rows) (\<lambda>canonical.
       res_map (\<lambda>encoded.
          (\<lparr>ch_hash = sha (hash_text OBSERVATION_MEASUREMENT_CONTENT_HASH_PREFIX encoded),
            ch_version = MEASUREMENT_HASH_VERSION, ch_row_count = int (length canonical),
            ch_columns = OBSERVATION_MEASUREMENT_CONTENT_HASH_COLUMNS, ch_status_counts = None\<rparr>, canonical))
         (res_mapM encodeCanonicalObservationMeasurementRow (List.map measurement_object canonical))))"

definition computeMeasurementIdentityFromLegacyObservationRows ::
  "(string \<Rightarrow> string) \<Rightarrow> jsval list \<Rightarrow> (content_hash \<times> measurement list) res" where
  "computeMeasurementIdentityFromLegacyObservationRows = computeObservationMeasurementContentHash"

definition computeEmptyObservationContentHash :: "(string \<Rightarrow> string) \<Rightarrow> content_hash" where
  "computeEmptyObservationContentHash sha =
     \<lparr>ch_hash = sha OBSERVATION_CONTENT_HASH_PREFIX, ch_version = CONTENT_HASH_VERSION, ch_row_count = 0,
      ch_columns = OBSERVATION_CONTENT_HASH_COLUMNS, ch_status_counts = Some (0, 0, 0)\<rparr>"

definition computeEmptyObservationMeasurementContentHash :: "(string \<Rightarrow> string) \<Rightarrow> content_hash" where
  "computeEmptyObservationMeasurementContentHash sha =
     \<lparr>ch_hash = sha OBSERVATION_MEASUREMENT_CONTENT_HASH_PREFIX, ch_version = MEASUREMENT_HASH_VERSION,
      ch_row_count = 0, ch_columns = OBSERVATION_MEASUREMENT_CONTENT_HASH_COLUMNS, ch_status_counts = None\<rparr>"

text \<open>The metadata as it is stored.\<close>

definition hash_metadata :: "content_hash \<Rightarrow> jsval" where
  "hash_metadata h =
     JObj ([(''observation_content_hash'', JStr (ch_hash h)),
       (''observation_content_hash_algorithm'', JStr OBSERVATION_CONTENT_HASH_ALGORITHM),
       (''observation_content_hash_contract_version'', JInt (ch_version h)),
       (''observation_content_hash_row_count'', JInt (ch_row_count h)),
       (''observation_content_hash_columns'', JArr (List.map JStr (ch_columns h)))] @
       (case ch_status_counts h of
          None \<Rightarrow> []
        | Some (p, r, n) \<Rightarrow>
            [(''verification_status_counts'', JObj [(''P'', JInt p), (''R'', JInt r), (''null'', JInt n)])]))"

section \<open>Checking metadata\<close>

definition hash_shape :: "string \<Rightarrow> bool" where
  "hash_shape s \<longleftrightarrow> length s = 64 \<and> list_all (\<lambda>c. is_digit c \<or> 97 \<le> char_code c \<and> char_code c \<le> 102) s"

definition count_value :: "jsval \<Rightarrow> int option" where
  "count_value v = (case safe_integer v of None \<Rightarrow> None | Some n \<Rightarrow> if 0 \<le> n then Some n else None)"

definition status_counts_ok :: "jsval \<Rightarrow> int \<Rightarrow> unit res" where
  "status_counts_ok counts rowCount =
     (if \<not> plain_object counts \<or> length (object_keys counts) \<noteq> 3
         \<or> \<not> (has_own counts ''P'' \<and> has_own counts ''R'' \<and> has_own counts ''null'')
      then Inl (JsError ''verification_status_counts keys are invalid'')
      else case (count_value (jget counts ''P''), count_value (jget counts ''R''), count_value (jget counts ''null'')) of
          (Some p, Some r, Some n) \<Rightarrow>
            if num_add (num_add (Fin (of_int p)) (Fin (of_int r))) (Fin (of_int n)) = Fin (of_int rowCount)
            then Inr () else Inl (JsError ''verification_status_counts do not sum to the hash row count'')
        | _ \<Rightarrow> Inl (JsError ''verification_status_counts values are invalid''))"

text \<open>The version and the row count that were found, or the error.\<close>

definition validateObservationContentHashMetadata :: "jsval \<Rightarrow> int option \<Rightarrow> (string \<times> int \<times> int) res" where
  "validateObservationContentHashMetadata metadata rowCount =
     (if \<not> plain_object metadata then Inl (JsError ''observation content hash metadata must be an object'')
      else case jget metadata ''observation_content_hash'' of
        JStr digest \<Rightarrow>
          if \<not> hash_shape digest then Inl (JsError ''observation_content_hash must be lower-case SHA-256'')
          else if jget metadata ''observation_content_hash_algorithm'' \<noteq> JStr OBSERVATION_CONTENT_HASH_ALGORITHM
          then Inl (JsError ''unsupported observation content hash algorithm'')
          else let version = jget metadata ''observation_content_hash_contract_version'' in
            if version \<noteq> JInt CONTENT_HASH_VERSION \<and> version \<noteq> JInt MEASUREMENT_HASH_VERSION
            then Inl (JsError ''unsupported observation content hash contract version'')
            else (case count_value (jget metadata ''observation_content_hash_row_count'') of
                None \<Rightarrow> Inl (JsError ''observation content hash row count is invalid'')
              | Some n \<Rightarrow>
                  if rowCount \<noteq> None \<and> rowCount \<noteq> Some n
                  then Inl (JsError ''observation content hash row count is invalid'')
                  else
                    let columns = (if version = JInt MEASUREMENT_HASH_VERSION
                          then OBSERVATION_MEASUREMENT_CONTENT_HASH_COLUMNS else OBSERVATION_CONTENT_HASH_COLUMNS)
                    in if jget metadata ''observation_content_hash_columns'' \<noteq> JArr (List.map JStr columns)
                       then Inl (JsError ''observation content hash columns are invalid'')
                       else if version = JInt MEASUREMENT_HASH_VERSION
                       then (if has_own metadata ''verification_status_counts''
                             then Inl (JsError ''measurement content hash metadata must not contain verification status counts'')
                             else Inr (digest, MEASUREMENT_HASH_VERSION, n))
                       else res_map (\<lambda>_. (digest, CONTENT_HASH_VERSION, n))
                              (status_counts_ok (jget metadata ''verification_status_counts'') n))
      | _ \<Rightarrow> Inl (JsError ''observation_content_hash must be lower-case SHA-256''))"

definition compareObservationContentHashMetadata :: "jsval \<Rightarrow> jsval \<Rightarrow> bool res" where
  "compareObservationContentHashMetadata left right =
     res_bind (validateObservationContentHashMetadata left None) (\<lambda>(digest, version, n).
     res_bind (validateObservationContentHashMetadata right None) (\<lambda>(digest', version', n').
       if version \<noteq> version'
       then Inl (JsError ''observation content hashes use different contract versions; decode rows and compute measurement identity explicitly'')
       else Inr (digest = digest' \<and> n = n')))"

section \<open>Keeping a ratified status\<close>

text \<open>\<open>new Date(value).toISOString()\<close>\<close>

definition new_date :: "jsval \<Rightarrow> int option" where
  "new_date v =
     (case v of
        JDate t \<Rightarrow> t
      | JStr s \<Rightarrow> date_parse s
      | JNum (Fin x) \<Rightarrow> time_clip (rat_trunc x)
      | JNum _ \<Rightarrow> None
      | JBool b \<Rightarrow> Some (if b then 1 else 0)
      | Null \<Rightarrow> Some 0
      | Undef \<Rightarrow> None
      | _ \<Rightarrow> date_parse (js_string v))"

definition new_date_iso :: "jsval \<Rightarrow> string res" where
  "new_date_iso v = (case new_date v of None \<Rightarrow> Inl RangeError | Some t \<Rightarrow> Inr (to_iso t))"

definition measurement_identity :: "jsval \<Rightarrow> string res" where
  "measurement_identity row =
     res_bind (new_date_iso (js_or (jget row ''observed_at_utc'') (jget row ''observed_at''))) (\<lambda>observed.
     res_map (\<lambda>hex. json_stringify (JArr [JInt 1, js_coalesce (jget row ''station_id'') Null, jget row ''timeseries_id'',
         JStr (js_lower (str_or_empty (jget row ''pollutant_code''))), JStr observed, JStr hex]))
       (float64BigEndianHex (jget row ''value'')))"

definition is_ratified :: "jsval \<Rightarrow> bool res" where
  "is_ratified row =
     res_map (\<lambda>status. normalizeUkAirVerificationStatus (str_or_null status) = ''R'')
       (resolveLegacyVerificationStatus row True)"

definition ratified_identities :: "jsval list \<Rightarrow> string list res" where
  "ratified_identities existingRows =
     res_bind (res_mapM (\<lambda>row. res_map (\<lambda>r. (row, r)) (is_ratified row)) existingRows) (\<lambda>flags.
       res_mapM measurement_identity (List.map fst (filter snd flags)))"

definition keep_ratified :: "string list \<Rightarrow> jsval \<Rightarrow> jsval res" where
  "keep_ratified persisted row =
     res_bind (measurement_identity row) (\<lambda>i.
       if i \<notin> set persisted then Inr row
       else res_map (\<lambda>r. if r then row else jput row ''verification_status'' (JStr ''R'')) (is_ratified row))"

definition preservePersistedRatifiedStatus :: "jsval list \<Rightarrow> jsval list \<Rightarrow> int \<Rightarrow> jsval list res" where
  "preservePersistedRatifiedStatus replacementRows existingRows connectorId =
     (if connectorId \<noteq> 1 then Inr replacementRows
      else res_bind (ratified_identities existingRows) (\<lambda>persisted.
        res_mapM (keep_ratified persisted) replacementRows))"

section \<open>Lemmas on the bits of a double\<close>

text \<open>A value a program can hold: rounding does not change it and it is below the overflow.\<close>

definition is_double :: "rat \<Rightarrow> bool" where
  "is_double x \<longleftrightarrow> to_double x = Fin x"

text \<open>Reading the bits back.\<close>

definition of_float_bits :: "int \<Rightarrow> rat" where
  "of_float_bits q =
     (let k = q mod 2 ^ 63 div 2 ^ 52; r = q mod 2 ^ 52;
          a = (if k = 0 then of_int r * pow2 (- 1074) else of_int (r + 2 ^ 52) * pow2 (k - 1075))
      in if q < 2 ^ 63 then a else - a)"

lemma is_double_abs: "is_double x \<Longrightarrow> rnd \<bar>x\<bar> = \<bar>x\<bar> \<and> \<bar>x\<bar> < pow2 1024"
  by (auto simp: is_double_def to_double_def Let_def rnd_minus abs_if split: if_splits)

lemma double_significand:
  assumes "is_double x" "x \<noteq> 0"
  shows "\<exists>m::int. \<bar>x\<bar> = of_int m * pow2 (bits_exponent \<bar>x\<bar> - 52) \<and> \<lfloor>\<bar>x\<bar> / pow2 (bits_exponent \<bar>x\<bar> - 52)\<rfloor> = m
    \<and> 0 \<le> m \<and> m < 2 ^ 53 \<and> (bits_exponent \<bar>x\<bar> = - 1022 \<or> 2 ^ 52 \<le> m)
    \<and> - 1022 \<le> bits_exponent \<bar>x\<bar> \<and> bits_exponent \<bar>x\<bar> \<le> 1023"
proof -
  define a where "a = \<bar>x\<bar>"
  define f where "f = floor_log2 a"
  define e where "e = bits_exponent a"
  define u where "u = pow2 (e - 52)"
  have a: "0 < a" "rnd a = a" "a < pow2 1024"
    using assms is_double_abs by (auto simp: a_def)
  have ue: "u = pow2 (max (f - 52) (- 1074))"
    by (simp add: u_def e_def bits_exponent_def f_def max_def)
  have u: "0 < u" by (simp add: u_def)
  define m where "m = round_half_even (a / u)"
  have m: "a = of_int m * u"
    using a(1,2) unfolding rnd_def Let_def m_def ue f_def by (simp add: mult.commute split: if_splits)
  have fl: "pow2 f \<le> a" "a < pow2 (f + 1)"
    using floor_log2_le [OF a(1)] floor_log2_less [OF a(1)] by (simp_all add: f_def)
  have fe: "f \<le> e" "- 1022 \<le> e" by (simp_all add: e_def bits_exponent_def f_def)
  have "pow2 f < pow2 1024" using fl a(3) by linarith
  then have "f < 1024" by (rule pow2_less_imp)
  then have e1: "e \<le> 1023" by (simp add: e_def bits_exponent_def f_def)
  have q: "a / u = of_int m" using u by (simp add: m)
  have m0: "0 \<le> m" using a(1) u by (simp add: m zero_less_mult_iff)
  have "pow2 (e + 1) = 2 ^ 53 * u"
    using pow2_add [of 53 "e - 52"] by (simp add: u_def add.commute) (simp add: pow2_def [of 53])
  moreover have "a < pow2 (e + 1)" using fl(2) pow2_mono [of "f + 1" "e + 1"] fe(1) by simp
  ultimately have "of_int m * u < 2 ^ 53 * u" by (simp add: m)
  then have "of_int m < (2 ^ 53 :: rat)" using u by simp
  then have m1: "m < 2 ^ 53" by (metis of_int_less_iff of_int_numeral of_int_power)
  have m2: "2 ^ 52 \<le> m" if "e \<noteq> - 1022"
  proof -
    have "e = f" using that by (auto simp: e_def bits_exponent_def f_def)
    moreover have "pow2 e = 2 ^ 52 * u"
      using pow2_add [of 52 "e - 52"] by (simp add: u_def) (simp add: pow2_def [of 52])
    ultimately have "2 ^ 52 * u \<le> of_int m * u" using fl(1) by (simp add: m)
    then have "(2 ^ 52 :: rat) \<le> of_int m" using u by simp
    then show ?thesis by (metis of_int_le_iff of_int_numeral of_int_power)
  qed
  have "a = of_int m * pow2 (e - 52)" "\<lfloor>a / pow2 (e - 52)\<rfloor> = m"
    using m q by (simp_all add: u_def)
  with m0 m1 m2 fe(2) e1 show ?thesis by (auto simp: a_def e_def)
qed

lemma split_digit:
  fixes r n k :: int
  assumes "0 \<le> r" "r < n"
  shows "(r + k * n) div n = k" "(r + k * n) mod n = r"
  using assms by simp_all

lemma float_bits_range:
  assumes "is_double x"
  shows "0 \<le> float_bits x \<and> float_bits x < 2 ^ 64"
proof (cases "x = 0")
  case False
  obtain m where "\<lfloor>\<bar>x\<bar> / pow2 (bits_exponent \<bar>x\<bar> - 52)\<rfloor> = m" "0 \<le> m" "m < 2 ^ 53"
    "- 1022 \<le> bits_exponent \<bar>x\<bar>" "bits_exponent \<bar>x\<bar> \<le> 1023"
    using double_significand [OF assms False] by blast
  moreover define e where "e = bits_exponent \<bar>x\<bar>"
  ultimately have m: "\<lfloor>\<bar>x\<bar> / pow2 (e - 52)\<rfloor> = m"
    and "0 \<le> (e + 1022) * 2 ^ 52 + m" "(e + 1022) * 2 ^ 52 + m < 2 ^ 63"
    by simp_all
  then show ?thesis using False unfolding float_bits_def Let_def e_def [symmetric] m by simp
qed (simp add: float_bits_def)

lemma of_float_bits_magnitude:
  fixes m e :: int
  assumes "0 \<le> m" "m < 2 ^ 53" "e = - 1022 \<or> 2 ^ 52 \<le> m" "- 1022 \<le> e" "e \<le> 1023"
  defines "q \<equiv> (e + 1022) * 2 ^ 52 + m"
  shows "0 \<le> q \<and> q < 2 ^ 63 \<and>
    (if q div 2 ^ 52 = 0 then of_int (q mod 2 ^ 52) * pow2 (- 1074)
     else of_int (q mod 2 ^ 52 + 2 ^ 52) * pow2 (q div 2 ^ 52 - 1075)) = of_int m * pow2 (e - 52)"
proof (cases "m < 2 ^ 52")
  case True
  then have "e = - 1022" using assms by auto
  with True assms(1) show ?thesis by (simp add: q_def)
next
  case False
  then have "q = (m - 2 ^ 52) + (e + 1023) * 2 ^ 52" by (simp add: q_def)
  moreover have "0 \<le> m - 2 ^ 52" "m - 2 ^ 52 < 2 ^ 52" using False assms(2) by auto
  ultimately have "q div 2 ^ 52 = e + 1023" "q mod 2 ^ 52 = m - 2 ^ 52"
    using split_digit [of "m - 2 ^ 52" "2 ^ 52" "e + 1023"] by (simp_all only:)
  moreover have "0 \<le> q" "q < 2 ^ 63" using assms by (auto simp: q_def)
  ultimately show ?thesis using assms(4) by simp
qed

lemma of_float_bits: "is_double x \<Longrightarrow> of_float_bits (float_bits x) = x"
proof (cases "x = 0")
  case False
  assume x: "is_double x"
  define e where "e = bits_exponent \<bar>x\<bar>"
  obtain m where m: "\<bar>x\<bar> = of_int m * pow2 (e - 52)" "\<lfloor>\<bar>x\<bar> / pow2 (e - 52)\<rfloor> = m"
    "0 \<le> m" "m < 2 ^ 53" "e = - 1022 \<or> 2 ^ 52 \<le> m" "- 1022 \<le> e" "e \<le> 1023"
    using double_significand [OF x False] unfolding e_def by blast
  define q where "q = (e + 1022) * 2 ^ 52 + m"
  have q: "0 \<le> q" "q < 2 ^ 63" "(if q div 2 ^ 52 = 0 then of_int (q mod 2 ^ 52) * pow2 (- 1074)
     else of_int (q mod 2 ^ 52 + 2 ^ 52) * pow2 (q div 2 ^ 52 - 1075)) = of_int m * pow2 (e - 52)"
    using of_float_bits_magnitude [OF m(3-7)] unfolding q_def by blast+
  have b: "float_bits x = (if x < 0 then 2 ^ 63 else 0) + q"
    using False m(2) by (simp add: float_bits_def Let_def e_def [symmetric] q_def)
  have mods: "float_bits x mod 2 ^ 63 = q" "float_bits x mod 2 ^ 52 = q mod 2 ^ 52"
  proof -
    have s: "float_bits x = q + (if x < 0 then 1 else 0) * 2 ^ 63" by (simp add: b)
    show "float_bits x mod 2 ^ 63 = q" unfolding s using q(1,2) by (rule split_digit)
    have "float_bits x = q + ((if x < 0 then 1 else 0) * 2 ^ 11) * 2 ^ 52" by (simp add: b)
    then show "float_bits x mod 2 ^ 52 = q mod 2 ^ 52" by (simp only: mod_mult_self1)
  qed
  show ?thesis
    unfolding of_float_bits_def Let_def mods q(3)
    using q(1,2) m(1) by (auto simp: b)
qed (simp add: of_float_bits_def float_bits_def)

section \<open>Lemmas on hexadecimal text\<close>

lemma hex_digit_code:
  assumes "0 \<le> k" "k < 16"
  shows "char_code (hex_digit k) = (if k < 10 then 48 + k else 87 + k)"
  using assms by (cases "k < 10") (simp_all add: hex_digit_def digit_char_code)

lemma hex_digit_inj:
  assumes "0 \<le> a" "a < 16" "0 \<le> b" "b < 16" "hex_digit a = hex_digit b"
  shows "a = b"
proof -
  have "(if a < 10 then 48 + a else 87 + a) = (if b < 10 then 48 + b else 87 + b)"
    using hex_digit_code [OF assms(1,2)] hex_digit_code [OF assms(3,4)] assms(5) by metis
  then show ?thesis by (simp split: if_splits)
qed

lemma byte_hex_inj:
  assumes "0 \<le> a" "a < 256" "0 \<le> b" "b < 256" "byte_hex a = byte_hex b"
  shows "a = b"
proof -
  have "a div 16 = b div 16" "a mod 16 = b mod 16"
    using assms by (auto simp: byte_hex_def intro!: hex_digit_inj)
  then show ?thesis by (metis mult_div_mod_eq)
qed

lemma length_bytes_be [simp]: "length (bytes_be n k) = n"
  by (induction n k rule: bytes_be.induct) auto

lemma bytes_hex_inj:
  "0 \<le> a \<Longrightarrow> a < 256 ^ n \<Longrightarrow> 0 \<le> b \<Longrightarrow> b < 256 ^ n \<Longrightarrow>
     List.concat (List.map byte_hex (bytes_be n a)) = List.concat (List.map byte_hex (bytes_be n b)) \<Longrightarrow> a = b"
proof (induction n arbitrary: a b)
  case (Suc n)
  have "length (byte_hex k) = 2" for k by (simp add: byte_hex_def)
  then have "List.concat (List.map byte_hex (bytes_be n (a div 256))) = List.concat (List.map byte_hex (bytes_be n (b div 256)))"
    "byte_hex (a mod 256) = byte_hex (b mod 256)"
    using Suc.prems(5) by simp_all
  moreover have "k div 256 < 256 ^ n" if "k < 256 ^ Suc n" for k :: int using that by simp
  ultimately have "a div 256 = b div 256" "a mod 256 = b mod 256"
    using Suc.IH [of "a div 256" "b div 256"] Suc.prems by (auto intro: byte_hex_inj)
  then show ?case by (metis mult_div_mod_eq)
qed simp

lemma double_hex_inj:
  assumes "is_double x" "is_double y" "double_hex x = double_hex y"
  shows "x = y"
proof -
  have "float_bits x = float_bits y"
  proof (rule bytes_hex_inj)
    have p: "(256::int) ^ 8 = 2 ^ 64" by simp
    show "0 \<le> float_bits x" "float_bits x < 256 ^ 8" "0 \<le> float_bits y" "float_bits y < 256 ^ 8"
      unfolding p using assms float_bits_range by blast+
  qed (use assms(3) in \<open>simp only: double_hex_def\<close>)
  then show ?thesis using of_float_bits assms by metis
qed

section \<open>Lemmas on the text of a row\<close>

text \<open>The rows that normalisation produces.\<close>

definition wf_measurement :: "('a) measurement_scheme \<Rightarrow> bool" where
  "wf_measurement m \<longleftrightarrow> me_connector_id m \<in> {1..max_safe_integer} \<and> me_timeseries_id m \<in> {1..max_safe_integer}
    \<and> (\<forall>n. me_station_id m = Some n \<longrightarrow> n \<in> {1..max_safe_integer})
    \<and> lower_word (me_pollutant_code m) \<and> of_shape ''dddd-dd-ddTdd:dd:dd.dddZ'' (me_observed_at_utc m)"

definition wf_row :: "canonical_row \<Rightarrow> bool" where
  "wf_row c \<longleftrightarrow> wf_measurement c \<and> cr_verification_status c \<in> {None, Some ''P'', Some ''R''}"

text \<open>Characters that JSON prints as they are and that do not separate values or lines.\<close>

definition plain_char :: "char \<Rightarrow> bool" where
  "plain_char c \<longleftrightarrow> 35 \<le> char_code c \<and> char_code c \<noteq> 44 \<and> char_code c \<noteq> 92"

lemma json_char_plain: "plain_char c \<Longrightarrow> json_char c = [c]"
proof -
  assume c: "plain_char c"
  define n where "n = char_code c"
  have "35 \<le> n" "n \<noteq> 92" using c by (simp_all add: plain_char_def n_def)
  then show ?thesis unfolding json_char_def n_def [symmetric] Let_def by simp
qed

lemma json_plain: "list_all plain_char s \<Longrightarrow> json_string s = CHR 0x22 # s @ [CHR 0x22]"
proof -
  have "list_all plain_char s \<Longrightarrow> List.concat (List.map json_char s) = s"
    by (induction s) (simp_all add: json_char_plain)
  then show "list_all plain_char s \<Longrightarrow> ?thesis" by (simp add: json_string_def)
qed

lemma plain_code: "char_code c = n \<Longrightarrow> 35 \<le> n \<Longrightarrow> n \<noteq> 44 \<Longrightarrow> n \<noteq> 92 \<Longrightarrow> plain_char c"
  by (simp add: plain_char_def)

lemma plain_digit: "is_digit c \<Longrightarrow> plain_char c"
  unfolding is_digit_def plain_char_def by linarith

lemma plain_not_separator: "list_all plain_char s \<Longrightarrow> CHR '','' \<notin> set s \<and> newline \<notin> set s"
proof -
  have "\<not> plain_char (CHR '','')" "\<not> plain_char newline" by (simp_all add: plain_char_def newline_def)
  then show "list_all plain_char s \<Longrightarrow> ?thesis" by (induction s) auto
qed

lemma plain_lower_word: "lower_word s \<Longrightarrow> list_all plain_char s"
proof -
  have "plain_char (CHR ''_'')" by (simp add: plain_char_def)
  moreover have "97 \<le> char_code c \<Longrightarrow> plain_char c" for c unfolding plain_char_def by linarith
  ultimately show "lower_word s \<Longrightarrow> ?thesis"
    unfolding lower_word_def list_all_iff using plain_digit by blast
qed

lemma plain_shape: "of_shape p s \<Longrightarrow> list_all plain_char p \<Longrightarrow> list_all plain_char s"
  unfolding of_shape_def
  by (induction rule: list_all2_induct) (simp_all add: plain_digit split: if_splits)

lemma plain_time: "of_shape ''dddd-dd-ddTdd:dd:dd.dddZ'' s \<Longrightarrow> list_all plain_char s"
proof -
  have "list_all plain_char ''dddd-dd-ddTdd:dd:dd.dddZ''" by (simp add: plain_char_def)
  then show "of_shape ''dddd-dd-ddTdd:dd:dd.dddZ'' s \<Longrightarrow> ?thesis" using plain_shape by blast
qed

lemma plain_hex: "list_all plain_char (double_hex x)"
proof -
  have "plain_char (hex_digit k)" if "0 \<le> k" "k < 16" for k
    by (rule plain_code [OF hex_digit_code [OF that]]) (use that in \<open>simp_all split: if_splits\<close>)
  moreover have "\<forall>b \<in> set (bytes_be n k). 0 \<le> b \<and> b < 256" for n k
    by (induction n k rule: bytes_be.induct) auto
  moreover have "0 \<le> b \<Longrightarrow> b < 256 \<Longrightarrow> 0 \<le> b div 16 \<and> b div 16 < 16" for b :: int by presburger
  ultimately show ?thesis unfolding double_hex_def byte_hex_def list_all_iff by fastforce
qed

text \<open>The texts of the values of a row hold no comma and no line break.\<close>

lemma atom_int:
  assumes "n \<in> {1..max_safe_integer}"
  shows "list_all plain_char (json_stringify (JInt n))"
proof -
  have "list_all is_digit (num_str (Fin (of_int n)))"
    using num_str_int [of n] assms by (simp add: max_safe_integer_def del: num_str.simps)
  then have "list_all plain_char (num_str (Fin (of_int n)))" by (rule list.pred_mono_strong) (rule plain_digit)
  then show ?thesis by (simp del: num_str.simps)
qed

lemma js_split_skip: "c \<notin> set s \<Longrightarrow> js_split c s = [s]"
  by (induction s) auto

lemma js_split_append: "c \<notin> set s \<Longrightarrow> js_split c (s @ c # t) = s # js_split c t"
  by (induction s) auto

lemma split_comma_free:
  "\<forall>a \<in> set atoms. c \<notin> set a \<Longrightarrow> atoms \<noteq> [] \<Longrightarrow> js_split c (js_join [c] atoms) = atoms"
proof (induction atoms)
  case Cons1: (Cons a as)
  then show ?case
  proof (cases as)
    case (Cons b bs)
    then have "js_join [c] (a # as) = a @ c # js_join [c] as" by simp
    moreover have "js_split c (js_join [c] as) = as" using Cons1.IH Cons1.prems Cons by simp
    ultimately show ?thesis using Cons1.prems(1) js_split_append by simp
  qed (simp add: js_split_skip)
qed simp

lemma join_inj:
  assumes "\<forall>a \<in> set as. CHR '','' \<notin> set a" "\<forall>a \<in> set bs. CHR '','' \<notin> set a" "as \<noteq> []" "bs \<noteq> []"
    "js_join '','' as = js_join '','' bs"
  shows "as = bs"
  using split_comma_free [OF assms(1,3)] split_comma_free [OF assms(2,4)] assms(5) by metis

definition atom_ok :: "string \<Rightarrow> bool" where
  "atom_ok s \<longleftrightarrow> CHR '','' \<notin> set s \<and> newline \<notin> set s"

lemma plain_atom:
  assumes "list_all plain_char s"
  shows "atom_ok s" "atom_ok (CHR 0x22 # s @ [CHR 0x22])"
  using plain_not_separator [OF assms] by (simp_all add: atom_ok_def newline_def)

lemma atom_JInt: "n \<in> {1..max_safe_integer} \<Longrightarrow> atom_ok (json_stringify (JInt n))"
  by (intro plain_atom(1) atom_int)

lemma atom_JStr: "list_all plain_char s \<Longrightarrow> atom_ok (json_stringify (JStr s))"
  using plain_atom(2) by (simp add: json_plain)

lemma atom_null: "atom_ok (json_stringify Null)"
  by (simp add: atom_ok_def newline_def)

lemma measurement_atoms:
  assumes "wf_measurement m"
  shows "list_all (\<lambda>v. atom_ok (json_stringify v)) (measurement_fields m)"
proof -
  have "list_all plain_char (me_observed_at_utc m)"
    using assms plain_time by (simp add: wf_measurement_def)
  moreover have "atom_ok (json_stringify (int_or_null (me_station_id m)))"
    using assms atom_JInt atom_null
    by (cases "me_station_id m") (simp_all add: wf_measurement_def int_or_null_def del: json_stringify.simps)
  ultimately show ?thesis
    using assms plain_lower_word plain_hex
    by (simp add: wf_measurement_def measurement_fields_def atom_JInt atom_JStr del: json_stringify.simps)
qed

lemma row_atoms:
  assumes "wf_row c"
  shows "list_all (\<lambda>v. atom_ok (json_stringify v)) (measurement_fields c @ [str_or_null (cr_verification_status c)])"
proof -
  have "list_all plain_char ''P''" "list_all plain_char ''R''" by (simp_all add: plain_char_def)
  then have "atom_ok (json_stringify (str_or_null (cr_verification_status c)))"
    using assms atom_JStr atom_null by (auto simp: wf_row_def str_or_null_def simp del: json_stringify.simps)
  with assms measurement_atoms [of c] show ?thesis by (simp add: wf_row_def)
qed


lemma json_array_inj:
  assumes "list_all (\<lambda>v. atom_ok (json_stringify v)) as" "list_all (\<lambda>v. atom_ok (json_stringify v)) bs"
    "as \<noteq> []" "bs \<noteq> []" "json_stringify (JArr as) = json_stringify (JArr bs)"
  shows "List.map json_stringify as = List.map json_stringify bs"
proof (rule join_inj)
  show "\<forall>a \<in> set (List.map json_stringify as). CHR '','' \<notin> set a" "\<forall>a \<in> set (List.map json_stringify bs). CHR '','' \<notin> set a"
    using assms(1,2) by (simp_all add: list_all_iff atom_ok_def)
  show "js_join '','' (List.map json_stringify as) = js_join '','' (List.map json_stringify bs)"
    using assms(5) by simp
qed (use assms(3,4) in simp_all)

lemma json_JInt_inj:
  assumes "m \<in> {1..max_safe_integer}" "n \<in> {1..max_safe_integer}" "json_stringify (JInt m) = json_stringify (JInt n)"
  shows "m = n"
  using num_str_int_inj [of m n] assms by (simp add: max_safe_integer_def del: num_str.simps)

lemma json_JInt_not_null:
  assumes "n \<in> {1..max_safe_integer}"
  shows "json_stringify (JInt n) \<noteq> json_stringify Null"
proof -
  have "list_all is_digit (num_str (Fin (of_int n)))"
    using num_str_int [of n] assms by (simp add: max_safe_integer_def del: num_str.simps)
  moreover have "\<not> list_all is_digit ''null''" by (simp add: is_digit_def)
  ultimately have "num_str (Fin (of_int n)) \<noteq> ''null''" by metis
  then show ?thesis by (simp del: num_str.simps)
qed

lemma json_int_or_null_inj:
  assumes "\<forall>k. a = Some k \<longrightarrow> k \<in> {1..max_safe_integer}" "\<forall>k. b = Some k \<longrightarrow> k \<in> {1..max_safe_integer}"
    "json_stringify (int_or_null a) = json_stringify (int_or_null b)"
  shows "a = b"
  using assms json_JInt_inj json_JInt_not_null
  by (cases a; cases b) (simp_all add: int_or_null_def del: json_stringify.simps, metis+)

lemma json_JStr_inj:
  assumes "list_all plain_char s" "list_all plain_char t" "json_stringify (JStr s) = json_stringify (JStr t)"
  shows "s = t"
  using assms by (simp add: json_plain)

lemma measurement_fields_inj:
  assumes "wf_measurement m" "wf_measurement n" "is_double (me_value m)" "is_double (me_value n)"
    "List.map json_stringify (measurement_fields m) = List.map json_stringify (measurement_fields n)"
  shows "me_connector_id m = me_connector_id n \<and> me_station_id m = me_station_id n \<and>
    me_timeseries_id m = me_timeseries_id n \<and> me_pollutant_code m = me_pollutant_code n \<and>
    me_observed_at_utc m = me_observed_at_utc n \<and> me_value m = me_value n"
proof -
  have eq: "json_stringify (JInt (me_connector_id m)) = json_stringify (JInt (me_connector_id n))"
    "json_stringify (int_or_null (me_station_id m)) = json_stringify (int_or_null (me_station_id n))"
    "json_stringify (JInt (me_timeseries_id m)) = json_stringify (JInt (me_timeseries_id n))"
    "json_stringify (JStr (me_pollutant_code m)) = json_stringify (JStr (me_pollutant_code n))"
    "json_stringify (JStr (me_observed_at_utc m)) = json_stringify (JStr (me_observed_at_utc n))"
    "json_stringify (JStr (double_hex (me_value m))) = json_stringify (JStr (double_hex (me_value n)))"
    using assms(5) unfolding measurement_fields_def list.map list.inject by blast+
  show ?thesis
    using assms(1-4) json_JInt_inj [OF _ _ eq(1)] json_int_or_null_inj [OF _ _ eq(2)] json_JInt_inj [OF _ _ eq(3)]
      json_JStr_inj [OF _ _ eq(4)] json_JStr_inj [OF _ _ eq(5)] json_JStr_inj [OF plain_hex plain_hex eq(6)]
    unfolding wf_measurement_def by (simp add: plain_lower_word plain_time double_hex_inj)
qed

lemma encode_row_inj:
  assumes "wf_row c" "wf_row d" "is_double (me_value c)" "is_double (me_value d)" "encode_row c = encode_row d"
  shows "c = d"
proof -
  have "List.map json_stringify (measurement_fields c @ [str_or_null (cr_verification_status c)]) =
      List.map json_stringify (measurement_fields d @ [str_or_null (cr_verification_status d)])"
    using assms(5) unfolding encode_row_def
    by (rule json_array_inj [OF row_atoms [OF assms(1)] row_atoms [OF assms(2)], rotated 2]) simp_all
  then have m: "List.map json_stringify (measurement_fields c) = List.map json_stringify (measurement_fields d)"
    and s: "json_stringify (str_or_null (cr_verification_status c)) = json_stringify (str_or_null (cr_verification_status d))"
    by simp_all
  have "json_string ''P'' = CHR 0x22 # ''P'' @ [CHR 0x22]" "json_string ''R'' = CHR 0x22 # ''R'' @ [CHR 0x22]"
    by (simp_all add: json_plain plain_char_def)
  then have "cr_verification_status c = cr_verification_status d"
    using s assms(1,2) by (auto simp: wf_row_def str_or_null_def)
  then show ?thesis
    using measurement_fields_inj [OF _ _ assms(3,4) m] assms(1,2) by (simp add: wf_row_def)
qed

lemma encode_row_line: "wf_row c \<Longrightarrow> newline \<notin> set (encode_row c)"
proof -
  assume "wf_row c"
  have join: "newline \<notin> set (js_join '','' as)" if "\<forall>a \<in> set as. newline \<notin> set a" for as
    using that by (induction "'',''" as rule: js_join.induct) (auto simp: newline_def)
  show ?thesis
    using join [of "List.map json_stringify (measurement_fields c @ [str_or_null (cr_verification_status c)])"]
      row_atoms [OF \<open>wf_row c\<close>]
    unfolding encode_row_def by (simp add: list_all_iff atom_ok_def newline_def)
qed

section \<open>Lemmas on normalisation and the hashed text\<close>

lemma positiveSafeInteger_Inr:
  "positiveSafeInteger v name = Inr n \<longleftrightarrow> (\<exists>x. v = JNum x \<and> num_safe_integer x = Some n) \<and> 0 < n"
  by (cases v) (auto simp: positiveSafeInteger_def split: option.splits)

lemma safe_integer_range: "num_safe_integer x = Some n \<Longrightarrow> n \<le> max_safe_integer \<and> x = Fin (of_int n)"
  by (auto simp: num_safe_integer_def split: option.splits if_splits dest: num_integer_SomeD)

lemma safe_integer_JInt: "n \<in> {1..max_safe_integer} \<Longrightarrow> num_safe_integer (Fin (of_int n)) = Some n"
  by (simp add: num_safe_integer_def)

lemma canonicalStationId_Inr:
  "canonicalStationId v = Inr s \<longleftrightarrow> (is_nullish v \<and> s = None) \<or>
     (\<not> is_nullish v \<and> (\<exists>n. s = Some n \<and> positiveSafeInteger v ''station_id'' = Inr n))"
  by (auto simp: canonicalStationId_def res_simps)

lemma read_pollutant_Inr: "read_pollutant v = Inr s \<longleftrightarrow> v = JStr s \<and> lower_word s \<and> s = js_lower s"
  by (cases v) (auto simp: read_pollutant_def)

definition canonical_time :: "string \<Rightarrow> bool" where
  "canonical_time s \<longleftrightarrow> of_shape ''dddd-dd-ddTdd:dd:dd.dddZ'' s \<and> (\<exists>t. date_parse s = Some t \<and> to_iso t = s)"

lemma read_observed_at_Inr: "read_observed_at v = Inr s \<longleftrightarrow> v = JStr s \<and> canonical_time s"
  by (cases v) (auto simp: read_observed_at_def canonical_time_def Let_def split: option.splits if_splits)

lemma read_value_Inr: "read_value v = Inr x \<longleftrightarrow> v = JNum (Fin x)"
  by (auto simp: read_value_def split: jsval.splits jsnum.splits)

lemma requireStatus_Inr:
  "requireCanonicalVerificationStatus v = Inr s \<longleftrightarrow>
     (is_nullish v \<and> s = None) \<or> (v = JStr ''P'' \<and> s = Some ''P'') \<or> (v = JStr ''R'' \<and> s = Some ''R'')"
  by (auto simp: requireCanonicalVerificationStatus_def is_nullish_def)

lemmas read_column_simps = positiveSafeInteger_Inr canonicalStationId_Inr read_pollutant_Inr read_observed_at_Inr
  read_value_Inr requireStatus_Inr

text \<open>What normalisation accepts is well-formed, and accepted again as it is.\<close>

definition canonical :: "canonical_row \<Rightarrow> bool" where
  "canonical c \<longleftrightarrow> wf_row c \<and> me_pollutant_code c = js_lower (me_pollutant_code c) \<and> canonical_time (me_observed_at_utc c)"

lemma normalize_canonical: "normalizeCanonicalObservationRow v = Inr c \<Longrightarrow> canonical c"
  by (auto simp: normalizeCanonicalObservationRow_def canonical_def wf_row_def wf_measurement_def canonical_time_def
      read_column_simps res_simps split: if_splits dest: safe_integer_range)

lemma select_status_of_object:
  "selectObservationVerificationStatusColumn (object_keys (row_object c)) = Inr (Some ''verification_status'')"
  by (simp add: selectObservationVerificationStatusColumn_def row_object_def measurement_props_def)

lemma normalize_again: "canonical c \<Longrightarrow> normalizeCanonicalObservationRow (row_object c) = Inr c"
proof -
  assume c: "canonical c"
  have get: "jget (row_object c) ''connector_id'' = JInt (me_connector_id c)"
    "jget (row_object c) ''station_id'' = int_or_null (me_station_id c)"
    "jget (row_object c) ''timeseries_id'' = JInt (me_timeseries_id c)"
    "jget (row_object c) ''pollutant_code'' = JStr (me_pollutant_code c)"
    "jget (row_object c) ''observed_at_utc'' = JStr (me_observed_at_utc c)"
    "jget (row_object c) ''value'' = JNum (Fin (me_value c))"
    "jget (row_object c) ''verification_status'' = str_or_null (cr_verification_status c)"
    by (simp_all add: row_object_def measurement_props_def)
  have "plain_object (row_object c)" by (simp add: row_object_def)
  moreover have "positiveSafeInteger (JInt (me_connector_id c)) ''connector_id'' = Inr (me_connector_id c)"
    "positiveSafeInteger (JInt (me_timeseries_id c)) ''timeseries_id'' = Inr (me_timeseries_id c)"
    using c by (auto simp: positiveSafeInteger_Inr canonical_def wf_row_def wf_measurement_def safe_integer_JInt)
  moreover have "canonicalStationId (int_or_null (me_station_id c)) = Inr (me_station_id c)"
    using c by (cases "me_station_id c") (auto simp: canonicalStationId_Inr positiveSafeInteger_Inr int_or_null_def is_nullish_def
        canonical_def wf_row_def wf_measurement_def safe_integer_JInt)
  moreover have "read_pollutant (JStr (me_pollutant_code c)) = Inr (me_pollutant_code c)"
    "read_observed_at (JStr (me_observed_at_utc c)) = Inr (me_observed_at_utc c)"
    "read_value (JNum (Fin (me_value c))) = Inr (me_value c)"
    using c unfolding read_pollutant_Inr read_observed_at_Inr read_value_Inr
    by (simp_all add: canonical_def wf_row_def wf_measurement_def)
  moreover have "requireCanonicalVerificationStatus (str_or_null (cr_verification_status c)) = Inr (cr_verification_status c)"
    using c by (auto simp: requireStatus_Inr str_or_null_def is_nullish_def canonical_def wf_row_def)
  ultimately show ?thesis
    by (simp add: normalizeCanonicalObservationRow_def get select_status_of_object)
qed

lemma encode_objects:
  assumes "list_all canonical cs"
  shows "res_mapM encodeCanonicalObservationRow (List.map row_object cs) = Inr (List.map encode_row cs)"
  using assms by (induction cs) (simp_all add: encodeCanonicalObservationRow_def normalize_again)

lemma normalize_all: "res_mapM normalizeCanonicalObservationRow rows = Inr cs \<Longrightarrow> list_all canonical cs"
  by (induction rows arbitrary: cs) (auto simp: res_simps normalize_canonical)

definition content_text :: "canonical_row list \<Rightarrow> string" where
  "content_text cs = hash_text OBSERVATION_CONTENT_HASH_PREFIX (List.map encode_row cs)"

lemma computeObservationContentHash_Inr:
  assumes "computeObservationContentHash sha rows = Inr (h, cs)"
  shows "list_all canonical cs \<and> cs \<noteq> [] \<and> length cs = length rows \<and> ch_hash h = sha (content_text cs)
    \<and> ch_version h = CONTENT_HASH_VERSION \<and> ch_row_count h = int (length cs) \<and> ch_columns h = OBSERVATION_CONTENT_HASH_COLUMNS
    \<and> ch_status_counts h = Some (count_status_of cs (Some ''P''), count_status_of cs (Some ''R''), count_status_of cs None)"
proof -
  from assms obtain ds where ds: "rows \<noteq> []" "res_mapM normalizeCanonicalObservationRow rows = Inr ds"
    by (auto simp: computeObservationContentHash_def res_simps split: if_splits)
  with assms have "cs = ds" and h: "h = \<lparr>ch_hash = sha (hash_text OBSERVATION_CONTENT_HASH_PREFIX (List.map encode_row ds)),
      ch_version = CONTENT_HASH_VERSION, ch_row_count = int (length ds), ch_columns = OBSERVATION_CONTENT_HASH_COLUMNS,
      ch_status_counts = Some (count_status_of ds (Some ''P''), count_status_of ds (Some ''R''), count_status_of ds None)\<rparr>"
    by (auto simp: computeObservationContentHash_def encode_objects [OF normalize_all [OF ds(2)]])
  then show ?thesis
    using normalize_all [OF ds(2)] res_mapM_length [OF ds(2)] ds(1) by (auto simp: content_text_def)
qed

text \<open>The lines of a hashed text can be read off it.\<close>

lemma split_lines:
  "\<forall>x \<in> set xs. newline \<notin> set x \<Longrightarrow> js_split newline (List.concat (List.map (\<lambda>e. e @ [newline]) xs)) = xs @ [[]]"
proof (induction xs)
  case (Cons x xs)
  then show ?case using js_split_append [of newline x] by simp
qed simp

lemma hash_text_inj:
  assumes "\<forall>x \<in> set xs. newline \<notin> set x" "\<forall>y \<in> set ys. newline \<notin> set y"
  shows "hash_text p xs = hash_text p ys \<longleftrightarrow> mset xs = mset ys"
proof
  assume "hash_text p xs = hash_text p ys"
  then have "js_split newline (List.concat (List.map (\<lambda>e. e @ [newline]) (sort xs))) =
      js_split newline (List.concat (List.map (\<lambda>e. e @ [newline]) (sort ys)))"
    by (simp add: hash_text_def)
  then have "sort xs = sort ys" using split_lines [of "sort xs"] split_lines [of "sort ys"] assms by simp
  then show "mset xs = mset ys" by (metis mset_sort)
next
  assume "mset xs = mset ys"
  then have "sort xs = sort ys" by (intro properties_for_sort) simp_all
  then show "hash_text p xs = hash_text p ys" by (simp add: hash_text_def)
qed

lemma content_text_eq:
  assumes "list_all canonical cs" "list_all canonical ds"
    "\<forall>c \<in> set cs \<union> set ds. is_double (me_value c)"
  shows "content_text cs = content_text ds \<longleftrightarrow> mset cs = mset ds"
proof -
  have wf: "wf_row c" if "c \<in> set cs \<union> set ds" for c
    using assms(1,2) that by (auto simp: list_all_iff canonical_def)
  have "content_text cs = content_text ds \<longleftrightarrow> image_mset encode_row (mset cs) = image_mset encode_row (mset ds)"
    unfolding content_text_def
    by (subst hash_text_inj) (use wf encode_row_line in \<open>auto simp: mset_map\<close>)
  moreover have "inj_on encode_row (set cs \<union> set ds)"
    using wf assms(3) encode_row_inj by (intro inj_onI) blast
  ultimately show ?thesis
    using multiset.inj_map_strong [of "mset cs" "mset ds" encode_row encode_row] by (auto simp: inj_on_def)
qed


lemma status_counts_sum:
  assumes "list_all canonical cs"
  shows "count_status_of cs (Some ''P'') + count_status_of cs (Some ''R'') + count_status_of cs None = int (length cs)"
  using assms by (induction cs) (auto simp: count_status_of_def canonical_def wf_row_def)

lemma count_status_bounds: "0 \<le> count_status_of cs s \<and> count_status_of cs s \<le> int (length cs)"
  by (simp add: count_status_of_def)

lemma count_value_JInt: "0 \<le> n \<Longrightarrow> n \<le> max_safe_integer \<Longrightarrow> count_value (JInt n) = Some n"
  by (simp add: count_value_def num_safe_integer_def)

lemma num_add_exact: "0 \<le> a \<Longrightarrow> 0 \<le> b \<Longrightarrow> a + b \<le> max_safe_integer \<Longrightarrow> num_add (Fin (of_int a)) (Fin (of_int b)) = Fin (of_int (a + b))"
  using to_double_int [of "a + b"] by (simp add: max_safe_integer_def)

lemma status_counts_stored:
  assumes "0 \<le> p" "0 \<le> r" "0 \<le> n" "p + r + n \<le> max_safe_integer"
  shows "status_counts_ok (JObj [(''P'', JInt p), (''R'', JInt r), (''null'', JInt n)]) (p + r + n) = Inr ()"
proof -
  have "num_add (num_add (Fin (of_int p)) (Fin (of_int r))) (Fin (of_int n)) = Fin (of_int (p + r + n))"
    using num_add_exact [of p r] num_add_exact [of "p + r" n] assms by simp
  then show ?thesis
    using assms by (simp add: status_counts_ok_def has_own_def count_value_JInt del: num_add.simps)
qed

text \<open>Metadata that was computed passes its own check.\<close>

lemma stored_metadata_valid:
  assumes "computeObservationContentHash sha rows = Inr (h, cs)" "hash_shape (ch_hash h)"
    "int (length rows) \<le> max_safe_integer"
  shows "validateObservationContentHashMetadata (hash_metadata h) None = Inr (ch_hash h, CONTENT_HASH_VERSION, int (length cs))"
proof -
  note c = computeObservationContentHash_Inr [OF assms(1)]
  define p r n where "p = count_status_of cs (Some ''P'')" and "r = count_status_of cs (Some ''R'')"
    and "n = count_status_of cs None"
  have s: "p + r + n = int (length cs)" "0 \<le> p" "0 \<le> r" "0 \<le> n"
    using status_counts_sum [of cs] count_status_bounds c by (simp_all add: p_def r_def n_def)
  have len: "int (length cs) \<le> max_safe_integer" using c assms(3) by simp
  have meta: "hash_metadata h = JObj [(''observation_content_hash'', JStr (ch_hash h)),
      (''observation_content_hash_algorithm'', JStr OBSERVATION_CONTENT_HASH_ALGORITHM),
      (''observation_content_hash_contract_version'', JInt CONTENT_HASH_VERSION),
      (''observation_content_hash_row_count'', JInt (int (length cs))),
      (''observation_content_hash_columns'', JArr (List.map JStr OBSERVATION_CONTENT_HASH_COLUMNS)),
      (''verification_status_counts'', JObj [(''P'', JInt p), (''R'', JInt r), (''null'', JInt n)])]"
    using c by (simp add: hash_metadata_def p_def r_def n_def)
  have "status_counts_ok (JObj [(''P'', JInt p), (''R'', JInt r), (''null'', JInt n)]) (int (length cs)) = Inr ()"
    using status_counts_stored [of p r n] s len by simp
  moreover have "count_value (JInt (int (length cs))) = Some (int (length cs))"
    using len by (intro count_value_JInt) simp_all
  moreover have "JInt CONTENT_HASH_VERSION \<noteq> JInt MEASUREMENT_HASH_VERSION"
    by (simp add: CONTENT_HASH_VERSION_def MEASUREMENT_HASH_VERSION_def)
  ultimately show ?thesis
    using assms(2) by (simp add: validateObservationContentHashMetadata_def meta Let_def)
qed

section \<open>What a content hash identifies\<close>

text \<open>C10: the text that is hashed determines the rows of a partition up to their order, and the order does
  not matter to it, so stored metadata compares equal exactly when the digests of these texts agree
  and the row counts do; computed metadata always passes the validation.\<close>

theorem content_hash_identifies_rows:
  assumes "computeObservationContentHash sha rows = Inr (h, cs)" "computeObservationContentHash sha rows' = Inr (h', ds)"
    "\<forall>t. hash_shape (sha t)" "int (length rows) \<le> max_safe_integer" "int (length rows') \<le> max_safe_integer"
    "\<forall>c \<in> set cs \<union> set ds. is_double (me_value c)"
  shows "compareObservationContentHashMetadata (hash_metadata h) (hash_metadata h') =
        Inr (sha (content_text cs) = sha (content_text ds) \<and> length cs = length ds)
    \<and> (content_text cs = content_text ds \<longleftrightarrow> mset cs = mset ds)"
proof -
  note c = computeObservationContentHash_Inr [OF assms(1)] and d = computeObservationContentHash_Inr [OF assms(2)]
  have "validateObservationContentHashMetadata (hash_metadata h) None = Inr (ch_hash h, CONTENT_HASH_VERSION, int (length cs))"
    "validateObservationContentHashMetadata (hash_metadata h') None = Inr (ch_hash h', CONTENT_HASH_VERSION, int (length ds))"
    using stored_metadata_valid [OF assms(1)] stored_metadata_valid [OF assms(2)] assms(3-5) c d by simp_all
  then show ?thesis
    using c d content_text_eq [of cs ds] assms(6) by (simp add: compareObservationContentHashMetadata_def)
qed

definition sample_digest :: "string \<Rightarrow> string" where
  "sample_digest t = replicate 64 (if even (length t) then CHR ''a'' else CHR ''b'')"

definition sample_observation :: "int \<Rightarrow> jsval \<Rightarrow> jsval" where
  "sample_observation ts v = JObj [(''connector_id'', JInt 1), (''station_id'', Null), (''timeseries_id'', JInt ts),
     (''pollutant_code'', JStr ''pm25''), (''observed_at_utc'', JStr ''2024-05-01T06:00:00.000Z''), (''value'', v),
     (''verification_status'', JStr ''P'')]"

definition sample_canonical :: "int \<Rightarrow> canonical_row" where
  "sample_canonical ts = \<lparr>me_connector_id = 1, me_station_id = None, me_timeseries_id = ts, me_pollutant_code = ''pm25'',
     me_observed_at_utc = ''2024-05-01T06:00:00.000Z'', me_value = 25 / 2, cr_verification_status = Some ''P''\<rparr>"

lemma sample_hash:
  "\<exists>h. computeObservationContentHash sample_digest
     [sample_observation 7 (JNum (Fin (25 / 2))), sample_observation 8 (JNum (Fin (25 / 2)))] =
     Inr (h, [sample_canonical 7, sample_canonical 8])"
  "\<exists>h. computeObservationContentHash sample_digest
     [sample_observation 8 (JNum (Fin (25 / 2))), sample_observation 7 (JNum (Fin (25 / 2)))] =
     Inr (h, [sample_canonical 8, sample_canonical 7])"
proof -
  have "normalizeCanonicalObservationRow (sample_observation 7 (JNum (Fin (25 / 2)))) = Inr (sample_canonical 7)"
    "normalizeCanonicalObservationRow (sample_observation 8 (JNum (Fin (25 / 2)))) = Inr (sample_canonical 8)"
    by code_simp+
  moreover from this have "list_all canonical [sample_canonical 7, sample_canonical 8]"
    "list_all canonical [sample_canonical 8, sample_canonical 7]"
    by (simp_all add: normalize_canonical)
  ultimately show "\<exists>h. computeObservationContentHash sample_digest
     [sample_observation 7 (JNum (Fin (25 / 2))), sample_observation 8 (JNum (Fin (25 / 2)))] =
     Inr (h, [sample_canonical 7, sample_canonical 8])"
    "\<exists>h. computeObservationContentHash sample_digest
     [sample_observation 8 (JNum (Fin (25 / 2))), sample_observation 7 (JNum (Fin (25 / 2)))] =
     Inr (h, [sample_canonical 8, sample_canonical 7])"
    by (simp_all add: computeObservationContentHash_def encodeCanonicalObservationRow_def normalize_again)
qed

theorem content_hash_identifies_rows_witness:
  "content_text [sample_canonical 7, sample_canonical 8] = content_text [sample_canonical 8, sample_canonical 7]"
proof -
  obtain h h' where h: "computeObservationContentHash sample_digest
     [sample_observation 7 (JNum (Fin (25 / 2))), sample_observation 8 (JNum (Fin (25 / 2)))] =
     Inr (h, [sample_canonical 7, sample_canonical 8])"
   "computeObservationContentHash sample_digest
     [sample_observation 8 (JNum (Fin (25 / 2))), sample_observation 7 (JNum (Fin (25 / 2)))] =
     Inr (h', [sample_canonical 8, sample_canonical 7])"
    using sample_hash by blast
  have "\<forall>t. hash_shape (sample_digest t)"
    by (simp add: sample_digest_def hash_shape_def list_all_iff)
  moreover have "is_double (25 / 2)"
    unfolding is_double_def by code_simp
  then have "\<forall>c \<in> set [sample_canonical 7, sample_canonical 8] \<union> set [sample_canonical 8, sample_canonical 7]. is_double (me_value c)"
    by (simp add: sample_canonical_def)
  ultimately have "content_text [sample_canonical 7, sample_canonical 8] = content_text [sample_canonical 8, sample_canonical 7] \<longleftrightarrow>
      mset [sample_canonical 7, sample_canonical 8] = mset [sample_canonical 8, sample_canonical 7]"
    using content_hash_identifies_rows [OF h] by (simp add: max_safe_integer_def)
  then show ?thesis by simp
qed

end
