(* ===== verification/ConnectorGate.thy ===== *)
theory ConnectorGate
  imports ContentHash
begin

text \<open>
  The evidence that a day of one connector is safely stored before it is deleted from the ingest
  database: the storage generations (uk_aq_observation_history_generation.mjs), the identity of a
  set of source rows (uk_aq_prune_connector_source_identity.mjs) and the gate table
  (uk_aq_connector_day_gate.mjs), all under workers/shared. The gate table is a list of rows with its primary key;
  the clock of the database is a parameter.
\<close>

section \<open>Storage generations\<close>

record generation =
  gn_version :: string
  gn_observations_prefix :: string
  gn_observations_root_key :: string
  gn_observations_runs_prefix :: string
  gn_index_root_prefix :: string
  gn_timeseries_index_prefix :: string
  gn_timeseries_latest_key :: string
  gn_binding_index_prefix :: string
  gn_core_prefix :: string
  gn_backup_inventory_prefix :: string
  gn_backup_state_prefix :: string
  gn_binding_pack_prefix :: string

definition generation_of :: "string \<Rightarrow> generation" where
  "generation_of version =
     (let observations = ''history/'' @ version @ ''/observations''; indexes = ''history/_index_'' @ version
      in \<lparr>gn_version = version, gn_observations_prefix = observations,
          gn_observations_root_key = observations @ ''/_manifests/manifest.json'',
          gn_observations_runs_prefix = ''history/'' @ version @ ''/_ops/observations/runs'',
          gn_index_root_prefix = indexes,
          gn_timeseries_index_prefix = indexes @ ''/observations_timeseries'',
          gn_timeseries_latest_key = indexes @ ''/observations_timeseries_latest.json'',
          gn_binding_index_prefix = indexes @ ''/timeseries_binding'',
          gn_core_prefix = ''history/'' @ version @ ''/core'',
          gn_backup_inventory_prefix = indexes @ ''/backup_inventory_v2'',
          gn_backup_state_prefix =
            ''_ops/checkpoints/r2_history_backup_state_v2/observation_generation='' @ version,
          gn_binding_pack_prefix = ''history/_backup_packs_v1/timeseries_binding'' @
            (if version = ''v3'' then ''/generation=v3'' else [])\<rparr>)"

definition getObservationHistoryGeneration :: "jsval \<Rightarrow> generation res" where
  "getObservationHistoryGeneration version =
     (if version = JStr ''v2'' then Inr (generation_of ''v2'')
      else if version = JStr ''v3'' then Inr (generation_of ''v3'')
      else Inl (JsError ''Observation history generation must be exactly v2 or v3''))"

definition assertObservationHistoryGeneration :: "generation \<Rightarrow> generation res" where
  "assertObservationHistoryGeneration g =
     res_bind (getObservationHistoryGeneration (JStr (gn_version g))) (\<lambda>g'.
       if g = g' then Inr g else Inl (JsError ''Observation history requires an immutable shared generation''))"

definition starts_with :: "string \<Rightarrow> string \<Rightarrow> bool" where
  "starts_with s prefix \<longleftrightarrow> take (length prefix) s = prefix"

definition domain_prefix :: "generation \<Rightarrow> string \<Rightarrow> string option" where
  "domain_prefix g = map_of [(''observations'', gn_observations_prefix g),
     (''observation_index'', gn_timeseries_index_prefix g), (''bindings'', gn_binding_index_prefix g),
     (''runs'', gn_observations_runs_prefix g), (''core'', gn_core_prefix g),
     (''backup_inventory'', gn_backup_inventory_prefix g), (''backup_state'', gn_backup_state_prefix g),
     (''packs'', gn_binding_pack_prefix g)]"

definition safe_part :: "string \<Rightarrow> bool" where
  "safe_part part \<longleftrightarrow> part \<noteq> [] \<and> part \<noteq> ''.'' \<and> part \<noteq> ''..'' \<and>
     list_all (\<lambda>c. char_code c \<noteq> 92 \<and> 32 \<le> char_code c \<and> char_code c \<noteq> 127) part"

definition key_in_domain :: "generation \<Rightarrow> string \<Rightarrow> string \<Rightarrow> bool" where
  "key_in_domain g key scope \<longleftrightarrow>
     \<not> (scope \<in> {''packs'', ''backup_state''} \<and> gn_version g = ''v2''
        \<and> starts_with key (the (domain_prefix g scope) @ ''/generation=''))
     \<and> list_all safe_part (js_split (CHR ''/'') key)
     \<and> (if scope = ''latest'' then key = gn_timeseries_latest_key g
        else case domain_prefix g scope of None \<Rightarrow> False | Some prefix \<Rightarrow> starts_with key (prefix @ ''/''))"

definition assertObservationHistoryGenerationKey :: "generation \<Rightarrow> jsval \<Rightarrow> string \<Rightarrow> string res" where
  "assertObservationHistoryGenerationKey g key scope =
     res_bind (assertObservationHistoryGeneration g) (\<lambda>_.
       case key of
         JStr k \<Rightarrow> if key_in_domain g k scope then Inr k
                  else Inl (JsError (''Object key is outside '' @ gn_version g @ '' '' @ scope @ '': '' @ k))
       | _ \<Rightarrow> Inl (JsError (''Object key is outside '' @ gn_version g @ '' '' @ scope @ '': '' @ js_string key)))"

section \<open>The identity of the source rows of a connector day\<close>

definition PRUNE_CONTRACT_VERSION :: int where "PRUNE_CONTRACT_VERSION = 1"

definition PRUNE_CONTENT_HASH_PREFIX :: string where
  "PRUNE_CONTENT_HASH_PREFIX = ''uk-aq-prune-connector-source-content-hash:v1'' @ [newline]"

record source_identity =
  id_hash :: string
  id_version :: int
  id_row_count :: int

definition number_of :: "jsval \<Rightarrow> jsval" where
  "number_of v = JNum (js_number v)"

definition prune_source_object :: "jsval \<Rightarrow> jsval res" where
  "prune_source_object row =
     (let observedAt = js_coalesce (jget row ''observed_at_utc'') (jget row ''observed_at'');
          station = jget row ''station_id'';
          observed = (case observedAt of
              JDate None \<Rightarrow> Inl RangeError
            | JDate (Some t) \<Rightarrow> Inr (to_iso t)
            | v \<Rightarrow> (case date_parse (str_or_empty v) of None \<Rightarrow> Inl RangeError | Some t \<Rightarrow> Inr (to_iso t)));
          status = (if has_own row ''verification_status'' then jget row ''verification_status''
            else js_coalesce (jget row ''status'') Null)
      in res_map (\<lambda>tm. JObj [(''connector_id'', number_of (jget row ''connector_id'')),
             (''station_id'', if is_nullish station then Null else number_of station),
             (''timeseries_id'', number_of (jget row ''timeseries_id'')),
             (''pollutant_code'', JStr (str_coalesce (jget row ''pollutant_code''))),
             (''observed_at_utc'', JStr tm), (''value'', number_of (jget row ''value'')),
             (''verification_status'', status)]) observed)"

definition normalizePruneConnectorSourceRow :: "jsval \<Rightarrow> canonical_row res" where
  "normalizePruneConnectorSourceRow row = res_bind (prune_source_object row) normalizeCanonicalObservationRow"

definition prune_text :: "string list \<Rightarrow> string" where
  "prune_text encodedRows = hash_text PRUNE_CONTENT_HASH_PREFIX encodedRows"

definition computePruneConnectorSourceIdentity :: "(string \<Rightarrow> string) \<Rightarrow> jsval list \<Rightarrow> source_identity res" where
  "computePruneConnectorSourceIdentity sha rows =
     (if rows = [] then Inl (JsError ''Prune deletion evidence requires non-empty canonical connector-day rows'')
      else
       res_bind (res_mapM normalizePruneConnectorSourceRow rows) (\<lambda>canonical.
       res_map (\<lambda>encoded. \<lparr>id_hash = sha (prune_text encoded), id_version = PRUNE_CONTRACT_VERSION,
           id_row_count = int (length encoded)\<rparr>)
         (res_mapM encodeCanonicalObservationRow (List.map row_object canonical))))"

definition normalizePruneConnectorSourceIdentity :: "jsval \<Rightarrow> source_identity res" where
  "normalizePruneConnectorSourceIdentity evidence =
     (if \<not> plain_object evidence then Inl (JsError ''source_identity_missing'')
      else case (jget evidence ''source_content_hash'',
                 num_safe_integer (js_number (jget evidence ''source_content_hash_row_count''))) of
          (JStr h, Some n) \<Rightarrow>
            if \<not> hash_shape h \<or> n \<le> 0 then Inl (JsError ''source_identity_missing'')
            else if num_safe_integer (js_number (jget evidence ''source_content_hash_contract_version''))
                 = Some PRUNE_CONTRACT_VERSION
            then Inr \<lparr>id_hash = h, id_version = PRUNE_CONTRACT_VERSION, id_row_count = n\<rparr>
            else Inl (JsError ''source_identity_contract_unsupported'')
        | _ \<Rightarrow> Inl (JsError ''source_identity_missing''))"

text \<open>The reason why two identities differ, None when they match. Both have been normalised.\<close>

definition identity_difference :: "source_identity \<Rightarrow> source_identity \<Rightarrow> string option" where
  "identity_difference left right =
     (if id_row_count left \<noteq> id_row_count right then Some ''source_identity_row_count_mismatch''
      else if id_hash left \<noteq> id_hash right then Some ''source_identity_mismatch''
      else None)"

text \<open>The identity as the object it is handed on as.\<close>

definition identity_object :: "source_identity \<Rightarrow> jsval" where
  "identity_object i = JObj [(''source_content_hash'', JStr (id_hash i)),
     (''source_content_hash_contract_version'', JInt (id_version i)),
     (''source_content_hash_row_count'', JInt (id_row_count i))]"

definition comparePruneConnectorSourceIdentities :: "jsval \<Rightarrow> jsval \<Rightarrow> string option res" where
  "comparePruneConnectorSourceIdentities leftInput rightInput =
     res_bind (normalizePruneConnectorSourceIdentity leftInput) (\<lambda>left.
     res_map (identity_difference left) (normalizePruneConnectorSourceIdentity rightInput))"

definition pruneConnectorSourceIdentityFailureReason :: "js_error \<Rightarrow> string" where
  "pruneConnectorSourceIdentityFailureReason e =
     (case e of
        JsError message \<Rightarrow>
          if message = ''source_identity_contract_unsupported'' \<or> message = ''source_identity_missing'' then message
          else ''source_identity_canonicalisation_failed''
      | _ \<Rightarrow> ''source_identity_canonicalisation_failed'')"

section \<open>Connector days\<close>

record connector_day =
  cd_day_utc :: string
  cd_connector_id :: int

definition real_day :: "string \<Rightarrow> bool" where
  "real_day day \<longleftrightarrow> of_shape ''dddd-dd-dd'' day \<and>
     (case date_parse (day @ ''T00:00:00.000Z'') of None \<Rightarrow> False | Some t \<Rightarrow> take 10 (to_iso t) = day)"

definition normalizeConnectorDayPair :: "jsval \<Rightarrow> jsval \<Rightarrow> connector_day res" where
  "normalizeConnectorDayPair dayUtc connectorId =
     (let bad = Inl (JsError (''Invalid connector-day UTC date: '' @ str_or_empty dayUtc));
          day = (case dayUtc of
              JDate (Some t) \<Rightarrow> if t mod MS_DAY = 0 then Some (take 10 (to_iso t)) else None
            | JStr s \<Rightarrow> Some (js_trim s)
            | _ \<Rightarrow> None)
      in case day of
           None \<Rightarrow> bad
         | Some d \<Rightarrow>
             if \<not> real_day d then bad
             else (case num_safe_integer (js_number connectorId) of
                 Some n \<Rightarrow> if 0 < n then Inr \<lparr>cd_day_utc = d, cd_connector_id = n\<rparr>
                           else Inl (JsError (''Invalid connector-day connector_id: '' @ str_or_empty connectorId))
               | None \<Rightarrow> Inl (JsError (''Invalid connector-day connector_id: '' @ str_or_empty connectorId))))"

definition connectorDayGateKey :: "jsval \<Rightarrow> jsval \<Rightarrow> string res" where
  "connectorDayGateKey dayUtc connectorId =
     res_map (\<lambda>p. cd_day_utc p @ ''|'' @ int_str (cd_connector_id p)) (normalizeConnectorDayPair dayUtc connectorId)"

text \<open>The last argument is the environment variable UK_AQ_R2_HISTORY_VERSION.\<close>

definition canonicalObservationConnectorManifestKey :: "jsval \<Rightarrow> jsval \<Rightarrow> jsval \<Rightarrow> string res" where
  "canonicalObservationConnectorManifestKey dayUtc connectorId version =
     res_bind (normalizeConnectorDayPair dayUtc connectorId) (\<lambda>p.
     res_map (\<lambda>g. gn_observations_prefix g @ ''/day_utc='' @ cd_day_utc p @ ''/connector_id='' @
         int_str (cd_connector_id p) @ ''/manifest.json'')
       (getObservationHistoryGeneration (js_or version (JStr ''v2''))))"

section \<open>Evidence\<close>

definition normalizeNonNegativeInteger :: "jsval \<Rightarrow> string \<Rightarrow> int res" where
  "normalizeNonNegativeInteger value fieldName =
     (let bad = Inl (JsError (''Invalid '' @ fieldName @ '': '' @ js_string value))
      in if is_nullish value \<or> (\<exists>b \<in> {True, False}. value = JBool b) then bad
         else if (case value of JStr s \<Rightarrow> js_trim s = [] | _ \<Rightarrow> False) then bad
         else case num_safe_integer (js_number value) of
             Some n \<Rightarrow> if 0 \<le> n then Inr n else bad
           | None \<Rightarrow> bad)"

text \<open>String(value || "").trim()\<close>

definition trimmed :: "jsval \<Rightarrow> string" where
  "trimmed v = js_trim (str_or_empty v)"

text \<open>Whether Date.parse reads that text; the text of a valid Date is always read back.\<close>

definition readable_time :: "jsval \<Rightarrow> bool" where
  "readable_time v = (case v of JDate (Some t) \<Rightarrow> True | _ \<Rightarrow> date_parse (trimmed v) \<noteq> None)"

definition counts_consistent :: "int \<Rightarrow> int \<Rightarrow> int \<Rightarrow> bool" where
  "counts_consistent rowCount fileCount totalBytes \<longleftrightarrow>
     (if rowCount = 0 then fileCount = 0 \<and> totalBytes = 0 else 0 < fileCount \<and> 0 < totalBytes)"

definition isValidConnectorHistoryGateEvidence :: "jsval \<Rightarrow> jsval \<Rightarrow> bool" where
  "isValidConnectorHistoryGateEvidence version row \<longleftrightarrow>
     js_truthy row \<and> jget row ''history_done'' = JBool True \<and>
     (case (canonicalObservationConnectorManifestKey (jget row ''day_utc'') (jget row ''connector_id'') version,
            normalizeNonNegativeInteger (jget row ''history_row_count'') ''history_row_count'',
            normalizeNonNegativeInteger (jget row ''history_file_count'') ''history_file_count'',
            normalizeNonNegativeInteger (jget row ''history_total_bytes'') ''history_total_bytes'',
            normalizePruneConnectorSourceIdentity row) of
        (Inr expectedKey, Inr rowCount, Inr fileCount, Inr totalBytes, Inr sourceIdentity) \<Rightarrow>
          trimmed (jget row ''history_manifest_key'') = expectedKey
          \<and> hash_shape (trimmed (jget row ''history_manifest_hash''))
          \<and> trimmed (jget row ''history_completed_at'') \<noteq> [] \<and> readable_time (jget row ''history_completed_at'')
          \<and> trimmed (jget row ''completion_source'') = ''prune_daily_phase_b''
          \<and> counts_consistent rowCount fileCount totalBytes
          \<and> id_row_count sourceIdentity = rowCount
      | _ \<Rightarrow> False)"

record completion_evidence =
  ce_pair :: connector_day
  ce_run_id :: "string option"
  ce_manifest_key :: string
  ce_manifest_hash :: string
  ce_row_count :: int
  ce_file_count :: int
  ce_total_bytes :: int
  ce_identity :: source_identity
  ce_completion_source :: string

definition normalizeConnectorGateCompletionEvidence :: "jsval \<Rightarrow> jsval \<Rightarrow> completion_evidence res" where
  "normalizeConnectorGateCompletionEvidence version evidence =
     res_bind (normalizeConnectorDayPair (jget evidence ''day_utc'') (jget evidence ''connector_id'')) (\<lambda>p.
     res_bind (canonicalObservationConnectorManifestKey (JStr (cd_day_utc p)) (JInt (cd_connector_id p)) version) (\<lambda>expectedKey.
     let manifestKey = trimmed (jget evidence ''history_manifest_key'');
         manifestHash = trimmed (jget evidence ''history_manifest_hash'');
         source = trimmed (jget evidence ''completion_source'')
     in if manifestKey \<noteq> expectedKey
        then Inl (JsError (''Connector gate manifest key is not canonical: '' @
          (if manifestKey = [] then ''(missing)'' else manifestKey)))
        else if \<not> hash_shape manifestHash
        then Inl (JsError ''Connector gate manifest hash must be a lowercase SHA-256 hex digest'')
        else if source \<noteq> ''prune_daily_phase_b''
        then Inl (JsError (''Invalid connector gate completion_source: '' @ (if source = [] then ''(missing)'' else source)))
        else
         res_bind (normalizeNonNegativeInteger (jget evidence ''history_row_count'') ''history_row_count'') (\<lambda>rowCount.
         res_bind (normalizeNonNegativeInteger (jget evidence ''history_file_count'') ''history_file_count'') (\<lambda>fileCount.
         res_bind (normalizeNonNegativeInteger (jget evidence ''history_total_bytes'') ''history_total_bytes'') (\<lambda>totalBytes.
         res_bind (normalizePruneConnectorSourceIdentity evidence) (\<lambda>sourceIdentity.
           if (rowCount = 0 \<and> (fileCount \<noteq> 0 \<or> totalBytes \<noteq> 0)) \<or> (0 < rowCount \<and> (fileCount = 0 \<or> totalBytes = 0))
           then Inl (JsError ''Connector gate row, file and byte counts are internally inconsistent'')
           else if id_row_count sourceIdentity \<noteq> rowCount
           then Inl (JsError ''Connector gate source identity row count must equal history_row_count'')
           else Inr \<lparr>ce_pair = p,
             ce_run_id = (let r = trimmed (jget evidence ''history_run_id'') in if r = [] then None else Some r),
             ce_manifest_key = manifestKey, ce_manifest_hash = manifestHash, ce_row_count = rowCount,
             ce_file_count = fileCount, ce_total_bytes = totalBytes, ce_identity = sourceIdentity,
             ce_completion_source = source\<rparr>))))))"

section \<open>The gate table\<close>

record gate_row =
  gt_day_utc :: string
  gt_connector_id :: int
  gt_history_done :: bool
  gt_run_id :: "string option"
  gt_manifest_key :: "string option"
  gt_manifest_hash :: "string option"
  gt_row_count :: "int option"
  gt_file_count :: "int option"
  gt_total_bytes :: "int option"
  gt_completed_at :: "int option"
  gt_source_hash :: "string option"
  gt_source_version :: "int option"
  gt_source_row_count :: "int option"
  gt_completion_source :: "string option"
  gt_updated_at :: int

definition is_gate_of :: "connector_day \<Rightarrow> gate_row \<Rightarrow> bool" where
  "is_gate_of p g \<longleftrightarrow> gt_day_utc g = cd_day_utc p \<and> gt_connector_id g = cd_connector_id p"

text \<open>insert ... on conflict (day_utc, connector_id) do update\<close>

definition upsert_gate :: "gate_row \<Rightarrow> gate_row list \<Rightarrow> gate_row list" where
  "upsert_gate g gates =
     (let here = is_gate_of \<lparr>cd_day_utc = gt_day_utc g, cd_connector_id = gt_connector_id g\<rparr>
      in if \<exists>h \<in> set gates. here h then List.map (\<lambda>h. if here h then g else h) gates else gates @ [g])"

definition open_gate :: "connector_day \<Rightarrow> int \<Rightarrow> gate_row" where
  "open_gate p now =
     \<lparr>gt_day_utc = cd_day_utc p, gt_connector_id = cd_connector_id p, gt_history_done = False, gt_run_id = None,
      gt_manifest_key = None, gt_manifest_hash = None, gt_row_count = None, gt_file_count = None,
      gt_total_bytes = None, gt_completed_at = None, gt_source_hash = None, gt_source_version = None,
      gt_source_row_count = None, gt_completion_source = None, gt_updated_at = now\<rparr>"

definition complete_gate :: "completion_evidence \<Rightarrow> int \<Rightarrow> gate_row" where
  "complete_gate e now =
     \<lparr>gt_day_utc = cd_day_utc (ce_pair e), gt_connector_id = cd_connector_id (ce_pair e), gt_history_done = True,
      gt_run_id = ce_run_id e, gt_manifest_key = Some (ce_manifest_key e), gt_manifest_hash = Some (ce_manifest_hash e),
      gt_row_count = Some (ce_row_count e), gt_file_count = Some (ce_file_count e),
      gt_total_bytes = Some (ce_total_bytes e), gt_completed_at = Some now,
      gt_source_hash = Some (id_hash (ce_identity e)), gt_source_version = Some (id_version (ce_identity e)),
      gt_source_row_count = Some (id_row_count (ce_identity e)), gt_completion_source = Some (ce_completion_source e),
      gt_updated_at = now\<rparr>"

definition setConnectorDayGateIncomplete ::
  "jsval \<Rightarrow> int \<Rightarrow> gate_row list \<Rightarrow> (connector_day \<times> gate_row list) res" where
  "setConnectorDayGateIncomplete pairInput now gates =
     res_map (\<lambda>p. (p, upsert_gate (open_gate p now) gates))
       (normalizeConnectorDayPair (jget pairInput ''day_utc'') (jget pairInput ''connector_id''))"

definition setConnectorDayGateComplete ::
  "jsval \<Rightarrow> jsval \<Rightarrow> int \<Rightarrow> gate_row list \<Rightarrow> (gate_row \<times> gate_row list) res" where
  "setConnectorDayGateComplete version evidenceInput now gates =
     res_map (\<lambda>e. (complete_gate e now, upsert_gate (complete_gate e now) gates))
       (normalizeConnectorGateCompletionEvidence version evidenceInput)"

text \<open>A row as the database client hands it to the program: 64 bit integers are texts, smaller ones
  are numbers, time stamps are dates.\<close>

definition bigint_column :: "int option \<Rightarrow> jsval" where
  "bigint_column v = (case v of None \<Rightarrow> Null | Some n \<Rightarrow> JStr (int_str n))"

definition date_column :: "int option \<Rightarrow> jsval" where
  "date_column v = (case v of None \<Rightarrow> Null | Some t \<Rightarrow> JDate (Some t))"

definition gate_object :: "gate_row \<Rightarrow> jsval" where
  "gate_object g =
     JObj [(''day_utc'', JStr (gt_day_utc g)), (''connector_id'', JInt (gt_connector_id g)),
       (''history_done'', JBool (gt_history_done g)), (''history_run_id'', str_or_null (gt_run_id g)),
       (''history_manifest_key'', str_or_null (gt_manifest_key g)),
       (''history_manifest_hash'', str_or_null (gt_manifest_hash g)),
       (''history_row_count'', bigint_column (gt_row_count g)), (''history_file_count'', int_or_null (gt_file_count g)),
       (''history_total_bytes'', bigint_column (gt_total_bytes g)),
       (''history_completed_at'', date_column (gt_completed_at g)),
       (''completion_source'', str_or_null (gt_completion_source g)),
       (''source_content_hash'', str_or_null (gt_source_hash g)),
       (''source_content_hash_contract_version'', int_or_null (gt_source_version g)),
       (''source_content_hash_row_count'', bigint_column (gt_source_row_count g))]"

section \<open>Lemmas on generations\<close>

text \<open>A key that starts with two prefixes lets one of them start with the other.\<close>

definition comparable :: "string \<Rightarrow> string \<Rightarrow> bool" where
  "comparable p q \<longleftrightarrow> take (length q) p = take (length p) q"

lemma starts_with_comparable: "starts_with k p \<Longrightarrow> starts_with k q \<Longrightarrow> comparable p q"
  unfolding starts_with_def comparable_def by (metis min.commute take_take)

lemma starts_with_shorter:
  assumes "starts_with k q" "starts_with q p"
  shows "starts_with k p"
proof -
  have "length p \<le> length q" using assms(2) unfolding starts_with_def by (metis length_take min.cobounded2 min.commute)
  then have "min (length p) (length q) = length p" by simp
  then have "take (length p) k = take (length p) (take (length q) k)" unfolding take_take by simp
  then show ?thesis using assms unfolding starts_with_def by metis
qed

definition domain_roots :: "generation \<Rightarrow> string list" where
  "domain_roots g = gn_timeseries_latest_key g #
     List.map (\<lambda>p. p @ ''/'') [gn_observations_prefix g, gn_timeseries_index_prefix g, gn_binding_index_prefix g,
       gn_observations_runs_prefix g, gn_core_prefix g, gn_backup_inventory_prefix g, gn_backup_state_prefix g]"

lemma key_in_domain_root:
  assumes "key_in_domain g k d"
  shows "(\<exists>p \<in> set (domain_roots g). starts_with k p)
    \<or> (d = ''packs'' \<and> starts_with k (gn_binding_pack_prefix g @ ''/''))"
proof (cases "d = ''latest''")
  case True
  then have "starts_with k (gn_timeseries_latest_key g)" using assms by (simp add: key_in_domain_def starts_with_def)
  then show ?thesis by (auto simp: domain_roots_def)
next
  case False
  then obtain p where p: "domain_prefix g d = Some p" "starts_with k (p @ ''/'')"
    using assms by (auto simp: key_in_domain_def split: option.splits)
  then show ?thesis by (auto simp: domain_prefix_def domain_roots_def split: if_splits)
qed

lemma roots_apart:
  "list_all (\<lambda>p. list_all (\<lambda>q. \<not> comparable p q) (domain_roots (generation_of ''v3''))) (domain_roots (generation_of ''v2''))"
  "list_all (\<lambda>p. \<not> comparable p (gn_binding_pack_prefix (generation_of ''v3'') @ ''/'')) (domain_roots (generation_of ''v2''))"
  "list_all (\<lambda>q. \<not> comparable (gn_binding_pack_prefix (generation_of ''v2'') @ ''/'') q) (domain_roots (generation_of ''v3''))"
  by code_simp+

lemma keys_apart:
  assumes "key_in_domain (generation_of ''v2'') k d" "key_in_domain (generation_of ''v3'') k e"
  shows False
proof -
  let ?p2 = "gn_binding_pack_prefix (generation_of ''v2'')" and ?p3 = "gn_binding_pack_prefix (generation_of ''v3'')"
  have pre: "starts_with k (?p2 @ ''/generation='')" if "starts_with k (?p3 @ ''/'')"
  proof -
    have "starts_with (?p3 @ ''/'') (?p2 @ ''/generation='')" by code_simp
    then show ?thesis using that starts_with_shorter by blast
  qed
  have "gn_version (generation_of ''v2'') = ''v2''" "domain_prefix (generation_of ''v2'') ''packs'' = Some ?p2"
    by (simp_all add: generation_of_def Let_def domain_prefix_def)
  then have "\<not> (d = ''packs'' \<and> starts_with k (?p2 @ ''/generation=''))"
    using assms(1) by (auto simp: key_in_domain_def)
  with pre show False
    using key_in_domain_root [OF assms(1)] key_in_domain_root [OF assms(2)] roots_apart starts_with_comparable
    by (fastforce simp: list_all_iff)
qed

lemma generation_cases:
  assumes "assertObservationHistoryGenerationKey g (JStr k) d = Inr k'"
  shows "k' = k \<and> key_in_domain g k d \<and> (g = generation_of ''v2'' \<or> g = generation_of ''v3'')"
  using assms by (auto simp: assertObservationHistoryGenerationKey_def assertObservationHistoryGeneration_def
      getObservationHistoryGeneration_def res_simps split: if_splits)

text \<open>The keys of the two storage generations never coincide: a key that was accepted for one
  generation, in whatever domain, is not accepted for the other in any domain, and an accepted key
  has no empty and no dot segment.\<close>

lemma generation_keys_apart:
  assumes "assertObservationHistoryGenerationKey g (JStr k) d = Inr k1"
    "assertObservationHistoryGenerationKey h (JStr k) e = Inr k2"
  shows "g = h \<and> k1 = k \<and> list_all safe_part (js_split (CHR ''/'') k)"
  using generation_cases [OF assms(1)] generation_cases [OF assms(2)] keys_apart
  by (auto simp: key_in_domain_def)

section \<open>Lemmas on evidence\<close>

lemma js_trim_nonempty: "c \<in> set s \<Longrightarrow> \<not> is_ws c \<Longrightarrow> js_trim s \<noteq> []"
proof
  assume c: "c \<in> set s" "\<not> is_ws c" and "js_trim s = []"
  then have "\<forall>x \<in> set (dropWhile is_ws s). is_ws x" by (auto simp: js_trim_def dropWhile_eq_Nil_conv)
  moreover have "c \<in> set (dropWhile is_ws s)"
    using c by (metis UnE set_append set_takeWhileD takeWhile_dropWhile_id)
  ultimately show False using c(2) by blast
qed

lemma trimmed_simps [simp]:
  "trimmed (JStr s) = js_trim s" "trimmed Null = []" "trimmed Undef = []"
  by (simp_all add: trimmed_def js_trim_def)

lemma trimmed_twice [simp]: "js_trim (trimmed v) = trimmed v"
  by (simp add: trimmed_def)

lemma number_of_digits: "0 \<le> n \<Longrightarrow> n \<le> max_safe_integer \<Longrightarrow> js_number (JStr (int_str n)) = Fin (of_int n)"
  by (simp add: int_str_def parse_nat_str max_safe_integer_def)

lemma safe_of_int: "0 \<le> n \<Longrightarrow> n \<le> max_safe_integer \<Longrightarrow> num_safe_integer (Fin (of_int n)) = Some n"
  by (simp add: num_safe_integer_def)

lemma nonneg_range: "normalizeNonNegativeInteger v name = Inr n \<Longrightarrow> 0 \<le> n \<and> n \<le> max_safe_integer"
  by (auto simp: normalizeNonNegativeInteger_def Let_def split: if_splits option.splits dest: safe_integer_range)

lemma nonneg_bigint:
  assumes "0 \<le> n" "n \<le> max_safe_integer"
  shows "normalizeNonNegativeInteger (bigint_column (Some n)) name = Inr n"
proof -
  have "js_trim (int_str n) \<noteq> []"
    using assms by (simp add: int_str_def js_trim_digits nat_str_digits)
  then show ?thesis
    using assms number_of_digits [OF assms]
    by (simp add: normalizeNonNegativeInteger_def Let_def bigint_column_def is_nullish_def safe_of_int)
qed

lemma nonneg_int:
  assumes "0 \<le> n" "n \<le> max_safe_integer"
  shows "normalizeNonNegativeInteger (int_or_null (Some n)) name = Inr n"
  using assms by (simp add: normalizeNonNegativeInteger_def int_or_null_def Let_def is_nullish_def safe_of_int)

lemma day_shape_trim:
  assumes "of_shape p s" "list_all (\<lambda>c. \<not> is_ws c) p"
  shows "js_trim s = s"
proof (rule js_trim_id)
  fix c assume "c \<in> set s"
  moreover have "list_all (\<lambda>c. \<not> is_ws c) s"
    using assms unfolding of_shape_def
    by (induction rule: list_all2_induct) (auto simp: digit_not_ws split: if_splits)
  ultimately show "\<not> is_ws c" by (simp add: list_all_iff)
qed

lemma pair_facts:
  assumes "normalizeConnectorDayPair v w = Inr p"
  shows "real_day (cd_day_utc p) \<and> 0 < cd_connector_id p \<and> cd_connector_id p \<le> max_safe_integer"
  using assms by (auto simp: normalizeConnectorDayPair_def Let_def split: option.splits if_splits dest: safe_integer_range)

lemma real_day_trim: "real_day d \<Longrightarrow> js_trim d = d"
  unfolding real_day_def by (intro day_shape_trim [of "''dddd-dd-dd''"]) (simp_all add: is_ws_def)

lemma pair_again:
  assumes "real_day d" "0 < n" "n \<le> max_safe_integer"
  shows "normalizeConnectorDayPair (JStr d) (JInt n) = Inr \<lparr>cd_day_utc = d, cd_connector_id = n\<rparr>"
  using assms by (simp add: normalizeConnectorDayPair_def real_day_trim safe_of_int)

lemma manifest_key_again:
  "normalizeConnectorDayPair v w = Inr p \<Longrightarrow>
     canonicalObservationConnectorManifestKey (JStr (cd_day_utc p)) (JInt (cd_connector_id p)) version =
     canonicalObservationConnectorManifestKey v w version"
  using pair_facts by (simp add: canonicalObservationConnectorManifestKey_def pair_again)

lemma identity_facts:
  assumes "normalizePruneConnectorSourceIdentity v = Inr i"
  shows "hash_shape (id_hash i) \<and> id_version i = PRUNE_CONTRACT_VERSION \<and> 0 < id_row_count i
    \<and> id_row_count i \<le> max_safe_integer"
  using assms by (auto simp: normalizePruneConnectorSourceIdentity_def split: if_splits jsval.splits option.splits
      dest: safe_integer_range)

text \<open>An identity that is stored in columns, as numbers or as texts, is read back.\<close>

lemma identity_again:
  assumes "jget v ''source_content_hash'' = JStr (id_hash i)"
    "jget v ''source_content_hash_contract_version'' = JInt (id_version i)"
    "js_number (jget v ''source_content_hash_row_count'') = Fin (of_int (id_row_count i))"
    "plain_object v" "hash_shape (id_hash i)" "id_version i = PRUNE_CONTRACT_VERSION" "0 < id_row_count i"
    "id_row_count i \<le> max_safe_integer"
  shows "normalizePruneConnectorSourceIdentity v = Inr i"
proof -
  have "num_safe_integer (js_number (jget v ''source_content_hash_row_count'')) = Some (id_row_count i)"
    using assms(3,7,8) by (simp add: safe_of_int)
  moreover have "num_safe_integer (js_number (jget v ''source_content_hash_contract_version'')) = Some PRUNE_CONTRACT_VERSION"
    unfolding assms(2,6) by (simp add: PRUNE_CONTRACT_VERSION_def num_safe_integer_def max_safe_integer_def)
  ultimately show ?thesis
    using assms by (simp add: normalizePruneConnectorSourceIdentity_def)
qed

lemma evidence_facts:
  assumes "normalizeConnectorGateCompletionEvidence version v = Inr e"
  shows "normalizeConnectorDayPair (jget v ''day_utc'') (jget v ''connector_id'') = Inr (ce_pair e)
    \<and> canonicalObservationConnectorManifestKey (JStr (cd_day_utc (ce_pair e))) (JInt (cd_connector_id (ce_pair e))) version
        = Inr (ce_manifest_key e)
    \<and> js_trim (ce_manifest_key e) = ce_manifest_key e \<and> js_trim (ce_manifest_hash e) = ce_manifest_hash e
    \<and> hash_shape (ce_manifest_hash e) \<and> ce_completion_source e = ''prune_daily_phase_b''
    \<and> normalizePruneConnectorSourceIdentity v = Inr (ce_identity e) \<and> id_row_count (ce_identity e) = ce_row_count e
    \<and> counts_consistent (ce_row_count e) (ce_file_count e) (ce_total_bytes e)
    \<and> ce_row_count e \<in> {0..max_safe_integer} \<and> ce_file_count e \<in> {0..max_safe_integer}
    \<and> ce_total_bytes e \<in> {0..max_safe_integer}"
proof -
  obtain p k where pk: "normalizeConnectorDayPair (jget v ''day_utc'') (jget v ''connector_id'') = Inr p"
      "canonicalObservationConnectorManifestKey (JStr (cd_day_utc p)) (JInt (cd_connector_id p)) version = Inr k"
    and r: "res_bind (normalizeNonNegativeInteger (jget v ''history_row_count'') ''history_row_count'') (\<lambda>rowCount.
        res_bind (normalizeNonNegativeInteger (jget v ''history_file_count'') ''history_file_count'') (\<lambda>fileCount.
        res_bind (normalizeNonNegativeInteger (jget v ''history_total_bytes'') ''history_total_bytes'') (\<lambda>totalBytes.
        res_bind (normalizePruneConnectorSourceIdentity v) (\<lambda>i.
          if (rowCount = 0 \<and> (fileCount \<noteq> 0 \<or> totalBytes \<noteq> 0)) \<or> (0 < rowCount \<and> (fileCount = 0 \<or> totalBytes = 0))
          then Inl (JsError ''Connector gate row, file and byte counts are internally inconsistent'')
          else if id_row_count i \<noteq> rowCount
          then Inl (JsError ''Connector gate source identity row count must equal history_row_count'')
          else Inr \<lparr>ce_pair = p,
             ce_run_id = (let r = trimmed (jget v ''history_run_id'') in if r = [] then None else Some r),
             ce_manifest_key = k, ce_manifest_hash = trimmed (jget v ''history_manifest_hash''), ce_row_count = rowCount,
             ce_file_count = fileCount, ce_total_bytes = totalBytes, ce_identity = i,
             ce_completion_source = ''prune_daily_phase_b''\<rparr>)))) = Inr e"
    and t: "trimmed (jget v ''history_manifest_key'') = k" "hash_shape (trimmed (jget v ''history_manifest_hash''))"
    using assms unfolding normalizeConnectorGateCompletionEvidence_def res_bind_Inr
    by (elim exE conjE) (auto simp only: Let_def res_bind_Inr split: if_splits)
  from r obtain n f b i where c: "normalizeNonNegativeInteger (jget v ''history_row_count'') ''history_row_count'' = Inr n"
      "normalizeNonNegativeInteger (jget v ''history_file_count'') ''history_file_count'' = Inr f"
      "normalizeNonNegativeInteger (jget v ''history_total_bytes'') ''history_total_bytes'' = Inr b"
      "normalizePruneConnectorSourceIdentity v = Inr i"
    and l: "(if (n = 0 \<and> (f \<noteq> 0 \<or> b \<noteq> 0)) \<or> (0 < n \<and> (f = 0 \<or> b = 0))
          then Inl (JsError ''Connector gate row, file and byte counts are internally inconsistent'')
          else if id_row_count i \<noteq> n
          then Inl (JsError ''Connector gate source identity row count must equal history_row_count'')
          else Inr \<lparr>ce_pair = p,
             ce_run_id = (let r = trimmed (jget v ''history_run_id'') in if r = [] then None else Some r),
             ce_manifest_key = k, ce_manifest_hash = trimmed (jget v ''history_manifest_hash''), ce_row_count = n,
             ce_file_count = f, ce_total_bytes = b, ce_identity = i,
             ce_completion_source = ''prune_daily_phase_b''\<rparr>) = Inr e"
    unfolding res_bind_Inr by (elim exE conjE)
  have ok: "\<not> ((n = 0 \<and> (f \<noteq> 0 \<or> b \<noteq> 0)) \<or> (0 < n \<and> (f = 0 \<or> b = 0)))" "id_row_count i = n"
    using l by (auto split: if_splits)
  then have e: "ce_pair e = p" "ce_manifest_key e = k" "ce_manifest_hash e = trimmed (jget v ''history_manifest_hash'')"
    "ce_row_count e = n" "ce_file_count e = f" "ce_total_bytes e = b" "ce_identity e = i"
    "ce_completion_source e = ''prune_daily_phase_b''"
    using l by auto
  have rng: "n \<in> {0..max_safe_integer}" "f \<in> {0..max_safe_integer}" "b \<in> {0..max_safe_integer}"
    using c nonneg_range by (metis atLeastAtMost_iff)+
  then have "counts_consistent n f b" using ok(1) by (auto simp: counts_consistent_def)
  moreover have "js_trim k = k" unfolding t(1) [symmetric] by simp
  ultimately show ?thesis unfolding e using pk c ok(2) t(2) rng by simp
qed

lemma date_text: "trimmed (JDate (Some t)) \<noteq> []"
proof -
  obtain y m d where "civil_of_day (t div MS_DAY) = (y, m, d)" by (cases "civil_of_day (t div MS_DAY)")
  then have "CHR ''G'' \<in> set (date_str t)" by (simp add: date_str_def Let_def)
  moreover have "\<not> is_ws (CHR ''G'')" by (simp add: is_ws_def)
  ultimately show ?thesis by (simp add: trimmed_def str_or_empty_def js_or_def js_trim_nonempty)
qed

lemma complete_gate_valid:
  assumes "normalizeConnectorGateCompletionEvidence version v = Inr e"
  shows "isValidConnectorHistoryGateEvidence version (gate_object (complete_gate e now))
    \<and> normalizePruneConnectorSourceIdentity (gate_object (complete_gate e now)) = Inr (ce_identity e)"
proof -
  note f = evidence_facts [OF assms]
  let ?o = "gate_object (complete_gate e now)"
  have idn: "normalizePruneConnectorSourceIdentity ?o = Inr (ce_identity e)"
    by (rule identity_again) (use f identity_facts [of v "ce_identity e"] number_of_digits [of "id_row_count (ce_identity e)"]
      in \<open>simp_all add: gate_object_def complete_gate_def str_or_null_def int_or_null_def bigint_column_def\<close>)
  have src: "js_trim ''prune_daily_phase_b'' = ''prune_daily_phase_b''" by code_simp
  have "canonicalObservationConnectorManifestKey (jget ?o ''day_utc'') (jget ?o ''connector_id'') version = Inr (ce_manifest_key e)"
    using f by (simp add: gate_object_def complete_gate_def)
  moreover have "normalizeNonNegativeInteger (jget ?o ''history_row_count'') ''history_row_count'' = Inr (ce_row_count e)"
    "normalizeNonNegativeInteger (jget ?o ''history_total_bytes'') ''history_total_bytes'' = Inr (ce_total_bytes e)"
    "normalizeNonNegativeInteger (jget ?o ''history_file_count'') ''history_file_count'' = Inr (ce_file_count e)"
    using f by (simp_all add: gate_object_def complete_gate_def nonneg_bigint nonneg_int)
  moreover have "jget ?o ''history_done'' = JBool True" "js_truthy ?o"
    "trimmed (jget ?o ''history_manifest_key'') = ce_manifest_key e" "trimmed (jget ?o ''history_manifest_hash'') = ce_manifest_hash e"
    "trimmed (jget ?o ''history_completed_at'') \<noteq> []" "readable_time (jget ?o ''history_completed_at'')"
    "trimmed (jget ?o ''completion_source'') = ''prune_daily_phase_b''"
    using f date_text by (simp_all add: gate_object_def complete_gate_def str_or_null_def date_column_def readable_time_def src)
  ultimately show ?thesis using f idn by (simp add: isValidConnectorHistoryGateEvidence_def)
qed

lemma open_gate_invalid: "\<not> isValidConnectorHistoryGateEvidence version (gate_object (open_gate p now))"
  by (simp add: isValidConnectorHistoryGateEvidence_def gate_object_def open_gate_def)

lemma upsert_gate_facts:
  assumes "is_gate_of p g"
  shows "g \<in> set (upsert_gate g gates)" "\<forall>h \<in> set (upsert_gate g gates). is_gate_of p h \<longrightarrow> h = g"
    "filter (\<lambda>h. \<not> is_gate_of p h) (upsert_gate g gates) = filter (\<lambda>h. \<not> is_gate_of p h) gates"
proof -
  have p: "\<lparr>cd_day_utc = gt_day_utc g, cd_connector_id = gt_connector_id g\<rparr> = p"
    using assms by (simp add: is_gate_of_def)
  have m: "filter (\<lambda>h. \<not> is_gate_of p h) (List.map (\<lambda>h. if is_gate_of p h then g else h) gates) =
      filter (\<lambda>h. \<not> is_gate_of p h) gates"
    using assms by (induction gates) auto
  show "g \<in> set (upsert_gate g gates)" "\<forall>h \<in> set (upsert_gate g gates). is_gate_of p h \<longrightarrow> h = g"
    "filter (\<lambda>h. \<not> is_gate_of p h) (upsert_gate g gates) = filter (\<lambda>h. \<not> is_gate_of p h) gates"
    using assms m by (auto simp: upsert_gate_def p Let_def)
qed

text \<open>C11: evidence that was accepted for completing the gate of a connector day is valid when the row
  is read back, with the same source identity; the row is the only one of its connector day, the others
  are untouched, and reopening the gate makes it invalid again.\<close>

theorem gate_evidence_roundtrip:
  assumes "setConnectorDayGateComplete version evidence now gates = Inr (g, gates')"
    "p = \<lparr>cd_day_utc = gt_day_utc g, cd_connector_id = gt_connector_id g\<rparr>"
  shows "g \<in> set gates' \<and> isValidConnectorHistoryGateEvidence version (gate_object g)
    \<and> normalizePruneConnectorSourceIdentity (gate_object g) = normalizePruneConnectorSourceIdentity evidence
    \<and> (\<forall>h \<in> set gates'. is_gate_of p h \<longrightarrow> h = g)
    \<and> filter (\<lambda>h. \<not> is_gate_of p h) gates' = filter (\<lambda>h. \<not> is_gate_of p h) gates
    \<and> (\<exists>gates''. setConnectorDayGateIncomplete (gate_object g) later gates' = Inr (p, gates'')
        \<and> (\<forall>h \<in> set gates''. is_gate_of p h \<longrightarrow> \<not> isValidConnectorHistoryGateEvidence version (gate_object h)))"
proof -
  obtain e where e: "normalizeConnectorGateCompletionEvidence version evidence = Inr e" "g = complete_gate e now"
    "gates' = upsert_gate g gates"
    using assms(1) by (auto simp: setConnectorDayGateComplete_def res_simps)
  note f = evidence_facts [OF e(1)]
  have p: "is_gate_of p g" by (simp add: assms(2) is_gate_of_def)
  have pe: "ce_pair e = p" using e(2) assms(2) by (simp add: complete_gate_def)
  have "normalizeConnectorDayPair (jget (gate_object g) ''day_utc'') (jget (gate_object g) ''connector_id'') = Inr p"
    using f pair_facts [of "jget evidence ''day_utc''" "jget evidence ''connector_id''" p] pe
    by (simp add: gate_object_def assms(2) pair_again)
  then have "setConnectorDayGateIncomplete (gate_object g) later gates' = Inr (p, upsert_gate (open_gate p later) gates')"
    by (simp add: setConnectorDayGateIncomplete_def)
  moreover have "is_gate_of p (open_gate p later)" by (simp add: is_gate_of_def open_gate_def)
  ultimately show ?thesis
    using upsert_gate_facts [OF p] complete_gate_valid [OF e(1), of now] f e(2,3) open_gate_invalid
      upsert_gate_facts(2) [of p "open_gate p later" gates'] by auto
qed

definition sample_evidence :: jsval where
  "sample_evidence = JObj [(''day_utc'', JStr ''2024-05-01''), (''connector_id'', JInt 3), (''history_run_id'', JStr ''run-1''),
     (''history_manifest_key'', JStr ''history/v2/observations/day_utc=2024-05-01/connector_id=3/manifest.json''),
     (''history_manifest_hash'', JStr (replicate 64 (CHR ''a''))), (''history_row_count'', JInt 2),
     (''history_file_count'', JInt 1), (''history_total_bytes'', JInt 900), (''completion_source'', JStr ''prune_daily_phase_b''),
     (''source_content_hash'', JStr (replicate 64 (CHR ''b''))), (''source_content_hash_contract_version'', JInt 1),
     (''source_content_hash_row_count'', JInt 2)]"

theorem gate_evidence_roundtrip_witness:
  "\<exists>g gates'. setConnectorDayGateComplete Undef sample_evidence 1714600000000 [] = Inr (g, gates')
    \<and> isValidConnectorHistoryGateEvidence Undef (gate_object g)"
proof -
  have "is_ok (setConnectorDayGateComplete Undef sample_evidence 1714600000000 [])" by code_simp
  then obtain g gates' where s: "setConnectorDayGateComplete Undef sample_evidence 1714600000000 [] = Inr (g, gates')"
    unfolding is_ok_iff by auto
  from gate_evidence_roundtrip [OF s refl] s show ?thesis by blast
qed

end
