(* ===== verification/PruneDeletion.thy ===== *)
theory PruneDeletion
  imports Transaction ConnectorGate
begin

text \<open>
  workers/uk_aq_prune_daily/source_identity_deletion.mjs and deletion_attempt_state.mjs: the one transaction that
  deletes the observations of a connector day from the ingest database, after it has
  compared the evidence of the archived copy with the rows that are there. The tables are lists of rows. The SQL
  function uk_aq_phase_b_history_rows_v2, which gives the canonical rows of a connector in a window, is not part of
  the repository and is a parameter, as are SHA-256, the time of the database, the environment variable with the
  storage generation, and the schedule of failing statements. Instants have whole milliseconds.
\<close>

section \<open>Tables\<close>

record observation =
  ob_connector_id :: int
  ob_timeseries_id :: int
  ob_observed_at :: int
  ob_value :: jsnum
  ob_status :: "string option"

record candidate_row =
  hc_day_utc :: string
  hc_connector_id :: int
  hc_status :: string
  hc_run_id :: "string option"
  hc_last_error :: "string option"
  hc_manifest_key :: "string option"
  hc_row_count :: "int option"
  hc_file_count :: "int option"
  hc_total_bytes :: "int option"
  hc_completed_at :: "int option"
  hc_source_hash :: "string option"
  hc_source_version :: "int option"
  hc_source_row_count :: "int option"
  hc_resume_timeseries_id :: "int option"
  hc_resume_observed_at :: "int option"
  hc_resume_part_index :: int
  hc_resume_row_count :: int
  hc_resume_parts :: jsval
  hc_updated_at :: int

record ingest_db =
  pg_observations :: "observation list"
  pg_candidates :: "candidate_row list"
  pg_gates :: "gate_row list"

text \<open>A row of uk_aq_phase_b_history_rows_v2, and the object the driver makes of it.\<close>

record history_row =
  hr_connector_id :: int
  hr_station_id :: "int option"
  hr_timeseries_id :: int
  hr_pollutant_code :: string
  hr_observed_at :: int
  hr_value :: jsnum
  hr_status :: "string option"

definition history_object :: "history_row \<Rightarrow> jsval" where
  "history_object r =
     JObj [(''connector_id'', JInt (hr_connector_id r)), (''station_id'', int_or_null (hr_station_id r)),
       (''timeseries_id'', JInt (hr_timeseries_id r)), (''pollutant_code'', JStr (hr_pollutant_code r)),
       (''observed_at_utc'', JDate (Some (hr_observed_at r))), (''value'', JNum (hr_value r)),
       (''status'', str_or_null (hr_status r))]"

record prune_env =
  en_version :: jsval
  en_sha :: "string \<Rightarrow> string"
  en_canonical :: "observation list \<Rightarrow> int \<Rightarrow> int \<Rightarrow> int \<Rightarrow> history_row list"
  en_faults :: faults
  en_now :: int

section \<open>Requests\<close>

definition FIRST_DELETE_READY :: string where "FIRST_DELETE_READY = ''PRUNE_FIRST_DELETE_READY:v1''"
definition FIRST_DELETE_CONSUMED :: string where "FIRST_DELETE_CONSUMED = ''PRUNE_FIRST_DELETE_CONSUMED:''"

definition TRANSACTION_CONFLICT_CODES :: "string list" where
  "TRANSACTION_CONFLICT_CODES = [''40001'', ''40P01'']"

text \<open>A connector day with its first instant and the first instant after it.\<close>

record day_pair =
  dp_day :: connector_day
  dp_dayStart :: int
  dp_dayEnd :: int

definition normalizePair :: "jsval \<Rightarrow> jsval \<Rightarrow> day_pair res" where
  "normalizePair dayUtcInput connectorIdInput =
     (let dayUtc = take 10 (str_or_empty dayUtcInput);
          bad = Inl (JsError ''Invalid connector-day deletion identity'')
      in if \<not> real_day dayUtc then bad
         else case (date_parse (dayUtc @ ''T00:00:00.000Z''), num_safe_integer (js_number connectorIdInput)) of
             (Some t, Some n) \<Rightarrow>
               if 0 < n then Inr \<lparr>dp_day = \<lparr>cd_day_utc = dayUtc, cd_connector_id = n\<rparr>, dp_dayStart = t,
                 dp_dayEnd = t + 24 * MS_HOUR\<rparr>
               else bad
           | _ \<Rightarrow> bad)"

text \<open>BigInt(value)\<close>

definition radix_int :: "int \<Rightarrow> string \<Rightarrow> int res" where
  "radix_int b ds =
     (if ds = [] \<or> list_ex (\<lambda>c. b \<le> radix_digit c) ds then Inl SyntaxError
      else Inr (foldl (\<lambda>a c. b * a + radix_digit c) 0 ds))"

definition read_bigint :: "string \<Rightarrow> int res" where
  "read_bigint str =
     (let s = js_trim str in
      if s = [] then Inr 0
      else if List.member [''0x'', ''0X''] (take 2 s) then radix_int 16 (drop 2 s)
      else if List.member [''0o'', ''0O''] (take 2 s) then radix_int 8 (drop 2 s)
      else if List.member [''0b'', ''0B''] (take 2 s) then radix_int 2 (drop 2 s)
      else if hd s = CHR ''-'' then res_map uminus (radix_int 10 (tl s))
      else if hd s = CHR ''+'' then radix_int 10 (tl s)
      else radix_int 10 s)"

fun to_bigint :: "jsval \<Rightarrow> int res" where
  "to_bigint (JBool b) = Inr (if b then 1 else 0)"
| "to_bigint (JNum n) = (case num_integer n of None \<Rightarrow> Inl RangeError | Some k \<Rightarrow> Inr k)"
| "to_bigint (JStr s) = read_bigint s"
| "to_bigint (JDate (Some t)) = Inr t"
| "to_bigint (JDate None) = Inl RangeError"
| "to_bigint Undef = Inl TypeError"
| "to_bigint Null = Inl TypeError"
| "to_bigint v = read_bigint (js_string v)"

text \<open>A bucket as it is given and as it is used: a count is read to a big integer once and kept as one.\<close>

datatype count_input = Counted int | Given jsval

record raw_bucket =
  rb_connector_id :: jsval
  rb_hour_start :: jsval
  rb_observation_count :: count_input

record bucket =
  bk_connector_id :: int
  bk_hour :: int
  bk_count :: int

definition raw_of :: "jsval \<Rightarrow> raw_bucket" where
  "raw_of v = \<lparr>rb_connector_id = jget v ''connector_id'', rb_hour_start = jget v ''hour_start'',
     rb_observation_count = Given (jget v ''observation_count'')\<rparr>"

definition raw_again :: "bucket \<Rightarrow> raw_bucket" where
  "raw_again b = \<lparr>rb_connector_id = JInt (bk_connector_id b), rb_hour_start = JStr (to_iso (bk_hour b)),
     rb_observation_count = Counted (bk_count b)\<rparr>"

definition count_of :: "count_input \<Rightarrow> int res" where
  "count_of c = (case c of Counted n \<Rightarrow> Inr n | Given v \<Rightarrow> to_bigint (js_coalesce v (JInt (- 1))))"

definition normalizeBucket :: "day_pair \<Rightarrow> raw_bucket \<Rightarrow> bucket res" where
  "normalizeBucket pair b =
     (let bad = Inl (JsError ''Invalid connector-day deletion bucket''); text = str_or_empty (rb_hour_start b)
      in res_bind (count_of (rb_observation_count b)) (\<lambda>observationCount.
         if js_number (rb_connector_id b) \<noteq> Fin (of_int (cd_connector_id (dp_day pair))) then bad
         else case date_parse text of
             None \<Rightarrow> bad
           | Some t \<Rightarrow>
               if to_iso t = text \<and> take 10 (to_iso t) = cd_day_utc (dp_day pair) \<and> t mod MS_HOUR = 0
                  \<and> 0 \<le> observationCount
               then Inr \<lparr>bk_connector_id = cd_connector_id (dp_day pair), bk_hour = t, bk_count = observationCount\<rparr>
               else bad))"

fun array_of :: "jsval \<Rightarrow> jsval list" where
  "array_of (JArr vs) = vs"
| "array_of _ = []"

record day_group =
  dg_pair :: day_pair
  dg_buckets :: "bucket list"

definition put_bucket :: "day_pair \<Rightarrow> bucket \<Rightarrow> (string, day_group) jsmap \<Rightarrow> (string, day_group) jsmap" where
  "put_bucket pair b groups =
     (let key = cd_day_utc (dp_day pair) @ ''|'' @ int_str (cd_connector_id (dp_day pair));
          group = (case jm_get groups key of None \<Rightarrow> \<lparr>dg_pair = pair, dg_buckets = []\<rparr> | Some g \<Rightarrow> g)
      in jm_set key (group\<lparr>dg_buckets := dg_buckets group @ [b]\<rparr>) groups)"

definition add_bucket :: "jsval \<Rightarrow> (string, day_group) jsmap \<Rightarrow> (string, day_group) jsmap res" where
  "add_bucket v groups =
     (let raw = raw_of v in
      res_bind (normalizePair (JStr (take 10 (str_or_empty (rb_hour_start raw)))) (rb_connector_id raw)) (\<lambda>pair.
      res_map (\<lambda>b. put_bucket pair b groups) (normalizeBucket pair raw)))"

definition groupBucketsByConnectorDay :: "jsval \<Rightarrow> day_group list res" where
  "groupBucketsByConnectorDay buckets =
     res_map (\<lambda>m. sort_key (\<lambda>g. (collation_key (cd_day_utc (dp_day (dg_pair g))), cd_connector_id (dp_day (dg_pair g))))
         (jm_values m))
       (res_fold add_bucket (array_of buckets) jm_empty)"

section \<open>Evidence\<close>

definition identityPresent :: "jsval \<Rightarrow> bool" where
  "identityPresent row \<longleftrightarrow> js_truthy (jget row ''source_content_hash'')
     \<and> \<not> is_nullish (jget row ''source_content_hash_contract_version'')
     \<and> \<not> is_nullish (jget row ''source_content_hash_row_count'')"

definition is_candidate_of :: "connector_day \<Rightarrow> candidate_row \<Rightarrow> bool" where
  "is_candidate_of p c \<longleftrightarrow> hc_day_utc c = cd_day_utc p \<and> hc_connector_id c = cd_connector_id p"

definition pending_candidate :: "string \<Rightarrow> int \<Rightarrow> candidate_row \<Rightarrow> candidate_row" where
  "pending_candidate failureReason now c =
     c\<lparr>hc_status := ''pending'', hc_run_id := None, hc_last_error := Some failureReason, hc_manifest_key := None,
       hc_row_count := None, hc_file_count := None, hc_total_bytes := None, hc_completed_at := None,
       hc_source_hash := None, hc_source_version := None, hc_source_row_count := None,
       hc_resume_timeseries_id := None, hc_resume_observed_at := None, hc_resume_part_index := 0,
       hc_resume_row_count := 0, hc_resume_parts := JArr [], hc_updated_at := now\<rparr>"

text \<open>The two statements of invalidateConnectorDayEvidence.\<close>

definition invalidate_candidates :: "connector_day \<Rightarrow> string \<Rightarrow> int \<Rightarrow> ingest_db \<Rightarrow> ingest_db" where
  "invalidate_candidates p failureReason now db =
     db\<lparr>pg_candidates := List.map (\<lambda>c. if is_candidate_of p c then pending_candidate failureReason now c else c)
       (pg_candidates db)\<rparr>"

definition invalidate_gates :: "connector_day \<Rightarrow> int \<Rightarrow> ingest_db \<Rightarrow> ingest_db" where
  "invalidate_gates p now db =
     db\<lparr>pg_gates := List.map (\<lambda>g. if is_gate_of p g then open_gate p now else g) (pg_gates db)\<rparr>"

definition candidate_object :: "candidate_row \<Rightarrow> jsval" where
  "candidate_object c =
     JObj [(''day_utc'', JStr (hc_day_utc c)), (''connector_id'', JInt (hc_connector_id c)),
       (''status'', JStr (hc_status c)), (''run_id'', str_or_null (hc_run_id c)),
       (''last_error'', str_or_null (hc_last_error c)), (''manifest_key'', str_or_null (hc_manifest_key c)),
       (''source_content_hash'', str_or_null (hc_source_hash c)),
       (''source_content_hash_contract_version'', int_or_null (hc_source_version c)),
       (''source_content_hash_row_count'', bigint_column (hc_source_row_count c))]"

text \<open>rows[0] || null\<close>

definition first_row :: "('a \<Rightarrow> jsval) \<Rightarrow> 'a list \<Rightarrow> jsval" where
  "first_row f rows = (case rows of [] \<Rightarrow> Null | r # _ \<Rightarrow> f r)"

definition select_candidate :: "connector_day \<Rightarrow> ingest_db \<Rightarrow> jsval" where
  "select_candidate p db = first_row candidate_object (filter (is_candidate_of p) (pg_candidates db))"

definition select_gate :: "connector_day \<Rightarrow> ingest_db \<Rightarrow> jsval" where
  "select_gate p db = first_row gate_object (filter (is_gate_of p) (pg_gates db))"

text \<open>Whether the pair of a row is the requested one; a row whose pair cannot be read is not.\<close>

definition evidencePairMatches :: "jsval \<Rightarrow> connector_day \<Rightarrow> bool" where
  "evidencePairMatches row p \<longleftrightarrow> normalizeConnectorDayPair (jget row ''day_utc'') (jget row ''connector_id'') = Inr p"

record evidence_verdict =
  ev_failure :: "string option"
  ev_preserve :: bool
  ev_candidate :: "source_identity option"
  ev_gate :: "source_identity option"

definition unfit :: "string \<Rightarrow> bool \<Rightarrow> evidence_verdict" where
  "unfit reason preserve = \<lparr>ev_failure = Some reason, ev_preserve = preserve, ev_candidate = None, ev_gate = None\<rparr>"

definition classifyLockedEvidence :: "jsval \<Rightarrow> jsval \<Rightarrow> jsval \<Rightarrow> connector_day \<Rightarrow> evidence_verdict" where
  "classifyLockedEvidence version candidate gate p =
     (let lastError = jget candidate ''last_error''; runId = jget candidate ''run_id'' in
      if \<not> js_truthy candidate then unfit ''candidate_evidence_missing'' False
      else if \<not> js_truthy gate then unfit ''gate_evidence_missing'' False
      else if \<not> evidencePairMatches candidate p then unfit ''candidate_evidence_invalid'' True
      else if \<not> evidencePairMatches gate p then unfit ''gate_evidence_invalid'' True
      else if jget candidate ''status'' \<noteq> JStr ''complete'' then unfit ''candidate_not_complete'' False
      else if starts_with (str_or_empty lastError) FIRST_DELETE_CONSUMED
      then unfit ''first_deletion_already_committed'' True
      else if lastError \<noteq> JStr FIRST_DELETE_READY then unfit ''first_deletion_authority_unproven'' True
      else if \<not> js_truthy runId \<or> runId \<noteq> jget gate ''history_run_id''
        \<or> jget candidate ''manifest_key'' \<noteq> jget gate ''history_manifest_key''
      then unfit ''candidate_gate_publication_identity_mismatch'' False
      else case normalizePruneConnectorSourceIdentity candidate of
          Inl e \<Rightarrow> unfit (pruneConnectorSourceIdentityFailureReason e) False
        | Inr candidateIdentity \<Rightarrow>
            (case normalizePruneConnectorSourceIdentity gate of
               Inl e \<Rightarrow> unfit (pruneConnectorSourceIdentityFailureReason e) False
             | Inr gateIdentity \<Rightarrow>
                 if \<not> isValidConnectorHistoryGateEvidence version gate then unfit ''gate_evidence_invalid'' False
                 else \<lparr>ev_failure = identity_difference candidateIdentity gateIdentity, ev_preserve = False,
                   ev_candidate = Some candidateIdentity, ev_gate = Some gateIdentity\<rparr>))"

section \<open>Results\<close>

record bucket_result =
  br_connector_id :: int
  br_hour_start :: string
  br_deleted_rows :: int
  br_batches_run :: nat
  br_drained :: bool
  br_remaining_rows :: int
  br_cap_reached :: bool

record blocked_bucket =
  bb_connector_id :: int
  bb_hour_start :: string
  bb_day_utc :: string
  bb_observation_count :: string
  bb_reason :: string

record diagnostics =
  di_contract_version :: int
  di_identity_match :: bool
  di_failure_reason :: "string option"
  di_identity_rows :: "int option"
  di_candidate_present :: bool
  di_gate_present :: bool
  di_invalidated_days :: int
  di_content_hash :: "string option"
  di_planned :: bool
  di_committed :: bool
  di_rolled_back :: bool
  di_atomic_failure_reason :: "string option"
  di_current_buckets :: "int option"
  di_eligible_buckets :: int
  di_committed_rows :: string
  di_remaining_rows :: "string option"
  di_raw_rows :: "string option"
  di_canonical_rows :: "string option"
  di_scope_match :: "bool option"
  di_plan_rows :: "string option"
  di_deleted_rows :: "string option"

record deletion_result =
  de_ok :: bool
  de_day :: connector_day
  de_bucket_results :: "bucket_result list"
  de_blocked_buckets :: "blocked_bucket list"
  de_diagnostics :: diagnostics

text \<open>The optional arguments of blockedResult and their defaults.\<close>

record block_info =
  bi_invalidated :: bool
  bi_identity :: "source_identity option"
  bi_match :: bool
  bi_rolled_back :: bool
  bi_current_buckets :: "int option"
  bi_eligible_buckets :: "int option"
  bi_remaining_rows :: "int option"
  bi_raw_rows :: "int option"
  bi_canonical_rows :: "int option"
  bi_scope_match :: "bool option"
  bi_plan_rows :: "int option"
  bi_deleted_rows :: "int option"

definition no_info :: block_info where
  "no_info = \<lparr>bi_invalidated = False, bi_identity = None, bi_match = False, bi_rolled_back = False,
     bi_current_buckets = None, bi_eligible_buckets = None, bi_remaining_rows = None, bi_raw_rows = None,
     bi_canonical_rows = None, bi_scope_match = None, bi_plan_rows = None, bi_deleted_rows = None\<rparr>"

definition blockedResult ::
  "day_pair \<Rightarrow> bucket list \<Rightarrow> jsval \<Rightarrow> jsval \<Rightarrow> string \<Rightarrow> block_info \<Rightarrow> deletion_result" where
  "blockedResult pair buckets candidate gate failureReason info =
     \<lparr>de_ok = False, de_day = dp_day pair, de_bucket_results = [],
      de_blocked_buckets = List.map (\<lambda>b. \<lparr>bb_connector_id = bk_connector_id b, bb_hour_start = to_iso (bk_hour b),
        bb_day_utc = cd_day_utc (dp_day pair), bb_observation_count = int_str (bk_count b), bb_reason = failureReason\<rparr>) buckets,
      de_diagnostics = \<lparr>di_contract_version = PRUNE_CONTRACT_VERSION, di_identity_match = bi_match info,
        di_failure_reason = Some failureReason, di_identity_rows = map_option id_row_count (bi_identity info),
        di_candidate_present = identityPresent candidate, di_gate_present = identityPresent gate,
        di_invalidated_days = (if bi_invalidated info then 1 else 0), di_content_hash = None, di_planned = True,
        di_committed = False, di_rolled_back = bi_rolled_back info, di_atomic_failure_reason = Some failureReason,
        di_current_buckets = bi_current_buckets info,
        di_eligible_buckets = (case bi_eligible_buckets info of None \<Rightarrow> int (length buckets) | Some n \<Rightarrow> n),
        di_committed_rows = ''0'', di_remaining_rows = map_option int_str (bi_remaining_rows info),
        di_raw_rows = map_option int_str (bi_raw_rows info),
        di_canonical_rows = map_option int_str (bi_canonical_rows info), di_scope_match = bi_scope_match info,
        di_plan_rows = map_option int_str (bi_plan_rows info),
        di_deleted_rows = map_option int_str (bi_deleted_rows info)\<rparr>\<rparr>"

text \<open>rawSnapshotRows === canonicalSnapshotRows, null unless both are known\<close>

definition scope_of :: "int option \<Rightarrow> int option \<Rightarrow> bool option" where
  "scope_of rawRows canonicalRows =
     (case (rawRows, canonicalRows) of (Some a, Some b) \<Rightarrow> Some (a = b) | _ \<Rightarrow> None)"

section \<open>Statements on the observations\<close>

definition in_window :: "int \<Rightarrow> int \<Rightarrow> int \<Rightarrow> observation \<Rightarrow> bool" where
  "in_window connectorId windowStart windowEnd ob \<longleftrightarrow>
     ob_connector_id ob = connectorId \<and> windowStart \<le> ob_observed_at ob \<and> ob_observed_at ob < windowEnd"

definition of_day :: "day_pair \<Rightarrow> observation \<Rightarrow> bool" where
  "of_day pair ob \<longleftrightarrow> in_window (cd_connector_id (dp_day pair)) (dp_dayStart pair) (dp_dayEnd pair) ob"

definition canonical_rows_of :: "prune_env \<Rightarrow> day_pair \<Rightarrow> int \<Rightarrow> int \<Rightarrow> ingest_db \<Rightarrow> history_row list" where
  "canonical_rows_of env pair windowStart windowEnd db =
     en_canonical env (pg_observations db) (cd_connector_id (dp_day pair)) windowStart windowEnd"

definition canonical_count :: "prune_env \<Rightarrow> day_pair \<Rightarrow> int \<Rightarrow> int \<Rightarrow> ingest_db \<Rightarrow> int" where
  "canonical_count env pair windowStart windowEnd db = int (length (canonical_rows_of env pair windowStart windowEnd db))"

definition raw_day_count :: "day_pair \<Rightarrow> ingest_db \<Rightarrow> int" where
  "raw_day_count pair db = int (length (filter (of_day pair) (pg_observations db)))"

definition has_key_of :: "history_row \<Rightarrow> observation \<Rightarrow> bool" where
  "has_key_of t ob \<longleftrightarrow> ob_connector_id ob = hr_connector_id t \<and> ob_timeseries_id ob = hr_timeseries_id t
     \<and> ob_observed_at ob = hr_observed_at t"

text \<open>The delete statement of one batch, with the number of rows it has deleted.\<close>

definition delete_batch :: "prune_env \<Rightarrow> day_pair \<Rightarrow> int \<Rightarrow> nat \<Rightarrow> ingest_db \<Rightarrow> int \<times> ingest_db" where
  "delete_batch env pair hour batchSize db =
     (let targets = take batchSize (canonical_rows_of env pair hour (hour + MS_HOUR) db);
          target = (\<lambda>ob. \<exists>t \<in> set targets. has_key_of t ob)
      in (int (length (filter target (pg_observations db))),
          db\<lparr>pg_observations := filter (\<lambda>ob. \<not> target ob) (pg_observations db)\<rparr>))"

section \<open>The plan\<close>

definition count_hour :: "jsval \<Rightarrow> (string, int) jsmap \<Rightarrow> (string, int) jsmap res" where
  "count_hour row counts =
     (case new_date (js_coalesce (jget row ''observed_at_utc'') (jget row ''observed_at'')) of
        None \<Rightarrow> Inl (JsError ''Invalid current canonical timestamp'')
      | Some t \<Rightarrow>
          let hourStart = to_iso (t - t mod MS_HOUR)
          in Inr (jm_set hourStart ((case jm_get counts hourStart of None \<Rightarrow> 0 | Some n \<Rightarrow> n) + 1) counts))"

definition currentHourCounts :: "jsval list \<Rightarrow> (string, int) jsmap res" where
  "currentHourCounts rows = res_fold count_hour rows jm_empty"

record coverage =
  cv_exact :: bool
  cv_current_buckets :: int
  cv_eligible_buckets :: int
  cv_buckets :: "bucket list"

definition planned_hours :: "bucket list \<Rightarrow> (string, bucket) jsmap" where
  "planned_hours buckets = fold (\<lambda>b. jm_set (to_iso (bk_hour b)) b) buckets jm_empty"

definition deletionPlanCoversCurrentConnectorDay :: "day_pair \<Rightarrow> bucket list \<Rightarrow> jsval list \<Rightarrow> coverage res" where
  "deletionPlanCoversCurrentConnectorDay pair buckets currentRows =
     res_bind (res_mapM (\<lambda>b. normalizeBucket pair (raw_again b)) buckets) (\<lambda>normalizedBuckets.
     res_map (\<lambda>currentByHour.
         let plannedByHour = planned_hours normalizedBuckets;
             duplicateHour = \<not> distinct (List.map (\<lambda>b. to_iso (bk_hour b)) normalizedBuckets)
         in \<lparr>cv_exact = (\<not> duplicateHour \<and> length plannedByHour = length currentByHour
                \<and> list_all (\<lambda>(hourStart, n). map_option bk_count (jm_get plannedByHour hourStart) = Some n) currentByHour),
             cv_current_buckets = int (length currentByHour), cv_eligible_buckets = int (length plannedByHour),
             cv_buckets = sort_key (\<lambda>b. collation_key (to_iso (bk_hour b))) (jm_values plannedByHour)\<rparr>)
       (currentHourCounts currentRows))"

section \<open>Consuming the authority for the first deletion\<close>

definition consumed_marker :: "jsval \<Rightarrow> jsval \<Rightarrow> int \<Rightarrow> string" where
  "consumed_marker candidate gate deletedRows =
     FIRST_DELETE_CONSUMED @ json_stringify (JObj
       [(''previous_authority'', JStr (js_string (jget gate ''history_manifest_key'') @ ''#'' @
           js_string (jget gate ''history_manifest_hash''))),
        (''original_run_id'', jget candidate ''run_id''), (''deleted_row_count'', JStr (int_str deletedRows)),
        (''reason'', JStr ''Original complete connector-day source was fully drained by a committed atomic deletion; later historical rows require separate authorisation''),
        (''next_action'', JStr ''review_reappeared_historical_rows_before_authorising_deletion'')])"

text \<open>The two updates, each with the number of rows it has matched.\<close>

definition ready_candidate :: "connector_day \<Rightarrow> jsval \<Rightarrow> candidate_row \<Rightarrow> bool" where
  "ready_candidate p runId c \<longleftrightarrow> is_candidate_of p c \<and> hc_status c = ''complete''
     \<and> hc_last_error c = Some FIRST_DELETE_READY \<and> hc_run_id c \<noteq> None \<and> str_or_null (hc_run_id c) = runId"

definition mark_candidate :: "connector_day \<Rightarrow> string \<Rightarrow> jsval \<Rightarrow> int \<Rightarrow> ingest_db \<Rightarrow> int \<times> ingest_db" where
  "mark_candidate p marker runId now db =
     (int (length (filter (ready_candidate p runId) (pg_candidates db))),
      db\<lparr>pg_candidates := List.map (\<lambda>c. if ready_candidate p runId c
          then c\<lparr>hc_last_error := Some marker, hc_updated_at := now\<rparr> else c) (pg_candidates db)\<rparr>)"

definition open_for :: "connector_day \<Rightarrow> jsval \<Rightarrow> jsval \<Rightarrow> gate_row \<Rightarrow> bool" where
  "open_for p runId manifestHash g \<longleftrightarrow> is_gate_of p g \<and> gt_history_done g
     \<and> gt_run_id g \<noteq> None \<and> str_or_null (gt_run_id g) = runId
     \<and> gt_manifest_hash g \<noteq> None \<and> str_or_null (gt_manifest_hash g) = manifestHash"

definition close_gate :: "connector_day \<Rightarrow> jsval \<Rightarrow> jsval \<Rightarrow> int \<Rightarrow> ingest_db \<Rightarrow> int \<times> ingest_db" where
  "close_gate p runId manifestHash now db =
     (int (length (filter (open_for p runId manifestHash) (pg_gates db))),
      db\<lparr>pg_gates := List.map (\<lambda>g. if open_for p runId manifestHash g
          then g\<lparr>gt_history_done := False, gt_updated_at := now\<rparr> else g) (pg_gates db)\<rparr>)"

section \<open>The transaction\<close>

text \<open>The variables that the catch block reads.\<close>

record prune_vars =
  pv_started :: bool
  pv_candidate :: jsval
  pv_gate :: jsval
  pv_identity :: "source_identity option"
  pv_current_buckets :: "int option"
  pv_raw_rows :: "int option"
  pv_canonical_rows :: "int option"

definition fresh_vars :: prune_vars where
  "fresh_vars = \<lparr>pv_started = False, pv_candidate = Null, pv_gate = Null, pv_identity = None,
     pv_current_buckets = None, pv_raw_rows = None, pv_canonical_rows = None\<rparr>"

type_synonym 'a prune = "(ingest_db, prune_vars, 'a) tx"

text \<open>A statement that only reads, and one that only writes.\<close>

definition read_db :: "prune_env \<Rightarrow> (ingest_db \<Rightarrow> 'a) \<Rightarrow> 'a prune" where
  "read_db env f = tx_query (en_faults env) (\<lambda>db. (f db, db))"

definition write_db :: "prune_env \<Rightarrow> (ingest_db \<Rightarrow> ingest_db) \<Rightarrow> unit prune" where
  "write_db env f = tx_query (en_faults env) (\<lambda>db. ((), f db))"

definition stopped :: "prune_vars \<Rightarrow> prune_vars" where
  "stopped v = v\<lparr>pv_started := False\<rparr>"

definition roll_back_with :: "prune_env \<Rightarrow> deletion_result \<Rightarrow> deletion_result prune" where
  "roll_back_with env r =
     tx_bind (tx_rollback (en_faults env)) (\<lambda>_. tx_bind (tx_vars stopped) (\<lambda>_. tx_ret r))"

definition commit_with :: "prune_env \<Rightarrow> deletion_result \<Rightarrow> deletion_result prune" where
  "commit_with env r =
     tx_bind (tx_commit (en_faults env)) (\<lambda>_. tx_bind (tx_vars stopped) (\<lambda>_. tx_ret r))"

definition invalidateConnectorDayEvidence :: "prune_env \<Rightarrow> connector_day \<Rightarrow> string \<Rightarrow> unit prune" where
  "invalidateConnectorDayEvidence env p failureReason =
     tx_bind (write_db env (invalidate_candidates p failureReason (en_now env))) (\<lambda>_.
       write_db env (invalidate_gates p (en_now env)))"

definition consumeFirstDeletionAuthority :: "prune_env \<Rightarrow> connector_day \<Rightarrow> jsval \<Rightarrow> jsval \<Rightarrow> int \<Rightarrow> unit prune" where
  "consumeFirstDeletionAuthority env p candidate gate deletedRows =
     (let runId = jget candidate ''run_id'' in
      tx_bind (tx_query (en_faults env) (mark_candidate p (consumed_marker candidate gate deletedRows) runId (en_now env)))
        (\<lambda>n. if n \<noteq> 1 then tx_fail (Thrown (JsError ''Original Prune first-deletion marker could not be consumed''))
          else tx_bind (tx_query (en_faults env) (close_gate p runId (jget gate ''history_manifest_hash'') (en_now env)))
            (\<lambda>k. if k \<noteq> 1 then tx_fail (Thrown (JsError ''Original Prune deletion gate could not be consumed''))
              else tx_ret ())))"

text \<open>The loop over batches: what is left of the allowed number, and the batches and deletions so far.\<close>

fun delete_batches :: "prune_env \<Rightarrow> day_pair \<Rightarrow> int \<Rightarrow> nat \<Rightarrow> nat \<Rightarrow> nat \<Rightarrow> int \<Rightarrow> (nat \<times> int) prune" where
  "delete_batches env pair hour batchSize 0 run deleted = tx_ret (run, deleted)"
| "delete_batches env pair hour batchSize (Suc left) run deleted =
     tx_bind (tx_query (en_faults env) (delete_batch env pair hour batchSize)) (\<lambda>n.
       if n = 0 then tx_ret (run + 1, deleted)
       else delete_batches env pair hour batchSize left (run + 1) (deleted + n))"

definition deleteOneHour :: "prune_env \<Rightarrow> day_pair \<Rightarrow> nat \<Rightarrow> nat \<Rightarrow> bucket \<Rightarrow> bucket_result prune" where
  "deleteOneHour env pair deleteBatchSize maxDeleteBatchesPerHour b =
     tx_bind (delete_batches env pair (bk_hour b) deleteBatchSize maxDeleteBatchesPerHour 0 0) (\<lambda>(run, deleted).
     tx_bind (read_db env (canonical_count env pair (bk_hour b) (bk_hour b + MS_HOUR))) (\<lambda>remaining.
       tx_ret \<lparr>br_connector_id = bk_connector_id b, br_hour_start = to_iso (bk_hour b), br_deleted_rows = deleted,
         br_batches_run = run, br_drained = (remaining = 0), br_remaining_rows = remaining,
         br_cap_reached = (maxDeleteBatchesPerHour \<le> run \<and> 0 < remaining)\<rparr>))"

text \<open>The loop over the hours: the results so far, and the result that reached its cap if one did.\<close>

fun delete_hours :: "prune_env \<Rightarrow> day_pair \<Rightarrow> nat \<Rightarrow> nat \<Rightarrow> bucket list \<Rightarrow> bucket_result list \<Rightarrow>
    (bucket_result list \<times> bucket_result option) prune" where
  "delete_hours env pair batchSize maxBatches [] results = tx_ret (results, None)"
| "delete_hours env pair batchSize maxBatches (b # bs) results =
     tx_bind (deleteOneHour env pair batchSize maxBatches b) (\<lambda>r.
       if br_cap_reached r then tx_ret (results @ [r], Some r)
       else delete_hours env pair batchSize maxBatches bs (results @ [r]))"

text \<open>Properties of an identity that may be undefined.\<close>

definition identity_input :: "source_identity option \<Rightarrow> jsval" where
  "identity_input i = (case i of None \<Rightarrow> Undef | Some x \<Rightarrow> identity_object x)"

definition identity_rows :: "source_identity option \<Rightarrow> int res" where
  "identity_rows i = (case i of None \<Rightarrow> Inl TypeError | Some x \<Rightarrow> Inr (id_row_count x))"

text \<open>The identity of the rows that are there now, and why they are not the rows of the evidence.\<close>

definition current_identity :: "prune_env \<Rightarrow> history_row list \<Rightarrow> source_identity option" where
  "current_identity env rows =
     (case computePruneConnectorSourceIdentity (en_sha env) (List.map history_object rows) of
        Inl e \<Rightarrow> None | Inr i \<Rightarrow> Some i)"

definition current_failure :: "prune_env \<Rightarrow> history_row list \<Rightarrow> source_identity option \<Rightarrow> string option" where
  "current_failure env rows candidateIdentity =
     (case computePruneConnectorSourceIdentity (en_sha env) (List.map history_object rows) of
        Inl e \<Rightarrow> Some (pruneConnectorSourceIdentityFailureReason e)
      | Inr i \<Rightarrow>
          (case comparePruneConnectorSourceIdentities (identity_object i) (identity_input candidateIdentity) of
             Inl e \<Rightarrow> Some (pruneConnectorSourceIdentityFailureReason e) | Inr difference \<Rightarrow> difference))"

text \<open>What the stages of the transaction share: the request and the evidence it has read.\<close>

record prune_request =
  rq_pair :: day_pair
  rq_buckets :: "bucket list"
  rq_subset :: bool
  rq_batch_size :: nat
  rq_max_batches :: nat

record locked =
  lk_candidate :: jsval
  lk_gate :: jsval
  lk_verdict :: evidence_verdict

definition blocked :: "prune_request \<Rightarrow> locked \<Rightarrow> string \<Rightarrow> block_info \<Rightarrow> deletion_result" where
  "blocked rq lk failureReason info =
     blockedResult (rq_pair rq) (rq_buckets rq) (lk_candidate lk) (lk_gate lk) failureReason info"

text \<open>The evidence does not stand: it is withdrawn, which commits.\<close>

definition withdraw :: "prune_env \<Rightarrow> prune_request \<Rightarrow> locked \<Rightarrow> string \<Rightarrow> block_info \<Rightarrow> deletion_result prune" where
  "withdraw env rq lk failureReason info =
     tx_bind (invalidateConnectorDayEvidence env (dp_day (rq_pair rq)) failureReason) (\<lambda>_.
       commit_with env (blocked rq lk failureReason (info\<lparr>bi_invalidated := True\<rparr>)))"

text \<open>The report of a committed deletion.\<close>

definition deletion_report ::
  "connector_day \<Rightarrow> coverage \<Rightarrow> source_identity \<Rightarrow> int \<Rightarrow> int \<Rightarrow> int \<Rightarrow> int \<Rightarrow> bucket_result list \<Rightarrow> deletion_result" where
  "deletion_report p cv currentIdentity rawRows canonicalRows planRows deletedRows bucketResults =
     \<lparr>de_ok = True, de_day = p, de_bucket_results = bucketResults, de_blocked_buckets = [],
      de_diagnostics = \<lparr>di_contract_version = id_version currentIdentity, di_identity_match = True,
        di_failure_reason = None, di_identity_rows = Some (id_row_count currentIdentity),
        di_candidate_present = True, di_gate_present = True, di_invalidated_days = 0,
        di_content_hash = Some (id_hash currentIdentity), di_planned = True, di_committed = True,
        di_rolled_back = False, di_atomic_failure_reason = None,
        di_current_buckets = Some (cv_current_buckets cv), di_eligible_buckets = cv_eligible_buckets cv,
        di_committed_rows = int_str deletedRows, di_remaining_rows = Some ''0'',
        di_raw_rows = Some (int_str rawRows), di_canonical_rows = Some (int_str canonicalRows),
        di_scope_match = Some True, di_plan_rows = Some (int_str planRows),
        di_deleted_rows = Some (int_str deletedRows)\<rparr>\<rparr>"

definition confirm :: "prune_env \<Rightarrow> prune_request \<Rightarrow> locked \<Rightarrow> int \<Rightarrow> deletion_result \<Rightarrow> deletion_result prune" where
  "confirm env rq lk deletedRows report =
     tx_bind (consumeFirstDeletionAuthority env (dp_day (rq_pair rq)) (lk_candidate lk) (lk_gate lk) deletedRows)
       (\<lambda>_. commit_with env report)"

text \<open>Nothing remains: the counts of the evidence, of the plan and of the deletions must agree.\<close>

definition check_counts :: "prune_env \<Rightarrow> prune_request \<Rightarrow> locked \<Rightarrow> coverage \<Rightarrow> source_identity \<Rightarrow> int \<Rightarrow> int \<Rightarrow>
    block_info \<Rightarrow> bucket_result list \<Rightarrow> deletion_result prune" where
  "check_counts env rq lk cv currentIdentity rawRows canonicalRows info bucketResults =
     (let deletedRows = sum_list (List.map br_deleted_rows bucketResults);
          planRows = sum_list (List.map bk_count (cv_buckets cv))
      in tx_bind (tx_res (identity_rows (ev_candidate (lk_verdict lk)))) (\<lambda>candidateRows.
         tx_bind (tx_res (identity_rows (ev_gate (lk_verdict lk)))) (\<lambda>gateRows.
           if \<not> list_all (\<lambda>n. n = deletedRows) [id_row_count currentIdentity, candidateRows, gateRows, planRows]
           then roll_back_with env (blocked rq lk ''connector_day_deleted_row_count_mismatch''
             (info\<lparr>bi_plan_rows := Some planRows, bi_deleted_rows := Some deletedRows\<rparr>))
           else confirm env rq lk deletedRows (deletion_report (dp_day (rq_pair rq)) cv currentIdentity rawRows canonicalRows
             planRows deletedRows bucketResults))))"

text \<open>After the deletions: neither a canonical row nor any other may remain.\<close>

definition settle :: "prune_env \<Rightarrow> prune_request \<Rightarrow> locked \<Rightarrow> coverage \<Rightarrow> source_identity \<Rightarrow> int \<Rightarrow> int \<Rightarrow>
    block_info \<Rightarrow> bucket_result list \<Rightarrow> deletion_result prune" where
  "settle env rq lk cv currentIdentity rawRows canonicalRows info bucketResults =
     (let pair = rq_pair rq in
      tx_bind (read_db env (canonical_count env pair (dp_dayStart pair) (dp_dayEnd pair))) (\<lambda>remaining.
        let info = info\<lparr>bi_remaining_rows := Some remaining\<rparr> in
        if remaining \<noteq> 0 then roll_back_with env (blocked rq lk ''connector_day_not_fully_drained'' info)
        else tx_bind (read_db env (raw_day_count pair)) (\<lambda>remainingRaw.
          if remainingRaw \<noteq> 0
          then roll_back_with env (blocked rq lk ''connector_day_scope_mismatch'' (info\<lparr>bi_scope_match := Some False\<rparr>))
          else check_counts env rq lk cv currentIdentity rawRows canonicalRows info bucketResults)))"

text \<open>The rows are those of the evidence: the plan must cover them exactly, then they are deleted by hours.\<close>

definition delete_covered :: "prune_env \<Rightarrow> prune_request \<Rightarrow> locked \<Rightarrow> history_row list \<Rightarrow> source_identity \<Rightarrow> int \<Rightarrow>
    deletion_result prune" where
  "delete_covered env rq lk rows currentIdentity rawRows =
     (let pair = rq_pair rq; canonicalRows = int (length rows);
          info = no_info\<lparr>bi_identity := Some currentIdentity, bi_match := True, bi_rolled_back := True,
            bi_raw_rows := Some rawRows, bi_canonical_rows := Some canonicalRows, bi_scope_match := Some True\<rparr>
      in tx_bind (tx_res (deletionPlanCoversCurrentConnectorDay pair (rq_buckets rq) (List.map history_object rows))) (\<lambda>cv.
         tx_bind (tx_vars (\<lambda>v. v\<lparr>pv_current_buckets := Some (cv_current_buckets cv)\<rparr>)) (\<lambda>_.
           let info = info\<lparr>bi_current_buckets := Some (cv_current_buckets cv),
             bi_eligible_buckets := Some (cv_eligible_buckets cv)\<rparr>
           in if rq_subset rq \<or> \<not> cv_exact cv
              then roll_back_with env (blocked rq lk
                (if rq_subset rq then ''connector_day_scope_mismatch'' else ''connector_day_not_fully_eligible'')
                (info\<lparr>bi_remaining_rows := Some canonicalRows\<rparr>))
              else tx_bind (delete_hours env pair (rq_batch_size rq) (rq_max_batches rq) (cv_buckets cv) []) (\<lambda>(results, capped).
                case capped of
                  Some r \<Rightarrow> roll_back_with env (blocked rq lk ''connector_day_delete_cap_reached''
                    (info\<lparr>bi_remaining_rows := Some (br_remaining_rows r)\<rparr>))
                | None \<Rightarrow> settle env rq lk cv currentIdentity rawRows canonicalRows info results))))"

text \<open>The evidence stands by itself: it is compared with the rows that are there.\<close>

definition compare_current :: "prune_env \<Rightarrow> prune_request \<Rightarrow> locked \<Rightarrow> deletion_result prune" where
  "compare_current env rq lk =
     (let pair = rq_pair rq in
      tx_bind (read_db env (canonical_rows_of env pair (dp_dayStart pair) (dp_dayEnd pair))) (\<lambda>rows.
      tx_bind (tx_vars (\<lambda>v. v\<lparr>pv_canonical_rows := Some (int (length rows))\<rparr>)) (\<lambda>_.
      tx_bind (read_db env (raw_day_count pair)) (\<lambda>rawRows.
      tx_bind (tx_vars (\<lambda>v. v\<lparr>pv_raw_rows := Some rawRows\<rparr>)) (\<lambda>_.
        let canonicalRows = int (length rows) in
        if rows = [] \<and> 0 < rawRows
        then roll_back_with env (blocked rq lk ''connector_day_scope_mismatch''
          (no_info\<lparr>bi_rolled_back := True, bi_current_buckets := Some 0,
            bi_eligible_buckets := Some (int (length (rq_buckets rq))), bi_remaining_rows := Some 0,
            bi_raw_rows := Some rawRows, bi_canonical_rows := Some canonicalRows, bi_scope_match := Some False\<rparr>))
        else
          let current = current_identity env rows in
          tx_bind (tx_vars (\<lambda>v. v\<lparr>pv_identity := current\<rparr>)) (\<lambda>_.
            case (current_failure env rows (ev_candidate (lk_verdict lk)), current) of
              (None, Some currentIdentity) \<Rightarrow>
                if rawRows \<noteq> canonicalRows
                then tx_bind (tx_rollback (en_faults env)) (\<lambda>_. tx_bind (tx_vars stopped) (\<lambda>_.
                     tx_bind (tx_res (currentHourCounts (List.map history_object rows))) (\<lambda>hours.
                     tx_ret (blocked rq lk ''connector_day_scope_mismatch''
                       (no_info\<lparr>bi_identity := current, bi_match := True, bi_rolled_back := True,
                         bi_current_buckets := Some (int (length hours)),
                         bi_eligible_buckets := Some (int (length (rq_buckets rq))),
                         bi_remaining_rows := Some canonicalRows, bi_raw_rows := Some rawRows,
                         bi_canonical_rows := Some canonicalRows, bi_scope_match := Some False\<rparr>)))))
                else delete_covered env rq lk rows currentIdentity rawRows
            | (Some failureReason, _) \<Rightarrow> withdraw env rq lk failureReason
                (no_info\<lparr>bi_identity := current, bi_raw_rows := Some rawRows, bi_canonical_rows := Some canonicalRows,
                  bi_scope_match := Some (rawRows = canonicalRows)\<rparr>)
            | (None, None) \<Rightarrow> tx_fail (Thrown TypeError)))))))"

definition prune_body :: "prune_env \<Rightarrow> prune_request \<Rightarrow> deletion_result prune" where
  "prune_body env rq =
     (let p = dp_day (rq_pair rq) in
      tx_bind (tx_begin (en_faults env)) (\<lambda>_.
      tx_bind (tx_vars (\<lambda>v. v\<lparr>pv_started := True\<rparr>)) (\<lambda>_.
      tx_bind (read_db env (select_candidate p)) (\<lambda>candidate.
      tx_bind (read_db env (select_gate p)) (\<lambda>gate.
      tx_bind (tx_vars (\<lambda>v. v\<lparr>pv_candidate := candidate, pv_gate := gate\<rparr>)) (\<lambda>_.
        let verdict = classifyLockedEvidence (en_version env) candidate gate p;
            lk = \<lparr>lk_candidate = candidate, lk_gate = gate, lk_verdict = verdict\<rparr>
        in case ev_failure verdict of
             Some failureReason \<Rightarrow>
               if ev_preserve verdict
               then roll_back_with env (blocked rq lk failureReason (no_info\<lparr>bi_rolled_back := True\<rparr>))
               else withdraw env rq lk failureReason no_info
           | None \<Rightarrow> compare_current env rq lk))))))"

definition prune_failed :: "prune_env \<Rightarrow> prune_request \<Rightarrow> tx_error \<Rightarrow> deletion_result prune" where
  "prune_failed env rq e =
     tx_bind tx_read_vars (\<lambda>v.
     tx_bind (if pv_started v then tx_catch (tx_rollback (en_faults env)) (\<lambda>_. tx_ret ()) else tx_ret ()) (\<lambda>_.
       case e of
         DatabaseError code \<Rightarrow>
           if code \<in> set TRANSACTION_CONFLICT_CODES
           then tx_ret (blockedResult (rq_pair rq) (rq_buckets rq) (pv_candidate v) (pv_gate v)
             ''source_identity_transaction_conflict''
             (no_info\<lparr>bi_identity := pv_identity v, bi_match := (pv_identity v \<noteq> None), bi_rolled_back := True,
               bi_current_buckets := pv_current_buckets v, bi_raw_rows := pv_raw_rows v,
               bi_canonical_rows := pv_canonical_rows v, bi_scope_match := scope_of (pv_raw_rows v) (pv_canonical_rows v)\<rparr>))
           else tx_fail e
       | Thrown _ \<Rightarrow> tx_fail e))"

definition runPruneConnectorDayDeletionTransaction ::
  "prune_env \<Rightarrow> jsval \<Rightarrow> jsval \<Rightarrow> raw_bucket list \<Rightarrow> nat \<Rightarrow> nat \<Rightarrow> jsval \<Rightarrow> deletion_result prune" where
  "runPruneConnectorDayDeletionTransaction env dayUtc connectorId buckets deleteBatchSize maxDeleteBatchesPerHour pollutantCodes =
     tx_bind (tx_res (normalizePair dayUtc connectorId)) (\<lambda>pair.
     tx_bind (tx_res (res_mapM (normalizeBucket pair) buckets)) (\<lambda>requestedBuckets.
     tx_bind (tx_vars (\<lambda>_. fresh_vars)) (\<lambda>_.
       let rq = \<lparr>rq_pair = pair, rq_buckets = requestedBuckets, rq_subset = (array_of pollutantCodes \<noteq> []),
         rq_batch_size = deleteBatchSize, rq_max_batches = maxDeleteBatchesPerHour\<rparr>
       in tx_catch (prune_body env rq) (prune_failed env rq))))"

section \<open>All connector days of a plan\<close>

text \<open>A connection of its own for every connector day. Ending it ends an open transaction.\<close>

definition with_deletion_client :: "prune_env \<Rightarrow> jsval \<Rightarrow> 'a prune \<Rightarrow> 'a prune" where
  "with_deletion_client env databaseUrl callback =
     (if js_trim (str_or_empty databaseUrl) = []
      then tx_fail (Thrown (JsError ''Source-identity deletion requires SUPABASE_DB_URL''))
      else tx_bind (read_db env (\<lambda>_. ())) (\<lambda>_. tx_finally callback (tx_rollback (en_faults env))))"

definition deletePruneBucketsWithSourceIdentity ::
  "prune_env \<Rightarrow> jsval \<Rightarrow> jsval \<Rightarrow> nat \<Rightarrow> nat \<Rightarrow> jsval \<Rightarrow> deletion_result list prune" where
  "deletePruneBucketsWithSourceIdentity env databaseUrl buckets deleteBatchSize maxDeleteBatchesPerHour pollutantCodes =
     tx_bind (tx_res (groupBucketsByConnectorDay buckets)) (\<lambda>groups.
       tx_mapM (\<lambda>g. with_deletion_client env databaseUrl
           (runPruneConnectorDayDeletionTransaction env (JStr (cd_day_utc (dp_day (dg_pair g))))
             (JInt (cd_connector_id (dp_day (dg_pair g)))) (List.map raw_again (dg_buckets g))
             deleteBatchSize maxDeleteBatchesPerHour pollutantCodes)) groups)"

end
