(* ===== verification/PruneSafety.thy ===== *)
theory PruneSafety
  imports PruneDeletion
begin

text \<open>
  What the transaction of PruneDeletion can do, by a calculus of triples: from a state with P a program
  returns with Q or throws with E, for every schedule of failing statements. The stages are
  treated from the last to the first; the result is run_triple for one connector day and groups_triple for a plan.
\<close>

section \<open>Rules for the steps\<close>

text \<open>A read before anything has been written, and a read in general.\<close>

lemma ensures_read_start:
  assumes "ensures (working db (\<lambda>w. w = db)) (f (g db)) Q E" "\<And>e s. kept db s \<Longrightarrow> E e s"
  shows "ensures (working db (\<lambda>w. w = db)) (tx_bind (read_db env g) f) Q E"
proof (rule ensures_bind)
  show "ensures (working db (\<lambda>w. w = db)) (read_db env g) (\<lambda>x. working db (\<lambda>w. w = db \<and> x = g db)) E"
    unfolding read_db_def by (rule ensures_query) (simp_all add: assms(2))
  show "ensures (working db (\<lambda>w. w = db \<and> x = g db)) (f x) Q E" for x
  proof (rule ensures_working_pure)
    assume "x = g db"
    then show "ensures (working db (\<lambda>w. w = db)) (f x) Q E" using assms(1) by (rule ssubst)
  qed
qed

lemma ensures_read_then:
  assumes "\<And>x. ensures (working db (\<lambda>w. W w \<and> x = g w)) (f x) Q E" "\<And>e s. kept db s \<Longrightarrow> E e s"
  shows "ensures (working db W) (tx_bind (read_db env g) f) Q E"
  by (rule ensures_bind [where R = "\<lambda>x. working db (\<lambda>w. W w \<and> x = g w)", OF _ assms(1)])
     (use assms(2) in \<open>auto simp: read_db_def intro!: ensures_query\<close>)

lemma ensures_write:
  assumes "\<And>w. W w \<Longrightarrow> V (g w)" "\<And>e s. kept db s \<Longrightarrow> E e s"
  shows "ensures (working db W) (write_db env g) (\<lambda>_. working db V) E"
  unfolding write_db_def by (rule ensures_query) (use assms in auto)

section \<open>What a transaction may have done\<close>

definition withdrawn :: "prune_env \<Rightarrow> connector_day \<Rightarrow> string \<Rightarrow> ingest_db \<Rightarrow> ingest_db" where
  "withdrawn env p reason db = invalidate_gates p (en_now env) (invalidate_candidates p reason (en_now env) db)"

definition without_day :: "day_pair \<Rightarrow> ingest_db \<Rightarrow> ingest_db" where
  "without_day pair db = db\<lparr>pg_observations := filter (\<lambda>ob. \<not> of_day pair ob) (pg_observations db)\<rparr>"

text \<open>The state after a deletion, with the authority consumed.\<close>

definition drained :: "prune_env \<Rightarrow> day_pair \<Rightarrow> int \<Rightarrow> ingest_db \<Rightarrow> ingest_db" where
  "drained env pair n db =
     (let p = dp_day pair; candidate = select_candidate p db; gate = select_gate p db; runId = jget candidate ''run_id''
      in snd (close_gate p runId (jget gate ''history_manifest_hash'') (en_now env)
           (snd (mark_candidate p (consumed_marker candidate gate n) runId (en_now env) (without_day pair db)))))"

text \<open>Both updates have matched exactly one row.\<close>

definition consumed_once :: "prune_env \<Rightarrow> day_pair \<Rightarrow> ingest_db \<Rightarrow> bool" where
  "consumed_once env pair db \<longleftrightarrow>
     (let p = dp_day pair; candidate = select_candidate p db; gate = select_gate p db; runId = jget candidate ''run_id''
      in length (filter (ready_candidate p runId) (pg_candidates db)) = 1
         \<and> length (filter (open_for p runId (jget gate ''history_manifest_hash'')) (pg_gates db)) = 1)"

text \<open>The evidence of a connector day is in order and the rows that are there are the ones it describes.\<close>

definition evidence_matches :: "prune_env \<Rightarrow> day_pair \<Rightarrow> ingest_db \<Rightarrow> source_identity \<Rightarrow> bool" where
  "evidence_matches env pair db i \<longleftrightarrow>
     (let p = dp_day pair; rows = canonical_rows_of env pair (dp_dayStart pair) (dp_dayEnd pair) db;
          verdict = classifyLockedEvidence (en_version env) (select_candidate p db) (select_gate p db) p
      in ev_failure verdict = None
         \<and> computePruneConnectorSourceIdentity (en_sha env) (List.map history_object rows) = Inr i
         \<and> ev_candidate verdict = Some i \<and> ev_gate verdict = Some i
         \<and> raw_day_count pair db = id_row_count i)"

definition deletion_done :: "prune_env \<Rightarrow> day_pair \<Rightarrow> ingest_db \<Rightarrow> ingest_db \<Rightarrow> bool" where
  "deletion_done env pair db db' \<longleftrightarrow>
     (\<exists>i. evidence_matches env pair db i \<and> consumed_once env pair db \<and> db' = drained env pair (id_row_count i) db)"

section \<open>Deleting\<close>

text \<open>A copy from which n observations have been deleted.\<close>

definition shrunk :: "ingest_db \<Rightarrow> int \<Rightarrow> ingest_db \<Rightarrow> bool" where
  "shrunk db n w \<longleftrightarrow> (\<exists>P. w = db\<lparr>pg_observations := filter P (pg_observations db)\<rparr>)
     \<and> int (length (pg_observations w)) + n = int (length (pg_observations db))"

lemma shrunk_start: "shrunk db 0 db"
  unfolding shrunk_def by (auto intro!: exI [of _ "\<lambda>_. True"])

lemma shrunk_delete:
  assumes "shrunk db n w" "delete_batch env pair hour k w = (m, w')"
  shows "shrunk db (n + m) w'"
proof -
  obtain P where P: "w = db\<lparr>pg_observations := filter P (pg_observations db)\<rparr>" using assms(1) by (auto simp: shrunk_def)
  define T where "T = (\<lambda>ob. \<exists>t \<in> set (take k (canonical_rows_of env pair hour (hour + MS_HOUR) w)). has_key_of t ob)"
  have w': "w' = w\<lparr>pg_observations := filter (\<lambda>ob. \<not> T ob) (pg_observations w)\<rparr>"
    and m: "m = int (length (filter T (pg_observations w)))"
    using assms(2) by (simp_all add: delete_batch_def T_def Let_def)
  have "w' = db\<lparr>pg_observations := filter (\<lambda>ob. \<not> T ob \<and> P ob) (pg_observations db)\<rparr>"
    using w' P by (simp add: conj_commute)
  moreover have "length (filter T (pg_observations w)) + length (filter (\<lambda>ob. \<not> T ob) (pg_observations w)) =
      length (pg_observations w)"
    by (rule sum_length_filter_compl)
  moreover have "pg_observations w' = filter (\<lambda>ob. \<not> T ob) (pg_observations w)" using w' by simp
  moreover have "int (length (pg_observations w)) + n = int (length (pg_observations db))" using assms(1) by (simp add: shrunk_def)
  ultimately show ?thesis
    unfolding shrunk_def using m by (intro conjI exI [of _ "\<lambda>ob. \<not> T ob \<and> P ob"]) simp_all
qed

lemma ensures_delete_batches:
  assumes "\<And>e s. kept db s \<Longrightarrow> E e s"
  shows "ensures (working db (shrunk db (n + k))) (delete_batches env pair hour sz left run k)
    (\<lambda>(run', k'). working db (shrunk db (n + k'))) E"
proof (induction left arbitrary: run k)
  case 0
  show ?case by (auto intro!: ensures_ret)
next
  case (Suc left)
  have "ensures (working db (shrunk db (n + k))) (tx_query (en_faults env) (delete_batch env pair hour sz))
      (\<lambda>m. working db (shrunk db (n + (k + m)))) E"
  proof (rule ensures_query [OF _ assms])
    fix w assume "shrunk db (n + k) w"
    then show "shrunk db (n + (k + fst (delete_batch env pair hour sz w))) (snd (delete_batch env pair hour sz w))"
      using shrunk_delete [of db "n + k" w env pair hour sz "fst (delete_batch env pair hour sz w)"
        "snd (delete_batch env pair hour sz w)"] by (simp add: add.assoc)
  qed
  then show ?case
    unfolding delete_batches.simps
  proof (rule ensures_bind)
    fix m
    show "ensures (working db (shrunk db (n + (k + m))))
        (if m = 0 then tx_ret (run + 1, k) else delete_batches env pair hour sz left (run + 1) (k + m))
        (\<lambda>(run', k'). working db (shrunk db (n + k'))) E"
      by (rule ensures_if) (auto intro!: ensures_ret Suc)
  qed
qed

lemma ensures_delete_hour:
  assumes "\<And>e s. kept db s \<Longrightarrow> E e s"
  shows "ensures (working db (shrunk db n)) (deleteOneHour env pair sz left b)
    (\<lambda>r. working db (shrunk db (n + br_deleted_rows r))) E"
  unfolding deleteOneHour_def
proof (rule ensures_bind)
  show "ensures (working db (shrunk db n)) (delete_batches env pair (bk_hour b) sz left 0 0)
      (\<lambda>(run', k'). working db (shrunk db (n + k'))) E"
    using ensures_delete_batches [OF assms, where n = n and k = 0] by simp
  show "ensures ((\<lambda>(run', k'). working db (shrunk db (n + k'))) x)
      (case x of (run, deleted) \<Rightarrow> tx_bind (read_db env (canonical_count env pair (bk_hour b) (bk_hour b + MS_HOUR)))
        (\<lambda>remaining. tx_ret \<lparr>br_connector_id = bk_connector_id b, br_hour_start = to_iso (bk_hour b),
          br_deleted_rows = deleted, br_batches_run = run, br_drained = (remaining = 0),
          br_remaining_rows = remaining, br_cap_reached = (left \<le> run \<and> 0 < remaining)\<rparr>))
      (\<lambda>r. working db (shrunk db (n + br_deleted_rows r))) E" for x
    by (cases x) (auto intro!: ensures_read_then ensures_ret assms simp: working_def)
qed

lemma ensures_delete_hours:
  assumes "\<And>e s. kept db s \<Longrightarrow> E e s"
  shows "ensures (working db (shrunk db (sum_list (List.map br_deleted_rows rs)))) (delete_hours env pair sz left bs rs)
    (\<lambda>(rs', c). working db (shrunk db (sum_list (List.map br_deleted_rows rs')))) E"
proof (induction bs arbitrary: rs)
  case Nil
  show ?case by (auto intro!: ensures_ret)
next
  case (Cons b bs)
  show ?case
    unfolding delete_hours.simps
  proof (rule ensures_bind [OF ensures_delete_hour [OF assms]])
    fix r
    have e: "sum_list (List.map br_deleted_rows rs) + br_deleted_rows r = sum_list (List.map br_deleted_rows (rs @ [r]))"
      by simp
    show "ensures (working db (shrunk db (sum_list (List.map br_deleted_rows rs) + br_deleted_rows r)))
        (if br_cap_reached r then tx_ret (rs @ [r], Some r) else delete_hours env pair sz left bs (rs @ [r]))
        (\<lambda>(rs', c). working db (shrunk db (sum_list (List.map br_deleted_rows rs')))) E"
      unfolding e by (rule ensures_if) (auto intro!: ensures_ret Cons simp del: map_append sum_list.append)
  qed
qed

text \<open>When as many rows have gone as the day had and none of the day is left, the rows of the day have gone.\<close>

lemma filter_same:
  assumes "\<And>x. x \<in> set xs \<Longrightarrow> P x \<Longrightarrow> Q x" "length (filter P xs) = length (filter Q xs)"
  shows "filter P xs = filter Q xs"
proof -
  have "filter P xs = filter P (filter Q xs)" using assms(1) by (auto intro: filter_cong)
  then show ?thesis using assms(2) by (metis filter_id_conv length_filter_less less_irrefl)
qed

lemma shrunk_day:
  assumes "shrunk db n w" "raw_day_count pair w = 0" "raw_day_count pair db = n"
  shows "w = without_day pair db"
proof -
  obtain P where w: "w = db\<lparr>pg_observations := filter P (pg_observations db)\<rparr>" using assms(1) by (auto simp: shrunk_def)
  have "filter P (pg_observations db) = filter (\<lambda>ob. \<not> of_day pair ob) (pg_observations db)"
  proof (rule filter_same)
    have "filter (of_day pair) (filter P (pg_observations db)) = []"
      using assms(2) by (simp add: raw_day_count_def w)
    then show "\<not> of_day pair x" if "x \<in> set (pg_observations db)" "P x" for x using that by (simp add: filter_empty_conv)
    show "length (filter P (pg_observations db)) = length (filter (\<lambda>ob. \<not> of_day pair ob) (pg_observations db))"
      using assms(1,3) sum_length_filter_compl [of "of_day pair" "pg_observations db"]
      by (simp add: shrunk_def w raw_day_count_def)
  qed
  then show ?thesis by (simp add: w without_day_def)
qed

section \<open>What the evidence says\<close>

lemma classify_evidence_pair:
  assumes "ev_failure (classifyLockedEvidence version candidate gate p) = None"
  shows "js_truthy candidate" "js_truthy gate" "evidencePairMatches candidate p" "evidencePairMatches gate p"
    "jget candidate ''status'' = JStr ''complete''" "jget candidate ''last_error'' = JStr FIRST_DELETE_READY"
    "js_truthy (jget candidate ''run_id'')" "jget candidate ''run_id'' = jget gate ''history_run_id''"
    "jget candidate ''manifest_key'' = jget gate ''history_manifest_key''"
    "\<not> starts_with (str_or_empty (jget candidate ''last_error'')) FIRST_DELETE_CONSUMED"
proof -
  note d = assms [unfolded classifyLockedEvidence_def Let_def]
  have g1: "js_truthy candidate"
    by (rule ccontr) (use d  in \<open>simp add: unfit_def\<close>)
  have g2: "js_truthy gate"
    by (rule ccontr) (use d g1 in \<open>simp add: unfit_def\<close>)
  have g3: "evidencePairMatches candidate p"
    by (rule ccontr) (use d g1 g2 in \<open>simp add: unfit_def\<close>)
  have g4: "evidencePairMatches gate p"
    by (rule ccontr) (use d g1 g2 g3 in \<open>simp add: unfit_def\<close>)
  have g5: "jget candidate ''status'' = JStr ''complete''"
    by (rule ccontr) (use d g1 g2 g3 g4 in \<open>simp add: unfit_def\<close>)
  have g6: "\<not> starts_with (str_or_empty (jget candidate ''last_error'')) FIRST_DELETE_CONSUMED"
    by (rule ccontr) (use d g1 g2 g3 g4 g5 in \<open>simp add: unfit_def\<close>)
  have g7: "jget candidate ''last_error'' = JStr FIRST_DELETE_READY"
    by (rule ccontr) (use d g1 g2 g3 g4 g5 g6 in \<open>simp add: unfit_def\<close>)
  have g8: "\<not> (\<not> js_truthy (jget candidate ''run_id'') \<or> jget candidate ''run_id'' \<noteq> jget gate ''history_run_id'' \<or> jget candidate ''manifest_key'' \<noteq> jget gate ''history_manifest_key'')"
    by (rule ccontr) (use d g1 g2 g3 g4 g5 g6 g7 in \<open>simp add: unfit_def\<close>)
  show "js_truthy candidate" "js_truthy gate" "evidencePairMatches candidate p" "evidencePairMatches gate p"
    "jget candidate ''status'' = JStr ''complete''" "jget candidate ''last_error'' = JStr FIRST_DELETE_READY"
    "js_truthy (jget candidate ''run_id'')" "jget candidate ''run_id'' = jget gate ''history_run_id''"
    "jget candidate ''manifest_key'' = jget gate ''history_manifest_key''"
    "\<not> starts_with (str_or_empty (jget candidate ''last_error'')) FIRST_DELETE_CONSUMED"
    using g1 g2 g3 g4 g5 g6 g7 g8 by simp_all
qed

lemma classify_facts:
  assumes "ev_failure (classifyLockedEvidence version candidate gate p) = None"
  obtains ci gi where "normalizePruneConnectorSourceIdentity candidate = Inr ci"
    "normalizePruneConnectorSourceIdentity gate = Inr gi" "isValidConnectorHistoryGateEvidence version gate"
    "identity_difference ci gi = None" "jget candidate ''status'' = JStr ''complete''"
    "jget candidate ''last_error'' = JStr FIRST_DELETE_READY" "js_truthy (jget candidate ''run_id'')"
    "ev_candidate (classifyLockedEvidence version candidate gate p) = Some ci"
    "ev_gate (classifyLockedEvidence version candidate gate p) = Some gi"
proof -
  note d = assms [unfolded classifyLockedEvidence_def Let_def]
  note g = classify_evidence_pair [OF assms]
  obtain ci where ci: "normalizePruneConnectorSourceIdentity candidate = Inr ci"
    using d g by (cases "normalizePruneConnectorSourceIdentity candidate") (simp_all add: unfit_def)
  obtain gi where gi: "normalizePruneConnectorSourceIdentity gate = Inr gi"
    using d g ci by (cases "normalizePruneConnectorSourceIdentity gate") (simp_all add: unfit_def)
  have v: "isValidConnectorHistoryGateEvidence version gate"
    by (rule ccontr) (use d g ci gi in \<open>simp add: unfit_def\<close>)
  have w: "identity_difference ci gi = None" using d g ci gi v by simp
  have "ev_candidate (classifyLockedEvidence version candidate gate p) = Some ci"
    "ev_gate (classifyLockedEvidence version candidate gate p) = Some gi"
    using g ci gi v by (simp_all add: classifyLockedEvidence_def Let_def)
  then show thesis using that [OF ci gi v w] g by blast
qed

lemma identity_difference_None: "identity_difference i k = None \<Longrightarrow> id_row_count i = id_row_count k \<and> id_hash i = id_hash k"
  by (simp add: identity_difference_def split: if_splits)

lemma identity_same:
  assumes "identity_difference i k = None" "id_version i = id_version k"
  shows "i = k"
  using assms identity_difference_None [OF assms(1)] by (cases i, cases k) simp

lemma identity_object_read: "normalizePruneConnectorSourceIdentity (identity_object i) = Inr k \<Longrightarrow> k = i"
  by (cases i) (auto simp: normalizePruneConnectorSourceIdentity_def identity_object_def num_safe_integer_def
      split: if_splits option.splits)

lemma prune_identity_count:
  assumes "computePruneConnectorSourceIdentity sha rows = Inr i"
  shows "id_row_count i = int (length rows)"
  using assms by (auto simp: computePruneConnectorSourceIdentity_def res_simps split: if_splits dest!: res_mapM_length)

lemma current_facts:
  assumes "current_failure env rows (Some ci) = None"
  shows "computePruneConnectorSourceIdentity (en_sha env) (List.map history_object rows) = Inr ci"
proof -
  obtain i where i: "computePruneConnectorSourceIdentity (en_sha env) (List.map history_object rows) = Inr i"
    using assms by (auto simp: current_failure_def split: sum.splits)
  have "comparePruneConnectorSourceIdentities (identity_object i) (identity_object ci) = Inr None"
    using assms i by (auto simp: current_failure_def identity_input_def split: sum.splits)
  then obtain k l where kl: "normalizePruneConnectorSourceIdentity (identity_object i) = Inr k"
      "normalizePruneConnectorSourceIdentity (identity_object ci) = Inr l" "identity_difference k l = None"
    by (auto simp: comparePruneConnectorSourceIdentities_def res_simps)
  then have "i = ci"
    using identity_object_read identity_facts identity_same by metis
  then show ?thesis using i by simp
qed

section \<open>The states a transaction may leave\<close>

definition settled :: "prune_env \<Rightarrow> day_pair \<Rightarrow> ingest_db \<Rightarrow> deletion_result \<Rightarrow> (ingest_db, 'v) session \<Rightarrow> bool" where
  "settled env pair db r s \<longleftrightarrow>
     (if de_ok r then deletion_done env pair db (se_db s)
      else se_db s = db \<or> (\<exists>reason. se_db s = withdrawn env (dp_day pair) reason db))"

definition conflicts :: "tx_error set" where "conflicts = DatabaseError ` set TRANSACTION_CONFLICT_CODES"

definition broken :: "prune_env \<Rightarrow> day_pair \<Rightarrow> ingest_db \<Rightarrow> tx_error \<Rightarrow> (ingest_db, 'v) session \<Rightarrow> bool" where
  "broken env pair db e s \<longleftrightarrow>
     se_db s = db \<or> (e \<notin> conflicts \<and>
       (deletion_done env pair db (se_db s) \<or> (\<exists>reason. se_db s = withdrawn env (dp_day pair) reason db)))"

abbreviation prune_triple ::
  "prune_env \<Rightarrow> day_pair \<Rightarrow> ingest_db \<Rightarrow> ((ingest_db, prune_vars) session \<Rightarrow> bool) \<Rightarrow> deletion_result prune \<Rightarrow> bool" where
  "prune_triple env pair db P m \<equiv> ensures P m (settled env pair db) (broken env pair db)"

lemma kept_broken: "kept db s \<Longrightarrow> broken env pair db e s"
  by (simp add: kept_def broken_def)

lemma working_broken: "working db W s \<Longrightarrow> broken env pair db e s"
  by (rule kept_broken [OF working_kept])

lemma kept_settled: "kept db s \<Longrightarrow> \<not> de_ok r \<Longrightarrow> settled env pair db r s"
  by (simp add: kept_def settled_def)

lemma settled_vars [simp]: "settled env pair db r (s\<lparr>se_vars := v\<rparr>) = settled env pair db r s"
  by (simp add: settled_def)

lemma blocked_not_ok [simp]: "\<not> de_ok (blocked rq lk reason info)" "\<not> de_ok (blockedResult pair bs c g reason info)"
  by (simp_all add: blocked_def blockedResult_def)

lemma prune_roll_back:
  assumes "\<not> de_ok r"
  shows "prune_triple env pair db (working db W) (roll_back_with env r)"
  unfolding roll_back_with_def
proof (rule ensures_bind)
  show "ensures (working db W) (tx_rollback (en_faults env)) (\<lambda>_. kept db) (broken env pair db)"
    by (rule ensures_rollback) (auto intro: kept_broken working_kept)
  show "prune_triple env pair db (kept db) (tx_bind (tx_vars stopped) (\<lambda>_. tx_ret r))" for x :: unit
    by (rule ensures_vars_then) (auto intro!: ensures_ret kept_settled assms)
qed

lemma prune_commit:
  assumes "rolls_back (set TRANSACTION_CONFLICT_CODES) (en_faults env)"
    "\<And>w. W w \<Longrightarrow> if de_ok r then deletion_done env pair db w else (\<exists>reason. w = withdrawn env (dp_day pair) reason db)"
  shows "prune_triple env pair db (working db W) (commit_with env r)"
  unfolding commit_with_def
proof (rule ensures_bind)
  show "ensures (working db W) (tx_commit (en_faults env) :: unit prune) (\<lambda>_. settled env pair db r) (broken env pair db)"
  proof (rule ensures_commit [OF assms(1), where W = W and db = db])
    show "settled env pair db r s" if "W (se_db s)" for s :: "(ingest_db, prune_vars) session"
      using assms(2) [OF that] by (auto simp: settled_def split: if_splits)
    show "broken env pair db e s" if "e \<notin> DatabaseError ` set TRANSACTION_CONFLICT_CODES" "W (se_db s)"
      for e and s :: "(ingest_db, prune_vars) session"
      using assms(2) [OF that(2)] that(1) by (auto simp: broken_def conflicts_def split: if_splits)
  qed (auto intro: kept_broken)
  show "prune_triple env pair db (settled env pair db r) (tx_bind (tx_vars stopped) (\<lambda>_. tx_ret r))" for x :: unit
    by (rule ensures_vars_then) (auto intro!: ensures_ret)
qed

lemma prune_withdraw:
  assumes "rolls_back (set TRANSACTION_CONFLICT_CODES) (en_faults env)" "pair = rq_pair rq"
  shows "prune_triple env pair db (working db (\<lambda>w. w = db)) (withdraw env rq lk reason info)"
  unfolding withdraw_def invalidateConnectorDayEvidence_def
proof (rule ensures_bind)
  let ?p = "dp_day (rq_pair rq)"
  show "ensures (working db (\<lambda>w. w = db))
      (tx_bind (write_db env (invalidate_candidates ?p reason (en_now env))) (\<lambda>_. write_db env (invalidate_gates ?p (en_now env))))
      (\<lambda>_. working db (\<lambda>w. w = withdrawn env ?p reason db)) (broken env pair db)"
    by (rule ensures_bind [OF ensures_write [where V = "\<lambda>w. w = invalidate_candidates ?p reason (en_now env) db"] ensures_write])
       (auto simp: withdrawn_def intro: kept_broken)
  show "prune_triple env pair db (working db (\<lambda>w. w = withdrawn env ?p reason db))
      (commit_with env (blocked rq lk reason (info\<lparr>bi_invalidated := True\<rparr>)))" for x :: unit
    by (rule prune_commit [OF assms(1)]) (auto simp: assms(2))
qed

lemma consume_ensures:
  assumes "c = select_candidate (dp_day pair) db" "g = select_gate (dp_day pair) db"
  shows "ensures (working db (\<lambda>w. w = without_day pair db)) (consumeFirstDeletionAuthority env (dp_day pair) c g n)
    (\<lambda>_. working db (\<lambda>w. w = drained env pair n db \<and> consumed_once env pair db)) (broken env pair db)"
proof -
  let ?p = "dp_day pair" and ?r = "jget c ''run_id''" and ?h = "jget g ''history_manifest_hash''"
  let ?m = "mark_candidate ?p (consumed_marker c g n) ?r (en_now env) (without_day pair db)"
  let ?c = "close_gate ?p ?r ?h (en_now env) (snd ?m)"
  have q1: "ensures (working db (\<lambda>w. w = without_day pair db))
      (tx_query (en_faults env) (mark_candidate ?p (consumed_marker c g n) ?r (en_now env)))
      (\<lambda>x. working db (\<lambda>w. w = snd ?m \<and> x = fst ?m)) (broken env pair db)"
    by (rule ensures_query) (auto intro: kept_broken)
  have q2: "ensures (working db (\<lambda>w. w = snd ?m)) (tx_query (en_faults env) (close_gate ?p ?r ?h (en_now env)))
      (\<lambda>x. working db (\<lambda>w. w = snd ?c \<and> x = fst ?c)) (broken env pair db)"
    by (rule ensures_query) (auto intro: kept_broken)
  have one: "consumed_once env pair db" if "fst ?m = 1" "fst ?c = 1"
    using that assms by (simp add: consumed_once_def Let_def mark_candidate_def close_gate_def without_day_def)
  have fin: "snd ?c = drained env pair n db" using assms by (simp add: drained_def Let_def)
  show ?thesis
    unfolding consumeFirstDeletionAuthority_def Let_def
  proof (rule ensures_bind [OF q1], rule ensures_working_pure, rule ensures_if)
    fix x assume x: "x = fst ?m" "\<not> x \<noteq> 1"
    show "ensures (working db (\<lambda>w. w = snd ?m))
        (tx_bind (tx_query (en_faults env) (close_gate ?p ?r ?h (en_now env)))
          (\<lambda>k. if k \<noteq> 1 then tx_fail (Thrown (JsError ''Original Prune deletion gate could not be consumed'')) else tx_ret ()))
        (\<lambda>_. working db (\<lambda>w. w = drained env pair n db \<and> consumed_once env pair db)) (broken env pair db)"
    proof (rule ensures_bind [OF q2], rule ensures_working_pure, rule ensures_if)
      fix y assume "y = fst ?c" "\<not> y \<noteq> 1"
      then show "ensures (working db (\<lambda>w. w = snd ?c)) (tx_ret ())
          (\<lambda>_. working db (\<lambda>w. w = drained env pair n db \<and> consumed_once env pair db)) (broken env pair db)"
        using x one fin by (auto intro!: ensures_ret simp: working_def)
    qed (auto intro!: ensures_fail working_broken)
  qed (auto intro!: ensures_fail working_broken)
qed

section \<open>The stages\<close>

text \<open>What the stages know about the evidence: it is what the snapshot holds.\<close>

definition locked_in :: "prune_env \<Rightarrow> day_pair \<Rightarrow> ingest_db \<Rightarrow> locked \<Rightarrow> bool" where
  "locked_in env pair db lk \<longleftrightarrow>
     lk_candidate lk = select_candidate (dp_day pair) db \<and> lk_gate lk = select_gate (dp_day pair) db
     \<and> lk_verdict lk = classifyLockedEvidence (en_version env) (lk_candidate lk) (lk_gate lk) (dp_day pair)"

lemma evidence_matchesI:
  assumes "locked_in env pair db lk" "ev_failure (lk_verdict lk) = None"
    "rows = canonical_rows_of env pair (dp_dayStart pair) (dp_dayEnd pair) db"
    "current_failure env rows (ev_candidate (lk_verdict lk)) = None" "raw_day_count pair db = int (length rows)"
  obtains i where "current_identity env rows = Some i" "ev_candidate (lk_verdict lk) = Some i" "ev_gate (lk_verdict lk) = Some i"
    "evidence_matches env pair db i" "raw_day_count pair db = id_row_count i"
proof -
  let ?v = "classifyLockedEvidence (en_version env) (select_candidate (dp_day pair) db) (select_gate (dp_day pair) db) (dp_day pair)"
  have v: "lk_verdict lk = ?v" using assms(1) by (simp add: locked_in_def)
  obtain i gi where i: "normalizePruneConnectorSourceIdentity (select_candidate (dp_day pair) db) = Inr i"
      "normalizePruneConnectorSourceIdentity (select_gate (dp_day pair) db) = Inr gi" "identity_difference i gi = None"
      "ev_candidate ?v = Some i" "ev_gate ?v = Some gi"
    using classify_facts [OF assms(2) [unfolded v]] by metis
  have gi: "gi = i" using identity_same [OF i(3)] identity_facts [OF i(1)] identity_facts [OF i(2)] by simp
  have c: "computePruneConnectorSourceIdentity (en_sha env) (List.map history_object rows) = Inr i"
    using current_facts assms(4) v i(4) by simp
  show thesis
  proof (rule that)
    show "current_identity env rows = Some i" using c by (simp add: current_identity_def)
    show "ev_candidate (lk_verdict lk) = Some i" "ev_gate (lk_verdict lk) = Some i" using v i gi by simp_all
    show "raw_day_count pair db = id_row_count i" using prune_identity_count [OF c] assms(5) by simp
    then show "evidence_matches env pair db i"
      using c v i gi assms(2,3) by (simp add: evidence_matches_def Let_def)
  qed
qed

lemma prune_confirm:
  assumes "rolls_back (set TRANSACTION_CONFLICT_CODES) (en_faults env)" "pair = rq_pair rq" "locked_in env pair db lk"
    "evidence_matches env pair db i" "de_ok report"
  shows "prune_triple env pair db (working db (\<lambda>w. w = without_day pair db)) (confirm env rq lk (id_row_count i) report)"
  unfolding confirm_def assms(2) [symmetric]
proof (rule ensures_bind [OF consume_ensures])
  show "prune_triple env pair db
      (working db (\<lambda>w. w = drained env pair (id_row_count i) db \<and> consumed_once env pair db)) (commit_with env report)" for x :: unit
    by (rule prune_commit [OF assms(1)]) (use assms(4,5) in \<open>auto simp: deletion_done_def\<close>)
qed (use assms(3) in \<open>simp_all add: locked_in_def\<close>)

lemma prune_check_counts:
  assumes "rolls_back (set TRANSACTION_CONFLICT_CODES) (en_faults env)" "pair = rq_pair rq" "locked_in env pair db lk"
    "evidence_matches env pair db i" "raw_day_count pair db = id_row_count i"
  shows "prune_triple env pair db
    (working db (\<lambda>w. shrunk db (sum_list (List.map br_deleted_rows results)) w \<and> raw_day_count pair w = 0))
    (check_counts env rq lk cv i rawRows canonicalRows info results)"
proof -
  let ?n = "sum_list (List.map br_deleted_rows results)" and ?m = "sum_list (List.map bk_count (cv_buckets cv))"
  let ?W = "\<lambda>w. shrunk db ?n w \<and> raw_day_count pair w = 0"
  have fin: "prune_triple env pair db (working db ?W) (confirm env rq lk ?n report)"
    if "?n = id_row_count i" "de_ok report" for report
  proof (rule ensures_strengthen)
    show "prune_triple env pair db (working db (\<lambda>w. w = without_day pair db)) (confirm env rq lk ?n report)"
      unfolding that(1) by (rule prune_confirm [OF assms(1-4) that(2)])
    show "working db (\<lambda>w. w = without_day pair db) s" if "working db ?W s" for s :: "(ingest_db, prune_vars) session"
      using that shrunk_day [of db ?n _ pair] assms(5) \<open>?n = id_row_count i\<close> by (auto simp: working_def)
  qed
  show ?thesis
    unfolding check_counts_def Let_def
    by (intro ensures_res_then ensures_if prune_roll_back) (auto intro: fin working_broken simp: deletion_report_def)
qed

lemma prune_settle:
  assumes "rolls_back (set TRANSACTION_CONFLICT_CODES) (en_faults env)" "pair = rq_pair rq" "locked_in env pair db lk"
    "evidence_matches env pair db i" "raw_day_count pair db = id_row_count i"
  shows "prune_triple env pair db (working db (shrunk db (sum_list (List.map br_deleted_rows results))))
    (settle env rq lk cv i rawRows canonicalRows info results)"
proof -
  let ?n = "sum_list (List.map br_deleted_rows results)"
  have counts: "prune_triple env pair db (working db V) (check_counts env rq lk cv i rawRows canonicalRows info results)"
    if "\<And>w. V w \<Longrightarrow> shrunk db ?n w \<and> raw_day_count pair w = 0" for V info
    by (rule ensures_strengthen [OF prune_check_counts [OF assms]]) (use that in \<open>auto simp: working_def\<close>)
  show ?thesis
    unfolding settle_def Let_def assms(2) [symmetric]
    by (intro ensures_read_then ensures_if prune_roll_back counts) (auto intro: kept_broken)
qed

lemma prune_delete_covered:
  assumes "rolls_back (set TRANSACTION_CONFLICT_CODES) (en_faults env)" "pair = rq_pair rq" "locked_in env pair db lk"
    "evidence_matches env pair db i" "raw_day_count pair db = id_row_count i"
  shows "prune_triple env pair db (working db (\<lambda>w. w = db)) (delete_covered env rq lk rows i rawRows)"
proof -
  have hours: "ensures (working db (\<lambda>w. w = db)) (delete_hours env pair sz left bs [])
      (\<lambda>(rs, c). working db (shrunk db (sum_list (List.map br_deleted_rows rs)))) (broken env pair db)" for sz left bs
    by (rule ensures_strengthen [OF ensures_delete_hours [where rs = "[]"]])
       (auto simp: working_def shrunk_start intro: kept_broken)
  have rest: "prune_triple env pair db ((\<lambda>(rs, c). working db (shrunk db (sum_list (List.map br_deleted_rows rs)))) x)
      (case x of (results, capped) \<Rightarrow> (case capped of
          Some r \<Rightarrow> roll_back_with env (blocked rq lk reason (info1 r))
        | None \<Rightarrow> settle env rq lk cv i rawRows canonicalRows info2 results))"
    for x :: "bucket_result list \<times> bucket_result option" and reason info1 cv canonicalRows info2
    by (cases x) (auto split: option.split intro!: prune_roll_back prune_settle assms)
  show ?thesis
    unfolding delete_covered_def Let_def assms(2) [symmetric]
    by (intro ensures_res_then ensures_vars_then ensures_if prune_roll_back ensures_bind [OF hours rest])
       (auto intro: working_broken)
qed

lemma prune_scope_mismatch:
  assumes "\<And>hours. \<not> de_ok (r hours)"
  shows "prune_triple env pair db (working db W)
    (tx_bind (tx_rollback (en_faults env)) (\<lambda>_. tx_bind (tx_vars stopped) (\<lambda>_. tx_bind (tx_res m) (\<lambda>hours. tx_ret (r hours)))))"
proof (rule ensures_bind)
  show "ensures (working db W) (tx_rollback (en_faults env)) (\<lambda>_. kept db) (broken env pair db)"
    by (rule ensures_rollback) (auto intro: kept_broken working_kept)
  show "prune_triple env pair db (kept db) (tx_bind (tx_vars stopped) (\<lambda>_. tx_bind (tx_res m) (\<lambda>hours. tx_ret (r hours))))"
    for x :: unit
    by (intro ensures_vars_then ensures_res_then ensures_ret) (auto intro: kept_settled kept_broken simp: assms)
qed

lemma prune_compare_current:
  assumes "rolls_back (set TRANSACTION_CONFLICT_CODES) (en_faults env)" "pair = rq_pair rq" "locked_in env pair db lk"
    "ev_failure (lk_verdict lk) = None"
  shows "prune_triple env pair db (working db (\<lambda>w. w = db)) (compare_current env rq lk)"
proof -
  let ?rows = "canonical_rows_of env pair (dp_dayStart pair) (dp_dayEnd pair) db"
  have covered: "prune_triple env pair db (working db (\<lambda>w. w = db))
      (delete_covered env rq lk ?rows i (raw_day_count pair db))"
    if c: "current_failure env ?rows (ev_candidate (lk_verdict lk)) = None" "current_identity env ?rows = Some i"
      "raw_day_count pair db = int (length ?rows)" for i
  proof -
    obtain k where "current_identity env ?rows = Some k" "evidence_matches env pair db k" "raw_day_count pair db = id_row_count k"
      using evidence_matchesI [OF assms(3,4) refl c(1,3)] by metis
    then show ?thesis using c(2) by (intro prune_delete_covered [OF assms(1-3)]) simp_all
  qed
  have cases: "prune_triple env pair db (working db (\<lambda>w. w = db))
      (case (current_failure env ?rows (ev_candidate (lk_verdict lk)), current_identity env ?rows) of
          (None, Some i) \<Rightarrow>
            if raw_day_count pair db \<noteq> int (length ?rows)
            then tx_bind (tx_rollback (en_faults env)) (\<lambda>_. tx_bind (tx_vars stopped) (\<lambda>_.
              tx_bind (tx_res m) (\<lambda>hours. tx_ret (blocked rq lk reason (info1 hours)))))
            else delete_covered env rq lk ?rows i (raw_day_count pair db)
        | (Some failureReason, _) \<Rightarrow> withdraw env rq lk failureReason info2
        | (None, None) \<Rightarrow> tx_fail (Thrown TypeError))" for m reason info2 and info1 :: "(string, int) jsmap \<Rightarrow> block_info"
  proof (cases "current_failure env ?rows (ev_candidate (lk_verdict lk))")
    case None
    note f = this
    show ?thesis
    proof (cases "current_identity env ?rows")
      case None
      then show ?thesis using f by (auto intro!: ensures_fail working_broken)
    next
      case (Some i)
      have "prune_triple env pair db (working db (\<lambda>w. w = db))
          (if raw_day_count pair db \<noteq> int (length ?rows)
            then tx_bind (tx_rollback (en_faults env)) (\<lambda>_. tx_bind (tx_vars stopped) (\<lambda>_.
              tx_bind (tx_res m) (\<lambda>hours. tx_ret (blocked rq lk reason (info1 hours)))))
            else delete_covered env rq lk ?rows i (raw_day_count pair db))"
        by (rule ensures_if, rule prune_scope_mismatch, simp, rule covered [OF f Some]) simp
      then show ?thesis unfolding f Some by simp
    qed
  qed (auto intro: prune_withdraw [OF assms(1,2)])
  show ?thesis
    unfolding compare_current_def Let_def assms(2) [symmetric]
    by (intro ensures_read_start ensures_vars_then ensures_if prune_roll_back cases) (auto intro: kept_broken)
qed

lemma prune_body_triple:
  assumes "rolls_back (set TRANSACTION_CONFLICT_CODES) (en_faults env)" "pair = rq_pair rq"
  shows "prune_triple env pair db (\<lambda>s. se_db s = db) (prune_body env rq)"
proof -
  let ?c = "select_candidate (dp_day pair) db" and ?g = "select_gate (dp_day pair) db"
  let ?v = "classifyLockedEvidence (en_version env) ?c ?g (dp_day pair)"
  let ?lk = "\<lparr>lk_candidate = ?c, lk_gate = ?g, lk_verdict = ?v\<rparr>"
  have cases: "prune_triple env pair db (working db (\<lambda>w. w = db))
      (case ev_failure ?v of
         Some reason \<Rightarrow> if ev_preserve ?v then roll_back_with env (blocked rq ?lk reason info1) else withdraw env rq ?lk reason info2
       | None \<Rightarrow> compare_current env rq ?lk)" for info1 info2
    by (auto split: option.split intro!: ensures_if prune_roll_back prune_withdraw prune_compare_current
        simp: assms(1,2) locked_in_def)
  show ?thesis
    unfolding prune_body_def Let_def assms(2) [symmetric]
  proof (rule ensures_bind [OF ensures_begin [where db = db]])
    show "prune_triple env pair db (working db (\<lambda>w. w = db))
      (tx_bind (tx_vars (\<lambda>v. v\<lparr>pv_started := True\<rparr>)) (\<lambda>_.
      tx_bind (read_db env (select_candidate (dp_day pair))) (\<lambda>candidate.
      tx_bind (read_db env (select_gate (dp_day pair))) (\<lambda>gate.
      tx_bind (tx_vars (\<lambda>v. v\<lparr>pv_candidate := candidate, pv_gate := gate\<rparr>)) (\<lambda>_.
        case ev_failure (classifyLockedEvidence (en_version env) candidate gate (dp_day pair)) of
             Some failureReason \<Rightarrow>
               if ev_preserve (classifyLockedEvidence (en_version env) candidate gate (dp_day pair))
               then roll_back_with env (blocked rq \<lparr>lk_candidate = candidate, lk_gate = gate,
                 lk_verdict = classifyLockedEvidence (en_version env) candidate gate (dp_day pair)\<rparr>
                 failureReason (no_info\<lparr>bi_rolled_back := True\<rparr>))
               else withdraw env rq \<lparr>lk_candidate = candidate, lk_gate = gate,
                 lk_verdict = classifyLockedEvidence (en_version env) candidate gate (dp_day pair)\<rparr> failureReason no_info
           | None \<Rightarrow> compare_current env rq \<lparr>lk_candidate = candidate, lk_gate = gate,
                 lk_verdict = classifyLockedEvidence (en_version env) candidate gate (dp_day pair)\<rparr>)))))" for x :: unit
      by (intro ensures_vars_then ensures_read_start cases) (auto intro: kept_broken)
  qed (auto intro: kept_broken)
qed

text \<open>The catch block changes nothing that is committed.\<close>

lemma prune_failed_triple:
  "prune_triple env (rq_pair rq) db (broken env (rq_pair rq) db e) (prune_failed env rq e)"
proof -
  let ?K = "broken env (rq_pair rq) db e"
  have "ensures ?K (tx_rollback (en_faults env)) (\<lambda>_. ?K) (\<lambda>_. ?K)"
    unfolding broken_def [abs_def] by (rule ensures_rollback_db)
  then have roll: "ensures ?K (if b then tx_catch (tx_rollback (en_faults env)) (\<lambda>_. tx_ret ()) else tx_ret ()) (\<lambda>_. ?K)
      (broken env (rq_pair rq) db)" for b
    by (auto intro!: ensures_if ensures_catch ensures_ret)
  have answer: "prune_triple env (rq_pair rq) db ?K
      (case e of
         DatabaseError code \<Rightarrow> if code \<in> set TRANSACTION_CONFLICT_CODES
           then tx_ret (blockedResult (rq_pair rq) (rq_buckets rq) c g reason info) else tx_fail e
       | Thrown _ \<Rightarrow> tx_fail e)" for c g reason info
    by (auto split: tx_error.split intro!: ensures_if ensures_ret ensures_fail
        simp: broken_def settled_def conflicts_def)
  show ?thesis
    unfolding prune_failed_def
    by (rule ensures_bind [OF ensures_read_vars [where Q = "\<lambda>_. ?K"]], assumption, rule ensures_bind [OF roll answer])
qed

lemma run_triple:
  assumes "rolls_back (set TRANSACTION_CONFLICT_CODES) (en_faults env)"
  shows "ensures (\<lambda>s. se_db s = db)
    (runPruneConnectorDayDeletionTransaction env dayUtc connectorId buckets sz left codes)
    (\<lambda>r s. \<exists>pair. normalizePair dayUtc connectorId = Inr pair \<and> settled env pair db r s)
    (\<lambda>e s. se_db s = db \<or> (\<exists>pair. normalizePair dayUtc connectorId = Inr pair \<and> broken env pair db e s))"
  unfolding runPruneConnectorDayDeletionTransaction_def
proof (intro ensures_res_then ensures_vars_then)
  fix pair bs assume p: "normalizePair dayUtc connectorId = Inr pair"
  let ?rq = "\<lparr>rq_pair = pair, rq_buckets = bs, rq_subset = (array_of codes \<noteq> []), rq_batch_size = sz, rq_max_batches = left\<rparr>"
  have "prune_triple env pair db (\<lambda>s. se_db s = db) (tx_catch (prune_body env ?rq) (prune_failed env ?rq))"
    by (rule ensures_catch [OF prune_body_triple]) (use prune_failed_triple [of env ?rq db] assms in simp_all)
  then show "ensures (\<lambda>s. se_db s = db)
      (let rq = ?rq in tx_catch (prune_body env rq) (prune_failed env rq))
      (\<lambda>r s. \<exists>pair. normalizePair dayUtc connectorId = Inr pair \<and> settled env pair db r s)
      (\<lambda>e s. se_db s = db \<or> (\<exists>pair. normalizePair dayUtc connectorId = Inr pair \<and> broken env pair db e s))"
    unfolding Let_def by (rule ensures_weaken) (use p in auto)
qed auto

section \<open>After a deletion\<close>

lemma drained_parts:
  "pg_observations (drained env pair n db) = filter (\<lambda>ob. \<not> of_day pair ob) (pg_observations db)"
  "pg_candidates (drained env pair n db) =
     List.map (\<lambda>c. if ready_candidate (dp_day pair) (jget (select_candidate (dp_day pair) db) ''run_id'') c
       then c\<lparr>hc_last_error := Some (consumed_marker (select_candidate (dp_day pair) db) (select_gate (dp_day pair) db) n),
         hc_updated_at := en_now env\<rparr> else c) (pg_candidates db)"
  "pg_gates (drained env pair n db) =
     List.map (\<lambda>g. if open_for (dp_day pair) (jget (select_candidate (dp_day pair) db) ''run_id'')
         (jget (select_gate (dp_day pair) db) ''history_manifest_hash'') g
       then g\<lparr>gt_history_done := False, gt_updated_at := en_now env\<rparr> else g) (pg_gates db)"
  by (simp_all add: drained_def Let_def mark_candidate_def close_gate_def without_day_def)

lemma withdrawn_observations [simp]: "pg_observations (withdrawn env p reason db) = pg_observations db"
  by (simp add: withdrawn_def invalidate_gates_def invalidate_candidates_def)

lemma select_candidate_row:
  assumes "js_truthy (select_candidate p db)"
  obtains c cs where "filter (is_candidate_of p) (pg_candidates db) = c # cs" "select_candidate p db = candidate_object c"
    "is_candidate_of p c"
proof -
  obtain c cs where f: "filter (is_candidate_of p) (pg_candidates db) = c # cs"
    using assms by (cases "filter (is_candidate_of p) (pg_candidates db)") (simp_all add: select_candidate_def first_row_def)
  then have "c \<in> set (filter (is_candidate_of p) (pg_candidates db))" by simp
  then have "is_candidate_of p c" by simp
  then show thesis using that f by (simp add: select_candidate_def first_row_def)
qed

lemma select_gate_row:
  assumes "js_truthy (select_gate p db)"
  obtains g gs where "filter (is_gate_of p) (pg_gates db) = g # gs" "select_gate p db = gate_object g" "is_gate_of p g"
proof -
  obtain g gs where f: "filter (is_gate_of p) (pg_gates db) = g # gs"
    using assms by (cases "filter (is_gate_of p) (pg_gates db)") (simp_all add: select_gate_def first_row_def)
  then have "g \<in> set (filter (is_gate_of p) (pg_gates db))" by simp
  then have "is_gate_of p g" by simp
  then show thesis using that f by (simp add: select_gate_def first_row_def)
qed

lemma object_pairs [simp]:
  "jget (candidate_object c) ''day_utc'' = JStr (hc_day_utc c)" "jget (candidate_object c) ''connector_id'' = JInt (hc_connector_id c)"
  "jget (candidate_object c) ''status'' = JStr (hc_status c)" "jget (candidate_object c) ''run_id'' = str_or_null (hc_run_id c)"
  "jget (candidate_object c) ''last_error'' = str_or_null (hc_last_error c)"
  "jget (gate_object g) ''day_utc'' = JStr (gt_day_utc g)" "jget (gate_object g) ''connector_id'' = JInt (gt_connector_id g)"
  "js_truthy (candidate_object c)" "js_truthy (gate_object g)"
  by (simp_all add: candidate_object_def gate_object_def)

lemma filter_map_keep:
  assumes "\<And>x. x \<in> set xs \<Longrightarrow> P (f x) = P x"
  shows "filter P (List.map f xs) = List.map f (filter P xs)"
  using assms by (induction xs) auto

text \<open>After a deletion the evidence reads as already used.\<close>

lemma drained_verdict:
  assumes "ev_failure (classifyLockedEvidence version (select_candidate p db) (select_gate p db) p) = None" "p = dp_day pair"
  shows "classifyLockedEvidence version' (select_candidate p (drained env pair n db)) (select_gate p (drained env pair n db)) p
    = unfit ''first_deletion_already_committed'' True"
proof -
  note f = classify_evidence_pair [OF assms(1)]
  obtain c cs where c: "filter (is_candidate_of p) (pg_candidates db) = c # cs" "select_candidate p db = candidate_object c"
    "is_candidate_of p c" using select_candidate_row f by metis
  obtain g gs where g: "filter (is_gate_of p) (pg_gates db) = g # gs" "select_gate p db = gate_object g" "is_gate_of p g"
    using select_gate_row f by metis
  let ?r = "jget (select_candidate p db) ''run_id''" and ?h = "jget (select_gate p db) ''history_manifest_hash''"
  let ?m = "consumed_marker (select_candidate p db) (select_gate p db) n"
  let ?c = "c\<lparr>hc_last_error := Some ?m, hc_updated_at := en_now env\<rparr>"
  let ?g = "if open_for p ?r ?h g then g\<lparr>gt_history_done := False, gt_updated_at := en_now env\<rparr> else g"
  have ready: "ready_candidate p ?r c"
    using f c(2,3) by (cases "hc_run_id c"; cases "hc_last_error c") (auto simp: ready_candidate_def str_or_null_def)
  have "select_candidate p (drained env pair n db) = candidate_object ?c"
    unfolding select_candidate_def first_row_def drained_parts(2) assms(2) [symmetric]
    by (subst filter_map_keep) (use c ready in \<open>auto simp: is_candidate_of_def select_candidate_def first_row_def\<close>)
  moreover have "select_gate p (drained env pair n db) = gate_object ?g"
    unfolding select_gate_def first_row_def drained_parts(3) assms(2) [symmetric]
    by (subst filter_map_keep) (use g in \<open>auto simp: is_gate_of_def select_gate_def first_row_def\<close>)
  moreover have "evidencePairMatches (candidate_object ?c) p" "evidencePairMatches (gate_object ?g) p"
    using f c(2) g(2) by (simp_all add: evidencePairMatches_def)
  moreover have "hc_status ?c = ''complete''" using f c(2) by simp
  moreover have "starts_with (str_or_empty (str_or_null (Some ?m))) FIRST_DELETE_CONSUMED"
    by (simp add: str_or_null_def consumed_marker_def starts_with_def)
  ultimately show ?thesis by (simp add: classifyLockedEvidence_def Let_def)
qed

lemma prune_body_preserved:
  assumes "classifyLockedEvidence (en_version env) (select_candidate p db) (select_gate p db) p = unfit reason True"
    "p = dp_day (rq_pair rq)"
  shows "ensures (\<lambda>s. se_db s = db) (prune_body env rq)
    (\<lambda>r s. kept db s \<and> \<not> de_ok r \<and> di_failure_reason (de_diagnostics r) = Some reason) (\<lambda>_. kept db)"
proof -
  let ?Q = "\<lambda>r s. kept db s \<and> \<not> de_ok r \<and> di_failure_reason (de_diagnostics r) = Some reason"
  have roll: "ensures (working db (\<lambda>w. w = db)) (roll_back_with env (blocked rq lk reason info)) ?Q (\<lambda>_. kept db)" for lk info
    unfolding roll_back_with_def
  proof (rule ensures_bind)
    show "ensures (working db (\<lambda>w. w = db)) (tx_rollback (en_faults env)) (\<lambda>_. kept db) (\<lambda>_. kept db)"
      by (rule ensures_rollback) (auto intro: working_kept)
    show "ensures (kept db) (tx_bind (tx_vars stopped) (\<lambda>_. tx_ret (blocked rq lk reason info))) ?Q (\<lambda>_. kept db)" for x :: unit
      by (rule ensures_vars_then) (auto intro!: ensures_ret simp: blocked_def blockedResult_def)
  qed
  show ?thesis
    unfolding prune_body_def Let_def assms(2) [symmetric]
    by (rule ensures_bind [OF ensures_begin [where db = db]])
       (auto intro!: ensures_vars_then ensures_read_start roll simp: assms(1) unfit_def)
qed

section \<open>One run\<close>

lemma run_settled:
  assumes "rolls_back (set TRANSACTION_CONFLICT_CODES) (en_faults env)"
    "runPruneConnectorDayDeletionTransaction env dayUtc connectorId buckets sz left codes s = (Inr r, s')"
  obtains pair where "normalizePair dayUtc connectorId = Inr pair" "settled env pair (se_db s) r s'"
  using ensuresD(1) [OF run_triple [OF assms(1), of "se_db s" dayUtc connectorId buckets sz left codes] refl assms(2)] by blast

lemma run_broken:
  assumes "rolls_back (set TRANSACTION_CONFLICT_CODES) (en_faults env)"
    "runPruneConnectorDayDeletionTransaction env dayUtc connectorId buckets sz left codes s = (Inl e, s')"
  shows "se_db s' = se_db s \<or> (\<exists>pair. normalizePair dayUtc connectorId = Inr pair \<and> broken env pair (se_db s) e s')"
  using ensuresD(2) [OF run_triple [OF assms(1), of "se_db s" dayUtc connectorId buckets sz left codes] refl assms(2)] by blast

lemma settled_ok: "settled env pair db r s \<Longrightarrow> de_ok r \<Longrightarrow> deletion_done env pair db (se_db s)"
  by (simp add: settled_def)

lemma settled_blocked:
  "settled env pair db r s \<Longrightarrow> \<not> de_ok r \<Longrightarrow> pg_observations (se_db s) = pg_observations db"
  by (auto simp: settled_def)

lemma broken_observations:
  assumes "broken env pair db e s"
  shows "pg_observations (se_db s) = pg_observations db \<or> (e \<notin> conflicts \<and> deletion_done env pair db (se_db s))"
  using assms by (auto simp: broken_def)

lemma deletion_done_observations:
  "deletion_done env pair db db' \<Longrightarrow> pg_observations db' = filter (\<lambda>ob. \<not> of_day pair ob) (pg_observations db)"
  by (auto simp: deletion_done_def drained_parts)

lemma deletion_done_evidence: "deletion_done env pair db db' \<Longrightarrow> \<exists>i. evidence_matches env pair db i"
  by (auto simp: deletion_done_def)

lemma run_preserved:
  assumes "normalizePair dayUtc connectorId = Inr pair"
    "classifyLockedEvidence (en_version env) (select_candidate (dp_day pair) db) (select_gate (dp_day pair) db) (dp_day pair)
      = unfit reason True"
  shows "ensures (\<lambda>s. se_db s = db) (runPruneConnectorDayDeletionTransaction env dayUtc connectorId buckets sz left codes)
    (\<lambda>r s. se_db s = db \<and> \<not> de_ok r
       \<and> di_failure_reason (de_diagnostics r) \<in> {Some reason, Some ''source_identity_transaction_conflict''})
    (\<lambda>_ s. se_db s = db)"
  unfolding runPruneConnectorDayDeletionTransaction_def
proof (intro ensures_res_then ensures_vars_then)
  let ?Q = "\<lambda>r s. se_db s = db \<and> \<not> de_ok r
       \<and> di_failure_reason (de_diagnostics r) \<in> {Some reason, Some ''source_identity_transaction_conflict''}"
  fix pair' bs assume "normalizePair dayUtc connectorId = Inr pair'"
  then have pair': "pair' = pair" using assms(1) by simp
  let ?rq = "\<lparr>rq_pair = pair', rq_buckets = bs, rq_subset = (array_of codes \<noteq> []), rq_batch_size = sz, rq_max_batches = left\<rparr>"
  have "ensures (kept db) (prune_failed env ?rq e) ?Q (\<lambda>_ s. se_db s = db)" for e
    unfolding prune_failed_def
  proof (rule ensures_bind [OF ensures_read_vars [where Q = "\<lambda>_. kept db"]], assumption, rule ensures_bind)
    fix v :: prune_vars
    show "ensures (kept db) (if pv_started v then tx_catch (tx_rollback (en_faults env)) (\<lambda>_. tx_ret ()) else tx_ret ())
        (\<lambda>_. kept db) (\<lambda>_ s. se_db s = db)"
      by (auto intro!: ensures_if ensures_catch [where F = "\<lambda>_. kept db"] ensures_ret ensures_rollback)
  next
    fix v :: prune_vars
    show "ensures (kept db)
      (case e of
         DatabaseError code \<Rightarrow>
           if code \<in> set TRANSACTION_CONFLICT_CODES
           then tx_ret (blockedResult (rq_pair ?rq) (rq_buckets ?rq) (pv_candidate v) (pv_gate v)
             ''source_identity_transaction_conflict''
             (no_info\<lparr>bi_identity := pv_identity v, bi_match := (pv_identity v \<noteq> None), bi_rolled_back := True,
               bi_current_buckets := pv_current_buckets v, bi_raw_rows := pv_raw_rows v,
               bi_canonical_rows := pv_canonical_rows v, bi_scope_match := scope_of (pv_raw_rows v) (pv_canonical_rows v)\<rparr>))
           else tx_fail e
       | Thrown _ \<Rightarrow> tx_fail e) ?Q (\<lambda>_ s. se_db s = db)" for x :: unit
      by (auto split: tx_error.split intro!: ensures_if ensures_ret ensures_fail simp: kept_def blockedResult_def)
  qed
  note failed = this
  have "ensures (\<lambda>s. se_db s = db) (prune_body env ?rq) ?Q (\<lambda>_. kept db)"
    by (rule ensures_weaken [OF prune_body_preserved [where p = "dp_day pair" and reason = reason, OF assms(2)]])
       (simp_all add: pair' kept_def)
  then have "ensures (\<lambda>s. se_db s = db) (tx_catch (prune_body env ?rq) (prune_failed env ?rq)) ?Q (\<lambda>_ s. se_db s = db)"
    by (rule ensures_catch) (rule failed)
  then show "ensures (\<lambda>s. se_db s = db) (let rq = ?rq in tx_catch (prune_body env rq) (prune_failed env rq)) ?Q (\<lambda>_ s. se_db s = db)"
    unfolding Let_def .
qed auto

section \<open>All connector days of a plan\<close>

lemma normalizePair_again:
  assumes "normalizePair v w = Inr pair"
  shows "normalizePair (JStr (cd_day_utc (dp_day pair))) (JInt (cd_connector_id (dp_day pair))) = Inr pair"
proof -
  have r: "real_day (take 10 (str_or_empty v))" "dp_day pair = \<lparr>cd_day_utc = take 10 (str_or_empty v),
      cd_connector_id = cd_connector_id (dp_day pair)\<rparr>" "0 < cd_connector_id (dp_day pair)"
      "cd_connector_id (dp_day pair) \<le> max_safe_integer"
    using assms by (auto simp: normalizePair_def Let_def split: if_splits option.splits dest: safe_integer_range)
  have d: "cd_day_utc (dp_day pair) = take 10 (str_or_empty v)" using r(2) by (metis connector_day.select_convs(1))
  show ?thesis
    using assms r(1,3,4) d by (auto simp: normalizePair_def Let_def safe_of_int split: if_splits option.splits)
qed

lemma groups_normal:
  assumes "groupBucketsByConnectorDay buckets = Inr groups" "g \<in> set groups"
  shows "normalizePair (JStr (cd_day_utc (dp_day (dg_pair g)))) (JInt (cd_connector_id (dp_day (dg_pair g)))) = Inr (dg_pair g)"
proof -
  let ?N = "\<lambda>g. normalizePair (JStr (cd_day_utc (dp_day (dg_pair g)))) (JInt (cd_connector_id (dp_day (dg_pair g)))) = Inr (dg_pair g)"
  let ?I = "\<lambda>m. \<forall>(k, g) \<in> set m. ?N g"
  obtain m where m: "res_fold add_bucket (array_of buckets) jm_empty = Inr m"
    "groups = sort_key (\<lambda>g. (collation_key (cd_day_utc (dp_day (dg_pair g))), cd_connector_id (dp_day (dg_pair g)))) (jm_values m)"
    using assms(1) by (auto simp: groupBucketsByConnectorDay_def res_simps)
  have step: "?I m'" if "add_bucket v n = Inr m'" "?I n" for v m' and n :: "(string, day_group) jsmap"
  proof -
    note added = that(1)
    obtain pair b where p: "normalizePair (JStr (take 10 (str_or_empty (rb_hour_start (raw_of v))))) (rb_connector_id (raw_of v)) = Inr pair"
      and m': "m' = put_bucket pair b n"
      using added by (auto simp: add_bucket_def Let_def res_simps)
    define key where "key = cd_day_utc (dp_day pair) @ ''|'' @ int_str (cd_connector_id (dp_day pair))"
    define group where "group = (case jm_get n key of None \<Rightarrow> \<lparr>dg_pair = pair, dg_buckets = []\<rparr> | Some g \<Rightarrow> g)"
    have "?N group"
    proof (cases "jm_get n key")
      case None
      then show ?thesis using normalizePair_again [OF p] by (simp add: group_def)
    next
      case (Some h)
      then have "(key, h) \<in> set n" by (simp add: jm_get_def map_of_SomeD)
      then show ?thesis using that(2) Some by (auto simp: group_def)
    qed
    then have "?N (group\<lparr>dg_buckets := dg_buckets group @ [b]\<rparr>)" by simp
    then show ?thesis
      using that(2) set_jm_set [of key "group\<lparr>dg_buckets := dg_buckets group @ [b]\<rparr>" n]
      unfolding m' put_bucket_def Let_def key_def [symmetric] group_def [symmetric] by auto
  qed
  have "?I m" using m(1) by (rule res_fold_inv) (use step in \<open>auto simp: jm_empty_def\<close>)
  then show ?thesis using assms(2) m(2) by (auto simp: jm_values_def)
qed

text \<open>An observation that no successful result of the list covers.\<close>

definition spared :: "day_group list \<Rightarrow> deletion_result list \<Rightarrow> observation \<Rightarrow> bool" where
  "spared groups results ob \<longleftrightarrow> list_all (\<lambda>(g, r). de_ok r \<longrightarrow> \<not> of_day (dg_pair g) ob) (zip groups results)"

text \<open>One group with a connection of its own.\<close>

lemma group_triple:
  assumes "rolls_back (set TRANSACTION_CONFLICT_CODES) (en_faults env)"
    "normalizePair (JStr (cd_day_utc (dp_day pair))) (JInt (cd_connector_id (dp_day pair))) = Inr pair"
  shows "ensures (\<lambda>s. pg_observations (se_db s) = obs)
    (with_deletion_client env url (runPruneConnectorDayDeletionTransaction env (JStr (cd_day_utc (dp_day pair)))
       (JInt (cd_connector_id (dp_day pair))) bs sz left codes))
    (\<lambda>r s. pg_observations (se_db s) = filter (\<lambda>ob. de_ok r \<longrightarrow> \<not> of_day pair ob) obs)
    (\<lambda>_ s. pg_observations (se_db s) \<in> {obs, filter (\<lambda>ob. \<not> of_day pair ob) obs})"
proof -
  let ?run = "runPruneConnectorDayDeletionTransaction env (JStr (cd_day_utc (dp_day pair))) (JInt (cd_connector_id (dp_day pair))) bs sz left codes"
  let ?R = "\<lambda>r d. pg_observations d = filter (\<lambda>ob. de_ok r \<longrightarrow> \<not> of_day pair ob) obs"
  let ?T = "\<lambda>d. pg_observations d \<in> {obs, filter (\<lambda>ob. \<not> of_day pair ob) obs}"
  have run: "ensures (\<lambda>s. pg_observations (se_db s) = obs) ?run (\<lambda>r s. ?R r (se_db s)) (\<lambda>_ s. ?T (se_db s))"
  proof (rule ensures_db [where R = "\<lambda>d. pg_observations d = obs"], rule ensures_weaken [OF run_triple [OF assms(1)]])
    fix db :: ingest_db and r and s :: "(ingest_db, prune_vars) session"
    assume d: "pg_observations db = obs"
      "\<exists>q. normalizePair (JStr (cd_day_utc (dp_day pair))) (JInt (cd_connector_id (dp_day pair))) = Inr q \<and> settled env q db r s"
    then have "settled env pair db r s" using assms(2) by simp
    then show "?R r (se_db s)"
      using d(1) settled_ok settled_blocked deletion_done_observations by (cases "de_ok r") fastforce+
  next
    fix db :: ingest_db and e and s :: "(ingest_db, prune_vars) session"
    assume d: "pg_observations db = obs" "se_db s = db \<or> (\<exists>q. normalizePair (JStr (cd_day_utc (dp_day pair)))
        (JInt (cd_connector_id (dp_day pair))) = Inr q \<and> broken env q db e s)"
    then have "se_db s = db \<or> broken env pair db e s" using assms(2) by auto
    then show "?T (se_db s)" using d(1) broken_observations deletion_done_observations by blast
  qed
  have connect: "ensures (\<lambda>s. pg_observations (se_db s) = obs) (read_db env (\<lambda>_. ()))
      (\<lambda>_ s. pg_observations (se_db s) = obs) (\<lambda>_ s. ?T (se_db s))"
    by (auto simp: ensures_def read_db_def tx_query_def Let_def split: option.splits)
  have last: "ensures (\<lambda>s. pg_observations (se_db s) = obs) (tx_finally ?run (tx_rollback (en_faults env)))
      (\<lambda>r s. ?R r (se_db s)) (\<lambda>_ s. ?T (se_db s))"
  proof (rule ensures_finally_rollback [OF run])
    show "?T d" if "?R r d" for r d using that by (cases "de_ok r") simp_all
  qed
  show ?thesis
    unfolding with_deletion_client_def
    by (intro ensures_if ensures_fail ensures_bind [OF connect last]) simp
qed

lemma spared_Cons:
  "spared (g # gs) (r # rs) = (\<lambda>ob. (de_ok r \<longrightarrow> \<not> of_day (dg_pair g) ob) \<and> spared gs rs ob)"
  by (rule ext) (simp add: spared_def)

lemma groups_triple:
  assumes "\<And>g obs. g \<in> set gs \<Longrightarrow> ensures (\<lambda>s. pg_observations (se_db s) = obs) (f g)
    (\<lambda>r s. pg_observations (se_db s) = filter (\<lambda>ob. de_ok r \<longrightarrow> \<not> of_day (dg_pair g) ob) obs)
    (\<lambda>_ s. pg_observations (se_db s) \<in> {obs, filter (\<lambda>ob. \<not> of_day (dg_pair g) ob) obs})"
  shows "ensures (\<lambda>s. pg_observations (se_db s) = obs) (tx_mapM f gs)
    (\<lambda>rs s. length rs = length gs \<and> pg_observations (se_db s) = filter (spared gs rs) obs)
    (\<lambda>_ s. \<exists>ps \<subseteq> dg_pair ` set gs. pg_observations (se_db s) = filter (\<lambda>ob. \<forall>p \<in> ps. \<not> of_day p ob) obs)"
  using assms
proof (induction gs arbitrary: obs)
  case Nil
  show ?case by (auto intro!: ensures_ret simp: spared_def)
next
  case (Cons g gs)
  let ?F = "\<lambda>obs gs rest. \<exists>ps \<subseteq> dg_pair ` set gs. rest = filter (\<lambda>ob. \<forall>p \<in> ps. \<not> of_day p ob) obs"
  let ?E = "\<lambda>obs gs s. ?F obs gs (pg_observations (se_db s))"
  have widen: "?F obs (g # gs) rest" if "?F (filter (\<lambda>ob. c \<longrightarrow> \<not> of_day (dg_pair g) ob) obs) gs rest" for rest c
  proof -
    from that obtain ps where ps: "ps \<subseteq> dg_pair ` set gs"
      "rest = filter (\<lambda>ob. \<forall>p \<in> ps. \<not> of_day p ob) (filter (\<lambda>ob. c \<longrightarrow> \<not> of_day (dg_pair g) ob) obs)"
      by blast
    have "rest = filter (\<lambda>ob. \<forall>p \<in> (if c then insert (dg_pair g) ps else ps). \<not> of_day p ob) obs"
      unfolding ps(2) filter_filter by (rule filter_cong) auto
    moreover have "(if c then insert (dg_pair g) ps else ps) \<subseteq> dg_pair ` set (g # gs)" using ps(1) by auto
    ultimately show ?thesis by blast
  qed
  show ?case
    unfolding tx_mapM.simps
  proof (rule ensures_bind)
    show "ensures (\<lambda>s. pg_observations (se_db s) = obs) (f g)
        (\<lambda>r s. pg_observations (se_db s) = filter (\<lambda>ob. de_ok r \<longrightarrow> \<not> of_day (dg_pair g) ob) obs) (\<lambda>_. ?E obs (g # gs))"
    proof (rule ensures_weaken [OF Cons.prems [of g]])
      fix e :: tx_error and s
      assume "pg_observations (se_db s) \<in> {obs, filter (\<lambda>ob. \<not> of_day (dg_pair g) ob) obs}"
      then show "?E obs (g # gs) s" using exI [of _ "{}"] exI [of _ "{dg_pair g}"] by fastforce
    qed auto
    fix r
    show "ensures (\<lambda>s. pg_observations (se_db s) = filter (\<lambda>ob. de_ok r \<longrightarrow> \<not> of_day (dg_pair g) ob) obs)
        (tx_bind (tx_mapM f gs) (\<lambda>rs. tx_ret (r # rs)))
        (\<lambda>rs s. length rs = length (g # gs) \<and> pg_observations (se_db s) = filter (spared (g # gs) rs) obs) (\<lambda>_. ?E obs (g # gs))"
    proof (rule ensures_bind)
      show "ensures (\<lambda>s. pg_observations (se_db s) = filter (\<lambda>ob. de_ok r \<longrightarrow> \<not> of_day (dg_pair g) ob) obs) (tx_mapM f gs)
        (\<lambda>rs s. length rs = length gs \<and> pg_observations (se_db s) =
            filter (spared gs rs) (filter (\<lambda>ob. de_ok r \<longrightarrow> \<not> of_day (dg_pair g) ob) obs)) (\<lambda>_. ?E obs (g # gs))"
      proof (rule ensures_weaken [OF Cons.IH])
        fix e :: tx_error and s
        assume "?E (filter (\<lambda>ob. de_ok r \<longrightarrow> \<not> of_day (dg_pair g) ob) obs) gs s"
        then show "?E obs (g # gs) s" by (rule widen)
      qed (use Cons.prems in auto)
      show "ensures (\<lambda>s. length rs = length gs \<and> pg_observations (se_db s) =
            filter (spared gs rs) (filter (\<lambda>ob. de_ok r \<longrightarrow> \<not> of_day (dg_pair g) ob) obs)) (tx_ret (r # rs))
        (\<lambda>rs s. length rs = length (g # gs) \<and> pg_observations (se_db s) = filter (spared (g # gs) rs) obs) (\<lambda>_. ?E obs (g # gs))" for rs
        by (rule ensures_ret) (simp add: spared_Cons)
    qed
  qed
qed

end
