(* ===== verification/PruneProgress.thy ===== *)
theory PruneProgress
  imports PruneSafety
begin

text \<open>
  When nothing fails, the transaction of PruneDeletion reaches its commit: the steps without faults, the loops over
  batches and hours, the hours of a plan that covers a day exactly, and a whole run.
\<close>

section \<open>Steps without faults\<close>

definition faultless :: "faults \<Rightarrow> bool" where
  "faultless faults \<longleftrightarrow> (\<forall>k. faults k = None)"

abbreviation succeeds ::
  "(('db, 'v) session \<Rightarrow> bool) \<Rightarrow> ('db, 'v, 'a) tx \<Rightarrow> ('a \<Rightarrow> ('db, 'v) session \<Rightarrow> bool) \<Rightarrow> bool" where
  "succeeds P m Q \<equiv> ensures P m Q (\<lambda>_ _. False)"

lemma succeeds_query:
  assumes "faultless faults" "\<And>w. W w \<Longrightarrow> V (fst (f w)) (snd (f w))"
  shows "succeeds (working db W) (tx_query faults f) (\<lambda>x. working db (V x))"
proof -
  have "V x w'" if "W w" "f w = (x, w')" for w x w' using assms(2) [OF that(1)] that(2) by simp
  then show ?thesis
    using assms(1) by (auto simp: ensures_def tx_query_def working_def faultless_def Let_def split: option.splits prod.splits)
qed

lemma succeeds_begin:
  assumes "faultless faults" "\<And>s. P s \<Longrightarrow> se_db s = db"
  shows "succeeds P (tx_begin faults) (\<lambda>_. working db (\<lambda>w. w = db))"
  using assms by (auto simp: ensures_def tx_begin_def working_def faultless_def Let_def)

lemma succeeds_commit:
  assumes "faultless faults" "\<And>s. Q () s"
  shows "succeeds P (tx_commit faults) Q"
  using assms by (auto simp: ensures_def tx_commit_def faultless_def Let_def split: option.splits)

lemma succeeds_read_then:
  assumes "faultless (en_faults env)" "\<And>x. ensures (working db (\<lambda>w. W w \<and> x = g w)) (f x) Q (\<lambda>_ _. False)"
  shows "succeeds (working db W) (tx_bind (read_db env g) f) Q"
  by (rule ensures_bind [where R = "\<lambda>x. working db (\<lambda>w. W w \<and> x = g w)", OF _ assms(2)])
     (use assms(1) in \<open>auto simp: read_db_def intro!: succeeds_query\<close>)

lemma succeeds_read_start:
  assumes "faultless (en_faults env)" "succeeds (working db (\<lambda>w. w = db)) (f (g db)) Q"
  shows "succeeds (working db (\<lambda>w. w = db)) (tx_bind (read_db env g) f) Q"
proof (rule ensures_bind)
  show "succeeds (working db (\<lambda>w. w = db)) (read_db env g) (\<lambda>x. working db (\<lambda>w. w = db \<and> x = g db))"
    unfolding read_db_def by (rule succeeds_query [OF assms(1)]) simp
  show "succeeds (working db (\<lambda>w. w = db \<and> x = g db)) (f x) Q" for x
  proof (rule ensures_working_pure)
    assume "x = g db"
    then show "succeeds (working db (\<lambda>w. w = db)) (f x) Q" using assms(2) by (rule ssubst)
  qed
qed

lemma succeeds_catch: "succeeds P m Q \<Longrightarrow> succeeds P (tx_catch m h) Q"
  unfolding ensures_def tx_catch_def by (fastforce split: prod.splits sum.splits)

lemma ensures_both:
  assumes "ensures P m Q E" "succeeds P m R"
  shows "succeeds P m (\<lambda>x s. Q x s \<and> R x s)"
  using assms unfolding ensures_def by (fastforce split: prod.splits sum.splits)

section \<open>Deleting hours\<close>

definition observation_key :: "observation \<Rightarrow> int \<times> int \<times> int" where
  "observation_key ob = (ob_connector_id ob, ob_timeseries_id ob, ob_observed_at ob)"

definition history_key :: "history_row \<Rightarrow> int \<times> int \<times> int" where
  "history_key r = (hr_connector_id r, hr_timeseries_id r, hr_observed_at r)"

text \<open>
  What is asked of the SQL function, which is not in the repository: as long as observations of this database are only
  deleted, its rows for a window of the day carry the keys of observations that are left in that window, at most one
  each, and whether it gives a row for an observation depends on that observation alone. It may leave observations out,
  as it does for one whose series has no metadata.
\<close>

definition canonical_selects :: "prune_env \<Rightarrow> day_pair \<Rightarrow> ingest_db \<Rightarrow> bool" where
  "canonical_selects env pair db \<longleftrightarrow> (\<exists>given. \<forall>left a b. dp_dayStart pair \<le> a \<and> b \<le> dp_dayEnd pair \<longrightarrow>
     mset (List.map history_key (en_canonical env (filter left (pg_observations db)) (cd_connector_id (dp_day pair)) a b)) =
     mset (List.map observation_key (filter (\<lambda>ob. given ob \<and> in_window (cd_connector_id (dp_day pair)) a b ob)
       (filter left (pg_observations db)))))"

text \<open>Every observation of the day has its row.\<close>

definition selects_all :: "prune_env \<Rightarrow> day_pair \<Rightarrow> ingest_db \<Rightarrow> bool" where
  "selects_all env pair db \<longleftrightarrow> (\<forall>left a b. dp_dayStart pair \<le> a \<and> b \<le> dp_dayEnd pair \<longrightarrow>
     mset (List.map history_key (en_canonical env (filter left (pg_observations db)) (cd_connector_id (dp_day pair)) a b)) =
     mset (List.map observation_key (filter (in_window (cd_connector_id (dp_day pair)) a b) (filter left (pg_observations db)))))"

lemma filter_all_of:
  assumes "length (filter (\<lambda>x. P x \<and> Q x) xs) = length (filter Q xs)" "x \<in> set xs" "Q x"
  shows "P x"
proof (rule ccontr)
  assume "\<not> P x"
  then have "0 < length (filter (\<lambda>x. \<not> P x) (filter Q xs))" using assms(2,3) by (auto simp: filter_empty_conv)
  moreover have "filter P (filter Q xs) = filter (\<lambda>x. P x \<and> Q x) xs" by (simp add: conj_commute)
  ultimately show False using assms(1) sum_length_filter_compl [of P "filter Q xs"] by simp
qed

text \<open>As many rows as observations, which the run checks, leave no observation out.\<close>

lemma selected_complete:
  assumes "canonical_selects env pair db"
    "int (length (canonical_rows_of env pair (dp_dayStart pair) (dp_dayEnd pair) db)) = raw_day_count pair db"
  shows "selects_all env pair db"
proof -
  let ?c = "cd_connector_id (dp_day pair)"
  obtain given where g: "\<forall>left a b. dp_dayStart pair \<le> a \<and> b \<le> dp_dayEnd pair \<longrightarrow>
     mset (List.map history_key (en_canonical env (filter left (pg_observations db)) ?c a b)) =
     mset (List.map observation_key (filter (\<lambda>ob. given ob \<and> in_window ?c a b ob) (filter left (pg_observations db))))"
    using assms(1) unfolding canonical_selects_def by blast
  have "mset (List.map history_key (canonical_rows_of env pair (dp_dayStart pair) (dp_dayEnd pair) db)) =
      mset (List.map observation_key (filter (\<lambda>ob. given ob \<and> of_day pair ob) (pg_observations db)))"
    using g [rule_format, of "dp_dayStart pair" "dp_dayEnd pair" "\<lambda>_. True"] by (simp add: canonical_rows_of_def of_day_def)
  from mset_eq_length [OF this]
  have "length (filter (\<lambda>ob. given ob \<and> of_day pair ob) (pg_observations db)) = length (filter (of_day pair) (pg_observations db))"
    using assms(2) by (simp add: raw_day_count_def)
  note all = filter_all_of [OF this]
  show ?thesis
    unfolding selects_all_def
  proof (intro allI impI)
    fix left a b assume w: "dp_dayStart pair \<le> a \<and> b \<le> dp_dayEnd pair"
    have "filter (\<lambda>ob. given ob \<and> in_window ?c a b ob) (filter left (pg_observations db)) =
        filter (in_window ?c a b) (filter left (pg_observations db))"
      by (rule filter_cong [OF refl]) (use all w in \<open>auto simp: of_day_def in_window_def\<close>)
    then show "mset (List.map history_key (en_canonical env (filter left (pg_observations db)) ?c a b)) =
        mset (List.map observation_key (filter (in_window ?c a b) (filter left (pg_observations db))))"
      using g [rule_format, OF w, of left] by simp
  qed
qed

text \<open>A copy that has lost observations, and nothing else.\<close>

definition part_of :: "ingest_db \<Rightarrow> ingest_db \<Rightarrow> bool" where
  "part_of db w \<longleftrightarrow> (\<exists>left. pg_observations w = filter left (pg_observations db))"

lemma part_of_filter: "part_of db w \<Longrightarrow> part_of db (w'\<lparr>pg_observations := filter P (pg_observations w)\<rparr>)"
proof -
  assume "part_of db w"
  then obtain left where "pg_observations w = filter left (pg_observations db)" by (auto simp: part_of_def)
  then have "pg_observations (w'\<lparr>pg_observations := filter P (pg_observations w)\<rparr>) = filter (\<lambda>x. P x \<and> left x) (pg_observations db)"
    by (simp add: conj_commute)
  then show ?thesis unfolding part_of_def by blast
qed

lemma part_of_refl: "part_of db db"
  unfolding part_of_def by (rule exI [of _ "\<lambda>_. True"]) simp

definition in_day :: "day_pair \<Rightarrow> int \<Rightarrow> bool" where
  "in_day pair h \<longleftrightarrow> dp_dayStart pair \<le> h \<and> h + MS_HOUR \<le> dp_dayEnd pair"

definition in_hour :: "day_pair \<Rightarrow> int \<Rightarrow> observation \<Rightarrow> bool" where
  "in_hour pair h = in_window (cd_connector_id (dp_day pair)) h (h + MS_HOUR)"

lemma has_key_of_iff: "has_key_of t ob \<longleftrightarrow> history_key t = observation_key ob"
  by (auto simp: has_key_of_def history_key_def observation_key_def)

lemma in_window_key: "observation_key ob = observation_key ob' \<Longrightarrow> in_window c a b ob = in_window c a b ob'"
  by (simp add: in_window_def observation_key_def)

lemma canonical_rows_keys:
  assumes "selects_all env pair db" "part_of db w" "dp_dayStart pair \<le> a" "b \<le> dp_dayEnd pair"
  shows "mset (List.map history_key (canonical_rows_of env pair a b w)) =
    mset (List.map observation_key (filter (in_window (cd_connector_id (dp_day pair)) a b) (pg_observations w)))"
proof -
  obtain left where left: "pg_observations w = filter left (pg_observations db)" using assms(2) by (auto simp: part_of_def)
  have "dp_dayStart pair \<le> a \<and> b \<le> dp_dayEnd pair" using assms(3,4) by simp
  with assms(1) show ?thesis unfolding selects_all_def canonical_rows_of_def left by blast
qed

lemma canonical_count_window:
  assumes "selects_all env pair db" "part_of db w" "dp_dayStart pair \<le> a" "b \<le> dp_dayEnd pair"
  shows "canonical_count env pair a b w = int (length (filter (in_window (cd_connector_id (dp_day pair)) a b) (pg_observations w)))"
  using mset_eq_length [OF canonical_rows_keys [OF assms]] by (simp add: canonical_count_def)

text \<open>A batch deletes rows of its hour only, and as many as it may or all of them.\<close>

lemma delete_batch_facts:
  assumes "selects_all env pair db" "part_of db w" "in_day pair h" "delete_batch env pair h sz w = (m, w')"
  defines "r \<equiv> length (filter (in_hour pair h) (pg_observations w))"
  shows "\<exists>obs. w' = w\<lparr>pg_observations := obs\<rparr>" "part_of db w'"
    "filter (\<lambda>ob. \<not> in_hour pair h ob) (pg_observations w') = filter (\<lambda>ob. \<not> in_hour pair h ob) (pg_observations w)"
    "m = int (r - length (filter (in_hour pair h) (pg_observations w')))"
    "length (filter (in_hour pair h) (pg_observations w')) \<le> r - sz"
proof -
  let ?obs = "pg_observations w" and ?H = "in_hour pair h"
  define ts where "ts = take sz (canonical_rows_of env pair h (h + MS_HOUR) w)"
  define T where "T = (\<lambda>ob. \<exists>t \<in> set ts. has_key_of t ob)"
  have w': "w' = w\<lparr>pg_observations := filter (\<lambda>ob. \<not> T ob) ?obs\<rparr>" and m: "m = int (length (filter T ?obs))"
    using assms(4) by (simp_all add: delete_batch_def ts_def T_def Let_def)
  have keys: "mset (List.map history_key (canonical_rows_of env pair h (h + MS_HOUR) w)) =
      mset (List.map observation_key (filter ?H ?obs))"
    using canonical_rows_keys [OF assms(1,2), of h "h + MS_HOUR"] assms(3) by (simp add: in_hour_def in_day_def)
  have TH: "?H ob" if T: "T ob" for ob
  proof -
    obtain t where t: "t \<in> set ts" "history_key t = observation_key ob" using T by (auto simp: T_def has_key_of_iff)
    from t(1) have "t \<in> set (canonical_rows_of env pair h (h + MS_HOUR) w)" unfolding ts_def by (rule in_set_takeD)
    then have "history_key t \<in># mset (List.map history_key (canonical_rows_of env pair h (h + MS_HOUR) w))" by simp
    then have "history_key t \<in># mset (List.map observation_key (filter ?H ?obs))" by (rule back_subst [OF _ keys])
    then have "history_key t \<in> observation_key ` set (filter ?H ?obs)" by (simp only: set_mset_mset set_map)
    then have "observation_key ob \<in> observation_key ` set (filter ?H ?obs)" using t(2) by (rule back_subst)
    then obtain ob' where ob': "observation_key ob = observation_key ob'" "ob' \<in> set (filter ?H ?obs)" by (rule imageE)
    then show ?thesis using in_window_key [OF ob'(1)] by (simp add: in_hour_def)
  qed
  show "\<exists>obs. w' = w\<lparr>pg_observations := obs\<rparr>" using w' by blast
  show "part_of db w'" unfolding w' by (rule part_of_filter [OF assms(2)])
  show "filter (\<lambda>ob. \<not> ?H ob) (pg_observations w') = filter (\<lambda>ob. \<not> ?H ob) ?obs"
  proof -
    have "(\<not> T ob \<and> \<not> ?H ob) = (\<not> ?H ob)" for ob using TH by blast
    then show ?thesis by (simp add: w')
  qed
  have split: "length (filter ?H ?obs) = length (filter T ?obs) + length (filter ?H (pg_observations w'))"
  proof -
    have "(?H ob \<and> T ob) = T ob" for ob using TH by blast
    then have "filter T (filter ?H ?obs) = filter T ?obs" by simp
    moreover have "filter (\<lambda>ob. \<not> T ob) (filter ?H ?obs) = filter ?H (pg_observations w')"
      by (simp add: w' conj_commute)
    ultimately show ?thesis using sum_length_filter_compl [of T "filter ?H ?obs"] by simp
  qed
  then show "m = int (r - length (filter ?H (pg_observations w')))" by (simp add: m r_def)
  have r: "length (canonical_rows_of env pair h (h + MS_HOUR) w) = r"
    using mset_eq_length [OF keys] by (simp add: r_def)
  let ?K = "List.map history_key ts" and ?O = "mset (List.map observation_key (filter ?H ?obs))"
  have "mset ?K \<subseteq># ?O"
    unfolding keys [symmetric] ts_def by (metis append_take_drop_id map_append mset_append mset_subset_eq_add_left)
  then have sub: "filter_mset (\<lambda>k. k \<in> set ?K) (mset ?K) \<subseteq># filter_mset (\<lambda>k. k \<in> set ?K) ?O" by (rule multiset_filter_mono)
  have "filter (\<lambda>k. k \<in> set ?K) ?K = ?K" by (rule filter_True) simp
  then have "filter_mset (\<lambda>k. k \<in> set ?K) (mset ?K) = mset ?K" unfolding mset_filter [symmetric] by (rule arg_cong)
  then have "length ts \<le> size (filter_mset (\<lambda>k. k \<in> set ?K) ?O)"
    using size_mset_mono [OF sub] by (simp only: size_mset length_map)
  also have "\<dots> = length (filter T ?obs)"
  proof -
    have "observation_key ob \<in> set (List.map history_key ts) \<longleftrightarrow> T ob" for ob
      by (auto simp: T_def has_key_of_iff image_iff eq_commute)
    moreover have "(?H ob \<and> T ob) = T ob" for ob using TH by blast
    ultimately have "filter (\<lambda>k. k \<in> set (List.map history_key ts)) (List.map observation_key (filter ?H ?obs)) =
        List.map observation_key (filter T ?obs)"
      by (simp only: filter_map comp_def filter_filter)
    then show ?thesis by (metis length_map mset_filter size_mset)
  qed
  finally have "min r sz \<le> length (filter T ?obs)" by (simp add: ts_def r)
  then show "length (filter ?H (pg_observations w')) \<le> r - sz" using split by (simp add: r_def)
qed

definition hour_rows :: "day_pair \<Rightarrow> int \<Rightarrow> ingest_db \<Rightarrow> nat" where
  "hour_rows pair h w = length (filter (in_hour pair h) (pg_observations w))"

text \<open>A copy that differs from another in the rows of one hour only.\<close>

definition differs_in_hour :: "day_pair \<Rightarrow> int \<Rightarrow> ingest_db \<Rightarrow> ingest_db \<Rightarrow> bool" where
  "differs_in_hour pair h w0 w \<longleftrightarrow> (\<exists>obs. w = w0\<lparr>pg_observations := obs\<rparr>)
     \<and> filter (\<lambda>ob. \<not> in_hour pair h ob) (pg_observations w) = filter (\<lambda>ob. \<not> in_hour pair h ob) (pg_observations w0)"

definition without_hours :: "day_pair \<Rightarrow> int list \<Rightarrow> ingest_db \<Rightarrow> ingest_db" where
  "without_hours pair hs db = db\<lparr>pg_observations := filter (\<lambda>ob. \<forall>h \<in> set hs. \<not> in_hour pair h ob) (pg_observations db)\<rparr>"

lemma succeeds_batches:
  assumes "faultless (en_faults env)" "selects_all env pair db" "0 < sz" "in_day pair h"
  shows "succeeds (working db (\<lambda>w. differs_in_hour pair h w0 w \<and> part_of db w \<and> hour_rows pair h w \<le> left * sz))
    (delete_batches env pair h sz left run d)
    (\<lambda>_. working db (\<lambda>w. differs_in_hour pair h w0 w \<and> part_of db w \<and> hour_rows pair h w = 0))"
proof (induction left arbitrary: run d)
  case 0
  show ?case by (auto intro!: ensures_ret)
next
  case (Suc left)
  let ?P = "\<lambda>k w. differs_in_hour pair h w0 w \<and> part_of db w \<and> hour_rows pair h w \<le> k"
  have "succeeds (working db (?P (Suc left * sz))) (tx_query (en_faults env) (delete_batch env pair h sz))
      (\<lambda>m. working db (\<lambda>w. ?P (left * sz) w \<and> (m = 0 \<longrightarrow> hour_rows pair h w = 0)))"
  proof (rule succeeds_query [OF assms(1)])
    fix w assume w: "?P (Suc left * sz) w"
    obtain m w' where b: "delete_batch env pair h sz w = (m, w')" by fastforce
    note f = delete_batch_facts [OF assms(2) conjunct1 [OF conjunct2 [OF w]] assms(4) b]
    have le: "hour_rows pair h w' \<le> hour_rows pair h w - sz" "m = int (hour_rows pair h w - hour_rows pair h w')"
      using f(4,5) by (simp_all add: hour_rows_def)
    have "differs_in_hour pair h w0 w'"
    proof -
      obtain obs obs' where "w = w0\<lparr>pg_observations := obs\<rparr>" "w' = w\<lparr>pg_observations := obs'\<rparr>"
        using w f(1) by (auto simp: differs_in_hour_def)
      then have "w' = w0\<lparr>pg_observations := obs'\<rparr>" by simp
      then show ?thesis using w f(3) by (auto simp: differs_in_hour_def)
    qed
    then show "?P (left * sz) (snd (delete_batch env pair h sz w)) \<and>
        (fst (delete_batch env pair h sz w) = 0 \<longrightarrow> hour_rows pair h (snd (delete_batch env pair h sz w)) = 0)"
      using le w f(2) assms(3) by (auto simp: b)
  qed
  then show ?case
    unfolding delete_batches.simps
  proof (rule ensures_bind)
    fix m
    show "succeeds (working db (\<lambda>w. ?P (left * sz) w \<and> (m = 0 \<longrightarrow> hour_rows pair h w = 0)))
        (if m = 0 then tx_ret (run + 1, d) else delete_batches env pair h sz left (run + 1) (d + m))
        (\<lambda>_. working db (\<lambda>w. differs_in_hour pair h w0 w \<and> part_of db w \<and> hour_rows pair h w = 0))"
    proof (rule ensures_if)
      assume "m = 0"
      then show "succeeds (working db (\<lambda>w. ?P (left * sz) w \<and> (m = 0 \<longrightarrow> hour_rows pair h w = 0))) (tx_ret (run + 1, d))
          (\<lambda>_. working db (\<lambda>w. differs_in_hour pair h w0 w \<and> part_of db w \<and> hour_rows pair h w = 0))"
        by (intro ensures_ret) (auto simp: working_def)
    next
      show "succeeds (working db (\<lambda>w. ?P (left * sz) w \<and> (m = 0 \<longrightarrow> hour_rows pair h w = 0)))
          (delete_batches env pair h sz left (run + 1) (d + m))
          (\<lambda>_. working db (\<lambda>w. differs_in_hour pair h w0 w \<and> part_of db w \<and> hour_rows pair h w = 0))"
        by (rule ensures_strengthen [OF Suc]) (auto simp: working_def)
    qed
  qed
qed

lemma differs_drained:
  assumes "differs_in_hour pair h w0 w" "hour_rows pair h w = 0"
  shows "w = without_hours pair [h] w0"
proof -
  have "filter (\<lambda>ob. \<not> in_hour pair h ob) (pg_observations w) = pg_observations w"
    using assms(2) by (simp add: hour_rows_def filter_empty_conv filter_id_conv)
  then have "pg_observations w = filter (\<lambda>ob. \<not> in_hour pair h ob) (pg_observations w0)"
    using assms(1) by (simp add: differs_in_hour_def)
  then show ?thesis using assms(1) by (auto simp: differs_in_hour_def without_hours_def)
qed

lemma succeeds_hour:
  assumes "faultless (en_faults env)" "selects_all env pair db" "0 < sz" "in_day pair (bk_hour b)" "part_of db w0"
    "hour_rows pair (bk_hour b) w0 \<le> left * sz"
  shows "succeeds (working db (\<lambda>w. w = w0)) (deleteOneHour env pair sz left b)
    (\<lambda>r. working db (\<lambda>w. w = without_hours pair [bk_hour b] w0 \<and> \<not> br_cap_reached r))"
  unfolding deleteOneHour_def
proof (rule ensures_bind)
  let ?h = "bk_hour b"
  let ?W = "\<lambda>w. differs_in_hour pair ?h w0 w \<and> part_of db w \<and> hour_rows pair ?h w = 0"
  show "succeeds (working db (\<lambda>w. w = w0)) (delete_batches env pair ?h sz left 0 0) (\<lambda>_. working db ?W)"
    by (rule ensures_strengthen [OF succeeds_batches [OF assms(1-4)]])
       (use assms(5,6) in \<open>auto simp: working_def differs_in_hour_def intro: exI [of _ "pg_observations w0"]\<close>)
  have rest: "canonical_count env pair ?h (?h + MS_HOUR) w = 0" if "?W w" for w
    using that canonical_count_window [OF assms(2), of w ?h "?h + MS_HOUR"] assms(4) by (simp add: hour_rows_def in_hour_def in_day_def)
  show "succeeds (working db ?W)
      (case x of (run, deleted) \<Rightarrow> tx_bind (read_db env (canonical_count env pair ?h (?h + MS_HOUR)))
        (\<lambda>remaining. tx_ret \<lparr>br_connector_id = bk_connector_id b, br_hour_start = to_iso ?h,
          br_deleted_rows = deleted, br_batches_run = run, br_drained = (remaining = 0),
          br_remaining_rows = remaining, br_cap_reached = (left \<le> run \<and> 0 < remaining)\<rparr>))
      (\<lambda>r. working db (\<lambda>w. w = without_hours pair [?h] w0 \<and> \<not> br_cap_reached r))" for x
    by (cases x) (auto intro!: succeeds_read_then assms(1) ensures_ret simp: working_def rest differs_drained)
qed

lemma hour_rows_without: "hour_rows pair h (without_hours pair hs w) \<le> hour_rows pair h w"
  unfolding hour_rows_def without_hours_def
  by (simp, rule length_filter_imp) simp

lemma without_hours_Cons: "without_hours pair (h # hs) w = without_hours pair hs (without_hours pair [h] w)"
  by (simp add: without_hours_def conj_commute)

lemma succeeds_hours:
  assumes "faultless (en_faults env)" "selects_all env pair db" "0 < sz" "part_of db w0"
    "\<forall>b \<in> set bs. in_day pair (bk_hour b) \<and> hour_rows pair (bk_hour b) w0 \<le> left * sz"
  shows "succeeds (working db (\<lambda>w. w = w0)) (delete_hours env pair sz left bs rs)
    (\<lambda>(rs', c). working db (\<lambda>w. w = without_hours pair (List.map bk_hour bs) w0 \<and> c = None))"
  using assms(4,5)
proof (induction bs arbitrary: rs w0)
  case Nil
  show ?case by (auto intro!: ensures_ret simp: without_hours_def working_def)
next
  case (Cons b bs)
  show ?case
    unfolding delete_hours.simps
  proof (rule ensures_bind [OF succeeds_hour [OF assms(1-3)]])
    show "in_day pair (bk_hour b)" "part_of db w0" "hour_rows pair (bk_hour b) w0 \<le> left * sz" using Cons.prems by simp_all
    fix r
    have part: "part_of db (without_hours pair [bk_hour b] w0)"
      unfolding without_hours_def by (rule part_of_filter [OF Cons.prems(1)])
    have le: "\<forall>b' \<in> set bs. in_day pair (bk_hour b') \<and> hour_rows pair (bk_hour b') (without_hours pair [bk_hour b] w0) \<le> left * sz"
      using Cons.prems(2) hour_rows_without by (metis le_trans list.set_intros(2))
    show "succeeds (working db (\<lambda>w. w = without_hours pair [bk_hour b] w0 \<and> \<not> br_cap_reached r))
        (if br_cap_reached r then tx_ret (rs @ [r], Some r) else delete_hours env pair sz left bs (rs @ [r]))
        (\<lambda>(rs', c). working db (\<lambda>w. w = without_hours pair (List.map bk_hour (b # bs)) w0 \<and> c = None))"
    proof (rule ensures_working_pure)
      assume "\<not> br_cap_reached r"
      then show "succeeds (working db (\<lambda>w. w = without_hours pair [bk_hour b] w0))
        (if br_cap_reached r then tx_ret (rs @ [r], Some r) else delete_hours env pair sz left bs (rs @ [r]))
        (\<lambda>(rs', c). working db (\<lambda>w. w = without_hours pair (List.map bk_hour (b # bs)) w0 \<and> c = None))"
        using Cons.IH [OF part le, of "rs @ [r]"] without_hours_Cons [of pair "bk_hour b" "List.map bk_hour bs" w0] by simp
    qed
  qed
qed

section \<open>The plan and the hours of the day\<close>

definition hour_of :: "int \<Rightarrow> int" where
  "hour_of t = t - t mod MS_HOUR"

definition count_in :: "(string, int) jsmap \<Rightarrow> string \<Rightarrow> int" where
  "count_in m k = (case jm_get m k of None \<Rightarrow> 0 | Some n \<Rightarrow> n)"

lemma count_hour_object:
  "count_hour (history_object r) m =
     Inr (jm_set (to_iso (hour_of (hr_observed_at r))) (count_in m (to_iso (hour_of (hr_observed_at r))) + 1) m)"
  by (simp add: count_hour_def history_object_def js_coalesce_def is_nullish_def new_date_def hour_of_def count_in_def Let_def)

lemma sum_values_set: "sum_list (jm_values (jm_set k v m)) = sum_list (jm_values m) + v - count_in m k"
  by (induction k v m rule: jm_set.induct) (auto simp: jm_values_def count_in_def jm_get_def)

text \<open>What the counts of a list of rows are.\<close>

lemma counted_hours:
  assumes "res_fold count_hour (List.map history_object rows) m0 = Inr m" "jm_wf m0"
  shows "jm_wf m \<and> sum_list (jm_values m) = sum_list (jm_values m0) + int (length rows)
    \<and> (\<forall>k. count_in m k = count_in m0 k + int (length (filter (\<lambda>r. to_iso (hour_of (hr_observed_at r)) = k) rows)))
    \<and> set (jm_keys m) = set (jm_keys m0) \<union> (\<lambda>r. to_iso (hour_of (hr_observed_at r))) ` set rows"
  using assms
proof (induction rows arbitrary: m0)
  case Nil
  then show ?case by simp
next
  case (Cons r rows)
  let ?k = "to_iso (hour_of (hr_observed_at r))"
  let ?m = "jm_set ?k (count_in m0 ?k + 1) m0"
  have f: "res_fold count_hour (List.map history_object rows) ?m = Inr m" using Cons.prems(1) by (simp add: count_hour_object)
  have c: "count_in ?m k = count_in m0 k + (if ?k = k then 1 else 0)" for k by (simp add: count_in_def jm_get_set)
  from Cons.IH [OF f] Cons.prems(2) show ?case
    by (auto simp: c sum_values_set jm_keys_set)
qed

lemma hour_counts:
  assumes "currentHourCounts (List.map history_object rows) = Inr m"
  shows "jm_wf m" "sum_list (jm_values m) = int (length rows)"
    "count_in m k = int (length (filter (\<lambda>r. to_iso (hour_of (hr_observed_at r)) = k) rows))"
    "set (jm_keys m) = (\<lambda>r. to_iso (hour_of (hr_observed_at r))) ` set rows"
  using counted_hours [of rows jm_empty m] assms
  by (simp_all add: currentHourCounts_def count_in_def jm_empty_def jm_keys_def jm_values_def jm_wf_def)

lemma bucket_again:
  assumes "normalizeBucket pair raw = Inr b"
  shows "normalizeBucket pair (raw_again b) = Inr b"
    and "date_parse (to_iso (bk_hour b)) = Some (bk_hour b)" and "bk_hour b mod MS_HOUR = 0" and "0 \<le> bk_count b"
proof -
  obtain n t where n: "date_parse (str_or_empty (rb_hour_start raw)) = Some t"
      "to_iso t = str_or_empty (rb_hour_start raw)" "take 10 (to_iso t) = cd_day_utc (dp_day pair)" "t mod MS_HOUR = 0" "0 \<le> n"
      "b = \<lparr>bk_connector_id = cd_connector_id (dp_day pair), bk_hour = t, bk_count = n\<rparr>"
    using assms by (auto simp: normalizeBucket_def Let_def res_simps split: if_splits option.splits)
  then show "normalizeBucket pair (raw_again b) = Inr b" "date_parse (to_iso (bk_hour b)) = Some (bk_hour b)"
    "bk_hour b mod MS_HOUR = 0" "0 \<le> bk_count b"
    by (auto simp: normalizeBucket_def raw_again_def count_of_def Let_def)
qed

lemma normalize_all_again:
  assumes "res_mapM (normalizeBucket pair) raws = Inr bs"
  shows "res_mapM (\<lambda>b. normalizeBucket pair (raw_again b)) bs = Inr bs"
    and "\<And>b. b \<in> set bs \<Longrightarrow> \<exists>raw. normalizeBucket pair raw = Inr b"
proof -
  have "res_mapM (\<lambda>b. normalizeBucket pair (raw_again b)) bs = Inr bs \<and> (\<forall>b \<in> set bs. \<exists>raw. normalizeBucket pair raw = Inr b)"
    using assms by (induction raws arbitrary: bs) (auto simp: res_simps bucket_again(1))
  then show "res_mapM (\<lambda>b. normalizeBucket pair (raw_again b)) bs = Inr bs"
    "\<And>b. b \<in> set bs \<Longrightarrow> \<exists>raw. normalizeBucket pair raw = Inr b" by blast+
qed

text \<open>Planned hours that do not repeat are kept in their order.\<close>

lemma jm_set_new: "k \<notin> set (jm_keys m) \<Longrightarrow> jm_set k v m = m @ [(k, v)]"
  by (induction k v m rule: jm_set.induct) (auto simp: jm_keys_def)

lemma planned_distinct:
  assumes "distinct (List.map (\<lambda>b. to_iso (bk_hour b)) bs)"
  shows "planned_hours bs = List.map (\<lambda>b. (to_iso (bk_hour b), b)) bs"
proof -
  have "fold (\<lambda>b. jm_set (to_iso (bk_hour b)) b) bs m = m @ List.map (\<lambda>b. (to_iso (bk_hour b), b)) bs"
    if "distinct (jm_keys m @ List.map (\<lambda>b. to_iso (bk_hour b)) bs)" for m
    using that by (induction bs arbitrary: m) (auto simp: jm_set_new jm_keys_def)
  from this [of jm_empty] assms show ?thesis by (simp add: planned_hours_def jm_empty_def jm_keys_def)
qed

text \<open>A plan that covers the day exactly has one bucket for each hour with rows, with their number.\<close>

lemma exact_plan:
  assumes "deletionPlanCoversCurrentConnectorDay pair bs (List.map history_object rows) = Inr cv" "cv_exact cv"
    "res_mapM (normalizeBucket pair) raws = Inr bs"
  shows "set (cv_buckets cv) = set bs" "sum_list (List.map bk_count (cv_buckets cv)) = int (length rows)"
    "(\<lambda>b. to_iso (bk_hour b)) ` set bs = (\<lambda>r. to_iso (hour_of (hr_observed_at r))) ` set rows"
    "\<And>b. b \<in> set bs \<Longrightarrow> bk_count b = int (length (filter (\<lambda>r. to_iso (hour_of (hr_observed_at r)) = to_iso (bk_hour b)) rows))"
proof -
  let ?f = "\<lambda>b. to_iso (bk_hour b)"
  obtain m where m: "currentHourCounts (List.map history_object rows) = Inr m"
    and cv: "cv = \<lparr>cv_exact = (distinct (List.map ?f bs) \<and> length (planned_hours bs) = length m
        \<and> list_all (\<lambda>(hourStart, n). map_option bk_count (jm_get (planned_hours bs) hourStart) = Some n) m),
      cv_current_buckets = int (length m), cv_eligible_buckets = int (length (planned_hours bs)),
      cv_buckets = sort_key (\<lambda>b. collation_key (?f b)) (jm_values (planned_hours bs))\<rparr>"
    using assms(1) normalize_all_again(1) [OF assms(3)]
    by (auto simp: deletionPlanCoversCurrentConnectorDay_def res_simps Let_def)
  have d: "distinct (List.map ?f bs)" and len: "length (planned_hours bs) = length m"
    and each: "\<And>k n. (k, n) \<in> set m \<Longrightarrow> map_option bk_count (jm_get (planned_hours bs) k) = Some n"
    using assms(2) by (auto simp: cv list_all_iff)
  have p: "planned_hours bs = List.map (\<lambda>b. (?f b, b)) bs" by (rule planned_distinct [OF d])
  have get: "jm_get (planned_hours bs) (?f b) = Some b" if "b \<in> set bs" for b
    using d that unfolding p jm_get_def by (intro map_of_is_SomeI) (auto simp: comp_def)
  note h = hour_counts [OF m]
  have sub: "set (jm_keys m) \<subseteq> ?f ` set bs"
  proof
    fix k assume "k \<in> set (jm_keys m)"
    then obtain n where "(k, n) \<in> set m" by (auto simp: jm_keys_def)
    then have "jm_get (planned_hours bs) k \<noteq> None" using each by fastforce
    then show "k \<in> ?f ` set bs" unfolding jm_get_None p by (auto simp: jm_keys_def)
  qed
  have card: "card (set (jm_keys m)) = card (?f ` set bs)"
    using h(1) d len distinct_card [of "jm_keys m"] distinct_card [of "List.map ?f bs"] by (simp add: jm_wf_def jm_keys_def p)
  have keys: "set (jm_keys m) = ?f ` set bs" by (rule card_subset_eq [OF _ sub card]) simp
  show "(\<lambda>b. to_iso (bk_hour b)) ` set bs = (\<lambda>r. to_iso (hour_of (hr_observed_at r))) ` set rows" using keys h(4) by simp
  have cnt: "bk_count b = count_in m (?f b)" if "b \<in> set bs" for b
  proof -
    have "?f b \<in> fst ` set m" using keys that by (simp add: jm_keys_def)
    then obtain n where n: "(?f b, n) \<in> set m" by fastforce
    then have "bk_count b = n" using each [OF n] get [OF that] by simp
    moreover have "jm_get m (?f b) = Some n" using n h(1) jm_mem_get by metis
    ultimately show ?thesis by (simp add: count_in_def)
  qed
  then show "bk_count b = int (length (filter (\<lambda>r. to_iso (hour_of (hr_observed_at r)) = to_iso (bk_hour b)) rows))"
    if "b \<in> set bs" for b using that h(3) by simp
  have vals: "jm_values (planned_hours bs) = bs" by (simp add: p jm_values_def comp_def)
  then show "set (cv_buckets cv) = set bs" by (simp add: cv)
  have ms: "mset (cv_buckets cv) = mset bs" by (simp add: cv vals)
  have db: "distinct bs" and inj: "inj_on ?f (set bs)" using d by (auto simp: distinct_map)
  have "sum_list (List.map bk_count (cv_buckets cv)) = sum_list (List.map bk_count bs)"
    using ms by (metis mset_map sum_mset_sum_list)
  also have "\<dots> = (\<Sum>b \<in> set bs. count_in m (?f b))"
    using db cnt by (simp add: sum_list_distinct_conv_sum_set)
  also have "\<dots> = (\<Sum>k \<in> set (jm_keys m). count_in m k)"
    unfolding keys by (simp add: sum.reindex [OF inj])
  also have "\<dots> = sum_list (List.map (count_in m) (jm_keys m))"
    using h(1) by (simp add: jm_wf_def sum_list_distinct_conv_sum_set)
  also have "List.map (count_in m) (jm_keys m) = jm_values m"
  proof -
    have "count_in m k = n" if "(k, n) \<in> set m" for k n
      using that h(1) jm_mem_get [of m k n] by (simp add: count_in_def)
    then show ?thesis by (auto simp: jm_keys_def jm_values_def)
  qed
  finally show "sum_list (List.map bk_count (cv_buckets cv)) = int (length rows)" using h(2) by simp
qed

lemma real_day_midnight:
  assumes "normalizePair v w = Inr pair"
  shows "\<exists>n. dp_dayStart pair = n * MS_DAY \<and> dp_dayEnd pair = n * MS_DAY + MS_DAY \<and> \<bar>n\<bar> < 100000000"
proof -
  have r: "real_day (take 10 (str_or_empty v))" "date_parse (take 10 (str_or_empty v) @ ''T00:00:00.000Z'') = Some (dp_dayStart pair)"
    "dp_dayEnd pair = dp_dayStart pair + 24 * MS_HOUR"
    using assms by (auto simp: normalizePair_def Let_def split: if_splits option.splits)
  let ?d = "take 10 (str_or_empty v)"
  have shape: "of_shape ''dddd-dd-dd'' ?d" "take 10 (to_iso (dp_dayStart pair)) = ?d"
    using r(1,2) by (simp_all add: real_day_def)
  have len: "length ?d = 10" using shape(1) unfolding of_shape_def by (auto dest: list_all2_lengthD)
  have dig: "is_digit (?d ! 0)"
    using shape(1) len unfolding of_shape_def list_all2_conv_all_nth by (auto dest: spec [where x = 0])
  obtain n where n: "dp_dayStart pair = n * MS_DAY" "0 \<le> year_of_day n" "year_of_day n \<le> 9999"
    using iso_midnight [OF r(2) shape(2) len dig] by blast
  have e: "year_of_day (- 100000000) = - 271821" "year_of_day 100000000 = 275760"
    by (simp_all add: year_of_day_def day_from_year_def)
  have "- 100000000 < n" "n < 100000000"
    using n e year_of_day_mono [of n "- 100000000"] year_of_day_mono [of 100000000 n] by linarith+
  then show ?thesis using n(1) r(3) by (auto simp: MS_DAY_def MS_HOUR_def)
qed

lemma hour_bounds: "hour_of t \<le> t" "t < hour_of t + MS_HOUR" "hour_of t mod MS_HOUR = 0"
  using pos_mod_bound [of MS_HOUR t] pos_mod_sign [of MS_HOUR t]
  by (simp_all add: hour_of_def MS_HOUR_def minus_mod_eq_mult_div)

lemma hour_unique:
  assumes "h mod MS_HOUR = 0" "h \<le> t" "t < h + MS_HOUR"
  shows "hour_of t = h"
proof -
  have "t div MS_HOUR = h div MS_HOUR"
    using assms by (auto simp: MS_HOUR_def)
  then show ?thesis using assms(1) by (simp add: hour_of_def minus_mod_eq_mult_div) (metis div_mult_mod_eq add.right_neutral mult.commute)
qed

text \<open>The hours of the rows of a day lie in the day.\<close>

lemma hour_in_day:
  assumes "normalizePair v w = Inr pair" "dp_dayStart pair \<le> t" "t < dp_dayEnd pair"
  shows "dp_dayStart pair \<le> hour_of t" "hour_of t + MS_HOUR \<le> dp_dayEnd pair" "date_parse (to_iso (hour_of t)) = Some (hour_of t)"
proof -
  obtain n where n: "dp_dayStart pair = n * MS_DAY" "dp_dayEnd pair = n * MS_DAY + MS_DAY" "\<bar>n\<bar> < 100000000"
    using real_day_midnight [OF assms(1)] by blast
  define q where "q = t div MS_HOUR"
  have h: "hour_of t = q * MS_HOUR" by (simp add: hour_of_def q_def minus_mod_eq_mult_div)
  have q: "q * 3600000 \<le> t" "t < q * 3600000 + 3600000" using hour_bounds [of t] by (simp_all add: h MS_HOUR_def)
  have t: "n * 86400000 \<le> t" "t < n * 86400000 + 86400000" using assms(2,3) n by (simp_all add: MS_DAY_def)
  have "24 * n \<le> q" "q < 24 * n + 24" using q t by linarith+
  then show "dp_dayStart pair \<le> hour_of t" "hour_of t + MS_HOUR \<le> dp_dayEnd pair"
    using n by (simp_all add: h MS_HOUR_def MS_DAY_def)
  have "\<bar>hour_of t\<bar> \<le> MAX_TIME"
    using \<open>24 * n \<le> q\<close> \<open>q < 24 * n + 24\<close> n(3) by (auto simp: h MS_HOUR_def MAX_TIME_def abs_if split: if_splits)
  then show "date_parse (to_iso (hour_of t)) = Some (hour_of t)" by (rule date_parse_iso)
qed

lemma key_count:
  assumes "mset (List.map history_key rows) = mset (List.map observation_key obs)"
  shows "length (filter (\<lambda>r. P (hr_observed_at r)) rows) = length (filter (\<lambda>ob. P (ob_observed_at ob)) obs)"
    "hr_observed_at ` set rows = ob_observed_at ` set obs"
proof -
  let ?t = "\<lambda>k. snd (snd k)"
  have "mset (List.map ?t (List.map history_key rows)) = mset (List.map ?t (List.map observation_key obs))"
    using assms by (metis mset_map)
  then have t: "mset (List.map hr_observed_at rows) = mset (List.map ob_observed_at obs)"
    by (simp add: comp_def history_key_def observation_key_def)
  then have "size (filter_mset P (mset (List.map hr_observed_at rows))) = size (filter_mset P (mset (List.map ob_observed_at obs)))"
    by simp
  then show "length (filter (\<lambda>r. P (hr_observed_at r)) rows) = length (filter (\<lambda>ob. P (ob_observed_at ob)) obs)"
    unfolding mset_filter [symmetric] size_mset by (simp add: filter_map comp_def)
  show "hr_observed_at ` set rows = ob_observed_at ` set obs" using t by (metis mset_eq_setD set_map)
qed

text \<open>Deleting the hours of an exact plan deletes the day, and the number of rows of an hour is planned.\<close>

lemma plan_is_day:
  assumes "normalizePair v w = Inr pair" "selects_all env pair db"
    "rows = canonical_rows_of env pair (dp_dayStart pair) (dp_dayEnd pair) db"
    "deletionPlanCoversCurrentConnectorDay pair bs (List.map history_object rows) = Inr cv" "cv_exact cv"
    "res_mapM (normalizeBucket pair) raws = Inr bs"
  shows "without_hours pair (List.map bk_hour (cv_buckets cv)) db = without_day pair db"
    "\<And>b. b \<in> set bs \<Longrightarrow> int (hour_rows pair (bk_hour b) db) = bk_count b"
    "\<And>b. b \<in> set bs \<Longrightarrow> in_day pair (bk_hour b)"
proof -
  note p = exact_plan [OF assms(4-6)]
  let ?day = "filter (of_day pair) (pg_observations db)"
  have day: "?day = filter (in_window (cd_connector_id (dp_day pair)) (dp_dayStart pair) (dp_dayEnd pair)) (pg_observations db)"
    by (simp add: of_day_def [abs_def])
  have keys: "mset (List.map history_key rows) = mset (List.map observation_key ?day)"
    unfolding assms(3) day by (rule canonical_rows_keys [OF assms(2) part_of_refl]) simp_all
  have b: "date_parse (to_iso (bk_hour b)) = Some (bk_hour b)" "bk_hour b mod MS_HOUR = 0" if "b \<in> set bs" for b
    using normalize_all_again(2) [OF assms(6) that] bucket_again by blast+
  have row_in_day: "dp_dayStart pair \<le> t \<and> t < dp_dayEnd pair" if "t \<in> hr_observed_at ` set rows" for t
    using that unfolding key_count(2) [OF keys] by (auto simp: of_day_def in_window_def)
  have same: "to_iso (hour_of t) = to_iso (bk_hour b) \<longleftrightarrow> hour_of t = bk_hour b"
    if "b \<in> set bs" "dp_dayStart pair \<le> t" "t < dp_dayEnd pair" for b t
    using b(1) [OF that(1)] hour_in_day(3) [OF assms(1) that(2,3)] by (metis option.inject)
  have hours: "bk_hour ` set bs = (\<lambda>t. hour_of t) ` ob_observed_at ` set ?day"
  proof
    show "bk_hour ` set bs \<subseteq> hour_of ` ob_observed_at ` set ?day"
    proof
      fix h assume "h \<in> bk_hour ` set bs"
      then obtain x where x: "x \<in> set bs" "h = bk_hour x" by blast
      then have "to_iso (bk_hour x) \<in> (\<lambda>r. to_iso (hour_of (hr_observed_at r))) ` set rows" using p(3) by blast
      then obtain r where r: "r \<in> set rows" "to_iso (bk_hour x) = to_iso (hour_of (hr_observed_at r))" by blast
      have t: "hr_observed_at r \<in> hr_observed_at ` set rows" using r(1) by simp
      have "hour_of (hr_observed_at r) = bk_hour x"
        using same [OF x(1), of "hr_observed_at r"] row_in_day [OF t] r(2) [symmetric] by blast
      then show "h \<in> hour_of ` ob_observed_at ` set ?day" using t unfolding key_count(2) [OF keys] x(2) by (metis imageI)
    qed
    show "hour_of ` ob_observed_at ` set ?day \<subseteq> bk_hour ` set bs"
    proof
      fix h assume "h \<in> hour_of ` ob_observed_at ` set ?day"
      then obtain r where r: "r \<in> set rows" "h = hour_of (hr_observed_at r)" unfolding key_count(2) [OF keys, symmetric] by blast
      then have "to_iso (hour_of (hr_observed_at r)) \<in> (\<lambda>b. to_iso (bk_hour b)) ` set bs" unfolding p(3) by simp
      then obtain x where x: "x \<in> set bs" "to_iso (bk_hour x) = to_iso (hour_of (hr_observed_at r))" by fastforce
      have t: "hr_observed_at r \<in> hr_observed_at ` set rows" using r(1) by simp
      have "hour_of (hr_observed_at r) = bk_hour x"
        using same [OF x(1), of "hr_observed_at r"] row_in_day [OF t] x(2) [symmetric] by blast
      then show "h \<in> bk_hour ` set bs" using x(1) r(2) by simp
    qed
  qed
  have bounds: "dp_dayStart pair \<le> bk_hour x \<and> bk_hour x + MS_HOUR \<le> dp_dayEnd pair" if "x \<in> set bs" for x
  proof -
    have "bk_hour x \<in> (\<lambda>t. hour_of t) ` ob_observed_at ` set ?day" using that hours by blast
    then obtain ob where ob: "ob \<in> set ?day" "bk_hour x = hour_of (ob_observed_at ob)" by blast
    then show ?thesis
      using hour_in_day(1,2) [OF assms(1), of "ob_observed_at ob"] by (simp add: of_day_def in_window_def)
  qed
  then show "in_day pair (bk_hour x)" if "x \<in> set bs" for x using that by (simp add: in_day_def)
  have hour: "in_hour pair (bk_hour x) ob \<longleftrightarrow> of_day pair ob \<and> hour_of (ob_observed_at ob) = bk_hour x" if "x \<in> set bs" for x ob
  proof
    assume h: "in_hour pair (bk_hour x) ob"
    then have u: "hour_of (ob_observed_at ob) = bk_hour x"
      by (intro hour_unique b(2) that) (simp_all add: in_hour_def in_window_def)
    then show "of_day pair ob \<and> hour_of (ob_observed_at ob) = bk_hour x"
      using h bounds [OF that] by (simp add: in_hour_def of_day_def in_window_def)
  next
    assume "of_day pair ob \<and> hour_of (ob_observed_at ob) = bk_hour x"
    then show "in_hour pair (bk_hour x) ob"
      using hour_bounds(1,2) [of "ob_observed_at ob"] by (simp add: in_hour_def of_day_def in_window_def)
  qed
  have "(\<forall>h \<in> set (List.map bk_hour (cv_buckets cv)). \<not> in_hour pair h ob) \<longleftrightarrow> \<not> of_day pair ob"
    if "ob \<in> set (pg_observations db)" for ob
  proof -
    have "of_day pair ob \<Longrightarrow> hour_of (ob_observed_at ob) \<in> bk_hour ` set bs" using hours that by (auto intro!: imageI)
    then show ?thesis using hour p(1) by auto
  qed
  then have "filter (\<lambda>ob. \<forall>h \<in> set (List.map bk_hour (cv_buckets cv)). \<not> in_hour pair h ob) (pg_observations db) =
      filter (\<lambda>ob. \<not> of_day pair ob) (pg_observations db)"
    by (rule filter_cong [OF refl])
  then show "without_hours pair (List.map bk_hour (cv_buckets cv)) db = without_day pair db"
    unfolding without_hours_def without_day_def by (rule arg_cong)
  show "int (hour_rows pair (bk_hour x) db) = bk_count x" if x: "x \<in> set bs" for x
  proof -
    have "hour_rows pair (bk_hour x) db = length (filter (\<lambda>ob. hour_of (ob_observed_at ob) = bk_hour x) ?day)"
    proof -
      have "filter (in_hour pair (bk_hour x)) (pg_observations db) =
          filter (\<lambda>ob. of_day pair ob \<and> hour_of (ob_observed_at ob) = bk_hour x) (pg_observations db)"
        by (rule filter_cong [OF refl hour [OF x]])
      then show ?thesis by (simp add: hour_rows_def)
    qed
    also have "\<dots> = length (filter (\<lambda>ob. to_iso (hour_of (ob_observed_at ob)) = to_iso (bk_hour x)) ?day)"
      using same [OF x] by (intro arg_cong [where f = length] filter_cong) (auto simp: of_day_def in_window_def)
    also have "\<dots> = length (filter (\<lambda>r. to_iso (hour_of (hr_observed_at r)) = to_iso (bk_hour x)) rows)"
      using key_count(1) [OF keys, of "\<lambda>t. to_iso (hour_of t) = to_iso (bk_hour x)"] by simp
    finally show ?thesis using p(4) [OF x] by simp
  qed
qed

section \<open>A run without faults\<close>

text \<open>The primary keys of the two tables.\<close>

definition keys_unique :: "ingest_db \<Rightarrow> bool" where
  "keys_unique db \<longleftrightarrow> distinct (List.map (\<lambda>c. (hc_day_utc c, hc_connector_id c)) (pg_candidates db))
     \<and> distinct (List.map (\<lambda>g. (gt_day_utc g, gt_connector_id g)) (pg_gates db))"

lemma one_row:
  assumes "distinct (List.map k xs)" "filter P xs = x # ys" "\<And>a b. P a \<Longrightarrow> P b \<Longrightarrow> k a = k b"
  shows "ys = []"
proof (rule ccontr)
  assume "ys \<noteq> []"
  then obtain y zs where y: "filter P xs = x # y # zs" using assms(2) by (cases ys) auto
  have "distinct (List.map k (filter P xs))" by (rule distinct_map_filter [OF assms(1)])
  then have "k x \<noteq> k y" unfolding y by simp
  moreover have "{x, y} \<subseteq> set (filter P xs)" unfolding y by simp
  then have "P x" "P y" by auto
  ultimately show False using assms(3) by blast
qed

lemma filter_within: "filter P xs = [x] \<Longrightarrow> (\<And>a. Q a \<Longrightarrow> P a) \<Longrightarrow> Q x \<Longrightarrow> filter Q xs = [x]"
proof -
  assume a: "filter P xs = [x]" "\<And>a. Q a \<Longrightarrow> P a" "Q x"
  have "filter Q xs = filter Q (filter P xs)" using a(2) by (auto intro: filter_cong)
  then show ?thesis using a(1,3) by simp
qed

lemma matches_consumed_once:
  assumes "evidence_matches env pair db i" "keys_unique db"
  shows "consumed_once env pair db"
proof -
  let ?p = "dp_day pair"
  have v: "ev_failure (classifyLockedEvidence (en_version env) (select_candidate ?p db) (select_gate ?p db) ?p) = None"
    using assms(1) by (simp add: evidence_matches_def Let_def)
  note f = classify_evidence_pair [OF v]
  obtain c cs where c: "filter (is_candidate_of ?p) (pg_candidates db) = c # cs" "select_candidate ?p db = candidate_object c"
    "is_candidate_of ?p c" using select_candidate_row f(1) by metis
  obtain g gs where g: "filter (is_gate_of ?p) (pg_gates db) = g # gs" "select_gate ?p db = gate_object g" "is_gate_of ?p g"
    using select_gate_row f(2) by metis
  have "cs = []"
    by (rule one_row [OF _ c(1), of "\<lambda>c. (hc_day_utc c, hc_connector_id c)"])
       (use assms(2) in \<open>auto simp: keys_unique_def is_candidate_of_def\<close>)
  moreover have "gs = []"
    by (rule one_row [OF _ g(1), of "\<lambda>g. (gt_day_utc g, gt_connector_id g)"])
       (use assms(2) in \<open>auto simp: keys_unique_def is_gate_of_def\<close>)
  ultimately have one: "filter (is_candidate_of ?p) (pg_candidates db) = [c]" "filter (is_gate_of ?p) (pg_gates db) = [g]"
    using c(1) g(1) by simp_all
  let ?r = "jget (select_candidate ?p db) ''run_id''" and ?h = "jget (select_gate ?p db) ''history_manifest_hash''"
  have ready: "ready_candidate ?p ?r c"
    using f c(2,3) by (cases "hc_run_id c"; cases "hc_last_error c") (auto simp: ready_candidate_def str_or_null_def)
  have valid: "isValidConnectorHistoryGateEvidence (en_version env) (gate_object g)"
    using classify_facts [OF v] g(2) by metis
  have fields: "jget (gate_object g) ''history_done'' = JBool (gt_history_done g)"
    "jget (gate_object g) ''history_run_id'' = str_or_null (gt_run_id g)"
    "jget (gate_object g) ''history_manifest_hash'' = str_or_null (gt_manifest_hash g)"
    by (simp_all add: gate_object_def)
  have "gt_history_done g" "hash_shape (trimmed (str_or_null (gt_manifest_hash g)))"
    using valid by (simp_all add: isValidConnectorHistoryGateEvidence_def fields split: sum.splits)
  then have "gt_manifest_hash g \<noteq> None" by (cases "gt_manifest_hash g") (simp_all add: str_or_null_def hash_shape_def)
  moreover have run: "str_or_null (gt_run_id g) = ?r" using f(8) g(2) fields(2) by simp
  moreover have "gt_run_id g \<noteq> None" using f(7) run by (cases "gt_run_id g") (simp_all add: str_or_null_def)
  ultimately have "open_for ?p ?r ?h g" using \<open>gt_history_done g\<close> g(2,3) fields(3) by (simp add: open_for_def)
  then have "filter (open_for ?p ?r ?h) (pg_gates db) = [g]"
    by (rule filter_within [where Q = "open_for ?p ?r ?h", OF one(2), rotated]) (simp add: open_for_def)
  moreover have "filter (ready_candidate ?p ?r) (pg_candidates db) = [c]"
    by (rule filter_within [where Q = "ready_candidate ?p ?r", OF one(1) _ ready]) (simp add: ready_candidate_def)
  ultimately show ?thesis by (simp add: consumed_once_def Let_def)
qed

lemma bind_res_Inr: "tx_bind (tx_res (Inr x)) f = f x"
  by (rule ext) (simp add: tx_bind_def tx_res_def)

lemma succeeds_consume:
  assumes "faultless (en_faults env)" "c = select_candidate (dp_day pair) db" "g = select_gate (dp_day pair) db"
    "consumed_once env pair db"
  shows "succeeds (working db (\<lambda>w. w = without_day pair db)) (consumeFirstDeletionAuthority env (dp_day pair) c g n) (\<lambda>_ _. True)"
proof -
  let ?p = "dp_day pair" and ?r = "jget c ''run_id''" and ?h = "jget g ''history_manifest_hash''"
  let ?m = "mark_candidate ?p (consumed_marker c g n) ?r (en_now env) (without_day pair db)"
  let ?c = "close_gate ?p ?r ?h (en_now env) (snd ?m)"
  have one: "fst ?m = 1" "fst ?c = 1"
    using assms(2-4) by (simp_all add: consumed_once_def Let_def mark_candidate_def close_gate_def without_day_def)
  have q1: "succeeds (working db (\<lambda>w. w = without_day pair db))
      (tx_query (en_faults env) (mark_candidate ?p (consumed_marker c g n) ?r (en_now env)))
      (\<lambda>x. working db (\<lambda>w. w = snd ?m \<and> x = 1))"
    by (rule succeeds_query [OF assms(1)]) (use one in simp)
  have q2: "succeeds (working db (\<lambda>w. w = snd ?m)) (tx_query (en_faults env) (close_gate ?p ?r ?h (en_now env)))
      (\<lambda>x. working db (\<lambda>w. w = snd ?c \<and> x = 1))"
    by (rule succeeds_query [OF assms(1)]) (use one in simp)
  have last: "succeeds (working db (\<lambda>w. w = snd ?c \<and> k = 1))
      (if k \<noteq> 1 then tx_fail (Thrown (JsError ''Original Prune deletion gate could not be consumed'')) else tx_ret ()) (\<lambda>_ _. True)" for k
    by (rule ensures_working_pure) (simp add: ensures_ret)
  have mid: "succeeds (working db (\<lambda>w. w = snd ?m \<and> m = 1))
      (if m \<noteq> 1 then tx_fail (Thrown (JsError ''Original Prune first-deletion marker could not be consumed''))
       else tx_bind (tx_query (en_faults env) (close_gate ?p ?r ?h (en_now env)))
         (\<lambda>k. if k \<noteq> 1 then tx_fail (Thrown (JsError ''Original Prune deletion gate could not be consumed'')) else tx_ret ()))
      (\<lambda>_ _. True)" for m
    by (rule ensures_working_pure) (simp add: ensures_bind [OF q2 last])
  show ?thesis
    unfolding consumeFirstDeletionAuthority_def Let_def by (rule ensures_bind [OF q1 mid])
qed

lemma succeeds_commit_with:
  "faultless (en_faults env) \<Longrightarrow> succeeds P (commit_with env r) (\<lambda>r' _. r' = r)"
  unfolding commit_with_def
  by (rule ensures_bind [OF succeeds_commit [where Q = "\<lambda>_ _. True"]]) (auto intro!: ensures_vars_then ensures_ret)

lemma succeeds_settle:
  assumes "faultless (en_faults env)" "selects_all env pair db" "pair = rq_pair rq"
    "lk_candidate lk = select_candidate (dp_day pair) db" "lk_gate lk = select_gate (dp_day pair) db"
    "ev_candidate (lk_verdict lk) = Some i" "ev_gate (lk_verdict lk) = Some i" "consumed_once env pair db"
    "sum_list (List.map bk_count (cv_buckets cv)) = id_row_count i" "raw_day_count pair db = id_row_count i"
  shows "succeeds (working db (\<lambda>w. shrunk db (sum_list (List.map br_deleted_rows results)) w \<and> w = without_day pair db))
    (settle env rq lk cv i rawRows canonicalRows info results) (\<lambda>r _. de_ok r)"
proof -
  let ?n = "sum_list (List.map br_deleted_rows results)"
  let ?W = "\<lambda>w. shrunk db ?n w \<and> w = without_day pair db"
  have none: "filter (of_day pair) (pg_observations (without_day pair db)) = []"
    by (simp add: without_day_def filter_empty_conv)
  have raw: "raw_day_count pair (without_day pair db) = 0" by (simp add: raw_day_count_def none)
  have canon: "canonical_count env pair (dp_dayStart pair) (dp_dayEnd pair) (without_day pair db) = 0"
  proof -
    have "part_of db (without_day pair db)" unfolding without_day_def by (rule part_of_filter [OF part_of_refl])
    from canonical_count_window [OF assms(2) this order_refl order_refl] show ?thesis
      using none by (simp add: of_day_def [abs_def])
  qed
  have n: "?n = id_row_count i" if "shrunk db ?n (without_day pair db)"
    using that assms(10) sum_length_filter_compl [of "of_day pair" "pg_observations db"]
    by (simp add: shrunk_def without_day_def raw_day_count_def)
  have confirm: "succeeds (working db ?W) (confirm env rq lk ?n report) (\<lambda>r _. de_ok r)" if "de_ok report" for report
    unfolding confirm_def assms(3) [symmetric]
  proof (rule ensures_bind)
    show "succeeds (working db ?W) (consumeFirstDeletionAuthority env (dp_day pair) (lk_candidate lk) (lk_gate lk) ?n) (\<lambda>_ _. True)"
      by (rule ensures_strengthen [OF succeeds_consume [OF assms(1,4,5,8)]]) (auto simp: working_def)
    show "succeeds (\<lambda>_. True) (commit_with env report) (\<lambda>r _. de_ok r)" for x :: unit
      by (rule ensures_weaken [OF succeeds_commit_with [OF assms(1), of "\<lambda>_. True"]]) (use that in auto)
  qed
  have counts: "succeeds (working db ?W) (check_counts env rq lk cv i rawRows canonicalRows info results) (\<lambda>r _. de_ok r)" for info
  proof -
    have pure: "succeeds (working db (\<lambda>w. ?W w \<and> ?n = id_row_count i))
        (check_counts env rq lk cv i rawRows canonicalRows info results) (\<lambda>r _. de_ok r)"
    proof (rule ensures_working_pure)
      assume "?n = id_row_count i"
      then show "succeeds (working db ?W) (check_counts env rq lk cv i rawRows canonicalRows info results) (\<lambda>r _. de_ok r)"
        using assms(6,7,9) confirm [of "deletion_report (dp_day (rq_pair rq)) cv i rawRows canonicalRows ?n ?n results"]
        by (simp add: check_counts_def Let_def identity_rows_def bind_res_Inr deletion_report_def)
    qed
    show ?thesis by (rule ensures_strengthen [OF pure]) (use n in \<open>auto simp: working_def\<close>)
  qed
  show ?thesis
    unfolding settle_def Let_def assms(3) [symmetric]
  proof (rule succeeds_read_then [OF assms(1)])
    fix x :: int
    let ?V = "\<lambda>w. ?W w \<and> x = canonical_count env pair (dp_dayStart pair) (dp_dayEnd pair) w"
    let ?rest = "if x \<noteq> 0 then roll_back_with env (blocked rq lk ''connector_day_not_fully_drained'' (info\<lparr>bi_remaining_rows := Some x\<rparr>))
       else tx_bind (read_db env (raw_day_count pair)) (\<lambda>remainingRaw.
          if remainingRaw \<noteq> 0
          then roll_back_with env (blocked rq lk ''connector_day_scope_mismatch''
            (info\<lparr>bi_remaining_rows := Some x, bi_scope_match := Some False\<rparr>))
          else check_counts env rq lk cv i rawRows canonicalRows (info\<lparr>bi_remaining_rows := Some x\<rparr>) results)"
    have "succeeds (working db (\<lambda>w. ?W w \<and> x = 0)) ?rest (\<lambda>r _. de_ok r)"
    proof (rule ensures_working_pure)
      assume x: "x = 0"
      have "succeeds (working db ?W) (tx_bind (read_db env (raw_day_count pair)) (\<lambda>remainingRaw.
          if remainingRaw \<noteq> 0
          then roll_back_with env (blocked rq lk ''connector_day_scope_mismatch''
            (info\<lparr>bi_remaining_rows := Some x, bi_scope_match := Some False\<rparr>))
          else check_counts env rq lk cv i rawRows canonicalRows (info\<lparr>bi_remaining_rows := Some x\<rparr>) results)) (\<lambda>r _. de_ok r)"
      proof (rule succeeds_read_then [OF assms(1)])
        fix y :: int
        have "succeeds (working db (\<lambda>w. ?W w \<and> y = 0)) (if y \<noteq> 0
          then roll_back_with env (blocked rq lk ''connector_day_scope_mismatch''
            (info\<lparr>bi_remaining_rows := Some x, bi_scope_match := Some False\<rparr>))
          else check_counts env rq lk cv i rawRows canonicalRows (info\<lparr>bi_remaining_rows := Some x\<rparr>) results) (\<lambda>r _. de_ok r)"
          by (rule ensures_working_pure) (simp add: counts)
        then show "succeeds (working db (\<lambda>w. ?W w \<and> y = raw_day_count pair w)) (if y \<noteq> 0
          then roll_back_with env (blocked rq lk ''connector_day_scope_mismatch''
            (info\<lparr>bi_remaining_rows := Some x, bi_scope_match := Some False\<rparr>))
          else check_counts env rq lk cv i rawRows canonicalRows (info\<lparr>bi_remaining_rows := Some x\<rparr>) results) (\<lambda>r _. de_ok r)"
          by (rule ensures_strengthen) (auto simp: working_def raw)
      qed
      then show "succeeds (working db ?W) ?rest (\<lambda>r _. de_ok r)" using x by simp
    qed
    then show "succeeds (working db ?V) ?rest (\<lambda>r _. de_ok r)"
      by (rule ensures_strengthen) (auto simp: working_def canon)
  qed
qed

lemma succeeds_covered:
  assumes "faultless (en_faults env)" "selects_all env pair db" "pair = rq_pair rq" "normalizePair v u = Inr pair"
    "res_mapM (normalizeBucket pair) raws = Inr (rq_buckets rq)" "\<not> rq_subset rq" "0 < rq_batch_size rq"
    "\<forall>b \<in> set (rq_buckets rq). bk_count b \<le> int (rq_max_batches rq * rq_batch_size rq)"
    "rows = canonical_rows_of env pair (dp_dayStart pair) (dp_dayEnd pair) db"
    "deletionPlanCoversCurrentConnectorDay pair (rq_buckets rq) (List.map history_object rows) = Inr cv" "cv_exact cv"
    "locked_in env pair db lk" "evidence_matches env pair db i" "keys_unique db"
  shows "succeeds (working db (\<lambda>w. w = db)) (delete_covered env rq lk rows i (raw_day_count pair db)) (\<lambda>r _. de_ok r)"
proof -
  note plan = plan_is_day [OF assms(4,2,9-11,5)] and exact = exact_plan [OF assms(10,11,5)]
  note m = assms(13) [unfolded evidence_matches_def Let_def]
  have lk: "lk_candidate lk = select_candidate (dp_day pair) db" "lk_gate lk = select_gate (dp_day pair) db"
    "ev_candidate (lk_verdict lk) = Some i" "ev_gate (lk_verdict lk) = Some i"
    using assms(12) m by (simp_all add: locked_in_def)
  have count: "raw_day_count pair db = id_row_count i" "int (length rows) = id_row_count i"
    using m prune_identity_count [of "en_sha env" "List.map history_object rows" i] by (simp_all add: assms(9))
  have limit: "\<forall>b \<in> set (cv_buckets cv). in_day pair (bk_hour b) \<and> hour_rows pair (bk_hour b) db \<le> rq_max_batches rq * rq_batch_size rq"
    using plan(2,3) assms(8) exact(1) by (metis of_nat_le_iff)
  have hours: "succeeds (working db (\<lambda>w. w = db)) (delete_hours env pair (rq_batch_size rq) (rq_max_batches rq) (cv_buckets cv) [])
      (\<lambda>x. working db (\<lambda>w. (shrunk db (sum_list (List.map br_deleted_rows (fst x))) w \<and> w = without_day pair db) \<and> snd x = None))"
  proof -
    have a: "ensures (working db (\<lambda>w. w = db)) (delete_hours env pair (rq_batch_size rq) (rq_max_batches rq) (cv_buckets cv) [])
        (\<lambda>(rs, c). working db (shrunk db (sum_list (List.map br_deleted_rows rs)))) (\<lambda>_. kept db)"
      by (rule ensures_strengthen [OF ensures_delete_hours [where rs = "[]"]]) (auto simp: working_def shrunk_start)
    have b: "succeeds (working db (\<lambda>w. w = db)) (delete_hours env pair (rq_batch_size rq) (rq_max_batches rq) (cv_buckets cv) [])
        (\<lambda>(rs', c). working db (\<lambda>w. w = without_hours pair (List.map bk_hour (cv_buckets cv)) db \<and> c = None))"
      by (rule succeeds_hours [OF assms(1,2,7) part_of_refl limit])
    show ?thesis
      by (rule ensures_weaken [OF ensures_both [OF a b]]) (auto simp: working_def plan(1) split: prod.splits)
  qed
  have finish: "succeeds (working db (\<lambda>w. (shrunk db (sum_list (List.map br_deleted_rows (fst x))) w \<and> w = without_day pair db)
        \<and> snd x = None))
      (case x of (results, capped) \<Rightarrow> (case capped of
          Some r \<Rightarrow> roll_back_with env (blocked rq lk reason (info1 r))
        | None \<Rightarrow> settle env rq lk cv i rawRows canonicalRows info2 results)) (\<lambda>r _. de_ok r)"
    for x :: "bucket_result list \<times> bucket_result option" and reason info1 rawRows canonicalRows info2
  proof (rule ensures_working_pure)
    assume "snd x = None"
    then show "succeeds (working db (\<lambda>w. shrunk db (sum_list (List.map br_deleted_rows (fst x))) w \<and> w = without_day pair db))
      (case x of (results, capped) \<Rightarrow> (case capped of
          Some r \<Rightarrow> roll_back_with env (blocked rq lk reason (info1 r))
        | None \<Rightarrow> settle env rq lk cv i rawRows canonicalRows info2 results)) (\<lambda>r _. de_ok r)"
      using succeeds_settle [OF assms(1-3) lk matches_consumed_once [OF assms(13,14)] _ count(1)] exact(2) count(2)
      by (cases x) simp
  qed
  show ?thesis
    unfolding delete_covered_def Let_def assms(3) [symmetric] assms(10) bind_res_Inr
    by (rule ensures_vars_then) (use assms(6,11) in \<open>auto intro!: ensures_bind [OF hours finish] simp: working_def\<close>)
qed

lemma succeeds_body:
  assumes "faultless (en_faults env)" "canonical_selects env pair db" "pair = rq_pair rq" "normalizePair v u = Inr pair"
    "res_mapM (normalizeBucket pair) raws = Inr (rq_buckets rq)" "\<not> rq_subset rq" "0 < rq_batch_size rq"
    "\<forall>b \<in> set (rq_buckets rq). bk_count b \<le> int (rq_max_batches rq * rq_batch_size rq)"
    "rows = canonical_rows_of env pair (dp_dayStart pair) (dp_dayEnd pair) db"
    "deletionPlanCoversCurrentConnectorDay pair (rq_buckets rq) (List.map history_object rows) = Inr cv" "cv_exact cv"
    "evidence_matches env pair db i" "keys_unique db"
  shows "succeeds (\<lambda>s. se_db s = db) (prune_body env rq) (\<lambda>r _. de_ok r)"
proof -
  let ?c = "select_candidate (dp_day pair) db" and ?g = "select_gate (dp_day pair) db"
  let ?v = "classifyLockedEvidence (en_version env) ?c ?g (dp_day pair)"
  let ?lk = "\<lparr>lk_candidate = ?c, lk_gate = ?g, lk_verdict = ?v\<rparr>"
  note m = assms(12) [unfolded evidence_matches_def Let_def]
  have lk: "locked_in env pair db ?lk" by (simp add: locked_in_def)
  have id: "computePruneConnectorSourceIdentity (en_sha env) (List.map history_object rows) = Inr i" using m by (simp add: assms(9))
  have norm: "normalizePruneConnectorSourceIdentity (identity_object i) = Inr i"
  proof -
    have "normalizePruneConnectorSourceIdentity ?c = Inr i" using classify_facts [of "en_version env" ?c ?g "dp_day pair"] m
      by (metis option.inject)
    note f = identity_facts [OF this]
    show ?thesis
      by (rule identity_again) (use f in \<open>simp_all add: identity_object_def\<close>)
  qed
  have same: "current_identity env rows = Some i" "current_failure env rows (Some i) = None"
    using id norm by (simp_all add: current_identity_def current_failure_def identity_input_def
        comparePruneConnectorSourceIdentities_def identity_difference_def)
  have count: "raw_day_count pair db = int (length rows)"
    using m prune_identity_count [OF id] by simp
  have complete: "selects_all env pair db"
    by (rule selected_complete [OF assms(2)]) (use count in \<open>simp add: assms(9)\<close>)
  have "rows \<noteq> []" using id by (auto simp: computePruneConnectorSourceIdentity_def)
  then have compare: "succeeds (working db (\<lambda>w. w = db)) (compare_current env rq ?lk) (\<lambda>r _. de_ok r)"
    unfolding compare_current_def Let_def assms(3) [symmetric]
    using m same count succeeds_covered [OF assms(1) complete assms(3-11) lk assms(12,13)]
    by (auto intro!: succeeds_read_start ensures_vars_then assms(1) simp: assms(9) [symmetric] working_def)
  show ?thesis
    unfolding prune_body_def Let_def assms(3) [symmetric]
    by (rule ensures_bind [OF succeeds_begin [OF assms(1), where db = db]])
       (use m compare in \<open>auto intro!: succeeds_read_start ensures_vars_then assms(1) simp: working_def\<close>)
qed

end
