(* ===== verification/PruneProperties.thy ===== *)
theory PruneProperties
  imports PruneProgress
begin

text \<open>
  The properties of the deletion of connector days (source_identity_deletion.mjs), with a sample on which
  their hypotheses hold.
\<close>

section \<open>A sample\<close>

text \<open>One observation of connector 3 on 2024-05-01, with complete evidence and no faults.\<close>

definition example_history_row :: "observation \<Rightarrow> history_row" where
  "example_history_row ob = \<lparr>hr_connector_id = ob_connector_id ob, hr_station_id = Some 11,
     hr_timeseries_id = ob_timeseries_id ob, hr_pollutant_code = ''pm25'', hr_observed_at = ob_observed_at ob,
     hr_value = ob_value ob, hr_status = ob_status ob\<rparr>"

definition example_canonical_rows :: "observation list \<Rightarrow> int \<Rightarrow> int \<Rightarrow> int \<Rightarrow> history_row list" where
  "example_canonical_rows obs c a b = List.map example_history_row (filter (in_window c a b) obs)"

definition no_faults :: faults where "no_faults k = None"

definition example_hash :: string where "example_hash = replicate 64 (CHR ''b'')"

definition example_sha :: "string \<Rightarrow> string" where "example_sha t = example_hash"

definition example_prune_env :: prune_env where
  "example_prune_env = \<lparr>en_version = Undef, en_sha = example_sha, en_canonical = example_canonical_rows,
     en_faults = no_faults, en_now = 1717000000000\<rparr>"

definition example_manifest :: string where
  "example_manifest = ''history/v2/observations/day_utc=2024-05-01/connector_id=3/manifest.json''"

definition example_ingest_db :: ingest_db where
  "example_ingest_db =
     \<lparr>pg_observations = [\<lparr>ob_connector_id = 3, ob_timeseries_id = 7, ob_observed_at = 1714546800000, ob_value = Fin 12,
          ob_status = Some ''P''\<rparr>, \<lparr>ob_connector_id = 4, ob_timeseries_id = 8, ob_observed_at = 1714546800000, ob_value = Fin 5,
          ob_status = None\<rparr>],
      pg_candidates = [\<lparr>hc_day_utc = ''2024-05-01'', hc_connector_id = 3, hc_status = ''complete'', hc_run_id = Some ''run-1'',
          hc_last_error = Some FIRST_DELETE_READY, hc_manifest_key = Some example_manifest, hc_row_count = Some 1,
          hc_file_count = Some 1, hc_total_bytes = Some 900, hc_completed_at = Some 1715000000000,
          hc_source_hash = Some example_hash, hc_source_version = Some 1, hc_source_row_count = Some 1,
          hc_resume_timeseries_id = None, hc_resume_observed_at = None, hc_resume_part_index = 0, hc_resume_row_count = 0,
          hc_resume_parts = JArr [], hc_updated_at = 1715000000000\<rparr>],
      pg_gates = [\<lparr>gt_day_utc = ''2024-05-01'', gt_connector_id = 3, gt_history_done = True, gt_run_id = Some ''run-1'',
          gt_manifest_key = Some example_manifest, gt_manifest_hash = Some (replicate 64 (CHR ''c'')), gt_row_count = Some 1,
          gt_file_count = Some 1, gt_total_bytes = Some 900, gt_completed_at = Some 1715000000000,
          gt_source_hash = Some example_hash, gt_source_version = Some 1, gt_source_row_count = Some 1,
          gt_completion_source = Some ''prune_daily_phase_b'', gt_updated_at = 1715000000000\<rparr>]\<rparr>"

definition example_session :: "(ingest_db, prune_vars) session" where
  "example_session = \<lparr>se_db = example_ingest_db, se_work = None, se_tick = 0, se_vars = fresh_vars\<rparr>"

definition example_plan :: jsval where
  "example_plan = JArr [JObj [(''connector_id'', JInt 3), (''hour_start'', JStr ''2024-05-01T07:00:00.000Z''),
     (''observation_count'', JStr ''1'')]]"

lemma example_faultless: "faultless (en_faults example_prune_env)" "rolls_back codes (en_faults example_prune_env)"
  by (simp_all add: faultless_def rolls_back_def example_prune_env_def no_faults_def)

lemma example_unique: "keys_unique (se_db example_session)"
  by (simp add: keys_unique_def example_session_def example_ingest_db_def)

definition example_pair :: day_pair where
  "example_pair = \<lparr>dp_day = \<lparr>cd_day_utc = ''2024-05-01'', cd_connector_id = 3\<rparr>, dp_dayStart = 1714521600000,
     dp_dayEnd = 1714608000000\<rparr>"


lemma example_times: "date_parse (''2024-05-01T00:00:00.000Z'') = Some 1714521600000"
  "date_parse (''2024-05-01T07:00:00.000Z'') = Some 1714546800000" "to_iso 1714546800000 = ''2024-05-01T07:00:00.000Z''"
  "real_day (''2024-05-01'')" "num_safe_integer (Fin 3) = Some 3" "read_bigint ''1'' = Inr 1"
  subgoal by code_simp
  subgoal by code_simp
  subgoal by code_simp
  subgoal by code_simp
  subgoal by code_simp
  subgoal by code_simp
  done

lemma example_canonical: "canonical_selects example_prune_env example_pair db"
proof -
  have "history_key (example_history_row ob) = observation_key ob" for ob
    by (simp add: history_key_def observation_key_def example_history_row_def)
  then have "List.map history_key (example_canonical_rows obs c a b) = List.map observation_key (filter (in_window c a b) obs)" for obs c a b
    by (simp add: example_canonical_rows_def)
  then show ?thesis unfolding canonical_selects_def
    by (intro exI [of _ "\<lambda>_. True"]) (simp add: example_prune_env_def)
qed

lemma example_pair_read: "normalizePair (JStr ''2024-05-01'') (JInt 3) = Inr example_pair"
  using example_times by (simp add: normalizePair_def example_pair_def MS_HOUR_def Let_def)

definition example_buckets :: "bucket list" where
  "example_buckets = [\<lparr>bk_connector_id = 3, bk_hour = 1714546800000, bk_count = 1\<rparr>]"

lemma example_raw_buckets: "List.map raw_of (array_of example_plan) = [\<lparr>rb_connector_id = JInt 3,
    rb_hour_start = JStr ''2024-05-01T07:00:00.000Z'', rb_observation_count = Given (JStr ''1'')\<rparr>]"
  by code_simp

lemma example_buckets_read: "res_mapM (normalizeBucket example_pair) (List.map raw_of (array_of example_plan)) = Inr example_buckets"
  using example_times
  by (simp add: example_raw_buckets normalizeBucket_def example_buckets_def example_pair_def count_of_def js_coalesce_def is_nullish_def MS_HOUR_def)

definition example_rows :: "history_row list" where
  "example_rows = canonical_rows_of example_prune_env example_pair (dp_dayStart example_pair) (dp_dayEnd example_pair) example_ingest_db"

lemma example_rows_value: "example_rows = [\<lparr>hr_connector_id = 3, hr_station_id = Some 11, hr_timeseries_id = 7,
    hr_pollutant_code = ''pm25'', hr_observed_at = 1714546800000, hr_value = Fin 12, hr_status = Some ''P''\<rparr>]"
  by (simp add: example_rows_def canonical_rows_of_def example_prune_env_def example_canonical_rows_def example_history_row_def
      example_pair_def example_ingest_db_def in_window_def)

lemma example_hour_counts: "currentHourCounts (List.map history_object example_rows) = Inr [(''2024-05-01T07:00:00.000Z'', 1)]"
  using example_times
  by (simp add: example_rows_value history_object_def currentHourCounts_def count_hour_def js_coalesce_def is_nullish_def new_date_def MS_HOUR_def Let_def jm_empty_def)

lemma example_covered: "\<exists>cv. deletionPlanCoversCurrentConnectorDay example_pair example_buckets (List.map history_object example_rows) = Inr cv
    \<and> cv_exact cv"
proof -
  have "normalizeBucket example_pair (raw_again (example_buckets ! 0)) = Inr (example_buckets ! 0)"
    using example_times
    by (simp add: normalizeBucket_def raw_again_def example_buckets_def example_pair_def count_of_def MS_HOUR_def)
  then show ?thesis
    using example_times
    by (simp add: deletionPlanCoversCurrentConnectorDay_def example_hour_counts example_buckets_def planned_hours_def jm_set.simps jm_empty_def jm_get_def)
qed

definition example_id :: source_identity where
  "example_id = \<lparr>id_hash = example_hash, id_version = 1, id_row_count = 1\<rparr>"

lemma example_raw: "raw_day_count example_pair example_ingest_db = 1"
  by (simp add: raw_day_count_def of_day_def in_window_def example_ingest_db_def example_pair_def)


definition example_canonical_row :: canonical_row where
  "example_canonical_row = \<lparr>me_connector_id = 3, me_station_id = Some 11, me_timeseries_id = 7, me_pollutant_code = ''pm25'',
     me_observed_at_utc = ''2024-05-01T07:00:00.000Z'', me_value = 12, cr_verification_status = Some ''P''\<rparr>"

definition example_object :: jsval where
  "example_object = JObj [(''connector_id'', JInt 3), (''station_id'', JInt 11), (''timeseries_id'', JInt 7),
     (''pollutant_code'', JStr ''pm25''), (''observed_at_utc'', JStr ''2024-05-01T07:00:00.000Z''), (''value'', JInt 12),
     (''verification_status'', JStr ''P'')]"

lemma example_source: "normalizePruneConnectorSourceRow (history_object (example_rows ! 0)) = Inr (example_canonical_row)"
proof -
  have "prune_source_object (history_object (example_rows ! 0)) = Inr (example_object)"
    using example_times
    by (simp add: example_rows_value history_object_def prune_source_object_def js_coalesce_def is_nullish_def number_of_def
      int_or_null_def str_or_null_def has_own_def str_coalesce_def example_object_def)
  moreover have "normalizeCanonicalObservationRow example_object = Inr example_canonical_row" by code_simp
  ultimately show ?thesis by (simp add: normalizePruneConnectorSourceRow_def)
qed

lemma example_identity: "computePruneConnectorSourceIdentity example_sha (List.map history_object example_rows) = Inr example_id"
proof -
  have "normalizeCanonicalObservationRow (row_object example_canonical_row) = Inr example_canonical_row" 
    using example_source normalize_again normalize_canonical by (auto simp: normalizePruneConnectorSourceRow_def res_simps)
  then show ?thesis 
    using example_source by (simp add: example_rows_value computePruneConnectorSourceIdentity_def encodeCanonicalObservationRow_def
     example_sha_def example_id_def PRUNE_CONTRACT_VERSION_def)
qed

definition example_candidate_object :: jsval where
  "example_candidate_object = candidate_object (pg_candidates example_ingest_db ! 0)"

definition example_gate_object :: jsval where
  "example_gate_object = gate_object (pg_gates example_ingest_db ! 0)"

lemma example_selected:
  "select_candidate (dp_day example_pair) example_ingest_db = example_candidate_object"
  "select_gate (dp_day example_pair) example_ingest_db = example_gate_object"
  by (simp_all add: select_candidate_def select_gate_def example_pair_def example_ingest_db_def is_candidate_of_def is_gate_of_def
      first_row_def example_candidate_object_def example_gate_object_def)

lemma example_evidence_facts:
  "normalizePruneConnectorSourceIdentity example_candidate_object = Inr example_id"
  "normalizePruneConnectorSourceIdentity example_gate_object = Inr example_id"
  "isValidConnectorHistoryGateEvidence Undef example_gate_object"
  "evidencePairMatches example_candidate_object (dp_day example_pair)"
  "evidencePairMatches example_gate_object (dp_day example_pair)"
  subgoal by code_simp
  subgoal by code_simp
  subgoal by code_simp
  subgoal by code_simp
  subgoal by code_simp
  done

lemma example_fields:
  "js_truthy example_candidate_object" "js_truthy example_gate_object"
  "jget example_candidate_object ''status'' = JStr ''complete''"
  "jget example_candidate_object ''last_error'' = JStr FIRST_DELETE_READY"
  "jget example_candidate_object ''run_id'' = JStr ''run-1''" "jget example_gate_object ''history_run_id'' = JStr ''run-1''"
  "jget example_candidate_object ''manifest_key'' = JStr example_manifest"
  "jget example_gate_object ''history_manifest_key'' = JStr example_manifest"
  by (simp_all add: example_candidate_object_def example_gate_object_def candidate_object_def gate_object_def
      example_ingest_db_def str_or_null_def)

lemma example_verdict:
  "classifyLockedEvidence Undef example_candidate_object example_gate_object (dp_day example_pair) =
    \<lparr>ev_failure = None, ev_preserve = False, ev_candidate = Some example_id, ev_gate = Some example_id\<rparr>"
proof -
  have "\<not> starts_with (str_or_empty (JStr FIRST_DELETE_READY)) FIRST_DELETE_CONSUMED" "js_truthy (JStr ''run-1'')"
    by code_simp+
  then show ?thesis
    using example_evidence_facts example_fields by (simp add: classifyLockedEvidence_def identity_difference_def)
qed

lemma example_matches: "evidence_matches example_prune_env example_pair (se_db example_session) example_id"
  using example_identity example_verdict
  by (simp add: evidence_matches_def example_prune_env_def example_session_def example_selected example_rows_def example_raw example_id_def)

lemma example_groups: "\<exists>groups. groupBucketsByConnectorDay example_plan = Inr groups"
proof -
  have p: "array_of example_plan = [hd (array_of example_plan)]" "raw_of (hd (array_of example_plan)) =
      \<lparr>rb_connector_id = JInt 3, rb_hour_start = JStr ''2024-05-01T07:00:00.000Z'', rb_observation_count = Given (JStr ''1'')\<rparr>"
    by code_simp+
  have "take 10 (str_or_empty (JStr ''2024-05-01T07:00:00.000Z'')) = ''2024-05-01''" by code_simp
  moreover have "normalizeBucket example_pair (raw_of (hd (array_of example_plan))) = Inr (hd example_buckets)"
    using example_buckets_read example_raw_buckets p(2) by (simp add: example_buckets_def res_simps)
  ultimately have "is_ok (add_bucket (hd (array_of example_plan)) jm_empty)"
    using p(2) example_pair_read by (simp add: add_bucket_def is_ok_iff)
  then have "\<exists>m. res_fold add_bucket (array_of example_plan) jm_empty = Inr m"
    by (subst p(1)) (auto simp: is_ok_iff)
  then show ?thesis by (auto simp: groupBucketsByConnectorDay_def)
qed


section \<open>Progress\<close>

lemma run_succeeds:
  assumes "normalizePair dayUtc connectorId = Inr pair" "res_mapM (normalizeBucket pair) buckets = Inr bs"
    "array_of codes = []" "faultless (en_faults env)" "canonical_selects env pair (se_db s)" "0 < sz"
    "\<forall>b \<in> set bs. bk_count b \<le> int (left * sz)"
    "deletionPlanCoversCurrentConnectorDay pair bs (List.map history_object
       (canonical_rows_of env pair (dp_dayStart pair) (dp_dayEnd pair) (se_db s))) = Inr cv" "cv_exact cv"
    "evidence_matches env pair (se_db s) i" "keys_unique (se_db s)"
  shows "\<exists>r s'. runPruneConnectorDayDeletionTransaction env dayUtc connectorId buckets sz left codes s = (Inr r, s') \<and> de_ok r"
proof -
  let ?rq = "\<lparr>rq_pair = pair, rq_buckets = bs, rq_subset = False, rq_batch_size = sz, rq_max_batches = left\<rparr>"
  have body: "succeeds (\<lambda>t. se_db t = se_db s) (prune_body env ?rq) (\<lambda>r _. de_ok r)"
    by (rule succeeds_body [where pair = pair and v = dayUtc and u = connectorId and raws = buckets and cv = cv and i = i
        and rows = "canonical_rows_of env pair (dp_dayStart pair) (dp_dayEnd pair) (se_db s)"]) (use assms in simp_all)
  have run: "runPruneConnectorDayDeletionTransaction env dayUtc connectorId buckets sz left codes s =
      tx_catch (prune_body env ?rq) (prune_failed env ?rq) (s\<lparr>se_vars := fresh_vars\<rparr>)"
    using assms(1-3) by (simp add: runPruneConnectorDayDeletionTransaction_def bind_res_Inr tx_bind_def tx_vars_def Let_def)
  obtain x s' where x: "tx_catch (prune_body env ?rq) (prune_failed env ?rq) (s\<lparr>se_vars := fresh_vars\<rparr>) = (x, s')"
    by (cases "tx_catch (prune_body env ?rq) (prune_failed env ?rq) (s\<lparr>se_vars := fresh_vars\<rparr>)")
  have start: "se_db (s\<lparr>se_vars := fresh_vars\<rparr>) = se_db s" by simp
  show ?thesis
  proof (cases x)
    case (Inl e)
    then show ?thesis using ensuresD(2) [OF succeeds_catch [OF body] start x [unfolded Inl]] by simp
  next
    case (Inr r)
    then show ?thesis using ensuresD(1) [OF succeeds_catch [OF body] start x [unfolded Inr]] run x by simp
  qed
qed

abbreviation example_run :: "(tx_error + deletion_result) \<times> (ingest_db, prune_vars) session" where
  "example_run \<equiv> runPruneConnectorDayDeletionTransaction example_prune_env (JStr ''2024-05-01'') (JInt 3)
     (List.map raw_of (array_of example_plan)) 1000 5 Undef example_session"

lemma example_covered_now: "\<exists>cv. deletionPlanCoversCurrentConnectorDay example_pair example_buckets (List.map history_object
    (canonical_rows_of example_prune_env example_pair (dp_dayStart example_pair) (dp_dayEnd example_pair) (se_db example_session))) = Inr cv
    \<and> cv_exact cv"
  using example_covered by (simp add: example_rows_def example_session_def)

lemma example_limit: "\<forall>b \<in> set example_buckets. bk_count b \<le> int (5 * 1000)"
  by (simp add: example_buckets_def)

lemma example_run_value: "\<exists>r s'. example_run = (Inr r, s') \<and> de_ok r"
proof -
  obtain cv where cv: "deletionPlanCoversCurrentConnectorDay example_pair example_buckets (List.map history_object
      (canonical_rows_of example_prune_env example_pair (dp_dayStart example_pair) (dp_dayEnd example_pair) (se_db example_session))) = Inr cv"
    "cv_exact cv" using example_covered_now by blast
  show ?thesis
    by (rule run_succeeds [OF example_pair_read example_buckets_read _ example_faultless(1) example_canonical _ example_limit cv
        example_matches example_unique]) simp_all
qed

section \<open>Properties\<close>



text \<open>C2: a run that reports success has deleted exactly the observations of its connector day, and did so
  on proof: the gate of the day was valid, and the identity recorded in the candidate and in the gate is the
  one computed from the canonical rows that were there, as many as the day had observations.\<close>

theorem prune_deletes_proven_day:
  assumes "runPruneConnectorDayDeletionTransaction env dayUtc connectorId buckets sz left codes s = (Inr r, s')" "de_ok r"
    "rolls_back (set TRANSACTION_CONFLICT_CODES) (en_faults env)"
  shows "\<exists>pair i. normalizePair dayUtc connectorId = Inr pair
    \<and> pg_observations (se_db s') = filter (\<lambda>ob. \<not> of_day pair ob) (pg_observations (se_db s))
    \<and> isValidConnectorHistoryGateEvidence (en_version env) (select_gate (dp_day pair) (se_db s))
    \<and> normalizePruneConnectorSourceIdentity (select_candidate (dp_day pair) (se_db s)) = Inr i
    \<and> normalizePruneConnectorSourceIdentity (select_gate (dp_day pair) (se_db s)) = Inr i
    \<and> computePruneConnectorSourceIdentity (en_sha env) (List.map history_object
        (canonical_rows_of env pair (dp_dayStart pair) (dp_dayEnd pair) (se_db s))) = Inr i
    \<and> raw_day_count pair (se_db s) = id_row_count i"
proof -
  obtain pair where p: "normalizePair dayUtc connectorId = Inr pair" "deletion_done env pair (se_db s) (se_db s')"
    using run_settled [OF assms(3,1)] settled_ok assms(2) by metis
  then obtain i where i: "evidence_matches env pair (se_db s) i" by (auto simp: deletion_done_def)
  note m = i [unfolded evidence_matches_def Let_def]
  obtain ci gi where "normalizePruneConnectorSourceIdentity (select_candidate (dp_day pair) (se_db s)) = Inr ci"
      "normalizePruneConnectorSourceIdentity (select_gate (dp_day pair) (se_db s)) = Inr gi" "ci = i" "gi = i"
      "isValidConnectorHistoryGateEvidence (en_version env) (select_gate (dp_day pair) (se_db s))"
    using classify_facts [OF conjunct1 [OF m]] m by (metis option.inject)
  then show ?thesis using p m deletion_done_observations [OF p(2)] by blast
qed

theorem prune_deletes_proven_day_witness:
  "\<exists>r s' pair. example_run = (Inr r, s') \<and> normalizePair (JStr ''2024-05-01'') (JInt 3) = Inr pair
    \<and> pg_observations (se_db s') = filter (\<lambda>ob. \<not> of_day pair ob) (pg_observations (se_db example_session))"
proof -
  obtain r s' where r: "example_run = (Inr r, s')" "de_ok r" using example_run_value by blast
  from prune_deletes_proven_day [OF r example_faultless(2)] r(1) show ?thesis by blast
qed

text \<open>C3: whatever statements fail, the observations are untouched or exactly those of one proven connector day
  are gone. They are gone when the run reports success, and otherwise only when it throws after a commit
  whose answer was lost: never on a result that says it was blocked, and never on a conflict.\<close>

theorem prune_all_or_nothing:
  assumes "runPruneConnectorDayDeletionTransaction env dayUtc connectorId buckets sz left codes s = (x, s')"
    "rolls_back (set TRANSACTION_CONFLICT_CODES) (en_faults env)"
  shows "pg_observations (se_db s') = pg_observations (se_db s)
    \<or> (\<exists>pair i. normalizePair dayUtc connectorId = Inr pair \<and> evidence_matches env pair (se_db s) i
        \<and> pg_observations (se_db s') = filter (\<lambda>ob. \<not> of_day pair ob) (pg_observations (se_db s))
        \<and> (case x of Inr r \<Rightarrow> de_ok r | Inl e \<Rightarrow> e \<notin> conflicts))"
proof (cases x)
  case (Inr r)
  obtain pair where p: "normalizePair dayUtc connectorId = Inr pair" "settled env pair (se_db s) r s'"
    using run_settled [OF assms(2) assms(1) [unfolded Inr]] by metis
  show ?thesis
  proof (cases "de_ok r")
    case True
    note d = settled_ok [OF p(2) True]
    show ?thesis
      unfolding Inr using p(1) deletion_done_observations [OF d] deletion_done_evidence [OF d] True by simp
  next
    case False
    then show ?thesis using settled_blocked [OF p(2)] by blast
  qed
next
  case (Inl e)
  from run_broken [OF assms(2) assms(1) [unfolded Inl]] show ?thesis
  proof
    assume "\<exists>pair. normalizePair dayUtc connectorId = Inr pair \<and> broken env pair (se_db s) e s'"
    then obtain pair where p: "normalizePair dayUtc connectorId = Inr pair" "broken env pair (se_db s) e s'" by blast
    from broken_observations [OF p(2)] show ?thesis
    proof
      assume d: "e \<notin> conflicts \<and> deletion_done env pair (se_db s) (se_db s')"
      then show ?thesis
        unfolding Inl using p(1) deletion_done_observations [OF conjunct2 [OF d]] deletion_done_evidence [OF conjunct2 [OF d]] d
        by simp
    qed simp
  qed simp
qed

theorem prune_all_or_nothing_witness:
  "pg_observations (se_db (snd example_run)) = pg_observations (se_db example_session)
    \<or> (\<exists>pair. normalizePair (JStr ''2024-05-01'') (JInt 3) = Inr pair
        \<and> pg_observations (se_db (snd example_run)) = filter (\<lambda>ob. \<not> of_day pair ob) (pg_observations (se_db example_session)))"
  using prune_all_or_nothing [OF prod.collapse [symmetric] example_faultless(2), of "JStr ''2024-05-01''" "JInt 3"
      "List.map raw_of (array_of example_plan)" 1000 5 Undef example_session] by blast

text \<open>C5: the authority to delete is used once: after a committed deletion of a connector day no later run on the
  same day, with whatever plan, limits and faults, changes anything, and one that returns says that the
  deletion was already committed or that it met a conflict.\<close>

theorem prune_deletes_once:
  assumes "runPruneConnectorDayDeletionTransaction env dayUtc connectorId buckets sz left codes s = (Inr r, s')" "de_ok r"
    "rolls_back (set TRANSACTION_CONFLICT_CODES) (en_faults env)"
    "runPruneConnectorDayDeletionTransaction env' dayUtc connectorId buckets' sz' left' codes' t = (x, t')" "se_db t = se_db s'"
  shows "se_db t' = se_db t \<and> (case x of Inl e \<Rightarrow> True
    | Inr r' \<Rightarrow> \<not> de_ok r' \<and> di_failure_reason (de_diagnostics r')
        \<in> {Some ''first_deletion_already_committed'', Some ''source_identity_transaction_conflict''})"
proof -
  obtain pair where p: "normalizePair dayUtc connectorId = Inr pair" "deletion_done env pair (se_db s) (se_db s')"
    using run_settled [OF assms(3,1)] settled_ok assms(2) by metis
  then obtain i where i: "evidence_matches env pair (se_db s) i" "se_db s' = drained env pair (id_row_count i) (se_db s)"
    by (auto simp: deletion_done_def)
  have "classifyLockedEvidence (en_version env') (select_candidate (dp_day pair) (se_db t)) (select_gate (dp_day pair) (se_db t))
      (dp_day pair) = unfit ''first_deletion_already_committed'' True"
    unfolding assms(5) i(2) by (rule drained_verdict [where version = "en_version env", OF _ refl]) (use i(1) in \<open>simp add: evidence_matches_def Let_def\<close>)
  note q = run_preserved [OF p(1) this, of buckets' sz' left' codes']
  show ?thesis
  proof (cases x)
    case (Inl e)
    then show ?thesis using ensuresD(2) [OF q refl assms(4) [unfolded Inl]] by simp
  next
    case (Inr r')
    then show ?thesis using ensuresD(1) [OF q refl assms(4) [unfolded Inr]] by simp
  qed
qed

theorem prune_deletes_once_witness:
  "\<exists>s'. snd example_run = s' \<and> se_db (snd (runPruneConnectorDayDeletionTransaction example_prune_env (JStr ''2024-05-01'') (JInt 3)
      [] 1000 5 Undef s')) = se_db s'"
proof -
  obtain r s' where r: "example_run = (Inr r, s')" "de_ok r" using example_run_value by blast
  from prune_deletes_once [OF r example_faultless(2) prod.collapse [symmetric] refl, of example_prune_env "[]" 1000 5 Undef] r(1)
  show ?thesis by auto
qed

text \<open>C8: executing a plan for many connector days removes whole connector days of the plan and nothing else, however
  statements and connections fail; when it returns, its results say exactly which days are gone.\<close>

theorem plan_deletes_whole_days:
  assumes "deletePruneBucketsWithSourceIdentity env url buckets sz left codes s = (x, s')"
    "rolls_back (set TRANSACTION_CONFLICT_CODES) (en_faults env)" "groupBucketsByConnectorDay buckets = Inr groups"
  shows "case x of
      Inr results \<Rightarrow> length results = length groups
        \<and> pg_observations (se_db s') = filter (spared groups results) (pg_observations (se_db s))
    | Inl e \<Rightarrow> \<exists>ps \<subseteq> dg_pair ` set groups.
        pg_observations (se_db s') = filter (\<lambda>ob. \<forall>p \<in> ps. \<not> of_day p ob) (pg_observations (se_db s))"
proof -
  let ?f = "\<lambda>g. with_deletion_client env url
      (runPruneConnectorDayDeletionTransaction env (JStr (cd_day_utc (dp_day (dg_pair g))))
        (JInt (cd_connector_id (dp_day (dg_pair g)))) (List.map raw_again (dg_buckets g)) sz left codes)"
  have "deletePruneBucketsWithSourceIdentity env url buckets sz left codes s = tx_mapM ?f groups s"
    by (simp add: deletePruneBucketsWithSourceIdentity_def assms(3) tx_bind_def tx_res_def)
  then have m: "tx_mapM ?f groups s = (x, s')" using assms(1) by simp
  have t: "ensures (\<lambda>s. pg_observations (se_db s) = obs) (tx_mapM ?f groups)
    (\<lambda>rs s. length rs = length groups \<and> pg_observations (se_db s) = filter (spared groups rs) obs)
    (\<lambda>_ s. \<exists>ps \<subseteq> dg_pair ` set groups. pg_observations (se_db s) = filter (\<lambda>ob. \<forall>p \<in> ps. \<not> of_day p ob) obs)" for obs
    by (rule groups_triple) (rule group_triple [OF assms(2) groups_normal [OF assms(3)]])
  show ?thesis
  proof (cases x)
    case (Inl e)
    show ?thesis unfolding Inl using ensuresD(2) [OF t refl m [unfolded Inl]] by simp
  next
    case (Inr rs)
    show ?thesis unfolding Inr using ensuresD(1) [OF t refl m [unfolded Inr]] by simp
  qed
qed

theorem plan_deletes_whole_days_witness:
  "\<exists>groups. groupBucketsByConnectorDay example_plan = Inr groups
    \<and> (case deletePruneBucketsWithSourceIdentity example_prune_env (JStr ''db'') example_plan 1000 5 Undef example_session of
        (Inr results, s') \<Rightarrow> length results = length groups
      | (Inl e, s') \<Rightarrow> \<exists>ps \<subseteq> dg_pair ` set groups. pg_observations (se_db s') =
          filter (\<lambda>ob. \<forall>p \<in> ps. \<not> of_day p ob) (pg_observations (se_db example_session)))"
proof -
  obtain groups where g: "groupBucketsByConnectorDay example_plan = Inr groups"
    using example_groups by blast
  obtain x s' where x: "deletePruneBucketsWithSourceIdentity example_prune_env (JStr ''db'') example_plan 1000 5 Undef example_session = (x, s')"
    by (cases "deletePruneBucketsWithSourceIdentity example_prune_env (JStr ''db'') example_plan 1000 5 Undef example_session")
  from plan_deletes_whole_days [OF x example_faultless(2) g] g x show ?thesis by (auto split: sum.splits)
qed

end
