(* ===== verification/WhoDays.thy ===== *)
theory WhoDays
  imports ConnectorGate
begin

text \<open>
  workers/uk_aq_who_2021_daily/who_2021_daily_core.ts: UTC days, the configuration of a run, chunks of days, the
  payloads of the procedure calls and the summaries of their rows. Loops that count days are partial functions
  into option, and are shown to return.
\<close>

section \<open>Modes and settings\<close>

datatype run_mode = DailyRun | BackfillRun | DryRun
datatype trigger_mode = SchedulerTrigger | ManualTrigger | TestTrigger

text \<open>A text of the environment, null or undefined when absent: raw || \<open>""\<close>\<close>

definition env_text :: "string option \<Rightarrow> string" where
  "env_text raw = (case raw of None \<Rightarrow> [] | Some s \<Rightarrow> s)"

definition parseRunMode :: "string option \<Rightarrow> run_mode" where
  "parseRunMode raw =
     (let v = js_lower (js_trim (env_text raw)) in
      if v = ''backfill'' then BackfillRun else if v = ''dry_run'' then DryRun else DailyRun)"

definition parseTriggerMode :: "string option \<Rightarrow> trigger_mode" where
  "parseTriggerMode raw =
     (let v = js_lower (js_trim (env_text raw)) in
      if v = ''scheduler'' then SchedulerTrigger else if v = ''test'' then TestTrigger else ManualTrigger)"

definition parsePositiveInt :: "string option \<Rightarrow> jsnum \<Rightarrow> jsnum" where
  "parsePositiveInt raw fallback =
     (let v = js_number (JStr (env_text raw)) in
      if \<not> num_finite v \<or> num_le v (Fin 0) then fallback else num_trunc v)"

definition parsePollutantCodes :: "string option \<Rightarrow> string list" where
  "parsePollutantCodes raw =
     (let source = (if js_trim (env_text raw) \<noteq> [] then env_text raw else ''pm25,pm10,no2'')
      in rev (remdups (rev (filter (\<lambda>p. p \<noteq> []) (List.map (\<lambda>p. js_lower (js_trim p)) (js_split (CHR '','') source))))))"

section \<open>Days\<close>

definition midnight_text :: "string \<Rightarrow> string" where
  "midnight_text day = day @ ''T00:00:00.000Z''"

definition assertIsoDay :: "string \<Rightarrow> string \<Rightarrow> unit res" where
  "assertIsoDay day label =
     (if \<not> of_shape ''dddd-dd-dd'' day then Inl (JsError (label @ '' must be YYYY-MM-DD''))
      else case date_parse (midnight_text day) of
          None \<Rightarrow> Inl (JsError (label @ '' is not a valid UTC day''))
        | Some t \<Rightarrow> if take 10 (to_iso t) = day then Inr () else Inl (JsError (label @ '' is not a valid UTC day'')))"

text \<open>new Date(n), and its day; an invalid date has none.\<close>

definition date_of_num :: "jsnum \<Rightarrow> int option" where
  "date_of_num n = (case n of Fin x \<Rightarrow> time_clip (rat_trunc x) | _ \<Rightarrow> None)"

definition toIsoDay :: "int option \<Rightarrow> string res" where
  "toIsoDay date = (case date of None \<Rightarrow> Inl RangeError | Some t \<Rightarrow> Inr (take 10 (to_iso t)))"

definition addDays :: "string \<Rightarrow> jsnum \<Rightarrow> string res" where
  "addDays day offsetDays =
     (case assertIsoDay day ''day'' of
        Inl e \<Rightarrow> Inl e
      | Inr _ \<Rightarrow>
          (case date_parse (midnight_text day) of
             None \<Rightarrow> Inl RangeError
           | Some t \<Rightarrow> toIsoDay (date_of_num (num_add (Fin (of_int t)) (num_mul offsetDays (Fin (of_int MS_DAY)))))))"

definition compareIsoDay :: "string \<Rightarrow> string \<Rightarrow> int res" where
  "compareIsoDay a b =
     (case assertIsoDay a ''a'' of
        Inl e \<Rightarrow> Inl e
      | Inr _ \<Rightarrow> (case assertIsoDay b ''b'' of
          Inl e \<Rightarrow> Inl e
        | Inr _ \<Rightarrow> Inr (if a < b then - 1 else if b < a then 1 else 0)))"

definition daysBetweenInclusive :: "string \<Rightarrow> string \<Rightarrow> jsnum res" where
  "daysBetweenInclusive startDay endDay =
     (case assertIsoDay startDay ''startDay'' of
        Inl e \<Rightarrow> Inl e
      | Inr _ \<Rightarrow> (case assertIsoDay endDay ''endDay'' of
          Inl e \<Rightarrow> Inl e
        | Inr _ \<Rightarrow>
            (case (date_parse (midnight_text endDay), date_parse (midnight_text startDay)) of
               (Some b, Some a) \<Rightarrow> Inr (num_add (num_trunc (num_div (Fin (of_int (b - a))) (Fin (of_int MS_DAY)))) (Fin 1))
             | _ \<Rightarrow> Inr NaN)))"

definition minIsoDay :: "string \<Rightarrow> string \<Rightarrow> string res" where
  "minIsoDay a b = (case compareIsoDay a b of Inl e \<Rightarrow> Inl e | Inr c \<Rightarrow> Inr (if c \<le> 0 then a else b))"

definition latestCompleteDayUtc :: "int \<Rightarrow> jsnum \<Rightarrow> string res" where
  "latestCompleteDayUtc now maturityDelayHours =
     (case toIsoDay (Some now) of Inl e \<Rightarrow> Inl e | Inr d \<Rightarrow> addDays d (Fin (- 1)))"

partial_function (option) list_days :: "string \<Rightarrow> string \<Rightarrow> string list res option" where
  "list_days day endDay =
     (case compareIsoDay day endDay of
        Inl e \<Rightarrow> Some (Inl e)
      | Inr c \<Rightarrow>
          if 0 < c then Some (Inr [])
          else (case addDays day (Fin 1) of
              Inl e \<Rightarrow> Some (Inl e)
            | Inr d \<Rightarrow> Option.bind (list_days d endDay) (\<lambda>r. Some (res_map ((#) day) r))))"

definition listDaysInclusive :: "string \<Rightarrow> string \<Rightarrow> string list res option" where
  "listDaysInclusive startDayUtc endDayUtc =
     (case assertIsoDay startDayUtc ''startDayUtc'' of
        Inl e \<Rightarrow> Some (Inl e)
      | Inr _ \<Rightarrow> (case assertIsoDay endDayUtc ''endDayUtc'' of
          Inl e \<Rightarrow> Some (Inl e)
        | Inr _ \<Rightarrow> (case compareIsoDay endDayUtc startDayUtc of
            Inl e \<Rightarrow> Some (Inl e)
          | Inr c \<Rightarrow> if c < 0 then Some (Inl (JsError ''endDayUtc must be >= startDayUtc''))
              else list_days startDayUtc endDayUtc)))"

section \<open>Chunks of days\<close>

partial_function (option) day_chunks :: "string \<Rightarrow> string \<Rightarrow> jsnum \<Rightarrow> (string \<times> string) list res option" where
  "day_chunks cursor endDay chunkSize =
     (case compareIsoDay cursor endDay of
        Inl e \<Rightarrow> Some (Inl e)
      | Inr c \<Rightarrow>
          if 0 < c then Some (Inr [])
          else (case addDays cursor (num_sub chunkSize (Fin 1)) of
              Inl e \<Rightarrow> Some (Inl e)
            | Inr d \<Rightarrow> (case minIsoDay d endDay of
                Inl e \<Rightarrow> Some (Inl e)
              | Inr chunkEnd \<Rightarrow> (case addDays chunkEnd (Fin 1) of
                  Inl e \<Rightarrow> Some (Inl e)
                | Inr next \<Rightarrow> Option.bind (day_chunks next endDay chunkSize)
                    (\<lambda>r. Some (res_map ((#) (cursor, chunkEnd)) r))))))"

definition chunk_size :: "jsnum \<Rightarrow> jsnum" where
  "chunk_size chunkDays = num_max (Fin 1) (num_trunc chunkDays)"

definition buildDayChunks :: "string \<Rightarrow> string \<Rightarrow> jsnum \<Rightarrow> (string \<times> string) list res option" where
  "buildDayChunks startDayUtc endDayUtc chunkDays =
     (case assertIsoDay startDayUtc ''startDayUtc'' of
        Inl e \<Rightarrow> Some (Inl e)
      | Inr _ \<Rightarrow> (case assertIsoDay endDayUtc ''endDayUtc'' of
          Inl e \<Rightarrow> Some (Inl e)
        | Inr _ \<Rightarrow> day_chunks startDayUtc endDayUtc (chunk_size chunkDays)))"

section \<open>The configuration of a run\<close>

record who_params =
  rp_runMode :: run_mode
  rp_triggerMode :: trigger_mode
  rp_now :: int
  rp_explicitStartDayUtc :: "string option"
  rp_explicitEndDayUtc :: "string option"
  rp_lookbackDays :: jsnum
  rp_maturityDelayHours :: jsnum
  rp_connectorId :: jsnum
  rp_sourceNetworkCode :: string
  rp_pollutantCodes :: "string list"
  rp_minValidHoursPerDay :: jsnum
  rp_minValidDays :: jsnum
  rp_minFinalHourCoverageRatio :: jsnum
  rp_readinessGateEnabled :: bool
  rp_summaryRefreshEnabled :: bool
  rp_r2PublishEnabled :: "bool option"
  rp_parquetR2WriteEnabled :: "bool option"
  rp_chunkDays :: jsnum
  rp_backfillMaxDays :: "jsnum option"

record who_config =
  wc_runMode :: run_mode
  wc_triggerMode :: trigger_mode
  wc_startDayUtc :: string
  wc_endDayUtc :: string
  wc_latestCompleteDayUtc :: string
  wc_connectorId :: int
  wc_sourceNetworkCode :: string
  wc_pollutantCodes :: "string list"
  wc_minValidHoursPerDay :: jsnum
  wc_minValidDays :: jsnum
  wc_minFinalHourCoverageRatio :: jsnum
  wc_readinessGateEnabled :: bool
  wc_summaryRefreshEnabled :: bool
  wc_r2PublishEnabled :: bool
  wc_parquetR2WriteEnabled :: bool
  wc_chunkDays :: jsnum
  wc_backfillMaxDays :: jsnum
  wc_dryRun :: bool

definition clampRatio :: "jsnum \<Rightarrow> jsnum" where
  "clampRatio v = (if \<not> num_finite v then to_double (9 / 10) else num_min (Fin 1) (num_max (Fin 0) v))"

text \<open>The first and the last day of a run, before they are checked.\<close>

definition run_days :: "who_params \<Rightarrow> string \<Rightarrow> (string \<times> string) res" where
  "run_days p latestComplete =
     (let startDay = env_text (rp_explicitStartDayUtc p); endDay = env_text (rp_explicitEndDayUtc p)
      in case rp_runMode p of
           BackfillRun \<Rightarrow>
             if startDay = [] \<or> endDay = [] then Inl (JsError ''backfill requires start_day_utc and end_day_utc'')
             else Inr (startDay, endDay)
         | DailyRun \<Rightarrow> res_map (\<lambda>d. (d, latestComplete)) (addDays latestComplete (Fin (- 1)))
         | DryRun \<Rightarrow>
             (let endDay = (if endDay = [] then latestComplete else endDay);
                  lookback = num_max (Fin 1) (num_trunc (rp_lookbackDays p))
              in if startDay \<noteq> [] then Inr (startDay, endDay)
                 else res_map (\<lambda>d. (d, endDay)) (addDays endDay (num_neg (num_sub lookback (Fin 1))))))"

definition backfill_limit :: "who_params \<Rightarrow> jsnum" where
  "backfill_limit p = num_max (Fin 1) (num_trunc (case rp_backfillMaxDays p of None \<Rightarrow> Fin 31 | Some n \<Rightarrow> n))"

text \<open>The checks, in the order in which they throw.\<close>

definition check_days :: "who_params \<Rightarrow> string \<Rightarrow> string \<Rightarrow> unit res" where
  "check_days p startDay endDay =
     res_bind (assertIsoDay startDay ''start_day_utc'') (\<lambda>_.
     res_bind (assertIsoDay endDay ''end_day_utc'') (\<lambda>_.
     res_bind (compareIsoDay endDay startDay) (\<lambda>c.
       if c < 0 then Inl (JsError ''end_day_utc must be >= start_day_utc'')
       else if rp_runMode p = BackfillRun
       then res_bind (daysBetweenInclusive startDay endDay) (\<lambda>n.
         if num_lt (backfill_limit p) n
         then Inl (JsError (''backfill range exceeds '' @ num_str (backfill_limit p) @ '' inclusive days''))
         else Inr ())
       else Inr ())))"

definition check_params :: "who_params \<Rightarrow> int res" where
  "check_params p =
     (case num_integer (rp_connectorId p) of
        None \<Rightarrow> Inl (JsError ''connector_id must be a positive integer'')
      | Some connectorId \<Rightarrow>
          if connectorId \<le> 0 then Inl (JsError ''connector_id must be a positive integer'')
          else if rp_pollutantCodes p = [] then Inl (JsError ''at least one pollutant code is required'')
          else if num_lt (rp_minValidHoursPerDay p) (Fin 1) \<or> num_lt (Fin 24) (rp_minValidHoursPerDay p)
          then Inl (JsError ''min_valid_hours_per_day must be between 1 and 24'')
          else if \<not> num_finite (rp_minFinalHourCoverageRatio p)
          then Inl (JsError ''min_final_hour_coverage_ratio must be finite'')
          else Inr connectorId)"

definition config_of :: "who_params \<Rightarrow> string \<Rightarrow> string \<Rightarrow> string \<Rightarrow> int \<Rightarrow> who_config" where
  "config_of p latestComplete startDay endDay connectorId =
     \<lparr>wc_runMode = rp_runMode p, wc_triggerMode = rp_triggerMode p, wc_startDayUtc = startDay, wc_endDayUtc = endDay,
      wc_latestCompleteDayUtc = latestComplete, wc_connectorId = connectorId,
      wc_sourceNetworkCode = (let c = js_lower (js_trim (rp_sourceNetworkCode p)) in if c = [] then ''gov_uk_aurn'' else c),
      wc_pollutantCodes = rp_pollutantCodes p, wc_minValidHoursPerDay = num_trunc (rp_minValidHoursPerDay p),
      wc_minValidDays = num_max (Fin 1) (num_trunc (rp_minValidDays p)),
      wc_minFinalHourCoverageRatio = clampRatio (rp_minFinalHourCoverageRatio p),
      wc_readinessGateEnabled = rp_readinessGateEnabled p, wc_summaryRefreshEnabled = rp_summaryRefreshEnabled p,
      wc_r2PublishEnabled = (rp_r2PublishEnabled p = Some True),
      wc_parquetR2WriteEnabled = (rp_parquetR2WriteEnabled p = Some True),
      wc_chunkDays = chunk_size (rp_chunkDays p), wc_backfillMaxDays = backfill_limit p,
      wc_dryRun = (rp_runMode p = DryRun)\<rparr>"

definition buildRunConfig :: "who_params \<Rightarrow> who_config res" where
  "buildRunConfig p =
     res_bind (latestCompleteDayUtc (rp_now p) (rp_maturityDelayHours p)) (\<lambda>latestComplete.
     res_bind (run_days p latestComplete) (\<lambda>(startDay, endDay).
     res_bind (check_days p startDay endDay) (\<lambda>_.
     res_map (config_of p latestComplete startDay endDay) (check_params p))))"

section \<open>Payloads of the procedure calls\<close>

definition codes_array :: "string list \<Rightarrow> jsval" where
  "codes_array codes = JArr (List.map JStr codes)"

definition buildReadinessPayload :: "who_config \<Rightarrow> string \<Rightarrow> jsval res" where
  "buildReadinessPayload c asOfDayUtc =
     res_map (\<lambda>_. JObj [(''p_as_of_day_utc'', JStr asOfDayUtc), (''p_connector_id'', JInt (wc_connectorId c)),
         (''p_source_network_code'', JStr (wc_sourceNetworkCode c)),
         (''p_pollutant_codes'', codes_array (wc_pollutantCodes c)),
         (''p_min_final_hour_coverage_ratio'', JNum (wc_minFinalHourCoverageRatio c))])
       (assertIsoDay asOfDayUtc ''asOfDayUtc'')"

definition buildDailyRefreshPayload :: "who_config \<Rightarrow> string \<times> string \<Rightarrow> jsval" where
  "buildDailyRefreshPayload c chunk =
     JObj [(''p_start_day_utc'', JStr (fst chunk)), (''p_end_day_utc'', JStr (snd chunk)),
       (''p_connector_id'', JInt (wc_connectorId c)), (''p_source_network_code'', JStr (wc_sourceNetworkCode c)),
       (''p_pollutant_codes'', codes_array (wc_pollutantCodes c)),
       (''p_min_valid_hours_per_day'', JNum (wc_minValidHoursPerDay c)), (''p_dry_run'', JBool (wc_dryRun c))]"

definition buildSummaryRefreshPayload :: "who_config \<Rightarrow> string \<Rightarrow> jsval res" where
  "buildSummaryRefreshPayload c asOfDayUtc =
     res_map (\<lambda>_. JObj [(''p_as_of_day_utc'', JStr asOfDayUtc), (''p_connector_id'', JInt (wc_connectorId c)),
         (''p_source_network_code'', JStr (wc_sourceNetworkCode c)),
         (''p_pollutant_codes'', codes_array (wc_pollutantCodes c)), (''p_min_valid_days'', JNum (wc_minValidDays c)),
         (''p_min_valid_hours_per_day'', JNum (wc_minValidHoursPerDay c)), (''p_dry_run'', JBool (wc_dryRun c))])
       (assertIsoDay asOfDayUtc ''asOfDayUtc'')"

section \<open>Summaries of rows\<close>

record daily_summary =
  ds_chunks :: int
  ds_candidate_timeseries_count :: jsnum
  ds_candidate_timeseries_days :: jsnum
  ds_source_hour_rows :: jsnum
  ds_valid_timeseries_days :: jsnum
  ds_not_enough_data_timeseries_days :: jsnum
  ds_rows_upserted :: jsnum

text \<open>Number(value) || 0\<close>

definition number_or_zero :: "jsval \<Rightarrow> jsnum" where
  "number_or_zero v = (if js_number v = NaN then Fin 0 else js_number v)"

definition sumRows :: "jsval list \<Rightarrow> string \<Rightarrow> jsnum" where
  "sumRows rows key =
     fold (\<lambda>row total. num_add total (let v = js_number (jget row key) in if num_finite v then v else Fin 0)) rows (Fin 0)"

text \<open>A property is read of every row; null has none.\<close>

definition rows_readable :: "jsval list \<Rightarrow> unit res" where
  "rows_readable rows = (if list_ex is_nullish rows then Inl TypeError else Inr ())"

definition mergeDailyRefreshRows :: "jsval list \<Rightarrow> daily_summary res" where
  "mergeDailyRefreshRows rows = res_map (\<lambda>_.
     \<lparr>ds_chunks = int (length rows),
      ds_candidate_timeseries_count =
        (if rows = [] then Fin 0
         else fold (\<lambda>row m. num_max m (number_or_zero (jget row ''candidate_timeseries_count''))) rows NInf),
      ds_candidate_timeseries_days = sumRows rows ''candidate_timeseries_days'',
      ds_source_hour_rows = sumRows rows ''source_hour_rows'',
      ds_valid_timeseries_days = sumRows rows ''valid_timeseries_days'',
      ds_not_enough_data_timeseries_days = sumRows rows ''not_enough_data_timeseries_days'',
      ds_rows_upserted = sumRows rows ''rows_upserted''\<rparr>) (rows_readable rows)"

record readiness =
  rd_checked :: bool
  rd_ready :: bool
  rd_already_completed :: bool
  rd_as_of_day_utc :: string
  rd_final_hour_observed_at :: jsval
  rd_pollutant_rows :: "jsval list"

text \<open>rows.every and rows.some on a property: they stop at the first false and the first true one.\<close>

fun every_row :: "string \<Rightarrow> jsval list \<Rightarrow> bool res" where
  "every_row key [] = Inr True"
| "every_row key (row # rows) =
     (if is_nullish row then Inl TypeError else if js_truthy (jget row key) then every_row key rows else Inr False)"

fun some_row :: "string \<Rightarrow> jsval list \<Rightarrow> bool res" where
  "some_row key [] = Inr False"
| "some_row key (row # rows) =
     (if is_nullish row then Inl TypeError else if js_truthy (jget row key) then Inr True else some_row key rows)"

definition summarizeReadinessRows :: "jsval list \<Rightarrow> string \<Rightarrow> readiness res" where
  "summarizeReadinessRows rows asOfDayUtc =
     res_bind (every_row ''pollutant_ready'' rows) (\<lambda>ready.
     res_map (\<lambda>completed.
       \<lparr>rd_checked = True, rd_ready = (rows \<noteq> [] \<and> ready), rd_already_completed = completed,
        rd_as_of_day_utc = asOfDayUtc,
        rd_final_hour_observed_at =
          js_or (case rows of [] \<Rightarrow> Undef | row # _ \<Rightarrow> jget row ''final_hour_observed_at'') Null,
        rd_pollutant_rows = rows\<rparr>)
       (some_row ''already_completed'' rows))"

definition shouldRunReadinessGate :: "who_config \<Rightarrow> bool" where
  "shouldRunReadinessGate c \<longleftrightarrow> wc_readinessGateEnabled c \<and> wc_runMode c = DailyRun \<and> \<not> wc_dryRun c"

section \<open>Stable JSON\<close>

fun sortJsonValue :: "jsval \<Rightarrow> jsval" where
  "sortJsonValue (JArr vs) = JArr (List.map sortJsonValue vs)"
| "sortJsonValue (JObj kvs) = JObj (sort_key fst (List.map (\<lambda>kv. (fst kv, sortJsonValue (snd kv))) kvs))"
| "sortJsonValue (JDate _) = JObj []"
| "sortJsonValue v = v"

text \<open>JSON.stringify(value, null, 2) at a given depth\<close>

fun json_pretty :: "string \<Rightarrow> jsval \<Rightarrow> string" where
  "json_pretty ind (JArr vs) =
     (if vs = [] then ''[]''
      else ''['' @ [newline] @ ind @ ''  ''
        @ js_join ('','' @ [newline] @ ind @ ''  '') (List.map (json_pretty (ind @ ''  '')) vs) @ [newline] @ ind @ '']'')"
| "json_pretty ind (JObj kvs) =
     (let parts = List.concat (List.map (\<lambda>kv. case snd kv of Undef \<Rightarrow> []
            | v \<Rightarrow> [json_string (fst kv) @ '': '' @ json_pretty (ind @ ''  '') (snd kv)]) kvs)
      in if parts = [] then ''{}''
         else ''{'' @ [newline] @ ind @ ''  '' @ js_join ('','' @ [newline] @ ind @ ''  '') parts @ [newline] @ ind @ ''}'')"
| "json_pretty ind v = json_stringify v"

definition stableJson :: "jsval \<Rightarrow> string" where
  "stableJson v = (if v = Undef then ''undefined'' else json_pretty [] (sortJsonValue v)) @ [newline]"

section \<open>Where results are published\<close>

record publish_plan =
  pp_datedSummaryKey :: string
  pp_latestSummaryKey :: string
  pp_dailyCacheQuery :: string
  pp_dailyStatus :: string
  pp_rollingYearStatus :: string
  pp_calendarYearStatus :: string

definition buildR2PublishPlan :: "string \<Rightarrow> int \<Rightarrow> jsval \<Rightarrow> publish_plan res" where
  "buildR2PublishPlan asOfDayUtc connectorId calendarYear =
     res_map (\<lambda>_.
       let tail_key = ''/connector_id='' @ num_str (Fin (of_int connectorId)) @ ''/pollutant_code=<pollutant>/'';
           year = (let n = js_number calendarYear in
             if n = NaN \<or> n = Fin 0 then num_sub (js_number (JStr (take 4 asOfDayUtc))) (Fin 1) else n)
       in \<lparr>pp_datedSummaryKey = ''history/v2/who_2021/summaries/as_of_day_utc='' @ asOfDayUtc @ ''/who_2021_summary.json'',
           pp_latestSummaryKey = ''history/v2/who_2021/latest_who_2021.json'',
           pp_dailyCacheQuery = ''?as_of='' @ asOfDayUtc,
           pp_dailyStatus = ''history/v2/who_2021/daily_status/day_utc=<YYYY-MM-DD>'' @ tail_key,
           pp_rollingYearStatus = ''history/v2/who_2021/rolling_year_status/as_of_day_utc='' @ asOfDayUtc @ tail_key,
           pp_calendarYearStatus = ''history/v2/who_2021/calendar_year_status/calendar_year='' @ num_str year
             @ ''/period_type=complete_year'' @ tail_key\<rparr>)
       (assertIsoDay asOfDayUtc ''asOfDayUtc'')"

end
