(* ===== verification/HistoryVersion.thy ===== *)
theory HistoryVersion
  imports ConnectorGate
begin

text \<open>
  workers/shared/uk_aq_r2_history_version.mjs, and how uk_aq_observation_history_generation.mjs takes the storage
  generation from the environment and checks a set of prefixes against it. An environment is an object.
\<close>

definition DEPRECATED_R2_HISTORY_VERSION_ENVS :: "string list" where
  "DEPRECATED_R2_HISTORY_VERSION_ENVS =
     [''UK_AQ_R2_HISTORY_READ_VERSION'', ''UK_AQ_R2_HISTORY_WRITE_VERSION'', ''UK_AQ_R2_HISTORY_BACKUP_VERSION'']"

definition R2_HISTORY_VERSION_VALUES :: "string list" where
  "R2_HISTORY_VERSION_VALUES = [''v1'', ''v2'']"

definition deprecatedR2HistoryVersionVarsPresent :: "jsval \<Rightarrow> string list" where
  "deprecatedR2HistoryVersionVarsPresent env = filter (has_own env) DEPRECATED_R2_HISTORY_VERSION_ENVS"

definition assertNoDeprecatedR2HistoryVersionVars :: "jsval \<Rightarrow> string \<Rightarrow> unit res" where
  "assertNoDeprecatedR2HistoryVersionVars env scope =
     (let present = deprecatedR2HistoryVersionVarsPresent env in
      if present = [] then Inr ()
      else Inl (JsError (scope @ '' no longer supports '' @ js_join '', '' present
        @ ''. Use UK_AQ_R2_HISTORY_VERSION=v1|v2 and delete the old split read/write/backup vars.'')))"

definition parseR2HistoryVersion :: "jsval \<Rightarrow> string \<Rightarrow> bool \<Rightarrow> string option res" where
  "parseR2HistoryVersion raw varName required =
     (let v = js_lower (js_trim (str_coalesce raw)) in
      if v \<in> set R2_HISTORY_VERSION_VALUES then Inr (Some v)
      else if v = [] \<and> \<not> required then Inr None
      else if v = []
      then Inl (JsError (''Missing '' @ varName @ ''; set '' @ varName @ ''=v1 or '' @ varName @ ''=v2.''))
      else Inl (JsError (''Invalid '' @ varName @ ''='' @ json_string (js_string raw) @ ''; expected v1 or v2.'')))"

definition resolveR2HistoryVersion :: "jsval \<Rightarrow> string \<Rightarrow> string \<Rightarrow> bool \<Rightarrow> string option res" where
  "resolveR2HistoryVersion env scope varName guardDeprecated =
     res_bind (if guardDeprecated then assertNoDeprecatedR2HistoryVersionVars env scope else Inr ()) (\<lambda>_.
       parseR2HistoryVersion (jget env varName) varName True)"

definition resolveObservationHistoryGeneration :: "jsval \<Rightarrow> generation res" where
  "resolveObservationHistoryGeneration env =
     res_bind (assertNoDeprecatedR2HistoryVersionVars env ''Observation history generation'') (\<lambda>_.
       getObservationHistoryGeneration (jget env ''UK_AQ_R2_HISTORY_VERSION''))"

text \<open>The prefixes a caller has been given; a missing one is that of the generation.\<close>

definition assertObservationHistoryGenerationPrefixes :: "generation \<Rightarrow> jsval \<Rightarrow> generation res" where
  "assertObservationHistoryGenerationPrefixes g prefixes =
     (let agrees = (\<lambda>(name, p). jget prefixes name \<in> {Undef, JStr p}) in
      res_bind (assertObservationHistoryGeneration g) (\<lambda>_.
        if list_all agrees [(''observationsPrefix'', gn_observations_prefix g),
             (''indexRoot'', gn_timeseries_index_prefix g), (''indexPrefix'', gn_index_root_prefix g),
             (''latestKey'', gn_timeseries_latest_key g), (''bindingPrefix'', gn_binding_index_prefix g),
             (''runsPrefix'', gn_observations_runs_prefix g), (''corePrefix'', gn_core_prefix g),
             (''inventoryPrefix'', gn_backup_inventory_prefix g), (''statePrefix'', gn_backup_state_prefix g),
             (''packPrefix'', gn_binding_pack_prefix g)]
        then Inr g
        else Inl (JsError (''Observation history prefixes must describe complete '' @ gn_version g))))"

end
