(* ===== verification/WhoSource.thy ===== *)
theory WhoSource
  imports WhoDays HistoryVersion JsJson
begin

text \<open>
  workers/uk_aq_who_2021_daily/r2_observations.ts: a partition of observations is read from the bucket through
  the chain of its manifests, and a day of hourly values is aggregated to daily rows. The bucket, SHA-256, MD5 and
  the Parquet reader are parameters: the reader gives the column names of a file and its rows. Bytes are texts. The
  counters and the cache of manifests are a state that also survives an error.
\<close>

section \<open>Reading with counters and a cache\<close>

datatype read_error = ObjectNotFound string | ReadFailed js_error

fun read_error_message :: "read_error \<Rightarrow> string" where
  "read_error_message (ObjectNotFound key) = ''R2 object not found: '' @ key"
| "read_error_message (ReadFailed e) = error_message e"

record read_metrics =
  rm_manifestKeys :: "string list"
  rm_manifestHashesValidated :: int
  rm_parquetHashesValidated :: int
  rm_objectCount :: int
  rm_bytesRead :: int
  rm_parquetRowCount :: int

definition createR2ReadMetrics :: read_metrics where
  "createR2ReadMetrics = \<lparr>rm_manifestKeys = [], rm_manifestHashesValidated = 0, rm_parquetHashesValidated = 0,
     rm_objectCount = 0, rm_bytesRead = 0, rm_parquetRowCount = 0\<rparr>"

record source_state =
  so_metrics :: read_metrics
  so_cache :: "(string, jsval) jsmap"

type_synonym 'a reading = "source_state \<Rightarrow> (read_error + 'a) \<times> source_state"

definition rd_ret :: "'a \<Rightarrow> 'a reading" where
  "rd_ret x s = (Inr x, s)"

definition rd_bind :: "'a reading \<Rightarrow> ('a \<Rightarrow> 'b reading) \<Rightarrow> 'b reading" where
  "rd_bind m f s = (case m s of (Inl e, s') \<Rightarrow> (Inl e, s') | (Inr x, s') \<Rightarrow> f x s')"

definition rd_res :: "'a res \<Rightarrow> 'a reading" where
  "rd_res r s = (case r of Inl e \<Rightarrow> (Inl (ReadFailed e), s) | Inr x \<Rightarrow> (Inr x, s))"

definition rd_count :: "(read_metrics \<Rightarrow> read_metrics) \<Rightarrow> unit reading" where
  "rd_count f s = (Inr (), s\<lparr>so_metrics := f (so_metrics s)\<rparr>)"

text \<open>An error is replaced by one that names what was read.\<close>

definition rd_rename :: "(read_error \<Rightarrow> js_error) \<Rightarrow> 'a reading \<Rightarrow> 'a reading" where
  "rd_rename f m s = (case m s of (Inl e, s') \<Rightarrow> (Inl (ReadFailed (f e)), s') | (Inr x, s') \<Rightarrow> (Inr x, s'))"

fun rd_mapM :: "('a \<Rightarrow> 'b reading) \<Rightarrow> 'a list \<Rightarrow> 'b list reading" where
  "rd_mapM f [] = rd_ret []"
| "rd_mapM f (x # xs) = rd_bind (f x) (\<lambda>y. rd_bind (rd_mapM f xs) (\<lambda>ys. rd_ret (y # ys)))"

record source_env =
  sv_read :: "string \<Rightarrow> read_error + string"
  sv_sha256 :: "string \<Rightarrow> string"
  sv_md5 :: "string \<Rightarrow> string"
  sv_parquet :: "string \<Rightarrow> (string list \<times> jsval list list) res"
  sv_history_version :: jsval

section \<open>Rows and files\<close>

record r2_row =
  ro_connectorId :: int
  ro_stationId :: "int option"
  ro_timeseriesId :: int
  ro_pollutantCode :: string
  ro_observedAtUtc :: string
  ro_value :: "jsnum option"

record manifest_file =
  mf_key :: string
  mf_rowCount :: int
  mf_bytes :: int
  mf_etagOrHash :: string

record prepared_row =
  pr_timeseries_id :: int
  pr_valid_hour_count :: int
  pr_daily_mean_ugm3 :: "jsnum option"

record prepared_day =
  pd_dayUtc :: string
  pd_preparedRows :: "prepared_row list"
  pd_validPreparedRows :: int
  pd_insufficientPreparedRows :: int
  pd_metrics :: read_metrics

section \<open>Keys and columns\<close>

definition observationHistoryPrefix :: "source_env \<Rightarrow> string res" where
  "observationHistoryPrefix env =
     res_map gn_observations_prefix
       (resolveObservationHistoryGeneration (JObj [(''UK_AQ_R2_HISTORY_VERSION'', sv_history_version env)]))"

definition R2_OBSERVATION_COLUMNS :: "string list" where
  "R2_OBSERVATION_COLUMNS =
     [''connector_id'', ''station_id'', ''timeseries_id'', ''pollutant_code'', ''observed_at_utc'', ''value'']"

definition R2_OBSERVATION_SUPPORTED_COLUMN_SETS :: "string list list" where
  "R2_OBSERVATION_SUPPORTED_COLUMN_SETS =
     [R2_OBSERVATION_COLUMNS, R2_OBSERVATION_COLUMNS @ [''status''], R2_OBSERVATION_COLUMNS @ [''verification_status'']]"

definition supported_columns :: "string list \<Rightarrow> bool" where
  "supported_columns columns \<longleftrightarrow> list_ex (\<lambda>expected. length columns = length expected
     \<and> list_all (\<lambda>column. List.member columns column) expected) R2_OBSERVATION_SUPPORTED_COLUMN_SETS"

fun hasSupportedObservationColumns :: "jsval \<Rightarrow> bool" where
  "hasSupportedObservationColumns (JArr vs) = supported_columns (List.map js_string vs)"
| "hasSupportedObservationColumns _ = False"

definition r2ObservationDayManifestKey :: "source_env \<Rightarrow> string \<Rightarrow> string res" where
  "r2ObservationDayManifestKey env dayUtc =
     res_bind (assertIsoDay dayUtc ''dayUtc'') (\<lambda>_.
     res_map (\<lambda>p. p @ ''/day_utc='' @ dayUtc @ ''/manifest.json'') (observationHistoryPrefix env))"

definition isAbsentR2ObservationDayManifest :: "source_env \<Rightarrow> read_error \<Rightarrow> string \<Rightarrow> bool" where
  "isAbsentR2ObservationDayManifest env e dayUtc =
     (case e of ObjectNotFound key \<Rightarrow> r2ObservationDayManifestKey env dayUtc = Inr key | ReadFailed _ \<Rightarrow> False)"

section \<open>Fields of manifests\<close>

fun asRecord :: "jsval \<Rightarrow> string \<Rightarrow> jsval res" where
  "asRecord (JObj kvs) label = Inr (JObj kvs)"
| "asRecord (JDate d) label = Inr (JDate d)"
| "asRecord _ label = Inl (JsError (label @ '' must be a JSON object''))"

fun asArray :: "jsval \<Rightarrow> string \<Rightarrow> jsval list res" where
  "asArray (JArr vs) label = Inr vs"
| "asArray _ label = Inl (JsError (label @ '' must be an array''))"

definition requiredString :: "jsval \<Rightarrow> string \<Rightarrow> string \<Rightarrow> string res" where
  "requiredString record key label =
     (case jget record key of
        JStr s \<Rightarrow> if js_trim s = [] then Inl (JsError (label @ ''.'' @ key @ '' must be a non-empty string''))
                 else Inr (js_trim s)
      | _ \<Rightarrow> Inl (JsError (label @ ''.'' @ key @ '' must be a non-empty string'')))"

definition requiredInteger :: "jsval \<Rightarrow> string \<Rightarrow> string \<Rightarrow> int \<Rightarrow> int res" where
  "requiredInteger record key label minimum =
     (let bad = Inl (JsError (label @ ''.'' @ key @ '' must be an integer >= '' @ int_str minimum))
      in case num_safe_integer (js_number (jget record key)) of
           None \<Rightarrow> bad
         | Some n \<Rightarrow> if n < minimum then bad else Inr n)"

text \<open>The label of the entry of an array.\<close>

definition at_index :: "string \<Rightarrow> nat \<Rightarrow> string" where
  "at_index label i = label @ ''['' @ int_str (int i) @ '']''"

section \<open>Coverage\<close>

definition is_alnum :: "char \<Rightarrow> bool" where
  "is_alnum c \<longleftrightarrow> is_digit c \<or> 97 \<le> char_code c \<and> char_code c \<le> 122 \<or> 65 \<le> char_code c \<and> char_code c \<le> 90"

text \<open>value.replace(/([a-z0-9])([A-Z])/g, \<open>"$1_$2"\<close>)\<close>

fun split_words :: "string \<Rightarrow> string" where
  "split_words (a # b # s) =
     (if (is_digit a \<or> 97 \<le> char_code a \<and> char_code a \<le> 122) \<and> 65 \<le> char_code b \<and> char_code b \<le> 90
      then a # CHR ''_'' # split_words (b # s) else a # split_words (b # s))"
| "split_words s = s"

text \<open>value.replace(/[^a-z0-9]+/gi, \<open>"_"\<close>); inside is set when the character before was replaced\<close>

fun join_words :: "bool \<Rightarrow> string \<Rightarrow> string" where
  "join_words inside [] = []"
| "join_words inside (c # s) =
     (if is_alnum c then c # join_words False s
      else if inside then join_words True s else CHR ''_'' # join_words True s)"

definition strip_underscores :: "string \<Rightarrow> string" where
  "strip_underscores s = rev (dropWhile (\<lambda>c. c = CHR ''_'') (rev (dropWhile (\<lambda>c. c = CHR ''_'') s)))"

definition normalizeCoverageName :: "string \<Rightarrow> string" where
  "normalizeCoverageName s = js_lower (strip_underscores (join_words False (split_words s)))"

definition normalizeCoverageValue :: "jsval \<Rightarrow> string" where
  "normalizeCoverageValue v = js_lower (strip_underscores (join_words False (js_trim (str_coalesce v))))"

definition isIncompleteCoverageState :: "jsval \<Rightarrow> bool" where
  "isIncompleteCoverageState v =
     (case v of
        JStr _ \<Rightarrow> (let n = normalizeCoverageValue v in
          List.member [''partial'', ''incomplete'', ''not_complete''] n
          \<or> list_ex (\<lambda>w. js_includes n w) [''partial'', ''incomplete'', ''with_gap'', ''missing''])
      | _ \<Rightarrow> False)"

definition isFalseCoverageValue :: "jsval \<Rightarrow> bool" where
  "isFalseCoverageValue v =
     (case v of
        JBool b \<Rightarrow> \<not> b
      | JNum n \<Rightarrow> n = Fin 0
      | JStr _ \<Rightarrow> List.member [''false'', ''0'', ''no'', ''partial'', ''incomplete'', ''not_complete''] (normalizeCoverageValue v)
      | _ \<Rightarrow> False)"

definition isTrueCoverageValue :: "jsval \<Rightarrow> bool" where
  "isTrueCoverageValue v =
     (case v of
        JBool b \<Rightarrow> b
      | JNum n \<Rightarrow> n = Fin 1
      | JStr _ \<Rightarrow> List.member [''true'', ''1'', ''yes'', ''gap'', ''gapped'', ''partial'', ''incomplete''] (normalizeCoverageValue v)
      | _ \<Rightarrow> False)"

fun hasNonEmptyCoverageSignal :: "jsval \<Rightarrow> bool" where
  "hasNonEmptyCoverageSignal (JStr s) = (js_trim s \<noteq> [])"
| "hasNonEmptyCoverageSignal (JArr vs) = (vs \<noteq> [])"
| "hasNonEmptyCoverageSignal (JObj kvs) = (kvs \<noteq> [])"
| "hasNonEmptyCoverageSignal (JDate _) = False"
| "hasNonEmptyCoverageSignal v = js_truthy v"

definition coverageError :: "string \<Rightarrow> string \<Rightarrow> string \<Rightarrow> js_error" where
  "coverageError label path reason =
     JsError (take 500 (''Incomplete R2 coverage in '' @ label @ '' at '' @ path @ '': '' @ reason))"

definition COVERAGE_STATE_FIELDS :: "string list" where
  "COVERAGE_STATE_FIELDS = [''coverage'', ''index_coverage'', ''manifest_coverage'', ''coverage_state'', ''completeness'']"

definition COVERAGE_LIST_FIELDS :: "string list" where
  "COVERAGE_LIST_FIELDS = [''partial_reasons'', ''missing_day_manifest_keys'', ''missing_connector_manifest_keys'',
     ''missing_parquet_keys'', ''missing_connector_index_keys'']"

definition ends_with :: "string \<Rightarrow> string \<Rightarrow> bool" where
  "ends_with s suffix \<longleftrightarrow> length suffix \<le> length s \<and> drop (length s - length suffix) s = suffix"

definition coverage_context :: "bool \<Rightarrow> string \<Rightarrow> bool" where
  "coverage_context outer key \<longleftrightarrow> outer \<or> js_includes key ''coverage'' \<or> js_includes key ''completeness''
     \<or> js_includes key ''gap'' \<or> key = ''timeseries_index''"

definition gap_list_key :: "bool \<Rightarrow> string \<Rightarrow> bool" where
  "gap_list_key context key \<longleftrightarrow> List.member COVERAGE_LIST_FIELDS key
     \<or> List.member [''gap_ranges'', ''gaps'', ''gap'', ''coverage_gaps'', ''coverage_gap'', ''missing_ranges''] key
     \<or> ends_with key ''_coverage_gaps'' \<or> starts_with key ''missing_'' \<and> ends_with key ''_keys''
     \<or> context \<and> (starts_with key ''missing'' \<or> key = ''partial'' \<or> key = ''incomplete'')"

text \<open>Why a property stands for incomplete coverage, in the order of the checks.\<close>

definition coverage_fault :: "bool \<Rightarrow> string \<Rightarrow> jsval \<Rightarrow> string option" where
  "coverage_fault context key child =
     (if key = ''response_complete'' \<and> isFalseCoverageValue child then Some ''response_complete is false''
      else if key = ''has_gap'' \<and> isTrueCoverageValue child then Some ''has_gap is true''
      else if List.member COVERAGE_STATE_FIELDS key \<and> (isIncompleteCoverageState child \<or> isFalseCoverageValue child)
      then Some (''state is '' @ take 80 (js_string child))
      else if gap_list_key context key \<and> hasNonEmptyCoverageSignal child then Some ''contains coverage gaps''
      else if context \<and> List.member [''complete'', ''is_complete'', ''fully_covered''] key \<and> isFalseCoverageValue child
      then Some ''nested completeness is false''
      else if context \<and> List.member [''status'', ''state'', ''result''] key \<and> isIncompleteCoverageState child
      then Some (''nested state is '' @ take 80 (js_string child))
      else if context \<and> List.member [''warnings'', ''reasons''] key \<and> hasNonEmptyCoverageSignal child
      then Some ''contains coverage warnings''
      else if key = ''limited_by_limit'' \<and> isTrueCoverageValue child then Some ''coverage was limit-truncated''
      else None)"

fun visit_coverage :: "string \<Rightarrow> string \<Rightarrow> bool \<Rightarrow> jsval \<Rightarrow> unit res"
  and visit_entries :: "string \<Rightarrow> string \<Rightarrow> bool \<Rightarrow> nat \<Rightarrow> jsval list \<Rightarrow> unit res"
  and visit_props :: "string \<Rightarrow> string \<Rightarrow> bool \<Rightarrow> (string \<times> jsval) list \<Rightarrow> unit res" where
  "visit_coverage label path context (JArr vs) = visit_entries label path context 0 vs"
| "visit_coverage label path context (JObj kvs) = visit_props label path context kvs"
| "visit_coverage label path context v = Inr ()"
| "visit_entries label path context i [] = Inr ()"
| "visit_entries label path context i (v # vs) =
     (case visit_coverage label (at_index path i) context v of
        Inl e \<Rightarrow> Inl e | Inr _ \<Rightarrow> visit_entries label path context (Suc i) vs)"
| "visit_props label path context [] = Inr ()"
| "visit_props label path context ((raw, child) # kvs) =
     (case coverage_fault (coverage_context context (normalizeCoverageName raw)) (normalizeCoverageName raw) child of
        Some reason \<Rightarrow> Inl (coverageError label (path @ ''.'' @ raw) reason)
      | None \<Rightarrow>
          (case visit_coverage label (path @ ''.'' @ raw) (coverage_context context (normalizeCoverageName raw)) child of
             Inl e \<Rightarrow> Inl e | Inr _ \<Rightarrow> visit_props label path context kvs))"

definition assertCompleteManifestCoverage :: "jsval \<Rightarrow> string \<Rightarrow> unit res" where
  "assertCompleteManifestCoverage v label = visit_coverage label ''$'' False v"

section \<open>Manifests\<close>

definition without_key :: "string \<Rightarrow> jsval \<Rightarrow> jsval" where
  "without_key key v = (case v of JObj kvs \<Rightarrow> JObj (filter (\<lambda>kv. fst kv \<noteq> key) kvs) | _ \<Rightarrow> v)"

definition manifest_digest :: "source_env \<Rightarrow> jsval \<Rightarrow> string" where
  "manifest_digest env manifest = sv_sha256 env (json_stringify (without_key ''manifest_hash'' manifest))"

definition check_manifest_hash :: "source_env \<Rightarrow> jsval \<Rightarrow> string \<Rightarrow> unit res" where
  "check_manifest_hash env manifest key =
     res_bind (requiredString manifest ''manifest_hash'' key) (\<lambda>h.
       let expected = js_lower h; actual = manifest_digest env manifest
       in if \<not> hash_shape expected then Inl (JsError (key @ ''.manifest_hash must be a SHA-256 hex digest''))
          else if actual \<noteq> expected
          then Inl (JsError (''Manifest SHA-256 mismatch for '' @ key @ '': expected '' @ expected @ '', got '' @ actual))
          else Inr ())"

definition validateManifestHash :: "source_env \<Rightarrow> jsval \<Rightarrow> string \<Rightarrow> unit reading" where
  "validateManifestHash env manifest key =
     rd_bind (rd_res (check_manifest_hash env manifest key)) (\<lambda>_.
       rd_count (\<lambda>m. m\<lparr>rm_manifestHashesValidated := rm_manifestHashesValidated m + 1\<rparr>))"

text \<open>An object is fetched and counted.\<close>

definition fetch_object :: "source_env \<Rightarrow> string \<Rightarrow> string reading" where
  "fetch_object env key s =
     (case sv_read env key of
        Inl e \<Rightarrow> (Inl e, s)
      | Inr bytes \<Rightarrow> (Inr bytes, s\<lparr>so_metrics := (so_metrics s)
          \<lparr>rm_objectCount := rm_objectCount (so_metrics s) + 1,
            rm_bytesRead := rm_bytesRead (so_metrics s) + int (length bytes)\<rparr>\<rparr>))"

definition parse_manifest :: "string \<Rightarrow> string \<Rightarrow> jsval res" where
  "parse_manifest key bytes =
     (case json_parse bytes of
        None \<Rightarrow> Inl (JsError (''Invalid JSON manifest: '' @ key))
      | Some v \<Rightarrow> res_bind (asRecord v key) (\<lambda>manifest.
          res_map (\<lambda>_. manifest) (assertCompleteManifestCoverage manifest key)))"

definition fetch_manifest :: "source_env \<Rightarrow> string \<Rightarrow> jsval reading" where
  "fetch_manifest env key =
     rd_bind (fetch_object env key) (\<lambda>bytes.
     rd_bind (rd_count (\<lambda>m. m\<lparr>rm_manifestKeys := rm_manifestKeys m @ [key]\<rparr>)) (\<lambda>_.
     rd_bind (rd_res (parse_manifest key bytes)) (\<lambda>manifest.
     rd_bind (validateManifestHash env manifest key) (\<lambda>_ s.
       (Inr manifest, s\<lparr>so_cache := jm_set key manifest (so_cache s)\<rparr>)))))"

definition readJsonManifest :: "source_env \<Rightarrow> string \<Rightarrow> jsval reading" where
  "readJsonManifest env key s =
     (case jm_get (so_cache s) key of Some cached \<Rightarrow> (Inr cached, s) | None \<Rightarrow> fetch_manifest env key s)"

definition validateManifestIdentity ::
  "jsval \<Rightarrow> string \<Rightarrow> string \<Rightarrow> int option \<Rightarrow> string option \<Rightarrow> unit res" where
  "validateManifestIdentity manifest key dayUtc connectorId pollutantCode =
     res_bind (requiredString manifest ''history_version'' key) (\<lambda>v.
     if v \<noteq> ''v2'' then Inl (JsError (key @ ''.history_version must be v2'')) else
     res_bind (requiredString manifest ''day_utc'' key) (\<lambda>d.
     if d \<noteq> dayUtc then Inl (JsError (key @ ''.day_utc must be '' @ dayUtc)) else
     res_bind (case connectorId of None \<Rightarrow> Inr () | Some c \<Rightarrow>
         res_bind (requiredInteger manifest ''connector_id'' key 1) (\<lambda>n.
           if n \<noteq> c then Inl (JsError (key @ ''.connector_id must be '' @ int_str c)) else Inr ())) (\<lambda>_.
     case pollutantCode of None \<Rightarrow> Inr () | Some p \<Rightarrow>
         res_bind (requiredString manifest ''pollutant_code'' key) (\<lambda>x.
           if js_lower x \<noteq> p then Inl (JsError (key @ ''.pollutant_code must be '' @ p)) else Inr ()))))"

text \<open>The entries of an array with their positions.\<close>

definition indexed :: "'a list \<Rightarrow> (nat \<times> 'a) list" where
  "indexed xs = zip [0..<length xs] xs"

definition validateColumns :: "jsval \<Rightarrow> string \<Rightarrow> unit res" where
  "validateColumns manifest key =
     (if jget manifest ''columns'' = Null
      then res_bind (asArray (jget manifest ''physical_schemas'') (key @ ''.physical_schemas'')) (\<lambda>schemas.
        if length schemas < 2
        then Inl (JsError (key @ ''.columns is null but physical_schemas does not describe a mixed schema''))
        else res_map (\<lambda>_. ()) (res_mapM (\<lambda>(i, v).
          let label = at_index (key @ ''.physical_schemas'') i in
          res_bind (asRecord v label) (\<lambda>schema.
            if hasSupportedObservationColumns (jget schema ''columns'') then Inr ()
            else Inl (JsError (label @ ''.columns is not a supported canonical observation schema''))))
          (indexed schemas)))
      else if hasSupportedObservationColumns (jget manifest ''columns'') then Inr ()
      else Inl (JsError (key @ ''.columns is not a supported canonical observation schema'')))"

definition read_day_manifest :: "source_env \<Rightarrow> string \<Rightarrow> (string \<times> jsval) reading" where
  "read_day_manifest env dayUtc =
     rd_bind (rd_res (r2ObservationDayManifestKey env dayUtc)) (\<lambda>dayKey.
     rd_bind (readJsonManifest env dayKey) (\<lambda>dayManifest.
     rd_bind (rd_res (validateManifestIdentity dayManifest dayKey dayUtc None None)) (\<lambda>_.
     rd_bind (rd_res (validateColumns dayManifest dayKey)) (\<lambda>_. rd_ret (dayKey, dayManifest)))))"

definition probeValidatedObservationDayManifest :: "source_env \<Rightarrow> string \<Rightarrow> unit reading" where
  "probeValidatedObservationDayManifest env dayUtc =
     rd_bind (rd_res (assertIsoDay dayUtc ''dayUtc'')) (\<lambda>_.
     rd_bind (read_day_manifest env dayUtc) (\<lambda>_. rd_ret ()))"

definition exactChild :: "jsval \<Rightarrow> string list \<Rightarrow> string \<Rightarrow> string \<Rightarrow> string \<Rightarrow> jsval res" where
  "exactChild parent collectionNames field expected label =
     (let vs = List.concat (List.map (\<lambda>name. case jget parent name of JArr vs \<Rightarrow> vs | _ \<Rightarrow> []) collectionNames)
      in res_bind (res_mapM (\<lambda>(i, v). asRecord v (at_index label i)) (indexed vs)) (\<lambda>records.
         let matches = filter (\<lambda>entry. js_string (jget entry field) = expected) records;
             unique = fold (\<lambda>entry. jm_set (str_or_empty (jget entry ''manifest_key'')) entry) matches jm_empty
         in case unique of
              [(k, child)] \<Rightarrow> Inr child
            | _ \<Rightarrow> Inl (JsError (label @ '' must contain exactly one '' @ field @ ''='' @ expected @ '' manifest reference''))))"

definition compareManifestReference :: "jsval \<Rightarrow> jsval \<Rightarrow> string \<Rightarrow> string \<Rightarrow> unit res" where
  "compareManifestReference reference child childKey label =
     res_bind (requiredString reference ''manifest_key'' label) (\<lambda>k.
     if k \<noteq> childKey then Inl (JsError (label @ ''.manifest_key does not match '' @ childKey)) else
     res_bind (requiredString reference ''manifest_hash'' label) (\<lambda>expected.
     res_bind (requiredString child ''manifest_hash'' childKey) (\<lambda>actual.
     if js_lower expected \<noteq> js_lower actual then Inl (JsError (label @ ''.manifest_hash does not match child manifest'')) else
     res_map (\<lambda>_. ()) (res_mapM (\<lambda>field.
       res_bind (requiredInteger reference field label 0) (\<lambda>a.
       res_bind (requiredInteger child field childKey 0) (\<lambda>b.
         if a \<noteq> b then Inl (JsError (label @ ''.'' @ field @ '' does not match child manifest'')) else Inr ())))
       [''source_row_count'', ''row_count'', ''file_count'']))))"

section \<open>The files of a partition\<close>

definition partition_prefix :: "string \<Rightarrow> string \<Rightarrow> int \<Rightarrow> string \<Rightarrow> string" where
  "partition_prefix prefix dayUtc connectorId pollutantCode =
     prefix @ ''/day_utc='' @ dayUtc @ ''/connector_id='' @ int_str connectorId @ ''/pollutant_code='' @ pollutantCode @ ''/''"

text \<open>/\/part-\d{5}\.parquet$/\<close>

definition part_file_key :: "string \<Rightarrow> bool" where
  "part_file_key key \<longleftrightarrow> 19 \<le> length key \<and> of_shape ''/part-ddddd.parquet'' (drop (length key - 19) key)"

definition manifest_entry :: "string \<Rightarrow> string \<Rightarrow> string \<Rightarrow> nat \<times> jsval \<Rightarrow> manifest_file res" where
  "manifest_entry manifestKey expectedPrefix pollutantCode iv =
     (let label = at_index (manifestKey @ ''.files'') (fst iv) in
      res_bind (asRecord (snd iv) label) (\<lambda>entry.
      res_bind (requiredString entry ''key'' label) (\<lambda>key.
      if \<not> starts_with key expectedPrefix \<or> \<not> part_file_key key
      then Inl (JsError (label @ ''.key is outside the required partition'')) else
      res_bind (requiredString entry ''pollutant_code'' label) (\<lambda>code.
      if js_lower code \<noteq> pollutantCode then Inl (JsError (label @ ''.pollutant_code mismatch'')) else
      res_bind (requiredInteger entry ''row_count'' label 0) (\<lambda>rowCount.
      res_bind (requiredInteger entry ''bytes'' label 0) (\<lambda>bytes.
      res_map (\<lambda>hash. \<lparr>mf_key = key, mf_rowCount = rowCount, mf_bytes = bytes, mf_etagOrHash = hash\<rparr>)
        (requiredString entry ''etag_or_hash'' label)))))))"

definition require_total :: "jsval \<Rightarrow> string \<Rightarrow> string \<Rightarrow> int \<Rightarrow> unit res" where
  "require_total manifest manifestKey field expected =
     res_bind (requiredInteger manifest field manifestKey 0) (\<lambda>n.
       if n \<noteq> expected then Inl (JsError (manifestKey @ ''.'' @ field @ '' does not match files'')) else Inr ())"

definition parseManifestFiles :: "jsval \<Rightarrow> string \<Rightarrow> string \<Rightarrow> string \<Rightarrow> manifest_file list res" where
  "parseManifestFiles manifest manifestKey expectedPrefix pollutantCode =
     res_bind (asArray (jget manifest ''files'') (manifestKey @ ''.files'')) (\<lambda>vs.
     res_bind (res_mapM (manifest_entry manifestKey expectedPrefix pollutantCode) (indexed vs)) (\<lambda>files.
     if files = [] then Inl (JsError (manifestKey @ ''.files must not be empty''))
     else if \<not> distinct (List.map mf_key files) then Inl (JsError (manifestKey @ ''.files contains duplicate keys'')) else
     res_bind (require_total manifest manifestKey ''file_count'' (int (length files))) (\<lambda>_.
     res_bind (require_total manifest manifestKey ''row_count'' (sum_list (List.map mf_rowCount files))) (\<lambda>_.
     res_bind (require_total manifest manifestKey ''source_row_count'' (sum_list (List.map mf_rowCount files))) (\<lambda>_.
     res_map (\<lambda>_. files)
       (require_total manifest manifestKey ''total_bytes'' (sum_list (List.map mf_bytes files))))))))"

text \<open>An entity tag without its weakness mark and its quotes.\<close>

definition normalizeHash :: "string \<Rightarrow> string" where
  "normalizeHash v =
     (let t = js_trim v;
          t = (if List.member [''W/'', ''w/''] (take 2 t) then drop 2 t else t);
          t = (case t of c # s \<Rightarrow> if c = CHR 0x22 then s else t | [] \<Rightarrow> []);
          t = (if t \<noteq> [] \<and> last t = CHR 0x22 then butlast t else t)
      in js_lower t)"

definition hex_text :: "nat \<Rightarrow> string \<Rightarrow> bool" where
  "hex_text n s \<longleftrightarrow> length s = n \<and> list_all (\<lambda>c. is_digit c \<or> 97 \<le> char_code c \<and> char_code c \<le> 102) s"

definition validateParquetHash :: "source_env \<Rightarrow> string \<Rightarrow> manifest_file \<Rightarrow> unit res" where
  "validateParquetHash env bytes f =
     (if int (length bytes) \<noteq> mf_bytes f
      then Inl (JsError (''Parquet byte count mismatch for '' @ mf_key f @ '': expected '' @ int_str (mf_bytes f)
        @ '', got '' @ int_str (int (length bytes))))
      else
        let expected = normalizeHash (mf_etagOrHash f) in
        res_bind (if hex_text 32 expected then Inr (sv_md5 env bytes)
            else if hex_text 64 expected then Inr (sv_sha256 env bytes)
            else Inl (JsError (''Unsupported parquet etag_or_hash format for '' @ mf_key f))) (\<lambda>actual.
          if actual \<noteq> expected
          then Inl (JsError (''Parquet hash mismatch for '' @ mf_key f @ '': expected '' @ expected @ '', got '' @ actual))
          else Inr ()))"

definition normalizeTimestamp :: "jsval \<Rightarrow> string option" where
  "normalizeTimestamp v =
     map_option to_iso (case v of JDate d \<Rightarrow> d | JStr s \<Rightarrow> date_parse s | JNum n \<Rightarrow> date_of_num n | _ \<Rightarrow> None)"

text \<open>The cell of a row in the column of a name.\<close>

definition cell :: "string list \<Rightarrow> jsval list \<Rightarrow> string \<Rightarrow> jsval" where
  "cell columns row name =
     (case map_of (rev (zip columns [0..<length columns])) name of
        None \<Rightarrow> Undef | Some i \<Rightarrow> if i < length row then row ! i else Undef)"

definition station_of :: "jsval \<Rightarrow> int option option" where
  "station_of v =
     (if is_nullish v then Some None
      else case num_safe_integer (js_number v) of None \<Rightarrow> None | Some n \<Rightarrow> if 0 < n then Some (Some n) else None)"

definition parquet_row :: "string \<Rightarrow> int \<Rightarrow> string \<Rightarrow> string \<Rightarrow> string list \<Rightarrow> nat \<times> jsval list \<Rightarrow> r2_row res" where
  "parquet_row fileKey connectorId pollutantCode dayUtc columns ir =
     (let row = snd ir; bad = Inl (JsError (''Invalid identity/timestamp in '' @ fileKey @ '' row '' @ int_str (int (fst ir))));
          value = cell columns row ''value''
      in case (num_safe_integer (js_number (cell columns row ''connector_id'')), station_of (cell columns row ''station_id''),
               num_safe_integer (js_number (cell columns row ''timeseries_id'')),
               normalizeTimestamp (cell columns row ''observed_at_utc''), date_parse (midnight_text dayUtc)) of
           (Some rowConnector, Some stationId, Some timeseries, Some observedAt, Some partitionStart) \<Rightarrow>
             (case date_parse observedAt of
                None \<Rightarrow> bad
              | Some observedMs \<Rightarrow>
                  if rowConnector \<noteq> connectorId \<or> timeseries \<le> 0
                    \<or> js_lower (str_or_empty (cell columns row ''pollutant_code'')) \<noteq> pollutantCode
                    \<or> observedMs < partitionStart \<or> partitionStart + MS_DAY \<le> observedMs
                  then bad
                  else Inr \<lparr>ro_connectorId = rowConnector, ro_stationId = stationId, ro_timeseriesId = timeseries,
                    ro_pollutantCode = pollutantCode, ro_observedAtUtc = observedAt,
                    ro_value = (if is_nullish value \<or> \<not> num_finite (js_number value) then None else Some (js_number value))\<rparr>)
         | _ \<Rightarrow> bad)"

definition readParquetRows :: "source_env \<Rightarrow> string \<Rightarrow> manifest_file \<Rightarrow> string \<Rightarrow> int \<Rightarrow> string \<Rightarrow> r2_row list reading" where
  "readParquetRows env bytes f dayUtc connectorId pollutantCode =
     rd_bind (rd_res (validateParquetHash env bytes f)) (\<lambda>_.
     rd_bind (rd_count (\<lambda>m. m\<lparr>rm_parquetHashesValidated := rm_parquetHashesValidated m + 1\<rparr>)) (\<lambda>_.
     rd_bind (rd_res (sv_parquet env bytes)) (\<lambda>(columns, rawRows).
     rd_bind (rd_res (if \<not> supported_columns columns
         then Inl (JsError (''Parquet schema mismatch for '' @ mf_key f @ '': '' @ js_join '','' columns))
         else if int (length rawRows) \<noteq> mf_rowCount f
         then Inl (JsError (''Parquet row count mismatch for '' @ mf_key f @ '': expected '' @ int_str (mf_rowCount f)
           @ '', got '' @ int_str (int (length rawRows))))
         else Inr ())) (\<lambda>_.
     rd_bind (rd_count (\<lambda>m. m\<lparr>rm_parquetRowCount := rm_parquetRowCount m + int (length rawRows)\<rparr>)) (\<lambda>_.
       rd_res (res_mapM (parquet_row (mf_key f) connectorId pollutantCode dayUtc columns) (indexed rawRows)))))))"

definition read_file :: "source_env \<Rightarrow> string \<Rightarrow> int \<Rightarrow> string \<Rightarrow> manifest_file \<Rightarrow> r2_row list reading" where
  "read_file env dayUtc connectorId pollutantCode f =
     rd_bind (fetch_object env (mf_key f)) (\<lambda>bytes. readParquetRows env bytes f dayUtc connectorId pollutantCode)"

section \<open>A partition through its chain of manifests\<close>

definition WHO_POLLUTANTS :: "string list" where
  "WHO_POLLUTANTS = [''pm25'', ''pm10'', ''no2'']"

text \<open>A child manifest, which must be the one its parent refers to.\<close>

definition read_child :: "source_env \<Rightarrow> string \<Rightarrow> jsval \<Rightarrow> string \<Rightarrow> string \<Rightarrow> int \<Rightarrow> string option \<Rightarrow> jsval reading" where
  "read_child env childKey reference label dayUtc connectorId pollutantCode =
     rd_bind (readJsonManifest env childKey) (\<lambda>child.
     rd_bind (rd_res (validateManifestIdentity child childKey dayUtc (Some connectorId) pollutantCode)) (\<lambda>_.
     rd_bind (rd_res (validateColumns child childKey)) (\<lambda>_.
     rd_bind (rd_res (compareManifestReference reference child childKey label)) (\<lambda>_. rd_ret child))))"

definition connector_manifest_key :: "string \<Rightarrow> string \<Rightarrow> int \<Rightarrow> string" where
  "connector_manifest_key prefix dayUtc connectorId =
     prefix @ ''/day_utc='' @ dayUtc @ ''/connector_id='' @ int_str connectorId @ ''/manifest.json''"

definition read_pollutant_manifest :: "source_env \<Rightarrow> string \<Rightarrow> string \<Rightarrow> int \<Rightarrow> string \<Rightarrow> (string \<times> jsval) reading" where
  "read_pollutant_manifest env prefix dayUtc connectorId pollutantCode =
     (let connectorKey = connector_manifest_key prefix dayUtc connectorId;
          pollutantKey = partition_prefix prefix dayUtc connectorId pollutantCode @ ''manifest.json''
      in
     rd_bind (read_day_manifest env dayUtc) (\<lambda>(dayKey, dayManifest).
     rd_bind (rd_res (exactChild dayManifest [''connector_manifests'', ''child_manifests''] ''connector_id''
         (int_str connectorId) (dayKey @ ''.connector_manifests''))) (\<lambda>connectorReference.
     rd_bind (read_child env connectorKey connectorReference (dayKey @ ''.connector_id='' @ int_str connectorId)
         dayUtc connectorId None) (\<lambda>connectorManifest.
     rd_bind (rd_res (exactChild connectorManifest [''child_manifests'', ''pollutant_manifests''] ''pollutant_code''
         pollutantCode (connectorKey @ ''.child_manifests''))) (\<lambda>pollutantReference.
     rd_bind (read_child env pollutantKey pollutantReference (connectorKey @ ''.pollutant_code='' @ pollutantCode)
         dayUtc connectorId (Some pollutantCode)) (\<lambda>pollutantManifest.
       rd_ret (pollutantKey, pollutantManifest)))))))"

definition readValidatedObservationPollutantPartition ::
  "source_env \<Rightarrow> string \<Rightarrow> int \<Rightarrow> string \<Rightarrow> r2_row list reading" where
  "readValidatedObservationPollutantPartition env dayUtc connectorId pollutant =
     (let pollutantCode = js_lower (js_trim pollutant) in
     rd_bind (rd_res (assertIsoDay dayUtc ''dayUtc'')) (\<lambda>_.
     rd_bind (rd_res (if List.member WHO_POLLUTANTS pollutantCode then Inr ()
         else Inl (JsError (''Unsupported WHO pollutant: '' @ pollutantCode)))) (\<lambda>_.
     rd_bind (rd_res (observationHistoryPrefix env)) (\<lambda>prefix.
     rd_bind (read_pollutant_manifest env prefix dayUtc connectorId pollutantCode) (\<lambda>(key, manifest).
     rd_bind (rd_res (parseManifestFiles manifest key (partition_prefix prefix dayUtc connectorId pollutantCode)
         pollutantCode)) (\<lambda>files.
     rd_bind (rd_mapM (read_file env dayUtc connectorId pollutantCode) files) (\<lambda>rows.
       rd_ret (List.concat rows))))))))"

section \<open>Aggregation\<close>

text \<open>The sum and the number of the values of an hour.\<close>

record hour_bucket =
  hb_sum :: jsnum
  hb_count :: int

definition add_hour :: "int \<Rightarrow> jsnum \<Rightarrow> (int, hour_bucket) jsmap \<Rightarrow> (int, hour_bucket) jsmap" where
  "add_hour hourMs x hours =
     (let b = (case jm_get hours hourMs of None \<Rightarrow> \<lparr>hb_sum = Fin 0, hb_count = 0\<rparr> | Some b \<Rightarrow> b)
      in jm_set hourMs \<lparr>hb_sum = num_add (hb_sum b) x, hb_count = hb_count b + 1\<rparr> hours)"

text \<open>A value that counts: a finite number that is not negative.\<close>

definition usable_value :: "r2_row \<Rightarrow> jsnum option" where
  "usable_value row =
     (case ro_value row of
        None \<Rightarrow> None
      | Some x \<Rightarrow> if num_finite x \<and> \<not> num_lt x (Fin 0) then Some x else None)"

text \<open>The time of a row when it lies in the day, its start excluded and its end included.\<close>

definition time_in_day :: "int \<Rightarrow> string \<Rightarrow> r2_row \<Rightarrow> int option" where
  "time_in_day startMs pollutantCode row =
     (case date_parse (ro_observedAtUtc row) of
        None \<Rightarrow> None
      | Some t \<Rightarrow> if t \<le> startMs \<or> startMs + 24 * MS_HOUR < t \<or> ro_pollutantCode row \<noteq> pollutantCode then None else Some t)"

definition hour_start :: "int \<Rightarrow> int" where
  "hour_start t = t div MS_HOUR * MS_HOUR"

definition add_row :: "int \<Rightarrow> string \<Rightarrow> r2_row \<Rightarrow> (int, (int, hour_bucket) jsmap) jsmap \<Rightarrow>
    (int, (int, hour_bucket) jsmap) jsmap" where
  "add_row startMs pollutantCode row hourly =
     (case time_in_day startMs pollutantCode row of
        None \<Rightarrow> hourly
      | Some t \<Rightarrow>
          let hours = (case jm_get hourly (ro_timeseriesId row) of None \<Rightarrow> jm_empty | Some h \<Rightarrow> h);
              hours = (case usable_value row of None \<Rightarrow> hours | Some x \<Rightarrow> add_hour (hour_start t) x hours)
          in jm_set (ro_timeseriesId row) hours hourly)"

definition hourly_means :: "(int, hour_bucket) jsmap \<Rightarrow> jsnum list" where
  "hourly_means hours = List.map (\<lambda>b. num_div (hb_sum b) (Fin (of_int (hb_count b)))) (jm_values hours)"

definition daily_row :: "int \<Rightarrow> int \<times> (int, hour_bucket) jsmap \<Rightarrow> prepared_row" where
  "daily_row minValidHours kh =
     (let means = hourly_means (snd kh); n = int (length means)
      in \<lparr>pr_timeseries_id = fst kh, pr_valid_hour_count = n,
          pr_daily_mean_ugm3 = (if minValidHours \<le> n
            then Some (num_div (fold (\<lambda>x total. num_add total x) means (Fin 0)) (Fin (of_int n))) else None)\<rparr>)"

definition aggregatePollutantRows :: "string \<Rightarrow> string \<Rightarrow> r2_row list \<Rightarrow> int \<Rightarrow> prepared_row list" where
  "aggregatePollutantRows dayUtc pollutantCode rows minValidHoursPerDay =
     (case date_parse (midnight_text dayUtc) of
        None \<Rightarrow> []
      | Some startMs \<Rightarrow> List.map (daily_row minValidHoursPerDay)
          (sort_key fst (fold (add_row startMs pollutantCode) rows jm_empty)))"

section \<open>The rows of a day\<close>

datatype prepare_error = PrepareFailed js_error | ObservationRead string read_metrics

definition unique_metrics :: "read_metrics \<Rightarrow> read_metrics" where
  "unique_metrics m = m\<lparr>rm_manifestKeys := rev (remdups (rev (rm_manifestKeys m)))\<rparr>"

text \<open>The check of boundary rows that come from the database.\<close>

fun check_boundary :: "string \<Rightarrow> int \<Rightarrow> string list \<Rightarrow> nat \<Rightarrow> string set \<Rightarrow> r2_row list \<Rightarrow> unit res" where
  "check_boundary boundaryAt connectorId pollutants i seen [] = Inr ()"
| "check_boundary boundaryAt connectorId pollutants i seen (row # rows) =
     (let identity = int_str (ro_connectorId row) @ '':'' @ int_str (ro_timeseriesId row) @ '':''
            @ ro_pollutantCode row @ '':'' @ ro_observedAtUtc row
      in if ro_connectorId row \<noteq> connectorId \<or> ro_observedAtUtc row \<noteq> boundaryAt
            \<or> \<not> List.member pollutants (ro_pollutantCode row)
         then Inl (JsError (''Invalid Obs AQI DB boundary row '' @ int_str (int i) @ '' for '' @ boundaryAt))
         else if identity \<in> seen then Inl (JsError (''Duplicate Obs AQI DB boundary row: '' @ identity))
         else check_boundary boundaryAt connectorId pollutants (Suc i) (insert identity seen) rows)"

definition partition_error :: "string \<Rightarrow> string \<Rightarrow> string \<Rightarrow> read_error \<Rightarrow> js_error" where
  "partition_error kind dayUtc pollutantCode e =
     JsError (''WHO '' @ kind @ '' partition '' @ dayUtc @ '' missing or incomplete for '' @ pollutantCode @ '': ''
       @ take 320 (read_error_message e))"

definition pollutant_rows ::
  "source_env \<Rightarrow> string \<Rightarrow> string \<Rightarrow> int \<Rightarrow> r2_row list option \<Rightarrow> string \<Rightarrow> r2_row list reading" where
  "pollutant_rows env dayUtc boundaryDay connectorId boundaryRows pollutantCode =
     rd_bind (rd_rename (partition_error ''source'' dayUtc pollutantCode)
       (readValidatedObservationPollutantPartition env dayUtc connectorId pollutantCode)) (\<lambda>dayRows.
     rd_bind (case boundaryRows of
         Some rows \<Rightarrow> rd_ret (filter (\<lambda>row. ro_pollutantCode row = pollutantCode) rows)
       | None \<Rightarrow> rd_rename (partition_error ''D+1 boundary'' boundaryDay pollutantCode)
           (readValidatedObservationPollutantPartition env boundaryDay connectorId pollutantCode)) (\<lambda>rows.
       rd_ret (dayRows @ rows)))"

text \<open>The rows of one pollutant are added; a series may have rows of one pollutant only.\<close>

fun add_prepared :: "prepared_row list \<Rightarrow> prepared_row list \<Rightarrow> prepared_row list res" where
  "add_prepared [] acc = Inr acc"
| "add_prepared (r # rs) acc =
     (if pr_timeseries_id r \<in> pr_timeseries_id ` set acc
      then Inl (JsError (''Contradictory prepared rows for timeseries_id '' @ int_str (pr_timeseries_id r)))
      else add_prepared rs (acc @ [r]))"

fun prepare_pollutants :: "(string \<Rightarrow> r2_row list reading) \<Rightarrow> string \<Rightarrow> int \<Rightarrow> string list \<Rightarrow> prepared_row list \<Rightarrow>
    prepared_row list reading" where
  "prepare_pollutants rows_of dayUtc minValidHours [] acc = rd_ret acc"
| "prepare_pollutants rows_of dayUtc minValidHours (p # ps) acc =
     rd_bind (rows_of p) (\<lambda>rows.
     rd_bind (rd_res (add_prepared (aggregatePollutantRows dayUtc p rows minValidHours) acc)) (\<lambda>acc'.
       prepare_pollutants rows_of dayUtc minValidHours ps acc'))"

definition who_pollutants :: "string list \<Rightarrow> string list" where
  "who_pollutants codes = rev (remdups (rev (List.map (\<lambda>c. js_lower (js_trim c)) codes)))"

text \<open>The arguments, checked: the hours, the pollutants and the day of the boundary.\<close>

definition check_prepare :: "string \<Rightarrow> int \<Rightarrow> string list \<Rightarrow> jsnum \<Rightarrow> r2_row list option \<Rightarrow> (int \<times> string) res" where
  "check_prepare dayUtc connectorId pollutantCodes minValidHoursPerDay boundaryRows =
     (let pollutants = who_pollutants pollutantCodes in
      res_bind (assertIsoDay dayUtc ''dayUtc'') (\<lambda>_.
      res_bind (case num_integer minValidHoursPerDay of
          None \<Rightarrow> Inl (JsError ''minValidHoursPerDay must be between 1 and 24'')
        | Some n \<Rightarrow> if n < 1 \<or> 24 < n then Inl (JsError ''minValidHoursPerDay must be between 1 and 24'') else Inr n) (\<lambda>n.
      if length pollutants \<noteq> 3 \<or> \<not> list_all (\<lambda>c. List.member pollutants c) WHO_POLLUTANTS
      then Inl (JsError ''R2 WHO processing requires exactly pm25, pm10 and no2'')
      else
      res_bind (addDays dayUtc (Fin 1)) (\<lambda>boundaryDay.
      res_map (\<lambda>_. (n, boundaryDay))
        (case boundaryRows of None \<Rightarrow> Inr ()
         | Some rows \<Rightarrow> check_boundary (midnight_text boundaryDay) connectorId pollutants 0 {} rows)))))"

definition prepareWhoDailyRowsFromR2 :: "source_env \<Rightarrow> string \<Rightarrow> int \<Rightarrow> string list \<Rightarrow> jsnum \<Rightarrow> r2_row list option \<Rightarrow>
    source_state \<Rightarrow> (prepare_error + prepared_day) \<times> source_state" where
  "prepareWhoDailyRowsFromR2 env dayUtc connectorId pollutantCodes minValidHoursPerDay boundaryRows s =
     (case check_prepare dayUtc connectorId pollutantCodes minValidHoursPerDay boundaryRows of
        Inl e \<Rightarrow> (Inl (PrepareFailed e), s)
      | Inr (minValidHours, boundaryDay) \<Rightarrow>
          (case prepare_pollutants (pollutant_rows env dayUtc boundaryDay connectorId boundaryRows) dayUtc minValidHours
              (who_pollutants pollutantCodes) [] s of
             (Inl e, s') \<Rightarrow> (Inl (ObservationRead (read_error_message e) (unique_metrics (so_metrics s'))), s')
           | (Inr rows, s') \<Rightarrow>
               if 2000 < length rows
               then (Inl (PrepareFailed (JsError (''Prepared row payload has '' @ int_str (int (length rows)) @ '' rows; max 2000''))), s')
               else (Inr \<lparr>pd_dayUtc = dayUtc, pd_preparedRows = sort_key pr_timeseries_id rows,
                   pd_validPreparedRows = int (length (filter (\<lambda>r. pr_daily_mean_ugm3 r \<noteq> None) rows)),
                   pd_insufficientPreparedRows = int (length (filter (\<lambda>r. pr_daily_mean_ugm3 r = None) rows)),
                   pd_metrics = unique_metrics (so_metrics s')\<rparr>, s')))"

end
