(* ===== verification/WhoRun.thy ===== *)
theory WhoRun
  imports WhoSource
begin

text \<open>
  workers/uk_aq_who_2021_daily/main.ts with supabase_rpc.ts and the conditional writes of r2_objects.ts: settings from
  the environment, procedure calls with retries, the sources of a day, a run and what it publishes. The network is
  a parameter that answers the n-th request, the bucket is a map whose n-th operation may fail with or without its
  effect, and Parquet encoding is a parameter. Report, console and waiting are not modelled.
\<close>

section \<open>Settings\<close>

record r2_config =
  r2_endpoint :: string
  r2_bucket :: string
  r2_region :: string
  r2_accessKeyId :: string
  r2_secretAccessKey :: string

record who_settings =
  ws_baseUrl :: string
  ws_secretKey :: string
  ws_schema :: string
  ws_retries :: jsnum
  ws_dailyRefreshRpc :: string
  ws_preparedUpsertRpc :: string
  ws_readinessRpc :: string
  ws_summaryRefreshRpc :: string
  ws_parquetRowsRpc :: string
  ws_runLogRpc :: string
  ws_r2 :: "r2_config option"
  ws_config :: who_config

type_synonym environment = "string \<Rightarrow> string option"

definition optionalEnv :: "environment \<Rightarrow> string \<Rightarrow> string option" where
  "optionalEnv env name = (let v = js_trim (env_text (env name)) in if v = [] then None else Some v)"

definition requiredEnv :: "environment \<Rightarrow> string \<Rightarrow> string res" where
  "requiredEnv env name =
     (case optionalEnv env name of
        None \<Rightarrow> Inl (JsError (''Missing required environment variable: '' @ name)) | Some v \<Rightarrow> Inr v)"

definition parseBoolean :: "string option \<Rightarrow> bool \<Rightarrow> bool" where
  "parseBoolean raw fallback =
     (let v = js_lower (js_trim (env_text raw)) in
      if List.member [''1'', ''true'', ''yes'', ''y'', ''on''] v then True
      else if List.member [''0'', ''false'', ''no'', ''n'', ''off''] v then False else fallback)"

definition parseRatio :: "string option \<Rightarrow> jsnum \<Rightarrow> jsnum" where
  "parseRatio raw fallback =
     (let v = js_number (JStr (env_text raw)) in
      if \<not> num_finite v then fallback else num_max (Fin 0) (num_min (Fin 1) v))"

text \<open>a || b on two optional texts\<close>

definition first_env :: "environment \<Rightarrow> string \<Rightarrow> string \<Rightarrow> string option" where
  "first_env env a b = (case optionalEnv env a of None \<Rightarrow> optionalEnv env b | v \<Rightarrow> v)"

definition env_or :: "environment \<Rightarrow> string \<Rightarrow> string \<Rightarrow> string" where
  "env_or env name other = (case optionalEnv env name of None \<Rightarrow> other | Some v \<Rightarrow> v)"

definition params_of_env :: "environment \<Rightarrow> int \<Rightarrow> who_params" where
  "params_of_env env now =
     (let runMode = parseRunMode (env ''UK_AQ_WHO_2021_RUN_MODE'') in
      \<lparr>rp_runMode = runMode, rp_triggerMode = parseTriggerMode (env ''UK_AQ_WHO_2021_TRIGGER_MODE''), rp_now = now,
       rp_explicitStartDayUtc = optionalEnv env ''UK_AQ_WHO_2021_START_DAY_UTC'',
       rp_explicitEndDayUtc = optionalEnv env ''UK_AQ_WHO_2021_END_DAY_UTC'',
       rp_lookbackDays = parsePositiveInt (env ''UK_AQ_WHO_2021_DAILY_LOOKBACK_DAYS'') (Fin 2),
       rp_maturityDelayHours = Fin 0,
       rp_connectorId = parsePositiveInt (env ''UK_AQ_WHO_2021_CONNECTOR_ID'') (Fin 1),
       rp_sourceNetworkCode = env_or env ''UK_AQ_WHO_2021_SOURCE_NETWORK_CODE'' ''gov_uk_aurn'',
       rp_pollutantCodes = parsePollutantCodes (env ''UK_AQ_WHO_2021_POLLUTANT_CODES''),
       rp_minValidHoursPerDay = parsePositiveInt (env ''UK_AQ_WHO_2021_MIN_VALID_HOURS_PER_DAY'') (Fin 18),
       rp_minValidDays = parsePositiveInt (env ''UK_AQ_WHO_2021_MIN_VALID_DAYS'') (Fin 274),
       rp_minFinalHourCoverageRatio =
         parseRatio (env ''UK_AQ_WHO_2021_MIN_FINAL_HOUR_COVERAGE_RATIO'') (to_double (9 / 10)),
       rp_readinessGateEnabled = parseBoolean (env ''UK_AQ_WHO_2021_READINESS_GATE_ENABLED'') True,
       rp_summaryRefreshEnabled = parseBoolean (env ''UK_AQ_WHO_2021_SUMMARY_REFRESH_ENABLED'') (runMode = DailyRun),
       rp_r2PublishEnabled = Some (parseBoolean (env ''UK_AQ_WHO_2021_R2_PUBLISH_ENABLED'') False),
       rp_parquetR2WriteEnabled = Some (parseBoolean (env ''UK_AQ_WHO_2021_PARQUET_R2_WRITE_ENABLED'') False),
       rp_chunkDays = parsePositiveInt (env ''UK_AQ_WHO_2021_CHUNK_DAYS'') (Fin 31),
       rp_backfillMaxDays = Some (parsePositiveInt (env ''UK_AQ_WHO_2021_R2_BACKFILL_MAX_DAYS'') (Fin 31))\<rparr>)"

definition r2_of_env :: "environment \<Rightarrow> r2_config option" where
  "r2_of_env env =
     (case (first_env env ''R2_ENDPOINT'' ''CFLARE_R2_ENDPOINT'', first_env env ''R2_BUCKET'' ''CFLARE_R2_BUCKET'',
            first_env env ''R2_ACCESS_KEY_ID'' ''CFLARE_R2_ACCESS_KEY_ID'',
            first_env env ''R2_SECRET_ACCESS_KEY'' ''CFLARE_R2_SECRET_ACCESS_KEY'') of
        (Some endpoint, Some bucket, Some accessKeyId, Some secretAccessKey) \<Rightarrow>
          Some \<lparr>r2_endpoint = endpoint, r2_bucket = bucket,
            r2_region = (case first_env env ''R2_REGION'' ''CFLARE_R2_REGION'' of None \<Rightarrow> ''auto'' | Some v \<Rightarrow> v),
            r2_accessKeyId = accessKeyId, r2_secretAccessKey = secretAccessKey\<rparr>
      | _ \<Rightarrow> None)"

definition readSettings :: "environment \<Rightarrow> int \<Rightarrow> who_settings res" where
  "readSettings env now =
     res_bind (buildRunConfig (params_of_env env now)) (\<lambda>config.
     if r2_of_env env = None
       \<and> (wc_runMode config = BackfillRun \<or> wc_r2PublishEnabled config \<or> wc_parquetR2WriteEnabled config)
     then Inl (JsError ''R2 access is required but endpoint, bucket, access key, or secret key is missing'')
     else
     res_bind (requiredEnv env ''OBS_AQIDB_SUPABASE_URL'') (\<lambda>baseUrl.
     res_map (\<lambda>secretKey.
       \<lparr>ws_baseUrl = baseUrl, ws_secretKey = secretKey, ws_schema = env_or env ''UK_AQ_PUBLIC_SCHEMA'' ''uk_aq_public'',
        ws_retries = parsePositiveInt (env ''UK_AQ_WHO_2021_RPC_RETRIES'') (Fin 3),
        ws_dailyRefreshRpc = env_or env ''UK_AQ_WHO_2021_DAILY_REFRESH_RPC'' ''uk_aq_rpc_who_2021_daily_status_refresh'',
        ws_preparedUpsertRpc = env_or env ''UK_AQ_WHO_2021_PREPARED_UPSERT_RPC''
          ''uk_aq_rpc_who_2021_daily_status_upsert_prepared'',
        ws_readinessRpc = env_or env ''UK_AQ_WHO_2021_READINESS_RPC'' ''uk_aq_rpc_who_2021_readiness_check'',
        ws_summaryRefreshRpc = env_or env ''UK_AQ_WHO_2021_SUMMARY_REFRESH_RPC'' ''uk_aq_rpc_who_2021_summary_refresh'',
        ws_parquetRowsRpc = ''uk_aq_rpc_who_2021_r2_parquet_rows'',
        ws_runLogRpc = env_or env ''UK_AQ_WHO_2021_RUN_LOG_RPC'' ''uk_aq_rpc_who_2021_processing_run_log'',
        ws_r2 = r2_of_env env, ws_config = config\<rparr>)
       (requiredEnv env ''OBS_AQIDB_SECRET_KEY'')))"

section \<open>The state of a run\<close>

record source_result =
  sr_day_utc :: jsval
  sr_source :: string
  sr_boundary_source :: "string option"
  sr_calculation_status :: string
  sr_valid_timeseries_days :: jsval
  sr_not_enough_data_timeseries_days :: jsval
  sr_rows_upserted :: jsval
  sr_prepared_daily_row_count :: int
  sr_reasons :: "string list"
  sr_error :: "string option"

record run_evidence =
  re_manifestKeys :: "string list"
  re_manifestHashesValidated :: int
  re_parquetHashesValidated :: int
  re_objectCount :: int
  re_bytesRead :: int
  re_parquetRowCount :: int
  re_preparedDailyRowCount :: int

definition emptyR2RunEvidence :: run_evidence where
  "emptyR2RunEvidence = \<lparr>re_manifestKeys = [], re_manifestHashesValidated = 0, re_parquetHashesValidated = 0,
     re_objectCount = 0, re_bytesRead = 0, re_parquetRowCount = 0, re_preparedDailyRowCount = 0\<rparr>"

text \<open>A new element goes to the end of a set.\<close>

definition evidence_key :: "'a \<Rightarrow> 'a list \<Rightarrow> 'a list" where
  "evidence_key x xs = (if List.member xs x then xs else xs @ [x])"

definition accumulateR2Evidence :: "read_metrics \<Rightarrow> int \<Rightarrow> run_evidence \<Rightarrow> run_evidence" where
  "accumulateR2Evidence m preparedRowCount e =
     \<lparr>re_manifestKeys = fold evidence_key (rm_manifestKeys m) (re_manifestKeys e),
      re_manifestHashesValidated = re_manifestHashesValidated e + rm_manifestHashesValidated m,
      re_parquetHashesValidated = re_parquetHashesValidated e + rm_parquetHashesValidated m,
      re_objectCount = re_objectCount e + rm_objectCount m, re_bytesRead = re_bytesRead e + rm_bytesRead m,
      re_parquetRowCount = re_parquetRowCount e + rm_parquetRowCount m,
      re_preparedDailyRowCount = re_preparedDailyRowCount e + preparedRowCount\<rparr>"

record bucket_object =
  bo_logical_hash :: "string option"
  bo_body :: string

record put_result =
  pu_key :: string
  pu_updated :: bool
  pu_bytes :: int
  pu_comparison :: string
  pu_logical_sha256 :: string

record publish_summary =
  ps_checked :: "string list"
  ps_updated :: "string list"
  ps_unchanged :: "string list"
  ps_bytesUpdated :: int

definition no_publication :: publish_summary where
  "no_publication = \<lparr>ps_checked = [], ps_updated = [], ps_unchanged = [], ps_bytesUpdated = 0\<rparr>"

datatype readiness_record = ReadinessChecked readiness | ReadinessFailed string

record who_run =
  wr_requests :: "(string \<times> jsval) list"
  wr_bucket :: "(string, bucket_object) jsmap"
  wr_operations :: nat
  wr_warnings :: "string list"
  wr_readiness :: "(string, readiness_record) jsmap"
  wr_sources :: "source_result list"
  wr_completed :: "string list"
  wr_rows :: "jsval list"
  wr_evidence :: run_evidence
  wr_failed_day :: "string option"
  wr_validation_failed :: bool
  wr_target_source :: string
  wr_boundary_source :: "string option"
  wr_latest_complete_day :: "string option"
  wr_correction_day :: "string option"
  wr_publication_day :: "string option"
  wr_decision_reason :: "string option"
  wr_summary :: jsval
  wr_summary_completed :: bool
  wr_publish :: publish_summary
  wr_outcome :: string

datatype who_error =
    PlainError js_error
  | R2Missing string
  | R2ObservationReadError string read_metrics
  | R2PreparedRpcError string prepared_day
  | ObsBackfillSourceError string read_metrics string

fun who_message :: "who_error \<Rightarrow> string" where
  "who_message (PlainError e) = error_message e"
| "who_message (R2Missing key) = read_error_message (ObjectNotFound key)"
| "who_message (R2ObservationReadError m _) = m"
| "who_message (R2PreparedRpcError m _) = m"
| "who_message (ObsBackfillSourceError m _ _) = m"

type_synonym 'a who = "who_run \<Rightarrow> (who_error + 'a) \<times> who_run"

definition wh_ret :: "'a \<Rightarrow> 'a who" where
  "wh_ret x s = (Inr x, s)"

definition wh_fail :: "who_error \<Rightarrow> 'a who" where
  "wh_fail e s = (Inl e, s)"

definition wh_error :: "string \<Rightarrow> 'a who" where
  "wh_error m = wh_fail (PlainError (JsError m))"

definition wh_bind :: "'a who \<Rightarrow> ('a \<Rightarrow> 'b who) \<Rightarrow> 'b who" where
  "wh_bind m f s = (case m s of (Inl e, s') \<Rightarrow> (Inl e, s') | (Inr x, s') \<Rightarrow> f x s')"

definition wh_res :: "'a res \<Rightarrow> 'a who" where
  "wh_res r s = (case r of Inl e \<Rightarrow> (Inl (PlainError e), s) | Inr x \<Rightarrow> (Inr x, s))"

definition wh_catch :: "'a who \<Rightarrow> (who_error \<Rightarrow> 'a who) \<Rightarrow> 'a who" where
  "wh_catch m h s = (case m s of (Inl e, s') \<Rightarrow> h e s' | (Inr x, s') \<Rightarrow> (Inr x, s'))"

definition wh_upd :: "(who_run \<Rightarrow> who_run) \<Rightarrow> unit who" where
  "wh_upd f s = (Inr (), f s)"

definition wh_get :: "(who_run \<Rightarrow> 'a) \<Rightarrow> 'a who" where
  "wh_get f s = (Inr (f s), s)"

fun wh_each :: "('a \<Rightarrow> unit who) \<Rightarrow> 'a list \<Rightarrow> unit who" where
  "wh_each f [] = wh_ret ()"
| "wh_each f (x # xs) = wh_bind (f x) (\<lambda>_. wh_each f xs)"

section \<open>Procedure calls\<close>

text \<open>The answer of one attempt: a status with a body, or a failure of the network.\<close>

datatype fetch_reply = Replied int jsval | FetchFailed string

datatype rpc_result = RpcData jsval | RpcError string

datatype r2_fault = Refused string | LostAnswer string

record services =
  sx_fetch :: "nat \<Rightarrow> string \<Rightarrow> jsval \<Rightarrow> fetch_reply"
  sx_r2_fault :: "nat \<Rightarrow> r2_fault option"
  sx_parquet_bytes :: "jsval \<Rightarrow> string res"
  sx_source :: source_env

definition rpc_error_message :: "jsval \<Rightarrow> int \<Rightarrow> string" where
  "rpc_error_message payload status =
     (let texts = (case payload of
          JObj kvs \<Rightarrow> List.concat (List.map (\<lambda>key. case jget payload key of
            JStr s \<Rightarrow> if js_trim s \<noteq> [] then [s] else [] | _ \<Rightarrow> []) [''message'', ''error_description'', ''error''])
        | JStr s \<Rightarrow> if js_trim s \<noteq> [] then [s] else []
        | _ \<Rightarrow> [])
      in case texts of [] \<Rightarrow> ''HTTP '' @ int_str status | m # _ \<Rightarrow> m)"

definition isRetryable :: "int \<Rightarrow> bool" where
  "isRetryable status \<longleftrightarrow> status = 408 \<or> status = 425 \<or> status = 429 \<or> 500 \<le> status"

text \<open>The loop over the attempts, of which some are left.\<close>

fun post_attempts :: "services \<Rightarrow> string \<Rightarrow> jsval \<Rightarrow> nat \<Rightarrow> rpc_result who" where
  "post_attempts sx name args 0 s = (Inr (RpcError ''unknown_rpc_error''), s)"
| "post_attempts sx name args (Suc left) s =
     (let s' = s\<lparr>wr_requests := wr_requests s @ [(name, args)]\<rparr>
      in case sx_fetch sx (length (wr_requests s)) name args of
           Replied status payload \<Rightarrow>
             if 200 \<le> status \<and> status \<le> 299 then (Inr (RpcData payload), s')
             else if left \<noteq> 0 \<and> isRetryable status then post_attempts sx name args left s'
             else (Inr (RpcError (rpc_error_message payload status)), s')
         | FetchFailed m \<Rightarrow> if left \<noteq> 0 then post_attempts sx name args left s' else (Inr (RpcError m), s'))"

definition attempts_of :: "jsnum \<Rightarrow> nat" where
  "attempts_of retries = (case retries of Fin x \<Rightarrow> nat \<lfloor>x\<rfloor> | _ \<Rightarrow> 0)"

definition post :: "services \<Rightarrow> who_settings \<Rightarrow> string \<Rightarrow> jsval \<Rightarrow> rpc_result who" where
  "post sx ws name args = post_attempts sx name args (attempts_of (ws_retries ws))"

text \<open>A call whose error is thrown.\<close>

definition post_data :: "services \<Rightarrow> who_settings \<Rightarrow> string \<Rightarrow> jsval \<Rightarrow> string \<Rightarrow> jsval who" where
  "post_data sx ws name args failure =
     wh_bind (post sx ws name args) (\<lambda>r. case r of
       RpcError m \<Rightarrow> wh_error (failure @ m) | RpcData d \<Rightarrow> wh_ret d)"

fun parseRows :: "jsval \<Rightarrow> jsval list" where
  "parseRows (JArr vs) = vs"
| "parseRows _ = []"

definition first_of :: "jsval list \<Rightarrow> jsval" where
  "first_of rows = (case rows of [] \<Rightarrow> Undef | r # _ \<Rightarrow> r)"

definition errorRecord :: "string \<Rightarrow> jsval" where
  "errorRecord message = JObj [(''message'', JStr (take 1000 message)),
     (''source_file'', JStr ''workers/uk_aq_who_2021_daily/main.ts'')]"

section \<open>The sources of a day\<close>

definition preparedRowAsDailyRefresh :: "jsval \<Rightarrow> jsval" where
  "preparedRowAsDailyRefresh row =
     (let n = (\<lambda>key. JNum (number_or_zero (jget row key)))
      in JObj [(''start_day_utc'', jget row ''day_utc''), (''end_day_utc'', jget row ''day_utc''),
        (''connector_id'', jget row ''connector_id''), (''source_network_code'', jget row ''source_network_code''),
        (''pollutant_codes'', jget row ''pollutant_codes''),
        (''candidate_timeseries_count'', n ''candidate_timeseries_count''),
        (''candidate_timeseries_days'', n ''candidate_timeseries_days''), (''source_hour_rows'', n ''source_hour_rows''),
        (''valid_timeseries_days'', n ''valid_timeseries_days''),
        (''not_enough_data_timeseries_days'', n ''not_enough_data_timeseries_days''),
        (''rows_upserted'', n ''rows_upserted''), (''dry_run'', JBool (js_truthy (jget row ''dry_run'')))])"

definition refreshObsDay :: "services \<Rightarrow> who_settings \<Rightarrow> string \<Rightarrow> jsval who" where
  "refreshObsDay sx ws dayUtc =
     wh_bind (post_data sx ws (ws_dailyRefreshRpc ws) (buildDailyRefreshPayload (ws_config ws) (dayUtc, dayUtc))
         ''daily refresh RPC failed: '') (\<lambda>d.
       let row = first_of (parseRows d)
       in if js_truthy row then wh_ret row else wh_error (''daily refresh RPC returned no row for '' @ dayUtc))"

definition OBS_BOUNDARY_PAGE_LIMIT :: int where "OBS_BOUNDARY_PAGE_LIMIT = 20000"
definition OBS_BOUNDARY_MAX_PAGES :: nat where "OBS_BOUNDARY_MAX_PAGES = 100"

record obs_row =
  oh_timeseriesId :: int
  oh_observedAtUtc :: string
  oh_value :: "jsnum option"

definition plain_row :: "jsval \<Rightarrow> bool" where
  "plain_row v \<longleftrightarrow> (case v of JObj _ \<Rightarrow> True | _ \<Rightarrow> False)"

definition obs_history_row :: "string \<Rightarrow> nat \<times> jsval \<Rightarrow> obs_row res" where
  "obs_history_row dayUtc iv =
     (let row = snd iv;
          bad = (\<lambda>what. Inl (JsError (''Obs AQI DB history RPC row '' @ int_str (int (fst iv)) @ what @ dayUtc)));
          value = (if is_nullish (jget row ''value'') then None else Some (js_number (jget row ''value'')))
      in if \<not> plain_row row then bad '' is not an object for ''
         else case (num_safe_integer (js_number (jget row ''timeseries_id'')),
                    date_parse (str_or_empty (jget row ''observed_at'')), date_parse (midnight_text dayUtc)) of
             (Some timeseriesId, Some observedMs, Some startMs) \<Rightarrow>
               if timeseriesId \<le> 0 \<or> observedMs < startMs \<or> startMs + MS_DAY \<le> observedMs
                 \<or> (case value of None \<Rightarrow> False | Some x \<Rightarrow> \<not> num_finite x)
               then bad '' is invalid for ''
               else Inr \<lparr>oh_timeseriesId = timeseriesId, oh_observedAtUtc = to_iso observedMs, oh_value = value\<rparr>
           | _ \<Rightarrow> bad '' is invalid for '')"

definition parseObsHistoryRows :: "jsval \<Rightarrow> string \<Rightarrow> obs_row list res" where
  "parseObsHistoryRows payload dayUtc =
     (case payload of
        JArr vs \<Rightarrow> res_mapM (obs_history_row dayUtc) (indexed vs)
      | _ \<Rightarrow> Inl (JsError (''Obs AQI DB history RPC returned no row array for '' @ dayUtc)))"

text \<open>The order of two rows: compareObsHistoryRows(left, right) > 0\<close>

definition row_after :: "obs_row \<Rightarrow> obs_row \<Rightarrow> bool" where
  "row_after a b \<longleftrightarrow> (if oh_timeseriesId a \<noteq> oh_timeseriesId b then oh_timeseriesId b < oh_timeseriesId a
     else collation_key (oh_observedAtUtc b) < collation_key (oh_observedAtUtc a))"

text \<open>A page must advance the cursor with every row.\<close>

fun advance_page :: "string \<Rightarrow> obs_row option \<Rightarrow> obs_row list \<Rightarrow> obs_row option res" where
  "advance_page dayUtc cursor [] = Inr cursor"
| "advance_page dayUtc cursor (row # rows) =
     (if (case cursor of None \<Rightarrow> False | Some c \<Rightarrow> \<not> row_after row c)
      then Inl (JsError (''Obs AQI DB boundary history RPC did not advance for '' @ dayUtc))
      else advance_page dayUtc (Some row) rows)"

record boundary_identity =
  bi_stationId :: "int option"
  bi_pollutantCode :: string

definition identity_row :: "who_config \<Rightarrow> string \<Rightarrow> nat \<times> jsval \<Rightarrow>
    (int, boundary_identity) jsmap \<Rightarrow> (int, boundary_identity) jsmap res" where
  "identity_row c boundaryAt iv identities =
     (let row = snd iv;
          bad = (\<lambda>what. Inl (JsError (''Obs AQI DB boundary identity row '' @ int_str (int (fst iv)) @ what @ boundaryAt)));
          pollutantCode = js_lower (js_trim (str_or_empty (jget row ''pollutant_code'')))
      in if \<not> plain_row row then bad '' is not an object for ''
         else case (num_safe_integer (js_number (jget row ''timeseries_id'')),
                    num_safe_integer (js_number (jget row ''connector_id'')),
                    date_parse (str_or_empty (jget row ''timestamp_hour_utc'')), station_of (jget row ''station_id'')) of
             (Some timeseriesId, Some connectorId, Some t, Some stationId) \<Rightarrow>
               if timeseriesId \<le> 0 \<or> to_iso t \<noteq> boundaryAt then bad '' is invalid for ''
               else if connectorId \<noteq> wc_connectorId c \<or> \<not> List.member (wc_pollutantCodes c) pollutantCode then Inr identities
               else
                 let new = \<lparr>bi_stationId = stationId, bi_pollutantCode = pollutantCode\<rparr>
                 in if (case jm_get identities timeseriesId of None \<Rightarrow> False | Some old \<Rightarrow> old \<noteq> new)
                    then Inl (JsError (''Obs AQI DB boundary identity is contradictory for timeseries_id ''
                      @ int_str timeseriesId))
                    else Inr (jm_set timeseriesId new identities)
           | _ \<Rightarrow> bad '' is invalid for '')"

definition boundary_row :: "who_config \<Rightarrow> string \<Rightarrow> (int, boundary_identity) jsmap \<Rightarrow> obs_row \<Rightarrow> r2_row list" where
  "boundary_row c boundaryAt identities row =
     (case jm_get identities (oh_timeseriesId row) of
        None \<Rightarrow> []
      | Some i \<Rightarrow> [\<lparr>ro_connectorId = wc_connectorId c, ro_stationId = bi_stationId i, ro_timeseriesId = oh_timeseriesId row,
          ro_pollutantCode = bi_pollutantCode i, ro_observedAtUtc = boundaryAt, ro_value = oh_value row\<rparr>])"

definition identifyObsBoundaryRows :: "services \<Rightarrow> who_settings \<Rightarrow> string \<Rightarrow> obs_row list \<Rightarrow> r2_row list who" where
  "identifyObsBoundaryRows sx ws boundaryAt rows =
     (let ids = rev (remdups (rev (List.map oh_timeseriesId rows))) in
      if ids = [] then wh_ret []
      else
      wh_bind (wh_res (case date_parse boundaryAt of None \<Rightarrow> Inl RangeError | Some t \<Rightarrow> Inr (to_iso (t + MS_HOUR)))) (\<lambda>boundaryEnd.
      wh_bind (post_data sx ws ''uk_aq_rpc_timeseries_aqi_hourly_source''
          (JObj [(''p_window_start'', JStr boundaryAt), (''p_window_end'', JStr boundaryEnd),
            (''p_timeseries_ids'', JArr (List.map JInt ids))])
          (''Obs AQI DB boundary identity RPC failed for '' @ boundaryAt @ '': '')) (\<lambda>d.
      wh_bind (wh_res (case d of
          JArr vs \<Rightarrow> res_fold (identity_row (ws_config ws) boundaryAt) (indexed vs) jm_empty
        | _ \<Rightarrow> Inl (JsError (''Obs AQI DB boundary identity RPC returned no row array for '' @ boundaryAt)))) (\<lambda>identities.
      wh_ret (List.concat (List.map (boundary_row (ws_config ws) boundaryAt identities) rows))))))"

fun boundary_pages :: "services \<Rightarrow> who_settings \<Rightarrow> string \<Rightarrow> nat \<Rightarrow> obs_row option \<Rightarrow> obs_row list \<Rightarrow> r2_row list who" where
  "boundary_pages sx ws dayUtc 0 cursor exact =
     wh_error (''Obs AQI DB boundary history RPC exceeded 100 pages for '' @ dayUtc)"
| "boundary_pages sx ws dayUtc (Suc pages) cursor exact =
     wh_bind (post_data sx ws ''uk_aq_rpc_observs_history_day_rows''
         (JObj [(''p_day_utc'', JStr dayUtc), (''p_connector_id'', JInt (wc_connectorId (ws_config ws))),
           (''p_after_timeseries_id'', case cursor of None \<Rightarrow> Null | Some c \<Rightarrow> JInt (oh_timeseriesId c)),
           (''p_after_observed_at'', case cursor of None \<Rightarrow> Null | Some c \<Rightarrow> JStr (oh_observedAtUtc c)),
           (''p_limit'', JInt OBS_BOUNDARY_PAGE_LIMIT)])
         (''Obs AQI DB boundary history RPC failed for '' @ dayUtc @ '': '')) (\<lambda>d.
     wh_bind (wh_res (parseObsHistoryRows d dayUtc)) (\<lambda>rows.
       if rows = [] then identifyObsBoundaryRows sx ws (midnight_text dayUtc) exact
       else
       wh_bind (wh_res (advance_page dayUtc cursor rows)) (\<lambda>cursor'.
         let exact' = exact @ filter (\<lambda>r. oh_observedAtUtc r = midnight_text dayUtc) rows
         in if int (length rows) < OBS_BOUNDARY_PAGE_LIMIT
            then identifyObsBoundaryRows sx ws (midnight_text dayUtc) exact'
            else boundary_pages sx ws dayUtc pages cursor' exact')))"

definition readObsBoundaryRows :: "services \<Rightarrow> who_settings \<Rightarrow> string \<Rightarrow> r2_row list who" where
  "readObsBoundaryRows sx ws boundaryDayUtc = boundary_pages sx ws boundaryDayUtc OBS_BOUNDARY_MAX_PAGES None []"

definition readinessForDay :: "services \<Rightarrow> who_settings \<Rightarrow> string \<Rightarrow> readiness who" where
  "readinessForDay sx ws dayUtc =
     wh_bind (wh_res (buildReadinessPayload (ws_config ws) dayUtc)) (\<lambda>payload.
     wh_bind (post_data sx ws (ws_readinessRpc ws) payload ''readiness RPC failed: '') (\<lambda>d.
       wh_res (summarizeReadinessRows (parseRows d) dayUtc)))"

definition prepared_object :: "prepared_row \<Rightarrow> jsval" where
  "prepared_object r = JObj [(''timeseries_id'', JInt (pr_timeseries_id r)),
     (''valid_hour_count'', JInt (pr_valid_hour_count r)),
     (''daily_mean_ugm3'', case pr_daily_mean_ugm3 r of None \<Rightarrow> Null | Some x \<Rightarrow> JNum x)]"

definition upsertPreparedDay :: "services \<Rightarrow> who_settings \<Rightarrow> string \<Rightarrow> prepared_day \<Rightarrow> jsval who" where
  "upsertPreparedDay sx ws dayUtc prepared =
     wh_bind (post sx ws (ws_preparedUpsertRpc ws)
         (JObj [(''p_day_utc'', JStr dayUtc), (''p_connector_id'', JInt (wc_connectorId (ws_config ws))),
           (''p_source_network_code'', JStr (wc_sourceNetworkCode (ws_config ws))),
           (''p_pollutant_codes'', codes_array (wc_pollutantCodes (ws_config ws))),
           (''p_min_valid_hours_per_day'', JNum (wc_minValidHoursPerDay (ws_config ws))),
           (''p_prepared_rows'', JArr (List.map prepared_object (pd_preparedRows prepared))),
           (''p_dry_run'', JBool (wc_dryRun (ws_config ws)))])) (\<lambda>r. case r of
       RpcError m \<Rightarrow> wh_fail (R2PreparedRpcError (''prepared upsert RPC failed: '' @ m) prepared)
     | RpcData d \<Rightarrow>
         let row = first_of (parseRows d)
         in if js_truthy row then wh_ret (preparedRowAsDailyRefresh row)
            else wh_fail (R2PreparedRpcError (''prepared upsert RPC returned no row for '' @ dayUtc) prepared))"

text \<open>The rows of a day from the bucket, with the counters and the cache to start from.\<close>

definition prepare_day :: "services \<Rightarrow> who_settings \<Rightarrow> string \<Rightarrow> r2_row list option \<Rightarrow> source_state \<Rightarrow> prepared_day who" where
  "prepare_day sx ws dayUtc boundaryRows so =
     (case fst (prepareWhoDailyRowsFromR2 (sx_source sx) dayUtc (wc_connectorId (ws_config ws))
         (wc_pollutantCodes (ws_config ws)) (wc_minValidHoursPerDay (ws_config ws)) boundaryRows so) of
        Inl (PrepareFailed e) \<Rightarrow> wh_fail (PlainError e)
      | Inl (ObservationRead m metrics) \<Rightarrow> wh_fail (R2ObservationReadError m metrics)
      | Inr prepared \<Rightarrow> wh_ret prepared)"

definition new_source :: source_state where
  "new_source = \<lparr>so_metrics = createR2ReadMetrics, so_cache = jm_empty\<rparr>"

definition refreshR2Day :: "services \<Rightarrow> who_settings \<Rightarrow> string \<Rightarrow> (prepared_day \<times> jsval) who" where
  "refreshR2Day sx ws dayUtc =
     (if ws_r2 ws = None then wh_error ''R2 fallback is unavailable because R2 is not configured''
      else
      wh_bind (prepare_day sx ws dayUtc None new_source) (\<lambda>prepared.
      wh_bind (upsertPreparedDay sx ws dayUtc prepared) (\<lambda>rpc. wh_ret (prepared, rpc))))"

section \<open>A backfill day\<close>

text \<open>row.valid_timeseries_days > 0\<close>

definition positive :: "jsval \<Rightarrow> bool" where
  "positive v \<longleftrightarrow> num_lt (Fin 0) (js_number v)"

definition complete_day :: "string \<Rightarrow> jsval \<Rightarrow> source_result \<Rightarrow> unit who" where
  "complete_day dayUtc row result =
     wh_upd (\<lambda>s. s\<lparr>wr_rows := wr_rows s @ [row], wr_completed := wr_completed s @ [dayUtc],
       wr_sources := wr_sources s @ [result]\<rparr>)"

definition source_row :: "string \<Rightarrow> string \<Rightarrow> string option \<Rightarrow> jsval \<Rightarrow> int \<Rightarrow> string list \<Rightarrow> source_result" where
  "source_row dayUtc source boundary row prepared reasons =
     \<lparr>sr_day_utc = JStr dayUtc, sr_source = source, sr_boundary_source = boundary,
      sr_calculation_status = (if positive (jget row ''valid_timeseries_days'') then ''usable'' else ''unusable''),
      sr_valid_timeseries_days = jget row ''valid_timeseries_days'',
      sr_not_enough_data_timeseries_days = jget row ''not_enough_data_timeseries_days'',
      sr_rows_upserted = jget row ''rows_upserted'', sr_prepared_daily_row_count = prepared,
      sr_reasons = reasons, sr_error = None\<rparr>"

definition use_evidence :: "read_metrics \<Rightarrow> int \<Rightarrow> unit who" where
  "use_evidence m n = wh_upd (\<lambda>s. s\<lparr>wr_evidence := accumulateR2Evidence m n (wr_evidence s)\<rparr>)"

text \<open>The day has no manifest in the bucket: it is calculated in the database.\<close>

definition backfill_database :: "services \<Rightarrow> who_settings \<Rightarrow> string \<Rightarrow> read_metrics \<Rightarrow> unit who" where
  "backfill_database sx ws dayUtc metrics =
     wh_bind (wh_upd (\<lambda>s. s\<lparr>wr_target_source := ''obs_aqidb'', wr_boundary_source := Some ''obs_aqidb''\<rparr>)) (\<lambda>_.
     wh_bind (wh_catch (refreshObsDay sx ws dayUtc) (\<lambda>e. wh_fail (ObsBackfillSourceError
         (''Obs AQI DB full-day source failed for '' @ dayUtc @ '': '' @ take 320 (who_message e)) metrics
         ''database_full_day_failed''))) (\<lambda>row.
       complete_day dayUtc row (source_row dayUtc ''obs_aqidb'' (Some ''obs_aqidb'') row 0
         [''r2_target_manifest_absent'', if positive (jget row ''valid_timeseries_days'')
           then ''database_backfill_used'' else ''database_backfill_zero_valid_days''])))"

text \<open>The rows of the boundary: from the bucket, or from the database when the next day has no manifest.\<close>

definition backfill_boundary :: "services \<Rightarrow> who_settings \<Rightarrow> string \<Rightarrow> source_state \<Rightarrow>
    (string \<times> r2_row list option \<times> source_state) who" where
  "backfill_boundary sx ws dayUtc so =
     wh_bind (wh_res (addDays dayUtc (Fin 1))) (\<lambda>boundaryDay.
     wh_bind (wh_upd (\<lambda>s. s\<lparr>wr_boundary_source := Some ''r2_v2''\<rparr>)) (\<lambda>_.
       case probeValidatedObservationDayManifest (sx_source sx) boundaryDay so of
         (Inr _, so') \<Rightarrow> wh_ret (''r2_v2'', None, so')
       | (Inl e, so') \<Rightarrow>
           if isAbsentR2ObservationDayManifest (sx_source sx) e boundaryDay
           then wh_bind (wh_upd (\<lambda>s. s\<lparr>wr_boundary_source := Some ''obs_aqidb''\<rparr>)) (\<lambda>_.
                wh_bind (wh_catch (readObsBoundaryRows sx ws boundaryDay) (\<lambda>e. wh_fail (ObsBackfillSourceError
                    (''Obs AQI DB boundary source failed for '' @ boundaryDay @ '': '' @ take 320 (who_message e))
                    (so_metrics so') ''database_boundary_failed''))) (\<lambda>rows.
                  wh_ret (''obs_aqidb'', Some rows, so')))
           else wh_fail (R2ObservationReadError (''WHO boundary day manifest '' @ boundaryDay @ '' failed validation: ''
             @ take 320 (read_error_message e)) (unique_metrics (so_metrics so')))))"

definition backfill_bucket :: "services \<Rightarrow> who_settings \<Rightarrow> string \<Rightarrow> source_state \<Rightarrow> unit who" where
  "backfill_bucket sx ws dayUtc so =
     wh_bind (backfill_boundary sx ws dayUtc so) (\<lambda>(boundarySource, boundaryRows, so').
     wh_bind (prepare_day sx ws dayUtc boundaryRows so') (\<lambda>prepared.
     wh_bind (upsertPreparedDay sx ws dayUtc prepared) (\<lambda>row.
     wh_bind (use_evidence (pd_metrics prepared) (int (length (pd_preparedRows prepared)))) (\<lambda>_.
       complete_day dayUtc row (source_row dayUtc ''r2_v2'' (Some boundarySource) row
         (int (length (pd_preparedRows prepared)))
         ([''r2_target_used'', if boundarySource = ''r2_v2'' then ''r2_boundary_used'' else ''database_boundary_used'']
           @ (if positive (jget row ''valid_timeseries_days'') then [] else [''backfill_zero_valid_days''])))))))"

definition backfill_try :: "services \<Rightarrow> who_settings \<Rightarrow> string \<Rightarrow> unit who" where
  "backfill_try sx ws dayUtc =
     (if ws_r2 ws = None then wh_error ''R2 source selection is unavailable because R2 is not configured''
      else
      wh_bind (wh_upd (\<lambda>s. s\<lparr>wr_target_source := ''r2_v2''\<rparr>)) (\<lambda>_.
        case probeValidatedObservationDayManifest (sx_source sx) dayUtc new_source of
          (Inr _, so) \<Rightarrow> backfill_bucket sx ws dayUtc so
        | (Inl e, so) \<Rightarrow>
            if isAbsentR2ObservationDayManifest (sx_source sx) e dayUtc then backfill_database sx ws dayUtc (so_metrics so)
            else wh_fail (R2ObservationReadError (''WHO target day manifest '' @ dayUtc @ '' failed validation: ''
              @ take 320 (read_error_message e)) (unique_metrics (so_metrics so)))))"

definition error_evidence :: "who_error \<Rightarrow> unit who" where
  "error_evidence e =
     (case e of
        R2PreparedRpcError _ prepared \<Rightarrow> use_evidence (pd_metrics prepared) (int (length (pd_preparedRows prepared)))
      | R2ObservationReadError _ metrics \<Rightarrow>
          wh_bind (use_evidence metrics 0) (\<lambda>_. wh_upd (\<lambda>s. s\<lparr>wr_validation_failed := True\<rparr>))
      | ObsBackfillSourceError _ metrics _ \<Rightarrow> use_evidence metrics 0
      | _ \<Rightarrow> wh_upd (\<lambda>s. s\<lparr>wr_validation_failed := True\<rparr>))"

definition backfill_failed :: "string \<Rightarrow> who_error \<Rightarrow> unit who" where
  "backfill_failed dayUtc e =
     wh_bind (wh_upd (\<lambda>s. s\<lparr>wr_failed_day := Some dayUtc\<rparr>)) (\<lambda>_.
     wh_bind (error_evidence e) (\<lambda>_.
     wh_bind (wh_upd (\<lambda>s. s\<lparr>wr_sources := wr_sources s @ [\<lparr>sr_day_utc = JStr dayUtc, sr_source = wr_target_source s,
         sr_boundary_source = wr_boundary_source s, sr_calculation_status = ''failed'', sr_valid_timeseries_days = JInt 0,
         sr_not_enough_data_timeseries_days = JInt 0, sr_rows_upserted = JInt 0, sr_prepared_daily_row_count = 0,
         sr_reasons = [case e of ObsBackfillSourceError _ _ reason \<Rightarrow> reason | _ \<Rightarrow> ''r2_backfill_failed''],
         sr_error = Some (take 500 (who_message e))\<rparr>]\<rparr>)) (\<lambda>_. wh_fail e)))"

definition backfill_day :: "services \<Rightarrow> who_settings \<Rightarrow> string \<Rightarrow> unit who" where
  "backfill_day sx ws dayUtc =
     wh_bind (wh_upd (\<lambda>s. s\<lparr>wr_target_source := ''unavailable'', wr_boundary_source := None\<rparr>)) (\<lambda>_.
       wh_catch (backfill_try sx ws dayUtc) (backfill_failed dayUtc))"

section \<open>A day of a normal run\<close>

definition warn :: "string \<Rightarrow> unit who" where
  "warn m = wh_upd (\<lambda>s. s\<lparr>wr_warnings := wr_warnings s @ [m]\<rparr>)"

definition ungated_readiness :: "string \<Rightarrow> readiness" where
  "ungated_readiness dayUtc = \<lparr>rd_checked = False, rd_ready = True, rd_already_completed = False, rd_as_of_day_utc = dayUtc,
     rd_final_hour_observed_at = Null, rd_pollutant_rows = []\<rparr>"

text \<open>Whether the database is ready for the day, and the reasons why not.\<close>

definition daily_readiness :: "services \<Rightarrow> who_settings \<Rightarrow> string \<Rightarrow> (bool \<times> string list) who" where
  "daily_readiness sx ws dayUtc =
     wh_catch
       (wh_bind (if shouldRunReadinessGate (ws_config ws) then readinessForDay sx ws dayUtc
           else wh_ret (ungated_readiness dayUtc)) (\<lambda>r.
        wh_bind (wh_upd (\<lambda>s. s\<lparr>wr_readiness := jm_set dayUtc (ReadinessChecked r) (wr_readiness s)\<rparr>)) (\<lambda>_.
        wh_bind (if rd_already_completed r
           then warn (''A prior successful run covered '' @ dayUtc @ ''; recalculation continued as required.'')
           else wh_ret ()) (\<lambda>_.
          wh_ret (rd_ready r, if rd_ready r then [] else [''database_not_ready''])))))
       (\<lambda>e.
        wh_bind (wh_upd (\<lambda>s. s\<lparr>wr_readiness := jm_set dayUtc (ReadinessFailed (who_message e)) (wr_readiness s)\<rparr>)) (\<lambda>_.
        wh_bind (warn (''Obs AQI DB readiness was unavailable for '' @ dayUtc @ ''; exact-day R2 fallback was attempted.'')) (\<lambda>_.
          wh_ret (False, [''database_readiness_failed'']))))"

text \<open>The refresh in the database: whether it gave a usable day, and the reasons why not.\<close>

definition daily_database :: "services \<Rightarrow> who_settings \<Rightarrow> string \<Rightarrow> string list \<Rightarrow> (bool \<times> string list) who" where
  "daily_database sx ws dayUtc reasons =
     wh_catch
       (wh_bind (refreshObsDay sx ws dayUtc) (\<lambda>row.
          if positive (jget row ''valid_timeseries_days'')
          then wh_bind (complete_day dayUtc row
            (source_row dayUtc ''obs_aqidb'' (Some ''obs_aqidb'') row 0 [''database_used''])) (\<lambda>_. wh_ret (True, reasons))
          else wh_bind (warn (''Obs AQI DB refresh returned zero valid timeseries days for '' @ dayUtc
              @ ''; exact-day R2 fallback was attempted.'')) (\<lambda>_.
            wh_ret (False, reasons @ [''database_ready_but_zero_valid_days'']))))
       (\<lambda>e. wh_bind (warn (''Obs AQI DB refresh failed for '' @ dayUtc @ ''; exact-day R2 fallback was attempted: ''
           @ take 300 (who_message e))) (\<lambda>_. wh_ret (False, reasons @ [''database_refresh_failed''])))"

definition unavailable_row :: "string \<Rightarrow> string option \<Rightarrow> string \<Rightarrow> jsval \<Rightarrow> jsval \<Rightarrow> int \<Rightarrow> string list \<Rightarrow>
    string option \<Rightarrow> source_result" where
  "unavailable_row dayUtc boundary status notEnough upserted prepared reasons e =
     \<lparr>sr_day_utc = JStr dayUtc, sr_source = ''unavailable'', sr_boundary_source = boundary, sr_calculation_status = status,
      sr_valid_timeseries_days = JInt 0, sr_not_enough_data_timeseries_days = notEnough, sr_rows_upserted = upserted,
      sr_prepared_daily_row_count = prepared, sr_reasons = reasons, sr_error = e\<rparr>"

definition add_source :: "source_result \<Rightarrow> unit who" where
  "add_source r = wh_upd (\<lambda>s. s\<lparr>wr_sources := wr_sources s @ [r]\<rparr>)"

definition daily_bucket :: "services \<Rightarrow> who_settings \<Rightarrow> string \<Rightarrow> string list \<Rightarrow> unit who" where
  "daily_bucket sx ws dayUtc reasons =
     wh_catch
       (wh_bind (refreshR2Day sx ws dayUtc) (\<lambda>(prepared, row).
          let n = int (length (pd_preparedRows prepared)) in
          wh_bind (use_evidence (pd_metrics prepared) n) (\<lambda>_.
            if positive (jget row ''valid_timeseries_days'')
            then complete_day dayUtc row
              (source_row dayUtc ''r2_v2'' (Some ''r2_v2'') row n (reasons @ [''r2_fallback_used'']))
            else wh_bind (add_source (unavailable_row dayUtc (Some ''r2_v2'') ''unusable''
                (jget row ''not_enough_data_timeseries_days'') (jget row ''rows_upserted'') n
                (reasons @ [''r2_fallback_zero_valid_days'']) None)) (\<lambda>_.
              warn (''R2 fallback returned zero valid timeseries days for '' @ dayUtc
                @ ''; the calculated day is unusable and was not selected for publication.'')))))
       (\<lambda>e.
          wh_bind (error_evidence e) (\<lambda>_.
          wh_bind (add_source (unavailable_row dayUtc None
            (if List.member reasons ''database_ready_but_zero_valid_days'' then ''unusable'' else ''failed'')
            (JInt 0) (JInt 0) 0 (reasons @ [''r2_fallback_failed'']) (Some (take 500 (who_message e))))) (\<lambda>_.
            warn (''No usable source for '' @ dayUtc @ '': '' @ take 500 (who_message e)))))"

definition daily_day :: "services \<Rightarrow> who_settings \<Rightarrow> string \<Rightarrow> unit who" where
  "daily_day sx ws dayUtc =
     wh_bind (daily_readiness sx ws dayUtc) (\<lambda>(ready, reasons).
     wh_bind (if ready then daily_database sx ws dayUtc reasons else wh_ret (False, reasons)) (\<lambda>(finished, reasons).
       if finished then wh_ret () else daily_bucket sx ws dayUtc reasons))"

section \<open>A dry run\<close>

definition dry_source :: "jsval \<Rightarrow> source_result" where
  "dry_source row =
     \<lparr>sr_day_utc = jget row ''end_day_utc'', sr_source = ''obs_aqidb'', sr_boundary_source = Some ''obs_aqidb'',
      sr_calculation_status = (if positive (jget row ''valid_timeseries_days'') then ''usable'' else ''unusable''),
      sr_valid_timeseries_days = JNum (number_or_zero (jget row ''valid_timeseries_days'')),
      sr_not_enough_data_timeseries_days = JNum (number_or_zero (jget row ''not_enough_data_timeseries_days'')),
      sr_rows_upserted = JNum (number_or_zero (jget row ''rows_upserted'')), sr_prepared_daily_row_count = 0,
      sr_reasons = [''database_used''], sr_error = None\<rparr>"

definition dry_chunk :: "services \<Rightarrow> who_settings \<Rightarrow> string \<times> string \<Rightarrow> unit who" where
  "dry_chunk sx ws chunk =
     wh_bind (post_data sx ws (ws_dailyRefreshRpc ws) (buildDailyRefreshPayload (ws_config ws) chunk)
         ''daily refresh RPC failed: '') (\<lambda>d.
     wh_bind (wh_upd (\<lambda>s. s\<lparr>wr_rows := wr_rows s @ parseRows d\<rparr>)) (\<lambda>_.
     wh_bind (wh_upd (\<lambda>s. s\<lparr>wr_sources := wr_sources s
       @ List.map dry_source (takeWhile (\<lambda>row. \<not> is_nullish row) (parseRows d))\<rparr>)) (\<lambda>_.
       wh_res (rows_readable (parseRows d)))))"

section \<open>The day to publish\<close>

definition usable_result :: "source_result \<Rightarrow> bool" where
  "usable_result r \<longleftrightarrow> sr_source r \<noteq> ''unavailable'' \<and> positive (sr_valid_timeseries_days r)"

definition usable_days :: "source_result list \<Rightarrow> jsval list" where
  "usable_days results = List.map sr_day_utc (filter usable_result results)"

definition selectNewestUsablePublicationDay :: "source_result list \<Rightarrow> string option" where
  "selectNewestUsablePublicationDay results =
     (let days = sort_key collation_key (List.map js_string (usable_days results))
      in if days = [] \<or> last days = [] then None else Some (last days))"

section \<open>Conditional writes\<close>

text \<open>One operation on the bucket, with its effect.\<close>

definition r2_operation :: "services \<Rightarrow> ((string, bucket_object) jsmap \<Rightarrow> (string, bucket_object) jsmap) \<Rightarrow> unit who" where
  "r2_operation sx f s =
     (let done_s = s\<lparr>wr_operations := wr_operations s + 1\<rparr>; effect_s = done_s\<lparr>wr_bucket := f (wr_bucket s)\<rparr>
      in case sx_r2_fault sx (wr_operations s) of
           None \<Rightarrow> (Inr (), effect_s)
         | Some (Refused m) \<Rightarrow> (Inl (PlainError (JsError m)), done_s)
         | Some (LostAnswer m) \<Rightarrow> (Inl (PlainError (JsError m)), effect_s))"

definition put_answer :: "string \<Rightarrow> string \<Rightarrow> string \<Rightarrow> bool \<Rightarrow> string \<Rightarrow> put_result" where
  "put_answer key body logicalHash updated comparison =
     \<lparr>pu_key = key, pu_updated = updated, pu_bytes = int (length body), pu_comparison = comparison,
      pu_logical_sha256 = logicalHash\<rparr>"

definition put_object :: "services \<Rightarrow> string \<Rightarrow> string \<Rightarrow> string \<Rightarrow> string \<Rightarrow> put_result who" where
  "put_object sx key body logicalHash comparison =
     wh_bind (r2_operation sx (jm_set key \<lparr>bo_logical_hash = Some logicalHash, bo_body = body\<rparr>)) (\<lambda>_.
       wh_ret (put_answer key body logicalHash True comparison))"

definition putR2ObjectIfChanged :: "services \<Rightarrow> string \<Rightarrow> string \<Rightarrow> string \<Rightarrow> put_result who" where
  "putR2ObjectIfChanged sx key body logicalHash =
     wh_bind (r2_operation sx id) (\<lambda>_.
     wh_bind (wh_get (\<lambda>s. jm_get (wr_bucket s) key)) (\<lambda>existing.
       case existing of
         None \<Rightarrow> put_object sx key body logicalHash ''missing''
       | Some obj \<Rightarrow>
           if bo_logical_hash obj = Some logicalHash then wh_ret (put_answer key body logicalHash False ''metadata_hash'')
           else if env_text (bo_logical_hash obj) = []
           then wh_bind (r2_operation sx id) (\<lambda>_.
             if bo_body obj = body then wh_ret (put_answer key body logicalHash False ''existing_bytes'')
             else put_object sx key body logicalHash ''existing_bytes'')
           else put_object sx key body logicalHash ''existing_bytes''))"

section \<open>Publication\<close>

fun logicalRows :: "jsval \<Rightarrow> jsval" where
  "logicalRows (JArr vs) = JArr (List.map logicalRows vs)"
| "logicalRows (JObj kvs) = JObj (List.map (\<lambda>kv. (fst kv, logicalRows (snd kv)))
     (filter (\<lambda>kv. fst kv \<noteq> ''created_at'' \<and> fst kv \<noteq> ''updated_at'') kvs))"
| "logicalRows (JDate _) = JObj []"
| "logicalRows v = v"

definition logicalSummary :: "jsval \<Rightarrow> jsval" where
  "logicalSummary v = without_key ''generated_at_utc'' v"

text \<open>The day in the key of a daily object: /\/daily_status\/day_utc=(\d{4}-\d{2}-\d{2})\//\<close>

fun daily_status_day :: "string \<Rightarrow> string option" where
  "daily_status_day [] = None"
| "daily_status_day (c # s) =
     (if starts_with (c # s) ''/daily_status/day_utc='' \<and> of_shape ''dddd-dd-dd/'' (take 11 (drop 22 (c # s)))
      then Some (take 10 (drop 22 (c # s))) else daily_status_day s)"

text \<open>Whether a batch is to be written: a daily one only for a usable day.\<close>

definition batch_selected :: "jsval list \<Rightarrow> jsval \<Rightarrow> bool res" where
  "batch_selected usable batch =
     (if is_nullish batch then Inl TypeError
      else if jget batch ''dataset'' \<noteq> JStr ''daily_status'' then Inr True
      else case jget batch ''object_key'' of
          JStr key \<Rightarrow>
            (case daily_status_day key of
               None \<Rightarrow> Inl (JsError (''daily parquet batch has an invalid object key: '' @ take 300 key))
             | Some d \<Rightarrow> Inr (JStr d \<in> set usable))
        | _ \<Rightarrow> Inl TypeError)"

definition batch_object :: "jsval \<Rightarrow> jsval" where
  "batch_object batch =
     JObj [(''dataset'', jget batch ''dataset''), (''object_key'', jget batch ''object_key''),
       (''row_count'', jget batch ''row_count''), (''rows'', logicalRows (jget batch ''rows_json''))]"

definition publish_batch :: "services \<Rightarrow> jsval list \<Rightarrow> jsval \<Rightarrow> put_result list who" where
  "publish_batch sx usable batch =
     wh_bind (wh_res (batch_selected usable batch)) (\<lambda>selected.
       if \<not> selected then wh_ret []
       else
       wh_bind (wh_res (sx_parquet_bytes sx batch)) (\<lambda>bytes.
       wh_bind (wh_res (case jget batch ''object_key'' of JStr key \<Rightarrow> Inr key | _ \<Rightarrow> Inl TypeError)) (\<lambda>key.
       wh_bind (putR2ObjectIfChanged sx key bytes (sv_sha256 (sx_source sx) (stableJson (batch_object batch)))) (\<lambda>r.
         wh_ret [r]))))"

fun wh_collect :: "('a \<Rightarrow> 'b list who) \<Rightarrow> 'a list \<Rightarrow> 'b list who" where
  "wh_collect f [] = wh_ret []"
| "wh_collect f (x # xs) = wh_bind (f x) (\<lambda>ys. wh_bind (wh_collect f xs) (\<lambda>zs. wh_ret (ys @ zs)))"

definition publish_parquet :: "services \<Rightarrow> who_settings \<Rightarrow> string \<Rightarrow> jsval list \<Rightarrow> put_result list who" where
  "publish_parquet sx ws publicationDay usable =
     wh_bind (post_data sx ws (ws_parquetRowsRpc ws)
         (JObj [(''p_as_of_day_utc'', JStr publicationDay), (''p_start_day_utc'', JStr (wc_startDayUtc (ws_config ws))),
           (''p_end_day_utc'', JStr publicationDay), (''p_connector_id'', JInt (wc_connectorId (ws_config ws))),
           (''p_source_network_code'', JStr (wc_sourceNetworkCode (ws_config ws))),
           (''p_pollutant_codes'', codes_array (wc_pollutantCodes (ws_config ws)))])
         ''parquet row RPC failed: '') (\<lambda>d.
       wh_collect (publish_batch sx usable) (parseRows d))"

definition publish_json :: "services \<Rightarrow> who_settings \<Rightarrow> string \<Rightarrow> jsval \<Rightarrow> jsval \<Rightarrow> put_result list who" where
  "publish_json sx ws publicationDay summaryRefresh homepageSummary =
     wh_bind (wh_res (buildR2PublishPlan publicationDay (wc_connectorId (ws_config ws))
         (jget summaryRefresh ''calendar_year''))) (\<lambda>plan.
       let body = stableJson homepageSummary; logicalHash = sv_sha256 (sx_source sx) (stableJson (logicalSummary homepageSummary))
       in wh_bind (putR2ObjectIfChanged sx (pp_datedSummaryKey plan) body logicalHash) (\<lambda>dated.
          wh_bind (putR2ObjectIfChanged sx (pp_latestSummaryKey plan) body logicalHash) (\<lambda>latest.
            wh_ret [dated, latest])))"

definition summary_of_puts :: "put_result list \<Rightarrow> publish_summary" where
  "summary_of_puts results =
     \<lparr>ps_checked = List.map pu_key results, ps_updated = List.map pu_key (filter pu_updated results),
      ps_unchanged = List.map pu_key (filter (\<lambda>r. \<not> pu_updated r) results),
      ps_bytesUpdated = sum_list (List.map pu_bytes (filter pu_updated results))\<rparr>"

definition publishOutputs :: "services \<Rightarrow> who_settings \<Rightarrow> string \<Rightarrow> jsval list \<Rightarrow> jsval \<Rightarrow> jsval \<Rightarrow> publish_summary who" where
  "publishOutputs sx ws publicationDay usable summaryRefresh homepageSummary =
     (if ws_r2 ws = None then wh_ret no_publication
      else
      wh_bind (if wc_parquetR2WriteEnabled (ws_config ws) then publish_parquet sx ws publicationDay usable else wh_ret []) (\<lambda>parquet.
      wh_bind (if wc_r2PublishEnabled (ws_config ws)
          then publish_json sx ws publicationDay summaryRefresh homepageSummary else wh_ret []) (\<lambda>json.
        wh_ret (summary_of_puts (parquet @ json)))))"

section \<open>A run\<close>

text \<open>The loops over days return (lemmas list_days_returns and day_chunks_returns), so the other case does not occur.\<close>

definition returned :: "'a res option \<Rightarrow> 'a res" where
  "returned r = (case r of Some x \<Rightarrow> x | None \<Rightarrow> Inl RangeError)"

definition run_backfill :: "services \<Rightarrow> who_settings \<Rightarrow> unit who" where
  "run_backfill sx ws =
     wh_bind (wh_res (returned (listDaysInclusive (wc_startDayUtc (ws_config ws)) (wc_endDayUtc (ws_config ws))))) (\<lambda>days.
     wh_bind (wh_each (backfill_day sx ws) days) (\<lambda>_.
     wh_upd (\<lambda>s.
       let day = selectNewestUsablePublicationDay (wr_sources s) in
       if day = None
       then s\<lparr>wr_publication_day := None, wr_decision_reason := Some ''no_usable_backfill_publication_day'',
         wr_warnings := wr_warnings s @ [''Backfill completed without a usable publication day; publication-dependent summaries and R2 outputs were skipped.'']\<rparr>
       else if day \<noteq> Some (wc_endDayUtc (ws_config ws))
       then s\<lparr>wr_publication_day := day,
         wr_decision_reason := Some ''backfill_end_day_unusable_selected_newest_usable_day''\<rparr>
       else s\<lparr>wr_publication_day := day\<rparr>)))"

definition run_daily :: "services \<Rightarrow> who_settings \<Rightarrow> unit who" where
  "run_daily sx ws =
     wh_bind (wh_res (returned (listDaysInclusive (wc_startDayUtc (ws_config ws)) (wc_endDayUtc (ws_config ws))))) (\<lambda>days.
     wh_bind (wh_each (daily_day sx ws) days) (\<lambda>_.
     wh_upd (\<lambda>s.
       let day = selectNewestUsablePublicationDay (wr_sources s)
       in s\<lparr>wr_publication_day := day,
         wr_decision_reason := (if day = None then Some ''no_usable_daily_publication_day'' else wr_decision_reason s)\<rparr>)))"

definition run_dry :: "services \<Rightarrow> who_settings \<Rightarrow> unit who" where
  "run_dry sx ws =
     wh_bind (wh_res (returned (buildDayChunks (wc_startDayUtc (ws_config ws)) (wc_endDayUtc (ws_config ws))
         (wc_chunkDays (ws_config ws))))) (\<lambda>chunks.
     wh_bind (wh_each (dry_chunk sx ws) chunks) (\<lambda>_.
     wh_upd (\<lambda>s. s\<lparr>wr_publication_day := Some (wc_endDayUtc (ws_config ws))\<rparr>)))"

definition refresh_summary :: "services \<Rightarrow> who_settings \<Rightarrow> string \<Rightarrow> unit who" where
  "refresh_summary sx ws publicationDay =
     wh_bind (wh_res (buildSummaryRefreshPayload (ws_config ws) publicationDay)) (\<lambda>payload.
     wh_bind (post_data sx ws (ws_summaryRefreshRpc ws) payload ''summary refresh RPC failed: '') (\<lambda>d.
     wh_bind (wh_upd (\<lambda>s. s\<lparr>wr_summary := js_or (first_of (parseRows d)) Null\<rparr>)) (\<lambda>_.
     wh_bind (wh_get wr_summary) (\<lambda>row.
       if row = Null then wh_error ''summary refresh RPC returned no row''
       else wh_upd (\<lambda>s. s\<lparr>wr_summary_completed := True\<rparr>)))))"

definition publish_run :: "services \<Rightarrow> who_settings \<Rightarrow> string \<Rightarrow> unit who" where
  "publish_run sx ws publicationDay =
     wh_bind (wh_get (\<lambda>s. (wr_summary s, usable_days (wr_sources s)))) (\<lambda>(row, usable).
       let homepageSummary = jget row ''homepage_summary'' in
       if row = Null \<or> \<not> js_truthy homepageSummary
       then wh_error ''R2 publication requires summary refresh and homepage_summary''
       else wh_bind (publishOutputs sx ws publicationDay usable row homepageSummary) (\<lambda>p.
         wh_upd (\<lambda>s. s\<lparr>wr_publish := p\<rparr>)))"

definition outcome_of_run :: "who_config \<Rightarrow> daily_summary \<Rightarrow> who_run \<Rightarrow> string" where
  "outcome_of_run c daily s =
     (if wc_runMode c \<noteq> DryRun \<and> wr_publication_day s = None then ''deferred''
      else if wc_dryRun c then ''unchanged''
      else if wc_r2PublishEnabled c \<or> wc_parquetR2WriteEnabled c
      then (if ps_updated (wr_publish s) \<noteq> [] then ''updated'' else ''unchanged'')
      else if num_lt (Fin 0) (num_add (num_add (ds_rows_upserted daily)
          (number_or_zero (jget (wr_summary s) ''rolling_rows_upserted'')))
          (number_or_zero (jget (wr_summary s) ''calendar_rows_upserted'')))
      then ''updated'' else ''unchanged'')"

text \<open>The body of the try block, once the settings have been read.\<close>

definition run_body :: "services \<Rightarrow> who_settings \<Rightarrow> unit who" where
  "run_body sx ws =
     (let c = ws_config ws in
      wh_bind (wh_upd (\<lambda>s. s\<lparr>wr_latest_complete_day := Some (wc_latestCompleteDayUtc c)\<rparr>)) (\<lambda>_.
      wh_bind (wh_res (if wc_runMode c = DailyRun then addDays (wc_latestCompleteDayUtc c) (Fin (- 1))
          else Inr (wc_startDayUtc c))) (\<lambda>correction.
      wh_bind (wh_upd (\<lambda>s. s\<lparr>wr_correction_day := Some correction\<rparr>)) (\<lambda>_.
      wh_bind (case wc_runMode c of
          BackfillRun \<Rightarrow> run_backfill sx ws | DailyRun \<Rightarrow> run_daily sx ws | DryRun \<Rightarrow> run_dry sx ws) (\<lambda>_.
      wh_bind (wh_get (\<lambda>s. mergeDailyRefreshRows (wr_rows s))) (\<lambda>merged.
      wh_bind (wh_res merged) (\<lambda>daily.
      wh_bind (wh_get wr_publication_day) (\<lambda>publicationDay.
      wh_bind (case publicationDay of
          Some d \<Rightarrow> if wc_summaryRefreshEnabled c then refresh_summary sx ws d else wh_ret ()
        | None \<Rightarrow> wh_ret ()) (\<lambda>_.
      wh_bind (case publicationDay of
          Some d \<Rightarrow> if \<not> wc_dryRun c \<and> (wc_r2PublishEnabled c \<or> wc_parquetR2WriteEnabled c)
            then publish_run sx ws d else wh_ret ()
        | None \<Rightarrow> wh_ret ()) (\<lambda>_.
      wh_upd (\<lambda>s. s\<lparr>wr_outcome := outcome_of_run c daily s\<rparr>)))))))))))"

section \<open>The record of a run\<close>

fun run_mode_text :: "run_mode \<Rightarrow> string" where
  "run_mode_text DailyRun = ''daily''"
| "run_mode_text BackfillRun = ''backfill''"
| "run_mode_text DryRun = ''dry_run''"

fun trigger_mode_text :: "trigger_mode \<Rightarrow> string" where
  "trigger_mode_text SchedulerTrigger = ''scheduler''"
| "trigger_mode_text ManualTrigger = ''manual''"
| "trigger_mode_text TestTrigger = ''test''"

definition text_array :: "string list \<Rightarrow> jsval" where
  "text_array xs = JArr (List.map JStr xs)"

definition null_or_text :: "string option \<Rightarrow> jsval" where
  "null_or_text x = (case x of None \<Rightarrow> Null | Some s \<Rightarrow> JStr s)"

fun readiness_object :: "readiness_record \<Rightarrow> jsval" where
  "readiness_object (ReadinessChecked r) =
     JObj [(''checked'', JBool (rd_checked r)), (''ready'', JBool (rd_ready r)),
       (''already_completed'', JBool (rd_already_completed r)), (''as_of_day_utc'', JStr (rd_as_of_day_utc r)),
       (''final_hour_observed_at'', rd_final_hour_observed_at r), (''pollutant_rows'', JArr (rd_pollutant_rows r))]"
| "readiness_object (ReadinessFailed m) =
     JObj [(''checked'', JBool True), (''ready'', JBool False), (''error'', errorRecord m)]"

definition source_object :: "source_result \<Rightarrow> jsval" where
  "source_object r =
     JObj [(''day_utc'', sr_day_utc r), (''source'', JStr (sr_source r)),
       (''boundary_source'', null_or_text (sr_boundary_source r)),
       (''calculation_status'', JStr (sr_calculation_status r)), (''valid_timeseries_days'', sr_valid_timeseries_days r),
       (''not_enough_data_timeseries_days'', sr_not_enough_data_timeseries_days r),
       (''rows_upserted'', sr_rows_upserted r), (''prepared_daily_row_count'', JInt (sr_prepared_daily_row_count r)),
       (''reasons'', text_array (sr_reasons r)), (''error'', null_or_text (sr_error r))]"

definition validation_result :: "who_run \<Rightarrow> string" where
  "validation_result s =
     (if wr_validation_failed s then ''failed'' else if 0 < re_objectCount (wr_evidence s) then ''passed'' else ''not_run'')"

definition processing_summary :: "who_config \<Rightarrow> who_run \<Rightarrow> jsval" where
  "processing_summary c s =
     JObj [(''phase_3_completed'', JBool (js_truthy (wr_summary s))), (''operational_outcome'', JStr (wr_outcome s)),
       (''publication_as_of_day_utc'', null_or_text (wr_publication_day s)),
       (''publication_decision_reason'', null_or_text (wr_decision_reason s)),
       (''publication_eligible_days'', JArr (usable_days (wr_sources s))),
       (''correction_day_utc'', null_or_text (wr_correction_day s)),
       (''readiness'', JObj (List.map (\<lambda>kr. (fst kr, readiness_object (snd kr))) (wr_readiness s))),
       (''source_mode'', JStr (if wc_runMode c = BackfillRun then ''source_aware_backfill'' else ''source_priority'')),
       (''daily_sources'', JArr (List.map source_object (wr_sources s))),
       (''completed_days'', text_array (wr_completed s)),
       (''last_completed_day'', if wr_completed s = [] then Null else JStr (last (wr_completed s))),
       (''failed_day'', null_or_text (wr_failed_day s)),
       (''summary_refresh_requested'', JBool (wc_summaryRefreshEnabled c)),
       (''summary_refresh_completed'', JBool (wr_summary_completed s)),
       (''r2_manifest_keys'', text_array (re_manifestKeys (wr_evidence s))),
       (''r2_manifest_hashes_validated'', JInt (re_manifestHashesValidated (wr_evidence s))),
       (''r2_parquet_hashes_validated'', JInt (re_parquetHashesValidated (wr_evidence s))),
       (''r2_validation_result'', JStr (validation_result s)), (''r2_object_count'', JInt (re_objectCount (wr_evidence s))),
       (''r2_bytes_read'', JInt (re_bytesRead (wr_evidence s))),
       (''r2_parquet_row_count'', JInt (re_parquetRowCount (wr_evidence s))),
       (''prepared_daily_row_count'', JInt (re_preparedDailyRowCount (wr_evidence s))),
       (''r2_objects_checked'', text_array (ps_checked (wr_publish s))),
       (''r2_objects_updated'', text_array (ps_updated (wr_publish s))),
       (''r2_objects_unchanged'', text_array (ps_unchanged (wr_publish s))),
       (''r2_bytes_updated'', JInt (ps_bytesUpdated (wr_publish s))),
       (''homepage_summary'', js_or (jget (wr_summary s) ''homepage_summary'') Null)]"

definition run_log_payload ::
  "who_config \<Rightarrow> int \<Rightarrow> int \<Rightarrow> who_error option \<Rightarrow> daily_summary \<Rightarrow> who_run \<Rightarrow> jsval" where
  "run_log_payload c startedAt finishedAt captured daily s =
     JObj [(''p_run_mode'', JStr (run_mode_text (wc_runMode c))),
       (''p_trigger_mode'', JStr (trigger_mode_text (wc_triggerMode c))),
       (''p_source_network_code'', JStr (wc_sourceNetworkCode c)), (''p_pollutant_codes'', codes_array (wc_pollutantCodes c)),
       (''p_window_start_day_utc'', JStr (wc_startDayUtc c)), (''p_window_end_day_utc'', JStr (wc_endDayUtc c)),
       (''p_latest_complete_day_utc'', JStr (case wr_latest_complete_day s of
          None \<Rightarrow> wc_endDayUtc c | Some d \<Rightarrow> if d = [] then wc_endDayUtc c else d)),
       (''p_run_status'', JStr (if captured \<noteq> None then ''error'' else if wc_dryRun c then ''dry_run'' else ''ok'')),
       (''p_daily_rows_upserted'', JNum (ds_rows_upserted daily)),
       (''p_rolling_rows_upserted'', JNum (number_or_zero (jget (wr_summary s) ''rolling_rows_upserted''))),
       (''p_calendar_rows_upserted'', JNum (number_or_zero (jget (wr_summary s) ''calendar_rows_upserted''))),
       (''p_summary_json'', processing_summary c s),
       (''p_error_json'', case captured of None \<Rightarrow> Null | Some e \<Rightarrow> errorRecord (who_message e)),
       (''p_started_at'', JStr (to_iso startedAt)), (''p_finished_at'', JStr (to_iso finishedAt))]"

definition logProcessingRun :: "services \<Rightarrow> who_settings \<Rightarrow> jsval \<Rightarrow> string who" where
  "logProcessingRun sx ws payload =
     wh_bind (post_data sx ws (ws_runLogRpc ws) payload ''processing run log RPC failed: '') (\<lambda>d.
       case jget (first_of (parseRows d)) ''run_id'' of
         JStr runId \<Rightarrow> if runId = [] then wh_error ''processing run log RPC returned no run_id'' else wh_ret runId
       | _ \<Rightarrow> wh_error ''processing run log RPC returned no run_id'')"

section \<open>The program\<close>

text \<open>
  What a run leaves behind: its error, if any, and the identifier of its record. The rows are merged a second time
  after the catch clause, where an error ends the program without a record.
\<close>

record who_result =
  wx_error :: "who_error option"
  wx_run_id :: "string option"

definition initial_run :: "(string, bucket_object) jsmap \<Rightarrow> who_run" where
  "initial_run bucket =
     \<lparr>wr_requests = [], wr_bucket = bucket, wr_operations = 0, wr_warnings = [], wr_readiness = jm_empty, wr_sources = [],
      wr_completed = [], wr_rows = [], wr_evidence = emptyR2RunEvidence, wr_failed_day = None, wr_validation_failed = False,
      wr_target_source = ''unavailable'', wr_boundary_source = None, wr_latest_complete_day = None,
      wr_correction_day = None, wr_publication_day = None, wr_decision_reason = None, wr_summary = Null,
      wr_summary_completed = False, wr_publish = no_publication, wr_outcome = ''failed''\<rparr>"

text \<open>The body with the clause that catches its error.\<close>

definition attempt_run :: "services \<Rightarrow> who_settings \<Rightarrow> who_run \<Rightarrow> who_error option \<times> who_run" where
  "attempt_run sx ws s =
     (case run_body sx ws s of
        (Inl e, s') \<Rightarrow> (Some e, s'\<lparr>wr_outcome := ''failed''\<rparr>)
      | (Inr _, s') \<Rightarrow> (None, s'))"

definition log_run :: "services \<Rightarrow> who_settings \<Rightarrow> int \<Rightarrow> int \<Rightarrow> who_error option \<Rightarrow> daily_summary \<Rightarrow> who_run \<Rightarrow>
    who_result \<times> who_run" where
  "log_run sx ws startedAt finishedAt captured daily s =
     (case logProcessingRun sx ws (run_log_payload (ws_config ws) startedAt finishedAt captured daily s) s of
        (Inr runId, s') \<Rightarrow> (\<lparr>wx_error = captured, wx_run_id = Some runId\<rparr>, s')
      | (Inl e, s') \<Rightarrow>
          (case captured of
             None \<Rightarrow> (\<lparr>wx_error = Some e, wx_run_id = None\<rparr>, s'\<lparr>wr_outcome := ''failed''\<rparr>)
           | Some c \<Rightarrow> (\<lparr>wx_error = Some c, wx_run_id = None\<rparr>, s'\<lparr>wr_outcome := ''failed'',
               wr_warnings := wr_warnings s' @ [''Processing-run logging also failed: '' @ take 1000 (who_message e)]\<rparr>)))"

definition runWho2021Daily :: "services \<Rightarrow> environment \<Rightarrow> int \<Rightarrow> int \<Rightarrow> int \<Rightarrow> (string, bucket_object) jsmap \<Rightarrow>
    who_result \<times> who_run" where
  "runWho2021Daily sx env startedAt now finishedAt bucket =
     (case readSettings env now of
        Inl e \<Rightarrow> (\<lparr>wx_error = Some (PlainError e), wx_run_id = None\<rparr>, initial_run bucket)
      | Inr ws \<Rightarrow>
          (case attempt_run sx ws (initial_run bucket) of
             (captured, s) \<Rightarrow>
               (case mergeDailyRefreshRows (wr_rows s) of
                  Inl e \<Rightarrow> (\<lparr>wx_error = Some (PlainError e), wx_run_id = None\<rparr>, s)
                | Inr daily \<Rightarrow> log_run sx ws startedAt finishedAt captured daily s)))"

end
