(* ===== verification/WhoCalendar.thy ===== *)
theory WhoCalendar
  imports WhoDays
begin

text \<open>
  Days as numbers: the days that the code accepts are the texts of the day numbers whose year has four digits, its
  comparisons are those of the numbers, adding days is addition, and the loops over days return with the days
  and chunks that they are meant to give.
\<close>

section \<open>Days with a year of four digits\<close>

definition valid_day :: "int \<Rightarrow> bool" where
  "valid_day n \<longleftrightarrow> 0 \<le> year_of_day n \<and> year_of_day n \<le> 9999"

definition first_day :: int where "first_day = - 719528"
definition last_day :: int where "last_day = 2932896"

lemma valid_day_iff: "valid_day n \<longleftrightarrow> first_day \<le> n \<and> n \<le> last_day"
proof -
  have e: "year_of_day (- 719528) = 0" "year_of_day (- 719529) = - 1" "year_of_day 2932896 = 9999"
    "year_of_day 2932897 = 10000"
    by (simp_all add: year_of_day_def day_from_year_def)
  show ?thesis
    using e year_of_day_mono [of "- 719528" n] year_of_day_mono [of n "- 719529"] year_of_day_mono [of n 2932896]
      year_of_day_mono [of 2932897 n]
    unfolding valid_day_def first_day_def last_day_def by linarith
qed

lemma valid_day_between: "valid_day a \<Longrightarrow> valid_day b \<Longrightarrow> a \<le> n \<Longrightarrow> n \<le> b \<Longrightarrow> valid_day n"
  by (simp add: valid_day_iff)

lemma valid_day_bound: "valid_day n \<Longrightarrow> \<bar>n\<bar> \<le> 2932896"
  by (simp add: valid_day_iff first_day_def last_day_def abs_le_iff)

lemma iso_day_less_iff: "valid_day a \<Longrightarrow> valid_day b \<Longrightarrow> iso_day a < iso_day b \<longleftrightarrow> a < b"
  using iso_day_less [of a b] iso_day_less [of b a] by (cases a b rule: linorder_cases) (auto simp: valid_day_def)

lemma iso_day_inj: "valid_day a \<Longrightarrow> valid_day b \<Longrightarrow> iso_day a = iso_day b \<longleftrightarrow> a = b"
  using iso_day_less [of a b] iso_day_less [of b a] by (cases a b rule: linorder_cases) (auto simp: valid_day_def)

lemma midnight_parse: "valid_day n \<Longrightarrow> date_parse (midnight_text (iso_day n)) = Some (n * MS_DAY)"
  by (simp add: midnight_text_def date_parse_midnight valid_day_def)

lemma take_iso_midnight: "valid_day n \<Longrightarrow> take 10 (to_iso (n * MS_DAY)) = iso_day n"
  using iso_day_length [of n] by (simp add: to_iso_midnight valid_day_def)

lemma list_all2_shape: "of_shape ''dddd-dd-dd'' s \<longleftrightarrow> (\<exists>a b c d e f g h. s = [a, b, c, d, CHR ''-'', e, f, CHR ''-'', g, h]
    \<and> list_all is_digit [a, b, c, d, e, f, g, h])"
  unfolding of_shape_def by (auto simp: list_all2_Cons1)

lemma iso_day_shape:
  assumes "valid_day n"
  shows "of_shape ''dddd-dd-dd'' (iso_day n)"
proof -
  obtain y m d where c: "civil_of_day n = (y, m, d)" by (metis prod_cases3)
  have y: "0 \<le> y" "y \<le> 9999" using assms c by (auto simp: valid_day_def civil_of_day_def Let_def)
  have p: "\<exists>u v. pad 2 k = [u, v] \<and> is_digit u \<and> is_digit v" for k
    using pad_digits [of 2 k] length_pad [of 2 k] by (auto simp: numeral_2_eq_2 length_Suc_conv simp del: pad_digits length_pad)
  have q: "\<exists>u v w x. pad 4 k = [u, v, w, x] \<and> is_digit u \<and> is_digit v \<and> is_digit w \<and> is_digit x" for k
    using pad_digits [of 4 k] length_pad [of 4 k]
    by (auto simp: eval_nat_numeral length_Suc_conv simp del: pad_digits length_pad)
  show ?thesis
    using p [of m] p [of d] q [of y] y by (auto simp: iso_day_def c iso_year_def list_all2_shape)
qed

lemma assertIsoDay_iso [simp]: "valid_day n \<Longrightarrow> assertIsoDay (iso_day n) label = Inr ()"
  by (simp add: assertIsoDay_def iso_day_shape midnight_parse take_iso_midnight)

lemma assertIsoDay_ok:
  assumes "assertIsoDay d label = Inr u"
  shows "\<exists>n. valid_day n \<and> d = iso_day n"
proof -
  have r: "of_shape ''dddd-dd-dd'' d" using assms by (auto simp: assertIsoDay_def split: if_splits)
  obtain t where t: "date_parse (midnight_text d) = Some t" "take 10 (to_iso t) = d"
    using assms by (auto simp: assertIsoDay_def split: if_splits option.splits)
  have "length d = 10" "is_digit (d ! 0)" using r by (auto simp: list_all2_shape)
  with iso_midnight [OF t(1) [unfolded midnight_text_def] t(2)] show ?thesis by (auto simp: valid_day_def)
qed

lemma assertIsoDay_cases:
  obtains (day) n where "valid_day n" "d = iso_day n" | (bad) "\<forall>label. \<exists>e. assertIsoDay d label = Inl e"
proof (cases "\<exists>n. valid_day n \<and> d = iso_day n")
  case False
  then have "\<forall>label. \<exists>e. assertIsoDay d label = Inl e" using assertIsoDay_ok by (metis old.sum.exhaust)
  with bad show ?thesis by blast
qed (use day in blast)

text \<open>The day after 9999-12-31, cut to ten characters, is not a day.\<close>

lemma assertIsoDay_outside:
  assumes "\<not> valid_day n"
  shows "\<exists>e. assertIsoDay (take 10 (iso_day n)) label = Inl e"
proof -
  have "\<exists>c s. iso_day n = c # s \<and> \<not> is_digit c"
    using assms
    by (auto simp: iso_day_def iso_year_def valid_day_def civil_of_day_def Let_def is_digit_def not_le split: prod.splits)
  then have "\<not> of_shape ''dddd-dd-dd'' (take 10 (iso_day n))"
    by (auto simp: list_all2_shape)
  then show ?thesis by (auto simp: assertIsoDay_def)
qed

section \<open>Arithmetic of days\<close>

lemma compareIsoDay_iso:
  "valid_day a \<Longrightarrow> valid_day b \<Longrightarrow> compareIsoDay (iso_day a) (iso_day b) = Inr (if a < b then - 1 else if b < a then 1 else 0)"
  by (simp add: compareIsoDay_def iso_day_less_iff)

lemma compareIsoDay_outside: "\<not> valid_day a \<Longrightarrow> \<exists>e. compareIsoDay (take 10 (iso_day a)) d = Inl e"
  using assertIsoDay_outside [of a "''a''"] by (auto simp: compareIsoDay_def)

lemma minIsoDay_iso: "valid_day a \<Longrightarrow> valid_day b \<Longrightarrow> minIsoDay (iso_day a) (iso_day b) = Inr (iso_day (min a b))"
  by (auto simp: minIsoDay_def compareIsoDay_iso min_def)

lemma minIsoDay_outside: "\<not> valid_day a \<Longrightarrow> \<exists>e. minIsoDay (take 10 (iso_day a)) d = Inl e"
  using compareIsoDay_outside [of a d] by (auto simp: minIsoDay_def)

lemma toIsoDay_midnight:
  "toIsoDay (time_clip (m * MS_DAY)) = (if \<bar>m\<bar> \<le> 100000000 then Inr (take 10 (iso_day m)) else Inl RangeError)"
proof -
  have "\<bar>m * MS_DAY\<bar> \<le> MAX_TIME \<longleftrightarrow> \<bar>m\<bar> \<le> 100000000" by (auto simp: ms_defs abs_le_iff)
  then have "time_clip (m * MS_DAY) = (if \<bar>m\<bar> \<le> 100000000 then Some (m * MS_DAY) else None)"
    unfolding time_clip_def by presburger
  moreover have "take 10 (to_iso (m * MS_DAY)) = take 10 (iso_day m)"
  proof -
    have "10 \<le> length (iso_day m)"
      by (cases "civil_of_day m") (auto simp: iso_day_def iso_year_def)
    then show ?thesis by (simp add: to_iso_midnight)
  qed
  ultimately show ?thesis by (simp add: toIsoDay_def)
qed

lemma rat_trunc_int [simp]: "rat_trunc (of_int n) = n"
  by (simp add: rat_trunc_def)

lemma take_iso_day: "valid_day n \<Longrightarrow> take 10 (iso_day n) = iso_day n"
  using iso_day_length [of n] by (simp add: valid_day_def)

lemma addDays_exact:
  assumes "valid_day n" "\<bar>k\<bar> \<le> 101000000"
  shows "addDays (iso_day n) (Fin (of_int k)) =
    (if \<bar>n + k\<bar> \<le> 100000000 then Inr (take 10 (iso_day (n + k))) else Inl RangeError)"
proof -
  have b: "\<bar>k * MS_DAY\<bar> < 2 ^ 53" "\<bar>n * MS_DAY + k * MS_DAY\<bar> < 2 ^ 53"
    using assms valid_day_bound [OF assms(1)] by (auto simp: MS_DAY_def)
  have m: "num_mul (Fin (of_int k)) (Fin (of_int MS_DAY)) = Fin (of_int (k * MS_DAY))"
    using to_double_int [OF b(1)] by simp
  have "num_add (Fin (of_int (n * MS_DAY))) (Fin (of_int (k * MS_DAY))) = Fin (of_int ((n + k) * MS_DAY))"
    using to_double_int [OF b(2)] by (simp add: distrib_right)
  then show ?thesis
    using assms(1) by (simp add: addDays_def midnight_parse m date_of_num_def toIsoDay_midnight del: num_add.simps num_mul.simps of_int_mult)
qed

lemma addDays_iso:
  assumes "valid_day n" "valid_day (n + k)"
  shows "addDays (iso_day n) (Fin (of_int k)) = Inr (iso_day (n + k))"
  using addDays_exact [OF assms(1), of k] valid_day_bound [OF assms(1)] valid_day_bound [OF assms(2)]
  by (simp add: take_iso_day [OF assms(2)])

lemma addDays_one:
  "valid_day n \<Longrightarrow> addDays (iso_day n) (Fin 1) = Inr (take 10 (iso_day (n + 1)))"
  using addDays_exact [of n 1] valid_day_bound [of n] by simp

section \<open>The days of a range\<close>

lemma list_days_iso:
  assumes "valid_day b" "b < last_day" "valid_day a"
  shows "list_days (iso_day a) (iso_day b) = Some (Inr (List.map iso_day [a..b]))"
  using assms(3)
proof (induction "nat (b + 1 - a)" arbitrary: a)
  case 0
  then show ?case by (simp add: list_days.simps [of "iso_day a"] compareIsoDay_iso assms)
next
  case (Suc m)
  show ?case
  proof (cases "b < a")
    case True
    then show ?thesis using Suc.prems by (simp add: list_days.simps [of "iso_day a"] compareIsoDay_iso assms)
  next
    case False
    then have v: "valid_day (a + 1)" using Suc.prems assms by (simp add: valid_day_iff)
    have "list_days (iso_day (a + 1)) (iso_day b) = Some (Inr (List.map iso_day [a + 1..b]))"
      using Suc.hyps(1) [of "a + 1"] Suc.hyps(2) v by simp
    then show ?thesis
      using False Suc.prems v
      by (subst list_days.simps) (simp add: compareIsoDay_iso assms addDays_one take_iso_day upto_rec1)
  qed
qed

lemma list_days_end:
  assumes "valid_day a"
  shows "\<exists>e. list_days (iso_day a) (iso_day last_day) = Some (Inl e)"
  using assms
proof (induction "nat (last_day - a)" arbitrary: a)
  case 0
  have v: "valid_day last_day" "\<not> valid_day (last_day + 1)" by (simp_all add: valid_day_iff first_day_def last_day_def)
  have a: "a = last_day" using 0 by (simp add: valid_day_iff)
  obtain e where "compareIsoDay (take 10 (iso_day (last_day + 1))) (iso_day last_day) = Inl e"
    using compareIsoDay_outside [OF v(2)] by blast
  then have "list_days (take 10 (iso_day (last_day + 1))) (iso_day last_day) = Some (Inl e)"
    by (subst list_days.simps) simp
  then show ?case
    unfolding a by (subst list_days.simps) (simp add: compareIsoDay_iso v addDays_one)
next
  case (Suc m)
  have v: "valid_day last_day" "valid_day (a + 1)" using Suc by (auto simp: valid_day_iff first_day_def last_day_def)
  have "m = nat (last_day - (a + 1))" using Suc.hyps(2) by linarith
  then obtain e where "list_days (iso_day (a + 1)) (iso_day last_day) = Some (Inl e)"
    using Suc.hyps(1) [of "a + 1"] v(2) by blast
  then show ?case
    using Suc.hyps(2) Suc.prems v
    by (subst list_days.simps) (simp add: compareIsoDay_iso addDays_one take_iso_day)
qed

lemma list_days_returns:
  assumes "valid_day a" "valid_day b"
  shows "\<exists>r. list_days (iso_day a) (iso_day b) = Some r"
proof (cases "b = last_day")
  case True
  then show ?thesis using list_days_end [OF assms(1)] by blast
next
  case False
  then show ?thesis using list_days_iso [OF assms(2) _ assms(1)] assms by (auto simp: valid_day_iff)
qed

lemma listDaysInclusive_returns: "\<exists>r. listDaysInclusive d e = Some r"
proof (cases d rule: assertIsoDay_cases)
  case (day a)
  show ?thesis
  proof (cases e rule: assertIsoDay_cases)
    case day': (day b)
    then show ?thesis using day list_days_returns [of a b] by (auto simp: listDaysInclusive_def compareIsoDay_iso)
  next
    case bad
    then obtain x where "assertIsoDay e ''endDayUtc'' = Inl x" by blast
    then show ?thesis using day by (simp add: listDaysInclusive_def)
  qed
next
  case bad
  then obtain x where "assertIsoDay d ''startDayUtc'' = Inl x" by blast
  then show ?thesis by (simp add: listDaysInclusive_def)
qed

lemma listDaysInclusive_iso:
  assumes "valid_day a" "valid_day b" "a \<le> b" "b < last_day"
  shows "listDaysInclusive (iso_day a) (iso_day b) = Some (Inr (List.map iso_day [a..b]))"
  using assms by (simp add: listDaysInclusive_def compareIsoDay_iso list_days_iso)

lemma listDaysInclusive_ok:
  assumes "listDaysInclusive d e = Some (Inr days)"
  obtains a b where "valid_day a" "valid_day b" "a \<le> b" "b < last_day" "d = iso_day a" "e = iso_day b"
    "days = List.map iso_day [a..b]"
proof -
  obtain u v where "assertIsoDay d ''startDayUtc'' = Inr u" "assertIsoDay e ''endDayUtc'' = Inr v"
    using assms by (auto simp: listDaysInclusive_def split: sum.splits)
  then obtain a b where ab: "valid_day a" "valid_day b" "d = iso_day a" "e = iso_day b"
    using assertIsoDay_ok by metis
  have le: "a \<le> b" using assms ab by (auto simp: listDaysInclusive_def compareIsoDay_iso split: if_splits)
  then have ld: "list_days (iso_day a) (iso_day b) = Some (Inr days)"
    using assms ab by (simp add: listDaysInclusive_def compareIsoDay_iso split: if_splits)
  have "b < last_day"
  proof (rule ccontr)
    assume "\<not> b < last_day"
    then have "b = last_day" using ab by (simp add: valid_day_iff)
    then show False using list_days_end [OF ab(1)] ld by simp
  qed
  then show thesis using that ab le listDaysInclusive_iso [of a b] assms by simp
qed


section \<open>Chunks\<close>

lemma to_double_ge:
  assumes "1 \<le> x"
  shows "to_double x = PInf \<or> (\<exists>y. to_double x = Fin y \<and> x - x / 2 ^ 53 \<le> y)"
proof -
  have "pow2 (- 1000) \<le> pow2 0" by (rule pow2_mono) simp
  then have "\<bar>rnd x - x\<bar> \<le> x / 2 ^ 53" using assms by (intro rnd_error) (auto simp: pow2_def)
  then have y: "x - x / 2 ^ 53 \<le> rnd x" by linarith
  have "x / 2 ^ 53 \<le> x" using assms by (simp add: divide_le_eq)
  then have "\<not> rnd x \<le> - pow2 1024" using y pow2_pos [of 1024] by linarith
  then show ?thesis using y by (auto simp: to_double_def Let_def)
qed

lemma chunk_size_cases:
  "chunk_size c = NaN \<or> chunk_size c = PInf \<or> (\<exists>k \<ge> 1. chunk_size c = Fin (of_int k))"
proof (cases c)
  case (Fin x)
  show ?thesis
  proof (cases "1 < rat_trunc x")
    case True
    then have "(1::rat) < of_int (rat_trunc x)" by (metis of_int_1 of_int_less_iff)
    then have "chunk_size c = Fin (of_int (rat_trunc x))" using Fin by (simp add: chunk_size_def)
    then show ?thesis using True by auto
  next
    case False
    then have "\<not> (1::rat) < of_int (rat_trunc x)" by (metis of_int_1 of_int_less_iff)
    then have "chunk_size c = Fin (of_int 1)" using Fin by (simp add: chunk_size_def)
    then show ?thesis by blast
  qed
qed (auto simp: chunk_size_def)

text \<open>A number of days that is far too large leads past the last time.\<close>

lemma far_time:
  assumes "8726400000000000 - 100000000 \<le> z" "valid_day n"
  shows "toIsoDay (date_of_num (num_add (Fin (of_int (n * MS_DAY))) (Fin z))) = Inl RangeError"
proof -
  define x where "x = of_int (n * MS_DAY) + z"
  have "- 62200000000000 \<le> n * MS_DAY"
    using assms(2) by (simp add: valid_day_iff first_day_def MS_DAY_def)
  then have "(of_int (- 62200000000000) :: rat) \<le> of_int (n * MS_DAY)" by (simp only: of_int_le_iff)
  then have s: "8664199900000000 \<le> x" using assms(1) by (simp add: x_def)
  consider "to_double x = PInf" | y where "to_double x = Fin y" "x - x / 2 ^ 53 \<le> y"
    using to_double_ge [of x] s by auto
  then show ?thesis
  proof cases
    case 1
    then show ?thesis by (simp add: x_def date_of_num_def toIsoDay_def)
  next
    case 2
    have "8664000000000000 \<le> x - x / 2 ^ 53" using s by (simp add: field_simps)
    then have y: "8664000000000000 \<le> y" using 2 by linarith
    then have "8664000000000000 \<le> \<lfloor>y\<rfloor>" by (simp add: le_floor_iff)
    moreover have "rat_trunc y = \<lfloor>y\<rfloor>" using y by (simp add: rat_trunc_def)
    ultimately have "time_clip (rat_trunc y) = None" by (simp add: time_clip_def MAX_TIME_def)
    then show ?thesis using 2 by (simp add: x_def date_of_num_def toIsoDay_def)
  qed
qed

lemma times_day:
  assumes "101000000 - 1 \<le> y"
  shows "num_mul (Fin y) (Fin (of_int MS_DAY)) = PInf
    \<or> (\<exists>z. num_mul (Fin y) (Fin (of_int MS_DAY)) = Fin z \<and> 8726400000000000 - 100000000 \<le> z)"
proof -
  have x: "8726399913600000 \<le> y * 86400000" using assms by simp
  consider "to_double (y * 86400000) = PInf"
    | z where "to_double (y * 86400000) = Fin z" "y * 86400000 - y * 86400000 / 2 ^ 53 \<le> z"
    using to_double_ge [of "y * 86400000"] x by auto
  then show ?thesis
  proof cases
    case 2
    have "8726400000000000 - 100000000 \<le> y * 86400000 - y * 86400000 / 2 ^ 53" using x by (simp add: field_simps)
    then show ?thesis using 2 by (auto simp: MS_DAY_def)
  qed (simp add: MS_DAY_def)
qed

lemma far_day:
  assumes "valid_day n" "w = NaN \<or> w = PInf \<or> (\<exists>y. w = Fin y \<and> 101000000 - 1 \<le> y)"
  shows "addDays (iso_day n) w = Inl RangeError"
proof -
  have "num_mul w (Fin (of_int MS_DAY)) = NaN \<or> num_mul w (Fin (of_int MS_DAY)) = PInf
      \<or> (\<exists>z. num_mul w (Fin (of_int MS_DAY)) = Fin z \<and> 8726400000000000 - 100000000 \<le> z)"
    using assms(2) times_day by (auto simp: num_inf_def MS_DAY_def simp del: num_mul.simps(1))
  then have "toIsoDay (date_of_num (num_add (Fin (of_int (n * MS_DAY))) (num_mul w (Fin (of_int MS_DAY))))) = Inl RangeError"
  proof (elim disjE exE conjE)
    fix z assume z: "num_mul w (Fin (of_int MS_DAY)) = Fin z" "8726400000000000 - 100000000 \<le> z"
    show ?thesis unfolding z(1) by (rule far_time [OF z(2) assms(1)])
  qed (simp_all add: date_of_num_def toIsoDay_def)
  then show ?thesis using assms(1) by (simp add: addDays_def midnight_parse)
qed

lemma chunk_offset:
  assumes "valid_day n" "1 \<le> k"
  shows "addDays (iso_day n) (num_sub (Fin (of_int k)) (Fin 1)) =
    (if \<bar>n + k - 1\<bar> \<le> 100000000 then Inr (take 10 (iso_day (n + k - 1))) else Inl RangeError)"
proof (cases "k - 1 \<le> 101000000")
  case True
  have "num_sub (Fin (of_int k)) (Fin 1) = Fin (of_int (k - 1))"
    using to_double_int [of "k - 1"] True assms(2) by (simp add: num_sub_def)
  then show ?thesis using addDays_exact [OF assms(1), of "k - 1"] True assms(2) by (simp add: add_diff_eq)
next
  case False
  define x where "x = (of_int (k - 1) :: rat)"
  have "of_int 101000000 \<le> x" using False unfolding x_def of_int_le_iff by simp
  then have x: "101000000 \<le> x" by simp
  have e: "num_sub (Fin (of_int k)) (Fin 1) = to_double x" by (simp add: num_sub_def x_def)
  have "101000000 - 1 \<le> x - x / 2 ^ 53" using x by (simp add: field_simps)
  then have "to_double x = NaN \<or> to_double x = PInf \<or> (\<exists>y. to_double x = Fin y \<and> 101000000 - 1 \<le> y)"
    using to_double_ge [of x] x by fastforce
  then have "addDays (iso_day n) (to_double x) = Inl RangeError" by (rule far_day [OF assms(1)])
  moreover have "100000000 < n + k - 1" using False assms(1) unfolding valid_day_iff first_day_def by linarith
  ultimately show ?thesis by (simp add: e)
qed

text \<open>One step of the loop: it ends, fails, or goes on with a later day.\<close>

lemma day_chunks_step:
  assumes "valid_day a" "valid_day b" "a \<le> b" "1 \<le> k"
  shows "(\<exists>e. day_chunks (iso_day a) (iso_day b) (Fin (of_int k)) = Some (Inl e)) \<or>
    (let m = min (a + k - 1) b in m < last_day \<and> day_chunks (iso_day a) (iso_day b) (Fin (of_int k)) =
      Option.bind (day_chunks (iso_day (m + 1)) (iso_day b) (Fin (of_int k)))
        (\<lambda>r. Some (res_map ((#) (iso_day a, iso_day m)) r)))"
proof -
  consider "\<not> \<bar>a + k - 1\<bar> \<le> 100000000" | "\<bar>a + k - 1\<bar> \<le> 100000000" "\<not> valid_day (a + k - 1)" | "valid_day (a + k - 1)"
    by blast
  then show ?thesis
  proof cases
    case 1
    then have "day_chunks (iso_day a) (iso_day b) (Fin (of_int k)) = Some (Inl RangeError)"
      using assms(3) by (subst day_chunks.simps) (simp add: compareIsoDay_iso chunk_offset assms(1,2,4))
    then show ?thesis by blast
  next
    case 2
    obtain e where "minIsoDay (take 10 (iso_day (a + k - 1))) (iso_day b) = Inl e"
      using minIsoDay_outside [OF 2(2)] by blast
    then have "day_chunks (iso_day a) (iso_day b) (Fin (of_int k)) = Some (Inl e)"
      using 2(1) assms(3) by (subst day_chunks.simps) (simp add: compareIsoDay_iso chunk_offset assms(1,2,4))
    then show ?thesis by blast
  next
    case 3
    define m where "m = min (a + k - 1) b"
    have m: "valid_day m" "\<bar>a + k - 1\<bar> \<le> 100000000"
      using 3 assms valid_day_bound [OF 3] by (auto simp: m_def min_def)
    have step: "day_chunks (iso_day a) (iso_day b) (Fin (of_int k)) =
        Option.bind (day_chunks (take 10 (iso_day (m + 1))) (iso_day b) (Fin (of_int k)))
          (\<lambda>r. Some (res_map ((#) (iso_day a, iso_day m)) r))"
      using m 3 assms
      by (subst day_chunks.simps)
        (simp add: compareIsoDay_iso chunk_offset take_iso_day [OF 3] minIsoDay_iso m_def [symmetric] addDays_one)
    show ?thesis
    proof (cases "m < last_day")
      case True
      then have "valid_day (m + 1)" using m by (simp add: valid_day_iff)
      then show ?thesis using step True by (simp add: take_iso_day m_def [symmetric])
    next
      case False
      then have "\<not> valid_day (m + 1)" by (simp add: valid_day_iff)
      from compareIsoDay_outside [OF this] obtain e where
        "compareIsoDay (take 10 (iso_day (m + 1))) (iso_day b) = Inl e" by blast
      then have "day_chunks (take 10 (iso_day (m + 1))) (iso_day b) (Fin (of_int k)) = Some (Inl e)"
        by (subst day_chunks.simps) simp
      then show ?thesis using step by simp
    qed
  qed
qed

lemma day_chunks_past: "valid_day a \<Longrightarrow> valid_day b \<Longrightarrow> b < a \<Longrightarrow> day_chunks (iso_day a) (iso_day b) w = Some (Inr [])"
  by (subst day_chunks.simps) (simp add: compareIsoDay_iso)

lemma day_chunks_returns:
  assumes "valid_day a" "valid_day b" "1 \<le> k"
  shows "\<exists>r. day_chunks (iso_day a) (iso_day b) (Fin (of_int k)) = Some r"
  using assms(1)
proof (induction "nat (b + 1 - a)" arbitrary: a rule: less_induct)
  case less
  show ?case
  proof (cases "b < a")
    case True
    then show ?thesis using day_chunks_past less.prems assms by blast
  next
    case False
    define m where "m = min (a + k - 1) b"
    have m: "valid_day m" "a \<le> m" "m \<le> b" using False less.prems assms by (auto simp: m_def valid_day_iff min_def)
    from day_chunks_step [OF less.prems assms(2) _ assms(3)] False
    consider "\<exists>e. day_chunks (iso_day a) (iso_day b) (Fin (of_int k)) = Some (Inl e)"
      | "m < last_day" "day_chunks (iso_day a) (iso_day b) (Fin (of_int k)) =
        Option.bind (day_chunks (iso_day (m + 1)) (iso_day b) (Fin (of_int k)))
          (\<lambda>r. Some (res_map ((#) (iso_day a, iso_day m)) r))"
      unfolding Let_def m_def [symmetric] by fastforce
    then show ?thesis
    proof cases
      case 2
      have "valid_day (m + 1)" using m 2(1) by (simp add: valid_day_iff)
      moreover have "nat (b + 1 - (m + 1)) < nat (b + 1 - a)" using m by simp
      ultimately obtain r where "day_chunks (iso_day (m + 1)) (iso_day b) (Fin (of_int k)) = Some r"
        using less.hyps by blast
      then show ?thesis using 2(2) by simp
    qed blast
  qed
qed

text \<open>The chunks follow each other without gap or overlap, and none is longer than the size.\<close>

lemma day_chunks_tile:
  assumes "valid_day a" "valid_day b" "1 \<le> k" "a \<le> b + 1" "day_chunks (iso_day a) (iso_day b) (Fin (of_int k)) = Some (Inr cs)"
  shows "\<exists>ns. cs = List.map (map_prod iso_day iso_day) ns \<and> List.concat (List.map (\<lambda>(x, y). [x..y]) ns) = [a..b]
    \<and> (\<forall>(x, y) \<in> set ns. a \<le> x \<and> x \<le> y \<and> y \<le> b \<and> y - x < k \<and> y < last_day)"
  using assms(1,4,5)
proof (induction "nat (b + 1 - a)" arbitrary: a cs rule: less_induct)
  case less
  show ?case
  proof (cases "b < a")
    case True
    then show ?thesis using day_chunks_past less.prems assms by (intro exI [of _ "[]"]) simp
  next
    case False
    define m where "m = min (a + k - 1) b"
    have m: "valid_day m" "a \<le> m" "m \<le> b" "m - a < k"
      using False less.prems assms by (auto simp: m_def valid_day_iff min_def)
    have s: "m < last_day" "day_chunks (iso_day a) (iso_day b) (Fin (of_int k)) =
        Option.bind (day_chunks (iso_day (m + 1)) (iso_day b) (Fin (of_int k)))
          (\<lambda>r. Some (res_map ((#) (iso_day a, iso_day m)) r))"
      using day_chunks_step [OF less.prems(1) assms(2) _ assms(3)] False less.prems(3)
      unfolding Let_def m_def [symmetric] by auto
    have "Option.bind (day_chunks (iso_day (m + 1)) (iso_day b) (Fin (of_int k)))
        (\<lambda>r. Some (res_map ((#) (iso_day a, iso_day m)) r)) = Some (Inr cs)"
      using s(2) less.prems(3) by simp
    then obtain cs' where cs: "day_chunks (iso_day (m + 1)) (iso_day b) (Fin (of_int k)) = Some (Inr cs')"
      "cs = (iso_day a, iso_day m) # cs'"
      unfolding bind_eq_Some_conv by (auto simp: res_map_Inr)
    have v: "valid_day (m + 1)" "m + 1 \<le> b + 1" "nat (b + 1 - (m + 1)) < nat (b + 1 - a)"
      using m s(1) by (simp_all add: valid_day_iff)
    obtain ns where ns: "cs' = List.map (map_prod iso_day iso_day) ns"
      "List.concat (List.map (\<lambda>(x, y). [x..y]) ns) = [m + 1..b]"
      "\<forall>(x, y) \<in> set ns. m + 1 \<le> x \<and> x \<le> y \<and> y \<le> b \<and> y - x < k \<and> y < last_day"
      using less.hyps [OF v(3,1,2) cs(1)] by blast
    have "[a..m] @ [m + 1..b] = [a..b]" using m upto_split2 [of a m b] by simp
    then show ?thesis
      using ns m s(1) cs(2) by (intro exI [of _ "(a, m) # ns"]) fastforce
  qed
qed

lemma buildDayChunks_returns: "\<exists>r. buildDayChunks d e chunkDays = Some r"
proof (cases d rule: assertIsoDay_cases)
  case (day a)
  show ?thesis
  proof (cases e rule: assertIsoDay_cases)
    case day': (day b)
    consider "chunk_size chunkDays = NaN \<or> chunk_size chunkDays = PInf" | k where "1 \<le> k" "chunk_size chunkDays = Fin (of_int k)"
      using chunk_size_cases by blast
    then show ?thesis
    proof cases
      case 1
      then have "num_sub (chunk_size chunkDays) (Fin 1) = NaN \<or> num_sub (chunk_size chunkDays) (Fin 1) = PInf"
        by (auto simp: num_sub_def)
      then have "addDays (iso_day a) (num_sub (chunk_size chunkDays) (Fin 1)) = Inl RangeError"
        using far_day [OF day(1)] by blast
      then show ?thesis
        using day day' by (simp add: buildDayChunks_def day_chunks.simps [of "iso_day a"] compareIsoDay_iso)
    next
      case 2
      then show ?thesis using day day' day_chunks_returns [of a b k] by (simp add: buildDayChunks_def)
    qed
  next
    case bad
    then obtain x where "assertIsoDay e ''endDayUtc'' = Inl x" by blast
    then show ?thesis using day by (simp add: buildDayChunks_def)
  qed
next
  case bad
  then obtain x where "assertIsoDay d ''startDayUtc'' = Inl x" by blast
  then show ?thesis by (simp add: buildDayChunks_def)
qed

section \<open>The configuration of a run\<close>

lemma daysBetweenInclusive_iso:
  assumes "valid_day a" "valid_day b"
  shows "daysBetweenInclusive (iso_day a) (iso_day b) = Inr (Fin (of_int (b - a + 1)))"
proof -
  have n: "\<bar>b - a\<bar> < 2 ^ 53" "\<bar>b - a + 1\<bar> < 2 ^ 53"
    using valid_day_bound [OF assms(1)] valid_day_bound [OF assms(2)] by auto
  have q: "(of_int (b * MS_DAY - a * MS_DAY) / of_int MS_DAY :: rat) = of_int (b - a)" "of_int MS_DAY \<noteq> (0 :: rat)"
    by (simp_all add: MS_DAY_def diff_divide_distrib)
  then have "num_div (Fin (of_int (b * MS_DAY - a * MS_DAY))) (Fin (of_int MS_DAY)) = Fin (of_int (b - a))"
    using to_double_int [OF n(1)] q by (simp del: of_int_diff of_int_mult)
  moreover have "num_add (Fin (of_int (b - a))) (Fin 1) = Fin (of_int (b - a + 1))"
    using to_double_int [OF n(2)] by simp
  ultimately show ?thesis
    using assms by (simp add: daysBetweenInclusive_def midnight_parse del: num_add.simps num_div.simps of_int_diff of_int_add of_int_mult)
qed

lemma latestCompleteDayUtc_ok:
  assumes "latestCompleteDayUtc now h = Inr d"
  shows "valid_day (now div MS_DAY)" "d = take 10 (iso_day (now div MS_DAY - 1))"
proof -
  define n where "n = now div MS_DAY"
  have add: "addDays (take 10 (to_iso now)) (Fin (- 1)) = Inr d"
    using assms by (simp add: latestCompleteDayUtc_def toIsoDay_def)
  have len: "10 \<le> length (iso_day n)"
    by (cases "civil_of_day n") (auto simp: iso_day_def iso_year_def)
  then have t: "take 10 (to_iso now) = take 10 (iso_day n)" by (simp add: to_iso_def n_def)
  show v: "valid_day (now div MS_DAY)"
  proof (rule ccontr)
    assume "\<not> ?thesis"
    from assertIsoDay_outside [OF this] obtain e where "assertIsoDay (take 10 (iso_day n)) ''day'' = Inl e"
      unfolding n_def by blast
    then show False using add t by (simp add: addDays_def)
  qed
  have "\<bar>n - 1\<bar> \<le> 100000000" using valid_day_bound [OF v] by (simp add: n_def abs_le_iff)
  then have "addDays (iso_day n) (Fin (of_int (- 1))) = Inr (take 10 (iso_day (n - 1)))"
    using addDays_exact [of n "- 1"] v by (simp add: n_def)
  then show "d = take 10 (iso_day (now div MS_DAY - 1))"
    using add t take_iso_day [OF v] by (simp add: n_def)
qed

lemma check_days_ok:
  assumes "check_days p s e = Inr u"
  obtains a b where "valid_day a" "valid_day b" "a \<le> b" "s = iso_day a" "e = iso_day b"
    "rp_runMode p = BackfillRun \<Longrightarrow> \<not> num_lt (backfill_limit p) (Fin (of_int (b - a + 1)))"
proof -
  obtain v w where "assertIsoDay s ''start_day_utc'' = Inr v" "assertIsoDay e ''end_day_utc'' = Inr w"
    using assms by (auto simp: check_days_def res_bind_Inr)
  then obtain a b where ab: "valid_day a" "valid_day b" "s = iso_day a" "e = iso_day b"
    using assertIsoDay_ok by metis
  have "a \<le> b" "rp_runMode p = BackfillRun \<Longrightarrow> \<not> num_lt (backfill_limit p) (Fin (of_int (b - a + 1)))"
    using assms ab
    by (auto simp: check_days_def compareIsoDay_iso daysBetweenInclusive_iso simp del: num_lt.simps split: if_splits)
  then show thesis using that ab by blast
qed

text \<open>A configuration that was built has real days in order, of the length that its mode allows.\<close>

lemma buildRunConfig_ok:
  assumes "buildRunConfig p = Inr c"
  obtains a b n where "valid_day a" "valid_day b" "a \<le> b" "wc_startDayUtc c = iso_day a" "wc_endDayUtc c = iso_day b"
    "wc_runMode c = BackfillRun \<Longrightarrow> \<not> num_lt (wc_backfillMaxDays c) (Fin (of_int (b - a + 1)))"
    "wc_runMode c = DailyRun \<Longrightarrow> b = rp_now p div MS_DAY - 1 \<and> a = b - 1"
    "num_integer (rp_connectorId p) = Some n" "0 < n" "c = config_of p (wc_latestCompleteDayUtc c) (iso_day a) (iso_day b) n"
    "rp_pollutantCodes p \<noteq> []" "\<not> num_lt (rp_minValidHoursPerDay p) (Fin 1)" "\<not> num_lt (Fin 24) (rp_minValidHoursPerDay p)"
proof -
  obtain latest s e n u where r: "latestCompleteDayUtc (rp_now p) (rp_maturityDelayHours p) = Inr latest"
    "run_days p latest = Inr (s, e)" "check_days p s e = Inr u" "check_params p = Inr n"
    "c = config_of p latest s e n"
    using assms by (auto simp: buildRunConfig_def res_simps split: prod.splits)
  obtain a b where ab: "valid_day a" "valid_day b" "a \<le> b" "s = iso_day a" "e = iso_day b"
    "rp_runMode p = BackfillRun \<Longrightarrow> \<not> num_lt (backfill_limit p) (Fin (of_int (b - a + 1)))"
    using check_days_ok [OF r(3)] by blast
  have n: "num_integer (rp_connectorId p) = Some n" "0 < n" "rp_pollutantCodes p \<noteq> []"
    "\<not> num_lt (rp_minValidHoursPerDay p) (Fin 1)" "\<not> num_lt (Fin 24) (rp_minValidHoursPerDay p)"
    using r(4) by (auto simp: check_params_def simp del: num_lt.simps split: option.splits if_splits)
  have daily: "b = rp_now p div MS_DAY - 1 \<and> a = b - 1" if "rp_runMode p = DailyRun"
  proof -
    have x: "latest = e" "addDays latest (Fin (- 1)) = Inr s" using r(2) that by (auto simp: run_days_def res_simps)
    have l: "iso_day b = take 10 (iso_day (rp_now p div MS_DAY - 1))"
      using latestCompleteDayUtc_ok(2) [OF r(1)] x ab by simp
    have "valid_day (rp_now p div MS_DAY - 1)"
    proof (rule ccontr)
      assume "\<not> ?thesis"
      from assertIsoDay_outside [OF this] l ab(2) show False by (metis assertIsoDay_iso Inl_Inr_False)
    qed
    then have b: "b = rp_now p div MS_DAY - 1" using l ab(2) by (simp add: take_iso_day iso_day_inj)
    have "addDays (iso_day b) (Fin (of_int (- 1))) = Inr (take 10 (iso_day (b - 1)))"
      using addDays_exact [OF ab(2), of "- 1"] valid_day_bound [OF ab(2)] by (simp add: abs_le_iff)
    then have s: "iso_day a = take 10 (iso_day (b - 1))" using x ab by simp
    have "valid_day (b - 1)"
    proof (rule ccontr)
      assume "\<not> ?thesis"
      from assertIsoDay_outside [OF this] s ab(1) show False by (metis assertIsoDay_iso Inl_Inr_False)
    qed
    then show ?thesis using s b ab(1) by (simp add: take_iso_day iso_day_inj)
  qed
  show thesis
    by (rule that [of a b n]) (use ab n daily r(5) in \<open>simp_all add: config_of_def del: num_lt.simps\<close>)
qed

text \<open>A number read from the environment is a whole number, or the one to fall back to.\<close>

lemma parsePositiveInt_int:
  assumes "0 \<le> d"
  obtains k where "parsePositiveInt raw (Fin (of_int d)) = Fin (of_int k)" "0 \<le> k"
proof (cases "js_number (JStr (env_text raw))")
  case (Fin x)
  show thesis
  proof (cases "x \<le> 0")
    case False
    then have "parsePositiveInt raw (Fin (of_int d)) = Fin (of_int \<lfloor>x\<rfloor>)" "0 \<le> \<lfloor>x\<rfloor>"
      using Fin by (simp_all add: parsePositiveInt_def rat_trunc_def)
    then show thesis using that by blast
  qed (use Fin assms that [of d] in \<open>simp add: parsePositiveInt_def\<close>)
qed (use assms that [of d] in \<open>simp_all add: parsePositiveInt_def\<close>)

end
