(* ===== verification/WhoAggregation.thy ===== *)
theory WhoAggregation
  imports WhoSource WhoCalendar
begin

text \<open>
  What the functions of WhoSource give: daily rows are those of a reference that groups the values of a series by
  hour, and the rows of a partition come from files that a chain of hashed manifests attests.
\<close>

section \<open>The reference: values by hour\<close>

text \<open>The usable values of a series in the day with the starts of their hours, in the order of the rows.\<close>

definition row_entries :: "int \<Rightarrow> string \<Rightarrow> int \<Rightarrow> r2_row \<Rightarrow> (int \<times> jsnum) list" where
  "row_entries startMs p k row =
     (if ro_timeseriesId row = k
      then case (time_in_day startMs p row, usable_value row) of (Some t, Some x) \<Rightarrow> [(hour_start t, x)] | _ \<Rightarrow> []
      else [])"

definition hour_entries :: "int \<Rightarrow> string \<Rightarrow> int \<Rightarrow> r2_row list \<Rightarrow> (int \<times> jsnum) list" where
  "hour_entries startMs p k rows = List.concat (List.map (row_entries startMs p k) rows)"

definition values_of_hour :: "int \<Rightarrow> (int \<times> jsnum) list \<Rightarrow> jsnum list" where
  "values_of_hour h es = List.map snd (filter (\<lambda>e. fst e = h) es)"

text \<open>Each element once, where it occurs first.\<close>

definition firsts :: "'a list \<Rightarrow> 'a list" where
  "firsts xs = rev (remdups (rev xs))"

definition num_total :: "jsnum list \<Rightarrow> jsnum" where
  "num_total xs = fold (\<lambda>x total. num_add total x) xs (Fin 0)"

definition num_mean :: "jsnum list \<Rightarrow> jsnum" where
  "num_mean xs = num_div (num_total xs) (Fin (of_int (int (length xs))))"

definition series_seen :: "int \<Rightarrow> string \<Rightarrow> r2_row list \<Rightarrow> int set" where
  "series_seen startMs p rows = ro_timeseriesId ` set (filter (\<lambda>row. time_in_day startMs p row \<noteq> None) rows)"

definition reference_row :: "int \<Rightarrow> string \<Rightarrow> r2_row list \<Rightarrow> int \<Rightarrow> int \<Rightarrow> prepared_row" where
  "reference_row startMs p rows minHours k =
     (let es = hour_entries startMs p k rows; hours = firsts (List.map fst es)
      in \<lparr>pr_timeseries_id = k, pr_valid_hour_count = int (length hours),
          pr_daily_mean_ugm3 = (if minHours \<le> int (length hours)
            then Some (num_mean (List.map (\<lambda>h. num_mean (values_of_hour h es)) hours)) else None)\<rparr>)"

lemma set_firsts [simp]: "set (firsts xs) = set xs"
  by (simp add: firsts_def)

lemma distinct_firsts [simp]: "distinct (firsts xs)"
  by (simp add: firsts_def)

lemma length_firsts: "length (firsts xs) = card (set xs)"
  by (simp add: firsts_def length_remdups_card_conv)

lemma firsts_snoc: "firsts (xs @ [x]) = (if x \<in> set xs then firsts xs else firsts xs @ [x])"
  by (simp add: firsts_def)

section \<open>The maps that the code builds\<close>

lemma add_hours_wf: "jm_wf m \<Longrightarrow> jm_wf (fold (\<lambda>(h, x). add_hour h x) es m)"
  by (induction es arbitrary: m) (auto simp: add_hour_def Let_def)

lemma add_hours_keys: "jm_keys (fold (\<lambda>(h, x). add_hour h x) es jm_empty) = firsts (List.map fst es)"
proof (induction es rule: rev_induct)
  case Nil
  then show ?case by (simp add: jm_keys_def jm_empty_def firsts_def)
next
  case (snoc e es)
  then show ?case by (cases e) (simp add: firsts_snoc add_hour_def Let_def jm_keys_set)
qed

lemma add_hours_get:
  "jm_get (fold (\<lambda>(h, x). add_hour h x) es jm_empty) h =
     (let xs = values_of_hour h es in if xs = [] then None else Some \<lparr>hb_sum = num_total xs, hb_count = int (length xs)\<rparr>)"
proof (induction es rule: rev_induct)
  case Nil
  then show ?case by (simp add: values_of_hour_def)
next
  case (snoc e es)
  obtain h' x where e: "e = (h', x)" by (cases e)
  have v: "values_of_hour h (es @ [e]) = values_of_hour h es @ (if h' = h then [x] else [])"
    by (simp add: values_of_hour_def e)
  show ?case
    using snoc by (auto simp: e v add_hour_def Let_def jm_get_set num_total_def values_of_hour_def)
qed

lemma hourly_means_reference:
  "hourly_means (fold (\<lambda>(h, x). add_hour h x) es jm_empty) =
     List.map (\<lambda>h. num_mean (values_of_hour h es)) (firsts (List.map fst es))"
proof -
  define m where "m = fold (\<lambda>(h, x). add_hour h x) es jm_empty"
  have "jm_wf m" unfolding m_def by (rule add_hours_wf) simp
  then have "jm_values m = List.map (\<lambda>h. the (jm_get m h)) (jm_keys m)"
    by (auto simp: jm_values_def jm_keys_def jm_get_def jm_wf_def map_of_is_SomeI)
  moreover have "num_div (hb_sum (the (jm_get m h))) (Fin (of_int (hb_count (the (jm_get m h)))))
      = num_mean (values_of_hour h es)" if "h \<in> set (jm_keys m)" for h
  proof -
    have "jm_get m h \<noteq> None" using that jm_get_None [of m h] by simp
    then show ?thesis using add_hours_get [of es h] by (auto simp: m_def Let_def num_mean_def split: if_splits)
  qed
  ultimately show ?thesis
    by (simp add: hourly_means_def add_hours_keys [of es, folded m_def, symmetric] m_def [symmetric])
qed

lemma add_row_get:
  "jm_get (add_row startMs p row m) k =
     (if ro_timeseriesId row = k \<and> time_in_day startMs p row \<noteq> None
      then Some (fold (\<lambda>(h, x). add_hour h x) (row_entries startMs p k row)
        (case jm_get m k of None \<Rightarrow> jm_empty | Some hours \<Rightarrow> hours))
      else jm_get m k)"
  by (cases "time_in_day startMs p row"; cases "usable_value row")
    (auto simp: add_row_def row_entries_def jm_get_set)

lemma add_rows_get:
  "jm_get (fold (add_row startMs p) rows m) k =
     (if k \<in> series_seen startMs p rows
      then Some (fold (\<lambda>(h, x). add_hour h x) (hour_entries startMs p k rows)
        (case jm_get m k of None \<Rightarrow> jm_empty | Some hours \<Rightarrow> hours))
      else jm_get m k)"
proof (induction rows arbitrary: m)
  case Nil
  then show ?case by (simp add: series_seen_def)
next
  case (Cons row rows)
  have s: "k \<in> series_seen startMs p (row # rows) \<longleftrightarrow>
      ro_timeseriesId row = k \<and> time_in_day startMs p row \<noteq> None \<or> k \<in> series_seen startMs p rows"
    by (auto simp: series_seen_def)
  have h: "hour_entries startMs p k (row # rows) = row_entries startMs p k row @ hour_entries startMs p k rows"
    by (simp add: hour_entries_def)
  have out: "hour_entries startMs p k rows = []" if "k \<notin> series_seen startMs p rows"
    using that by (auto simp: hour_entries_def row_entries_def series_seen_def split: option.splits)
  have none: "row_entries startMs p k row = []" if "\<not> (ro_timeseriesId row = k \<and> time_in_day startMs p row \<noteq> None)"
    using that by (auto simp: row_entries_def)
  have e: "jm_get (fold (add_row startMs p) (row # rows) m) k =
      (if k \<in> series_seen startMs p rows
       then Some (fold (\<lambda>(h, x). add_hour h x) (hour_entries startMs p k rows)
         (case jm_get (add_row startMs p row m) k of None \<Rightarrow> jm_empty | Some hours \<Rightarrow> hours))
       else jm_get (add_row startMs p row m) k)"
    using Cons.IH [of "add_row startMs p row m"] by simp
  show ?case unfolding e add_row_get s h using out none by auto
qed

lemma add_rows_wf: "jm_wf m \<Longrightarrow> jm_wf (fold (add_row startMs p) rows m)"
proof (induction rows arbitrary: m)
  case (Cons row rows)
  have "jm_wf (add_row startMs p row m)" using Cons.prems by (simp add: add_row_def Let_def split: option.splits)
  then show ?case using Cons.IH by simp
qed simp

lemma add_rows_keys:
  "set (jm_keys (fold (add_row startMs p) rows jm_empty)) = series_seen startMs p rows"
proof -
  have "k \<in> set (jm_keys (fold (add_row startMs p) rows jm_empty)) \<longleftrightarrow> k \<in> series_seen startMs p rows" for k
    using jm_get_None [of "fold (add_row startMs p) rows jm_empty" k] unfolding add_rows_get by (auto split: if_splits)
  then show ?thesis by blast
qed

lemma sort_key_map:
  assumes "jm_wf m"
  shows "sort_key fst m = List.map (\<lambda>k. (k, the (jm_get m k))) (sorted_list_of_set (set (jm_keys m)))"
proof -
  have d: "distinct (List.map fst m)" using assms by (simp add: jm_wf_def jm_keys_def)
  have k: "List.map fst (sort_key fst m) = sorted_list_of_set (set (jm_keys m))"
    using d by (intro sorted_distinct_set_unique) (simp_all add: sorting_simps jm_keys_def)
  have "sort_key fst m = List.map (\<lambda>k. (k, the (jm_get m k))) (List.map fst (sort_key fst m))"
    using assms by (auto simp: jm_mem_get intro!: map_idI [symmetric])
  then show ?thesis unfolding k .
qed

lemma aggregate_reference:
  assumes "date_parse (midnight_text dayUtc) = Some startMs"
  shows "aggregatePollutantRows dayUtc p rows minHours =
    List.map (reference_row startMs p rows minHours) (sorted_list_of_set (series_seen startMs p rows))"
proof -
  define m where "m = fold (add_row startMs p) rows jm_empty"
  have "aggregatePollutantRows dayUtc p rows minHours = List.map (daily_row minHours) (sort_key fst m)"
    using assms by (simp add: aggregatePollutantRows_def m_def)
  also have "sort_key fst m = List.map (\<lambda>k. (k, the (jm_get m k))) (sorted_list_of_set (series_seen startMs p rows))"
    unfolding m_def by (subst sort_key_map) (simp_all add: add_rows_wf add_rows_keys)
  also have "List.map (daily_row minHours) \<dots> =
      List.map (reference_row startMs p rows minHours) (sorted_list_of_set (series_seen startMs p rows))"
  proof -
    have "daily_row minHours (k, the (jm_get m k)) = reference_row startMs p rows minHours k"
      if "k \<in> series_seen startMs p rows" for k
      using that
      by (simp add: m_def add_rows_get daily_row_def reference_row_def hourly_means_reference Let_def num_mean_def num_total_def)
    moreover have "finite (series_seen startMs p rows)" by (simp add: series_seen_def)
    ultimately show ?thesis by simp
  qed
  finally show ?thesis .
qed

section \<open>The number of hours\<close>

lemma hour_entries_time:
  assumes "(h, x) \<in> set (hour_entries startMs p k rows)"
  obtains row t where "row \<in> set rows" "ro_timeseriesId row = k" "time_in_day startMs p row = Some t"
    "usable_value row = Some x" "h = hour_start t"
  using assms that by (auto simp: hour_entries_def row_entries_def split: if_splits option.splits) (metis option.inject)

lemma hours_within:
  assumes "startMs = n * MS_DAY" "(h, x) \<in> set (hour_entries startMs p k rows)"
  shows "h \<in> (\<lambda>i. startMs + i * MS_HOUR) ` {0..24}"
proof -
  obtain row t where t: "time_in_day startMs p row = Some t" "h = hour_start t"
    using hour_entries_time [OF assms(2)] by metis
  then have r: "startMs < t" "t \<le> startMs + 24 * MS_HOUR"
    by (auto simp: time_in_day_def split: option.splits if_splits)
  have "h = startMs + (t div MS_HOUR - 24 * n) * MS_HOUR"
    using t(2) assms(1) by (simp add: hour_start_def MS_HOUR_def MS_DAY_def algebra_simps)
  moreover have "t div MS_HOUR - 24 * n \<in> {0..24}"
    using r unfolding assms(1) MS_DAY_def MS_HOUR_def by auto
  ultimately show ?thesis by blast
qed

lemma whole_hours_within:
  assumes "startMs = n * MS_DAY" "(h, x) \<in> set (hour_entries startMs p k rows)"
    and "\<And>row t. row \<in> set rows \<Longrightarrow> time_in_day startMs p row = Some t \<Longrightarrow> t mod MS_HOUR = 0"
  shows "h \<in> (\<lambda>i. startMs + i * MS_HOUR) ` {1..24}"
proof -
  obtain row t where t: "row \<in> set rows" "time_in_day startMs p row = Some t" "h = hour_start t"
    using hour_entries_time [OF assms(2)] by metis
  have m: "t mod MS_HOUR = 0" by (rule assms(3) [OF t(1,2)])
  then have "h = t" using t(3) by (simp add: hour_start_def) (metis add.right_neutral div_mult_mod_eq)
  then have "h \<noteq> startMs + 0 * MS_HOUR" using t(2) by (auto simp: time_in_day_def split: option.splits if_splits)
  moreover obtain i where "i \<in> {0..24}" "h = startMs + i * MS_HOUR" using hours_within [OF assms(1,2)] by blast
  ultimately have "i \<in> {1..24}" by (cases "i = 0") auto
  then show ?thesis using \<open>h = startMs + i * MS_HOUR\<close> by blast
qed

lemma reference_count: "pr_valid_hour_count (reference_row startMs p rows minHours k) = int (card (fst ` set (hour_entries startMs p k rows)))"
  by (simp add: reference_row_def Let_def length_firsts)

lemma card_hours: "finite I \<Longrightarrow> H \<subseteq> f ` I \<Longrightarrow> card H \<le> card (I :: int set)"
  by (meson card_image_le card_mono finite_imageI le_trans)

lemma valid_hours_25:
  assumes "startMs = n * MS_DAY"
  shows "pr_valid_hour_count (reference_row startMs p rows minHours k) \<le> 25"
proof -
  have "fst ` set (hour_entries startMs p k rows) \<subseteq> (\<lambda>i. startMs + i * MS_HOUR) ` {0..24}"
    using hours_within [OF assms] by fastforce
  from card_hours [OF _ this] show ?thesis by (simp add: reference_count)
qed

lemma valid_hours_24:
  assumes "startMs = n * MS_DAY"
    and "\<And>row t. row \<in> set rows \<Longrightarrow> time_in_day startMs p row = Some t \<Longrightarrow> t mod MS_HOUR = 0"
  shows "pr_valid_hour_count (reference_row startMs p rows minHours k) \<le> 24"
proof -
  have "fst ` set (hour_entries startMs p k rows) \<subseteq> (\<lambda>i. startMs + i * MS_HOUR) ` {1..24}"
    using whole_hours_within [OF assms(1) _ assms(2)] by fastforce
  from card_hours [OF _ this] show ?thesis by (simp add: reference_count)
qed

end
