(* ===== verification/WhoTrust.thy ===== *)
theory WhoTrust
  imports WhoAggregation
begin

text \<open>
  The rows of a partition: a chain of manifests, each named by the hash of its content in the manifest above it,
  ends in the list of files, and the files have the bytes, rows and hashes that the list gives. The statements are
  triples over the reading state whose invariant is that the cache holds attested manifests only.
\<close>

section \<open>Attested manifests\<close>

text \<open>The object under the key is complete JSON whose hash field is the digest of the rest.\<close>

definition attested :: "source_env \<Rightarrow> string \<Rightarrow> jsval \<Rightarrow> bool" where
  "attested env key manifest \<longleftrightarrow>
     (\<exists>bytes. sv_read env key = Inr bytes \<and> parse_manifest key bytes = Inr manifest)
     \<and> check_manifest_hash env manifest key = Inr ()"

definition cache_ok :: "source_env \<Rightarrow> source_state \<Rightarrow> bool" where
  "cache_ok env s \<longleftrightarrow> (\<forall>key manifest. jm_get (so_cache s) key = Some manifest \<longrightarrow> attested env key manifest)"

text \<open>A manifest refers to another one by key and by digest.\<close>

definition refers_to :: "source_env \<Rightarrow> jsval \<Rightarrow> string list \<Rightarrow> string \<Rightarrow> string \<Rightarrow> string \<Rightarrow> jsval \<Rightarrow> bool" where
  "refers_to env parent names field expected key child \<longleftrightarrow>
     (\<exists>label reference. exactChild parent names field expected label = Inr reference
       \<and> (\<exists>label. requiredString reference ''manifest_key'' label = Inr key)
       \<and> (\<exists>label h. requiredString reference ''manifest_hash'' label = Inr h \<and> js_lower h = manifest_digest env child))"

text \<open>The chain from the manifest of the day to the files of the partition.\<close>

definition trusted_files :: "source_env \<Rightarrow> string \<Rightarrow> int \<Rightarrow> string \<Rightarrow> manifest_file list \<Rightarrow> bool" where
  "trusted_files env dayUtc connectorId p files \<longleftrightarrow>
     (\<exists>prefix dayKey dayManifest connectorManifest pollutantManifest.
       r2ObservationDayManifestKey env dayUtc = Inr dayKey \<and> observationHistoryPrefix env = Inr prefix
       \<and> attested env dayKey dayManifest
       \<and> attested env (connector_manifest_key prefix dayUtc connectorId) connectorManifest
       \<and> refers_to env dayManifest [''connector_manifests'', ''child_manifests''] ''connector_id'' (int_str connectorId)
           (connector_manifest_key prefix dayUtc connectorId) connectorManifest
       \<and> attested env (partition_prefix prefix dayUtc connectorId p @ ''manifest.json'') pollutantManifest
       \<and> refers_to env connectorManifest [''child_manifests'', ''pollutant_manifests''] ''pollutant_code'' p
           (partition_prefix prefix dayUtc connectorId p @ ''manifest.json'') pollutantManifest
       \<and> parseManifestFiles pollutantManifest (partition_prefix prefix dayUtc connectorId p @ ''manifest.json'')
           (partition_prefix prefix dayUtc connectorId p) p = Inr files)"

text \<open>The rows of a file whose bytes have the length, the digest and the number of rows that the manifest gives.\<close>

definition file_gives :: "source_env \<Rightarrow> string \<Rightarrow> int \<Rightarrow> string \<Rightarrow> manifest_file \<Rightarrow> r2_row list \<Rightarrow> bool" where
  "file_gives env dayUtc connectorId p f rows \<longleftrightarrow>
     (\<exists>bytes columns raw. sv_read env (mf_key f) = Inr bytes \<and> validateParquetHash env bytes f = Inr ()
       \<and> sv_parquet env bytes = Inr (columns, raw) \<and> int (length raw) = mf_rowCount f
       \<and> res_mapM (parquet_row (mf_key f) connectorId p dayUtc columns) (indexed raw) = Inr rows)"

section \<open>Triples over the reading state\<close>

definition rd_keeps :: "source_env \<Rightarrow> 'a reading \<Rightarrow> ('a \<Rightarrow> bool) \<Rightarrow> bool" where
  "rd_keeps env m Q \<longleftrightarrow>
     (\<forall>s. cache_ok env s \<longrightarrow> cache_ok env (snd (m s)) \<and> (\<forall>x. fst (m s) = Inr x \<longrightarrow> Q x))"

named_theorems reading_rules "triples of the reading monad"

lemma reads_ret [reading_rules]: "Q x \<Longrightarrow> rd_keeps env (rd_ret x) Q"
  by (simp add: rd_keeps_def rd_ret_def)

lemma reads_bind:
  assumes "rd_keeps env m P" "\<And>x. P x \<Longrightarrow> rd_keeps env (f x) Q"
  shows "rd_keeps env (rd_bind m f) Q"
  unfolding rd_keeps_def
proof (intro allI impI)
  fix s assume s: "cache_ok env s"
  obtain r s' where m: "m s = (r, s')" by (cases "m s")
  have 1: "cache_ok env s'" "\<And>x. r = Inr x \<Longrightarrow> P x" using assms(1) s m by (auto simp: rd_keeps_def)
  show "cache_ok env (snd (rd_bind m f s)) \<and> (\<forall>x. fst (rd_bind m f s) = Inr x \<longrightarrow> Q x)"
    using 1 assms(2) by (cases r) (auto simp: rd_bind_def m rd_keeps_def)
qed

lemma reads_res: "rd_keeps env (rd_res r) (\<lambda>x. r = Inr x)"
  by (auto simp: rd_keeps_def rd_res_def split: sum.splits)

lemma reads_count: "rd_keeps env (rd_count f) (\<lambda>_. True)"
  by (simp add: rd_keeps_def rd_count_def cache_ok_def)

lemma reads_weaken: "rd_keeps env m P \<Longrightarrow> (\<And>x. P x \<Longrightarrow> Q x) \<Longrightarrow> rd_keeps env m Q"
  by (auto simp: rd_keeps_def)

lemma reads_mapM:
  assumes "\<And>x. x \<in> set xs \<Longrightarrow> rd_keeps env (f x) (P x)"
  shows "rd_keeps env (rd_mapM f xs) (list_all2 P xs)"
  using assms
proof (induction xs)
  case (Cons x xs)
  have "rd_keeps env (rd_bind (f x) (\<lambda>y. rd_bind (rd_mapM f xs) (\<lambda>ys. rd_ret (y # ys)))) (list_all2 P (x # xs))"
  proof (rule reads_bind)
    show "rd_keeps env (f x) (P x)" using Cons.prems by simp
    fix y assume y: "P x y"
    show "rd_keeps env (rd_bind (rd_mapM f xs) (\<lambda>ys. rd_ret (y # ys))) (list_all2 P (x # xs))"
      by (rule reads_bind [OF Cons.IH]) (use Cons.prems y in \<open>auto intro: reads_ret\<close>)
  qed
  then show ?case by simp
qed (simp add: reads_ret)

section \<open>The reads\<close>

lemma reads_fetch: "rd_keeps env (fetch_object env key) (\<lambda>bytes. sv_read env key = Inr bytes)"
  by (auto simp: rd_keeps_def fetch_object_def cache_ok_def split: sum.splits)

lemma reads_validate: "rd_keeps env (validateManifestHash env manifest key) (\<lambda>_. check_manifest_hash env manifest key = Inr ())"
  unfolding validateManifestHash_def
  by (rule reads_bind [OF reads_res]) (auto intro: reads_weaken [OF reads_count])

lemma reads_fetch_manifest: "rd_keeps env (fetch_manifest env key) (attested env key)"
  unfolding fetch_manifest_def
proof (rule reads_bind [OF reads_fetch])
  fix bytes assume b: "sv_read env key = Inr bytes"
  show "rd_keeps env (rd_bind (rd_count (\<lambda>m. m\<lparr>rm_manifestKeys := rm_manifestKeys m @ [key]\<rparr>)) (\<lambda>_.
      rd_bind (rd_res (parse_manifest key bytes)) (\<lambda>manifest.
      rd_bind (validateManifestHash env manifest key) (\<lambda>_ s. (Inr manifest, s\<lparr>so_cache := jm_set key manifest (so_cache s)\<rparr>)))))
    (attested env key)"
  proof (rule reads_bind [OF reads_count])
    show "rd_keeps env (rd_bind (rd_res (parse_manifest key bytes)) (\<lambda>manifest.
      rd_bind (validateManifestHash env manifest key) (\<lambda>_ s. (Inr manifest, s\<lparr>so_cache := jm_set key manifest (so_cache s)\<rparr>))))
      (attested env key)"
    proof (rule reads_bind [OF reads_res])
      fix manifest assume p: "parse_manifest key bytes = Inr manifest"
      show "rd_keeps env (rd_bind (validateManifestHash env manifest key)
        (\<lambda>_ s. (Inr manifest, s\<lparr>so_cache := jm_set key manifest (so_cache s)\<rparr>))) (attested env key)"
      proof (rule reads_bind [OF reads_validate])
        assume "check_manifest_hash env manifest key = Inr ()"
        then have "attested env key manifest" using b p by (auto simp: attested_def)
        then show "rd_keeps env (\<lambda>s. (Inr manifest, s\<lparr>so_cache := jm_set key manifest (so_cache s)\<rparr>)) (attested env key)"
          by (auto simp: rd_keeps_def cache_ok_def jm_get_set)
      qed
    qed
  qed
qed

lemma reads_manifest: "rd_keeps env (readJsonManifest env key) (attested env key)"
  unfolding rd_keeps_def
proof (intro allI impI)
  fix s assume s: "cache_ok env s"
  show "cache_ok env (snd (readJsonManifest env key s)) \<and> (\<forall>x. fst (readJsonManifest env key s) = Inr x \<longrightarrow> attested env key x)"
    using reads_fetch_manifest [of env key] s
    by (cases "jm_get (so_cache s) key") (auto simp: readJsonManifest_def rd_keeps_def cache_ok_def)
qed

lemma reads_day_manifest:
  "rd_keeps env (read_day_manifest env dayUtc) (\<lambda>(dayKey, dayManifest).
     r2ObservationDayManifestKey env dayUtc = Inr dayKey \<and> attested env dayKey dayManifest)"
  unfolding read_day_manifest_def
  by (rule reads_bind [OF reads_res], rule reads_bind [OF reads_manifest], rule reads_bind [OF reads_res],
      rule reads_bind [OF reads_res], rule reads_ret) simp

text \<open>The hash that an attested manifest carries is the digest of its content.\<close>

lemma attested_digest:
  assumes "attested env key manifest" "requiredString manifest ''manifest_hash'' label = Inr h"
  shows "js_lower h = manifest_digest env manifest"
proof -
  have "requiredString manifest ''manifest_hash'' key = Inr h"
    using assms(2) by (auto simp: requiredString_def split: jsval.splits if_splits)
  then show ?thesis
    using assms(1) by (auto simp: attested_def check_manifest_hash_def Let_def split: if_splits)
qed

lemma reference_of_child:
  assumes "attested env childKey child" "compareManifestReference reference child childKey label = Inr u"
  shows "requiredString reference ''manifest_key'' label = Inr childKey"
    "\<exists>h. requiredString reference ''manifest_hash'' label = Inr h \<and> js_lower h = manifest_digest env child"
proof -
  obtain k h h' where r: "requiredString reference ''manifest_key'' label = Inr k" "k = childKey"
    "requiredString reference ''manifest_hash'' label = Inr h" "requiredString child ''manifest_hash'' childKey = Inr h'"
    "js_lower h = js_lower h'"
    using assms(2) unfolding compareManifestReference_def by (auto simp: res_bind_Inr split: if_splits)
  show "requiredString reference ''manifest_key'' label = Inr childKey" using r by simp
  show "\<exists>h. requiredString reference ''manifest_hash'' label = Inr h \<and> js_lower h = manifest_digest env child"
    using r attested_digest [OF assms(1) r(4)] by auto
qed

lemma reads_child:
  assumes "exactChild parent names field expected label' = Inr reference"
  shows "rd_keeps env (read_child env childKey reference label dayUtc connectorId p)
    (\<lambda>child. attested env childKey child \<and> refers_to env parent names field expected childKey child)"
  unfolding read_child_def
proof (rule reads_bind [OF reads_manifest], rule reads_bind [OF reads_res], rule reads_bind [OF reads_res],
    rule reads_bind [OF reads_res], rule reads_ret)
  fix child u
  assume a: "attested env childKey child" "compareManifestReference reference child childKey label = Inr u"
  show "attested env childKey child \<and> refers_to env parent names field expected childKey child"
    using a(1) reference_of_child [OF a] assms unfolding refers_to_def by blast
qed

lemma reads_pollutant_manifest:
  assumes "observationHistoryPrefix env = Inr prefix"
  shows "rd_keeps env (read_pollutant_manifest env prefix dayUtc connectorId p) (\<lambda>(key, manifest).
     key = partition_prefix prefix dayUtc connectorId p @ ''manifest.json''
     \<and> (\<forall>files. parseManifestFiles manifest key (partition_prefix prefix dayUtc connectorId p) p = Inr files
         \<longrightarrow> trusted_files env dayUtc connectorId p files))"
proof -
  define ck where "ck = connector_manifest_key prefix dayUtc connectorId"
  define pk where "pk = partition_prefix prefix dayUtc connectorId p @ ''manifest.json''"
  show ?thesis
    unfolding read_pollutant_manifest_def Let_def ck_def [symmetric] pk_def [symmetric]
    apply (rule reads_bind [OF reads_day_manifest], clarify)
    apply (rule reads_bind [OF reads_res], rule reads_bind, erule reads_child)
    apply (rule reads_bind [OF reads_res], rule reads_bind, erule reads_child)
    apply (rule reads_ret, clarify)
    subgoal premises prems
      using prems assms unfolding trusted_files_def ck_def pk_def by blast
    done
qed

lemma reads_file: "rd_keeps env (read_file env dayUtc connectorId p f) (file_gives env dayUtc connectorId p f)"
  unfolding read_file_def readParquetRows_def
proof (rule reads_bind [OF reads_fetch], rule reads_bind [OF reads_res], rule reads_bind [OF reads_count],
    rule reads_bind [OF reads_res], clarify, rule reads_bind [OF reads_res], rule reads_bind [OF reads_count],
    rule reads_weaken [OF reads_res])
  fix bytes columns raw rows u v
  assume "sv_read env (mf_key f) = Inr bytes" "validateParquetHash env bytes f = Inr u" "sv_parquet env bytes = Inr (columns, raw)"
    "(if \<not> supported_columns columns
      then Inl (JsError (''Parquet schema mismatch for '' @ mf_key f @ '': '' @ js_join '','' columns))
      else if int (length raw) \<noteq> mf_rowCount f
      then Inl (JsError (''Parquet row count mismatch for '' @ mf_key f @ '': expected '' @ int_str (mf_rowCount f)
        @ '', got '' @ int_str (int (length raw))))
      else Inr ()) = Inr v"
    "res_mapM (parquet_row (mf_key f) connectorId p dayUtc columns) (indexed raw) = Inr rows"
  then show "file_gives env dayUtc connectorId p f rows" by (auto simp: file_gives_def split: if_splits)
qed

lemma reads_partition:
  "rd_keeps env (readValidatedObservationPollutantPartition env dayUtc connectorId pollutant) (\<lambda>rows.
     \<exists>files rowss. trusted_files env dayUtc connectorId (js_lower (js_trim pollutant)) files \<and> rows = List.concat rowss
       \<and> list_all2 (file_gives env dayUtc connectorId (js_lower (js_trim pollutant))) files rowss)"
  unfolding readValidatedObservationPollutantPartition_def Let_def
proof (rule reads_bind [OF reads_res], rule reads_bind [OF reads_res], rule reads_bind [OF reads_res], rule reads_bind,
    erule reads_pollutant_manifest, clarify, rule reads_bind [OF reads_res], rule reads_bind, rule reads_mapM, rule reads_file,
    rule reads_ret)
qed auto

section \<open>The rows\<close>

lemma parquet_row_ok:
  assumes "parquet_row key connectorId p dayUtc columns ir = Inr row" "date_parse (midnight_text dayUtc) = Some startMs"
  shows "ro_connectorId row = connectorId \<and> ro_pollutantCode row = p \<and> 0 < ro_timeseriesId row
    \<and> (\<exists>t. date_parse (ro_observedAtUtc row) = Some t \<and> startMs \<le> t \<and> t < startMs + MS_DAY)"
  using assms by (auto simp: parquet_row_def Let_def split: option.splits if_splits)

lemma res_mapM_rows: "res_mapM f xs = Inr ys \<Longrightarrow> y \<in> set ys \<Longrightarrow> \<exists>x \<in> set xs. f x = Inr y"
  by (induction xs arbitrary: ys) (auto simp: res_simps)

lemma file_rows_ok:
  assumes "file_gives env dayUtc connectorId p f rows" "row \<in> set rows" "date_parse (midnight_text dayUtc) = Some startMs"
  shows "ro_connectorId row = connectorId \<and> ro_pollutantCode row = p \<and> 0 < ro_timeseriesId row
    \<and> (\<exists>t. date_parse (ro_observedAtUtc row) = Some t \<and> startMs \<le> t \<and> t < startMs + MS_DAY)"
proof -
  obtain columns raw where "res_mapM (parquet_row (mf_key f) connectorId p dayUtc columns) (indexed raw) = Inr rows"
    using assms(1) by (auto simp: file_gives_def)
  from res_mapM_rows [OF this assms(2)] obtain ir where "parquet_row (mf_key f) connectorId p dayUtc columns ir = Inr row"
    by blast
  from parquet_row_ok [OF this assms(3)] show ?thesis .
qed

lemma file_rows_count: "file_gives env dayUtc connectorId p f rows \<Longrightarrow> int (length rows) = mf_rowCount f"
  by (auto simp: file_gives_def indexed_def dest!: res_mapM_length)

lemma files_rows_count:
  "list_all2 (file_gives env dayUtc connectorId p) files rowss \<Longrightarrow>
     int (length (List.concat rowss)) = sum_list (List.map mf_rowCount files)"
  by (induction rule: list_all2_induct) (auto dest: file_rows_count)

lemma parseManifestFiles_ok:
  "parseManifestFiles manifest key prefix p = Inr files \<Longrightarrow> files \<noteq> [] \<and> distinct (List.map mf_key files)"
  by (auto simp: parseManifestFiles_def res_bind_Inr res_map_Inr split: if_splits)

end
