(* ===== verification/WhoSteps.thy ===== *)
theory WhoSteps
  imports WhoRun WhoTrust
begin

text \<open>
  The steps of a run: triples that say what a step has done when it returns and when it throws, relations that
  every step keeps (as a locale with its instances), what a day of a normal run and of a backfill adds to the
  state, and which day is selected for publication.
\<close>

section \<open>Triples\<close>

definition wh_ens :: "(who_run \<Rightarrow> bool) \<Rightarrow> 'a who \<Rightarrow> ('a \<Rightarrow> who_run \<Rightarrow> bool) \<Rightarrow> (who_error \<Rightarrow> who_run \<Rightarrow> bool) \<Rightarrow> bool" where
  "wh_ens P m Q E \<longleftrightarrow> (\<forall>s. P s \<longrightarrow> (case m s of (Inl e, s') \<Rightarrow> E e s' | (Inr x, s') \<Rightarrow> Q x s'))"

lemma wh_ensD:
  assumes "wh_ens P m Q E" "P s" "m s = (r, s')"
  shows "(\<forall>x. r = Inr x \<longrightarrow> Q x s') \<and> (\<forall>e. r = Inl e \<longrightarrow> E e s')"
  using assms by (auto simp: wh_ens_def dest!: spec [of _ s])

lemma ens_ret: "(\<And>s. P s \<Longrightarrow> Q x s) \<Longrightarrow> wh_ens P (wh_ret x) Q E"
  by (simp add: wh_ens_def wh_ret_def)

lemma ens_fail: "(\<And>s. P s \<Longrightarrow> E e s) \<Longrightarrow> wh_ens P (wh_fail e) Q E"
  by (simp add: wh_ens_def wh_fail_def)

lemma ens_error: "(\<And>s e. P s \<Longrightarrow> E e s) \<Longrightarrow> wh_ens P (wh_error m) Q E"
  by (simp add: wh_error_def ens_fail)

lemma ens_upd: "(\<And>s. P s \<Longrightarrow> Q () (f s)) \<Longrightarrow> wh_ens P (wh_upd f) Q E"
  by (simp add: wh_ens_def wh_upd_def)

lemma ens_get: "(\<And>s. P s \<Longrightarrow> Q (f s) s) \<Longrightarrow> wh_ens P (wh_get f) Q E"
  by (simp add: wh_ens_def wh_get_def)

lemma ens_res: "(\<And>s x. P s \<Longrightarrow> r = Inr x \<Longrightarrow> Q x s) \<Longrightarrow> (\<And>s e. P s \<Longrightarrow> E e s) \<Longrightarrow> wh_ens P (wh_res r) Q E"
  by (auto simp: wh_ens_def wh_res_def split: sum.split)

lemma ens_bind:
  assumes "wh_ens P m R E" "\<And>x. wh_ens (R x) (f x) Q E"
  shows "wh_ens P (wh_bind m f) Q E"
  using assms unfolding wh_ens_def wh_bind_def by (fastforce split: prod.splits sum.splits)

lemma ens_catch:
  assumes "wh_ens P m Q R" "\<And>e. wh_ens (R e) (h e) Q E"
  shows "wh_ens P (wh_catch m h) Q E"
  using assms unfolding wh_ens_def wh_catch_def by (fastforce split: prod.splits sum.splits)

lemma ens_weaken:
  assumes "wh_ens P m Q E" "\<And>x s. Q x s \<Longrightarrow> Q' x s" "\<And>e s. E e s \<Longrightarrow> E' e s"
  shows "wh_ens P m Q' E'"
  using assms unfolding wh_ens_def by (fastforce split: prod.splits sum.splits)

section \<open>Relations that steps keep\<close>

locale run_order =
  fixes R :: "who_run \<Rightarrow> who_run \<Rightarrow> bool"
  assumes R_refl: "R s s"
    and R_trans: "R s t \<Longrightarrow> R t u \<Longrightarrow> R s u"
begin

definition keeps :: "'a who \<Rightarrow> bool" where
  "keeps m \<longleftrightarrow> (\<forall>s. R s (snd (m s)))"

lemma keepsD: "keeps m \<Longrightarrow> m s = (r, s') \<Longrightarrow> R s s'"
  by (metis keeps_def snd_conv)

lemma keeps_simple: "keeps (wh_ret x)" "keeps (wh_fail e)" "keeps (wh_error m)" "keeps (wh_get f)" "keeps (wh_res r)"
  by (auto simp: keeps_def wh_ret_def wh_fail_def wh_error_def wh_get_def wh_res_def R_refl split: sum.split)

lemma keeps_upd: "(\<And>s. R s (f s)) \<Longrightarrow> keeps (wh_upd f)"
  by (simp add: keeps_def wh_upd_def)

lemma keeps_bind: "keeps m \<Longrightarrow> (\<And>x. keeps (f x)) \<Longrightarrow> keeps (wh_bind m f)"
  unfolding keeps_def wh_bind_def by (auto split: prod.split sum.split) (metis R_trans snd_conv)+

lemma keeps_catch: "keeps m \<Longrightarrow> (\<And>e. keeps (h e)) \<Longrightarrow> keeps (wh_catch m h)"
  unfolding keeps_def wh_catch_def by (auto split: prod.split sum.split) (metis R_trans snd_conv)+

lemma keeps_each: "(\<And>x. keeps (f x)) \<Longrightarrow> keeps (wh_each f xs)"
  by (induction xs) (auto intro: keeps_simple keeps_bind)

lemma keeps_collect: "(\<And>x. keeps (f x)) \<Longrightarrow> keeps (wh_collect f xs)"
  by (induction xs) (auto intro: keeps_simple keeps_bind)

lemma keeps_if: "keeps a \<Longrightarrow> keeps b \<Longrightarrow> keeps (if c then a else b)"
  by simp

lemmas keeps_rules = keeps_simple keeps_bind keeps_catch keeps_each keeps_collect keeps_if

end

text \<open>A relation that adding a request keeps is kept by every procedure call.\<close>

locale call_order = run_order +
  assumes R_request: "R s (s\<lparr>wr_requests := wr_requests s @ [x]\<rparr>)"
begin

lemma keeps_post: "keeps (post sx ws name args)"
proof -
  have "keeps (post_attempts sx name args n)" for n
  proof (induction n)
    case (Suc n)
    show ?case
      unfolding keeps_def
    proof
      fix s
      have "R s (snd (post_attempts sx name args n (s\<lparr>wr_requests := wr_requests s @ [(name, args)]\<rparr>)))"
        using Suc R_request R_trans unfolding keeps_def by blast
      then show "R s (snd (post_attempts sx name args (Suc n) s))"
        using R_request by (auto simp: Let_def split: fetch_reply.split)
    qed
  qed (simp add: keeps_def R_refl)
  then show ?thesis by (simp add: post_def)
qed

lemma keeps_post_data: "keeps (post_data sx ws name args f)"
  unfolding post_data_def by (auto intro!: keeps_rules keeps_post split: rpc_result.split)

lemma keeps_obs_day: "keeps (refreshObsDay sx ws d)"
  unfolding refreshObsDay_def Let_def by (intro keeps_rules keeps_post_data)

lemma keeps_readiness: "keeps (readinessForDay sx ws d)"
  unfolding readinessForDay_def by (intro keeps_rules keeps_post_data)

lemma keeps_upsert: "keeps (upsertPreparedDay sx ws d prepared)"
  unfolding upsertPreparedDay_def Let_def by (auto intro!: keeps_rules keeps_post split: rpc_result.split)

lemma keeps_prepare: "keeps (prepare_day sx ws d rows so)"
  by (auto simp: prepare_day_def intro: keeps_simple split: sum.split prepare_error.split)

lemma keeps_r2_day: "keeps (refreshR2Day sx ws d)"
  unfolding refreshR2Day_def by (intro keeps_rules keeps_prepare keeps_upsert)

lemma keeps_identify: "keeps (identifyObsBoundaryRows sx ws b rows)"
  unfolding identifyObsBoundaryRows_def Let_def by (intro keeps_rules keeps_post_data)

lemma keeps_pages: "keeps (boundary_pages sx ws d n cursor exact)"
  by (induction n arbitrary: cursor exact)
    (auto simp: Let_def intro!: keeps_rules keeps_post_data keeps_identify)

lemma keeps_boundary: "keeps (readObsBoundaryRows sx ws d)"
  by (simp add: readObsBoundaryRows_def keeps_pages)

end

end
