(* ===== verification/WhoOutcome.thy ===== *)
theory WhoOutcome
  imports WhoSteps
begin

text \<open>
  What a day adds to the state of a run: a normal run settles every day with one result and never throws, a backfill
  completes a prefix of its days and stops at the first that fails. Counters, warnings and requests are left out of
  the comparison of states.
\<close>

section \<open>The part of the state that counts\<close>

definition core :: "who_run \<Rightarrow> who_run" where
  "core s = s\<lparr>wr_requests := [], wr_target_source := [], wr_boundary_source := None, wr_evidence := emptyR2RunEvidence,
     wr_validation_failed := False, wr_warnings := [], wr_readiness := jm_empty\<rparr>"

lemma core_fields [simp]:
  "wr_bucket (core s) = wr_bucket s" "wr_operations (core s) = wr_operations s" "wr_sources (core s) = wr_sources s"
  "wr_completed (core s) = wr_completed s" "wr_rows (core s) = wr_rows s" "wr_failed_day (core s) = wr_failed_day s"
  "wr_publication_day (core s) = wr_publication_day s" "wr_summary (core s) = wr_summary s"
  "wr_summary_completed (core s) = wr_summary_completed s" "wr_publish (core s) = wr_publish s"
  "wr_outcome (core s) = wr_outcome s" "wr_decision_reason (core s) = wr_decision_reason s"
  by (simp_all add: core_def)

lemma core_updates [simp]:
  "core (s\<lparr>wr_requests := a\<rparr>) = core s" "core (s\<lparr>wr_target_source := b\<rparr>) = core s"
  "core (s\<lparr>wr_boundary_source := c\<rparr>) = core s" "core (s\<lparr>wr_evidence := d\<rparr>) = core s"
  "core (s\<lparr>wr_validation_failed := e\<rparr>) = core s" "core (s\<lparr>wr_warnings := f\<rparr>) = core s"
  "core (s\<lparr>wr_readiness := g\<rparr>) = core s"
  by (simp_all add: core_def)

lemma core_steps:
  "core (s\<lparr>wr_rows := x\<rparr>) = (core s)\<lparr>wr_rows := x\<rparr>" "core (s\<lparr>wr_completed := c\<rparr>) = (core s)\<lparr>wr_completed := c\<rparr>"
  "core (s\<lparr>wr_sources := y\<rparr>) = (core s)\<lparr>wr_sources := y\<rparr>" "core (s\<lparr>wr_failed_day := z\<rparr>) = (core s)\<lparr>wr_failed_day := z\<rparr>"
  by (simp_all add: core_def)

interpretation same: call_order "\<lambda>s t. core t = core s"
  by unfold_locales simp_all

abbreviation at_core :: "who_run \<Rightarrow> who_run \<Rightarrow> bool" where
  "at_core F s \<equiv> core s = F"

lemma ens_same: "same.keeps m \<Longrightarrow> wh_ens (at_core F) m (\<lambda>_. at_core F) (\<lambda>_. at_core F)"
  unfolding wh_ens_def by (auto dest: same.keepsD split: prod.splits sum.splits)

lemma same_quiet:
  "same.keeps (warn m)" "same.keeps (use_evidence metrics n)" "same.keeps (error_evidence e)"
  by (auto simp: warn_def use_evidence_def error_evidence_def intro!: same.keeps_upd same.keeps_bind split: who_error.split)

text \<open>Rows that a source gives are objects or other values that are not null.\<close>

lemma ens_obs_day:
  "wh_ens (at_core F) (refreshObsDay sx ws d) (\<lambda>row s. core s = F \<and> \<not> is_nullish row) (\<lambda>_. at_core F)"
  unfolding refreshObsDay_def Let_def
  by (rule ens_bind [OF ens_same [OF same.keeps_post_data]])
    (auto simp: is_nullish_def intro!: ens_ret ens_error)

lemma prepared_not_nullish: "\<not> is_nullish (preparedRowAsDailyRefresh row)"
  by (simp add: preparedRowAsDailyRefresh_def Let_def is_nullish_def)

lemma ens_upsert:
  "wh_ens (at_core F) (upsertPreparedDay sx ws d prepared) (\<lambda>row s. core s = F \<and> \<not> is_nullish row) (\<lambda>_. at_core F)"
  unfolding upsertPreparedDay_def Let_def
  by (rule ens_bind [OF ens_same [OF same.keeps_post]])
    (auto simp: prepared_not_nullish intro!: ens_ret ens_fail split: rpc_result.split)

lemma ens_r2_day:
  "wh_ens (at_core F) (refreshR2Day sx ws d) (\<lambda>(prepared, row) s. core s = F \<and> \<not> is_nullish row) (\<lambda>_. at_core F)"
proof -
  have p: "wh_ens (at_core F) (prepare_day sx ws d None new_source) (\<lambda>_. at_core F) (\<lambda>_. at_core F)"
    by (rule ens_same [OF same.keeps_prepare])
  show ?thesis
    unfolding refreshR2Day_def
    by (auto intro!: ens_error ens_bind [OF p] ens_bind [OF ens_upsert] ens_ret)
qed

section \<open>A day of a normal run\<close>

text \<open>A day adds one result; a usable one also adds the day and its row.\<close>

definition day_added :: "string \<Rightarrow> who_run \<Rightarrow> who_run \<Rightarrow> bool" where
  "day_added d F F' \<longleftrightarrow> (\<exists>result rows. sr_day_utc result = JStr d
     \<and> F' = F\<lparr>wr_rows := wr_rows F @ rows, wr_completed := wr_completed F @ (if usable_result result then [d] else []),
         wr_sources := wr_sources F @ [result]\<rparr>
     \<and> (\<forall>row \<in> set rows. \<not> is_nullish row))"

lemma ens_complete:
  assumes "sr_day_utc result = JStr d" "usable_result result" "\<not> is_nullish row"
  shows "wh_ens (at_core F) (complete_day d row result) (\<lambda>_ s. day_added d F (core s)) E"
  unfolding complete_day_def
proof (rule ens_upd)
  fix s assume "core s = F"
  then show "day_added d F (core (s\<lparr>wr_rows := wr_rows s @ [row], wr_completed := wr_completed s @ [d],
      wr_sources := wr_sources s @ [result]\<rparr>))"
    using assms unfolding day_added_def by (intro exI [of _ result] exI [of _ "[row]"]) (auto simp: core_steps)
qed

lemma ens_unusable:
  assumes "sr_day_utc result = JStr d" "\<not> usable_result result"
  shows "wh_ens (at_core F) (add_source result) (\<lambda>_ s. day_added d F (core s)) E"
  unfolding add_source_def
proof (rule ens_upd)
  fix s assume "core s = F"
  then show "day_added d F (core (s\<lparr>wr_sources := wr_sources s @ [result]\<rparr>))"
    using assms unfolding day_added_def by (intro exI [of _ result] exI [of _ "[]"]) (auto simp: core_steps core_def)
qed

lemma ens_warn: "wh_ens (\<lambda>s. P (core s)) (warn m) (\<lambda>_ s. P (core s)) E"
  unfolding warn_def by (rule ens_upd) simp

lemma usable_source_row:
  "source = ''obs_aqidb'' \<or> source = ''r2_v2'' \<Longrightarrow>
     usable_result (source_row d source b row n reasons) \<longleftrightarrow> positive (jget row ''valid_timeseries_days'')"
  by (auto simp: usable_result_def source_row_def)

lemma day_of_rows [simp]:
  "sr_day_utc (source_row d source b row n reasons) = JStr d" "sr_day_utc (unavailable_row d b st x y n reasons e) = JStr d"
  "\<not> usable_result (unavailable_row d b st x y n reasons e)"
  by (simp_all add: source_row_def unavailable_row_def usable_result_def)

lemma ens_readiness: "wh_ens (at_core F) (daily_readiness sx ws d) (\<lambda>_. at_core F) (\<lambda>_ _. False)"
proof -
  have k: "same.keeps (if shouldRunReadinessGate (ws_config ws) then readinessForDay sx ws d else wh_ret (ungated_readiness d))"
    by (intro same.keeps_if same.keeps_readiness same.keeps_simple)
  have u: "wh_ens (at_core F) (wh_upd (\<lambda>s. s\<lparr>wr_readiness := f s\<rparr>)) (\<lambda>_. at_core F) E" for f E
    by (rule ens_upd) simp
  have w: "wh_ens (at_core F) (warn m) (\<lambda>_. at_core F) E" for m E
    unfolding warn_def by (rule ens_upd) simp
  show ?thesis
    unfolding daily_readiness_def
  proof (rule ens_catch [where R = "\<lambda>_. at_core F"], rule ens_bind [OF ens_same [OF k]], rule ens_bind [OF u],
      rule ens_bind [where R = "\<lambda>_. at_core F"])
    fix r :: readiness
    let ?m = "''A prior successful run covered '' @ d @ ''; recalculation continued as required.''"
    show "wh_ens (at_core F) (if rd_already_completed r then warn ?m else wh_ret ()) (\<lambda>_. at_core F) (\<lambda>_. at_core F)"
      by (simp add: w ens_ret)
  next
    show "wh_ens (at_core F) (wh_ret (rd_ready r, if rd_ready r then [] else [''database_not_ready'']))
      (\<lambda>_. at_core F) (\<lambda>_. at_core F)" for r
      by (rule ens_ret)
  next
    fix e
    show "wh_ens (at_core F)
      (wh_bind (wh_upd (\<lambda>s. s\<lparr>wr_readiness := jm_set d (ReadinessFailed (who_message e)) (wr_readiness s)\<rparr>)) (\<lambda>_.
        wh_bind (warn (''Obs AQI DB readiness was unavailable for '' @ d @ ''; exact-day R2 fallback was attempted.'')) (\<lambda>_.
          wh_ret (False, [''database_readiness_failed'']))))
      (\<lambda>_. at_core F) (\<lambda>_ _. False)"
      by (rule ens_bind [OF u], rule ens_bind [OF w], rule ens_ret)
  qed
qed

lemma ens_database:
  "wh_ens (at_core F) (daily_database sx ws d reasons)
     (\<lambda>(finished, _) s. if finished then day_added d F (core s) else core s = F) (\<lambda>_ _. False)"
proof -
  have w: "wh_ens (at_core F) (warn m) (\<lambda>_. at_core F) E" for m E
    unfolding warn_def by (rule ens_upd) simp
  show ?thesis
    unfolding daily_database_def
  proof (rule ens_catch [where R = "\<lambda>_. at_core F"])
    show "wh_ens (at_core F) (wh_bind (refreshObsDay sx ws d) (\<lambda>row.
          if positive (jget row ''valid_timeseries_days'')
          then wh_bind (complete_day d row (source_row d ''obs_aqidb'' (Some ''obs_aqidb'') row 0 [''database_used'']))
            (\<lambda>_. wh_ret (True, reasons))
          else wh_bind (warn (''Obs AQI DB refresh returned zero valid timeseries days for '' @ d
              @ ''; exact-day R2 fallback was attempted.'')) (\<lambda>_.
            wh_ret (False, reasons @ [''database_ready_but_zero_valid_days'']))))
        (\<lambda>(finished, _) s. if finished then day_added d F (core s) else core s = F) (\<lambda>_. at_core F)"
    proof (rule ens_bind [OF ens_obs_day])
      fix row
      let ?P = "\<lambda>s. core s = F \<and> \<not> is_nullish row"
      show "wh_ens ?P (if positive (jget row ''valid_timeseries_days'')
          then wh_bind (complete_day d row (source_row d ''obs_aqidb'' (Some ''obs_aqidb'') row 0 [''database_used'']))
            (\<lambda>_. wh_ret (True, reasons))
          else wh_bind (warn (''Obs AQI DB refresh returned zero valid timeseries days for '' @ d
              @ ''; exact-day R2 fallback was attempted.'')) (\<lambda>_.
            wh_ret (False, reasons @ [''database_ready_but_zero_valid_days''])))
        (\<lambda>(finished, _) s. if finished then day_added d F (core s) else core s = F) (\<lambda>_. at_core F)"
      proof (cases "is_nullish row")
        case False
        then show ?thesis
          by (auto simp: usable_source_row intro!: ens_bind [OF ens_complete] ens_bind [OF w] ens_ret)
      qed (simp add: wh_ens_def)
    qed
  next
    fix e
    show "wh_ens (at_core F) (wh_bind (warn (''Obs AQI DB refresh failed for '' @ d @ ''; exact-day R2 fallback was attempted: ''
           @ take 300 (who_message e))) (\<lambda>_. wh_ret (False, reasons @ [''database_refresh_failed''])))
        (\<lambda>(finished, _) s. if finished then day_added d F (core s) else core s = F) (\<lambda>_ _. False)"
      by (rule ens_bind [OF w]) (rule ens_ret, simp)
  qed
qed

lemma ens_bucket: "wh_ens (at_core F) (daily_bucket sx ws d reasons) (\<lambda>_ s. day_added d F (core s)) (\<lambda>_ _. False)"
proof -
  let ?added = "\<lambda>_ s. day_added d F (core s)"
  have w: "wh_ens (\<lambda>s. day_added d F (core s)) (warn m) ?added E" for m E
    by (rule ens_warn)
  show ?thesis
    unfolding daily_bucket_def
  proof (rule ens_catch [where R = "\<lambda>_. at_core F"], rule ens_bind [OF ens_r2_day], goal_cases)
    case (1 x)
    obtain prepared row where x: "x = (prepared, row)" by (cases x)
    have u: "wh_ens (\<lambda>s. core s = F \<and> \<not> is_nullish row) (use_evidence m n) (\<lambda>_ s. core s = F \<and> \<not> is_nullish row) E" for m n E
      unfolding use_evidence_def by (rule ens_upd) simp
    have n: "wh_ens (\<lambda>s. core s = F \<and> \<not> is_nullish row) m Q E"
      if "\<not> is_nullish row \<Longrightarrow> wh_ens (at_core F) m Q E" for m :: "unit who" and Q E
      using that by (cases "is_nullish row") (auto simp: wh_ens_def)
    show ?case
      unfolding x prod.case Let_def
    proof (rule ens_bind [OF u], rule n)
      assume r: "\<not> is_nullish row"
      show "wh_ens (at_core F) (if positive (jget row ''valid_timeseries_days'')
          then complete_day d row (source_row d ''r2_v2'' (Some ''r2_v2'') row (int (length (pd_preparedRows prepared)))
            (reasons @ [''r2_fallback_used'']))
          else wh_bind (add_source (unavailable_row d (Some ''r2_v2'') ''unusable'' (jget row ''not_enough_data_timeseries_days'')
              (jget row ''rows_upserted'') (int (length (pd_preparedRows prepared)))
              (reasons @ [''r2_fallback_zero_valid_days'']) None)) (\<lambda>_.
            warn (''R2 fallback returned zero valid timeseries days for '' @ d
              @ ''; the calculated day is unusable and was not selected for publication.'')))
        ?added (\<lambda>_. at_core F)"
        by (cases "positive (jget row ''valid_timeseries_days'')")
          (simp_all add: r usable_source_row ens_complete ens_bind [OF ens_unusable w])
    qed
  next
    case (2 e)
    have q: "wh_ens (at_core F) (error_evidence e) (\<lambda>_. at_core F) (\<lambda>_ _. False)"
      by (cases e) (simp_all add: error_evidence_def use_evidence_def wh_ens_def wh_upd_def wh_bind_def)
    show ?case
      by (rule ens_bind [OF q], rule ens_bind [OF ens_unusable w]) simp_all
  qed
qed

lemma ens_day: "wh_ens (at_core F) (daily_day sx ws d) (\<lambda>_ s. day_added d F (core s)) (\<lambda>_ _. False)"
  unfolding daily_day_def
proof (rule ens_bind [OF ens_readiness], goal_cases)
  case (1 x)
  obtain ready reasons where x: "x = (ready, reasons)" by (cases x)
  have k: "wh_ens (at_core F) (if ready then daily_database sx ws d reasons else wh_ret (False, reasons))
      (\<lambda>(finished, _) s. if finished then day_added d F (core s) else core s = F) (\<lambda>_ _. False)"
    by (cases ready) (simp_all only: if_True if_False ens_database, rule ens_ret, simp)
  show ?case
    unfolding x prod.case
  proof (rule ens_bind [OF k], goal_cases)
    case (1 y)
    show ?case by (cases y; cases "fst y") (auto intro: ens_ret ens_bucket)
  qed
qed

section \<open>All days of a normal run\<close>

text \<open>The results that were added, one for each day, and the days and rows that follow from them.\<close>

definition days_added :: "string list \<Rightarrow> who_run \<Rightarrow> who_run \<Rightarrow> bool" where
  "days_added ds F F' \<longleftrightarrow> (\<exists>results rows. List.map sr_day_utc results = List.map JStr ds
     \<and> F' = F\<lparr>wr_rows := wr_rows F @ rows,
         wr_completed := wr_completed F @ List.map fst (filter (\<lambda>dr. usable_result (snd dr)) (zip ds results)),
         wr_sources := wr_sources F @ results\<rparr>
     \<and> (\<forall>row \<in> set rows. \<not> is_nullish row))"

lemma days_added_Nil: "days_added [] F F"
  unfolding days_added_def by (intro exI [of _ "[]"]) simp

lemma days_added_Cons:
  assumes "day_added d F G" "days_added ds G H"
  shows "days_added (d # ds) F H"
proof -
  obtain result rows where 1: "sr_day_utc result = JStr d"
    "G = F\<lparr>wr_rows := wr_rows F @ rows, wr_completed := wr_completed F @ (if usable_result result then [d] else []),
      wr_sources := wr_sources F @ [result]\<rparr>" "\<forall>row \<in> set rows. \<not> is_nullish row"
    using assms(1) unfolding day_added_def by blast
  obtain results rows' where 2: "List.map sr_day_utc results = List.map JStr ds"
    "H = G\<lparr>wr_rows := wr_rows G @ rows',
      wr_completed := wr_completed G @ List.map fst (filter (\<lambda>dr. usable_result (snd dr)) (zip ds results)),
      wr_sources := wr_sources G @ results\<rparr>" "\<forall>row \<in> set rows'. \<not> is_nullish row"
    using assms(2) unfolding days_added_def by blast
  show ?thesis
    unfolding days_added_def using 1 2 by (intro exI [of _ "result # results"] exI [of _ "rows @ rows'"]) auto
qed

lemma ens_days: "wh_ens (at_core F) (wh_each (daily_day sx ws) ds) (\<lambda>_ s. days_added ds F (core s)) (\<lambda>_ _. False)"
proof (induction ds arbitrary: F)
  case Nil
  show ?case by (auto intro: ens_ret simp: days_added_Nil)
next
  case (Cons d ds)
  have "wh_ens (\<lambda>s. day_added d F (core s)) (wh_each (daily_day sx ws) ds) (\<lambda>_ s. days_added (d # ds) F (core s)) (\<lambda>_ _. False)"
    unfolding wh_ens_def
  proof (intro allI impI)
    fix s assume s: "day_added d F (core s)"
    have "case wh_each (daily_day sx ws) ds s of (Inl e, s') \<Rightarrow> False | (Inr x, s') \<Rightarrow> days_added ds (core s) (core s')"
      using Cons.IH [of "core s"] by (simp add: wh_ens_def)
    then show "case wh_each (daily_day sx ws) ds s of (Inl e, s') \<Rightarrow> False | (Inr x, s') \<Rightarrow> days_added (d # ds) F (core s')"
      using days_added_Cons [OF s] by (auto split: prod.splits sum.splits)
  qed
  then show ?case by (auto intro: ens_bind [OF ens_day])
qed

section \<open>A day of a backfill\<close>

definition day_done :: "string \<Rightarrow> who_run \<Rightarrow> who_run \<Rightarrow> bool" where
  "day_done d F F' \<longleftrightarrow> (\<exists>result row. sr_day_utc result = JStr d \<and> sr_source result \<noteq> ''unavailable''
     \<and> F' = F\<lparr>wr_rows := wr_rows F @ [row], wr_completed := wr_completed F @ [d], wr_sources := wr_sources F @ [result]\<rparr>
     \<and> \<not> is_nullish row)"

definition day_failed :: "string \<Rightarrow> who_run \<Rightarrow> who_run \<Rightarrow> bool" where
  "day_failed d F F' \<longleftrightarrow> (\<exists>result. sr_day_utc result = JStr d \<and> sr_calculation_status result = ''failed''
     \<and> \<not> usable_result result \<and> F' = F\<lparr>wr_failed_day := Some d, wr_sources := wr_sources F @ [result]\<rparr>)"

lemma ens_done:
  assumes "sr_day_utc result = JStr d" "sr_source result \<noteq> ''unavailable''" "\<not> is_nullish row"
  shows "wh_ens (at_core F) (complete_day d row result) (\<lambda>_ s. day_done d F (core s)) E"
  unfolding complete_day_def
proof (rule ens_upd)
  fix s assume "core s = F"
  then show "day_done d F (core (s\<lparr>wr_rows := wr_rows s @ [row], wr_completed := wr_completed s @ [d],
      wr_sources := wr_sources s @ [result]\<rparr>))"
    using assms unfolding day_done_def by (intro exI [of _ result] exI [of _ row]) (auto simp: core_steps)
qed

lemma same_boundary: "same.keeps (backfill_boundary sx ws d so)"
  unfolding backfill_boundary_def
  by (auto intro!: same.keeps_bind same.keeps_simple same.keeps_catch same.keeps_boundary same.keeps_upd
      split: prod.split sum.split)

text \<open>What is done with a row that is not null.\<close>

lemma ens_row:
  "(\<not> is_nullish row \<Longrightarrow> wh_ens (at_core F) m Q E) \<Longrightarrow> wh_ens (\<lambda>s. core s = F \<and> \<not> is_nullish row) m Q E"
  by (cases "is_nullish row") (auto simp: wh_ens_def)

lemma ens_backfill_database:
  "wh_ens (at_core F) (backfill_database sx ws d metrics) (\<lambda>_ s. day_done d F (core s)) (\<lambda>_. at_core F)"
proof -
  have u: "wh_ens (at_core F) (wh_upd (\<lambda>s. s\<lparr>wr_target_source := a, wr_boundary_source := b\<rparr>)) (\<lambda>_. at_core F) E" for a b E
    by (rule ens_upd) simp
  have c: "wh_ens (at_core F) (wh_catch (refreshObsDay sx ws d) (\<lambda>e. wh_fail (g e)))
      (\<lambda>row s. core s = F \<and> \<not> is_nullish row) (\<lambda>_. at_core F)" for g
    by (rule ens_catch [OF ens_obs_day]) (rule ens_fail)
  show ?thesis
    unfolding backfill_database_def
    by (rule ens_bind [OF u], rule ens_bind [OF c], rule ens_row, rule ens_done) (simp_all add: source_row_def)
qed

lemma ens_backfill_bucket:
  "wh_ens (at_core F) (backfill_bucket sx ws d so) (\<lambda>_ s. day_done d F (core s)) (\<lambda>_. at_core F)"
proof -
  have u: "wh_ens (\<lambda>s. core s = F \<and> \<not> is_nullish row) (use_evidence m n) (\<lambda>_ s. core s = F \<and> \<not> is_nullish row) E"
    for m n row E
    unfolding use_evidence_def by (rule ens_upd) simp
  have body: "wh_ens (at_core F)
      (wh_bind (prepare_day sx ws d boundaryRows so') (\<lambda>prepared.
       wh_bind (upsertPreparedDay sx ws d prepared) (\<lambda>row.
       wh_bind (use_evidence (pd_metrics prepared) (int (length (pd_preparedRows prepared)))) (\<lambda>_.
         complete_day d row (source_row d ''r2_v2'' b row (n prepared) (reasons row))))))
      (\<lambda>_ s. day_done d F (core s)) (\<lambda>_. at_core F)" for boundaryRows so' b n reasons
    by (rule ens_bind [OF ens_same [OF same.keeps_prepare]], rule ens_bind [OF ens_upsert], rule ens_bind [OF u],
        rule ens_row, rule ens_done) (simp_all add: source_row_def)
  show ?thesis
    unfolding backfill_bucket_def
  proof (rule ens_bind [OF ens_same [OF same_boundary]], goal_cases)
    case (1 x)
    show ?case by (cases x) (simp only: prod.case, rule body)
  qed
qed

lemma day_failed_added:
  assumes "core s = F\<lparr>wr_failed_day := Some d\<rparr>" "sr_day_utc result = JStr d" "sr_calculation_status result = ''failed''"
    "\<not> usable_result result"
  shows "day_failed d F (core (s\<lparr>wr_sources := wr_sources s @ [result]\<rparr>))"
proof -
  have "wr_sources s = wr_sources F" using arg_cong [OF assms(1), of wr_sources] by simp
  then show ?thesis
    using assms unfolding day_failed_def by (intro exI [of _ result]) (simp add: core_steps)
qed

lemma ens_backfill_day:
  "wh_ens (at_core F) (backfill_day sx ws d) (\<lambda>_ s. day_done d F (core s)) (\<lambda>_ s. day_failed d F (core s))"
proof -
  have u: "wh_ens (at_core F) (wh_upd (\<lambda>s. s\<lparr>wr_target_source := a, wr_boundary_source := b\<rparr>)) (\<lambda>_. at_core F) E" for a b E
    by (rule ens_upd) simp
  have v: "wh_ens (at_core F) (wh_upd (\<lambda>s. s\<lparr>wr_target_source := a\<rparr>)) (\<lambda>_. at_core F) E" for a E
    by (rule ens_upd) simp
  have try_day: "wh_ens (at_core F) (backfill_try sx ws d) (\<lambda>_ s. day_done d F (core s)) (\<lambda>_. at_core F)"
  proof (cases "ws_r2 ws = None")
    case True
    then show ?thesis by (simp add: backfill_try_def ens_error)
  next
    case False
    show ?thesis
      unfolding backfill_try_def if_not_P [OF False]
      by (rule ens_bind [OF v])
        (auto intro: ens_backfill_bucket ens_backfill_database ens_fail split: prod.split sum.split)
  qed
  have failed: "wh_ens (at_core F) (backfill_failed d e) (\<lambda>_ s. day_done d F (core s)) (\<lambda>_ s. day_failed d F (core s))" for e
  proof -
    let ?G = "F\<lparr>wr_failed_day := Some d\<rparr>"
    have 1: "wh_ens (at_core F) (wh_upd (\<lambda>s. s\<lparr>wr_failed_day := Some d\<rparr>)) (\<lambda>_. at_core ?G) E" for E
      by (rule ens_upd) (auto simp: core_steps)
    have 2: "wh_ens (at_core ?G) (error_evidence e) (\<lambda>_. at_core ?G) E" for E
      by (cases e) (simp_all add: error_evidence_def use_evidence_def wh_ens_def wh_upd_def wh_bind_def)
    show ?thesis
      unfolding backfill_failed_def
    proof (rule ens_bind [OF 1], rule ens_bind [OF 2], rule ens_bind [where R = "\<lambda>_ s. day_failed d F (core s)"],
        rule ens_upd, goal_cases)
      case (1 _ _ s)
      then show ?case by (rule day_failed_added) (simp_all add: usable_result_def positive_def)
    next
      case (2 _ _ x)
      show ?case by (rule ens_fail)
    qed
  qed
  show ?thesis
    unfolding backfill_day_def by (rule ens_bind [OF u], rule ens_catch [OF try_day failed])
qed

text \<open>A backfill completes its days in order, or a prefix of them up to the day that failed.\<close>

definition backfilled :: "string list \<Rightarrow> who_run \<Rightarrow> who_run \<Rightarrow> bool" where
  "backfilled ds F F' \<longleftrightarrow> (\<exists>results rows. List.map sr_day_utc results = List.map JStr ds
     \<and> (\<forall>result \<in> set results. sr_source result \<noteq> ''unavailable'')
     \<and> F' = F\<lparr>wr_rows := wr_rows F @ rows, wr_completed := wr_completed F @ ds, wr_sources := wr_sources F @ results\<rparr>
     \<and> (\<forall>row \<in> set rows. \<not> is_nullish row))"

definition backfill_stopped :: "string list \<Rightarrow> who_run \<Rightarrow> who_run \<Rightarrow> bool" where
  "backfill_stopped ds F F' \<longleftrightarrow> (\<exists>before d after G. ds = before @ d # after \<and> backfilled before F G \<and> day_failed d G F')"

lemma backfilled_Nil: "backfilled [] F F"
  unfolding backfilled_def by (intro exI [of _ "[]"]) simp

lemma backfilled_Cons:
  assumes "day_done d F G" "backfilled ds G H"
  shows "backfilled (d # ds) F H"
proof -
  obtain result row where 1: "sr_day_utc result = JStr d" "sr_source result \<noteq> ''unavailable''"
    "G = F\<lparr>wr_rows := wr_rows F @ [row], wr_completed := wr_completed F @ [d], wr_sources := wr_sources F @ [result]\<rparr>"
    "\<not> is_nullish row"
    using assms(1) unfolding day_done_def by blast
  obtain results rows where 2: "List.map sr_day_utc results = List.map JStr ds"
    "\<forall>result \<in> set results. sr_source result \<noteq> ''unavailable''"
    "H = G\<lparr>wr_rows := wr_rows G @ rows, wr_completed := wr_completed G @ ds, wr_sources := wr_sources G @ results\<rparr>"
    "\<forall>row \<in> set rows. \<not> is_nullish row"
    using assms(2) unfolding backfilled_def by blast
  show ?thesis
    unfolding backfilled_def using 1 2 by (intro exI [of _ "result # results"] exI [of _ "row # rows"]) auto
qed

lemma backfill_stopped_Cons: "day_done d F G \<Longrightarrow> backfill_stopped ds G H \<Longrightarrow> backfill_stopped (d # ds) F H"
  unfolding backfill_stopped_def using backfilled_Cons by (metis append_Cons)

lemma ens_backfill:
  "wh_ens (at_core F) (wh_each (backfill_day sx ws) ds) (\<lambda>_ s. backfilled ds F (core s)) (\<lambda>_ s. backfill_stopped ds F (core s))"
proof (induction ds arbitrary: F)
  case Nil
  show ?case by (auto intro: ens_ret simp: backfilled_Nil)
next
  case (Cons d ds)
  have f: "backfill_stopped (d # ds) F H" if "day_failed d F H" for H
    using that backfilled_Nil [of F] unfolding backfill_stopped_def by (metis append_Nil)
  have "wh_ens (\<lambda>s. day_done d F (core s)) (wh_each (backfill_day sx ws) ds)
      (\<lambda>_ s. backfilled (d # ds) F (core s)) (\<lambda>_ s. backfill_stopped (d # ds) F (core s))"
    unfolding wh_ens_def
  proof (intro allI impI)
    fix s assume s: "day_done d F (core s)"
    have "case wh_each (backfill_day sx ws) ds s of (Inl e, s') \<Rightarrow> backfill_stopped ds (core s) (core s')
        | (Inr x, s') \<Rightarrow> backfilled ds (core s) (core s')"
      using Cons.IH [of "core s"] by (simp add: wh_ens_def)
    then show "case wh_each (backfill_day sx ws) ds s of (Inl e, s') \<Rightarrow> backfill_stopped (d # ds) F (core s')
        | (Inr x, s') \<Rightarrow> backfilled (d # ds) F (core s')"
      using backfilled_Cons [OF s] backfill_stopped_Cons [OF s] by (auto split: prod.splits sum.splits)
  qed
  then have rest: "\<And>x. wh_ens (\<lambda>s. day_done d F (core s)) (wh_each (backfill_day sx ws) ds)
      (\<lambda>_ s. backfilled (d # ds) F (core s)) (\<lambda>_ s. backfill_stopped (d # ds) F (core s))" .
  have first: "wh_ens (at_core F) (backfill_day sx ws d) (\<lambda>_ s. day_done d F (core s)) (\<lambda>_ s. backfill_stopped (d # ds) F (core s))"
    by (rule ens_weaken [OF ens_backfill_day]) (simp_all add: f)
  show ?case unfolding wh_each.simps by (rule ens_bind [OF first rest])
qed

section \<open>The day to publish\<close>

lemma char_less_code: "c < d \<longleftrightarrow> char_code c < char_code d"
  by (metis less_char_def of_nat_less_iff of_nat_of_char)

lemma collation_rank_less:
  assumes "is_digit x \<or> x = CHR ''-''" "is_digit y \<or> y = CHR ''-''" "x < y"
  shows "collation_rank x < collation_rank y"
proof -
  have r: "collation_rank c = (if is_digit c then 200 + char_code c else 45)" if "is_digit c \<or> c = CHR ''-''" for c
    using that by (auto simp: collation_rank_def char_lower_def is_digit_def Let_def)
  have c: "is_digit c \<Longrightarrow> 48 \<le> char_code c" for c by (simp add: is_digit_def)
  show ?thesis
    using assms c [of x] c [of y] by (auto simp: r char_less_code)
qed

lemma map_rank_less:
  assumes "length s = length t" "list_all (\<lambda>c. is_digit c \<or> c = CHR ''-'') s" "list_all (\<lambda>c. is_digit c \<or> c = CHR ''-'') t" "s < t"
  shows "List.map collation_rank s < List.map collation_rank t"
  using assms by (induction s t rule: list_induct2) (auto intro: collation_rank_less)

lemma day_chars: "valid_day n \<Longrightarrow> list_all (\<lambda>c. is_digit c \<or> c = CHR ''-'') (iso_day n)"
  using iso_day_shape [of n] by (auto simp: list_all2_shape)

lemma collation_day_le:
  assumes "valid_day a" "valid_day b" "collation_key (iso_day a) \<le> collation_key (iso_day b)"
  shows "a \<le> b"
proof (rule ccontr)
  assume "\<not> a \<le> b"
  then have "iso_day b < iso_day a" using iso_day_less_iff assms by simp
  then have "List.map collation_rank (iso_day b) < List.map collation_rank (iso_day a)"
    using assms day_chars iso_day_length by (intro map_rank_less) (auto simp: valid_day_def)
  then show False using assms(3) by (auto simp: collation_key_def less_eq_prod_def)
qed

lemma sort_key_last_ge:
  assumes "x \<in> set xs"
  shows "k x \<le> k (last (sort_key k xs))"
proof -
  define ys where "ys = sort_key k xs"
  have s: "sorted (List.map k ys)" "x \<in> set ys" using assms by (simp_all add: ys_def)
  have ne: "ys \<noteq> []" using s(2) by auto
  obtain i where "i < length ys" "x = ys ! i" using s(2) by (auto simp: in_set_conv_nth)
  then have "List.map k ys ! i \<le> List.map k ys ! (length ys - 1)"
    using s by (intro sorted_nth_mono) auto
  then show ?thesis using \<open>i < length ys\<close> \<open>x = ys ! i\<close> ne by (simp add: last_conv_nth ys_def)
qed

text \<open>The selected day has a usable result, and no usable result has a later day.\<close>

lemma selectNewest_days:
  assumes days: "\<And>r. r \<in> set results \<Longrightarrow> \<exists>n. valid_day n \<and> sr_day_utc r = JStr (iso_day n)"
  shows "(selectNewestUsablePublicationDay results = None \<longleftrightarrow> \<not> (\<exists>r \<in> set results. usable_result r))
    \<and> (\<forall>d. selectNewestUsablePublicationDay results = Some d \<longrightarrow> (\<exists>n. valid_day n \<and> d = iso_day n
        \<and> (\<exists>r \<in> set results. usable_result r \<and> sr_day_utc r = JStr d)
        \<and> (\<forall>r \<in> set results. \<forall>m. usable_result r \<and> valid_day m \<and> sr_day_utc r = JStr (iso_day m) \<longrightarrow> m \<le> n)))"
proof -
  define xs where "xs = List.map js_string (usable_days results)"
  define d where "d = last (sort_key collation_key xs)"
  have xs: "x \<in> set xs \<longleftrightarrow> (\<exists>r \<in> set results. usable_result r \<and> sr_day_utc r = JStr x)" for x
    using days by (auto simp: xs_def usable_days_def image_iff) (metis js_string.simps(5))+
  have none: "sort_key collation_key xs = [] \<longleftrightarrow> \<not> (\<exists>r \<in> set results. usable_result r)"
  proof -
    have "sort_key collation_key xs = [] \<longleftrightarrow> xs = []" by (metis set_empty set_sort_key')
    moreover have "xs = [] \<longleftrightarrow> filter usable_result results = []" by (simp add: xs_def usable_days_def)
    ultimately show ?thesis by (auto simp: filter_empty_conv)
  qed
  show ?thesis
  proof (cases "sort_key collation_key xs = []")
    case True
    then show ?thesis using none by (simp add: selectNewestUsablePublicationDay_def Let_def xs_def)
  next
    case False
    then have "d \<in> set xs" using last_in_set [of "sort_key collation_key xs"] by (simp add: d_def)
    then obtain r where r: "r \<in> set results" "usable_result r" "sr_day_utc r = JStr d" using xs by blast
    obtain n where n: "valid_day n" "d = iso_day n" using days [OF r(1)] r(3) by auto
    have "d \<noteq> []" using iso_day_length [of n] n by (auto simp: valid_day_def)
    then have sel: "selectNewestUsablePublicationDay results = Some d"
      using False by (simp add: selectNewestUsablePublicationDay_def Let_def d_def xs_def)
    have "m \<le> n" if "r' \<in> set results" "usable_result r'" "valid_day m" "sr_day_utc r' = JStr (iso_day m)" for r' m
    proof -
      have "iso_day m \<in> set xs" using that xs by blast
      then have "collation_key (iso_day m) \<le> collation_key d" unfolding d_def by (rule sort_key_last_ge)
      then show ?thesis using collation_day_le that n by simp
    qed
    then show ?thesis using sel r n by auto
  qed
qed

section \<open>The whole run\<close>

text \<open>What the steps after the loops over days leave alone.\<close>

definition view :: "who_run \<Rightarrow> source_result list \<times> string list \<times> jsval list \<times> string option \<times> string option" where
  "view s = (wr_sources s, wr_completed s, wr_rows s, wr_failed_day s, wr_publication_day s)"

interpretation kept: call_order "\<lambda>s t. view t = view s"
  by unfold_locales (simp_all add: view_def)

lemma ens_kept:
  assumes "kept.keeps m"
  shows "wh_ens (\<lambda>s. P (view s)) m (\<lambda>_ s. P (view s)) (\<lambda>_ s. P (view s))"
  unfolding wh_ens_def by (auto dest: kept.keepsD [OF assms] split: prod.splits sum.splits)

lemma view_upd [simp]:
  "view (s\<lparr>wr_summary := a\<rparr>) = view s" "view (s\<lparr>wr_summary_completed := b\<rparr>) = view s"
  "view (s\<lparr>wr_publish := q\<rparr>) = view s" "view (s\<lparr>wr_outcome := c\<rparr>) = view s" "view (s\<lparr>wr_bucket := d\<rparr>) = view s"
  "view (s\<lparr>wr_operations := n\<rparr>) = view s" "view (s\<lparr>wr_warnings := w\<rparr>) = view s"
  by (simp_all add: view_def)

lemma kept_upd:
  "kept.keeps (wh_upd (\<lambda>s. s\<lparr>wr_summary := f s\<rparr>))" "kept.keeps (wh_upd (\<lambda>s. s\<lparr>wr_summary_completed := b\<rparr>))"
  "kept.keeps (wh_upd (\<lambda>s. s\<lparr>wr_publish := q\<rparr>))" "kept.keeps (wh_upd (\<lambda>s. s\<lparr>wr_outcome := g s\<rparr>))"
  by (auto intro!: kept.keeps_upd)

lemma kept_r2: "kept.keeps (r2_operation sx f)"
  by (auto simp: kept.keeps_def r2_operation_def Let_def split: option.split r2_fault.split)

lemma kept_put: "kept.keeps (putR2ObjectIfChanged sx key body h)"
  unfolding putR2ObjectIfChanged_def put_object_def
  by (auto intro!: kept.keeps_bind kept.keeps_simple kept_r2 split: option.split)

lemma kept_publish_batch: "kept.keeps (publish_batch sx usable batch)"
  unfolding publish_batch_def
  by (auto intro!: kept.keeps_bind kept.keeps_simple kept.keeps_if kept_put simp del: if_split)

lemma kept_publish: "kept.keeps (publishOutputs sx ws d usable summary homepage)"
  unfolding publishOutputs_def publish_parquet_def publish_json_def Let_def
  by (intro kept.keeps_if kept.keeps_bind kept.keeps_simple kept.keeps_post_data kept.keeps_collect kept_publish_batch kept_put)

lemma kept_publish_run: "kept.keeps (publish_run sx ws d)"
  unfolding publish_run_def Let_def
  by (auto intro!: kept.keeps_bind kept.keeps_simple kept_publish kept_upd split: prod.split)

lemma kept_summary: "kept.keeps (refresh_summary sx ws d)"
  unfolding refresh_summary_def
  by (auto intro!: kept.keeps_bind kept.keeps_simple kept.keeps_post_data kept_upd)

lemma kept_log: "kept.keeps (logProcessingRun sx ws payload)"
  unfolding logProcessingRun_def
  by (auto intro!: kept.keeps_bind kept.keeps_simple kept.keeps_post_data split: jsval.split)

text \<open>The steps of the body after the loop over days.\<close>

definition after_days :: "services \<Rightarrow> who_settings \<Rightarrow> unit who" where
  "after_days sx ws =
     (let c = ws_config ws in
      wh_bind (wh_get (\<lambda>s. mergeDailyRefreshRows (wr_rows s))) (\<lambda>merged.
      wh_bind (wh_res merged) (\<lambda>daily.
      wh_bind (wh_get wr_publication_day) (\<lambda>publicationDay.
      wh_bind (case publicationDay of
          Some d \<Rightarrow> if wc_summaryRefreshEnabled c then refresh_summary sx ws d else wh_ret ()
        | None \<Rightarrow> wh_ret ()) (\<lambda>_.
      wh_bind (case publicationDay of
          Some d \<Rightarrow> if \<not> wc_dryRun c \<and> (wc_r2PublishEnabled c \<or> wc_parquetR2WriteEnabled c)
            then publish_run sx ws d else wh_ret ()
        | None \<Rightarrow> wh_ret ()) (\<lambda>_.
      wh_upd (\<lambda>s. s\<lparr>wr_outcome := outcome_of_run c daily s\<rparr>)))))))"

lemma kept_after_days: "kept.keeps (after_days sx ws)"
  unfolding after_days_def Let_def
  by (auto intro!: kept.keeps_bind kept.keeps_simple kept_summary kept_publish_run kept_upd split: option.split)

definition days_of_run :: "services \<Rightarrow> who_settings \<Rightarrow> unit who" where
  "days_of_run sx ws = (case wc_runMode (ws_config ws) of
     BackfillRun \<Rightarrow> run_backfill sx ws | DailyRun \<Rightarrow> run_daily sx ws | DryRun \<Rightarrow> run_dry sx ws)"

text \<open>The body, once the day of the correction is known.\<close>

definition started :: "who_settings \<Rightarrow> string \<Rightarrow> who_run \<Rightarrow> who_run" where
  "started ws correction s =
     s\<lparr>wr_latest_complete_day := Some (wc_latestCompleteDayUtc (ws_config ws)), wr_correction_day := Some correction\<rparr>"

lemma bind_done:
  "wh_bind (wh_upd f) g s = g () (f s)" "wh_bind (wh_res (Inr x)) h s = h x s"
  by (simp_all add: wh_bind_def wh_upd_def wh_res_def)

lemma run_body_started:
  assumes "(if wc_runMode (ws_config ws) = DailyRun then addDays (wc_latestCompleteDayUtc (ws_config ws)) (Fin (- 1))
    else Inr (wc_startDayUtc (ws_config ws))) = Inr correction"
  shows "run_body sx ws s = wh_bind (days_of_run sx ws) (\<lambda>_. after_days sx ws) (started ws correction s)"
  unfolding run_body_def Let_def assms bind_done
  by (simp add: started_def days_of_run_def after_days_def Let_def)

text \<open>What the loop over days leaves: results, completed days, rows, the failed day and the day to publish.\<close>

type_synonym days_view = "source_result list \<times> string list \<times> jsval list \<times> string option \<times> string option"

definition daily_view :: "string list \<Rightarrow> days_view \<Rightarrow> bool" where
  "daily_view ds v \<longleftrightarrow> (\<exists>results rows. List.map sr_day_utc results = List.map JStr ds
     \<and> (\<forall>row \<in> set rows. \<not> is_nullish row)
     \<and> v = (results, List.map fst (filter (\<lambda>dr. usable_result (snd dr)) (zip ds results)), rows, None,
         selectNewestUsablePublicationDay results))"

definition backfill_view :: "string list \<Rightarrow> days_view \<Rightarrow> bool" where
  "backfill_view ds v \<longleftrightarrow> (\<exists>results rows. List.map sr_day_utc results = List.map JStr ds
     \<and> (\<forall>result \<in> set results. sr_source result \<noteq> ''unavailable'')
     \<and> (\<forall>row \<in> set rows. \<not> is_nullish row)
     \<and> v = (results, ds, rows, None, selectNewestUsablePublicationDay results))"

definition stopped_view :: "string list \<Rightarrow> days_view \<Rightarrow> bool" where
  "stopped_view ds v \<longleftrightarrow> (\<exists>before d after results result rows. ds = before @ d # after
     \<and> List.map sr_day_utc results = List.map JStr before
     \<and> (\<forall>r \<in> set results. sr_source r \<noteq> ''unavailable'')
     \<and> sr_day_utc result = JStr d \<and> sr_calculation_status result = ''failed''
     \<and> (\<forall>row \<in> set rows. \<not> is_nullish row)
     \<and> v = (results @ [result], before, rows, Some d, None))"

definition fresh :: "who_run \<Rightarrow> bool" where
  "fresh s \<longleftrightarrow> view s = ([], [], [], None, None)"

lemma core_view: "core t = core s \<Longrightarrow> view t = view s"
  using core_fields unfolding view_def by metis

lemma view_core [simp]: "view (core s) = view s"
  by (simp add: view_def)

lemma fresh_core [simp]: "fresh (core s) = fresh s"
  by (simp add: fresh_def)

lemma ens_daily:
  assumes "fresh F" "listDaysInclusive (wc_startDayUtc (ws_config ws)) (wc_endDayUtc (ws_config ws)) = Some (Inr ds)"
  shows "wh_ens (at_core F) (run_daily sx ws) (\<lambda>_ s. daily_view ds (view s)) (\<lambda>_ _. False)"
  unfolding run_daily_def
proof (rule ens_bind [where R = "\<lambda>x s. core s = F \<and> x = ds"], goal_cases)
  case 1
  show ?case using assms(2) by (simp add: wh_ens_def wh_res_def returned_def)
next
  case (2 x)
  have d: "wh_ens (\<lambda>s. core s = F \<and> x = ds) (wh_each (daily_day sx ws) x) (\<lambda>_ s. days_added ds F (core s)) (\<lambda>_ _. False)"
    using ens_days [of F sx ws ds] by (cases "x = ds") (auto simp: wh_ens_def)
  show ?case
  proof (rule ens_bind [OF d], rule ens_upd, goal_cases)
    case (1 _ s)
    then obtain results rows where r: "List.map sr_day_utc results = List.map JStr ds"
      "core s = F\<lparr>wr_rows := wr_rows F @ rows,
         wr_completed := wr_completed F @ List.map fst (filter (\<lambda>dr. usable_result (snd dr)) (zip ds results)),
         wr_sources := wr_sources F @ results\<rparr>" "\<forall>row \<in> set rows. \<not> is_nullish row"
      unfolding days_added_def by blast
    have "view s = (results, List.map fst (filter (\<lambda>dr. usable_result (snd dr)) (zip ds results)), rows, None, None)"
      using arg_cong [OF r(2), of view] assms(1) by (simp add: view_def fresh_def)
    then show ?case
      using r unfolding daily_view_def by (intro exI [of _ results] exI [of _ rows]) (simp add: view_def Let_def)
  qed
qed

lemma ens_run_backfill:
  assumes "fresh F" "listDaysInclusive (wc_startDayUtc (ws_config ws)) (wc_endDayUtc (ws_config ws)) = Some (Inr ds)"
  shows "wh_ens (at_core F) (run_backfill sx ws) (\<lambda>_ s. backfill_view ds (view s))
    (\<lambda>_ s. stopped_view ds (view s) \<and> (\<exists>v w. core s = F\<lparr>wr_rows := v, wr_completed := fst w,
       wr_sources := fst (snd w), wr_failed_day := snd (snd w)\<rparr>))"
  unfolding run_backfill_def
proof (rule ens_bind [where R = "\<lambda>x s. core s = F \<and> x = ds"], goal_cases)
  case 1
  show ?case using assms(2) by (simp add: wh_ens_def wh_res_def returned_def)
next
  case (2 x)
  have stopped: "stopped_view ds (view s) \<and> (\<exists>v w. core s = F\<lparr>wr_rows := v, wr_completed := fst w,
       wr_sources := fst (snd w), wr_failed_day := snd (snd w)\<rparr>)" if s: "backfill_stopped ds F (core s)" for s
  proof -
    obtain before d after G where g: "ds = before @ d # after" "backfilled before F G" "day_failed d G (core s)"
      using s unfolding backfill_stopped_def by blast
    obtain results rows where r: "List.map sr_day_utc results = List.map JStr before"
      "\<forall>result \<in> set results. sr_source result \<noteq> ''unavailable''"
      "G = F\<lparr>wr_rows := wr_rows F @ rows, wr_completed := wr_completed F @ before, wr_sources := wr_sources F @ results\<rparr>"
      "\<forall>row \<in> set rows. \<not> is_nullish row"
      using g(2) unfolding backfilled_def by blast
    obtain result where f: "sr_day_utc result = JStr d" "sr_calculation_status result = ''failed''"
      "core s = G\<lparr>wr_failed_day := Some d, wr_sources := wr_sources G @ [result]\<rparr>"
      using g(3) unfolding day_failed_def by blast
    have v: "view s = (results @ [result], before, rows, Some d, None)"
      using arg_cong [OF f(3), of view] r(3) assms(1) by (simp add: view_def fresh_def)
    have c: "core s = F\<lparr>wr_rows := wr_rows F @ rows, wr_completed := wr_completed F @ before,
        wr_sources := wr_sources F @ results @ [result], wr_failed_day := Some d\<rparr>"
      using f(3) r(3) by simp
    have "stopped_view ds (view s)"
      unfolding stopped_view_def using g(1) r f v by blast
    moreover have "\<exists>v w. core s = F\<lparr>wr_rows := v, wr_completed := fst w, wr_sources := fst (snd w), wr_failed_day := snd (snd w)\<rparr>"
      using c by (intro exI [of _ "wr_rows F @ rows"]
          exI [of _ "(wr_completed F @ before, wr_sources F @ results @ [result], Some d)"]) simp
    ultimately show ?thesis ..
  qed
  have d: "wh_ens (\<lambda>s. core s = F \<and> x = ds) (wh_each (backfill_day sx ws) x)
      (\<lambda>_ s. backfilled ds F (core s)) (\<lambda>_ s. backfill_stopped ds F (core s))"
    using ens_backfill [of F sx ws ds] by (cases "x = ds") (auto simp: wh_ens_def)
  show ?case
  proof (rule ens_bind [OF ens_weaken [OF d]], assumption, erule stopped, rule ens_upd, goal_cases)
    case (1 _ s)
    then obtain results rows where r: "List.map sr_day_utc results = List.map JStr ds"
      "\<forall>result \<in> set results. sr_source result \<noteq> ''unavailable''"
      "core s = F\<lparr>wr_rows := wr_rows F @ rows, wr_completed := wr_completed F @ ds, wr_sources := wr_sources F @ results\<rparr>"
      "\<forall>row \<in> set rows. \<not> is_nullish row"
      unfolding backfilled_def by blast
    have v: "view s = (results, ds, rows, None, None)"
      using arg_cong [OF r(3), of view] assms(1) by (simp add: view_def fresh_def)
    show ?case
      unfolding backfill_view_def Let_def
      using r v by (intro exI [of _ results] exI [of _ rows]) (simp add: view_def)
  qed
qed

section \<open>The days of a configuration\<close>

lemma settings_config: "readSettings env now = Inr ws \<Longrightarrow> buildRunConfig (params_of_env env now) = Inr (ws_config ws)"
  by (auto simp: readSettings_def res_bind_Inr res_map_Inr split: if_splits)

lemma settings_daily:
  assumes "readSettings env now = Inr ws" "wc_runMode (ws_config ws) = DailyRun" "n = now div MS_DAY"
  shows "valid_day (n - 2)" "valid_day (n - 1)" "n - 1 < last_day" "wc_startDayUtc (ws_config ws) = iso_day (n - 2)"
    "wc_endDayUtc (ws_config ws) = iso_day (n - 1)" "wc_latestCompleteDayUtc (ws_config ws) = iso_day (n - 1)"
proof -
  let ?p = "params_of_env env now" and ?c = "ws_config ws"
  have c: "buildRunConfig ?p = Inr ?c" by (rule settings_config [OF assms(1)])
  obtain a b k where ab: "valid_day a" "valid_day b" "wc_startDayUtc ?c = iso_day a" "wc_endDayUtc ?c = iso_day b"
    "b = rp_now ?p div MS_DAY - 1 \<and> a = b - 1"
    by (rule buildRunConfig_ok [OF c]) (use assms(2) in blast)
  have now: "rp_now ?p = now" by (simp add: params_of_env_def Let_def)
  have b: "b = n - 1" "a = n - 2" using ab(5) now assms(3) by simp_all
  obtain latest where l: "latestCompleteDayUtc (rp_now ?p) (rp_maturityDelayHours ?p) = Inr latest"
    "wc_latestCompleteDayUtc ?c = latest"
    using c by (auto simp: buildRunConfig_def res_simps config_of_def split: prod.splits)
  have v: "valid_day n" using latestCompleteDayUtc_ok(1) [OF l(1)] now assms(3) by simp
  show "valid_day (n - 2)" "valid_day (n - 1)" "wc_startDayUtc ?c = iso_day (n - 2)" "wc_endDayUtc ?c = iso_day (n - 1)"
    using ab b by simp_all
  show "n - 1 < last_day" using v by (simp add: valid_day_iff)
  show "wc_latestCompleteDayUtc ?c = iso_day (n - 1)"
    using latestCompleteDayUtc_ok(2) [OF l(1)] l(2) now assms(3) ab(2) b take_iso_day by simp
qed

section \<open>The outcome of a run\<close>

lemma initial_started: "fresh (started ws d (initial_run bucket))"
  by (simp add: fresh_def view_def started_def initial_run_def)

text \<open>The steps after the days keep what the days have left.\<close>

lemma ens_after:
  assumes "wh_ens P m (\<lambda>_ s. Q (view s)) (\<lambda>e s. Q' e s)"
  shows "wh_ens P (wh_bind m (\<lambda>_. after_days sx ws)) (\<lambda>_ s. Q (view s)) (\<lambda>e s. Q (view s) \<or> Q' e s)"
proof (rule ens_bind [where R = "\<lambda>_ s. Q (view s)"])
  show "wh_ens P m (\<lambda>_ s. Q (view s)) (\<lambda>e s. Q (view s) \<or> Q' e s)"
    by (rule ens_weaken [OF assms]) simp_all
  show "wh_ens (\<lambda>s. Q (view s)) (after_days sx ws) (\<lambda>_ s. Q (view s)) (\<lambda>e s. Q (view s) \<or> Q' e s)" for x :: unit
    by (rule ens_weaken [OF ens_kept [OF kept_after_days]]) simp_all
qed

lemma body_daily:
  assumes "readSettings env now = Inr ws" "wc_runMode (ws_config ws) = DailyRun"
    "run_body sx ws (initial_run bucket) = (x, s)"
  shows "daily_view [iso_day (now div MS_DAY - 2), iso_day (now div MS_DAY - 1)] (view s)"
proof -
  define n where "n = now div MS_DAY"
  note day = settings_daily [OF assms(1,2) n_def]
  have "addDays (iso_day (n - 1)) (Fin (of_int (- 1))) = Inr (iso_day (n - 1 + - 1))"
    by (rule addDays_iso) (use day in simp_all)
  then have "addDays (iso_day (n - 1)) (Fin (- 1)) = Inr (iso_day (n - 2))" by simp
  then have body: "run_body sx ws (initial_run bucket)
      = wh_bind (days_of_run sx ws) (\<lambda>_. after_days sx ws) (started ws (iso_day (n - 2)) (initial_run bucket))"
    by (intro run_body_started) (simp add: assms(2) day)
  have "[n - 2..n - 1] = [n - 2, n - 1]" by (simp add: upto.simps)
  then have days: "listDaysInclusive (wc_startDayUtc (ws_config ws)) (wc_endDayUtc (ws_config ws))
      = Some (Inr [iso_day (n - 2), iso_day (n - 1)])"
    using listDaysInclusive_iso [of "n - 2" "n - 1"] day by simp
  define F where "F = core (started ws (iso_day (n - 2)) (initial_run bucket))"
  have "wh_ens (at_core F) (days_of_run sx ws) (\<lambda>_ s. daily_view [iso_day (n - 2), iso_day (n - 1)] (view s)) (\<lambda>_ _. False)"
    unfolding days_of_run_def assms(2) run_mode.case
    by (rule ens_daily) (simp_all add: F_def initial_started days)
  from wh_ensD [OF ens_after [OF this] _ assms(3) [unfolded body]] show ?thesis
    unfolding n_def [symmetric] by (cases x) (simp_all add: F_def)
qed

text \<open>A backfill settles a prefix of its days.\<close>

lemma body_backfill:
  assumes "wc_runMode (ws_config ws) = BackfillRun"
    "listDaysInclusive (wc_startDayUtc (ws_config ws)) (wc_endDayUtc (ws_config ws)) = Some (Inr ds)"
    "run_body sx ws (initial_run bucket) = (x, s)"
  shows "backfill_view ds (view s) \<or> ((\<exists>e. x = Inl e) \<and> stopped_view ds (view s)
    \<and> wr_bucket s = bucket \<and> wr_operations s = 0 \<and> wr_summary s = Null \<and> \<not> wr_summary_completed s
    \<and> wr_publish s = no_publication)"
proof -
  define F where "F = core (started ws (wc_startDayUtc (ws_config ws)) (initial_run bucket))"
  let ?Q = "\<lambda>s. stopped_view ds (view s) \<and> (\<exists>v w. core s = F\<lparr>wr_rows := v, wr_completed := fst w,
       wr_sources := fst (snd w), wr_failed_day := snd (snd w)\<rparr>)"
  have body: "run_body sx ws (initial_run bucket)
      = wh_bind (days_of_run sx ws) (\<lambda>_. after_days sx ws) (started ws (wc_startDayUtc (ws_config ws)) (initial_run bucket))"
    by (rule run_body_started) (simp add: assms(1))
  have "wh_ens (at_core F) (days_of_run sx ws) (\<lambda>_ s. backfill_view ds (view s)) (\<lambda>_. ?Q)"
    unfolding days_of_run_def assms(1) run_mode.case
    by (rule ens_run_backfill) (simp_all add: F_def initial_started assms(2))
  from wh_ensD [OF ens_after [OF this] _ assms(3) [unfolded body]]
  have r: "backfill_view ds (view s) \<or> (\<exists>e. x = Inl e) \<and> ?Q s"
    by (cases x) (auto simp: F_def)
  have "wr_bucket s = bucket \<and> wr_operations s = 0 \<and> wr_summary s = Null \<and> \<not> wr_summary_completed s
    \<and> wr_publish s = no_publication" if q: "?Q s"
  proof -
    obtain v w where c: "core s = F\<lparr>wr_rows := v, wr_completed := fst w, wr_sources := fst (snd w), wr_failed_day := snd (snd w)\<rparr>"
      using q by blast
    show ?thesis
      using arg_cong [OF c, of wr_bucket] arg_cong [OF c, of wr_operations] arg_cong [OF c, of wr_summary]
        arg_cong [OF c, of wr_summary_completed] arg_cong [OF c, of wr_publish]
      by (simp add: F_def started_def initial_run_def)
  qed
  then show ?thesis using r by blast
qed

text \<open>The record of a run is the last thing that is sent.\<close>

lemma post_attempts_requests:
  assumes "post_attempts sx name args n s = (x, s')" "1 \<le> n"
  shows "\<exists>k. 1 \<le> k \<and> k \<le> n \<and> wr_requests s' = wr_requests s @ replicate k (name, args)"
  using assms
proof (induction n arbitrary: s)
  case (Suc n)
  define t where "t = s\<lparr>wr_requests := wr_requests s @ [(name, args)]\<rparr>"
  have one: "?case" if "s' = t"
    using that by (intro exI [of _ 1]) (simp add: t_def)
  have more: "?case" if m: "post_attempts sx name args n t = (x, s')" "n \<noteq> 0"
  proof -
    obtain k where "1 \<le> k" "k \<le> n" "wr_requests s' = wr_requests t @ replicate k (name, args)"
      using Suc.IH [OF m(1)] m(2) by auto
    then show ?thesis by (intro exI [of _ "Suc k"]) (simp add: t_def)
  qed
  show ?case
    using Suc.prems(1) one more
    by (auto simp: t_def [symmetric] Let_def split: fetch_reply.splits if_splits)
qed simp

lemma log_requests:
  assumes "logProcessingRun sx ws payload s = (x, s')" "1 \<le> attempts_of (ws_retries ws)"
  shows "\<exists>k. 1 \<le> k \<and> k \<le> attempts_of (ws_retries ws) \<and> wr_requests s' = wr_requests s @ replicate k (ws_runLogRpc ws, payload)"
proof -
  obtain y t where p: "post_attempts sx (ws_runLogRpc ws) payload (attempts_of (ws_retries ws)) s = (y, t)"
    by fastforce
  have "s' = t"
    using assms(1) p
    by (auto simp: logProcessingRun_def post_data_def post_def wh_bind_def wh_ret_def wh_error_def wh_fail_def
        split: prod.splits sum.splits rpc_result.splits jsval.splits if_splits)
  then show ?thesis using post_attempts_requests [OF p assms(2)] by simp
qed

text \<open>The record changes nothing but requests, warnings and the outcome of a run.\<close>

lemma log_run_keeps:
  assumes "log_run sx ws startedAt finishedAt captured daily s = (r, s')"
  shows "view s' = view s" "wr_bucket s' = wr_bucket s" "wr_operations s' = wr_operations s" "wr_summary s' = wr_summary s"
    "wr_summary_completed s' = wr_summary_completed s" "wr_publish s' = wr_publish s"
    "captured \<noteq> None \<Longrightarrow> wx_error r = captured"
    "wr_outcome s = ''failed'' \<Longrightarrow> wr_outcome s' = ''failed''"
proof -
  define payload where "payload = run_log_payload (ws_config ws) startedAt finishedAt captured daily s"
  obtain x t where l: "logProcessingRun sx ws payload s = (x, t)" by fastforce
  have k: "same.keeps (logProcessingRun sx ws payload)"
    unfolding logProcessingRun_def
    by (auto intro!: same.keeps_bind same.keeps_simple same.keeps_post_data split: jsval.split)
  have c: "core t = core s" using same.keepsD [OF k l] .
  have v: "view t = view s" by (rule core_view [OF c])
  have f: "wr_bucket t = wr_bucket s" "wr_operations t = wr_operations s" "wr_summary t = wr_summary s"
    "wr_summary_completed t = wr_summary_completed s" "wr_publish t = wr_publish s" "wr_outcome t = wr_outcome s"
    using arg_cong [OF c, of wr_bucket] arg_cong [OF c, of wr_operations] arg_cong [OF c, of wr_summary]
      arg_cong [OF c, of wr_summary_completed] arg_cong [OF c, of wr_publish] arg_cong [OF c, of wr_outcome]
    by simp_all
  note e = assms [unfolded log_run_def payload_def [symmetric] l]
  show "view s' = view s" "wr_bucket s' = wr_bucket s" "wr_operations s' = wr_operations s" "wr_summary s' = wr_summary s"
    "wr_summary_completed s' = wr_summary_completed s" "wr_publish s' = wr_publish s"
    "captured \<noteq> None \<Longrightarrow> wx_error r = captured"
    "wr_outcome s = ''failed'' \<Longrightarrow> wr_outcome s' = ''failed''"
    using e v f by (auto split: sum.splits option.splits)
qed

lemma rows_merge: "\<forall>row \<in> set rows. \<not> is_nullish row \<Longrightarrow> \<exists>daily. mergeDailyRefreshRows rows = Inr daily"
  by (auto simp: mergeDailyRefreshRows_def rows_readable_def list_ex_iff)

text \<open>A run whose rows can be merged: its body, and the record that is sent at its end.\<close>

lemma run_parts:
  assumes "readSettings env now = Inr ws" "runWho2021Daily sx env startedAt now finishedAt bucket = (r, s)"
    "run_body sx ws (initial_run bucket) = (x, b)" "\<forall>row \<in> set (wr_rows b). \<not> is_nullish row"
  obtains captured s1 daily where "attempt_run sx ws (initial_run bucket) = (captured, s1)"
    "captured = (case x of Inl e \<Rightarrow> Some e | Inr _ \<Rightarrow> None)" "s1 = (case x of Inl e \<Rightarrow> b\<lparr>wr_outcome := ''failed''\<rparr> | Inr _ \<Rightarrow> b)"
    "log_run sx ws startedAt finishedAt captured daily s1 = (r, s)" "mergeDailyRefreshRows (wr_rows s1) = Inr daily"
proof -
  define captured where "captured = (case x of Inl e \<Rightarrow> Some e | Inr _ \<Rightarrow> None)"
  define s1 where "s1 = (case x of Inl e \<Rightarrow> b\<lparr>wr_outcome := ''failed''\<rparr> | Inr _ \<Rightarrow> b)"
  have a: "attempt_run sx ws (initial_run bucket) = (captured, s1)"
    using assms(3) by (cases x) (simp_all add: attempt_run_def captured_def s1_def)
  have "wr_rows s1 = wr_rows b" by (cases x) (simp_all add: s1_def)
  then obtain daily where d: "mergeDailyRefreshRows (wr_rows s1) = Inr daily" using rows_merge assms(4) by metis
  have "log_run sx ws startedAt finishedAt captured daily s1 = (r, s)"
    using assms(2) by (simp add: runWho2021Daily_def assms(1) a d)
  then show thesis using that a d captured_def s1_def by blast
qed

lemma run_view:
  assumes "readSettings env now = Inr ws" "runWho2021Daily sx env startedAt now finishedAt bucket = (r, s)"
    "run_body sx ws (initial_run bucket) = (x, b)" "\<forall>row \<in> set (wr_rows b). \<not> is_nullish row"
  shows "view s = view b"
proof -
  obtain captured s1 daily where p: "s1 = (case x of Inl e \<Rightarrow> b\<lparr>wr_outcome := ''failed''\<rparr> | Inr _ \<Rightarrow> b)"
    "log_run sx ws startedAt finishedAt captured daily s1 = (r, s)"
    by (rule run_parts [OF assms])
  have "view s1 = view b" using p(1) by (cases x) simp_all
  then show ?thesis using log_run_keeps(1) [OF p(2)] by simp
qed

lemma days_rows:
  "daily_view ds (view b) \<Longrightarrow> \<forall>row \<in> set (wr_rows b). \<not> is_nullish row"
  "backfill_view ds (view b) \<Longrightarrow> \<forall>row \<in> set (wr_rows b). \<not> is_nullish row"
  "stopped_view ds (view b) \<Longrightarrow> \<forall>row \<in> set (wr_rows b). \<not> is_nullish row"
  by (auto simp: daily_view_def backfill_view_def stopped_view_def view_def)

text \<open>Two results of days that follow each other: the later day is preferred.\<close>

lemma newest_of_two:
  assumes "valid_day n" "valid_day (n - 1)" "sr_day_utc r1 = JStr (iso_day (n - 1))" "sr_day_utc r2 = JStr (iso_day n)"
  shows "selectNewestUsablePublicationDay [r1, r2] = (if usable_result r2 then Some (iso_day n)
    else if usable_result r1 then Some (iso_day (n - 1)) else None)"
proof -
  have days: "\<exists>m. valid_day m \<and> sr_day_utc r = JStr (iso_day m)" if "r \<in> set [r1, r2]" for r
    using that assms by auto
  note sel = selectNewest_days [of "[r1, r2]", OF days]
  show ?thesis
  proof (cases "selectNewestUsablePublicationDay [r1, r2]")
    case None
    then show ?thesis using sel by auto
  next
    case (Some d)
    then obtain m where m: "valid_day m" "d = iso_day m" "\<exists>r \<in> set [r1, r2]. usable_result r \<and> sr_day_utc r = JStr d"
      "\<forall>r \<in> set [r1, r2]. \<forall>k. usable_result r \<and> valid_day k \<and> sr_day_utc r = JStr (iso_day k) \<longrightarrow> k \<le> m"
      using sel by blast
    have eq: "iso_day m = iso_day k \<longleftrightarrow> m = k" if "valid_day k" for k using m(1) that iso_day_inj by blast
    have "iso_day (n - 1) \<noteq> iso_day n" using assms iso_day_inj by force
    then show ?thesis
      using Some m assms eq [of n] eq [of "n - 1"] by (auto simp: dest!: spec [of _ n])
  qed
qed

text \<open>No row of a normal run or of a backfill is null, so that the rows can be merged for the record.\<close>

lemma body_rows:
  assumes "readSettings env now = Inr ws" "wc_runMode (ws_config ws) \<noteq> DryRun" "run_body sx ws (initial_run bucket) = (x, b)"
  shows "\<forall>row \<in> set (wr_rows b). \<not> is_nullish row"
proof (cases "wc_runMode (ws_config ws)")
  case DailyRun
  show ?thesis by (rule days_rows(1) [OF body_daily [OF assms(1) DailyRun assms(3)]])
next
  case BackfillRun
  obtain res where res: "listDaysInclusive (wc_startDayUtc (ws_config ws)) (wc_endDayUtc (ws_config ws)) = Some res"
    using listDaysInclusive_returns by blast
  show ?thesis
  proof (cases res)
    case (Inl e)
    have "run_body sx ws (initial_run bucket)
        = wh_bind (days_of_run sx ws) (\<lambda>_. after_days sx ws) (started ws (wc_startDayUtc (ws_config ws)) (initial_run bucket))"
      by (rule run_body_started) (simp add: BackfillRun)
    then have "wr_rows b = []"
      using assms(3) res Inl
      by (auto simp: days_of_run_def BackfillRun run_backfill_def wh_bind_def wh_res_def returned_def started_def initial_run_def)
    then show ?thesis by simp
  next
    case (Inr ds)
    show ?thesis using body_backfill [OF BackfillRun res [unfolded Inr] assms(3)] days_rows(2,3) by blast
  qed
qed (use assms(2) in simp)

end
