(* ===== verification/WhoSample.thy ===== *)
theory WhoSample
  imports WhoSteps
begin

text \<open>
  A bucket with one partition: the bytes of its three manifests, what they parse to, and each step of reading the
  partition, evaluated. The properties of reading are applied to it.
\<close>

definition sample_day_bytes :: string where
  \<open>sample_day_bytes =
    ''{"history_version":"v2","day_utc":"2026-03-01","columns":["connector_id","station_id","timeserie'' @
    ''s_id","pollutant_code","observed_at_utc","value"],"connector_manifests":[{"connector_id":1,"mani'' @
    ''fest_key":"history/v2/observations/day_utc=2026-03-01/connector_id=1/manifest.json","manifest_ha'' @
    ''sh":"aaaaaaaaaaaaaaaaaaaaaaaaaaaaaaaaaaaaaaaaaaaaaaaaaaaaaaaaaaaaaaaa","source_row_count":1,"row'' @
    ''_count":1,"file_count":1}],"manifest_hash":"aaaaaaaaaaaaaaaaaaaaaaaaaaaaaaaaaaaaaaaaaaaaaaaaaaaa'' @
    ''aaaaaaaaaaaa"}''\<close>

definition sample_connector_bytes :: string where
  \<open>sample_connector_bytes =
    ''{"history_version":"v2","day_utc":"2026-03-01","connector_id":1,"columns":["connector_id","stati'' @
    ''on_id","timeseries_id","pollutant_code","observed_at_utc","value"],"source_row_count":1,"row_cou'' @
    ''nt":1,"file_count":1,"child_manifests":[{"pollutant_code":"no2","manifest_key":"history/v2/obser'' @
    ''vations/day_utc=2026-03-01/connector_id=1/pollutant_code=no2/manifest.json","manifest_hash":"aaa'' @
    ''aaaaaaaaaaaaaaaaaaaaaaaaaaaaaaaaaaaaaaaaaaaaaaaaaaaaaaaaaaaaa","source_row_count":1,"row_count":'' @
    ''1,"file_count":1}],"manifest_hash":"aaaaaaaaaaaaaaaaaaaaaaaaaaaaaaaaaaaaaaaaaaaaaaaaaaaaaaaaaaaa'' @
    ''aaaa"}''\<close>

definition sample_pollutant_bytes :: string where
  \<open>sample_pollutant_bytes =
    ''{"history_version":"v2","day_utc":"2026-03-01","connector_id":1,"pollutant_code":"no2","columns"'' @
    '':["connector_id","station_id","timeseries_id","pollutant_code","observed_at_utc","value"],"sourc'' @
    ''e_row_count":1,"row_count":1,"file_count":1,"total_bytes":1,"files":[{"key":"history/v2/observat'' @
    ''ions/day_utc=2026-03-01/connector_id=1/pollutant_code=no2/part-00001.parquet","pollutant_code":"'' @
    ''no2","row_count":1,"bytes":1,"etag_or_hash":"aaaaaaaaaaaaaaaaaaaaaaaaaaaaaaaaaaaaaaaaaaaaaaaaaaa'' @
    ''aaaaaaaaaaaaa"}],"manifest_hash":"aaaaaaaaaaaaaaaaaaaaaaaaaaaaaaaaaaaaaaaaaaaaaaaaaaaaaaaaaaaaaa'' @
    ''aa"}''\<close>

definition sample_digest :: string where
  "sample_digest = replicate 64 CHR ''a''"

definition connector_reference :: jsval where
  "connector_reference =
    JObj [(''connector_id'', JInt 1), (''manifest_key'', JStr
    ''history/v2/observations/day_utc=2026-03-01/connector_id=1/manifest.json''), (''manifest_hash'', JStr
    sample_digest), (''source_row_count'', JInt 1), (''row_count'', JInt 1), (''file_count'', JInt 1)]"

definition sample_day :: jsval where
  "sample_day =
    JObj [(''history_version'', JStr ''v2''), (''day_utc'', JStr ''2026-03-01''), (''columns'', JArr (List.map
    JStr R2_OBSERVATION_COLUMNS)), (''connector_manifests'', JArr [connector_reference]), (''manifest_hash'', JStr
    sample_digest)]"

definition pollutant_reference :: jsval where
  "pollutant_reference =
    JObj [(''pollutant_code'', JStr ''no2''), (''manifest_key'', JStr
    ''history/v2/observations/day_utc=2026-03-01/connector_id=1/pollutant_code=no2/manifest.json''),
    (''manifest_hash'', JStr sample_digest), (''source_row_count'', JInt 1), (''row_count'', JInt 1),
    (''file_count'', JInt 1)]"

definition sample_connector :: jsval where
  "sample_connector =
    JObj [(''history_version'', JStr ''v2''), (''day_utc'', JStr ''2026-03-01''), (''connector_id'', JInt 1),
    (''columns'', JArr (List.map JStr R2_OBSERVATION_COLUMNS)), (''source_row_count'', JInt 1), (''row_count'',
    JInt 1), (''file_count'', JInt 1), (''child_manifests'', JArr [pollutant_reference]), (''manifest_hash'', JStr
    sample_digest)]"

definition sample_pollutant :: jsval where
  "sample_pollutant =
    JObj [(''history_version'', JStr ''v2''), (''day_utc'', JStr ''2026-03-01''), (''connector_id'', JInt 1),
    (''pollutant_code'', JStr ''no2''), (''columns'', JArr (List.map JStr R2_OBSERVATION_COLUMNS)),
    (''source_row_count'', JInt 1), (''row_count'', JInt 1), (''file_count'', JInt 1), (''total_bytes'', JInt 1),
    (''files'', JArr [JObj [(''key'', JStr
    ''history/v2/observations/day_utc=2026-03-01/connector_id=1/pollutant_code=no2/part-00001.parquet''),
    (''pollutant_code'', JStr ''no2''), (''row_count'', JInt 1), (''bytes'', JInt 1), (''etag_or_hash'', JStr
    sample_digest)]]), (''manifest_hash'', JStr sample_digest)]"

definition day_key :: string where
  "day_key = ''history/v2/observations/day_utc=2026-03-01/manifest.json''"

definition connector_key :: string where
  "connector_key = ''history/v2/observations/day_utc=2026-03-01/connector_id=1/manifest.json''"

definition pollutant_prefix :: string where
  "pollutant_prefix = ''history/v2/observations/day_utc=2026-03-01/connector_id=1/pollutant_code=no2/''"

definition sample_cells :: "jsval list" where
  "sample_cells = [JInt 1, Null, JInt 7, JStr ''no2'', JStr ''2026-03-01T10:00:00Z'', JInt 20]"

definition sample_bucket :: source_env where
  "sample_bucket =
     \<lparr>sv_read = (\<lambda>key. if key = day_key then Inr sample_day_bytes
        else if key = connector_key then Inr sample_connector_bytes
        else if key = pollutant_prefix @ ''manifest.json'' then Inr sample_pollutant_bytes
        else if key = pollutant_prefix @ ''part-00001.parquet'' then Inr ''P'' else Inl (ObjectNotFound key)),
      sv_sha256 = (\<lambda>_. sample_digest), sv_md5 = (\<lambda>_. []),
      sv_parquet = (\<lambda>_. Inr (R2_OBSERVATION_COLUMNS,
        [sample_cells])),
      sv_history_version = JStr ''v2''\<rparr>"

lemma sample_day_parsed: "parse_manifest day_key sample_day_bytes = Inr sample_day"
  by code_simp

lemma sample_connector_parsed: "parse_manifest connector_key sample_connector_bytes = Inr sample_connector"
  by code_simp

lemma sample_pollutant_parsed:
  "parse_manifest (pollutant_prefix @ ''manifest.json'') sample_pollutant_bytes = Inr sample_pollutant"
  by code_simp

lemma sample_keys:
  "r2ObservationDayManifestKey sample_bucket ''2026-03-01'' = Inr day_key"
  "observationHistoryPrefix sample_bucket = Inr ''history/v2/observations''"
  "connector_manifest_key ''history/v2/observations'' ''2026-03-01'' 1 = connector_key"
  "partition_prefix ''history/v2/observations'' ''2026-03-01'' 1 ''no2'' = pollutant_prefix"
  by code_simp+

lemma sample_hashes:
  "check_manifest_hash sample_bucket sample_day day_key = Inr ()"
  "check_manifest_hash sample_bucket sample_connector connector_key = Inr ()"
  "check_manifest_hash sample_bucket sample_pollutant (pollutant_prefix @ ''manifest.json'') = Inr ()"
  by code_simp+

lemma sample_identities:
  "validateManifestIdentity sample_day day_key ''2026-03-01'' None None = Inr ()"
  "validateManifestIdentity sample_connector connector_key ''2026-03-01'' (Some 1) None = Inr ()"
  "validateManifestIdentity sample_pollutant (pollutant_prefix @ ''manifest.json'') ''2026-03-01'' (Some 1) (Some ''no2'') = Inr ()"
  by code_simp+

lemma sample_columns:
  "validateColumns sample_day day_key = Inr ()" "validateColumns sample_connector connector_key = Inr ()"
  "validateColumns sample_pollutant (pollutant_prefix @ ''manifest.json'') = Inr ()"
  by code_simp+

lemma sample_children:
  "exactChild sample_day [''connector_manifests'', ''child_manifests''] ''connector_id'' ''1'' label = Inr connector_reference"
  "exactChild sample_connector [''child_manifests'', ''pollutant_manifests''] ''pollutant_code'' ''no2'' label
     = Inr pollutant_reference"
  by code_simp+

lemma sample_numbers:
  "requiredInteger connector_reference ''source_row_count'' label 0 = Inr 1" "requiredInteger connector_reference ''row_count'' label 0 = Inr 1"
  "requiredInteger connector_reference ''file_count'' label 0 = Inr 1"
  "requiredInteger pollutant_reference ''source_row_count'' label 0 = Inr 1" "requiredInteger pollutant_reference ''row_count'' label 0 = Inr 1"
  "requiredInteger pollutant_reference ''file_count'' label 0 = Inr 1"
  "requiredInteger sample_connector ''source_row_count'' label 0 = Inr 1" "requiredInteger sample_connector ''row_count'' label 0 = Inr 1"
  "requiredInteger sample_connector ''file_count'' label 0 = Inr 1"
  "requiredInteger sample_pollutant ''source_row_count'' label 0 = Inr 1" "requiredInteger sample_pollutant ''row_count'' label 0 = Inr 1"
  "requiredInteger sample_pollutant ''file_count'' label 0 = Inr 1"
  by code_simp+

lemma sample_strings:
  "requiredString connector_reference ''manifest_key'' label = Inr connector_key"
  "requiredString pollutant_reference ''manifest_key'' label = Inr (pollutant_prefix @ ''manifest.json'')"
  "requiredString connector_reference ''manifest_hash'' label = Inr sample_digest"
  "requiredString pollutant_reference ''manifest_hash'' label = Inr sample_digest"
  "requiredString sample_connector ''manifest_hash'' label = Inr sample_digest"
  "requiredString sample_pollutant ''manifest_hash'' label = Inr sample_digest"
  by code_simp+

lemma sample_references:
  "compareManifestReference connector_reference sample_connector connector_key label = Inr ()"
  "compareManifestReference pollutant_reference sample_pollutant (pollutant_prefix @ ''manifest.json'') label = Inr ()"
  by (simp_all add: compareManifestReference_def sample_numbers sample_strings)

definition sample_file :: manifest_file where
  "sample_file = \<lparr>mf_key = pollutant_prefix @ ''part-00001.parquet'', mf_rowCount = 1, mf_bytes = 1,
     mf_etagOrHash = sample_digest\<rparr>"

definition sample_row :: r2_row where
  "sample_row = \<lparr>ro_connectorId = 1, ro_stationId = None, ro_timeseriesId = 7, ro_pollutantCode = ''no2'',
     ro_observedAtUtc = ''2026-03-01T10:00:00.000Z'', ro_value = Some (Fin 20)\<rparr>"

lemma sample_files:
  "parseManifestFiles sample_pollutant (pollutant_prefix @ ''manifest.json'') pollutant_prefix ''no2'' = Inr [sample_file]"
  by code_simp

lemma sample_file_ok: "validateParquetHash sample_bucket ''P'' sample_file = Inr ()"
  by code_simp

lemma sample_file_rows:
  "parquet_row (mf_key sample_file) 1 ''no2'' ''2026-03-01'' R2_OBSERVATION_COLUMNS
     (0, sample_cells) = Inr sample_row"
  by code_simp

lemma sample_reads:
  "sv_read sample_bucket day_key = Inr sample_day_bytes" "sv_read sample_bucket connector_key = Inr sample_connector_bytes"
  "sv_read sample_bucket (pollutant_prefix @ ''manifest.json'') = Inr sample_pollutant_bytes"
  "sv_read sample_bucket (mf_key sample_file) = Inr ''P''"
  by code_simp+

lemma manifest_read:
  assumes "sv_read env key = Inr bytes" "parse_manifest key bytes = Inr m" "check_manifest_hash env m key = Inr ()"
    "jm_get (so_cache s) key = None"
  shows "\<exists>s'. readJsonManifest env key s = (Inr m, s') \<and> so_cache s' = jm_set key m (so_cache s)"
  using assms
  by (simp add: readJsonManifest_def fetch_manifest_def fetch_object_def rd_bind_def rd_count_def rd_res_def
      validateManifestHash_def)

lemma sample_cache:
  "jm_get (jm_set day_key sample_day jm_empty) connector_key = None"
  "jm_get (jm_set connector_key sample_connector (jm_set day_key sample_day jm_empty)) (pollutant_prefix @ ''manifest.json'') = None"
  by code_simp+

lemma sample_day_read:
  "\<exists>s. read_day_manifest sample_bucket ''2026-03-01'' new_source = (Inr (day_key, sample_day), s)
     \<and> so_cache s = jm_set day_key sample_day jm_empty"
  using manifest_read [OF sample_reads(1) sample_day_parsed sample_hashes(1), of new_source]
  by (auto simp: read_day_manifest_def rd_bind_def rd_res_def rd_ret_def sample_keys sample_identities sample_columns
      new_source_def)

lemma child_read:
  assumes "readJsonManifest env key s = (Inr child, s')" "validateManifestIdentity child key d (Some c) p = Inr ()"
    "validateColumns child key = Inr ()" "\<And>label. compareManifestReference reference child key label = Inr ()"
  shows "read_child env key reference label d c p s = (Inr child, s')"
  using assms by (simp add: read_child_def rd_bind_def rd_res_def rd_ret_def)

lemma sample_pollutant_read:
  "\<exists>s. read_pollutant_manifest sample_bucket ''history/v2/observations'' ''2026-03-01'' 1 ''no2'' new_source
     = (Inr (pollutant_prefix @ ''manifest.json'', sample_pollutant), s)"
proof -
  obtain s where 1: "read_day_manifest sample_bucket ''2026-03-01'' new_source = (Inr (day_key, sample_day), s)"
    "so_cache s = jm_set day_key sample_day jm_empty"
    using sample_day_read by blast
  obtain t where 2: "readJsonManifest sample_bucket connector_key s = (Inr sample_connector, t)"
    "so_cache t = jm_set connector_key sample_connector (so_cache s)"
    using manifest_read [OF sample_reads(2) sample_connector_parsed sample_hashes(2), of s] sample_cache 1(2) by auto
  obtain u where 3: "readJsonManifest sample_bucket (pollutant_prefix @ ''manifest.json'') t = (Inr sample_pollutant, u)"
    using manifest_read [OF sample_reads(3) sample_pollutant_parsed sample_hashes(3), of t] sample_cache 1(2) 2(2) by auto
  note c = child_read [OF 2(1) sample_identities(2) sample_columns(2) sample_references(1)]
  note p = child_read [OF 3 sample_identities(3) sample_columns(3) sample_references(2)]
  have one: "int_str 1 = ''1''" by code_simp
  show ?thesis
    by (intro exI [of _ u])
      (simp add: read_pollutant_manifest_def Let_def sample_keys one rd_bind_def 1(1) rd_res_def sample_children c p rd_ret_def)
qed

lemma sample_parquet:
  "sv_parquet sample_bucket bytes = Inr (R2_OBSERVATION_COLUMNS,
     [sample_cells])"
  by (simp add: sample_bucket_def)

lemma sample_supported: "supported_columns R2_OBSERVATION_COLUMNS"
  by code_simp

lemma sample_file_read: "fst (read_file sample_bucket ''2026-03-01'' 1 ''no2'' sample_file s) = Inr [sample_row]"
proof -
  have n: "mf_rowCount sample_file = 1" by (simp add: sample_file_def)
  have rows: "res_mapM (parquet_row (mf_key sample_file) 1 ''no2'' ''2026-03-01'' R2_OBSERVATION_COLUMNS)
      (indexed [sample_cells]) = Inr [sample_row]"
    using sample_file_rows by (simp add: indexed_def)
  show ?thesis
    by (simp add: read_file_def fetch_object_def sample_reads(4) readParquetRows_def sample_file_ok sample_parquet
        sample_supported rd_bind_def rd_res_def rd_count_def n rows)
qed

lemma sample_partition:
  "fst (readValidatedObservationPollutantPartition sample_bucket ''2026-03-01'' 1 '' NO2'' new_source) = Inr [sample_row]"
proof -
  obtain s where s: "read_pollutant_manifest sample_bucket ''history/v2/observations'' ''2026-03-01'' 1 ''no2'' new_source
      = (Inr (pollutant_prefix @ ''manifest.json'', sample_pollutant), s)"
    using sample_pollutant_read by blast
  obtain t where t: "read_file sample_bucket ''2026-03-01'' 1 ''no2'' sample_file s = (Inr [sample_row], t)"
    using sample_file_read [of s] by (metis prod.collapse)
  have c: "js_lower (js_trim '' NO2'') = ''no2''" "assertIsoDay ''2026-03-01'' ''dayUtc'' = Inr ()"
    "''no2'' \<in> set WHO_POLLUTANTS"
    by (code_simp, code_simp, simp add: WHO_POLLUTANTS_def)
  show ?thesis
    by (simp add: readValidatedObservationPollutantPartition_def Let_def c sample_keys sample_files s t rd_bind_def rd_res_def rd_ret_def)
qed

lemma sample_cache_ok: "cache_ok env new_source"
  by (simp add: cache_ok_def new_source_def)

end
