(* ===== verification/WhoProperties.thy ===== *)
theory WhoProperties
  imports WhoOutcome WhoSample
begin

text \<open>
  The properties of the guideline program: its loops over days, its settings, the rows it reads and aggregates, and
  what a run leaves behind.
\<close>

section \<open>Days\<close>

text \<open>C25: The two loops over the days of a range return for every input: with the days or the chunks, or with the
  error that the code throws. The loops themselves may fail to end; the checks before them exclude it.\<close>

theorem who_day_loops_return:
  "(\<exists>r. listDaysInclusive startDay endDay = Some r) \<and> (\<exists>r. buildDayChunks startDay endDay chunkDays = Some r)"
  by (simp add: listDaysInclusive_returns buildDayChunks_returns)

lemma upto_single_chunks:
  assumes "List.concat (List.map (\<lambda>(x, y). [x..y]) ns) = [a..b]" "a \<le> b" "valid_day a" "valid_day b"
    "\<forall>(x, y) \<in> set ns. a \<le> x \<and> x \<le> y \<and> y \<le> b \<and> y - x < k \<and> y < last_day"
  shows "listDaysInclusive (iso_day a) (iso_day b) = Some (Inr (List.concat (List.map (\<lambda>(x, y). List.map iso_day [x..y]) ns)))"
proof -
  have "b \<in> set (List.concat (List.map (\<lambda>(x, y). [x..y]) ns))" using assms(1,2) by simp
  then obtain x y where "(x, y) \<in> set ns" "b \<le> y" by auto
  then have "b < last_day" using assms(5) by fastforce
  moreover have "List.concat (List.map (\<lambda>(x, y). List.map iso_day [x..y]) ns) = List.map iso_day [a..b]"
    unfolding assms(1) [symmetric] by (simp add: map_concat comp_def case_prod_unfold)
  ultimately show ?thesis using listDaysInclusive_iso assms by simp
qed

text \<open>The chunks of a range tile it: their days, one chunk after the other, are the days of the range, each once,
  and no chunk is empty or longer than the size asked for.\<close>

lemma chunks_tile_range:
  assumes "buildDayChunks startDay endDay chunkDays = Some (Inr chunks)" "chunks \<noteq> []"
  shows "\<exists>days. list_all2 (\<lambda>(x, y) ds. listDaysInclusive x y = Some (Inr ds) \<and> ds \<noteq> []
      \<and> \<not> num_lt (chunk_size chunkDays) (Fin (of_int (int (length ds))))) chunks days
    \<and> listDaysInclusive startDay endDay = Some (Inr (List.concat days))"
proof -
  obtain u v where uv: "assertIsoDay startDay ''startDayUtc'' = Inr u" "assertIsoDay endDay ''endDayUtc'' = Inr v"
    "day_chunks startDay endDay (chunk_size chunkDays) = Some (Inr chunks)"
    using assms(1) by (auto simp: buildDayChunks_def split: sum.splits)
  obtain a b where ab: "valid_day a" "valid_day b" "startDay = iso_day a" "endDay = iso_day b"
    using assertIsoDay_ok uv by metis
  have le: "a \<le> b"
    using uv(3) assms(2) ab by (auto simp: day_chunks.simps [of "iso_day a"] compareIsoDay_iso split: if_splits)
  obtain k where k: "1 \<le> k" "chunk_size chunkDays = Fin (of_int k)"
  proof -
    have "\<not> (chunk_size chunkDays = NaN \<or> chunk_size chunkDays = PInf)"
    proof
      assume s: "chunk_size chunkDays = NaN \<or> chunk_size chunkDays = PInf"
      then have "num_sub (chunk_size chunkDays) (Fin 1) = NaN \<or> num_sub (chunk_size chunkDays) (Fin 1) = PInf"
        by (auto simp: num_sub_def)
      then have "addDays (iso_day a) (num_sub (chunk_size chunkDays) (Fin 1)) = Inl RangeError"
        using far_day [OF ab(1)] by blast
      then show False
        using uv(3) ab le by (simp add: day_chunks.simps [of "iso_day a"] compareIsoDay_iso split: if_splits)
    qed
    then show thesis using chunk_size_cases that by blast
  qed
  obtain ns where ns: "chunks = List.map (map_prod iso_day iso_day) ns"
    "List.concat (List.map (\<lambda>(x, y). [x..y]) ns) = [a..b]"
    "\<forall>(x, y) \<in> set ns. a \<le> x \<and> x \<le> y \<and> y \<le> b \<and> y - x < k \<and> y < last_day"
    using day_chunks_tile [OF ab(1,2) k(1) _ uv(3) [unfolded ab k]] le by auto
  let ?days = "List.map (\<lambda>(x, y). List.map iso_day [x..y]) ns"
  have "list_all2 (\<lambda>(x, y) ds. listDaysInclusive x y = Some (Inr ds) \<and> ds \<noteq> []
      \<and> \<not> num_lt (chunk_size chunkDays) (Fin (of_int (int (length ds))))) chunks ?days"
    unfolding ns(1) list_all2_map1 list_all2_map2 list_all2_same
  proof
    fix z assume z: "z \<in> set ns"
    obtain x y where xy: "z = (x, y)" by (cases z)
    have r: "a \<le> x" "x \<le> y" "y \<le> b" "y - x < k" "y < last_day" using ns(3) z xy by auto
    then have "valid_day x" "valid_day y" using ab by (auto simp: valid_day_iff)
    then show "(\<lambda>(x, y) ds. listDaysInclusive x y = Some (Inr ds) \<and> ds \<noteq> []
        \<and> \<not> num_lt (chunk_size chunkDays) (Fin (of_int (int (length ds))))) (map_prod iso_day iso_day z)
        ((\<lambda>(x, y). List.map iso_day [x..y]) z)"
      using r listDaysInclusive_iso [of x y] by (simp add: xy k(2))
  qed
  moreover have "listDaysInclusive startDay endDay = Some (Inr (List.concat ?days))"
    using upto_single_chunks [OF ns(2) le ab(1,2) ns(3)] ab by simp
  ultimately show ?thesis by blast
qed

declare list_days.simps [code] day_chunks.simps [code]

section \<open>Settings\<close>

lemma backfill_limit_int: "\<exists>k. backfill_limit (params_of_env env now) = Fin (of_int k)"
proof -
  have "\<exists>k. parsePositiveInt (env ''UK_AQ_WHO_2021_R2_BACKFILL_MAX_DAYS'') (Fin (of_int 31)) = Fin (of_int k)"
    by (rule parsePositiveInt_int [of 31 "env ''UK_AQ_WHO_2021_R2_BACKFILL_MAX_DAYS''"]) (simp, blast)
  then obtain k where "parsePositiveInt (env ''UK_AQ_WHO_2021_R2_BACKFILL_MAX_DAYS'') (Fin 31) = Fin (of_int k)" by auto
  then have "backfill_limit (params_of_env env now) = Fin (of_int (max 1 k))"
    by (simp add: backfill_limit_def params_of_env_def Let_def max_def)
  then show ?thesis by blast
qed

text \<open>C23: What the settings of a run guarantee once they have been read. The first and the last day are real calendar
  days in order, a backfill covers at most its number of days, a normal run covers the two complete days before today,
  the connector is positive, the hours that a day needs are a whole number from 1 to 24, pollutants are given, and the
  bucket is there whenever the run reads or writes it.\<close>

theorem run_settings_sound:
  assumes "readSettings env now = Inr ws"
  shows "\<exists>a b h. valid_day a \<and> valid_day b \<and> a \<le> b
    \<and> wc_startDayUtc (ws_config ws) = iso_day a \<and> wc_endDayUtc (ws_config ws) = iso_day b
    \<and> (wc_runMode (ws_config ws) = BackfillRun \<longrightarrow> (\<exists>k. wc_backfillMaxDays (ws_config ws) = Fin (of_int k) \<and> b - a + 1 \<le> k))
    \<and> (wc_runMode (ws_config ws) = DailyRun \<longrightarrow> b = now div MS_DAY - 1 \<and> a = b - 1)
    \<and> 0 < wc_connectorId (ws_config ws) \<and> wc_pollutantCodes (ws_config ws) \<noteq> []
    \<and> wc_minValidHoursPerDay (ws_config ws) = Fin (of_int h) \<and> 1 \<le> h \<and> h \<le> 24
    \<and> (wc_runMode (ws_config ws) = BackfillRun \<or> wc_r2PublishEnabled (ws_config ws)
        \<or> wc_parquetR2WriteEnabled (ws_config ws) \<longrightarrow> ws_r2 ws \<noteq> None)
    \<and> wc_dryRun (ws_config ws) = (wc_runMode (ws_config ws) = DryRun)"
proof -
  let ?p = "params_of_env env now" and ?c = "ws_config ws"
  have c: "buildRunConfig ?p = Inr ?c" by (rule settings_config [OF assms])
  obtain a b n where ab: "valid_day a" "valid_day b" "a \<le> b" "wc_startDayUtc ?c = iso_day a" "wc_endDayUtc ?c = iso_day b"
    "wc_runMode ?c = BackfillRun \<Longrightarrow> \<not> num_lt (wc_backfillMaxDays ?c) (Fin (of_int (b - a + 1)))"
    "wc_runMode ?c = DailyRun \<Longrightarrow> b = rp_now ?p div MS_DAY - 1 \<and> a = b - 1"
    "0 < n" "?c = config_of ?p (wc_latestCompleteDayUtc ?c) (iso_day a) (iso_day b) n"
    "rp_pollutantCodes ?p \<noteq> []" "\<not> num_lt (rp_minValidHoursPerDay ?p) (Fin 1)" "\<not> num_lt (Fin 24) (rp_minValidHoursPerDay ?p)"
    by (rule buildRunConfig_ok [OF c]) (rule that; blast)
  obtain k where k: "wc_backfillMaxDays ?c = Fin (of_int k)"
    using backfill_limit_int [of env now] arg_cong [OF ab(9), of wc_backfillMaxDays] by (auto simp: config_of_def)
  obtain h where h: "rp_minValidHoursPerDay ?p = Fin (of_int h)"
    using parsePositiveInt_int [of 18 "env ''UK_AQ_WHO_2021_MIN_VALID_HOURS_PER_DAY''"]
    by (auto simp: params_of_env_def Let_def)
  have hours: "wc_minValidHoursPerDay ?c = Fin (of_int h)" "1 \<le> h" "h \<le> 24"
    using arg_cong [OF ab(9), of wc_minValidHoursPerDay] ab(11,12) h by (simp_all add: config_of_def)
  have r2: "wc_runMode ?c = BackfillRun \<or> wc_r2PublishEnabled ?c \<or> wc_parquetR2WriteEnabled ?c \<longrightarrow> ws_r2 ws \<noteq> None"
    using assms by (auto simp: readSettings_def res_bind_Inr res_map_Inr split: if_splits)
  have d: "wc_dryRun ?c = (wc_runMode ?c = DryRun)" "0 < wc_connectorId ?c" "wc_pollutantCodes ?c \<noteq> []"
    using arg_cong [OF ab(9), of wc_dryRun] arg_cong [OF ab(9), of wc_runMode] arg_cong [OF ab(9), of wc_connectorId]
      arg_cong [OF ab(9), of wc_pollutantCodes] ab(8,10)
    by (simp_all add: config_of_def)
  have now: "rp_now ?p = now" by (simp add: params_of_env_def Let_def)
  have l: "wc_runMode ?c = BackfillRun \<longrightarrow> (\<exists>k. wc_backfillMaxDays ?c = Fin (of_int k) \<and> b - a + 1 \<le> k)"
    using ab(6) k by auto
  show ?thesis
    using ab(1-5,7) hours r2 d now l by (intro exI [of _ a] exI [of _ b] exI [of _ h]) simp
qed

text \<open>The environment of a normal run with the defaults, at noon of 2026-03-01, and that of a backfill of two days.\<close>

definition who_env :: environment where
  "who_env name =
     (if name = ''OBS_AQIDB_SUPABASE_URL'' then Some ''https://db.example''
      else if name = ''OBS_AQIDB_SECRET_KEY'' then Some ''secret'' else None)"

definition who_backfill_env :: environment where
  "who_backfill_env name =
     (if name = ''UK_AQ_WHO_2021_RUN_MODE'' then Some ''backfill''
      else if name = ''UK_AQ_WHO_2021_START_DAY_UTC'' then Some ''2026-02-01''
      else if name = ''UK_AQ_WHO_2021_END_DAY_UTC'' then Some ''2026-02-02''
      else if List.member [''R2_ENDPOINT'', ''R2_BUCKET'', ''R2_ACCESS_KEY_ID'', ''R2_SECRET_ACCESS_KEY''] name then Some ''r2''
      else who_env name)"

definition who_now :: int where "who_now = 1772366400000"

definition reads_mode :: "environment \<Rightarrow> run_mode \<Rightarrow> bool" where
  "reads_mode env mode = (case readSettings env who_now of Inl _ \<Rightarrow> False
     | Inr ws \<Rightarrow> wc_runMode (ws_config ws) = mode \<and> attempts_of (ws_retries ws) = 3)"

lemma who_modes: "reads_mode who_env DailyRun" "reads_mode who_backfill_env BackfillRun"
  by code_simp+

lemma who_settings:
  "\<exists>ws. readSettings who_env who_now = Inr ws \<and> wc_runMode (ws_config ws) = DailyRun \<and> attempts_of (ws_retries ws) = 3"
  "\<exists>ws. readSettings who_backfill_env who_now = Inr ws \<and> wc_runMode (ws_config ws) = BackfillRun"
  using who_modes by (auto simp: reads_mode_def split: sum.splits)

lemma run_settings_sound_witness:
  "\<exists>ws a b h. readSettings who_env who_now = Inr ws \<and> valid_day a \<and> valid_day b \<and> a \<le> b
     \<and> wc_startDayUtc (ws_config ws) = iso_day a \<and> wc_minValidHoursPerDay (ws_config ws) = Fin (of_int h) \<and> 1 \<le> h \<and> h \<le> 24"
proof -
  obtain ws where ws: "readSettings who_env who_now = Inr ws" using who_settings(1) by blast
  from run_settings_sound [OF this] show ?thesis using ws by blast
qed

section \<open>Rows\<close>

text \<open>C20: The daily rows of a pollutant are those of a reference computation: one row for each series with an
  observation in the day, in the order of their identifiers; the hours with a usable value are counted, and when there
  are enough of them the daily mean is the mean of the hourly means, hours in the order of their first value.\<close>

theorem daily_rows_are_hourly_means:
  assumes "valid_day n"
  shows "aggregatePollutantRows (iso_day n) p rows minHours
    = List.map (reference_row (n * MS_DAY) p rows minHours) (sorted_list_of_set (series_seen (n * MS_DAY) p rows))"
  by (rule aggregate_reference [OF midnight_parse [OF assms]])

text \<open>C24: A daily row counts at most 25 hours, and at most 24 when every observation of the day lies on a whole hour:
  the day is open at its start and closed at its end, but hours are cut off downwards, so that rows within the first
  and at the end of the last hour count for 25 of them. A mean is given exactly when enough hours count.\<close>

theorem valid_hours_bounded:
  assumes "valid_day n" "row \<in> set (aggregatePollutantRows (iso_day n) p rows minHours)"
  shows "0 \<le> pr_valid_hour_count row \<and> pr_valid_hour_count row \<le> 25
    \<and> ((\<forall>r \<in> set rows. \<forall>t. time_in_day (n * MS_DAY) p r = Some t \<longrightarrow> t mod MS_HOUR = 0) \<longrightarrow> pr_valid_hour_count row \<le> 24)
    \<and> (pr_daily_mean_ugm3 row \<noteq> None \<longleftrightarrow> minHours \<le> pr_valid_hour_count row)"
proof -
  obtain k where k: "row = reference_row (n * MS_DAY) p rows minHours k"
    using assms(2) unfolding aggregate_reference [OF midnight_parse [OF assms(1)]] by auto
  show ?thesis
    unfolding k using valid_hours_25 [OF refl] valid_hours_24 [OF refl] by (auto simp: reference_row_def Let_def)
qed

definition who_rows :: "r2_row list" where
  "who_rows = [sample_row, sample_row\<lparr>ro_observedAtUtc := ''2026-03-01T10:30:00.000Z'', ro_value := Some (Fin 40)\<rparr>,
     sample_row\<lparr>ro_observedAtUtc := ''2026-03-01T11:00:00.000Z''\<rparr>, sample_row\<lparr>ro_observedAtUtc := ''2026-03-01T00:00:00.000Z''\<rparr>]"

lemma who_sample_day: "valid_day 20513" "iso_day 20513 = ''2026-03-01''"
  by (simp add: valid_day_iff first_day_def last_day_def) code_simp

lemma who_sample_rows:
  "aggregatePollutantRows ''2026-03-01'' ''no2'' who_rows 2
     = [\<lparr>pr_timeseries_id = 7, pr_valid_hour_count = 2, pr_daily_mean_ugm3 = Some (Fin 25)\<rparr>]"
  by code_simp

lemma daily_rows_are_hourly_means_witness:
  "List.map (reference_row (20513 * MS_DAY) ''no2'' who_rows 2) (sorted_list_of_set (series_seen (20513 * MS_DAY) ''no2'' who_rows))
     = [\<lparr>pr_timeseries_id = 7, pr_valid_hour_count = 2, pr_daily_mean_ugm3 = Some (Fin 25)\<rparr>]"
  using daily_rows_are_hourly_means [OF who_sample_day(1), of "''no2''" who_rows 2] who_sample_rows
  by (simp only: who_sample_day(2))

lemma valid_hours_bounded_witness:
  "pr_valid_hour_count \<lparr>pr_timeseries_id = 7, pr_valid_hour_count = 2, pr_daily_mean_ugm3 = Some (Fin 25)\<rparr> \<le> 25"
  using valid_hours_bounded [OF who_sample_day(1), unfolded who_sample_day(2),
    of "\<lparr>pr_timeseries_id = 7, pr_valid_hour_count = 2, pr_daily_mean_ugm3 = Some (Fin 25)\<rparr>" "''no2''" who_rows 2]
  unfolding who_sample_rows by simp

text \<open>C16: Rows of a partition are returned only when the whole chain holds: the manifest of the day refers to that of
  the connector, which refers to that of the pollutant, by key and by the digest of its content; each has been read
  under its key with the digest it carries; every file has the bytes, the digest and the rows that its manifest gives.
  All rows are of the connector, the pollutant and the day that were asked for, and their number is the sum of the
  files. The cache of manifests keeps this property from call to call.\<close>

theorem partition_rows_trusted:
  assumes "cache_ok env s"
    "readValidatedObservationPollutantPartition env dayUtc connectorId pollutant s = (Inr rows, s')"
  shows "cache_ok env s' \<and> (\<exists>n files rowss. valid_day n \<and> dayUtc = iso_day n
    \<and> trusted_files env dayUtc connectorId (js_lower (js_trim pollutant)) files
    \<and> files \<noteq> [] \<and> distinct (List.map mf_key files)
    \<and> list_all2 (file_gives env dayUtc connectorId (js_lower (js_trim pollutant))) files rowss
    \<and> rows = List.concat rowss \<and> int (length rows) = sum_list (List.map mf_rowCount files)
    \<and> (\<forall>row \<in> set rows. ro_connectorId row = connectorId \<and> ro_pollutantCode row = js_lower (js_trim pollutant)
        \<and> 0 < ro_timeseriesId row
        \<and> (\<exists>t. date_parse (ro_observedAtUtc row) = Some t \<and> n * MS_DAY \<le> t \<and> t < (n + 1) * MS_DAY)))"
proof -
  let ?p = "js_lower (js_trim pollutant)"
  have r: "cache_ok env s'" "\<exists>files rowss. trusted_files env dayUtc connectorId ?p files \<and> rows = List.concat rowss
      \<and> list_all2 (file_gives env dayUtc connectorId ?p) files rowss"
    using reads_partition [of env dayUtc connectorId pollutant] assms unfolding rd_keeps_def
    by (metis fst_conv snd_conv)+
  obtain u where "assertIsoDay dayUtc ''dayUtc'' = Inr u"
    using assms(2)
    by (cases "assertIsoDay dayUtc ''dayUtc''")
      (auto simp: readValidatedObservationPollutantPartition_def Let_def rd_bind_def rd_res_def)
  then obtain n where n: "valid_day n" "dayUtc = iso_day n" using assertIsoDay_ok by blast
  have start: "date_parse (midnight_text dayUtc) = Some (n * MS_DAY)" using midnight_parse n by simp
  obtain files rowss where f: "trusted_files env dayUtc connectorId ?p files" "rows = List.concat rowss"
    "list_all2 (file_gives env dayUtc connectorId ?p) files rowss"
    using r(2) by blast
  have "files \<noteq> []" "distinct (List.map mf_key files)"
    using f(1) parseManifestFiles_ok unfolding trusted_files_def by blast+
  moreover have "int (length rows) = sum_list (List.map mf_rowCount files)"
    unfolding f(2) by (rule files_rows_count [OF f(3)])
  moreover have "ro_connectorId row = connectorId \<and> ro_pollutantCode row = ?p \<and> 0 < ro_timeseriesId row
      \<and> (\<exists>t. date_parse (ro_observedAtUtc row) = Some t \<and> n * MS_DAY \<le> t \<and> t < (n + 1) * MS_DAY)" if "row \<in> set rows" for row
  proof -
    obtain frows where frows: "frows \<in> set rowss" "row \<in> set frows" using f(2) \<open>row \<in> set rows\<close> by auto
    then obtain f where "file_gives env dayUtc connectorId ?p f frows"
      using f(3) by (metis in_set_conv_nth list_all2_conv_all_nth)
    note this frows(2)
    from file_rows_ok [OF this start] show ?thesis by (simp add: algebra_simps)
  qed
  ultimately show ?thesis using r(1) n f by blast
qed

lemma partition_rows_trusted_witness:
  "\<exists>files. trusted_files sample_bucket ''2026-03-01'' 1 (js_lower (js_trim '' NO2'')) files \<and> files \<noteq> []"
proof -
  obtain s' where "readValidatedObservationPollutantPartition sample_bucket ''2026-03-01'' 1 '' NO2'' new_source
      = (Inr [sample_row], s')"
    using sample_partition by (metis prod.collapse)
  from partition_rows_trusted [OF sample_cache_ok this] show ?thesis by blast
qed

section \<open>Runs\<close>

text \<open>C18: A normal run settles both of its days whatever fails: the database, the readiness check, the bucket or a
  manifest. The two days before today have one result each, in order; the completed days are those with a usable
  result, and the day that is published is the later of them, or none.\<close>

theorem normal_run_settles_days:
  assumes "readSettings env now = Inr ws" "wc_runMode (ws_config ws) = DailyRun"
    "runWho2021Daily sx env startedAt now finishedAt bucket = (r, s)" "n = now div MS_DAY"
  shows "\<exists>r1 r2. wr_sources s = [r1, r2] \<and> sr_day_utc r1 = JStr (iso_day (n - 2)) \<and> sr_day_utc r2 = JStr (iso_day (n - 1))
    \<and> wr_failed_day s = None
    \<and> wr_completed s = (if usable_result r1 then [iso_day (n - 2)] else []) @ (if usable_result r2 then [iso_day (n - 1)] else [])
    \<and> wr_publication_day s = (if usable_result r2 then Some (iso_day (n - 1))
        else if usable_result r1 then Some (iso_day (n - 2)) else None)"
proof -
  obtain x b where b: "run_body sx ws (initial_run bucket) = (x, b)" by fastforce
  have v: "daily_view [iso_day (n - 2), iso_day (n - 1)] (view b)"
    unfolding assms(4) by (rule body_daily [OF assms(1,2) b])
  have "view s = view b" by (rule run_view [OF assms(1,3) b days_rows(1) [OF v]])
  then have "daily_view [iso_day (n - 2), iso_day (n - 1)] (view s)" using v by simp
  then obtain results rows where res: "List.map sr_day_utc results = List.map JStr [iso_day (n - 2), iso_day (n - 1)]"
    "view s = (results, List.map fst (filter (\<lambda>dr. usable_result (snd dr)) (zip [iso_day (n - 2), iso_day (n - 1)] results)),
      rows, None, selectNewestUsablePublicationDay results)"
    unfolding daily_view_def by blast
  then obtain r1 r2 where r: "results = [r1, r2]" "sr_day_utc r1 = JStr (iso_day (n - 2))" "sr_day_utc r2 = JStr (iso_day (n - 1))"
    by (auto simp: map_eq_Cons_conv)
  have two: "n - 1 - 1 = n - 2" by simp
  have "selectNewestUsablePublicationDay results = (if usable_result r2 then Some (iso_day (n - 1))
      else if usable_result r1 then Some (iso_day (n - 2)) else None)"
    using newest_of_two [of "n - 1" r1 r2, unfolded two] settings_daily(1,2) [OF assms(1,2,4)] r by simp
  then show ?thesis
    using res(2) r by (intro exI [of _ r1] exI [of _ r2]) (simp add: view_def)
qed

text \<open>Services of which nothing answers.\<close>

definition who_down :: services where
  "who_down = \<lparr>sx_fetch = (\<lambda>_ _ _. FetchFailed ''down''), sx_r2_fault = (\<lambda>_. None), sx_parquet_bytes = (\<lambda>_. Inl TypeError),
     sx_source = sample_bucket\<lparr>sv_read := (\<lambda>_. Inl (ReadFailed (JsError ''down'')))\<rparr>\<rparr>"

lemma normal_run_settles_days_witness:
  "\<exists>r1 r2. wr_sources (snd (runWho2021Daily who_down who_env 0 who_now 0 jm_empty)) = [r1, r2]
     \<and> sr_day_utc r2 = JStr (iso_day 20512)"
proof -
  obtain ws where ws: "readSettings who_env who_now = Inr ws" "wc_runMode (ws_config ws) = DailyRun"
    using who_settings(1) by blast
  have n: "20513 = who_now div MS_DAY" by (simp add: who_now_def MS_DAY_def)
  obtain r s where run: "runWho2021Daily who_down who_env 0 who_now 0 jm_empty = (r, s)" by fastforce
  from normal_run_settles_days [OF ws run n] run show ?thesis by auto
qed

text \<open>C17: A backfill that fails on a day stops there and publishes nothing. The days before it are complete, with a
  result from the database or the bucket each; the failing day has a failed result and comes last; the run ends with
  an error and the outcome failed, no summary is refreshed, and the bucket is not touched.\<close>

theorem failed_backfill_publishes_nothing:
  assumes "readSettings env now = Inr ws" "wc_runMode (ws_config ws) = BackfillRun"
    "wc_endDayUtc (ws_config ws) \<noteq> ''9999-12-31''"
    "runWho2021Daily sx env startedAt now finishedAt bucket = (r, s)" "wr_failed_day s = Some d"
  shows "\<exists>after results failed.
    listDaysInclusive (wc_startDayUtc (ws_config ws)) (wc_endDayUtc (ws_config ws)) = Some (Inr (wr_completed s @ d # after))
    \<and> wr_sources s = results @ [failed] \<and> List.map sr_day_utc results = List.map JStr (wr_completed s)
    \<and> (\<forall>result \<in> set results. sr_source result \<noteq> ''unavailable'')
    \<and> sr_day_utc failed = JStr d \<and> sr_calculation_status failed = ''failed''
    \<and> wx_error r \<noteq> None \<and> wr_outcome s = ''failed'' \<and> wr_publication_day s = None
    \<and> \<not> wr_summary_completed s \<and> wr_publish s = no_publication \<and> wr_operations s = 0 \<and> wr_bucket s = bucket"
proof -
  obtain a b h where ab: "valid_day a" "valid_day b" "a \<le> b" "wc_startDayUtc (ws_config ws) = iso_day a"
    "wc_endDayUtc (ws_config ws) = iso_day b"
    by (rule buildRunConfig_ok [OF settings_config [OF assms(1)]]) (rule that; blast)
  have last: "iso_day last_day = ''9999-12-31''" by code_simp
  then have "b \<noteq> last_day" using assms(3) ab(5) by auto
  then have "b < last_day" using ab(2) by (simp add: valid_day_iff)
  then have days: "listDaysInclusive (wc_startDayUtc (ws_config ws)) (wc_endDayUtc (ws_config ws))
      = Some (Inr (List.map iso_day [a..b]))"
    using listDaysInclusive_iso ab by simp
  obtain x t where t: "run_body sx ws (initial_run bucket) = (x, t)" by fastforce
  let ?ds = "List.map iso_day [a..b]"
  note body = body_backfill [OF assms(2) days t]
  have rows: "\<forall>row \<in> set (wr_rows t). \<not> is_nullish row" using body days_rows(2,3) by blast
  have view: "view s = view t" by (rule run_view [OF assms(1,4) t rows])
  have "\<not> backfill_view ?ds (view t)"
    using assms(5) view by (auto simp: backfill_view_def view_def)
  then have st: "stopped_view ?ds (view t)" "wr_bucket t = bucket" "wr_operations t = 0" "\<not> wr_summary_completed t"
    "wr_publish t = no_publication" and "\<exists>e. x = Inl e"
    using body by blast+
  then obtain e where e: "x = Inl e" by blast
  obtain captured s1 daily where p: "captured = Some e" "s1 = t\<lparr>wr_outcome := ''failed''\<rparr>"
    "log_run sx ws startedAt finishedAt captured daily s1 = (r, s)"
    by (rule run_parts [OF assms(1,4) t rows]) (simp add: e)
  note k = log_run_keeps [OF p(3)]
  obtain before d' after results failed rows' where f: "?ds = before @ d' # after"
    "List.map sr_day_utc results = List.map JStr before" "\<forall>result \<in> set results. sr_source result \<noteq> ''unavailable''"
    "sr_day_utc failed = JStr d'" "sr_calculation_status failed = ''failed''"
    "view t = (results @ [failed], before, rows', Some d', None)"
    using st(1) unfolding stopped_view_def by blast
  have v: "wr_sources s = results @ [failed]" "wr_completed s = before" "wr_publication_day s = None" "d' = d"
    using f(6) view assms(5) by (simp_all add: view_def)
  show ?thesis
    using f(1-5) v days st(2-5) k(2-8) p(1,2)
    by (intro exI [of _ after] exI [of _ results] exI [of _ failed]) simp
qed

lemma who_backfill_fails:
  "wr_failed_day (snd (runWho2021Daily who_down who_backfill_env 0 who_now 0 jm_empty)) = Some ''2026-02-01''"
  "case readSettings who_backfill_env who_now of Inl _ \<Rightarrow> False | Inr ws \<Rightarrow> wc_endDayUtc (ws_config ws) = ''2026-02-02''"
  by code_simp+

lemma failed_backfill_publishes_nothing_witness:
  "wr_outcome (snd (runWho2021Daily who_down who_backfill_env 0 who_now 0 jm_empty)) = ''failed''
   \<and> wr_bucket (snd (runWho2021Daily who_down who_backfill_env 0 who_now 0 jm_empty)) = jm_empty"
proof -
  obtain ws where ws: "readSettings who_backfill_env who_now = Inr ws" "wc_runMode (ws_config ws) = BackfillRun"
    using who_settings(2) by blast
  have e: "wc_endDayUtc (ws_config ws) \<noteq> ''9999-12-31''" using who_backfill_fails(2) ws by simp
  obtain r s where run: "runWho2021Daily who_down who_backfill_env 0 who_now 0 jm_empty = (r, s)" by fastforce
  have f: "wr_failed_day s = Some ''2026-02-01''" using who_backfill_fails(1) run by simp
  from failed_backfill_publishes_nothing [OF ws e run f] run show ?thesis by auto
qed

text \<open>C21: Every normal run and every backfill is recorded, whether it succeeded or not: the last calls it makes are the
  attempts to send its record, at least one of them, with the status error exactly when the run has failed. A run ends
  without an error only when it has succeeded and its record has been accepted. With no attempt allowed nothing is sent.\<close>

theorem run_recorded:
  assumes "readSettings env now = Inr ws" "wc_runMode (ws_config ws) \<noteq> DryRun" "1 \<le> attempts_of (ws_retries ws)"
    "runWho2021Daily sx env startedAt now finishedAt bucket = (r, s)"
  shows "\<exists>captured s1 daily k payload. attempt_run sx ws (initial_run bucket) = (captured, s1)
    \<and> mergeDailyRefreshRows (wr_rows s1) = Inr daily
    \<and> payload = run_log_payload (ws_config ws) startedAt finishedAt captured daily s1
    \<and> jget payload ''p_run_status'' = JStr (if captured = None then ''ok'' else ''error'')
    \<and> 1 \<le> k \<and> k \<le> attempts_of (ws_retries ws)
    \<and> wr_requests s = wr_requests s1 @ replicate k (ws_runLogRpc ws, payload)
    \<and> (wx_error r = None \<longleftrightarrow> captured = None \<and> wx_run_id r \<noteq> None)"
proof -
  obtain x b where b: "run_body sx ws (initial_run bucket) = (x, b)" by fastforce
  obtain captured s1 daily where p: "attempt_run sx ws (initial_run bucket) = (captured, s1)"
    "captured = (case x of Inl e \<Rightarrow> Some e | Inr _ \<Rightarrow> None)" "s1 = (case x of Inl e \<Rightarrow> b\<lparr>wr_outcome := ''failed''\<rparr> | Inr _ \<Rightarrow> b)"
    "log_run sx ws startedAt finishedAt captured daily s1 = (r, s)" "mergeDailyRefreshRows (wr_rows s1) = Inr daily"
    by (rule run_parts [OF assms(1,4) b body_rows [OF assms(1,2) b]])
  define payload where "payload = run_log_payload (ws_config ws) startedAt finishedAt captured daily s1"
  obtain y t where y: "logProcessingRun sx ws payload s1 = (y, t)" by fastforce
  obtain k where k: "1 \<le> k" "k \<le> attempts_of (ws_retries ws)"
    "wr_requests t = wr_requests s1 @ replicate k (ws_runLogRpc ws, payload)"
    using log_requests [OF y assms(3)] by blast
  have s: "wr_requests s = wr_requests t" "wx_error r = None \<longleftrightarrow> captured = None \<and> wx_run_id r \<noteq> None"
    using p(4) y unfolding log_run_def payload_def [symmetric]
    by (auto split: sum.splits option.splits)
  have d: "wc_dryRun (ws_config ws) = (wc_runMode (ws_config ws) = DryRun)"
    using settings_config [OF assms(1)] by (auto simp: buildRunConfig_def res_simps config_of_def split: prod.splits)
  have status: "jget payload ''p_run_status'' = JStr (if captured = None then ''ok'' else ''error'')"
    using d assms(2) by (simp add: payload_def run_log_payload_def)
  show ?thesis
    using p(1,5) payload_def k s status
    by (intro exI [of _ captured] exI [of _ s1] exI [of _ daily] exI [of _ k] exI [of _ payload]) simp
qed

lemma run_recorded_witness:
  "\<exists>ws k payload before. readSettings who_env who_now = Inr ws \<and> 1 \<le> k \<and> k \<le> 3
     \<and> wr_requests (snd (runWho2021Daily who_down who_env 0 who_now 0 jm_empty)) = before @ replicate k (ws_runLogRpc ws, payload)"
proof -
  obtain ws where ws: "readSettings who_env who_now = Inr ws" "wc_runMode (ws_config ws) = DailyRun" "attempts_of (ws_retries ws) = 3"
    using who_settings(1) by blast
  have m: "wc_runMode (ws_config ws) \<noteq> DryRun" "1 \<le> attempts_of (ws_retries ws)" using ws by simp_all
  obtain r s where run: "runWho2021Daily who_down who_env 0 who_now 0 jm_empty = (r, s)" by fastforce
  obtain s1 :: who_run and k payload where "1 \<le> k" "k \<le> 3" "wr_requests s = wr_requests s1 @ replicate k (ws_runLogRpc ws, payload)"
    using run_recorded [OF ws(1) m run] unfolding ws(3) by (elim exE conjE) (rule that)
  then show ?thesis using ws(1) run by auto
qed

end
