(* ===== verification/WhoPublication.thy ===== *)
theory WhoPublication
  imports WhoProperties
begin

text \<open>
  What the guideline program writes to the bucket when the bucket may refuse an operation or lose its answer: single
  objects, and the summary under its dated and its latest key.
\<close>

section \<open>Writes to the bucket\<close>

text \<open>What an object holds once its key has been written with this body and this digest.\<close>

definition holds :: "string \<Rightarrow> string \<Rightarrow> bucket_object \<Rightarrow> bool" where
  "holds body logicalHash obj \<longleftrightarrow> bo_logical_hash obj = Some logicalHash \<or> bo_body obj = body"

lemma put_cases:
  assumes "putR2ObjectIfChanged sx key body h s = (x, s')"
  shows "wr_bucket s' = wr_bucket s \<or> wr_bucket s' = jm_set key \<lparr>bo_logical_hash = Some h, bo_body = body\<rparr> (wr_bucket s)"
    "x = Inr p \<Longrightarrow> \<exists>obj. jm_get (wr_bucket s') key = Some obj \<and> holds body h obj"
    "x = Inr p \<Longrightarrow> \<not> pu_updated p \<Longrightarrow> wr_bucket s' = wr_bucket s"
  using assms
  by (auto simp: putR2ObjectIfChanged_def put_object_def r2_operation_def put_answer_def holds_def wh_bind_def wh_ret_def
      wh_get_def Let_def jm_get_set split: option.splits r2_fault.splits if_splits prod.splits sum.splits)

lemma put_again:
  assumes "jm_get (wr_bucket t) key = Some obj" "bo_logical_hash obj = Some h \<or> env_text (bo_logical_hash obj) = [] \<and> bo_body obj = body"
    "\<And>i. sx_r2_fault sx i = None" "putR2ObjectIfChanged sx key body h t = (y, t')"
  shows "\<exists>q. y = Inr q \<and> \<not> pu_updated q \<and> wr_bucket t' = wr_bucket t"
  using assms
  by (auto simp: putR2ObjectIfChanged_def r2_operation_def put_answer_def wh_bind_def wh_ret_def wh_get_def Let_def
      split: if_splits)

lemma put_settled:
  assumes "putR2ObjectIfChanged sx key body h s = (x, s')" "(\<exists>p. x = Inr p) \<or> wr_bucket s' \<noteq> wr_bucket s"
  shows "\<exists>obj. jm_get (wr_bucket s') key = Some obj
    \<and> (bo_logical_hash obj = Some h \<or> env_text (bo_logical_hash obj) = [] \<and> bo_body obj = body)"
  using assms
  by (auto simp: putR2ObjectIfChanged_def put_object_def r2_operation_def put_answer_def wh_bind_def wh_ret_def
      wh_get_def Let_def jm_get_set split: option.splits r2_fault.splits if_splits)

text \<open>C22: A write to the bucket that has taken effect is not made again. When it returned, or when it failed after the
  object had been stored, a later write of the same content under the same key finds it and changes nothing, provided
  that the bucket then answers; no other key is ever touched.\<close>

theorem conditional_put_settles:
  assumes "putR2ObjectIfChanged sx key body h s = (x, s1)" "(\<exists>p. x = Inr p) \<or> wr_bucket s1 \<noteq> wr_bucket s"
    "wr_bucket t = wr_bucket s1" "\<And>i. sx_r2_fault sx' i = None" "putR2ObjectIfChanged sx' key body h t = (y, t')"
  shows "(\<exists>q. y = Inr q \<and> \<not> pu_updated q) \<and> wr_bucket t' = wr_bucket s1
    \<and> (\<forall>k. k \<noteq> key \<longrightarrow> jm_get (wr_bucket t') k = jm_get (wr_bucket s) k)"
proof -
  obtain obj where obj: "jm_get (wr_bucket s1) key = Some obj"
    "bo_logical_hash obj = Some h \<or> env_text (bo_logical_hash obj) = [] \<and> bo_body obj = body"
    using put_settled [OF assms(1,2)] by blast
  have "\<exists>q. y = Inr q \<and> \<not> pu_updated q \<and> wr_bucket t' = wr_bucket t"
    by (rule put_again [OF _ obj(2) assms(4,5)]) (simp add: assms(3) obj(1))
  moreover have "jm_get (wr_bucket s1) k = jm_get (wr_bucket s) k" if "k \<noteq> key" for k
    using put_cases(1) [OF assms(1)] that by (auto simp: jm_get_set)
  ultimately show ?thesis using assms(3) by auto
qed

definition who_flaky :: services where
  "who_flaky = who_down\<lparr>sx_r2_fault := (\<lambda>i. if i = 1 then Some (LostAnswer ''timeout'') else None)\<rparr>"

lemma who_put_lost:
  "putR2ObjectIfChanged who_flaky ''k'' ''body'' ''hash'' (initial_run jm_empty)
     = (Inl (PlainError (JsError ''timeout'')), (initial_run jm_empty)
        \<lparr>wr_operations := 2, wr_bucket := [(''k'', \<lparr>bo_logical_hash = Some ''hash'', bo_body = ''body''\<rparr>)]\<rparr>)"
  by (simp add: putR2ObjectIfChanged_def put_object_def r2_operation_def who_flaky_def initial_run_def wh_bind_def
      wh_get_def Let_def jm_empty_def who_down_def jm_get_def)

lemma conditional_put_settles_witness:
  "\<exists>q t. putR2ObjectIfChanged who_down ''k'' ''body'' ''hash'' (snd (putR2ObjectIfChanged who_flaky ''k'' ''body'' ''hash'' (initial_run jm_empty)))
      = (Inr q, t) \<and> \<not> pu_updated q"
proof -
  define s1 where "s1 = snd (putR2ObjectIfChanged who_flaky ''k'' ''body'' ''hash'' (initial_run jm_empty))"
  obtain y t' where y: "putR2ObjectIfChanged who_down ''k'' ''body'' ''hash'' s1 = (y, t')" by fastforce
  have f: "sx_r2_fault who_down i = None" for i by (simp add: who_down_def)
  have c: "(\<exists>p. Inl (PlainError (JsError ''timeout'')) = (Inr p :: who_error + put_result)) \<or> wr_bucket s1 \<noteq> wr_bucket (initial_run jm_empty)"
    unfolding s1_def who_put_lost by (simp add: initial_run_def jm_empty_def)
  have p: "putR2ObjectIfChanged who_flaky ''k'' ''body'' ''hash'' (initial_run jm_empty)
      = (Inl (PlainError (JsError ''timeout'')), s1)"
    unfolding s1_def who_put_lost by simp
  from conditional_put_settles [OF p c refl f y] obtain q where "y = Inr q" "\<not> pu_updated q" by blast
  then show ?thesis using y unfolding s1_def by (intro exI [of _ q] exI [of _ t']) simp
qed

section \<open>Publication\<close>

definition LATEST_KEY :: string where
  "LATEST_KEY = ''history/v2/who_2021/latest_who_2021.json''"

lemma plan_keys:
  assumes "buildR2PublishPlan d c y = Inr plan"
  shows "pp_latestSummaryKey plan = LATEST_KEY" "pp_datedSummaryKey plan \<noteq> LATEST_KEY"
  using assms by (auto simp: buildR2PublishPlan_def LATEST_KEY_def Let_def res_map_Inr)

text \<open>C19: The latest summary never runs ahead of the dated one. Whatever the bucket refuses or loses, once the object of
  the latest summary has changed, it is the new summary, and the summary of the day is already stored under its own
  key; when the publication returns, both keys hold the summary.\<close>

theorem latest_follows_dated:
  assumes "publish_json sx ws day summaryRow homepage s = (x, s')"
    "(\<exists>ps. x = Inr ps) \<or> jm_get (wr_bucket s') LATEST_KEY \<noteq> jm_get (wr_bucket s) LATEST_KEY"
  shows "\<exists>plan dated latest. buildR2PublishPlan day (wc_connectorId (ws_config ws)) (jget summaryRow ''calendar_year'') = Inr plan
    \<and> jm_get (wr_bucket s') (pp_datedSummaryKey plan) = Some dated \<and> jm_get (wr_bucket s') LATEST_KEY = Some latest
    \<and> holds (stableJson homepage) (sv_sha256 (sx_source sx) (stableJson (logicalSummary homepage))) dated
    \<and> holds (stableJson homepage) (sv_sha256 (sx_source sx) (stableJson (logicalSummary homepage))) latest"
proof -
  let ?body = "stableJson homepage" and ?h = "sv_sha256 (sx_source sx) (stableJson (logicalSummary homepage))"
  define pl where "pl = buildR2PublishPlan day (wc_connectorId (ws_config ws)) (jget summaryRow ''calendar_year'')"
  note e = assms(1) [unfolded publish_json_def pl_def [symmetric] Let_def]
  show ?thesis
  proof (cases pl)
    case (Inl err)
    then have "x = Inl (PlainError err)" "s' = s" using e by (simp_all add: wh_bind_def wh_res_def)
    then show ?thesis using assms(2) by simp
  next
    case (Inr plan)
    have keys: "pp_latestSummaryKey plan = LATEST_KEY" "pp_datedSummaryKey plan \<noteq> LATEST_KEY"
      using plan_keys Inr unfolding pl_def by blast+
    obtain x1 s1 where 1: "putR2ObjectIfChanged sx (pp_datedSummaryKey plan) ?body ?h s = (x1, s1)" by fastforce
    have first: "jm_get (wr_bucket s1) LATEST_KEY = jm_get (wr_bucket s) LATEST_KEY"
      using put_cases(1) [OF 1] keys(2) by (auto simp: jm_get_set)
    obtain p1 where p1: "x1 = Inr p1"
      using e 1 first assms(2) Inr by (cases x1) (auto simp: wh_bind_def wh_res_def)
    obtain x2 s2 where 2: "putR2ObjectIfChanged sx LATEST_KEY ?body ?h s1 = (x2, s2)" by fastforce
    have x: "s' = s2" "(\<exists>ps. x = Inr ps) \<Longrightarrow> \<exists>p2. x2 = Inr p2"
      using e 1 2 p1 Inr by (auto simp: wh_bind_def wh_res_def wh_ret_def keys split: sum.splits)
    have latest: "\<exists>obj. jm_get (wr_bucket s') LATEST_KEY = Some obj \<and> holds ?body ?h obj"
    proof (cases x2)
      case (Inr p2)
      then show ?thesis using put_cases(2) [OF 2] x(1) by blast
    next
      case (Inl err)
      then have "wr_bucket s2 \<noteq> wr_bucket s1" using assms(2) x first by auto
      then have "wr_bucket s2 = jm_set LATEST_KEY \<lparr>bo_logical_hash = Some ?h, bo_body = ?body\<rparr> (wr_bucket s1)"
        using put_cases(1) [OF 2] by blast
      then show ?thesis using x(1) by (simp add: jm_get_set holds_def)
    qed
    obtain dated where "jm_get (wr_bucket s1) (pp_datedSummaryKey plan) = Some dated" "holds ?body ?h dated"
      using put_cases(2) [OF 1 p1] by blast
    moreover have "jm_get (wr_bucket s') (pp_datedSummaryKey plan) = jm_get (wr_bucket s1) (pp_datedSummaryKey plan)"
      using put_cases(1) [OF 2] keys(2) x(1) by (auto simp: jm_get_set)
    ultimately show ?thesis using latest Inr unfolding pl_def by auto
  qed
qed

definition who_homepage :: jsval where
  "who_homepage = JObj [(''status'', JStr ''ok''), (''generated_at_utc'', JStr ''2026-03-01T12:00:00Z'')]"

lemma who_published:
  "\<exists>ws. readSettings who_env who_now = Inr ws \<and> (\<exists>ps. fst (publish_json who_down ws ''2026-02-28''
     (JObj [(''calendar_year'', JInt 2025)]) who_homepage (initial_run jm_empty)) = Inr ps)"
proof -
  have "case readSettings who_env who_now of Inl _ \<Rightarrow> False
    | Inr ws \<Rightarrow> (case publish_json who_down ws ''2026-02-28'' (JObj [(''calendar_year'', JInt 2025)]) who_homepage
        (initial_run jm_empty) of (Inr ps, s) \<Rightarrow> True | _ \<Rightarrow> False)"
    by code_simp
  then show ?thesis by (auto split: sum.splits prod.splits)
qed

lemma latest_follows_dated_witness:
  "\<exists>ws s latest. readSettings who_env who_now = Inr ws
     \<and> s = snd (publish_json who_down ws ''2026-02-28'' (JObj [(''calendar_year'', JInt 2025)]) who_homepage (initial_run jm_empty))
     \<and> jm_get (wr_bucket s) LATEST_KEY = Some latest"
proof -
  obtain ws ps where ws: "readSettings who_env who_now = Inr ws"
    "fst (publish_json who_down ws ''2026-02-28'' (JObj [(''calendar_year'', JInt 2025)]) who_homepage (initial_run jm_empty)) = Inr ps"
    using who_published by blast
  obtain x s where p: "publish_json who_down ws ''2026-02-28'' (JObj [(''calendar_year'', JInt 2025)]) who_homepage
      (initial_run jm_empty) = (x, s)" by fastforce
  have "\<exists>ps. x = Inr ps" using ws(2) p by simp
  from latest_follows_dated [OF p disjI1 [OF this]] obtain latest where "jm_get (wr_bucket s) LATEST_KEY = Some latest" by blast
  then show ?thesis using ws(1) p by auto
qed

end
