(* ===== verification/SnapshotState.thy ===== *)
theory SnapshotState
  imports JsJson
begin

text \<open>
  workers/uk_aq_latest_snapshot_cloud_run: which values are current (latest_value_policy.mjs), the state that keeps
  the latest observation of every series (latest_state_core.mjs), and from run_job.ts the decoding of messages, the
  resolution of their pollutant by the metadata, and the loading of the stored state. A Map is a jsmap whose update is
  returned.
\<close>

section \<open>Current values\<close>

datatype value_reason = Eligible | UnsupportedPollutant | MissingOrNonFinite | NegativeValue | AbovePm25Maximum | AbovePm10Maximum

record value_decision =
  vd_eligible :: bool
  vd_matrixPollutant :: "string option"
  vd_reason :: value_reason

definition normalizeLatestMatrixPollutant :: "jsval \<Rightarrow> string option" where
  "normalizeLatestMatrixPollutant v =
     (if is_nullish v \<or> js_trim (js_string v) = [] then None
      else let compact = filter (\<lambda>c. \<not> (is_ws c \<or> c = CHR ''_'' \<or> c = CHR ''.'' \<or> c = CHR ''-'')) (js_lower (js_trim (js_string v)))
           in if List.member [''pm25'', ''pm10'', ''no2''] compact then Some compact else None)"

definition evaluateLatestCurrentValue :: "jsval \<Rightarrow> jsval \<Rightarrow> value_decision" where
  "evaluateLatestCurrentValue pollutant v =
     (let decide = (\<lambda>p reason. \<lparr>vd_eligible = (reason = Eligible), vd_matrixPollutant = p, vd_reason = reason\<rparr>)
      in case normalizeLatestMatrixPollutant pollutant of
           None \<Rightarrow> decide None UnsupportedPollutant
         | Some p \<Rightarrow>
             (case v of
                JNum (Fin x) \<Rightarrow>
                  if x < 0 then decide (Some p) NegativeValue
                  else if p = ''pm25'' \<and> 500 < x then decide (Some p) AbovePm25Maximum
                  else if p = ''pm10'' \<and> 600 < x then decide (Some p) AbovePm10Maximum
                  else decide (Some p) Eligible
              | _ \<Rightarrow> decide (Some p) MissingOrNonFinite))"

section \<open>The latest state\<close>

record obs_message =
  om_connector_id :: int
  om_timeseries_id :: int
  om_observed_at :: string
  om_value :: "jsnum option"
  om_value_float8_hex :: "string option"
  om_status :: "string option"

record latest_entry = obs_message +
  le_ingested_at :: "string option"

type_synonym latest_state = "(string, latest_entry) jsmap"

definition latestStateKey :: "int \<Rightarrow> int \<Rightarrow> string" where
  "latestStateKey connectorId timeseriesId = int_str connectorId @ '':'' @ int_str timeseriesId"

text \<open>Date.parse as a number.\<close>

definition parsed_ms :: "string \<Rightarrow> jsnum" where
  "parsed_ms s = (case date_parse s of None \<Rightarrow> NaN | Some t \<Rightarrow> Fin (of_int t))"

definition ingested_ms :: "latest_entry \<Rightarrow> jsnum" where
  "ingested_ms e = (case le_ingested_at e of None \<Rightarrow> Fin 0 | Some s \<Rightarrow> if s = [] then Fin 0 else parsed_ms s)"

definition compareLatestStateRows :: "latest_entry \<Rightarrow> latest_entry \<Rightarrow> jsnum" where
  "compareLatestStateRows a b =
     (let d = num_sub (parsed_ms (om_observed_at a)) (parsed_ms (om_observed_at b))
      in if \<not> num_eq d (Fin 0) then d else num_sub (ingested_ms a) (ingested_ms b))"

definition with_ingested :: "string \<Rightarrow> obs_message \<Rightarrow> latest_entry" where
  "with_ingested ingestedAt row =
     \<lparr>om_connector_id = om_connector_id row, om_timeseries_id = om_timeseries_id row, om_observed_at = om_observed_at row,
      om_value = om_value row, om_value_float8_hex = om_value_float8_hex row, om_status = om_status row,
      le_ingested_at = Some ingestedAt\<rparr>"

record apply_summary =
  as_applied_new :: int
  as_applied_newer :: int
  as_skipped_older :: int
  as_skipped_duplicate :: int

definition no_rows_applied :: apply_summary where
  "no_rows_applied = \<lparr>as_applied_new = 0, as_applied_newer = 0, as_skipped_older = 0, as_skipped_duplicate = 0\<rparr>"

definition apply_row :: "string \<Rightarrow> obs_message \<Rightarrow> latest_state \<times> apply_summary \<Rightarrow> latest_state \<times> apply_summary" where
  "apply_row ingestedAt row st =
     (let (m, sm) = st;
          key = latestStateKey (om_connector_id row) (om_timeseries_id row);
          next = with_ingested ingestedAt row
      in case jm_get m key of
           None \<Rightarrow> (jm_set key next m, sm\<lparr>as_applied_new := as_applied_new sm + 1\<rparr>)
         | Some current \<Rightarrow>
             (let c = compareLatestStateRows current next
              in if num_lt c (Fin 0) then (jm_set key next m, sm\<lparr>as_applied_newer := as_applied_newer sm + 1\<rparr>)
                 else if num_eq c (Fin 0) then (m, sm\<lparr>as_skipped_duplicate := as_skipped_duplicate sm + 1\<rparr>)
                 else (m, sm\<lparr>as_skipped_older := as_skipped_older sm + 1\<rparr>)))"

definition applyEligibleRowsToLatestState :: "latest_state \<Rightarrow> obs_message list \<Rightarrow> string \<Rightarrow> latest_state \<times> apply_summary" where
  "applyEligibleRowsToLatestState m rows ingestedAt = fold (apply_row ingestedAt) rows (m, no_rows_applied)"

record integrity_summary =
  is_applied_new_count :: int
  is_applied_newer_count :: int
  is_applied_same_timestamp_correction_count :: int
  is_skipped_equal_count :: int
  is_skipped_older_count :: int

definition no_candidates_applied :: integrity_summary where
  "no_candidates_applied = \<lparr>is_applied_new_count = 0, is_applied_newer_count = 0,
     is_applied_same_timestamp_correction_count = 0, is_skipped_equal_count = 0, is_skipped_older_count = 0\<rparr>"

text \<open>Object.is on finite numbers; the sign of zero is not modelled.\<close>

definition same_content :: "obs_message \<Rightarrow> latest_entry \<Rightarrow> bool" where
  "same_content row e \<longleftrightarrow> om_value row = om_value e \<and> om_value_float8_hex row = om_value_float8_hex e
     \<and> om_status row = om_status e"

definition apply_candidate ::
  "string \<Rightarrow> obs_message \<Rightarrow> latest_state \<times> integrity_summary \<Rightarrow> latest_state \<times> integrity_summary" where
  "apply_candidate reconciledAt row st =
     (let (m, sm) = st;
          key = latestStateKey (om_connector_id row) (om_timeseries_id row);
          next = with_ingested reconciledAt row
      in case jm_get m key of
           None \<Rightarrow> (jm_set key next m, sm\<lparr>is_applied_new_count := is_applied_new_count sm + 1\<rparr>)
         | Some current \<Rightarrow>
             (let d = num_sub (parsed_ms (om_observed_at row)) (parsed_ms (om_observed_at current))
              in if num_lt (Fin 0) d then (jm_set key next m, sm\<lparr>is_applied_newer_count := is_applied_newer_count sm + 1\<rparr>)
                 else if num_lt d (Fin 0) then (m, sm\<lparr>is_skipped_older_count := is_skipped_older_count sm + 1\<rparr>)
                 else if same_content row current then (m, sm\<lparr>is_skipped_equal_count := is_skipped_equal_count sm + 1\<rparr>)
                 else (jm_set key next m, sm\<lparr>is_applied_same_timestamp_correction_count :=
                   is_applied_same_timestamp_correction_count sm + 1\<rparr>)))"

definition applyIntegrityCandidatesToLatestState ::
  "latest_state \<Rightarrow> obs_message list \<Rightarrow> string \<Rightarrow> latest_state \<times> integrity_summary" where
  "applyIntegrityCandidatesToLatestState m rows reconciledAt = fold (apply_candidate reconciledAt) rows (m, no_candidates_applied)"

text \<open>The stored text: entries by connector and series, keys in the order of localeCompare.\<close>

fun stableSort :: "jsval \<Rightarrow> jsval" where
  "stableSort (JArr vs) = JArr (List.map stableSort vs)"
| "stableSort (JObj kvs) = JObj (sort_key (\<lambda>kv. collation_key (fst kv)) (List.map (\<lambda>kv. (fst kv, stableSort (snd kv))) kvs))"
| "stableSort (JDate _) = JObj []"
| "stableSort v = v"

definition optional_text :: "string option \<Rightarrow> jsval" where
  "optional_text x = (case x of None \<Rightarrow> Null | Some s \<Rightarrow> JStr s)"

definition optional_num :: "jsnum option \<Rightarrow> jsval" where
  "optional_num x = (case x of None \<Rightarrow> Null | Some n \<Rightarrow> JNum n)"

definition entry_object :: "latest_entry \<Rightarrow> jsval" where
  "entry_object e =
     JObj [(''connector_id'', JInt (om_connector_id e)), (''timeseries_id'', JInt (om_timeseries_id e)),
       (''observed_at'', JStr (om_observed_at e)), (''value'', optional_num (om_value e)),
       (''value_float8_hex'', optional_text (om_value_float8_hex e)), (''status'', optional_text (om_status e)),
       (''ingested_at'', optional_text (le_ingested_at e))]"

definition serializeLatestState :: "latest_state \<Rightarrow> string \<Rightarrow> string" where
  "serializeLatestState m updatedAt =
     json_stringify (stableSort (JObj [(''schema_version'', JInt 1), (''updated_at'', JStr updatedAt),
       (''entries'', JArr (List.map entry_object (sort_key (\<lambda>e. (om_connector_id e, om_timeseries_id e)) (jm_values m))))]))
     @ [CHR 0x0A]"

section \<open>Messages\<close>

text \<open>atob: base64 without its white space, at most two characters of padding; None is its exception.\<close>

definition b64_value :: "char \<Rightarrow> int option" where
  "b64_value c =
     (let n = char_code c in
      if 65 \<le> n \<and> n \<le> 90 then Some (n - 65) else if 97 \<le> n \<and> n \<le> 122 then Some (n - 71)
      else if 48 \<le> n \<and> n \<le> 57 then Some (n + 4) else if c = CHR ''+'' then Some 62 else if c = CHR ''/'' then Some 63 else None)"

fun b64_bytes :: "int list \<Rightarrow> string" where
  "b64_bytes (a # b # c # d # r) =
     char_of (a * 4 + b div 16) # char_of (b mod 16 * 16 + c div 4) # char_of (c mod 4 * 64 + d) # b64_bytes r"
| "b64_bytes [a, b, c] = [char_of (a * 4 + b div 16), char_of (b mod 16 * 16 + c div 4)]"
| "b64_bytes [a, b] = [char_of (a * 4 + b div 16)]"
| "b64_bytes _ = []"

definition atob :: "string \<Rightarrow> string option" where
  "atob data =
     (let s = filter (\<lambda>c. c \<notin> {CHR 0x20, CHR 0x09, CHR 0x0A, CHR 0x0C, CHR 0x0D}) data;
          s = (if length s mod 4 = 0 \<and> s \<noteq> [] \<and> last s = CHR ''=''
               then (if last (butlast s) = CHR ''='' then butlast (butlast s) else butlast s) else s);
          vs = List.map b64_value s
      in if length s mod 4 = 1 \<or> List.member vs None then None else Some (b64_bytes (List.map the vs)))"

text \<open>The length of a text in UTF-8, for characters below U+0100.\<close>

definition measureUtf8Bytes :: "string \<Rightarrow> int" where
  "measureUtf8Bytes s = sum_list (List.map (\<lambda>c. if char_code c < 128 then 1 else 2) s)"

definition snapshot_record :: "jsval \<Rightarrow> jsval option" where
  "snapshot_record v = (case v of JObj kvs \<Rightarrow> Some v | JDate d \<Rightarrow> Some v | _ \<Rightarrow> None)"

definition snapshot_timestamp :: "jsval \<Rightarrow> string option" where
  "snapshot_timestamp v =
     (case v of JStr s \<Rightarrow> if js_trim s = [] then None else map_option to_iso (date_parse (js_trim s)) | _ \<Rightarrow> None)"

definition positive_id :: "jsval \<Rightarrow> int option" where
  "positive_id v = (case num_integer (js_number v) of None \<Rightarrow> None | Some n \<Rightarrow> if n \<le> 0 then None else Some n)"

definition optional_string :: "jsval \<Rightarrow> string option" where
  "optional_string v = (if is_nullish v then None else Some (js_string v))"

text \<open>The value of a row: absent, a finite number, or nothing that can be read.\<close>

definition row_value :: "jsval \<Rightarrow> jsnum option option" where
  "row_value v = (if is_nullish v then Some None else if num_finite (js_number v) then Some (Some (js_number v)) else None)"

definition message_row :: "jsval \<Rightarrow> obs_message option" where
  "message_row v =
     (case (positive_id (jget v ''connector_id''), positive_id (jget v ''timeseries_id''), snapshot_timestamp (jget v ''observed_at''),
            row_value (jget v ''value'')) of
        (Some c, Some t, Some observed, Some x) \<Rightarrow>
          Some \<lparr>om_connector_id = c, om_timeseries_id = t, om_observed_at = observed, om_value = x,
            om_value_float8_hex = optional_string (jget v ''value_float8_hex''), om_status = optional_string (jget v ''status'')\<rparr>
      | _ \<Rightarrow> None)"

record decoded_message =
  dm_ackId :: "string option"
  dm_row :: "obs_message option"
  dm_payloadBytes :: int

definition decodeMessageRow :: "jsval \<Rightarrow> decoded_message res" where
  "decodeMessageRow message =
     (if is_nullish message then Inl TypeError
      else
      let ackId = (case jget message ''ackId'' of JStr s \<Rightarrow> if js_trim s = [] then None else Some s | _ \<Rightarrow> None);
          inner = jget message ''message'';
          dat = (if is_nullish inner then Undef else jget inner ''data'');
          none = (\<lambda>n. Inr \<lparr>dm_ackId = ackId, dm_row = None, dm_payloadBytes = n\<rparr>)
      in case (ackId, dat) of
           (Some _, JStr s) \<Rightarrow>
             if js_trim s = [] then none 0
             else (case atob s of
                None \<Rightarrow> none 0
              | Some decoded \<Rightarrow>
                  (case json_parse decoded of
                     None \<Rightarrow> none 0
                   | Some v \<Rightarrow>
                       (case snapshot_record v of
                          None \<Rightarrow> none (measureUtf8Bytes decoded)
                        | Some rec \<Rightarrow> Inr \<lparr>dm_ackId = ackId, dm_row = message_row rec,
                            dm_payloadBytes = measureUtf8Bytes decoded\<rparr>)))
         | _ \<Rightarrow> none 0)"

definition PUBSUB_ACK_MAX_IDS_PER_REQUEST :: int where "PUBSUB_ACK_MAX_IDS_PER_REQUEST = 1000"
definition PUBSUB_ACK_MAX_REQUEST_BYTES :: int where "PUBSUB_ACK_MAX_REQUEST_BYTES = 450000"

definition ack_body_bytes :: "string list \<Rightarrow> int" where
  "ack_body_bytes ids = measureUtf8Bytes (json_stringify (JObj [(''ackIds'', JArr (List.map JStr ids))]))"

fun chunk_acks :: "string list \<Rightarrow> string list \<Rightarrow> string list list" where
  "chunk_acks current [] = (if current = [] then [] else [current])"
| "chunk_acks current (ackId # ids) =
     (if current \<noteq> [] \<and> (PUBSUB_ACK_MAX_IDS_PER_REQUEST < int (length (current @ [ackId]))
        \<or> PUBSUB_ACK_MAX_REQUEST_BYTES < ack_body_bytes (current @ [ackId]))
      then current # chunk_acks [ackId] ids else chunk_acks (current @ [ackId]) ids)"

definition chunkPubsubAckIds :: "string list \<Rightarrow> string list list" where
  "chunkPubsubAckIds ackIds = chunk_acks [] ackIds"

end
