(* ===== verification/SnapshotRun.thy ===== *)
theory SnapshotRun
  imports SnapshotState
begin

text \<open>
  The part of run_job.ts that keeps the state: the metadata index and the pollutant of a series, the eligible rows of
  messages and of a reconciliation, loading the stored state, and a run up to its acknowledgements. Pub/Sub and the
  bucket are services whose calls may be refused or may lose their answer; they are numbered, and the state of a run
  counts them. Retries inside a call, the local cache of the bucket and log lines are left out.
\<close>

section \<open>Metadata\<close>

record meta_connector =
  mc_id :: int
  mc_connector_code :: "string option"
  mc_label :: "string option"
  mc_display_name :: "string option"
  mc_station_display_name_template :: "string option"

record meta_station =
  ms_id :: int
  ms_connector_id :: "int option"
  ms_network_id :: "int option"
  ms_match_id :: "int option"
  ms_station_ref :: "string option"
  ms_label :: "string option"
  ms_station_name :: "string option"
  ms_pcon_code :: "string option"
  ms_la_code :: "string option"
  ms_removed_at :: "string option"

record meta_match =
  mm_id :: int
  mm_uk_air_ref :: "string option"
  mm_match_name :: "string option"

record meta_network =
  mn_id :: int
  mn_network_code :: "string option"
  mn_display_name :: "string option"
  mn_network_type :: "string option"
  mn_public_display_enabled :: bool

record meta_timeseries =
  mt_id :: int
  mt_connector_id :: "int option"
  mt_station_id :: "int option"
  mt_phenomenon_id :: "int option"
  mt_label :: "string option"
  mt_uom :: "string option"

record meta_phenomenon =
  mp_id :: int
  mp_observed_property_id :: "int option"
  mp_label :: "string option"
  mp_notation :: "string option"
  mp_pollutant_label :: "string option"
  mp_source_label :: "string option"

record meta_property =
  mo_id :: int
  mo_code :: "string option"
  mo_display_name :: "string option"

record metadata_cache =
  mx_source_day_utc :: "string option"
  mx_connectors :: "meta_connector list"
  mx_stations :: "meta_station list"
  mx_station_matches :: "meta_match list"
  mx_networks :: "meta_network list"
  mx_timeseries :: "meta_timeseries list"
  mx_phenomena :: "meta_phenomenon list"
  mx_observed_properties :: "meta_property list"

record site_network =
  st_network_id :: int
  st_network_code :: string
  st_network_label :: string

record metadata_index =
  mi_source_day_utc :: "string option"
  mi_connectorsById :: "(int, meta_connector) jsmap"
  mi_stationsById :: "(int, meta_station) jsmap"
  mi_stationMatchesById :: "(int, meta_match) jsmap"
  mi_siteNetworksByMatchId :: "(int, site_network list) jsmap"
  mi_networksById :: "(int, meta_network) jsmap"
  mi_timeseriesById :: "(int, meta_timeseries) jsmap"
  mi_phenomenaById :: "(int, meta_phenomenon) jsmap"
  mi_observedPropertyById :: "(int, meta_property) jsmap"

definition by_id :: "('a \<Rightarrow> int) \<Rightarrow> 'a list \<Rightarrow> (int, 'a) jsmap" where
  "by_id f rows = fold (\<lambda>row. jm_set (f row) row) rows jm_empty"

text \<open>An optional number or text that is true in a condition.\<close>

definition truthy_id :: "int option \<Rightarrow> int option" where
  "truthy_id x = (case x of None \<Rightarrow> None | Some n \<Rightarrow> if n = 0 then None else Some n)"

definition truthy_text :: "string option \<Rightarrow> string option" where
  "truthy_text x = (case x of None \<Rightarrow> None | Some s \<Rightarrow> if s = [] then None else Some s)"

text \<open>The row that an optional identifier refers to.\<close>

definition lookup_id :: "(int, 'a) jsmap \<Rightarrow> int option \<Rightarrow> 'a option" where
  "lookup_id m x = Option.bind (truthy_id x) (jm_get m)"

definition add_site :: "(int, meta_network) jsmap \<Rightarrow> meta_station \<Rightarrow> (int, (int, site_network) jsmap) jsmap \<Rightarrow>
    (int, (int, site_network) jsmap) jsmap" where
  "add_site networks station m =
     (case (truthy_text (ms_removed_at station), truthy_id (ms_match_id station), lookup_id networks (ms_network_id station)) of
        (None, Some matchId, Some network) \<Rightarrow>
          (case (mn_public_display_enabled network, truthy_text (mn_network_code network), truthy_text (mn_display_name network)) of
             (True, Some code, Some name) \<Rightarrow>
               jm_set matchId (jm_set (mn_id network)
                 \<lparr>st_network_id = mn_id network, st_network_code = code, st_network_label = name\<rparr>
                 (case jm_get m matchId of None \<Rightarrow> jm_empty | Some nets \<Rightarrow> nets)) m
           | _ \<Rightarrow> m)
      | _ \<Rightarrow> m)"

definition buildMetadataIndex :: "metadata_cache \<Rightarrow> metadata_index" where
  "buildMetadataIndex cache =
     (let networks = by_id mn_id (mx_networks cache) in
      \<lparr>mi_source_day_utc = mx_source_day_utc cache, mi_connectorsById = by_id mc_id (mx_connectors cache),
       mi_stationsById = by_id ms_id (mx_stations cache), mi_stationMatchesById = by_id mm_id (mx_station_matches cache),
       mi_siteNetworksByMatchId = List.map (\<lambda>kv. (fst kv, sort_key st_network_id (jm_values (snd kv))))
         (fold (add_site networks) (mx_stations cache) jm_empty),
       mi_networksById = networks, mi_timeseriesById = by_id mt_id (mx_timeseries cache),
       mi_phenomenaById = by_id mp_id (mx_phenomena cache),
       mi_observedPropertyById = by_id mo_id (mx_observed_properties cache)\<rparr>)"

definition normalizePollutant_snapshot :: "string option \<Rightarrow> string option" where
  "normalizePollutant_snapshot v =
     (case Option.bind (truthy_text v) (\<lambda>s. truthy_text (Some (js_trim s))) of
        None \<Rightarrow> None
      | Some t \<Rightarrow>
          (let compact = filter (\<lambda>c. \<not> (is_ws c \<or> c = CHR ''_'')) (js_lower t)
           in if compact = ''pm25'' \<or> compact = ''pm2.5'' then Some ''pm2.5''
              else if compact = ''pm10'' then Some ''pm10''
              else if compact = ''no2'' then Some ''no2'' else Some (js_lower t)))"

text \<open>a ?? b on optional texts\<close>

fun first_present :: "string option list \<Rightarrow> string option" where
  "first_present [] = None"
| "first_present (None # xs) = first_present xs"
| "first_present (Some s # xs) = Some s"

definition series_pollutant :: "metadata_index \<Rightarrow> meta_timeseries \<Rightarrow> string option" where
  "series_pollutant metadata series =
     (let phenomenon = lookup_id (mi_phenomenaById metadata) (mt_phenomenon_id series);
          observedProperty = Option.bind phenomenon (\<lambda>p. lookup_id (mi_observedPropertyById metadata) (mp_observed_property_id p));
          of_phenomenon = (\<lambda>f. Option.bind phenomenon f)
      in normalizePollutant_snapshot (first_present [Option.bind observedProperty mo_code, of_phenomenon mp_notation,
           of_phenomenon mp_pollutant_label, of_phenomenon mp_label]))"

definition matrix_pollutant :: "string option \<Rightarrow> string option" where
  "matrix_pollutant v = normalizeLatestMatrixPollutant (optional_text v)"

section \<open>Eligible rows\<close>

record policy_summary =
  py_eligible_rows :: int
  py_skipped_invalid_current_value :: int
  py_skipped_unsupported_pollutant :: int
  py_skipped_metadata_unresolved :: int

definition no_rows_seen :: policy_summary where
  "no_rows_seen = \<lparr>py_eligible_rows = 0, py_skipped_invalid_current_value = 0, py_skipped_unsupported_pollutant = 0,
     py_skipped_metadata_unresolved = 0\<rparr>"

definition eligible_row :: "metadata_index \<Rightarrow> obs_message \<Rightarrow> obs_message list \<times> policy_summary \<Rightarrow>
    obs_message list \<times> policy_summary" where
  "eligible_row metadata row st =
     (let (rows, sm) = st in
      case jm_get (mi_timeseriesById metadata) (om_timeseries_id row) of
        None \<Rightarrow> (rows, sm\<lparr>py_skipped_metadata_unresolved := py_skipped_metadata_unresolved sm + 1\<rparr>)
      | Some series \<Rightarrow>
          (let decision = evaluateLatestCurrentValue (optional_text (matrix_pollutant (series_pollutant metadata series)))
                 (optional_num (om_value row))
           in if \<not> vd_eligible decision
              then (if vd_reason decision = UnsupportedPollutant
                then (rows, sm\<lparr>py_skipped_unsupported_pollutant := py_skipped_unsupported_pollutant sm + 1\<rparr>)
                else (rows, sm\<lparr>py_skipped_invalid_current_value := py_skipped_invalid_current_value sm + 1\<rparr>))
              else if om_value row = None
              then (rows, sm\<lparr>py_skipped_invalid_current_value := py_skipped_invalid_current_value sm + 1\<rparr>)
              else (rows @ [row], sm\<lparr>py_eligible_rows := py_eligible_rows sm + 1\<rparr>)))"

definition resolveEligibleStateRows :: "obs_message list \<Rightarrow> metadata_index \<Rightarrow> obs_message list \<times> policy_summary" where
  "resolveEligibleStateRows rows metadata = fold (eligible_row metadata) rows ([], no_rows_seen)"

record candidate = obs_message +
  ca_pollutant_code :: string

definition candidate_message :: "candidate \<Rightarrow> obs_message" where
  "candidate_message c =
     \<lparr>om_connector_id = om_connector_id c, om_timeseries_id = om_timeseries_id c, om_observed_at = om_observed_at c,
      om_value = om_value c, om_value_float8_hex = om_value_float8_hex c, om_status = om_status c\<rparr>"

definition mismatch :: "string \<Rightarrow> int \<Rightarrow> js_error" where
  "mismatch what timeseriesId =
     JsError (''Integrity candidate '' @ what @ '' mismatch for timeseries_id='' @ int_str timeseriesId @ ''.'')"

definition eligible_candidate :: "metadata_index \<Rightarrow> candidate \<Rightarrow> obs_message list \<times> policy_summary \<Rightarrow>
    (obs_message list \<times> policy_summary) res" where
  "eligible_candidate metadata row st =
     (let (rows, sm) = st;
          requested = matrix_pollutant (Some (ca_pollutant_code row));
          unsupported = (rows, sm\<lparr>py_skipped_unsupported_pollutant := py_skipped_unsupported_pollutant sm + 1\<rparr>)
      in if requested = None then Inr unsupported
         else case jm_get (mi_timeseriesById metadata) (om_timeseries_id row) of
           None \<Rightarrow> Inr (rows, sm\<lparr>py_skipped_metadata_unresolved := py_skipped_metadata_unresolved sm + 1\<rparr>)
         | Some series \<Rightarrow>
             if mt_connector_id series \<noteq> Some (om_connector_id row) then Inl (mismatch ''connector'' (om_timeseries_id row))
             else (let resolved = matrix_pollutant (series_pollutant metadata series) in
               if resolved = None then Inr unsupported
               else if resolved \<noteq> requested then Inl (mismatch ''pollutant'' (om_timeseries_id row))
               else if \<not> vd_eligible (evaluateLatestCurrentValue (optional_text resolved) (optional_num (om_value row)))
                 \<or> om_value row = None
               then Inr (rows, sm\<lparr>py_skipped_invalid_current_value := py_skipped_invalid_current_value sm + 1\<rparr>)
               else Inr (rows @ [candidate_message row], sm\<lparr>py_eligible_rows := py_eligible_rows sm + 1\<rparr>)))"

text \<open>The order of the rows; their times have been parsed when the request was validated.\<close>

definition candidate_order :: "obs_message \<Rightarrow> int \<times> int \<times> int \<times> (int list \<times> string) \<times> (int list \<times> string)" where
  "candidate_order row =
     (om_connector_id row, om_timeseries_id row, (case date_parse (om_observed_at row) of None \<Rightarrow> 0 | Some t \<Rightarrow> t),
      collation_key (case om_value_float8_hex row of None \<Rightarrow> [] | Some s \<Rightarrow> s),
      collation_key (case om_status row of None \<Rightarrow> [] | Some s \<Rightarrow> s))"

definition resolveIntegrityReconciliationCandidates ::
  "candidate list \<Rightarrow> metadata_index \<Rightarrow> (obs_message list \<times> policy_summary) res" where
  "resolveIntegrityReconciliationCandidates rows metadata =
     res_map (\<lambda>(eligible, sm). (sort_key candidate_order eligible, sm))
       (res_fold (eligible_candidate metadata) rows ([], no_rows_seen))"

section \<open>The stored state\<close>

record loaded_state =
  ld_stateMap :: latest_state
  ld_existingHash :: "string option"
  ld_existingBytes :: int
  ld_validForReuse :: bool

definition nothing_loaded :: loaded_state where
  "nothing_loaded = \<lparr>ld_stateMap = jm_empty, ld_existingHash = None, ld_existingBytes = 0, ld_validForReuse = False\<rparr>"

text \<open>typeof record.key is one of the types that an entry has.\<close>

definition is_text :: "jsval \<Rightarrow> bool" where
  "is_text v = (case v of JStr _ \<Rightarrow> True | _ \<Rightarrow> False)"

definition is_num :: "jsval \<Rightarrow> bool" where
  "is_num v = (case v of JNum _ \<Rightarrow> True | _ \<Rightarrow> False)"

definition entry_types_ok :: "jsval \<Rightarrow> bool" where
  "entry_types_ok v \<longleftrightarrow> is_num (jget v ''connector_id'') \<and> is_num (jget v ''timeseries_id'') \<and> is_text (jget v ''observed_at'')
     \<and> is_num (jget v ''value'') \<and> (is_nullish (jget v ''value_float8_hex'') \<or> is_text (jget v ''value_float8_hex''))
     \<and> (is_nullish (jget v ''status'') \<or> is_text (jget v ''status''))
     \<and> (is_nullish (jget v ''ingested_at'')
        \<or> is_text (jget v ''ingested_at'') \<and> snapshot_timestamp (jget v ''ingested_at'') \<noteq> None)"

text \<open>An entry whose identifiers, time and value can be read.\<close>

definition stored_entry :: "jsval \<Rightarrow> latest_entry option" where
  "stored_entry v =
     (case message_row v of
        None \<Rightarrow> None
      | Some row \<Rightarrow>
          (case om_value row of
             None \<Rightarrow> None
           | Some x \<Rightarrow> Some \<lparr>om_connector_id = om_connector_id row, om_timeseries_id = om_timeseries_id row,
               om_observed_at = om_observed_at row, om_value = Some x, om_value_float8_hex = om_value_float8_hex row,
               om_status = om_status row, le_ingested_at = snapshot_timestamp (jget v ''ingested_at'')\<rparr>))"

definition load_entry :: "bool \<Rightarrow> jsval \<Rightarrow> latest_state \<times> bool \<Rightarrow> (latest_state \<times> bool) res" where
  "load_entry strict v st =
     (let (m, valid) = st in
      case snapshot_record v of
        None \<Rightarrow> if strict then Inl (JsError ''Durable latest-state object contains a non-object entry.'') else Inr (m, False)
      | Some r \<Rightarrow>
          (case stored_entry r of
             None \<Rightarrow> if strict then Inl (JsError ''Durable latest-state object contains an invalid entry.'') else Inr (m, False)
           | Some e \<Rightarrow>
               (let key = latestStateKey (om_connector_id e) (om_timeseries_id e)
                in Inr (jm_set key e m, valid \<and> entry_types_ok r \<and> jm_get m key = None))))"

definition parse_state :: "bool \<Rightarrow> (string \<Rightarrow> string) \<Rightarrow> string \<Rightarrow> loaded_state res" where
  "parse_state strict sha256 text =
     (case json_parse text of
        None \<Rightarrow> if strict then Inl (JsError ''Durable latest-state object is not valid JSON.'')
          else Inr \<lparr>ld_stateMap = jm_empty, ld_existingHash = Some (sha256 text), ld_existingBytes = measureUtf8Bytes text,
            ld_validForReuse = False\<rparr>
      | Some v \<Rightarrow>
          (let rec = (case snapshot_record v of None \<Rightarrow> Undef | Some r \<Rightarrow> r);
               entries = (case jget rec ''entries'' of JArr vs \<Rightarrow> Some vs | _ \<Rightarrow> None);
               valid = (jget rec ''schema_version'' = JInt 1 \<and> entries \<noteq> None)
           in if strict \<and> \<not> valid
              then Inl (JsError ''Durable latest-state object does not match state schema version 1.'')
              else res_map (\<lambda>(m, ok). \<lparr>ld_stateMap = m, ld_existingHash = Some (sha256 text),
                     ld_existingBytes = measureUtf8Bytes text, ld_validForReuse = ok\<rparr>)
                (res_fold (load_entry strict) (case entries of None \<Rightarrow> [] | Some vs \<Rightarrow> vs) (jm_empty, valid))))"

section \<open>Calls of services\<close>

datatype call_fault = CallRefused string | AnswerLost string

record snap_services =
  ss_pull :: "nat \<Rightarrow> jsval"
  ss_fault :: "nat \<Rightarrow> call_fault option"
  ss_metadata :: "metadata_index res"
  ss_sha256 :: "string \<Rightarrow> string"

text \<open>The stored object, the number of calls, the messages that Pub/Sub has delivered and the acknowledgements it
  has been sent.\<close>

record snap_world =
  sw_object :: "string option"
  sw_calls :: nat
  sw_delivered :: "jsval list"
  sw_acked :: "string list"

type_synonym 'a snap = "snap_world \<Rightarrow> (js_error + 'a) \<times> snap_world"

definition sn_ret :: "'a \<Rightarrow> 'a snap" where
  "sn_ret x w = (Inr x, w)"

definition sn_bind :: "'a snap \<Rightarrow> ('a \<Rightarrow> 'b snap) \<Rightarrow> 'b snap" where
  "sn_bind m f w = (case m w of (Inl e, w') \<Rightarrow> (Inl e, w') | (Inr x, w') \<Rightarrow> f x w')"

definition sn_res :: "'a res \<Rightarrow> 'a snap" where
  "sn_res r w = (r, w)"

text \<open>A call with its effect and its answer, which is made from the number of the call and the world.\<close>

definition sn_call :: "snap_services \<Rightarrow> (snap_world \<Rightarrow> snap_world) \<Rightarrow> (nat \<Rightarrow> snap_world \<Rightarrow> 'a res) \<Rightarrow> 'a snap" where
  "sn_call sx f answer w =
     (let n = sw_calls w; called = w\<lparr>sw_calls := n + 1\<rparr>
      in case ss_fault sx n of
           None \<Rightarrow> (answer n w, f called)
         | Some (CallRefused m) \<Rightarrow> (Inl (JsError m), called)
         | Some (AnswerLost m) \<Rightarrow> (Inl (JsError m), f called))"

definition received_messages :: "jsval \<Rightarrow> jsval list" where
  "received_messages payload =
     (case jget (case snapshot_record payload of None \<Rightarrow> JObj [] | Some r \<Rightarrow> r) ''receivedMessages'' of JArr vs \<Rightarrow> vs | _ \<Rightarrow> [])"

definition pullPubsubMessages :: "snap_services \<Rightarrow> jsval list snap" where
  "pullPubsubMessages sx =
     (\<lambda>w. sn_call sx (\<lambda>u. u\<lparr>sw_delivered := sw_delivered u @ received_messages (ss_pull sx (sw_calls w))\<rparr>)
       (\<lambda>n _. Inr (received_messages (ss_pull sx n))) w)"

fun ack_chunks :: "snap_services \<Rightarrow> string list list \<Rightarrow> unit snap" where
  "ack_chunks sx [] = sn_ret ()"
| "ack_chunks sx (ids # rest) =
     sn_bind (sn_call sx (\<lambda>w. w\<lparr>sw_acked := sw_acked w @ ids\<rparr>) (\<lambda>_ _. Inr ())) (\<lambda>_. ack_chunks sx rest)"

definition ackPubsubMessages :: "snap_services \<Rightarrow> string list \<Rightarrow> int snap" where
  "ackPubsubMessages sx ackIds =
     (if ackIds = [] then sn_ret 0
      else sn_bind (ack_chunks sx (chunkPubsubAckIds ackIds)) (\<lambda>_. sn_ret (int (length (chunkPubsubAckIds ackIds)))))"

definition load_object :: "snap_services \<Rightarrow> string snap" where
  "load_object sx = sn_call sx id (\<lambda>_ w. case sw_object w of
     None \<Rightarrow> Inl (JsError ''R2 object not found'') | Some text \<Rightarrow> Inr text)"

definition put_state :: "snap_services \<Rightarrow> string \<Rightarrow> unit snap" where
  "put_state sx text = sn_call sx (\<lambda>w. w\<lparr>sw_object := Some text\<rparr>) (\<lambda>_ _. Inr ())"

definition loadState :: "snap_services \<Rightarrow> bool \<Rightarrow> loaded_state snap" where
  "loadState sx strict w =
     (case sn_bind (load_object sx) (\<lambda>text. sn_res (parse_state strict (ss_sha256 sx) text)) w of
        (Inl e, w') \<Rightarrow> (if strict then Inl e else Inr nothing_loaded, w')
      | r \<Rightarrow> r)"

section \<open>Pulling messages\<close>

record pull_summary =
  pl_pull_requests :: int
  pl_ack_requests :: int
  pl_pulled_messages :: int
  pl_decoded_rows :: int
  pl_malformed_messages :: int
  pl_acked_messages :: int
  pl_payload_bytes :: int

definition nothing_pulled :: pull_summary where
  "nothing_pulled = \<lparr>pl_pull_requests = 0, pl_ack_requests = 0, pl_pulled_messages = 0, pl_decoded_rows = 0,
     pl_malformed_messages = 0, pl_acked_messages = 0, pl_payload_bytes = 0\<rparr>"

definition PUBSUB_MAX_BATCHES_PER_RUN :: nat where "PUBSUB_MAX_BATCHES_PER_RUN = 8"

record pulled =
  pd_rows :: "obs_message list"
  pd_validAckIds :: "string list"
  pd_summary :: pull_summary

text \<open>The messages of a batch with an acknowledgement, with a row and without one.\<close>

definition malformed_acks :: "decoded_message list \<Rightarrow> string list" where
  "malformed_acks ds = List.concat (List.map (\<lambda>d. case (dm_ackId d, dm_row d) of (Some a, None) \<Rightarrow> [a] | _ \<Rightarrow> []) ds)"

definition valid_acks :: "decoded_message list \<Rightarrow> string list" where
  "valid_acks ds = List.concat (List.map (\<lambda>d. case (dm_ackId d, dm_row d) of (Some a, Some _) \<Rightarrow> [a] | _ \<Rightarrow> []) ds)"

definition valid_rows :: "decoded_message list \<Rightarrow> obs_message list" where
  "valid_rows ds = List.concat (List.map (\<lambda>d. case (dm_ackId d, dm_row d) of (Some _, Some r) \<Rightarrow> [r] | _ \<Rightarrow> []) ds)"

fun flush_batches :: "snap_services \<Rightarrow> nat \<Rightarrow> pulled \<Rightarrow> pulled snap" where
  "flush_batches sx 0 p = sn_ret p"
| "flush_batches sx (Suc left) p =
     sn_bind (pullPubsubMessages sx) (\<lambda>messages.
       let sm = (pd_summary p)\<lparr>pl_pull_requests := pl_pull_requests (pd_summary p) + 1\<rparr> in
       if messages = [] then sn_ret (p\<lparr>pd_summary := sm\<rparr>)
       else sn_bind (sn_res (res_mapM decodeMessageRow messages)) (\<lambda>ds.
         sn_bind (if malformed_acks ds = [] then sn_ret 0 else ackPubsubMessages sx (malformed_acks ds)) (\<lambda>acks.
           flush_batches sx left
             \<lparr>pd_rows = pd_rows p @ valid_rows ds, pd_validAckIds = pd_validAckIds p @ valid_acks ds,
              pd_summary = sm\<lparr>pl_pulled_messages := pl_pulled_messages sm + int (length messages),
                pl_ack_requests := pl_ack_requests sm + acks,
                pl_decoded_rows := pl_decoded_rows sm + int (length (valid_rows ds)),
                pl_malformed_messages := pl_malformed_messages sm + int (length (filter (\<lambda>d. dm_ackId d = None \<or> dm_row d = None) ds)),
                pl_acked_messages := pl_acked_messages sm + int (length (malformed_acks ds)),
                pl_payload_bytes := pl_payload_bytes sm + sum_list (List.map dm_payloadBytes ds)\<rparr>\<rparr>)))"

definition flushPubsubRows :: "snap_services \<Rightarrow> pulled snap" where
  "flushPubsubRows sx = flush_batches sx PUBSUB_MAX_BATCHES_PER_RUN
     \<lparr>pd_rows = [], pd_validAckIds = [], pd_summary = nothing_pulled\<rparr>"

section \<open>A run up to its acknowledgements\<close>

definition UK_AQ_LATEST_SNAPSHOT_MAX_STATE_ENTRIES :: int where "UK_AQ_LATEST_SNAPSHOT_MAX_STATE_ENTRIES = 500000"

definition check_size :: "latest_state \<Rightarrow> unit res" where
  "check_size m =
     (if UK_AQ_LATEST_SNAPSHOT_MAX_STATE_ENTRIES < int (length m)
      then Inl (JsError (''Latest snapshot state exceeded max entries ('' @ int_str (int (length m)) @ '' > ''
        @ int_str UK_AQ_LATEST_SNAPSHOT_MAX_STATE_ENTRIES @ '').''))
      else Inr ())"

text \<open>The state is written when rows were applied and its text has another digest; the digest that is stored then.\<close>

definition store_state :: "snap_services \<Rightarrow> loaded_state \<Rightarrow> latest_state \<Rightarrow> int \<Rightarrow> string \<Rightarrow> string option snap" where
  "store_state sx loaded m transitions ingestedAt =
     (if transitions \<le> 0 then sn_ret (ld_existingHash loaded)
      else let text = serializeLatestState m ingestedAt; hash = ss_sha256 sx text
        in if Some hash = ld_existingHash loaded then sn_ret (ld_existingHash loaded)
           else sn_bind (put_state sx text) (\<lambda>_. sn_ret (Some hash)))"

record state_run =
  sr_loaded :: loaded_state
  sr_stateMap :: latest_state
  sr_transitions :: int
  sr_durableStateHash :: "string option"
  sr_pulled :: pulled

definition scheduled_run :: "snap_services \<Rightarrow> string \<Rightarrow> state_run snap" where
  "scheduled_run sx ingestedAt =
     sn_bind (loadState sx False) (\<lambda>loaded.
     sn_bind (sn_res (ss_metadata sx)) (\<lambda>metadata.
     sn_bind (flushPubsubRows sx) (\<lambda>p.
       let (rows, policy) = resolveEligibleStateRows (pd_rows p) metadata;
           (m, sm) = applyEligibleRowsToLatestState (ld_stateMap loaded) rows ingestedAt;
           transitions = as_applied_new sm + as_applied_newer sm
       in sn_bind (sn_res (check_size m)) (\<lambda>_.
          sn_bind (store_state sx loaded m transitions ingestedAt) (\<lambda>hash.
          sn_bind (if pd_validAckIds p = [] then sn_ret 0 else ackPubsubMessages sx (pd_validAckIds p)) (\<lambda>acks.
            sn_ret \<lparr>sr_loaded = loaded, sr_stateMap = m, sr_transitions = transitions, sr_durableStateHash = hash,
              sr_pulled = p\<rparr>))))))"

definition nothing_to_pull :: pulled where
  "nothing_to_pull = \<lparr>pd_rows = [], pd_validAckIds = [], pd_summary = nothing_pulled\<rparr>"

definition reconciliation_run :: "snap_services \<Rightarrow> candidate list \<Rightarrow> string \<Rightarrow> state_run snap" where
  "reconciliation_run sx candidates reconciledAt =
     sn_bind (loadState sx True) (\<lambda>loaded.
     sn_bind (sn_res (ss_metadata sx)) (\<lambda>metadata.
     sn_bind (sn_res (resolveIntegrityReconciliationCandidates candidates metadata)) (\<lambda>(rows, policy).
       let (m, sm) = applyIntegrityCandidatesToLatestState (ld_stateMap loaded) rows reconciledAt;
           transitions = is_applied_new_count sm + is_applied_newer_count sm + is_applied_same_timestamp_correction_count sm
       in sn_bind (sn_res (check_size m)) (\<lambda>_.
          sn_bind (store_state sx loaded m transitions reconciledAt) (\<lambda>hash.
            sn_ret \<lparr>sr_loaded = loaded, sr_stateMap = m, sr_transitions = transitions, sr_durableStateHash = hash,
              sr_pulled = nothing_to_pull\<rparr>)))))"

end
