(* ===== verification/SnapshotSample.thy ===== *)
theory SnapshotSample
  imports SnapshotRun
begin

text \<open>
  A service with one series of PM2.5 and one message, at which the properties of the latest snapshot are applied. A
  scheduled run whose read of the stored state is refused takes the state for an empty one: it stores a state that has
  lost the series it had, and acknowledges its message.
\<close>

definition sample_series :: meta_timeseries where
  "sample_series = \<lparr>mt_id = 7, mt_connector_id = Some 1, mt_station_id = None, mt_phenomenon_id = Some 3, mt_label = None,
     mt_uom = None\<rparr>"

definition sample_phenomenon :: meta_phenomenon where
  "sample_phenomenon = \<lparr>mp_id = 3, mp_observed_property_id = None, mp_label = None, mp_notation = Some ''PM2.5'',
     mp_pollutant_label = None, mp_source_label = None\<rparr>"

definition sample_metadata :: metadata_index where
  "sample_metadata = buildMetadataIndex \<lparr>mx_source_day_utc = None, mx_connectors = [], mx_stations = [], mx_station_matches = [],
     mx_networks = [], mx_timeseries = [sample_series], mx_phenomena = [sample_phenomenon], mx_observed_properties = []\<rparr>"

text \<open>The data of the message: a row of series 7 with the value 20.\<close>

definition sample_message :: jsval where
  "sample_message = JObj [(''ackId'', JStr ''a1''), (''message'', JObj [(''data'', JStr (
     ''eyJjb25uZWN0b3JfaWQiOjEsInRpbWVzZXJpZXNfaWQiOjcsIm9ic2VydmVkX2F0Ijoi'' @
     ''MjAyNi0wMy0wMVQxMDowMDowMFoiLCJ2YWx1ZSI6MjB9''))])]"

text \<open>The message comes with the first pull, call 1; the digest stands for itself.\<close>

definition sample_services :: "(nat \<Rightarrow> call_fault option) \<Rightarrow> snap_services" where
  "sample_services fault = \<lparr>ss_pull = (\<lambda>n. if n = 1 then JObj [(''receivedMessages'', JArr [sample_message])] else JObj []),
     ss_fault = fault, ss_metadata = Inr sample_metadata, ss_sha256 = id\<rparr>"

definition snap_clock :: string where "snap_clock = ''2026-03-01T12:00:00.000Z''"

definition sample_entry :: "int \<Rightarrow> latest_entry" where
  "sample_entry series = \<lparr>om_connector_id = 1, om_timeseries_id = series, om_observed_at = ''2026-03-01T10:00:00.000Z'',
     om_value = Some (Fin 20), om_value_float8_hex = None, om_status = None, le_ingested_at = Some snap_clock\<rparr>"

definition stored_world :: "latest_state \<Rightarrow> snap_world" where
  "stored_world m = \<lparr>sw_object = Some (serializeLatestState m snap_clock), sw_calls = 0, sw_delivered = [], sw_acked = []\<rparr>"

definition state_of :: "int list \<Rightarrow> latest_state" where
  "state_of ids = List.map (\<lambda>n. (latestStateKey 1 n, sample_entry n)) ids"

definition refused_read :: "nat \<Rightarrow> call_fault option" where
  "refused_read n = (if n = 0 then Some (CallRefused ''timeout'') else None)"

lemma failed_read_drops_series:
  "(let w' = snd (scheduled_run (sample_services refused_read) snap_clock (stored_world (state_of [8])))
    in (sw_object w', sw_acked w')) = (Some (serializeLatestState (state_of [7]) snap_clock), [''a1''])"
  by code_simp

end
