(* ===== verification/SnapshotProperties.thy ===== *)
theory SnapshotProperties
  imports SnapshotSample
begin

text \<open>
  The latest snapshot: the state holds the newest observation of every series, only current values enter it, its
  acknowledgements follow its storage, and a reconciliation never builds on a state that it could not read.
\<close>

section \<open>The newest observation\<close>

text \<open>Instants whose differences are exact: 142 000 years around 1970.\<close>

definition instant :: "string \<Rightarrow> int option" where
  "instant s = (case date_parse s of None \<Rightarrow> None | Some t \<Rightarrow> if \<bar>t\<bar> < 2 ^ 52 then Some t else None)"

definition entry_timed :: "latest_entry \<Rightarrow> bool" where
  "entry_timed e \<longleftrightarrow> instant (om_observed_at e) \<noteq> None
     \<and> (case le_ingested_at e of None \<Rightarrow> True | Some s \<Rightarrow> s = [] \<or> instant s \<noteq> None)"

text \<open>The order of entries: by observation, then by ingestion, where none counts as 1970.\<close>

definition entry_rank :: "latest_entry \<Rightarrow> int \<times> int" where
  "entry_rank e = (the (instant (om_observed_at e)),
     case le_ingested_at e of None \<Rightarrow> 0 | Some s \<Rightarrow> if s = [] then 0 else the (instant s))"

lemma sub_instants:
  assumes "\<bar>a\<bar> < 2 ^ 52" "\<bar>b\<bar> < 2 ^ 52"
  shows "num_sub (Fin (of_int a)) (Fin (of_int b)) = Fin (of_int (a - b))"
  using to_double_int [of "a - b"] assms by (simp add: num_sub_def)

lemma compare_rank:
  assumes "entry_timed a" "entry_timed b"
  shows "num_lt (compareLatestStateRows a b) (Fin 0) \<longleftrightarrow> entry_rank a < entry_rank b"
    and "num_eq (compareLatestStateRows a b) (Fin 0) \<longleftrightarrow> entry_rank a = entry_rank b"
proof -
  obtain x y where o: "parsed_ms (om_observed_at a) = Fin (of_int x)" "\<bar>x\<bar> < 2 ^ 52"
    "parsed_ms (om_observed_at b) = Fin (of_int y)" "\<bar>y\<bar> < 2 ^ 52"
    "the (instant (om_observed_at a)) = x" "the (instant (om_observed_at b)) = y"
    using assms by (auto simp: entry_timed_def instant_def parsed_ms_def split: option.splits if_splits)
  have i: "\<exists>i. ingested_ms e = Fin (of_int i) \<and> \<bar>i\<bar> < 2 ^ 52 \<and> snd (entry_rank e) = i" if "entry_timed e" for e
    using that
    by (auto simp: entry_timed_def instant_def ingested_ms_def parsed_ms_def entry_rank_def split: option.splits if_splits)
  obtain u where u: "ingested_ms a = Fin (of_int u)" "\<bar>u\<bar> < 2 ^ 52" "snd (entry_rank a) = u" using i [OF assms(1)] by blast
  obtain v where v: "ingested_ms b = Fin (of_int v)" "\<bar>v\<bar> < 2 ^ 52" "snd (entry_rank b) = v" using i [OF assms(2)] by blast
  have r: "entry_rank a = (x, u)" "entry_rank b = (y, v)"
    using o(5,6) u(3) v(3) by (simp_all add: entry_rank_def)
  have c: "compareLatestStateRows a b = Fin (of_int (if x \<noteq> y then x - y else u - v))"
    unfolding compareLatestStateRows_def o u v sub_instants [OF o(2,4)] sub_instants [OF u(2) v(2)] Let_def by simp
  show "num_lt (compareLatestStateRows a b) (Fin 0) \<longleftrightarrow> entry_rank a < entry_rank b"
    "num_eq (compareLatestStateRows a b) (Fin 0) \<longleftrightarrow> entry_rank a = entry_rank b"
    unfolding c r by auto
qed

definition row_key :: "obs_message \<Rightarrow> string" where
  "row_key row = latestStateKey (om_connector_id row) (om_timeseries_id row)"

text \<open>What may be stored under a key: the entry before and the rows of the series.\<close>

definition contenders :: "latest_state \<Rightarrow> obs_message list \<Rightarrow> string \<Rightarrow> string \<Rightarrow> latest_entry list" where
  "contenders m rows ingestedAt k = (case jm_get m k of None \<Rightarrow> [] | Some e \<Rightarrow> [e])
     @ List.map (with_ingested ingestedAt) (filter (\<lambda>row. row_key row = k) rows)"

definition newest_of :: "latest_entry list \<Rightarrow> latest_entry option \<Rightarrow> bool" where
  "newest_of es r \<longleftrightarrow> (case r of None \<Rightarrow> es = [] | Some e \<Rightarrow> e \<in> set es \<and> (\<forall>c \<in> set es. entry_rank c \<le> entry_rank e))"

definition rows_timed :: "string \<Rightarrow> obs_message list \<Rightarrow> bool" where
  "rows_timed ingestedAt rows \<longleftrightarrow> (\<forall>row \<in> set rows. entry_timed (with_ingested ingestedAt row))"

definition state_timed :: "latest_state \<Rightarrow> bool" where
  "state_timed m \<longleftrightarrow> (\<forall>k e. jm_get m k = Some e \<longrightarrow> entry_timed e)"

lemma length_jm_set: "length (jm_set k v m) = length m + (if jm_get m k = None then 1 else 0)"
  by (induction k v m rule: jm_set.induct) (auto simp: jm_get_def)

lemma apply_row_cases:
  assumes "state_timed m" "entry_timed (with_ingested ingestedAt row)"
  shows "\<exists>m' sm'. apply_row ingestedAt row (m, sm) = (m', sm')
    \<and> state_timed m'
    \<and> (\<forall>k. newest_of (contenders m [row] ingestedAt k) (jm_get m' k))
    \<and> (\<forall>k. k \<noteq> row_key row \<longrightarrow> jm_get m' k = jm_get m k)
    \<and> int (length m') - as_applied_new sm' = int (length m) - as_applied_new sm
    \<and> as_applied_new sm' + as_applied_newer sm' + as_skipped_older sm' + as_skipped_duplicate sm'
      = as_applied_new sm + as_applied_newer sm + as_skipped_older sm + as_skipped_duplicate sm + 1
    \<and> (as_applied_new sm' + as_applied_newer sm' = as_applied_new sm + as_applied_newer sm \<longrightarrow> m' = m)
    \<and> as_applied_new sm \<le> as_applied_new sm' \<and> as_applied_newer sm \<le> as_applied_newer sm'"
proof (cases "jm_get m (row_key row)")
  case None
  then show ?thesis
    using assms
    by (auto simp: apply_row_def Let_def row_key_def [symmetric] jm_get_set state_timed_def length_jm_set contenders_def
        newest_of_def split: option.splits)
next
  case (Some e)
  have t: "entry_timed e" using assms(1) Some by (auto simp: state_timed_def)
  note c = compare_rank [OF t assms(2)]
  show ?thesis
    using assms Some c
    by (cases "entry_rank e < entry_rank (with_ingested ingestedAt row)")
      (auto simp: apply_row_def Let_def row_key_def [symmetric] jm_get_set state_timed_def length_jm_set contenders_def
        newest_of_def split: option.splits)
qed

lemma newest_trans:
  assumes "newest_of (contenders m [row] t k) (jm_get m1 k)" "newest_of (contenders m1 rows t k) r"
  shows "newest_of (contenders m (row # rows) t k) r"
proof -
  have c: "contenders m (row # rows) t k = contenders m [row] t k @ List.map (with_ingested t) (filter (\<lambda>r. row_key r = k) rows)"
    by (simp add: contenders_def)
  show ?thesis
    using assms unfolding c
    by (cases "jm_get m1 k"; cases r) (fastforce simp: newest_of_def contenders_def)+
qed

lemma apply_rows:
  assumes "state_timed m" "rows_timed ingestedAt rows" "fold (apply_row ingestedAt) rows (m, sm) = (m', sm')"
  shows "state_timed m' \<and> (\<forall>k. newest_of (contenders m rows ingestedAt k) (jm_get m' k))
    \<and> int (length m') - as_applied_new sm' = int (length m) - as_applied_new sm
    \<and> as_applied_new sm' + as_applied_newer sm' + as_skipped_older sm' + as_skipped_duplicate sm'
      = as_applied_new sm + as_applied_newer sm + as_skipped_older sm + as_skipped_duplicate sm + int (length rows)
    \<and> (as_applied_new sm' + as_applied_newer sm' = as_applied_new sm + as_applied_newer sm \<longrightarrow> m' = m)
    \<and> as_applied_new sm \<le> as_applied_new sm' \<and> as_applied_newer sm \<le> as_applied_newer sm'"
  using assms
proof (induction rows arbitrary: m sm)
  case Nil
  then show ?case by (auto simp: newest_of_def contenders_def split: option.splits)
next
  case (Cons row rows)
  have t: "entry_timed (with_ingested ingestedAt row)" "rows_timed ingestedAt rows"
    using Cons.prems(2) by (auto simp: rows_timed_def)
  obtain m1 sm1 where a: "apply_row ingestedAt row (m, sm) = (m1, sm1)" "state_timed m1"
    "\<forall>k. newest_of (contenders m [row] ingestedAt k) (jm_get m1 k)"
    "int (length m1) - as_applied_new sm1 = int (length m) - as_applied_new sm"
    "as_applied_new sm1 + as_applied_newer sm1 + as_skipped_older sm1 + as_skipped_duplicate sm1
      = as_applied_new sm + as_applied_newer sm + as_skipped_older sm + as_skipped_duplicate sm + 1"
    "as_applied_new sm1 + as_applied_newer sm1 = as_applied_new sm + as_applied_newer sm \<longrightarrow> m1 = m"
    "as_applied_new sm \<le> as_applied_new sm1" "as_applied_newer sm \<le> as_applied_newer sm1"
    using apply_row_cases [OF Cons.prems(1) t(1), of sm] by blast
  have f: "fold (apply_row ingestedAt) rows (m1, sm1) = (m', sm')" using Cons.prems(3) a(1) by simp
  note ih = Cons.IH [OF a(2) t(2) f]
  have n: "\<forall>k. newest_of (contenders m (row # rows) ingestedAt k) (jm_get m' k)"
    using newest_trans a(3) ih by blast
  have same: "as_applied_new sm' + as_applied_newer sm' = as_applied_new sm + as_applied_newer sm \<longrightarrow> m' = m"
  proof
    assume e: "as_applied_new sm' + as_applied_newer sm' = as_applied_new sm + as_applied_newer sm"
    then have "as_applied_new sm1 + as_applied_newer sm1 = as_applied_new sm + as_applied_newer sm"
      "as_applied_new sm' + as_applied_newer sm' = as_applied_new sm1 + as_applied_newer sm1"
      using ih a(7,8) by linarith+
    then show "m' = m" using ih a(6) by simp
  qed
  show ?case using ih n same a(4,5,7,8) by simp
qed

text \<open>C14: After rows have been applied, every series has the newest of the entry it had and of its rows, newest by
  the time of the observation and then by that of the ingestion; nothing else is stored, every row is counted once, the
  state grows by the new series, and without a transition it is unchanged.\<close>

theorem latest_state_newest:
  assumes "state_timed m" "rows_timed ingestedAt rows" "applyEligibleRowsToLatestState m rows ingestedAt = (m', sm)"
  shows "(\<forall>k. newest_of (contenders m rows ingestedAt k) (jm_get m' k)) \<and> state_timed m'
    \<and> int (length m') = int (length m) + as_applied_new sm
    \<and> as_applied_new sm + as_applied_newer sm + as_skipped_older sm + as_skipped_duplicate sm = int (length rows)
    \<and> (as_applied_new sm + as_applied_newer sm = 0 \<longrightarrow> m' = m)"
  using apply_rows [OF assms(1,2) assms(3) [unfolded applyEligibleRowsToLatestState_def]]
  by (simp add: no_rows_applied_def)

definition snap_row :: "int \<Rightarrow> string \<Rightarrow> rat \<Rightarrow> obs_message" where
  "snap_row series observed x = \<lparr>om_connector_id = 1, om_timeseries_id = series, om_observed_at = observed,
     om_value = Some (Fin x), om_value_float8_hex = None, om_status = None\<rparr>"

lemma snap_rows_timed:
  "rows_timed ''2026-03-01T12:00:00.000Z'' [snap_row 7 ''2026-03-01T10:00:00.000Z'' 20, snap_row 7 ''2026-03-01T11:00:00.000Z'' 30]"
proof -
  have "instant ''2026-03-01T12:00:00.000Z'' \<noteq> None" "instant ''2026-03-01T10:00:00.000Z'' \<noteq> None"
    "instant ''2026-03-01T11:00:00.000Z'' \<noteq> None"
    by code_simp+
  then show ?thesis by (auto simp: rows_timed_def entry_timed_def with_ingested_def snap_row_def)
qed

lemma latest_state_newest_witness:
  "\<exists>m' sm. applyEligibleRowsToLatestState jm_empty
      [snap_row 7 ''2026-03-01T10:00:00.000Z'' 20, snap_row 7 ''2026-03-01T11:00:00.000Z'' 30] ''2026-03-01T12:00:00.000Z'' = (m', sm)
    \<and> int (length m') = as_applied_new sm"
proof -
  obtain m' sm where a: "applyEligibleRowsToLatestState jm_empty
      [snap_row 7 ''2026-03-01T10:00:00.000Z'' 20, snap_row 7 ''2026-03-01T11:00:00.000Z'' 30] ''2026-03-01T12:00:00.000Z'' = (m', sm)"
    by fastforce
  have "state_timed jm_empty" by (simp add: state_timed_def)
  from latest_state_newest [OF this snap_rows_timed a] a show ?thesis by (auto simp: jm_empty_def)
qed

section \<open>Eligible rows\<close>

lemma matrix_again:
  "matrix_pollutant v = Some p \<Longrightarrow> p \<in> {''pm25'', ''pm10'', ''no2''} \<and> normalizeLatestMatrixPollutant (JStr p) = Some p"
proof -
  assume "matrix_pollutant v = Some p"
  then have "p \<in> {''pm25'', ''pm10'', ''no2''}"
    by (auto simp: matrix_pollutant_def normalizeLatestMatrixPollutant_def Let_def split: if_splits)
  moreover have "normalizeLatestMatrixPollutant (JStr ''pm25'') = Some ''pm25''"
    "normalizeLatestMatrixPollutant (JStr ''pm10'') = Some ''pm10''" "normalizeLatestMatrixPollutant (JStr ''no2'') = Some ''no2''"
    by code_simp+
  ultimately show ?thesis by blast
qed

text \<open>A row of a known series with a supported pollutant and a value in its range.\<close>

definition current_row :: "metadata_index \<Rightarrow> obs_message \<Rightarrow> bool" where
  "current_row metadata row \<longleftrightarrow>
     (\<exists>series p x. jm_get (mi_timeseriesById metadata) (om_timeseries_id row) = Some series
       \<and> matrix_pollutant (series_pollutant metadata series) = Some p \<and> om_value row = Some (Fin x) \<and> 0 \<le> x
       \<and> (p = ''pm25'' \<longrightarrow> x \<le> 500) \<and> (p = ''pm10'' \<longrightarrow> x \<le> 600))"

lemma normalize_null: "normalizeLatestMatrixPollutant Null = None"
  by (simp add: normalizeLatestMatrixPollutant_def is_nullish_def)

lemma decision_eligible:
  "vd_eligible (evaluateLatestCurrentValue (optional_text p) (optional_num v)) \<longleftrightarrow>
     (\<exists>q x. normalizeLatestMatrixPollutant (optional_text p) = Some q \<and> v = Some (Fin x) \<and> 0 \<le> x
       \<and> (q = ''pm25'' \<longrightarrow> x \<le> 500) \<and> (q = ''pm10'' \<longrightarrow> x \<le> 600))"
  by (cases "normalizeLatestMatrixPollutant (optional_text p)"; cases v)
    (auto simp: evaluateLatestCurrentValue_def Let_def optional_num_def split: jsnum.splits)

lemma eligible_row_step:
  "\<exists>sm'. eligible_row metadata row (rows, sm) = (if current_row metadata row then rows @ [row] else rows, sm')
    \<and> py_eligible_rows sm' = py_eligible_rows sm + (if current_row metadata row then 1 else 0)
    \<and> py_eligible_rows sm' + py_skipped_invalid_current_value sm' + py_skipped_unsupported_pollutant sm' + py_skipped_metadata_unresolved sm'
      = py_eligible_rows sm + py_skipped_invalid_current_value sm + py_skipped_unsupported_pollutant sm + py_skipped_metadata_unresolved sm + 1"
proof (cases "jm_get (mi_timeseriesById metadata) (om_timeseries_id row)")
  case None
  then show ?thesis by (auto simp: eligible_row_def current_row_def)
next
  case (Some series)
  let ?p = "matrix_pollutant (series_pollutant metadata series)"
  have e: "vd_eligible (evaluateLatestCurrentValue (optional_text ?p) (optional_num (om_value row))) \<longleftrightarrow> current_row metadata row"
  proof (cases ?p)
    case None
    have "normalizeLatestMatrixPollutant (optional_text None) = None" by (simp add: optional_text_def normalize_null)
    then show ?thesis unfolding None decision_eligible using Some None by (auto simp: current_row_def)
  next
    case (Some q)
    have "normalizeLatestMatrixPollutant (optional_text (Some q)) = Some q"
      using matrix_again [OF Some] by (simp add: optional_text_def)
    then show ?thesis
      unfolding Some decision_eligible
      using Some \<open>jm_get (mi_timeseriesById metadata) (om_timeseries_id row) = _\<close> by (auto simp: current_row_def)
  qed
  have v: "current_row metadata row \<Longrightarrow> om_value row \<noteq> None" by (auto simp: current_row_def)
  show ?thesis using Some e v by (auto simp: eligible_row_def Let_def)
qed

lemma eligible_rows_filter:
  "\<exists>sm'. fold (eligible_row metadata) rows (kept, sm) = (kept @ filter (current_row metadata) rows, sm')
    \<and> py_eligible_rows sm' = py_eligible_rows sm + int (length (filter (current_row metadata) rows))
    \<and> py_eligible_rows sm' + py_skipped_invalid_current_value sm' + py_skipped_unsupported_pollutant sm' + py_skipped_metadata_unresolved sm'
      = py_eligible_rows sm + py_skipped_invalid_current_value sm + py_skipped_unsupported_pollutant sm
        + py_skipped_metadata_unresolved sm + int (length rows)"
proof (induction rows arbitrary: kept sm)
  case (Cons row rows)
  obtain sm1 where s: "eligible_row metadata row (kept, sm) = (if current_row metadata row then kept @ [row] else kept, sm1)"
    "py_eligible_rows sm1 = py_eligible_rows sm + (if current_row metadata row then 1 else 0)"
    "py_eligible_rows sm1 + py_skipped_invalid_current_value sm1 + py_skipped_unsupported_pollutant sm1 + py_skipped_metadata_unresolved sm1
      = py_eligible_rows sm + py_skipped_invalid_current_value sm + py_skipped_unsupported_pollutant sm + py_skipped_metadata_unresolved sm + 1"
    using eligible_row_step by blast
  show ?case
    using Cons.IH [of "if current_row metadata row then kept @ [row] else kept" sm1] s by (auto split: if_splits)
qed simp

text \<open>The rows that enter the state are exactly those of known series whose pollutant is shown and whose value is a
  number within its bounds: not negative, at most 500 for PM2.5 and 600 for PM10, in their order; every other row is
  counted under one reason.\<close>

lemma eligible_rows_bounded:
  "\<exists>sm. resolveEligibleStateRows rows metadata = (filter (current_row metadata) rows, sm)
    \<and> py_eligible_rows sm = int (length (filter (current_row metadata) rows))
    \<and> py_eligible_rows sm + py_skipped_invalid_current_value sm + py_skipped_unsupported_pollutant sm
      + py_skipped_metadata_unresolved sm = int (length rows)"
  using eligible_rows_filter [of metadata rows "[]" no_rows_seen] by (auto simp: resolveEligibleStateRows_def no_rows_seen_def)

section \<open>Acknowledgements\<close>

lemma chunk_acks_ok:
  assumes "current = [] \<or> length current = 1
    \<or> int (length current) \<le> PUBSUB_ACK_MAX_IDS_PER_REQUEST \<and> ack_body_bytes current \<le> PUBSUB_ACK_MAX_REQUEST_BYTES"
  shows "List.concat (chunk_acks current ids) = current @ ids
    \<and> (\<forall>c \<in> set (chunk_acks current ids). c \<noteq> [] \<and> (length c = 1
        \<or> int (length c) \<le> PUBSUB_ACK_MAX_IDS_PER_REQUEST \<and> ack_body_bytes c \<le> PUBSUB_ACK_MAX_REQUEST_BYTES))"
  using assms
proof (induction current ids rule: chunk_acks.induct)
  case (1 current)
  then show ?case by auto
next
  case (2 current ackId ids)
  show ?case
  proof (cases "current \<noteq> [] \<and> (PUBSUB_ACK_MAX_IDS_PER_REQUEST < int (length (current @ [ackId]))
      \<or> PUBSUB_ACK_MAX_REQUEST_BYTES < ack_body_bytes (current @ [ackId]))")
    case True
    then show ?thesis using "2.IH"(1) [OF True] "2.prems" by auto
  next
    case False
    have "current @ [ackId] = [] \<or> length (current @ [ackId]) = 1
      \<or> int (length (current @ [ackId])) \<le> PUBSUB_ACK_MAX_IDS_PER_REQUEST
        \<and> ack_body_bytes (current @ [ackId]) \<le> PUBSUB_ACK_MAX_REQUEST_BYTES"
      using False by (cases "current = []") auto
    note ih = "2.IH"(2) [OF False this]
    have e: "chunk_acks current (ackId # ids) = chunk_acks (current @ [ackId]) ids"
      by (simp only: chunk_acks.simps if_not_P [OF False])
    show ?thesis unfolding e using ih by simp
  qed
qed

text \<open>The acknowledgements of a run are sent in chunks that hold all of them once and in order, none empty; a chunk
  of more than one has at most 1000 of them and its body at most 450 000 bytes.\<close>

lemma ack_chunks_tile:
  "List.concat (chunkPubsubAckIds ids) = ids
    \<and> (\<forall>c \<in> set (chunkPubsubAckIds ids). c \<noteq> [] \<and> (length c = 1
        \<or> int (length c) \<le> PUBSUB_ACK_MAX_IDS_PER_REQUEST \<and> ack_body_bytes c \<le> PUBSUB_ACK_MAX_REQUEST_BYTES))"
  using chunk_acks_ok [of "[]" ids] by (simp add: chunkPubsubAckIds_def)

section \<open>Storage before acknowledgement\<close>

lemma sn_bind_cases:
  assumes "sn_bind m f w = (x, w')"
  obtains (error) e where "m w = (Inl e, w')" "x = Inl e" | (ok) y w1 where "m w = (Inr y, w1)" "f y w1 = (x, w')"
  using assms by (auto simp: sn_bind_def split: prod.splits sum.splits)

lemma call_world:
  assumes "sn_call sx f answer w = (x, w')"
  shows "w' = w\<lparr>sw_calls := sw_calls w + 1\<rparr> \<and> (\<exists>e. x = Inl e) \<or> w' = f (w\<lparr>sw_calls := sw_calls w + 1\<rparr>)"
  using assms by (auto simp: sn_call_def Let_def split: option.splits call_fault.splits)

lemma call_answer: "sn_call sx f answer w = (Inr y, w') \<Longrightarrow> w' = f (w\<lparr>sw_calls := sw_calls w + 1\<rparr>) \<and> answer (sw_calls w) w = Inr y"
  by (auto simp: sn_call_def Let_def split: option.splits call_fault.splits)

lemma ack_chunks_world:
  assumes "ack_chunks sx cs w = (x, w')"
  shows "sw_object w' = sw_object w \<and> sw_delivered w' = sw_delivered w
    \<and> (\<exists>acks. sw_acked w' = sw_acked w @ acks \<and> set acks \<subseteq> set (List.concat cs) \<and> (x = Inr () \<longrightarrow> acks = List.concat cs))"
  using assms
proof (induction cs arbitrary: w)
  case (Cons ids cs)
  from Cons.prems [unfolded ack_chunks.simps] show ?case
  proof (cases rule: sn_bind_cases)
    case (error e)
    then show ?thesis using call_world [OF error(1)] by auto
  next
    case (ok y w1)
    have w1: "sw_acked w1 = sw_acked w @ ids" "sw_object w1 = sw_object w" "sw_delivered w1 = sw_delivered w"
      using call_answer [OF ok(1)] by simp_all
    obtain acks where "sw_object w' = sw_object w1" "sw_delivered w' = sw_delivered w1" "sw_acked w' = sw_acked w1 @ acks" "set acks \<subseteq> set (List.concat cs)"
      "x = Inr () \<longrightarrow> acks = List.concat cs"
      using Cons.IH [OF ok(2)] by blast
    then show ?thesis using w1 by (intro conjI exI [of _ "ids @ acks"]) auto
  qed
qed (simp add: sn_ret_def)

lemma ack_world:
  assumes "ackPubsubMessages sx ids w = (x, w')"
  shows "sw_object w' = sw_object w \<and> sw_delivered w' = sw_delivered w
    \<and> (\<exists>acks. sw_acked w' = sw_acked w @ acks \<and> set acks \<subseteq> set ids \<and> (\<forall>n. x = Inr n \<longrightarrow> acks = ids))"
proof (cases "ids = []")
  case True
  then show ?thesis using assms by (simp add: ackPubsubMessages_def sn_ret_def)
next
  case False
  have c: "List.concat (chunkPubsubAckIds ids) = ids" using chunk_acks_ok [of "[]" ids] by (simp add: chunkPubsubAckIds_def)
  from assms [unfolded ackPubsubMessages_def if_not_P [OF False]] show ?thesis
  proof (cases rule: sn_bind_cases)
    case (error e)
    then show ?thesis using ack_chunks_world [OF error(1)] c by auto
  next
    case (ok y w1)
    then show ?thesis using ack_chunks_world [OF ok(1)] c by (auto simp: sn_ret_def)
  qed
qed

text \<open>An acknowledgement of one of the given messages that has no readable row, and of one whose row is among the
  given rows.\<close>

definition malformed_ack :: "jsval list \<Rightarrow> string \<Rightarrow> bool" where
  "malformed_ack messages a \<longleftrightarrow>
     (\<exists>message \<in> set messages. \<exists>d. decodeMessageRow message = Inr d \<and> dm_ackId d = Some a \<and> dm_row d = None)"

definition backed_ack :: "jsval list \<Rightarrow> obs_message list \<Rightarrow> string \<Rightarrow> bool" where
  "backed_ack messages rows a \<longleftrightarrow>
     (\<exists>message \<in> set messages. \<exists>d row. decodeMessageRow message = Inr d \<and> dm_ackId d = Some a
        \<and> dm_row d = Some row \<and> row \<in> set rows)"

lemma malformed_mono: "malformed_ack ms a \<Longrightarrow> set ms \<subseteq> set ms' \<Longrightarrow> malformed_ack ms' a"
  unfolding malformed_ack_def by blast

lemma backed_mono: "backed_ack ms rows a \<Longrightarrow> set ms \<subseteq> set ms' \<Longrightarrow> set rows \<subseteq> set rows' \<Longrightarrow> backed_ack ms' rows' a"
  unfolding backed_ack_def by blast

lemma decoded_from: "res_mapM f xs = Inr ys \<Longrightarrow> y \<in> set ys \<Longrightarrow> \<exists>x \<in> set xs. f x = Inr y"
  by (induction xs arbitrary: ys) (auto simp: res_simps)

lemma valid_acks_Cons: "valid_acks (d # ds) = (case (dm_ackId d, dm_row d) of (Some a, Some _) \<Rightarrow> [a] | _ \<Rightarrow> []) @ valid_acks ds"
  by (simp add: valid_acks_def)

lemma valid_ack_source: "a \<in> set (valid_acks ds) \<Longrightarrow> \<exists>d row. d \<in> set ds \<and> dm_ackId d = Some a \<and> dm_row d = Some row"
proof (induction ds)
  case (Cons d ds)
  then show ?case by (cases "dm_ackId d"; cases "dm_row d") (auto simp: valid_acks_Cons)
qed (simp add: valid_acks_def)

lemma decoded_acks:
  assumes "res_mapM decodeMessageRow messages = Inr ds"
  shows "a \<in> set (malformed_acks ds) \<Longrightarrow> malformed_ack messages a"
    "a \<in> set (valid_acks ds) \<Longrightarrow> backed_ack messages (valid_rows ds) a"
proof -
  assume "a \<in> set (malformed_acks ds)"
  then obtain d where "d \<in> set ds" "dm_ackId d = Some a" "dm_row d = None"
    by (auto simp: malformed_acks_def split: option.splits)
  then show "malformed_ack messages a" using decoded_from [OF assms] unfolding malformed_ack_def by blast
next
  assume "a \<in> set (valid_acks ds)"
  then obtain d row where d: "d \<in> set ds" "dm_ackId d = Some a" "dm_row d = Some row"
    using valid_ack_source by blast
  then have "row \<in> set (valid_rows ds)" by (auto simp: valid_rows_def intro!: bexI [of _ d])
  then show "backed_ack messages (valid_rows ds) a" using d decoded_from [OF assms] unfolding backed_ack_def by blast
qed

lemma pull_world:
  assumes "pullPubsubMessages sx w = (x, w')"
  shows "sw_object w' = sw_object w" "sw_acked w' = sw_acked w" "set (sw_delivered w) \<subseteq> set (sw_delivered w')"
    "x = Inr messages \<Longrightarrow> set messages \<subseteq> set (sw_delivered w')"
  using assms by (auto simp: pullPubsubMessages_def sn_call_def Let_def split: option.splits call_fault.splits)

text \<open>What the batches of a run do: the acknowledgements they send are those of delivered messages without a row, and
  those they keep for later are those of delivered messages whose rows they return.\<close>

lemma flush_world:
  assumes "flush_batches sx n p w = (x, w')"
  shows "sw_object w' = sw_object w \<and> set (sw_delivered w) \<subseteq> set (sw_delivered w')
    \<and> (\<exists>acks. sw_acked w' = sw_acked w @ acks \<and> (\<forall>a \<in> set acks. malformed_ack (sw_delivered w') a))
    \<and> (\<forall>p'. x = Inr p' \<longrightarrow> set (pd_rows p) \<subseteq> set (pd_rows p')
        \<and> (\<forall>a \<in> set (pd_validAckIds p'). a \<in> set (pd_validAckIds p) \<or> backed_ack (sw_delivered w') (pd_rows p') a))"
  using assms
proof (induction n arbitrary: p w)
  case 0
  then show ?case by (auto simp: sn_ret_def)
next
  case (Suc n)
  let ?sm = "(pd_summary p)\<lparr>pl_pull_requests := pl_pull_requests (pd_summary p) + 1\<rparr>"
  from Suc.prems [unfolded flush_batches.simps] show ?case
  proof (cases rule: sn_bind_cases)
    case (error e)
    then show ?thesis using pull_world [OF error(1)] by auto
  next
    case (ok messages w1)
    note w1 = pull_world [OF ok(1)]
    have got: "set messages \<subseteq> set (sw_delivered w1)" using w1(4) by blast
    show ?thesis
    proof (cases "messages = []")
      case True
      then show ?thesis using ok(2) w1(1-3) by (auto simp: sn_ret_def Let_def)
    next
      case False
      from ok(2) [unfolded Let_def if_not_P [OF False]] show ?thesis
      proof (cases rule: sn_bind_cases)
        case (error e)
        then show ?thesis using w1(1-3) by (simp add: sn_res_def)
      next
        case (ok ds w2)
        then have ds: "res_mapM decodeMessageRow messages = Inr ds" "w2 = w1" by (simp_all add: sn_res_def)
        have acks: "sw_object u = sw_object w \<and> sw_delivered u = sw_delivered w1
            \<and> (\<exists>acks. sw_acked u = sw_acked w @ acks \<and> (\<forall>a \<in> set acks. malformed_ack (sw_delivered w1) a))"
          if u: "(if malformed_acks ds = [] then sn_ret 0 else ackPubsubMessages sx (malformed_acks ds)) w2 = (y, u)" for y u
        proof (cases "malformed_acks ds = []")
          case True
          then show ?thesis using u ds(2) w1(1-3) by (auto simp: sn_ret_def)
        next
          case False
          then have "ackPubsubMessages sx (malformed_acks ds) w2 = (y, u)" using u by simp
          from ack_world [OF this] obtain acks where ak: "sw_object u = sw_object w" "sw_delivered u = sw_delivered w1"
            "sw_acked u = sw_acked w @ acks" "set acks \<subseteq> set (malformed_acks ds)"
            using ds(2) w1(1,2) by auto
          have "\<forall>a \<in> set acks. malformed_ack (sw_delivered w1) a"
            using ak(4) decoded_acks(1) [OF ds(1)] malformed_mono got by blast
          with ak show ?thesis by blast
        qed
        from ok(2) show ?thesis
        proof (cases rule: sn_bind_cases)
          case (error e)
          then show ?thesis using acks [OF error(1)] w1(3) by auto
        next
          case (ok k w3)
          note before = acks [OF ok(1)]
          note ih = Suc.IH [OF ok(2)]
          have more: "set (sw_delivered w1) \<subseteq> set (sw_delivered w')" using ih before by simp
          have obj: "sw_object w' = sw_object w" using ih before by simp
          have acked: "\<exists>acks. sw_acked w' = sw_acked w @ acks \<and> (\<forall>a \<in> set acks. malformed_ack (sw_delivered w') a)"
          proof -
            obtain as bs where "sw_acked w3 = sw_acked w @ as" "\<forall>a \<in> set as. malformed_ack (sw_delivered w1) a"
              "sw_acked w' = sw_acked w3 @ bs" "\<forall>a \<in> set bs. malformed_ack (sw_delivered w') a"
              using ih before by blast
            then show ?thesis using malformed_mono [OF _ more] by (intro exI [of _ "as @ bs"]) auto
          qed
          have rest: "set (pd_rows p) \<subseteq> set (pd_rows p') \<and> (\<forall>a \<in> set (pd_validAckIds p').
              a \<in> set (pd_validAckIds p) \<or> backed_ack (sw_delivered w') (pd_rows p') a)" if "x = Inr p'" for p'
          proof -
            have r: "set (pd_rows p) \<subseteq> set (pd_rows p')" "set (valid_rows ds) \<subseteq> set (pd_rows p')"
              and a: "\<forall>a \<in> set (pd_validAckIds p'). a \<in> set (pd_validAckIds p) \<or> a \<in> set (valid_acks ds)
                \<or> backed_ack (sw_delivered w') (pd_rows p') a"
              using ih that by auto
            have "set messages \<subseteq> set (sw_delivered w')" using got more by blast
            then show ?thesis using r a decoded_acks(2) [OF ds(1)] backed_mono by blast
          qed
          show ?thesis using obj acked rest more w1(3) by blast
        qed
      qed
    qed
  qed
qed

lemma parse_state_hash: "parse_state strict sha256 text = Inr loaded \<Longrightarrow> ld_existingHash loaded = Some (sha256 text)"
  by (auto simp: parse_state_def Let_def res_simps split: option.splits if_splits prod.splits)

lemma load_world:
  assumes "loadState sx strict w = (x, w')"
  shows "sw_object w' = sw_object w" "sw_acked w' = sw_acked w" "sw_delivered w' = sw_delivered w"
    "x = Inr loaded \<Longrightarrow> ld_existingHash loaded = Some h \<Longrightarrow> \<exists>text. sw_object w' = Some text \<and> ss_sha256 sx text = h"
proof -
  obtain y u where u: "sn_bind (load_object sx) (\<lambda>text. sn_res (parse_state strict (ss_sha256 sx) text)) w = (y, u)" by fastforce
  then have w': "w' = u" and xy: "x = Inr loaded \<Longrightarrow> ld_existingHash loaded = Some h \<Longrightarrow> y = Inr loaded"
    using assms by (auto simp: loadState_def nothing_loaded_def split: sum.splits if_splits)
  have k: "sw_object u = sw_object w \<and> sw_acked u = sw_acked w \<and> sw_delivered u = sw_delivered w
    \<and> (y = Inr loaded \<longrightarrow> (\<exists>text. sw_object w = Some text \<and> parse_state strict (ss_sha256 sx) text = Inr loaded))"
  using u
  proof (cases rule: sn_bind_cases)
    case (error e)
    then show ?thesis using call_world [OF error(1) [unfolded load_object_def]] by auto
  next
    case (ok tx w1)
    then show ?thesis using call_answer [OF ok(1) [unfolded load_object_def]] by (auto simp: sn_res_def split: option.splits)
  qed
  then show "sw_object w' = sw_object w" "sw_acked w' = sw_acked w" "sw_delivered w' = sw_delivered w" using w' by simp_all
  assume "x = Inr loaded" "ld_existingHash loaded = Some h"
  then show "\<exists>text. sw_object w' = Some text \<and> ss_sha256 sx text = h"
    using xy k w' parse_state_hash by fastforce
qed

text \<open>The state of a run is in the bucket, by its text or by a text of its digest, or the run changed nothing.\<close>

definition state_durable :: "snap_services \<Rightarrow> latest_state \<Rightarrow> int \<Rightarrow> string \<Rightarrow> snap_world \<Rightarrow> bool" where
  "state_durable sx m transitions t w \<longleftrightarrow> transitions \<le> 0
     \<or> (\<exists>text. sw_object w = Some text \<and> ss_sha256 sx text = ss_sha256 sx (serializeLatestState m t))"

lemma store_world:
  assumes "store_state sx loaded m transitions t w = (x, w')"
  shows "sw_acked w' = sw_acked w" "sw_delivered w' = sw_delivered w"
    "x = Inr h \<Longrightarrow> (\<And>e. ld_existingHash loaded = Some e \<Longrightarrow> \<exists>text. sw_object w = Some text \<and> ss_sha256 sx text = e)
      \<Longrightarrow> state_durable sx m transitions t w'"
    "sw_object w' = sw_object w \<or> sw_object w' = Some (serializeLatestState m t)"
  using assms
  by (auto simp: store_state_def state_durable_def put_state_def sn_ret_def Let_def split: if_splits
      elim!: sn_bind_cases dest!: call_world call_answer)

text \<open>C12: A message is acknowledged only when its row can no longer be lost. An acknowledgement that a scheduled run
  has sent, however the run ended and whichever of its calls were refused or lost their answer, is that of a message
  which Pub/Sub has delivered to this run and which has no readable row, or of a delivered message whose row is among
  the rows that the run pulled; all of those that are current were applied to the loaded state, and the state they gave
  is in the bucket when the run ends, by its text or by a text of the same digest, or none of them changed it.\<close>

theorem acknowledged_rows_durable:
  assumes "scheduled_run sx t w = (x, w')" "sw_delivered w = []" "sw_acked w = []" "a \<in> set (sw_acked w')"
  shows "malformed_ack (sw_delivered w') a \<or> (\<exists>loaded w1 metadata p w2 m sm. loadState sx False w = (Inr loaded, w1) \<and> ss_metadata sx = Inr metadata
    \<and> flushPubsubRows sx w1 = (Inr p, w2) \<and> backed_ack (sw_delivered w') (pd_rows p) a
    \<and> applyEligibleRowsToLatestState (ld_stateMap loaded) (filter (current_row metadata) (pd_rows p)) t = (m, sm)
    \<and> state_durable sx m (as_applied_new sm + as_applied_newer sm) t w')"
  using assms(1) [unfolded scheduled_run_def]
proof (cases rule: sn_bind_cases)
  case (error e)
  then show ?thesis using load_world [OF error(1)] assms(3,4) by simp
next
  case (ok loaded w1)
  note load = ok(1)
  have w1: "sw_acked w1 = []" using load_world(2) [OF load] assms(3) by simp
  from ok(2) show ?thesis
  proof (cases rule: sn_bind_cases)
    case (error e)
    then show ?thesis using w1 assms(4) by (simp add: sn_res_def)
  next
    case (ok metadata w1')
    then have md: "ss_metadata sx = Inr metadata" "w1' = w1" by (simp_all add: sn_res_def)
    from ok(2) show ?thesis
    proof (cases rule: sn_bind_cases)
      case (error e)
      then show ?thesis
        using flush_world [OF error(1) [unfolded flushPubsubRows_def]] w1 md(2) assms(4) by auto
    next
      case (ok p w2)
      have flush: "flushPubsubRows sx w1 = (Inr p, w2)" using ok(1) md(2) by simp
      have fl: "\<forall>b \<in> set (sw_acked w2). malformed_ack (sw_delivered w2) b"
        "\<forall>b \<in> set (pd_validAckIds p). backed_ack (sw_delivered w2) (pd_rows p) b" "sw_object w2 = sw_object w1"
        using flush_world [OF flush [unfolded flushPubsubRows_def]] w1 by simp_all
      obtain policy where rows: "resolveEligibleStateRows (pd_rows p) metadata = (filter (current_row metadata) (pd_rows p), policy)"
        using eligible_rows_filter [of metadata "pd_rows p" "[]" no_rows_seen] by (auto simp: resolveEligibleStateRows_def)
      obtain m sm where m: "applyEligibleRowsToLatestState (ld_stateMap loaded) (filter (current_row metadata) (pd_rows p)) t = (m, sm)"
        by fastforce
      note tail = ok(2) [unfolded rows m Let_def prod.case]
      from tail show ?thesis
      proof (cases rule: sn_bind_cases)
        case (error e)
        then show ?thesis using fl(1) assms(4) by (simp add: sn_res_def)
      next
        case (ok u w3)
        then have w3: "w3 = w2" by (simp add: sn_res_def)
        from ok(2) show ?thesis
        proof (cases rule: sn_bind_cases)
          case (error e)
          then show ?thesis using store_world(1,2) [OF error(1)] w3 fl(1) assms(4) by simp
        next
          case (ok hash w4)
          note st = store_world [OF ok(1)]
          have ack: "sw_object v = sw_object w4 \<and> sw_delivered v = sw_delivered w2
              \<and> (\<forall>b \<in> set (sw_acked v). malformed_ack (sw_delivered w2) b \<or> b \<in> set (pd_validAckIds p))"
            if v: "(if pd_validAckIds p = [] then sn_ret 0 else ackPubsubMessages sx (pd_validAckIds p)) w4 = (y, v)" for y v
          proof (cases "pd_validAckIds p = []")
            case True
            then show ?thesis using v st(1,2) w3 fl(1) by (auto simp: sn_ret_def)
          next
            case False
            then have "ackPubsubMessages sx (pd_validAckIds p) w4 = (y, v)" using v by simp
            from ack_world [OF this] show ?thesis using st(1,2) w3 fl(1) by auto
          qed
          from ok(2) have "sw_object w' = sw_object w4 \<and> sw_delivered w' = sw_delivered w2
            \<and> (\<forall>b \<in> set (sw_acked w'). malformed_ack (sw_delivered w2) b \<or> b \<in> set (pd_validAckIds p))"
          proof (cases rule: sn_bind_cases)
            case (error e)
            then show ?thesis using ack by blast
          next
            case (ok k w5)
            then show ?thesis using ack [OF ok(1)] by (simp add: sn_ret_def)
          qed
          moreover have "state_durable sx m (as_applied_new sm + as_applied_newer sm) t w4"
            using st(3) load_world(4) [OF load refl] fl(3) w3 by simp
          ultimately have durable: "state_durable sx m (as_applied_new sm + as_applied_newer sm) t w'"
            and known: "malformed_ack (sw_delivered w') a \<or> backed_ack (sw_delivered w') (pd_rows p) a"
            using assms(4) fl(2) by (auto simp: state_durable_def)
          show ?thesis
          proof (cases "malformed_ack (sw_delivered w') a")
            case True
            then show ?thesis ..
          next
            case False
            then have "backed_ack (sw_delivered w') (pd_rows p) a" using known by simp
            then show ?thesis
              by (intro disjI2 exI [of _ loaded] exI [of _ w1] exI [of _ metadata] exI [of _ p] exI [of _ w2] exI [of _ m]
                exI [of _ sm] conjI load md(1) flush m durable)
          qed
        qed
      qed
    qed
  qed
qed

lemma acknowledged_rows_durable_witness:
  "let w = stored_world (state_of [8]); w' = snd (scheduled_run (sample_services refused_read) snap_clock w)
   in sw_acked w' = [''a1''] \<and> \<not> malformed_ack (sw_delivered w') ''a1'' \<and> (\<exists>loaded w1 metadata p w2 m sm.
      loadState (sample_services refused_read) False w = (Inr loaded, w1) \<and> ss_metadata (sample_services refused_read) = Inr metadata
    \<and> flushPubsubRows (sample_services refused_read) w1 = (Inr p, w2) \<and> backed_ack (sw_delivered w') (pd_rows p) ''a1''
    \<and> applyEligibleRowsToLatestState (ld_stateMap loaded) (filter (current_row metadata) (pd_rows p)) snap_clock = (m, sm)
    \<and> state_durable (sample_services refused_read) m (as_applied_new sm + as_applied_newer sm) snap_clock w')"
proof -
  obtain x w' where r: "scheduled_run (sample_services refused_read) snap_clock (stored_world (state_of [8])) = (x, w')" by fastforce
  have a: "sw_acked w' = [''a1'']" using failed_read_drops_series r by (simp add: Let_def)
  have "sw_delivered (snd (scheduled_run (sample_services refused_read) snap_clock (stored_world (state_of [8])))) = [sample_message]
    \<and> (case decodeMessageRow sample_message of Inr d \<Rightarrow> dm_row d \<noteq> None | _ \<Rightarrow> True)" by code_simp
  then have n: "\<not> malformed_ack (sw_delivered w') ''a1''" using r by (auto simp: malformed_ack_def)
  have "sw_delivered (stored_world (state_of [8])) = []" "sw_acked (stored_world (state_of [8])) = []"
    by (simp_all add: stored_world_def)
  from acknowledged_rows_durable [OF r this, of "''a1''"] a n r show ?thesis by (simp add: Let_def)
qed

end
