(* ===== verification/SnapshotReconciliation.thy ===== *)
theory SnapshotReconciliation
  imports SnapshotProperties
begin

text \<open>
  The reconciliation of the latest state: corrections never make a series older, a reconciliation only builds on a
  stored state that it could read in full, and the contrast with a scheduled run, which takes a state that it cannot
  read for an empty one.
\<close>

section \<open>Corrections\<close>

definition observed_at_ms :: "obs_message \<Rightarrow> int" where
  "observed_at_ms row = the (instant (om_observed_at row))"

definition entry_observed_ms :: "latest_entry \<Rightarrow> int" where
  "entry_observed_ms e = the (instant (om_observed_at e))"

definition observed_timed :: "obs_message list \<Rightarrow> bool" where
  "observed_timed rows \<longleftrightarrow> (\<forall>row \<in> set rows. instant (om_observed_at row) \<noteq> None)"

definition state_observed :: "latest_state \<Rightarrow> bool" where
  "state_observed m \<longleftrightarrow> (\<forall>k e. jm_get m k = Some e \<longrightarrow> instant (om_observed_at e) \<noteq> None)"

text \<open>What a reader of the state sees of an entry.\<close>

definition content_of :: "latest_entry \<Rightarrow> jsnum option \<times> string option \<times> string option" where
  "content_of e = (om_value e, om_value_float8_hex e, om_status e)"

text \<open>The last of the newest entries of a list.\<close>

fun last_newest :: "latest_entry list \<Rightarrow> latest_entry option" where
  "last_newest [] = None"
| "last_newest (e # es) =
     (case last_newest es of
        None \<Rightarrow> Some e
      | Some b \<Rightarrow> if entry_observed_ms b < entry_observed_ms e then Some e else Some b)"

definition same_observation :: "latest_entry option \<Rightarrow> latest_entry option \<Rightarrow> bool" where
  "same_observation a b \<longleftrightarrow> map_option (\<lambda>e. (entry_observed_ms e, content_of e)) a = map_option (\<lambda>e. (entry_observed_ms e, content_of e)) b"

lemma last_newest_append:
  "last_newest (xs @ ys) = (case (last_newest xs, last_newest ys) of
     (Some a, Some b) \<Rightarrow> if entry_observed_ms b < entry_observed_ms a then Some a else Some b
   | (Some a, None) \<Rightarrow> Some a | (None, r) \<Rightarrow> r)"
  by (induction xs) (auto split: option.splits)

lemma parsed_instant: "instant s = Some t \<Longrightarrow> parsed_ms s = Fin (of_int t) \<and> \<bar>t\<bar> < 2 ^ 52"
  by (auto simp: instant_def parsed_ms_def split: option.splits if_splits)

lemma observed_difference:
  assumes "instant (om_observed_at row) \<noteq> None" "instant (om_observed_at e) \<noteq> None"
  shows "num_sub (parsed_ms (om_observed_at row)) (parsed_ms (om_observed_at e)) = Fin (of_int (observed_at_ms row - entry_observed_ms e))"
proof -
  obtain x y where "instant (om_observed_at row) = Some x" "instant (om_observed_at e) = Some y" using assms by auto
  then show ?thesis
    using parsed_instant sub_instants by (simp add: observed_at_ms_def entry_observed_ms_def)
qed

lemma with_ingested_observed [simp]:
  "om_observed_at (with_ingested t row) = om_observed_at row" "entry_observed_ms (with_ingested t row) = observed_at_ms row"
  "content_of (with_ingested t row) = (om_value row, om_value_float8_hex row, om_status row)"
  by (simp_all add: with_ingested_def entry_observed_ms_def observed_at_ms_def content_of_def)

lemma same_content_of: "same_content row e \<longleftrightarrow> content_of (with_ingested t row) = content_of e"
  by (auto simp: same_content_def content_of_def with_ingested_def)

definition transitions_of :: "integrity_summary \<Rightarrow> int" where
  "transitions_of sm = is_applied_new_count sm + is_applied_newer_count sm + is_applied_same_timestamp_correction_count sm"

definition settled_of :: "integrity_summary \<Rightarrow> int" where
  "settled_of sm = transitions_of sm + is_skipped_equal_count sm + is_skipped_older_count sm"

lemma apply_candidate_step:
  assumes "state_observed m" "instant (om_observed_at row) \<noteq> None"
  shows "\<exists>m' sm'. apply_candidate t row (m, sm) = (m', sm') \<and> state_observed m'
    \<and> (\<forall>k. same_observation (jm_get m' k) (last_newest (contenders m [row] t k)))
    \<and> settled_of sm' = settled_of sm + 1 \<and> transitions_of sm \<le> transitions_of sm'
    \<and> (transitions_of sm' = transitions_of sm \<longrightarrow> m' = m)"
proof (cases "jm_get m (row_key row)")
  case None
  then show ?thesis
    using assms
    by (auto simp: apply_candidate_def Let_def row_key_def [symmetric] jm_get_set state_observed_def contenders_def
        same_observation_def settled_of_def transitions_of_def split: option.splits)
next
  case (Some e)
  have e: "instant (om_observed_at e) \<noteq> None" using assms(1) Some by (auto simp: state_observed_def)
  note d = observed_difference [OF assms(2) e]
  consider (newer) "entry_observed_ms e < observed_at_ms row" | (older) "observed_at_ms row < entry_observed_ms e"
    | (equal) "observed_at_ms row = entry_observed_ms e" by linarith
  then show ?thesis
  proof cases
    case newer
    then show ?thesis
      using assms Some d
      by (auto simp: apply_candidate_def Let_def row_key_def [symmetric] jm_get_set state_observed_def contenders_def
          same_observation_def settled_of_def transitions_of_def split: option.splits)
  next
    case older
    then show ?thesis
      using assms Some d
      by (auto simp: apply_candidate_def Let_def row_key_def [symmetric] jm_get_set state_observed_def contenders_def
          same_observation_def settled_of_def transitions_of_def split: option.splits)
  next
    case equal
    then show ?thesis
      using assms Some d
      by (cases "same_content row e")
        (auto simp: apply_candidate_def Let_def row_key_def [symmetric] jm_get_set state_observed_def contenders_def
          same_observation_def settled_of_def transitions_of_def same_content_of [of row e t] split: option.splits)
  qed
qed

lemma last_newest_cong:
  assumes "same_observation (last_newest xs) (last_newest xs')"
  shows "same_observation (last_newest (xs @ ys)) (last_newest (xs' @ ys))"
  using assms
  by (cases "last_newest xs"; cases "last_newest xs'"; cases "last_newest ys") (auto simp: same_observation_def last_newest_append)

lemma last_newest_present: "last_newest (case x of None \<Rightarrow> [] | Some e \<Rightarrow> [e]) = x"
  by (cases x) simp_all

lemma same_observation_trans: "same_observation a b \<Longrightarrow> same_observation b c \<Longrightarrow> same_observation a c"
  by (simp add: same_observation_def)

lemma apply_candidates:
  assumes "state_observed m" "observed_timed rows" "fold (apply_candidate t) rows (m, sm) = (m', sm')"
  shows "state_observed m' \<and> (\<forall>k. same_observation (jm_get m' k) (last_newest (contenders m rows t k)))
    \<and> settled_of sm' = settled_of sm + int (length rows) \<and> transitions_of sm \<le> transitions_of sm'
    \<and> (transitions_of sm' = transitions_of sm \<longrightarrow> m' = m)"
  using assms
proof (induction rows arbitrary: m sm)
  case Nil
  then show ?case by (auto simp: contenders_def last_newest_present same_observation_def)
next
  case (Cons row rows)
  have t: "instant (om_observed_at row) \<noteq> None" "observed_timed rows" using Cons.prems(2) by (simp_all add: observed_timed_def)
  obtain m1 sm1 where a: "apply_candidate t row (m, sm) = (m1, sm1)" "state_observed m1"
    "\<forall>k. same_observation (jm_get m1 k) (last_newest (contenders m [row] t k))"
    "settled_of sm1 = settled_of sm + 1" "transitions_of sm \<le> transitions_of sm1"
    "transitions_of sm1 = transitions_of sm \<longrightarrow> m1 = m"
    using apply_candidate_step [OF Cons.prems(1) t(1)] by blast
  have f: "fold (apply_candidate t) rows (m1, sm1) = (m', sm')" using Cons.prems(3) a(1) by simp
  note ih = Cons.IH [OF a(2) t(2) f]
  have "same_observation (jm_get m' k) (last_newest (contenders m (row # rows) t k))" for k
  proof -
    let ?ys = "List.map (with_ingested t) (filter (\<lambda>r. row_key r = k) rows)"
    have "same_observation (last_newest (case jm_get m1 k of None \<Rightarrow> [] | Some e \<Rightarrow> [e])) (last_newest (contenders m [row] t k))"
      using a(3) by (simp add: last_newest_present)
    from last_newest_cong [OF this, of ?ys]
    have "same_observation (last_newest (contenders m1 rows t k)) (last_newest (contenders m [row] t k @ ?ys))"
      by (simp only: contenders_def)
    with ih have "same_observation (jm_get m' k) (last_newest (contenders m [row] t k @ ?ys))"
      using same_observation_trans by blast
    then show ?thesis by (simp add: contenders_def split: if_splits)
  qed
  then show ?case using ih a(4-6) by auto
qed

text \<open>C15: A reconciliation never makes a series older: after candidates have been applied, every series shows the time
  and the content of the last among the newest of the entry it had and of its candidates; every candidate is counted
  once, and without a transition the state is unchanged.\<close>

theorem corrections_never_older:
  assumes "state_observed m" "observed_timed rows" "applyIntegrityCandidatesToLatestState m rows t = (m', sm)"
  shows "(\<forall>k. same_observation (jm_get m' k) (last_newest (contenders m rows t k))) \<and> state_observed m'
    \<and> settled_of sm = int (length rows) \<and> (transitions_of sm = 0 \<longrightarrow> m' = m)"
  using apply_candidates [OF assms(1,2) assms(3) [unfolded applyIntegrityCandidatesToLatestState_def]]
  by (simp add: no_candidates_applied_def settled_of_def transitions_of_def)

lemma snap_rows_observed:
  "observed_timed [snap_row 7 ''2026-03-01T10:00:00.000Z'' 20, snap_row 7 ''2026-03-01T10:00:00.000Z'' 30]"
proof -
  have "instant ''2026-03-01T10:00:00.000Z'' \<noteq> None" by code_simp
  then show ?thesis by (simp add: observed_timed_def snap_row_def)
qed

lemma corrections_never_older_witness:
  "\<exists>m' sm. applyIntegrityCandidatesToLatestState jm_empty
      [snap_row 7 ''2026-03-01T10:00:00.000Z'' 20, snap_row 7 ''2026-03-01T10:00:00.000Z'' 30] ''2026-03-01T12:00:00.000Z'' = (m', sm)
    \<and> settled_of sm = 2"
proof -
  obtain m' sm where a: "applyIntegrityCandidatesToLatestState jm_empty
      [snap_row 7 ''2026-03-01T10:00:00.000Z'' 20, snap_row 7 ''2026-03-01T10:00:00.000Z'' 30] ''2026-03-01T12:00:00.000Z'' = (m', sm)"
    by fastforce
  have "state_observed jm_empty" by (simp add: state_observed_def)
  from corrections_never_older [OF this snap_rows_observed a] a show ?thesis by simp
qed

section \<open>A reconciliation needs the whole stored state\<close>

text \<open>Every entry of a stored text is kept, under the key of its series.\<close>

definition keeps_every_series :: "string \<Rightarrow> latest_state \<Rightarrow> bool" where
  "keeps_every_series text m \<longleftrightarrow>
     (\<exists>r vs. Option.bind (json_parse text) snapshot_record = Some r \<and> jget r ''entries'' = JArr vs
       \<and> (\<forall>v \<in> set vs. \<exists>e. stored_entry v = Some e \<and> jm_get m (latestStateKey (om_connector_id e) (om_timeseries_id e)) \<noteq> None))"

lemma snapshot_record_same: "snapshot_record v = Some r \<Longrightarrow> r = v"
  by (auto simp: snapshot_record_def split: jsval.splits)

lemma load_entries_strict:
  assumes "res_fold (load_entry True) vs (m, ok) = Inr (m', ok')"
  shows "(\<forall>k. jm_get m k \<noteq> None \<longrightarrow> jm_get m' k \<noteq> None)
    \<and> (\<forall>v \<in> set vs. \<exists>e. stored_entry v = Some e \<and> jm_get m' (latestStateKey (om_connector_id e) (om_timeseries_id e)) \<noteq> None)"
  using assms
proof (induction vs arbitrary: m ok)
  case (Cons v vs)
  obtain m1 ok1 where s: "load_entry True v (m, ok) = Inr (m1, ok1)" "res_fold (load_entry True) vs (m1, ok1) = Inr (m', ok')"
    using Cons.prems by (auto simp: res_simps)
  obtain e where e: "stored_entry v = Some e" "m1 = jm_set (latestStateKey (om_connector_id e) (om_timeseries_id e)) e m"
    using s(1) by (auto simp: load_entry_def Let_def dest: snapshot_record_same split: option.splits)
  show ?case using Cons.IH [OF s(2)] e by (auto simp: jm_get_set)
qed simp

lemma parse_strict_keeps:
  assumes "parse_state True h text = Inr loaded"
  shows "keeps_every_series text (ld_stateMap loaded)"
proof -
  obtain v where v: "json_parse text = Some v" using assms by (auto simp: parse_state_def split: option.splits)
  obtain r where r: "snapshot_record v = Some r"
    using assms v by (cases "snapshot_record v") (auto simp: parse_state_def Let_def split: if_splits)
  obtain vs where vs: "jget r ''entries'' = JArr vs"
    using assms v r by (cases "jget r ''entries''") (auto simp: parse_state_def Let_def split: if_splits)
  obtain valid m ok where "res_fold (load_entry True) vs (jm_empty, valid) = Inr (m, ok)" "ld_stateMap loaded = m"
    using assms v r vs by (auto simp: parse_state_def Let_def res_simps split: if_splits)
  from load_entries_strict [OF this(1)] this(2) show ?thesis using v r vs by (auto simp: keeps_every_series_def)
qed

lemma candidate_grows: "jm_get m k \<noteq> None \<Longrightarrow> jm_get (fst (apply_candidate t row (m, sm))) k \<noteq> None"
  by (auto simp: apply_candidate_def Let_def jm_get_set split: option.splits)

lemma candidates_grow: "jm_get (fst st) k \<noteq> None \<Longrightarrow> jm_get (fst (fold (apply_candidate t) rows st)) k \<noteq> None"
proof (induction rows arbitrary: st)
  case (Cons row rows)
  then show ?case using candidate_grows [of "fst st" k t row "snd st"] by simp
qed simp

lemma keeps_candidates:
  assumes "keeps_every_series text m" "applyIntegrityCandidatesToLatestState m rows t = (m', sm)"
  shows "keeps_every_series text m'"
proof -
  have "jm_get m' k \<noteq> None" if "jm_get m k \<noteq> None" for k
    using candidates_grow [of "(m, no_candidates_applied)" k t rows] that assms(2)
    by (simp add: applyIntegrityCandidatesToLatestState_def)
  with assms(1) show ?thesis unfolding keeps_every_series_def by metis
qed

lemma load_strict:
  assumes "loadState sx True w = (Inr loaded, w')"
  shows "\<exists>text. sw_object w = Some text \<and> parse_state True (ss_sha256 sx) text = Inr loaded"
proof -
  have "sn_bind (load_object sx) (\<lambda>text. sn_res (parse_state True (ss_sha256 sx) text)) w = (Inr loaded, w')"
    using assms by (auto simp: loadState_def split: prod.splits sum.splits)
  then show ?thesis
    by (cases rule: sn_bind_cases)
      (auto simp: load_object_def sn_res_def split: option.splits dest!: call_answer)
qed

text \<open>C13: A reconciliation acknowledges no message, and it writes only a state that it could build on the stored one:
  when the object has changed, the stored text was readable in full, and the new text is the serialization of a state
  that still holds every series of the old text.\<close>

theorem reconciliation_needs_state:
  assumes "reconciliation_run sx cs t w = (x, w')"
  shows "sw_acked w' = sw_acked w \<and> (sw_object w' = sw_object w
    \<or> (\<exists>text m. sw_object w = Some text \<and> keeps_every_series text m \<and> sw_object w' = Some (serializeLatestState m t)))"
  using assms [unfolded reconciliation_run_def]
proof (cases rule: sn_bind_cases)
  case (error e)
  then show ?thesis using load_world [OF error(1)] by simp
next
  case (ok loaded w1)
  note w1 = load_world [OF ok(1)]
  obtain body where body: "sw_object w = Some body" "keeps_every_series body (ld_stateMap loaded)"
    using load_strict [OF ok(1)] parse_strict_keeps by blast
  from ok(2) show ?thesis
  proof (cases rule: sn_bind_cases)
    case (error e)
    then show ?thesis using w1 by (simp add: sn_res_def)
  next
    case (ok metadata w2)
    then have w2: "w2 = w1" by (simp add: sn_res_def)
    from ok(2) show ?thesis
    proof (cases rule: sn_bind_cases)
      case (error e)
      then show ?thesis using w1 w2 by (simp add: sn_res_def)
    next
      case (ok rp w3)
      obtain rows policy where rp: "rp = (rows, policy)" by fastforce
      have w3: "w3 = w1" using ok(1) w2 by (simp add: sn_res_def)
      obtain m sm where m: "applyIntegrityCandidatesToLatestState (ld_stateMap loaded) rows t = (m, sm)" by fastforce
      note keep = keeps_candidates [OF body(2) m]
      from ok(2) [unfolded rp prod.case m Let_def] show ?thesis
      proof (cases rule: sn_bind_cases)
        case (error e)
        then show ?thesis using w1 w3 by (simp add: sn_res_def)
      next
        case (ok u w4)
        then have w4: "w4 = w1" using w3 by (simp add: sn_res_def)
        from ok(2) obtain y where "store_state sx loaded m (is_applied_new_count sm + is_applied_newer_count sm
            + is_applied_same_timestamp_correction_count sm) t w4 = (y, w')"
          by (cases rule: sn_bind_cases) (auto simp: sn_ret_def)
        from store_world(1,4) [OF this] show ?thesis using w1 w4 body(1) keep by auto
      qed
    qed
  qed
qed

definition sample_candidate :: candidate where
  "sample_candidate = \<lparr>om_connector_id = 1, om_timeseries_id = 7, om_observed_at = ''2026-03-01T11:00:00.000Z'',
     om_value = Some (Fin 30), om_value_float8_hex = None, om_status = None, ca_pollutant_code = ''pm25''\<rparr>"

lemma reconciliation_needs_state_witness:
  "\<exists>x w' m. reconciliation_run (sample_services (\<lambda>_. None)) [sample_candidate] snap_clock (stored_world (state_of [8])) = (x, w')
     \<and> sw_acked w' = [] \<and> keeps_every_series (serializeLatestState (state_of [8]) snap_clock) m
     \<and> sw_object w' = Some (serializeLatestState m snap_clock)"
proof -
  obtain x w' where r: "reconciliation_run (sample_services (\<lambda>_. None)) [sample_candidate] snap_clock (stored_world (state_of [8])) = (x, w')"
    by fastforce
  have "sw_object (snd (reconciliation_run (sample_services (\<lambda>_. None)) [sample_candidate] snap_clock (stored_world (state_of [8]))))
    \<noteq> sw_object (stored_world (state_of [8]))" by code_simp
  then have "sw_object w' \<noteq> sw_object (stored_world (state_of [8]))" using r by simp
  with reconciliation_needs_state [OF r] r show ?thesis by (auto simp: stored_world_def)
qed

end
