(* ===== verification/SnapshotService.thy ===== *)
theory SnapshotService
  imports SnapshotReconciliation
begin

text \<open>
  service_core.ts: the validation of a reconciliation request, the trigger mode of a request, and the handler, which
  lets one job run at a time. The handler waits twice, for the body of a request and for the job; between these points
  it is one step. The URL and the headers of a request are given as the platform has parsed them.
\<close>

section \<open>The reconciliation request\<close>

definition MAX_RECONCILE_BODY_BYTES :: int where "MAX_RECONCILE_BODY_BYTES = 256000"
definition MAX_RECONCILE_CANDIDATES :: int where "MAX_RECONCILE_CANDIDATES = 1000"

definition request_keys :: "jsval \<Rightarrow> string list" where
  "request_keys v = (case v of JObj kvs \<Rightarrow> List.map fst kvs | _ \<Rightarrow> [])"

definition candidate_fields :: "string list" where
  "candidate_fields = [''connector_id'', ''timeseries_id'', ''observed_at'', ''value'', ''value_float8_hex'', ''status'', ''pollutant_code'']"

definition request_fields :: "string list" where
  "request_fields = [''schema_version'', ''integrity_run_id'', ''candidates'']"

text \<open>The text of an observation: a day, a time of day with at most six digits of a second, and Z.\<close>

fun digits_shape :: "string \<Rightarrow> string \<Rightarrow> string option" where
  "digits_shape [] s = Some s"
| "digits_shape (p # ps) (c # s) = (if (if p = CHR ''d'' then is_digit c else c = p) then digits_shape ps s else None)"
| "digits_shape _ [] = None"

definition observed_shape :: "string \<Rightarrow> bool" where
  "observed_shape s =
     (case digits_shape ''dddd-dd-ddTdd:dd:dd'' s of
        None \<Rightarrow> False
      | Some r \<Rightarrow> r = ''Z'' \<or> (r \<noteq> [] \<and> hd r = CHR ''.''
          \<and> (let ds = takeWhile is_digit (tl r) in 1 \<le> length ds \<and> length ds \<le> 6 \<and> dropWhile is_digit (tl r) = ''Z'')))"

definition positive_integer :: "jsval \<Rightarrow> bool" where
  "positive_integer v = (case v of JNum x \<Rightarrow> (case num_integer x of None \<Rightarrow> False | Some n \<Rightarrow> 0 < n) | _ \<Rightarrow> False)"

definition null_or_bounded_text :: "nat \<Rightarrow> jsval \<Rightarrow> bool" where
  "null_or_bounded_text n v = (case v of Null \<Rightarrow> True | JStr s \<Rightarrow> length s \<le> n | _ \<Rightarrow> False)"

definition null_or_finite :: "jsval \<Rightarrow> bool" where
  "null_or_finite v = (case v of Null \<Rightarrow> True | JNum x \<Rightarrow> num_finite x | _ \<Rightarrow> False)"

definition observed_time :: "jsval \<Rightarrow> int option" where
  "observed_time v = (case v of JStr s \<Rightarrow> if observed_shape s then date_parse s else None | _ \<Rightarrow> None)"

definition validate_candidate :: "int \<Rightarrow> jsval \<Rightarrow> jsval res" where
  "validate_candidate index v =
     (let bad = Inl (JsError (''Invalid reconciliation candidate at index '' @ int_str index @ ''.'')) in
      case snapshot_record v of
        None \<Rightarrow> bad
      | Some c \<Rightarrow>
          if \<not> list_all (List.member candidate_fields) (request_keys c) then bad
          else (case (observed_time (jget c ''observed_at''), jget c ''pollutant_code'') of
             (Some timestamp, JStr pollutantCode) \<Rightarrow>
               if positive_integer (jget c ''connector_id'') \<and> positive_integer (jget c ''timeseries_id'')
                 \<and> null_or_finite (jget c ''value'') \<and> null_or_bounded_text 100 (jget c ''value_float8_hex'')
                 \<and> null_or_bounded_text 500 (jget c ''status'') \<and> js_trim pollutantCode \<noteq> [] \<and> length pollutantCode \<le> 100
               then Inr (JObj [(''connector_id'', jget c ''connector_id''), (''timeseries_id'', jget c ''timeseries_id''),
                 (''observed_at'', JStr (to_iso timestamp)), (''value'', jget c ''value''),
                 (''value_float8_hex'', jget c ''value_float8_hex''), (''status'', jget c ''status''),
                 (''pollutant_code'', JStr (js_lower (js_trim pollutantCode)))])
               else bad
           | _ \<Rightarrow> bad))"

fun validate_candidates :: "int \<Rightarrow> jsval list \<Rightarrow> jsval list res" where
  "validate_candidates index [] = Inr []"
| "validate_candidates index (v # vs) =
     res_bind (validate_candidate index v) (\<lambda>c. res_map (\<lambda>cs. c # cs) (validate_candidates (index + 1) vs))"

definition validateIntegrityReconciliationRequest :: "jsval \<Rightarrow> jsval res" where
  "validateIntegrityReconciliationRequest v =
     (let root = (case snapshot_record v of None \<Rightarrow> Undef | Some r \<Rightarrow> r);
          integrityRunId = (case jget root ''integrity_run_id'' of JStr s \<Rightarrow> js_trim s | _ \<Rightarrow> []);
          bad = Inl (JsError ''Invalid reconciliation request envelope.'')
      in case jget root ''candidates'' of
           JArr vs \<Rightarrow>
             if jget root ''schema_version'' \<noteq> JInt 1 \<or> integrityRunId = [] \<or> 200 < length integrityRunId
               \<or> MAX_RECONCILE_CANDIDATES < int (length vs) then bad
             else if \<not> list_all (List.member request_fields) (request_keys root)
             then Inl (JsError ''Unexpected reconciliation request field.'')
             else res_map (\<lambda>cs. JObj [(''schema_version'', JInt 1), (''integrity_run_id'', JStr integrityRunId),
               (''candidates'', JArr cs)]) (validate_candidates 0 vs)
         | _ \<Rightarrow> bad)"

section \<open>The handler\<close>

record snap_request =
  sq_method :: string
  sq_pathname :: string
  sq_query_mode :: "string option"
  sq_header_mode :: "string option"
  sq_content_length :: "string option"
  sq_body :: "string res"

definition allowed_mode :: "string \<Rightarrow> string option" where
  "allowed_mode s = (let m = js_lower (js_trim s) in if m \<noteq> [] \<and> List.member [''scheduler'', ''manual''] m then Some m else None)"

definition resolveTriggerMode :: "snap_request \<Rightarrow> jsval \<Rightarrow> string" where
  "resolveTriggerMode req body =
     (let text = (\<lambda>x. case x of None \<Rightarrow> [] | Some s \<Rightarrow> s);
          root = (case snapshot_record body of None \<Rightarrow> Undef | Some r \<Rightarrow> r)
      in case first_present [allowed_mode (text (sq_query_mode req)), allowed_mode (text (sq_header_mode req)),
             (case jget root ''trigger_mode'' of JStr s \<Rightarrow> allowed_mode s | _ \<Rightarrow> None)] of
           None \<Rightarrow> ''manual''
         | Some m \<Rightarrow> m)"

record in_flight =
  if_started_ms :: int
  if_trigger_mode :: string

datatype snap_response = JsonResponse int jsval | PlainResponse int string

definition isReconciliation :: "snap_request \<Rightarrow> bool" where
  "isReconciliation req \<longleftrightarrow> sq_pathname req = ''/internal/integrity-reconcile''"

text \<open>max(0, floor(milliseconds / 1000))\<close>

definition age_seconds :: "int \<Rightarrow> in_flight \<Rightarrow> int" where
  "age_seconds now f = max 0 ((now - if_started_ms f) div 1000)"

definition status_response :: "int \<Rightarrow> in_flight option \<Rightarrow> snap_response" where
  "status_response now inFlight =
     JsonResponse 200 (JObj [(''ok'', JBool True), (''service'', JStr ''uk_aq_latest_snapshot_cloud_run''),
       (''in_flight'', JBool (inFlight \<noteq> None)),
       (''in_flight_started_at'', case inFlight of None \<Rightarrow> Null | Some f \<Rightarrow> JStr (to_iso (if_started_ms f))),
       (''in_flight_trigger_mode'', case inFlight of None \<Rightarrow> Null | Some f \<Rightarrow> JStr (if_trigger_mode f)),
       (''in_flight_age_seconds'', case inFlight of None \<Rightarrow> Null | Some f \<Rightarrow> JInt (age_seconds now f))])"

text \<open>A request before its body is read: an answer, or nothing yet.\<close>

definition early_answer :: "int \<Rightarrow> in_flight option \<Rightarrow> snap_request \<Rightarrow> snap_response option" where
  "early_answer now inFlight req =
     (if sq_method req = ''GET'' \<and> \<not> isReconciliation req then Some (status_response now inFlight)
      else if sq_method req \<noteq> ''POST'' then Some (PlainResponse 405 ''Method not allowed'')
      else if isReconciliation req
        \<and> (let n = js_number (JStr (case sq_content_length req of None \<Rightarrow> ''0'' | Some s \<Rightarrow> if s = [] then ''0'' else s))
           in num_finite n \<and> num_lt (Fin (of_int MAX_RECONCILE_BODY_BYTES)) n)
      then Some (JsonResponse 413 (JObj [(''ok'', JBool False), (''error'', JStr ''request_too_large'')]))
      else None)"

definition error_text :: "js_error \<Rightarrow> string" where
  "error_text e = (case e of JsError m \<Rightarrow> m | _ \<Rightarrow> [])"

definition invalid_request :: "js_error \<Rightarrow> snap_response" where
  "invalid_request e = JsonResponse 400 (JObj [(''ok'', JBool False), (''error'', JStr ''invalid_request''),
     (''message'', JStr (error_text e))])"

text \<open>A request whose body is read: an answer, or the trigger mode with the body of a reconciliation.\<close>

definition read_body :: "snap_request \<Rightarrow> snap_response + (string \<times> jsval option)" where
  "read_body req =
     (if isReconciliation req
      then (case sq_body req of
          Inl e \<Rightarrow> Inl (invalid_request e)
        | Inr body \<Rightarrow>
            if MAX_RECONCILE_BODY_BYTES < measureUtf8Bytes body
            then Inl (JsonResponse 413 (JObj [(''ok'', JBool False), (''error'', JStr ''request_too_large'')]))
            else (case res_bind (case json_parse body of None \<Rightarrow> Inl SyntaxError | Some v \<Rightarrow> Inr v)
                validateIntegrityReconciliationRequest of
               Inl e \<Rightarrow> Inl (invalid_request e)
             | Inr request \<Rightarrow> Inr (''integrity_reconciliation'', Some request)))
      else Inr (resolveTriggerMode req (case sq_body req of
          Inl e \<Rightarrow> Null
        | Inr body \<Rightarrow> (case json_parse body of None \<Rightarrow> Null | Some v \<Rightarrow> v)), None))"

definition skipped_response :: "int \<Rightarrow> snap_request \<Rightarrow> string \<Rightarrow> in_flight \<Rightarrow> snap_response" where
  "skipped_response now req triggerMode f =
     JsonResponse (if isReconciliation req then 409 else 200)
       (JObj [(''ok'', JBool (\<not> isReconciliation req)), (''skipped'', JBool True), (''reason'', JStr ''run_in_flight''),
         (''trigger_mode'', JStr triggerMode), (''active_trigger_mode'', JStr (if_trigger_mode f)),
         (''in_flight_started_at'', JStr (to_iso (if_started_ms f))), (''age_seconds'', JInt (age_seconds now f))])"

record job_status =
  js_success :: bool
  js_code :: int
  js_result :: "jsval option"

datatype job_end = JobReturned job_status | JobTimeout int | JobThrew js_error

definition timeout_message :: "int \<Rightarrow> string" where
  "timeout_message ms = ''Latest snapshot job exceeded '' @ int_str ms @ ''ms and was terminated''"

definition job_response :: "string \<Rightarrow> int \<Rightarrow> job_end \<Rightarrow> snap_response" where
  "job_response triggerMode durationMs outcome =
     (let failed = (\<lambda>status kind message. JsonResponse status (JObj [(''ok'', JBool False), (''error'', JStr kind),
            (''message'', JStr message), (''trigger_mode'', JStr triggerMode), (''duration_ms'', JInt durationMs)]))
      in case outcome of
           JobReturned st \<Rightarrow> JsonResponse (if js_success st then 200 else 500)
             (case js_result st of Some r \<Rightarrow> r
              | None \<Rightarrow> JObj [(''ok'', JBool (js_success st)), (''trigger_mode'', JStr triggerMode), (''code'', JInt (js_code st)),
                  (''duration_ms'', JInt durationMs)])
         | JobTimeout ms \<Rightarrow> failed 504 ''job_timeout'' (timeout_message ms)
         | JobThrew e \<Rightarrow> failed 500 ''job_failed'' (error_text e))"

section \<open>Requests over time\<close>

text \<open>A request by its number: its body is awaited, its job runs, or it is answered.\<close>

datatype request_phase = Reading snap_request | Running in_flight "jsval option" | Responded snap_response

record service =
  sv_inFlight :: "in_flight option"
  sv_requests :: "request_phase list"

definition fresh_service :: service where
  "fresh_service = \<lparr>sv_inFlight = None, sv_requests = []\<rparr>"

text \<open>A request arrives at a time.\<close>

definition arrive :: "int \<Rightarrow> snap_request \<Rightarrow> service \<Rightarrow> service" where
  "arrive now req s = s\<lparr>sv_requests := sv_requests s
     @ [case early_answer now (sv_inFlight s) req of None \<Rightarrow> Reading req | Some r \<Rightarrow> Responded r]\<rparr>"

text \<open>Its body has been read.\<close>

definition proceed :: "int \<Rightarrow> nat \<Rightarrow> snap_request \<Rightarrow> service \<Rightarrow> service" where
  "proceed now i req s =
     (case read_body req of
        Inl r \<Rightarrow> s\<lparr>sv_requests := (sv_requests s)[i := Responded r]\<rparr>
      | Inr (triggerMode, body) \<Rightarrow>
          (case sv_inFlight s of
             Some f \<Rightarrow> s\<lparr>sv_requests := (sv_requests s)[i := Responded (skipped_response now req triggerMode f)]\<rparr>
           | None \<Rightarrow>
               (let f = \<lparr>if_started_ms = now, if_trigger_mode = triggerMode\<rparr>
                in s\<lparr>sv_inFlight := Some f, sv_requests := (sv_requests s)[i := Running f body]\<rparr>)))"

text \<open>Its job has ended.\<close>

definition job_ended :: "int \<Rightarrow> nat \<Rightarrow> in_flight \<Rightarrow> job_end \<Rightarrow> service \<Rightarrow> service" where
  "job_ended now i f outcome s =
     s\<lparr>sv_inFlight := None,
       sv_requests := (sv_requests s)[i := Responded (job_response (if_trigger_mode f) (max 0 (now - if_started_ms f)) outcome)]\<rparr>"

inductive service_step :: "service \<Rightarrow> service \<Rightarrow> bool" where
  step_arrive: "service_step s (arrive now req s)"
| step_proceed: "i < length (sv_requests s) \<Longrightarrow> sv_requests s ! i = Reading req \<Longrightarrow> service_step s (proceed now i req s)"
| step_job_ended: "i < length (sv_requests s) \<Longrightarrow> sv_requests s ! i = Running f body \<Longrightarrow>
    service_step s (job_ended now i f outcome s)"

inductive served :: "service \<Rightarrow> bool" where
  served_fresh: "served fresh_service"
| served_step: "served s \<Longrightarrow> service_step s s' \<Longrightarrow> served s'"

inductive_cases service_stepE: "service_step s s'"

text \<open>The jobs that run.\<close>

definition in_flights :: "request_phase list \<Rightarrow> in_flight list" where
  "in_flights ps = List.concat (List.map (\<lambda>p. case p of Running f _ \<Rightarrow> [f] | _ \<Rightarrow> []) ps)"

lemma in_flights_append [simp]: "in_flights (ps @ qs) = in_flights ps @ in_flights qs"
  by (simp add: in_flights_def)

lemma in_flights_Cons: "in_flights (p # ps) = (case p of Running f _ \<Rightarrow> [f] | _ \<Rightarrow> []) @ in_flights ps"
  by (simp add: in_flights_def)

lemma in_flights_split:
  assumes "i < length ps"
  shows "in_flights ps = in_flights (take i ps) @ (case ps ! i of Running f _ \<Rightarrow> [f] | _ \<Rightarrow> []) @ in_flights (drop (Suc i) ps)"
    and "in_flights (ps[i := p]) = in_flights (take i ps) @ (case p of Running f _ \<Rightarrow> [f] | _ \<Rightarrow> []) @ in_flights (drop (Suc i) ps)"
proof -
  show "in_flights ps = in_flights (take i ps) @ (case ps ! i of Running f _ \<Rightarrow> [f] | _ \<Rightarrow> []) @ in_flights (drop (Suc i) ps)"
    using arg_cong [OF id_take_nth_drop [OF assms], of in_flights] by (simp add: in_flights_Cons)
  show "in_flights (ps[i := p]) = in_flights (take i ps) @ (case p of Running f _ \<Rightarrow> [f] | _ \<Rightarrow> []) @ in_flights (drop (Suc i) ps)"
    by (simp add: upd_conv_take_nth_drop [OF assms] in_flights_Cons)
qed

definition one_flight :: "service \<Rightarrow> bool" where
  "one_flight s \<longleftrightarrow> in_flights (sv_requests s) = (case sv_inFlight s of None \<Rightarrow> [] | Some f \<Rightarrow> [f])"

lemma one_flight_arrive: "one_flight s \<Longrightarrow> one_flight (arrive now req s)"
  by (auto simp: one_flight_def arrive_def in_flights_Cons in_flights_def split: option.splits)

lemma one_flight_proceed:
  assumes "one_flight s" "i < length (sv_requests s)" "sv_requests s ! i = Reading req"
  shows "one_flight (proceed now i req s)"
  using assms in_flights_split(1) [OF assms(2)] in_flights_split(2) [OF assms(2)]
  by (auto simp: one_flight_def proceed_def Let_def split: option.splits sum.splits)

lemma one_flight_job_ended:
  assumes "one_flight s" "i < length (sv_requests s)" "sv_requests s ! i = Running f body"
  shows "one_flight (job_ended now i f outcome s)" "sv_inFlight s = Some f"
  using assms in_flights_split(1) [OF assms(2)] in_flights_split(2) [OF assms(2)]
  by (auto simp: one_flight_def job_ended_def append_eq_Cons_conv split: option.splits)

lemma one_flight_step: "service_step s s' \<Longrightarrow> one_flight s \<Longrightarrow> one_flight s'"
  by (elim service_stepE) (auto intro: one_flight_arrive one_flight_proceed one_flight_job_ended)

lemma served_one_flight: "served s \<Longrightarrow> one_flight s"
proof (induction rule: served.induct)
  case served_fresh
  then show ?case by (simp add: one_flight_def fresh_service_def in_flights_def)
next
  case (served_step s s')
  then show ?case using one_flight_step by blast
qed

lemma answered_stays:
  assumes "service_step s s'" "i < length (sv_requests s)" "sv_requests s ! i = Responded r"
  shows "sv_requests s' ! i = Responded r"
  using assms
  by (elim service_stepE)
    (auto simp: arrive_def job_ended_def proceed_def Let_def nth_append nth_list_update split: option.splits sum.splits)

text \<open>C26: One job runs at a time: in every state that the handler can reach, the job in flight is the only job that
  runs, and none runs without being in flight; however that job ends, the next request whose body is read starts
  another, and a request that was answered stays answered as it was.\<close>

theorem single_flight:
  assumes "served s"
  shows "in_flights (sv_requests s) = (case sv_inFlight s of None \<Rightarrow> [] | Some f \<Rightarrow> [f])
    \<and> (\<forall>i f body now outcome. i < length (sv_requests s) \<and> sv_requests s ! i = Running f body \<longrightarrow>
        sv_inFlight s = Some f \<and> served (job_ended now i f outcome s)
        \<and> (\<forall>j req m b. j < length (sv_requests s) \<and> sv_requests s ! j = Reading req \<and> read_body req = Inr (m, b) \<longrightarrow>
            (\<exists>g. sv_requests (proceed now j req (job_ended now i f outcome s)) ! j = Running g b)))
    \<and> (\<forall>s' i r. service_step s s' \<and> i < length (sv_requests s) \<and> sv_requests s ! i = Responded r \<longrightarrow> sv_requests s' ! i = Responded r)"
proof (intro conjI allI impI)
  show "in_flights (sv_requests s) = (case sv_inFlight s of None \<Rightarrow> [] | Some f \<Rightarrow> [f])"
    using served_one_flight [OF assms] by (simp add: one_flight_def)
next
  fix i f body now outcome
  assume r: "i < length (sv_requests s) \<and> sv_requests s ! i = Running f body"
  then show "sv_inFlight s = Some f" using one_flight_job_ended(2) served_one_flight [OF assms] by blast
  show "served (job_ended now i f outcome s)" using r by (intro served_step [OF assms] step_job_ended) auto
  fix j req m b
  assume "j < length (sv_requests s) \<and> sv_requests s ! j = Reading req \<and> read_body req = Inr (m, b)"
  then show "\<exists>g. sv_requests (proceed now j req (job_ended now i f outcome s)) ! j = Running g b"
    by (auto simp: proceed_def job_ended_def Let_def)
next
  fix s' i r
  assume "service_step s s' \<and> i < length (sv_requests s) \<and> sv_requests s ! i = Responded r"
  then show "sv_requests s' ! i = Responded r" using answered_stays by blast
qed

definition manual_request :: snap_request where
  "manual_request = \<lparr>sq_method = ''POST'', sq_pathname = ''/'', sq_query_mode = None, sq_header_mode = None,
     sq_content_length = None, sq_body = Inr []\<rparr>"

text \<open>Two requests have arrived and the first has started its job.\<close>

definition busy_service :: service where
  "busy_service = proceed 10 0 manual_request (arrive 5 manual_request (arrive 0 manual_request fresh_service))"

lemma busy_state:
  "sv_requests busy_service = [Running \<lparr>if_started_ms = 10, if_trigger_mode = ''manual''\<rparr> None, Reading manual_request]"
  by code_simp

lemma busy_served: "served busy_service"
proof -
  let ?s = "arrive 5 manual_request (arrive 0 manual_request fresh_service)"
  have s: "served ?s" by (rule served_step [OF served_step [OF served_fresh step_arrive] step_arrive])
  have "sv_requests ?s = [Reading manual_request, Reading manual_request]" by code_simp
  then have "0 < length (sv_requests ?s)" "sv_requests ?s ! 0 = Reading manual_request" by simp_all
  then show ?thesis unfolding busy_service_def by (rule served_step [OF s step_proceed])
qed

lemma single_flight_witness:
  "in_flights (sv_requests busy_service) = [\<lparr>if_started_ms = 10, if_trigger_mode = ''manual''\<rparr>]
    \<and> sv_inFlight busy_service = Some \<lparr>if_started_ms = 10, if_trigger_mode = ''manual''\<rparr>"
proof -
  have f: "sv_inFlight busy_service = Some \<lparr>if_started_ms = 10, if_trigger_mode = ''manual''\<rparr>"
    by code_simp
  then show ?thesis using single_flight [OF busy_served, THEN conjunct1] by simp
qed

end
