(* ===== verification/SnapshotRequest.thy ===== *)
theory SnapshotRequest
  imports SnapshotService
begin

text \<open>
  A reconciliation request that was validated is one that the validation accepts as it is: the request that the service
  writes for the job is the one that it would read.
\<close>

lemma ws_lower: "is_ws (char_lower c) = is_ws c"
  by (auto simp: is_ws_def char_lower_def)

lemma lower_lower: "char_lower (char_lower c) = char_lower c"
  by (auto simp: char_lower_def)

lemma trim_lower: "js_trim (js_lower s) = js_lower (js_trim s)"
proof -
  have "is_ws \<circ> char_lower = is_ws" by (auto simp: ws_lower)
  then show ?thesis by (simp add: js_trim_def js_lower_def dropWhile_map rev_map)
qed

lemma lower_again [simp]: "js_lower (js_lower s) = js_lower s"
  by (simp add: js_lower_def lower_lower)

lemma length_trim: "length (js_trim s) \<le> length s"
  unfolding js_trim_def by (metis le_trans length_dropWhile_le length_rev)

lemma trimmed_lower_facts:
  "js_trim (js_lower (js_trim s)) = js_lower (js_trim s)" "length (js_lower (js_trim s)) \<le> length s"
  "js_lower (js_trim s) = [] \<longleftrightarrow> js_trim s = []"
  using length_trim [of s] by (simp_all add: trim_lower) (simp_all add: js_lower_def)

text \<open>A printed time with four digits of a year has the shape of an observation.\<close>

lemma pad_shape: "digits_shape (replicate n CHR ''d'' @ ps) (pad n k @ s) = digits_shape ps s"
proof -
  have "digits_shape (replicate (length ds) CHR ''d'' @ ps) (ds @ s) = digits_shape ps s" if "list_all is_digit ds" for ds
    using that by (induction ds) auto
  from this [OF pad_digits] show ?thesis by (simp add: length_pad)
qed

lemma replicates: "replicate 4 x = [x, x, x, x]" "replicate 2 x = [x, x]"
  by (simp_all add: eval_nat_numeral)

lemmas pad_shapes = pad_shape [of 4, unfolded replicates, simplified] pad_shape [of 2, unfolded replicates, simplified]

lemma digit_span: "list_all is_digit ds \<Longrightarrow> \<not> is_digit c \<Longrightarrow> takeWhile is_digit (ds @ c # s) = ds \<and> dropWhile is_digit (ds @ c # s) = c # s"
  by (induction ds) auto

lemma iso_shape:
  assumes "is_digit (hd (to_iso t))"
  shows "observed_shape (to_iso t)"
proof -
  obtain y m d where c: "civil_of_day (t div MS_DAY) = (y, m, d)" by (metis prod_cases3)
  have "0 \<le> y \<and> y \<le> 9999"
    using assms by (auto simp: to_iso_def iso_day_def iso_year_def c is_digit_def split: if_splits)
  then have y: "iso_year y = pad 4 y" by (simp add: iso_year_def)
  have "digits_shape ''dddd-dd-ddTdd:dd:dd'' (to_iso t) = Some (CHR ''.'' # pad 3 (t mod MS_DAY mod 1000) @ ''Z'')"
    by (simp add: to_iso_def iso_day_def iso_clock_def c y pad_shapes)
  moreover have "\<not> is_digit CHR ''Z''" by (simp add: is_digit_def)
  ultimately show ?thesis using digit_span [OF pad_digits, of "CHR ''Z''" 3 _ "[]"] by (simp add: observed_shape_def Let_def)
qed

section \<open>Validation twice\<close>

definition four_digit_times :: "jsval \<Rightarrow> bool" where
  "four_digit_times r \<longleftrightarrow> (\<forall>cs c s. jget r ''candidates'' = JArr cs \<and> c \<in> set cs \<and> jget c ''observed_at'' = JStr s \<longrightarrow> is_digit (hd s))"

lemma candidate_again:
  assumes "validate_candidate index v = Inr c" "\<forall>s. jget c ''observed_at'' = JStr s \<longrightarrow> is_digit (hd s)"
  shows "validate_candidate index' c = Inr c"
proof -
  obtain t p where f: "observed_time (jget v ''observed_at'') = Some t" "jget v ''pollutant_code'' = JStr p"
    "positive_integer (jget v ''connector_id'')" "positive_integer (jget v ''timeseries_id'')"
    "null_or_finite (jget v ''value'')" "null_or_bounded_text 100 (jget v ''value_float8_hex'')"
    "null_or_bounded_text 500 (jget v ''status'')" "js_trim p \<noteq> []" "length p \<le> 100"
    "c = JObj [(''connector_id'', jget v ''connector_id''), (''timeseries_id'', jget v ''timeseries_id''),
       (''observed_at'', JStr (to_iso t)), (''value'', jget v ''value''), (''value_float8_hex'', jget v ''value_float8_hex''),
       (''status'', jget v ''status''), (''pollutant_code'', JStr (js_lower (js_trim p)))]"
    using assms(1)
    by (auto simp: validate_candidate_def Let_def dest: snapshot_record_same split: option.splits if_splits jsval.splits)
  have "date_parse (to_iso t) = Some t"
    using f(1) date_parse_again by (auto simp: observed_time_def split: jsval.splits if_splits)
  moreover have "observed_shape (to_iso t)" using assms(2) f(10) iso_shape by simp
  ultimately have o: "observed_time (JStr (to_iso t)) = Some t" by (simp add: observed_time_def)
  have l: "length (js_lower (js_trim p)) \<le> 100" using trimmed_lower_facts(2) [of p] f(9) by simp
  show ?thesis
    using f(3-8) o l trimmed_lower_facts(1,3) [of p]
    by (simp add: validate_candidate_def f(10) snapshot_record_def request_keys_def candidate_fields_def)
qed

lemma candidates_again:
  assumes "validate_candidates i vs = Inr cs" "\<forall>c \<in> set cs. \<forall>s. jget c ''observed_at'' = JStr s \<longrightarrow> is_digit (hd s)"
  shows "validate_candidates j cs = Inr cs \<and> length cs = length vs"
  using assms
proof (induction vs arbitrary: i j cs)
  case (Cons v vs)
  obtain c rest where c: "validate_candidate i v = Inr c" "validate_candidates (i + 1) vs = Inr rest" "cs = c # rest"
    using Cons.prems(1) by (auto simp: res_simps)
  show ?case
    using Cons.IH [OF c(2)] candidate_again [OF c(1)] Cons.prems(2) c(3) by simp
qed simp

text \<open>C27: Validation is stable: a request that the service has validated, which it hands to its job, is accepted by the
  same validation and is not changed by it, for times whose years have four digits.\<close>

theorem validated_request_stable:
  assumes "validateIntegrityReconciliationRequest v = Inr r" "four_digit_times r"
  shows "validateIntegrityReconciliationRequest r = Inr r"
proof -
  define root where "root = (case snapshot_record v of None \<Rightarrow> Undef | Some x \<Rightarrow> x)"
  obtain vs where vs: "jget root ''candidates'' = JArr vs"
    using assms(1) by (cases "jget root ''candidates''") (auto simp: validateIntegrityReconciliationRequest_def Let_def root_def)
  define i where "i = (case jget root ''integrity_run_id'' of JStr s \<Rightarrow> js_trim s | _ \<Rightarrow> [])"
  obtain cs where r: "i \<noteq> []" "length i \<le> 200" "int (length vs) \<le> MAX_RECONCILE_CANDIDATES" "validate_candidates 0 vs = Inr cs"
    "r = JObj [(''schema_version'', JInt 1), (''integrity_run_id'', JStr i), (''candidates'', JArr cs)]"
    using assms(1) vs
    by (auto simp: validateIntegrityReconciliationRequest_def Let_def root_def [symmetric] i_def [symmetric] res_simps split: if_splits)
  have "js_trim [] = []" by (simp add: js_trim_def)
  then have i: "js_trim i = i" unfolding i_def by (simp split: jsval.split)
  have "\<forall>c \<in> set cs. \<forall>s. jget c ''observed_at'' = JStr s \<longrightarrow> is_digit (hd s)"
    using assms(2) r(5) by (simp add: four_digit_times_def)
  from candidates_again [OF r(4) this, of 0] have "validate_candidates 0 cs = Inr cs" "length cs = length vs" by simp_all
  then show ?thesis
    using r(1-3) i
    by (simp add: validateIntegrityReconciliationRequest_def r(5) snapshot_record_def request_keys_def request_fields_def)
qed

definition sample_request :: jsval where
  "sample_request = JObj [(''schema_version'', JInt 1), (''integrity_run_id'', JStr '' run-1 ''), (''candidates'', JArr [JObj
     [(''connector_id'', JInt 1), (''timeseries_id'', JInt 7), (''observed_at'', JStr ''2026-03-01T10:00:00Z''), (''value'', JInt 20),
      (''value_float8_hex'', Null), (''status'', Null), (''pollutant_code'', JStr ''PM25 '')]])]"

definition sample_validated :: jsval where
  "sample_validated = JObj [(''schema_version'', JInt 1), (''integrity_run_id'', JStr ''run-1''), (''candidates'', JArr [JObj
     [(''connector_id'', JInt 1), (''timeseries_id'', JInt 7), (''observed_at'', JStr ''2026-03-01T10:00:00.000Z''), (''value'', JInt 20),
      (''value_float8_hex'', Null), (''status'', Null), (''pollutant_code'', JStr ''pm25'')]])]"

lemma sample_validates: "validateIntegrityReconciliationRequest sample_request = Inr sample_validated"
  by code_simp

lemma validated_request_stable_witness: "validateIntegrityReconciliationRequest sample_validated = Inr sample_validated"
proof -
  have "four_digit_times sample_validated" by (auto simp: four_digit_times_def sample_validated_def is_digit_def)
  from validated_request_stable [OF sample_validates this] show ?thesis .
qed

end
