(* ===== verification/Spec2Isabelle.thy ===== *)
theory Spec2Isabelle
  imports SchedulerConcurrent AqiMerge AqiSeries StaleCache Continuity PruneProperties WhoPublication SnapshotRequest
begin

text \<open>
  Verification of the core of uk-aq-ops, the operations repository of a UK air quality
  service. The theories model JavaScript that runs in Cloudflare Workers and what it relies
  on; every definition is executable and carries the name of the function it translates.

  \<^bold>\<open>Parts of the program and their theories.\<close>

  \<^item> Prelude, JsNumber, JsTime, JsValue, JsJson: the language. Results with thrown errors
    (Inl), insertion-ordered maps (a locale ordered_map with its interpretation), IEEE
    doubles as rationals with rounding to nearest even, decimal printing and reading,
    civil dates, toISOString and Date.parse on ISO texts, dynamically typed values with
    String, Number, truth and property access, JSON printing and reading.
  \<^item> Cron: parseCronExpression, cronMatchesDate and cronDueTimes of cloudflare/scheduler/worker.mjs.
  \<^item> SchedulerStore: the D1 tables of cloudflare/scheduler/migrations with their unique indexes,
    and the statements of the worker's store (claimMinute, claimDispatch, updateDispatch, finishRun).
  \<^item> SchedulerWorker: job rows and their targets, the three kinds of dispatch, a run
    (runScheduler, dispatchDueJobsForWindow) and the HTTP handler; state is passed explicitly
    in a world (database, requests sent, clock ticks). A statement of the store may fail in any world,
    carried out or not: the parameter pl_store of the platform says which do.
  \<^item> SchedulerConcurrent: several runners whose store statements and dispatches interleave, as an
    inductive step relation.
  \<^item> SchedulerShared: the decisions of cloudflare/scheduler/shared.mjs (ingest and daily tasks).
  \<^item> AqiLevels, AqiSeries, AqiMerge: lib/aqi/aqi_levels.mjs, from observations to hourly means, the hourly
    grid, rolling 24 hour means, DAQI and EAQI levels, and merging with stored rows.
  \<^item> Stitch: timeseries_v2_stitch.mjs of workers/uk_aq_cache_proxy: rows of the stored history and of the
    ingest database, slices, gaps and the fill plan. The locale interval_merge states what merging
    of intervals promises and is interpreted on mergeSlices and on the coalescing of missing hours.
  \<^item> RequestWindow, CacheKeys, StaleCache: station_history/request_window.mjs, cache_keys.mjs and
    stale_cache.mjs of the same worker: canonical URLs, windows, cache keys, stale answers.
  \<^item> Continuity: continuity.mjs, identity.mjs and policy.mjs of workers/uk_aq_station_history.
  \<^item> ContentHash: workers/shared/uk_aq_observation_content_hash.mjs: canonical observation rows, their text with
    the IEEE bits of the value, the text that is hashed, hash metadata.
  \<^item> ConnectorGate: uk_aq_observation_history_generation.mjs, uk_aq_prune_connector_source_identity.mjs and
    uk_aq_connector_day_gate.mjs of the same directory: storage generations, the identity of the source
    rows of a connector day, and the gate that must be complete before the day may be deleted.
  \<^item> Transaction: a database session with the statements begin, commit, rollback, exceptions, a schedule
    of failing statements, and triples (ensures) for reasoning about programs over it.
  \<^item> PruneDeletion: workers/uk_aq_prune_daily/source_identity_deletion.mjs, the transaction that deletes the
    observations of a connector day. PruneSafety has the triples of its stages (what may have changed when it
    returns or throws), PruneProgress shows that it succeeds when nothing fails, PruneProperties states the properties.
  \<^item> HistoryVersion: uk_aq_r2_history_version.mjs of workers/shared and the resolution of the storage generation.
  \<^item> WhoDays, WhoSource, WhoRun: workers/uk_aq_who_2021_daily, the daily guideline job. WhoDays models
    who_2021_daily_core.ts (days, settings, chunks, payloads), WhoSource r2_observations.ts (a partition is read through
    its chain of manifests, hourly values become daily rows) and WhoRun main.ts, supabase_rpc.ts and the conditional
    writes of r2_objects.ts. WhoCalendar has the facts on days as numbers, WhoAggregation the reference for daily rows,
    WhoTrust the chain of manifests as triples over the reading state, WhoSteps the steps of a run (the locales
    run_order and call_order: relations that every step, and every procedure call, keeps), WhoOutcome what a day adds to a
    run and what the steps after the days keep. WhoSample evaluates the reading of a sample bucket;
    WhoProperties and WhoPublication state the properties.
  \<^item> SnapshotState, SnapshotRun, SnapshotService: workers/uk_aq_latest_snapshot_cloud_run, which keeps the latest
    observation of every series. SnapshotState models latest_value_policy.mjs, latest_state_core.mjs and the decoding of
    messages of run_job.ts, SnapshotRun the rest of its handling of the state (metadata index, eligible rows,
    loading, pulling, storing, acknowledging) over services whose calls may be refused or lose their answer, and
    SnapshotService the handler of service_core.ts as a step relation. SnapshotSample evaluates a run;
    SnapshotProperties, SnapshotReconciliation, SnapshotService and SnapshotRequest state the properties.
  \<^item> Spec2Isabelle (this theory): the properties that span the scheduler.

  \<^bold>\<open>How the parts interact.\<close> The scheduler reads job rows, parses their cron expressions, claims
  the minute and then each due slot in the store before it contacts a target. The gateway turns a
  request into a canonical URL (RequestWindow), a cache key (CacheKeys), and on a miss stitches two
  sources (Stitch), which uses the same window; StaleCache keeps a copy for failing upstreams.
  The station history service resolves a binding (Continuity), and the index levels come from AqiLevels.
  The deletion of a connector day reads the candidate and the gate (ConnectorGate), recomputes the identity of the
  rows (ContentHash) and deletes only when all agree.

  \<^bold>\<open>What the lemmas show.\<close> C1, C4, C6 and C9: at most one contact per slot under
  every interleaving, a run that returns has claimed every due job, and over a working store it returns, a minute runs once,
  requests and rows agree and at most the row at which a failing statement cut the run off stays claimed. C2, C3, C5, C7 and
  C8: the deletion of a connector day happens on proof, completely or not at all, once, when its conditions
  hold, and a plan removes whole connector days. C10 and C11: the hashed text determines the rows, and evidence accepted
  for a gate is valid when it is read back. C12 to C15: a message of the latest snapshot that is acknowledged
  was delivered to the run and has no row, or its row is stored, a reconciliation builds only on a state it could read in full, and the state holds the newest observation of
  every series. C16 to C25: the guideline job reads only rows that a chain of hashes
  attests, settles its days, publishes nothing when a backfill fails, records every run, writes the dated summary
  before the latest one and no object twice; its settings are sound, its means are those of a
  reference, its loops return. C26 and C27: the snapshot service runs one job at a time, and its validation is stable.
  C28 and C29: cron windows and due times. C30 to C32: index levels, rolling windows, merging. C33 to C35:
  stitching with its exact rows and count, and the fill plan and what it skips as sets of instants. C36 and C37: the life of
  stored answers, and that exactly whole answers are admitted. C38 to C40: continuity segments
  partition a window and identities are authoritative. Lemmas of the same kind that are not in this list (when
  ingest and daily tasks are triggered, that secrets do not leak, adjacent cron windows, well-formed expressions and job rows, request windows, canonical URLs, cache keys, storage
  generations, missing windows, the loop over days of the index) stand in their theories.

  \<^bold>\<open>Bounds and fuel.\<close> The loop over days (build_days) takes fuel, and lemma day_loop_terminates shows
  that one unit per day of the range is enough. The loops over days of the guideline job are partial functions, and
  C25 shows that they return. A procedure call has as many attempts as the settings allow. JSON reading takes the length of its input as fuel. All other recursion is
  structural or has a measure. Times are integers of milliseconds, limited by 8.64e15 as in the
  language; where a date lies outside that range the source throws and so does the model.

  \<^bold>\<open>Assumptions and what is not modelled.\<close> Strings are lists of ASCII characters. Date.parse is
  modelled on the ISO format (the engine's reading of other formats gives None here). Array.sort is a stable
  sort and localeCompare an order on ASCII texts. URL parsing, the network, the clock, the environment and the failures
  of D1 statements (store_fault) are parameters; header names are lower case. SHA-256 is a parameter too; where it matters it is
  assumed to give 64 lower case hexadecimal digits. Object identity is not modelled: no modelled function's
  result depends on it. Log lines are left out. An object's keys keep their insertion order, and
  integer-like keys are not moved to the front. The SQL function that gives the canonical rows of a connector is not
  in the repository and is a parameter (uk_aq_phase_b_history_rows_v2): C7 alone takes for granted that it selects rows
  observation by observation, at most one for each (canonical_selects), the other properties hold for any such function.
  The failures of the statements of a deletion are a parameter too: a failure may be a conflict, which
  ends the transaction, or lose the answer of a statement that took effect. Other sessions on the database
  are not modelled beyond the conflicts they cause. Instants in tables have whole milliseconds.
  A call of Pub/Sub or of the bucket stands for all its attempts. Not modelled: routers and workers that are mostly I/O around storage, SQL or parquet libraries
  (the backfill, export, index and migration programs, and the snapshot files built from the latest state), the dashboard and offline scripts; the
  components of the manifest list them with reasons.
\<close>

section \<open>Samples\<close>

text \<open>A small configuration on which the hypotheses of the properties can be evaluated.\<close>

definition sample_job_row :: jsval where
  "sample_job_row = JObj [(''job_key'', JStr ''hourly''), (''enabled'', JInt 1),
     (''target_type'', JStr ''cloud_run''), (''cron_expr'', JStr ''*/5 * * * *''),
     (''timezone'', JStr ''UTC''), (''dry_run'', JInt 0),
     (''cloud_run_url'', JStr ''https://run.example/x'')]"

definition sample_db :: sched_db where
  "sample_db = \<lparr>db_jobs = [sample_job_row], db_runs = [], db_dispatches = [],
     db_next_run_id = 1, db_next_dispatch_id = 1\<rparr>"

definition sample_world :: world where
  "sample_world = \<lparr>w_db = sample_db, w_sent = [], w_tick = 0\<rparr>"

text \<open>2023-11-14T22:15:07.000Z, inside a minute the sample job is due in.\<close>

definition sample_now :: int where "sample_now = 1700000107000"

definition sample_platform :: platform where
  "sample_platform = \<lparr>pl_fetch = (\<lambda>_ _. HttpReply 200 (Inr ''ok'')), pl_now = (\<lambda>_. sample_now),
     pl_store = (\<lambda>_. None),
     pl_url = (\<lambda>_. Some (''https:'', ''run.example'')), pl_env = (\<lambda>_. SecretValue (JStr ''s3cret''))\<rparr>"

lemma sample_steady: "steady sample_platform"
  by (simp add: steady_def clock_ok_def sample_platform_def sample_now_def MAX_TIME_def)

lemma sample_wf: "db_wf sample_db"
  by (simp add: db_wf_def sample_db_def)

definition sample_run :: "run_outcome res \<times> world" where
  "sample_run = runScheduler sample_platform (Fin (of_int sample_now)) SCHEDULER_NAME
     (JStr ''cloudflare_cron'') sample_world"

lemma sample_run_triggered: "\<exists>r. fst sample_run = Inr r \<and> triggered r"
proof -
  have "case fst sample_run of Inr r \<Rightarrow> triggered r | Inl _ \<Rightarrow> False" by code_simp
  then show ?thesis by (auto split: sum.splits)
qed

lemma sample_job_due: "\<exists>job c. parseSchedulerJobRow (pl_url sample_platform) sample_job_row = Inr job
  \<and> parseCronExpression (job_cron_expr job) = Inr c \<and> cronMatchesDate c (minute_floor sample_now)"
proof -
  have "case parseSchedulerJobRow (pl_url sample_platform) sample_job_row of
      Inr job \<Rightarrow> (case parseCronExpression (job_cron_expr job) of
         Inr c \<Rightarrow> cronMatchesDate c (minute_floor sample_now) | Inl _ \<Rightarrow> False) | Inl _ \<Rightarrow> False"
    by code_simp
  then show ?thesis by (auto split: sum.splits)
qed

lemma sample_trimmed: "keys_trimmed sample_db"
proof -
  have "trimText (jget sample_job_row ''job_key'') = js_string (jget sample_job_row ''job_key'')" by code_simp
  then show ?thesis by (simp add: keys_trimmed_def sample_db_def)
qed

lemma sample_source: "normalizeTriggerSource (JStr ''cloudflare_cron'') = Inr ''cloudflare_cron''"
  by code_simp

lemma sample_listed: "sample_job_row \<in> set (listEnabledJobs sample_db)"
  by (simp add: listEnabledJobs_def sample_db_def sample_job_row_def)

lemma sample_times: "common_time sample_now" "common_time (minute_floor sample_now - MINUTE_MS)"
  by (simp_all add: common_time_def sample_now_def minute_floor_def MINUTE_MS_def)

section \<open>The scheduler: properties\<close>

text \<open>C1: however the invocations of the scheduler interleave, and wherever they stop, the
  target of a slot (job key, due time) is contacted at most once, and only for slots that were
  not taken before.\<close>

theorem slot_contacted_at_most_once:
  assumes "db_wf db" "\<forall>r \<in> set rs. held r = None" "rtranclp cstep (db, rs, []) (db', rs', l)"
  shows "distinct l \<and> set l \<subseteq> dispatch_keys db' - dispatch_keys db"
  by (rule contacted_at_most_once [OF assms])

definition sample_job :: sched_job where
  "sample_job = \<lparr>job_key = ''hourly'', job_enabled_flag = 1, job_cron_expr = ''*/5 * * * *'',
     job_timezone = ''UTC'', job_dry_run = 0, job_notes = None,
     job_target = CloudRun ''https://run.example/x'' ''POST'' (JObj []) (JObj [])\<rparr>"

lemma sample_steps: "\<exists>db' rs'. rtranclp cstep
    (sample_db, [Pending [(sample_job, ''d'')], Pending [(sample_job, ''d'')]], []) (db', rs', [(''hourly'', ''d'')])"
proof -
  let ?c = "claim_of sample_job ''d'' ''t''"
  have one: "{k. a = fst k \<and> b = snd k} = {(a, b)}" for a b :: string by auto
  obtain db1 where c1: "claimDispatch ?c sample_db = (Inr (Some 1), db1)" "db_dispatches db1 \<noteq> []"
      "dispatch_keys db1 = {(''hourly'', ''d'')}"
    by (auto simp: claimDispatch_cases claim_of_def sample_db_def sample_job_row_def sample_job_def
        dispatch_keys_def job_keys_def id_or_null_def one)
  have c2: "claimDispatch ?c db1 = (Inr None, db1)"
    by (simp add: claimDispatch_cases c1(3) claim_of_def sample_job_def)
  let ?p = "Pending [(sample_job, ''d'')]" and ?h = "Holding 1 sample_job ''d'' []"
  let ?pa = "\<lparr>pa_dispatched_at = Some ''t'', pa_dispatch_status = ''dispatched'', pa_reason = None,
      pa_response_status = Some 200, pa_response_preview = None\<rparr>"
  have "cstep (sample_db, [?p, ?p], []) (db1, [?h, ?p], [])"
    using cstep.win [of 0 "[?p, ?p]" sample_job "''d''" "[]" "''t''" sample_db 1 db1 "[]"] c1 by simp
  moreover have "cstep (db1, [?h, ?p], []) (db1, [?h, Pending []], [])"
    using cstep.lose [of 1 "[?h, ?p]" sample_job "''d''" "[]" "''t''" db1 db1 "[]"] c2 by simp
  moreover have "cstep (db1, [?h, Pending []], []) (db1, [Answered 1 ?pa [], Pending []], [(''hourly'', ''d'')])"
    using cstep.contact [of 0 "[?h, Pending []]" 1 sample_job "''d''" "[]" ?pa db1 "[]"]
    by (simp add: sample_job_def)
  ultimately have "rtranclp cstep (sample_db, [?p, ?p], []) (db1, [Answered 1 ?pa [], Pending []], [(''hourly'', ''d'')])"
    by (meson rtranclp.rtrancl_into_rtrancl rtranclp.rtrancl_refl)
  then show ?thesis by blast
qed

theorem slot_contacted_at_most_once_witness: "distinct [(''hourly'', ''d'')]"
proof -
  obtain db' rs' where "rtranclp cstep
      (sample_db, [Pending [(sample_job, ''d'')], Pending [(sample_job, ''d'')]], []) (db', rs', [(''hourly'', ''d'')])"
    using sample_steps by blast
  from slot_contacted_at_most_once [OF sample_wf _ this] show ?thesis by simp
qed

text \<open>C4: no due job is missed. Let a run be started at time t. If it returns and owned its minute,
  then it has claimed the slot of that minute for every enabled job whose row is valid and whose
  cron expression matches the minute, whatever statements failed on the way and whatever the
  targets answered. And it does return, owning the minute, when the minute was free, the clock and
  the statements work, the source is a known one, and no stored job key has blanks around it: then
  no answer of a target, no failing request and no invalid row stops it. (A failing statement or a
  key with blanks around it ends the run with an exception; jobs after it wait for their next slot.)\<close>

theorem triggered_run_claims_due_jobs:
  assumes "db_wf (w_db w)" "common_time t" "common_time (minute_floor t - MINUTE_MS)"
    and "raw \<in> set (listEnabledJobs (w_db w))" "parseSchedulerJobRow (pl_url p) raw = Inr job"
    and "parseCronExpression (job_cron_expr job) = Inr c" "cronMatchesDate c (minute_floor t)"
    and "runScheduler p (Fin (of_int t)) name source w = (r, w')"
  shows "((\<exists>out. r = Inr out \<and> triggered out) \<longrightarrow> (job_key job, to_iso (minute_floor t)) \<in> dispatch_keys (w_db w'))
    \<and> (steady p \<and> normalizeTriggerSource source = Inr src \<and> keys_trimmed (w_db w)
         \<and> (name, to_iso (minute_floor t)) \<notin> minute_keys (w_db w) \<longrightarrow>
       (\<exists>out. r = Inr out \<and> triggered out) \<and> (job_key job, to_iso (minute_floor t)) \<in> dispatch_keys (w_db w'))"
proof -
  have claimed: "(job_key job, to_iso (minute_floor t)) \<in> dispatch_keys (w_db w')"
    if out: "\<exists>out. r = Inr out \<and> triggered out"
  proof -
    from out obtain i nm st ew slot sr s where "r = Inr (Triggered i nm st ew slot sr s)"
      by (auto elim: triggered.elims)
    with run_dispatches_due_jobs [OF assms(1-3) _ assms(4-7)] assms(8) show ?thesis by simp
  qed
  have "\<exists>out. r = Inr out \<and> triggered out"
    if "steady p" "normalizeTriggerSource source = Inr src" "keys_trimmed (w_db w)"
      "(name, to_iso (minute_floor t)) \<notin> minute_keys (w_db w)"
    using steady_run_returns [OF that(1) assms(1) that(3,2) assms(2,3) that(4)] assms(8) by simp
  with claimed show ?thesis by blast
qed

theorem triggered_run_claims_due_jobs_witness:
  "\<exists>job. parseSchedulerJobRow (pl_url sample_platform) sample_job_row = Inr job
     \<and> (\<exists>out. fst sample_run = Inr out \<and> triggered out)
     \<and> (job_key job, to_iso (minute_floor sample_now)) \<in> dispatch_keys (w_db (snd sample_run))"
proof -
  obtain job c where j: "parseSchedulerJobRow (pl_url sample_platform) sample_job_row = Inr job"
    "parseCronExpression (job_cron_expr job) = Inr c" "cronMatchesDate c (minute_floor sample_now)"
    using sample_job_due by blast
  have w: "db_wf (w_db sample_world)" "sample_job_row \<in> set (listEnabledJobs (w_db sample_world))"
    "keys_trimmed (w_db sample_world)" "(SCHEDULER_NAME, slot) \<notin> minute_keys (w_db sample_world)" for slot
    using sample_wf sample_listed sample_trimmed by (simp_all add: sample_world_def sample_db_def minute_keys_def)
  note run = triggered_run_claims_due_jobs [OF w(1) sample_times w(2) j,
      of SCHEDULER_NAME "JStr ''cloudflare_cron''" "fst sample_run" "snd sample_run" "''cloudflare_cron''"]
  show ?thesis
    using run [THEN conjunct2, THEN mp] sample_steady sample_source w(3,4) j(1) by (simp add: sample_run_def)
qed

text \<open>C6: a minute is run at most once. After an invocation that returned, an invocation of the same
  scheduler in the same minute leaves the world as it is (no claim, no request) and can only
  report that the minute is taken.\<close>

theorem minute_run_at_most_once:
  assumes "runScheduler p n1 name src1 w = (Inr r1, w1)"
    and "canonicalMinuteSlot n2 = canonicalMinuteSlot n1"
  shows "snd (runScheduler q n2 name src2 w1) = w1
    \<and> (case fst (runScheduler q n2 name src2 w1) of Inr r2 \<Rightarrow> \<not> triggered r2 | Inl e \<Rightarrow> True)"
proof -
  obtain slot where s: "canonicalMinuteSlot n2 = Inr slot" "(name, slot) \<in> minute_keys (w_db w1)"
    using run_claims_minute [of p n1 name src1 w r1] assms by auto
  show ?thesis
    using run_in_claimed_minute [OF s, of q src2] by (fastforce split: sum.split)
qed

theorem minute_run_at_most_once_witness:
  "snd (runScheduler sample_platform (Fin (of_int (sample_now + 5000))) SCHEDULER_NAME
     (JStr ''external_watchdog'') (snd sample_run)) = snd sample_run"
proof -
  obtain r where r: "fst sample_run = Inr r" using sample_run_triggered by blast
  have s: "runScheduler sample_platform (Fin (of_int sample_now)) SCHEDULER_NAME
      (JStr ''cloudflare_cron'') sample_world = (Inr r, snd sample_run)"
    using r by (simp add: sample_run_def prod_eq_iff)
  have c: "canonicalMinuteSlot (Fin (of_int (sample_now + 5000))) = canonicalMinuteSlot (Fin (of_int sample_now))"
    by code_simp
  from minute_run_at_most_once [OF s c] show ?thesis by blast
qed

text \<open>C9: every request is paid for by a claim, whatever statements fail, with or without having taken
  effect. Over well-formed tables a run keeps the tables well-formed (keys unique), sends no more
  requests than it adds dispatch rows, and leaves at most one of the rows it added in status
  claimed: none when it returns, and none when the clock and the statements work, also if it throws.
  (The one row is that of the slot at which the run was cut off by a failing statement.)\<close>

theorem requests_accounted_for:
  assumes "db_wf (w_db w)" "runScheduler p n name src w = (r, w')"
    and left: "left = {row \<in> set (db_dispatches (w_db w')). disp_status row = ''claimed'' \<and> row \<notin> set (db_dispatches (w_db w))}"
  shows "db_wf (w_db w')
    \<and> length (w_sent w') + length (db_dispatches (w_db w)) \<le> length (w_sent w) + length (db_dispatches (w_db w'))
    \<and> card left \<le> 1 \<and> (steady p \<or> (\<exists>out. r = Inr out) \<longrightarrow> left = {})"
proof -
  have "left = left_claimed w w'" unfolding left left_claimed_def by simp
  moreover have "finite (left_claimed w w')" by (simp add: left_claimed_def)
  ultimately show ?thesis
    using runScheduler_settles [of p n name src, unfolded settles_def, rule_format, of w] assms(1,2)
    by (auto simp: accounted_def split: if_splits)
qed

text \<open>The sample run, and the same run over a store that loses the answer of the claim of a slot.\<close>

definition losing_platform :: platform where
  "losing_platform = sample_platform\<lparr>pl_store := (\<lambda>w. if w_tick w = 1 then Some (StatementLost (JsError ''D1'')) else None)\<rparr>"

definition losing_run :: "run_outcome res \<times> world" where
  "losing_run = runScheduler losing_platform (Fin (of_int sample_now)) SCHEDULER_NAME
     (JStr ''cloudflare_cron'') sample_world"

lemma losing_run_leaves_one: "\<exists>row \<in> set (db_dispatches (w_db (snd losing_run))). disp_status row = ''claimed''"
proof -
  have "list_ex (\<lambda>row. disp_status row = ''claimed'') (db_dispatches (w_db (snd losing_run)))" by code_simp
  then show ?thesis by (simp add: list_ex_iff)
qed

theorem requests_accounted_for_witness:
  "length (w_sent (snd sample_run)) \<le> length (db_dispatches (w_db (snd sample_run)))
   \<and> {row \<in> set (db_dispatches (w_db (snd sample_run))). disp_status row = ''claimed''} = {}
   \<and> card {row \<in> set (db_dispatches (w_db (snd losing_run))). disp_status row = ''claimed''} = 1"
proof -
  have w: "db_wf (w_db sample_world)" using sample_wf by (simp add: sample_world_def)
  have none: "db_dispatches (w_db sample_world) = []" "w_sent sample_world = []"
    by (simp_all add: sample_world_def sample_db_def)
  let ?left = "{row \<in> set (db_dispatches (w_db (snd losing_run))). disp_status row = ''claimed''}"
  have "runScheduler sample_platform (Fin (of_int sample_now)) SCHEDULER_NAME (JStr ''cloudflare_cron'') sample_world
      = (fst sample_run, snd sample_run)"
    "runScheduler losing_platform (Fin (of_int sample_now)) SCHEDULER_NAME (JStr ''cloudflare_cron'') sample_world
      = (fst losing_run, snd losing_run)"
    by (simp_all add: sample_run_def losing_run_def)
  note runs = this [THEN requests_accounted_for [OF w _ refl]]
  have "card ?left \<le> 1" using runs(2) none by simp
  moreover have "?left \<noteq> {}" using losing_run_leaves_one by auto
  then have "0 < card ?left" by (simp add: card_gt_0_iff)
  ultimately have "card ?left = 1" by linarith
  moreover have "length (w_sent (snd sample_run)) \<le> length (db_dispatches (w_db (snd sample_run)))"
    using runs(1) none by simp
  moreover have "{row \<in> set (db_dispatches (w_db (snd sample_run))). disp_status row = ''claimed''} = {}"
    using runs(1) none sample_steady by simp
  ultimately show ?thesis by simp
qed

text \<open>The counters of a window tell the truth: all jobs are checked, the claims counted are the
  rows added, and dispatched \<le> claimed \<le> due.\<close>

lemma window_counters:
  assumes "db_wf (w_db w)" "dispatchDueJobsForWindow p jobs a b w = (Inr s, w')"
  shows "su_checked s = int (length jobs)
    \<and> su_claimed s = int (length (db_dispatches (w_db w'))) - int (length (db_dispatches (w_db w)))
    \<and> 0 \<le> su_dispatched s \<and> su_dispatched s \<le> su_claimed s \<and> su_claimed s \<le> su_due s"
  using counts_window [OF assms] by (simp add: counts_ok_def)

text \<open>C28: the window of the run of minute m, read with the lead of half a minute, holds exactly m:
  a job is due in it when its expression matches m, and then at the slot m alone.\<close>

theorem window_holds_its_minute:
  assumes "MINUTE_MS dvd m" "common_time m" "parseCronExpression (job_cron_expr job) = Inr c"
  shows "dueSlotsForJob job (m - MINUTE_MS) m = Inr (if cronMatchesDate c m then [to_iso m] else [])"
  by (rule due_slots_of_minute [OF assms])

theorem window_holds_its_minute_witness:
  "\<exists>c. parseCronExpression ''*/5 * * * *'' = Inr c \<and> dueSlotsForJob sample_job 1700000040000 1700000100000
     = Inr (if cronMatchesDate c 1700000100000 then [to_iso 1700000100000] else [])"
proof -
  have "is_ok (parseCronExpression ''*/5 * * * *'')" by code_simp
  then obtain c where c: "parseCronExpression ''*/5 * * * *'' = Inr c" by (auto simp: is_ok_iff)
  have "MINUTE_MS dvd 1700000100000" "common_time 1700000100000"
    by (simp_all add: MINUTE_MS_def common_time_def)
  from window_holds_its_minute [OF this, of sample_job c] c show ?thesis
    by (simp add: MINUTE_MS_def sample_job_def)
qed

text \<open>C29: the due times of a window are exactly the matching whole minutes in it, its start excluded
  and its end included.\<close>

theorem due_times_are_matching_minutes:
  assumes "parseCronExpression expr = Inr c" "cronDueTimes expr a b = Inr due"
  shows "set due = to_iso ` {t. a < t \<and> t \<le> b \<and> MINUTE_MS dvd t \<and> cronMatchesDate c t}"
  by (rule cronDueTimes_mem [OF assms])

theorem due_times_are_matching_minutes_witness:
  "\<exists>c. set [''2023-11-14T22:15:00.000Z''] =
     to_iso ` {t. 1700000040000 < t \<and> t \<le> 1700000130000 \<and> MINUTE_MS dvd t \<and> cronMatchesDate c t}"
proof -
  have "is_ok (parseCronExpression ''*/5 * * * *'')" by code_simp
  then obtain c where c: "parseCronExpression ''*/5 * * * *'' = Inr c" by (auto simp: is_ok_iff)
  have d: "cronDueTimes ''*/5 * * * *'' 1700000040000 1700000130000 = Inr [''2023-11-14T22:15:00.000Z'']"
    by code_simp
  from due_times_are_matching_minutes [OF c d] show ?thesis by blast
qed

text \<open>Adjacent windows tile: evaluating (a, c] at once is evaluating (a, b] and then (b, c], so no
  minute is lost or seen twice at the seam.\<close>

lemma windows_tile:
  assumes "a \<le> b" "b \<le> c"
  shows "cronDueTimes expr a c = res_bind (cronDueTimes expr a b)
     (\<lambda>us. res_map (\<lambda>vs. us @ vs) (cronDueTimes expr b c))"
  by (rule cronDueTimes_tile [OF assms])

text \<open>An accepted cron expression has five fields, each \<open>*\<close> or a non-empty duplicate-free list of
  values in the range of its field, Sunday as 0 only.\<close>

lemma parsed_cron_well_formed:
  assumes "parseCronExpression expr = Inr c"
  shows "wf_cron c"
  by (rule parseCronExpression_wf [OF assms])

text \<open>A cron token denotes start, start + step, start + 2 step, ... up to its end, with 7 read as
  Sunday in the day-of-week field; the step is positive, so the expansion ends.\<close>

lemma cron_token_denotes_progression:
  assumes "expandCronToken tok f mn mx names = Inr vs"
  shows "\<exists>base step s e. token_step tok (js_upper (js_trim tok)) f = Inr (base, step)
     \<and> token_range tok base f mn mx names = Inr (s, e) \<and> 0 < step \<and> s \<le> e
     \<and> set vs = {fold_sunday (f = ''day-of-week'') (s + int k * step) | k. s + int k * step \<le> e}"
  by (rule expandCronToken_mem [OF assms])

text \<open>An ingest job is triggered only when it is enabled and every readable start of its runs lies
  at least the minimal gap back, and every readable success at least the interval.\<close>

lemma ingest_trigger_throttled:
  assumes "dec_wouldTrigger (evaluateIngestJob job rows now)" "row \<in> set rows" "common_time now"
  shows "job_enabled job
    \<and> (jget job ''min_gap_minutes'' = JInt g \<longrightarrow> 0 < g \<longrightarrow>
         first_timestamp [''run_started_at'', ''created_at''] row = Some t \<longrightarrow> t + g * 60000 \<le> now)
    \<and> (jget job ''interval_minutes'' = JInt i \<longrightarrow> 0 < i \<longrightarrow> ingest_success row \<longrightarrow>
         success_timestamp row = Some u \<longrightarrow> u + i * 60000 \<le> now)"
proof -
  note tr = evaluateIngestJob_trigger [OF assms(1)]
  have near: "\<bar>now - m\<bar> < 2 ^ 53" if "\<bar>m\<bar> \<le> MAX_TIME" for m
    using that assms(3) by (simp add: common_time_def MAX_TIME_def abs_if split: if_splits)
  have "t + g * 60000 \<le> now" if "jget job ''min_gap_minutes'' = JInt g" "0 < g"
    "first_timestamp [''run_started_at'', ''created_at''] row = Some t"
    using latest_started_ge [OF assms(2) that(3)] tr(3) minutes_not_below [of _ now g t] near that(1,2)
    by metis
  moreover have "u + i * 60000 \<le> now" if "jget job ''interval_minutes'' = JInt i" "0 < i"
    "ingest_success row" "success_timestamp row = Some u"
    using latest_success_ge [OF assms(2), of ingest_success u, OF that(3,4)] tr(2) minutes_not_below [of _ now i u] near that(1,2)
    by metis
  ultimately show ?thesis using tr(1) by blast
qed

text \<open>A daily task is triggered only when it is enabled, its scheduled time of the day is readable,
  the time due (scheduled time plus delay) is reached, no success is recorded since the scheduled
  time, and the latest start is not inside the minimal gap.\<close>

lemma daily_trigger_conditions:
  assumes "evaluateDailyTaskJob job rows now = Inr d" "dec_wouldTrigger d"
  shows "job_enabled job
    \<and> (\<exists>s. combineUtcDateAndTime (take 10 (to_iso now)) (jget job ''scheduled_time_utc'') = Some s
       \<and> \<not> num_lt (Fin (of_int now)) (num_add s (num_mul (js_number (jget job ''due_after_minutes'')) (Fin 60000)))
       \<and> (\<forall>m. rs_latestSuccessAt (latestRunState rows [''started_at'', ''scheduled_at_utc'',
              ''scheduled_or_started_at''] daily_success daily_in_flight) = Some m \<longrightarrow> \<not> num_le s (Fin (of_int m))))
    \<and> (\<forall>m. rs_latestStartedAt (latestRunState rows [''started_at'', ''scheduled_at_utc'',
              ''scheduled_or_started_at''] daily_success daily_in_flight) = Some m \<longrightarrow>
         \<not> minutes_below (minutesBetween (JInt m) now) (jget job ''min_gap_minutes''))"
  using evaluateDailyTaskJob_trigger [OF assms] by blast

text \<open>The preview of a worker's answer never shows the secret of the binding, when the secret
  cannot be part of the mark that replaces it.\<close>

lemma redaction_hides_secret:
  assumes "secret \<noteq> []" "CHR ''['' \<notin> set secret" "CHR '']'' \<notin> set secret"
    "\<not> js_includes ''REDACTED'' secret"
  shows "\<not> js_includes (redact secret t) secret"
  by (rule redact_hides [OF assms])

text \<open>The HTTP handler changes nothing unless it is a POST to /run-if-due whose header is, blanks
  at its ends aside, the configured secret, non-empty and of at most 512 characters.\<close>

lemma handler_needs_secret:
  assumes "snd (handle_fetch p rq w) \<noteq> w"
  shows "in_path rq = ''/run-if-due'' \<and> in_method rq = ''POST''
    \<and> (\<exists>t. in_trigger_header rq = Some t
         \<and> js_trim t = js_trim (readSecret (pl_env p ''UK_AQ_SCHEDULER_TRIGGER_SECRET''))
         \<and> js_trim t \<noteq> [] \<and> length (js_trim t) \<le> 512)"
  using fetch_unauthorised(1) [of rq p w] trigger_secret_exact [of p "in_trigger_header rq"] assms by blast

definition sample_rq :: http_incoming where
  "sample_rq = \<lparr>in_path = ''/run-if-due'', in_method = ''POST'', in_trigger_header = Some '' s3cret''\<rparr>"

text \<open>A job row that parses is ready to be dispatched: its key and expression are not blank, its
  flags are 0 or 1, its time zone is UTC, and its target has a repository, workflow and ref, or a
  URL with a method and header object, or an absolute HTTPS URL with a secret binding of the
  permitted form.\<close>

lemma parsed_job_ready:
  assumes "parseSchedulerJobRow url row = Inr job"
  shows "job_key job \<noteq> [] \<and> job_cron_expr job \<noteq> [] \<and> job_enabled_flag job \<in> {0, 1} \<and> job_dry_run job \<in> {0, 1}
    \<and> job_timezone job \<in> {''UTC'', ''Etc/UTC''} \<and> target_ready url (job_target job)"
  using parseSchedulerJobRow_ready [OF assms] by blast

end
